(* ===== verification/RustStrings.thy ===== *)
theory RustStrings
  imports Prelude "HOL-Library.Char_ord"
begin

text \<open>
  The part of the Rust standard library on strings and addresses that the sources call:
  UTF-8 decoding, \<open>trim\<close>, \<open>split\<close>, \<open>split_once\<close>, \<open>strip_prefix\<close>, the ASCII predicates,
  \<open>str::parse\<close> for unsigned integers and for \<open>Ipv4Addr\<close>, \<open>Ipv6Addr\<close> and \<open>IpAddr\<close>.
  A string is the list of its UTF-8 bytes.
\<close>

section \<open>Characters\<close>

text \<open>\<open>s.chars()\<close>: the scalar values of a UTF-8 byte list.\<close>

fun chars :: "string \<Rightarrow> int list" where
  "chars [] = []"
| "chars (c # cs) =
     (let b = (of_char c :: int) in
      if b < 128 then b # chars cs
      else if b < 224 then
        (case cs of x # r \<Rightarrow> (b mod 32 * 64 + of_char x mod 64) # chars r | _ \<Rightarrow> [])
      else if b < 240 then
        (case cs of x # y # r \<Rightarrow>
            ((b mod 16 * 64 + of_char x mod 64) * 64 + of_char y mod 64) # chars r
         | _ \<Rightarrow> [])
      else
        (case cs of x # y # z # r \<Rightarrow>
            (((b mod 8 * 64 + of_char x mod 64) * 64 + of_char y mod 64) * 64
              + of_char z mod 64) # chars r
         | _ \<Rightarrow> []))"

text \<open>\<open>char::is_control\<close>: the general category Cc.\<close>

definition is_control :: "int \<Rightarrow> bool" where
  "is_control c \<longleftrightarrow> c < 32 \<or> 127 \<le> c \<and> c < 160"

text \<open>\<open>char::is_whitespace\<close>: the property White_Space.\<close>

definition is_whitespace :: "int \<Rightarrow> bool" where
  "is_whitespace c \<longleftrightarrow> 9 \<le> c \<and> c \<le> 13 \<or> c = 32 \<or> c = 133 \<or> c = 160 \<or> c = 5760
     \<or> 8192 \<le> c \<and> c \<le> 8202 \<or> c = 8232 \<or> c = 8233 \<or> c = 8239 \<or> c = 8287 \<or> c = 12288"

definition has_control :: "string \<Rightarrow> bool" where
  "has_control s \<longleftrightarrow> list_ex is_control (chars s)"

definition is_ascii_digit :: "char \<Rightarrow> bool" where
  "is_ascii_digit c \<longleftrightarrow> CHR ''0'' \<le> c \<and> c \<le> CHR ''9''"

definition is_ascii_lower :: "char \<Rightarrow> bool" where
  "is_ascii_lower c \<longleftrightarrow> CHR ''a'' \<le> c \<and> c \<le> CHR ''z''"

definition is_ascii_upper :: "char \<Rightarrow> bool" where
  "is_ascii_upper c \<longleftrightarrow> CHR ''A'' \<le> c \<and> c \<le> CHR ''Z''"

definition is_ascii_alphanumeric :: "char \<Rightarrow> bool" where
  "is_ascii_alphanumeric c \<longleftrightarrow> is_ascii_digit c \<or> is_ascii_lower c \<or> is_ascii_upper c"

definition is_ascii_hexdigit :: "char \<Rightarrow> bool" where
  "is_ascii_hexdigit c \<longleftrightarrow> is_ascii_digit c
     \<or> CHR ''a'' \<le> c \<and> c \<le> CHR ''f'' \<or> CHR ''A'' \<le> c \<and> c \<le> CHR ''F''"

definition is_ascii_whitespace :: "char \<Rightarrow> bool" where
  "is_ascii_whitespace c \<longleftrightarrow> (of_char c :: int) \<in> {9, 10, 12, 13, 32}"

definition to_ascii_lowercase :: "char \<Rightarrow> char" where
  "to_ascii_lowercase c = (if is_ascii_upper c then char_of (of_char c + 32 :: int) else c)"

definition eq_ignore_ascii_case :: "string \<Rightarrow> string \<Rightarrow> bool" where
  "eq_ignore_ascii_case s t \<longleftrightarrow> map to_ascii_lowercase s = map to_ascii_lowercase t"

definition is_ascii :: "string \<Rightarrow> bool" where
  "is_ascii s \<longleftrightarrow> list_all (\<lambda>c. (of_char c :: int) < 128) s"

definition nul :: char where
  "nul = CHR 0x00"

section \<open>Cutting strings\<close>

text \<open>UTF-8 encoding of one scalar value, used to rebuild the trimmed string.\<close>

definition utf8 :: "int \<Rightarrow> string" where
  "utf8 c =
     (if c < 128 then [char_of c]
      else if c < 2048 then [char_of (192 + c div 64), char_of (128 + c mod 64)]
      else if c < 65536 then
        [char_of (224 + c div 4096), char_of (128 + c div 64 mod 64), char_of (128 + c mod 64)]
      else [char_of (240 + c div 262144), char_of (128 + c div 4096 mod 64),
            char_of (128 + c div 64 mod 64), char_of (128 + c mod 64)])"

definition trim :: "string \<Rightarrow> string" where
  "trim s = concat (map utf8
     (rev (dropWhile is_whitespace (rev (dropWhile is_whitespace (chars s))))))"

definition trim_end :: "string \<Rightarrow> string" where
  "trim_end s = concat (map utf8 (rev (dropWhile is_whitespace (rev (chars s)))))"

text \<open>\<open>s.trim().is_empty()\<close>.\<close>

lemma list_all_dropWhile: "list_all p (dropWhile p xs) \<longleftrightarrow> list_all p xs"
  by (induction xs) auto

lemma trim_empty_iff: "trim s = [] \<longleftrightarrow> list_all is_whitespace (chars s)"
proof -
  have ne: "utf8 c \<noteq> []" for c by (simp add: utf8_def)
  have cm: "concat (map utf8 xs) = [] \<longleftrightarrow> xs = []" for xs
    by (cases xs) (simp_all add: ne)
  have "trim s = [] \<longleftrightarrow> dropWhile is_whitespace (rev (dropWhile is_whitespace (chars s))) = []"
    by (simp only: trim_def cm rev_is_Nil_conv)
  also have "\<dots> \<longleftrightarrow> list_all is_whitespace (dropWhile is_whitespace (chars s))"
    by (simp only: dropWhile_eq_Nil_conv list_all_iff set_rev)
  also have "\<dots> \<longleftrightarrow> list_all is_whitespace (chars s)"
    by (rule list_all_dropWhile)
  finally show ?thesis .
qed

fun split_by :: "(char \<Rightarrow> bool) \<Rightarrow> string \<Rightarrow> string list" where
  "split_by p [] = [[]]"
| "split_by p (c # cs) =
     (if p c then [] # split_by p cs
      else (case split_by p cs of [] \<Rightarrow> [[c]] | w # ws \<Rightarrow> (c # w) # ws))"

lemma split_by_nonempty [simp]: "split_by p s \<noteq> []"
  by (cases s) (auto split: list.splits)

lemma split_by_pieces: "w \<in> set (split_by p s) \<Longrightarrow> c \<in> set w \<Longrightarrow> \<not> p c \<and> c \<in> set s"
proof (induction s arbitrary: w)
  case (Cons d ds)
  obtain v vs where v: "split_by p ds = v # vs"
    by (cases "split_by p ds") simp_all
  show ?case
  proof (cases "p d")
    case True
    with Cons show ?thesis by auto
  next
    case False
    with Cons.prems v have "w = d # v \<or> w \<in> set vs" by simp
    with Cons.IH [of v] Cons.IH [of w] Cons.prems v False show ?thesis by auto
  qed
qed simp

fun split_once :: "char \<Rightarrow> string \<Rightarrow> (string \<times> string) option" where
  "split_once d [] = None"
| "split_once d (c # cs) =
     (if c = d then Some ([], cs)
      else map_option (\<lambda>(a, b). (c # a, b)) (split_once d cs))"

lemma split_once_Some: "split_once d s = Some (a, b) \<Longrightarrow> s = a @ d # b \<and> d \<notin> set a"
  by (induction s arbitrary: a) (auto split: if_splits)

lemma split_once_None: "split_once d s = None \<longleftrightarrow> d \<notin> set s"
  by (induction s) auto

definition split_ascii_whitespace :: "string \<Rightarrow> string list" where
  "split_ascii_whitespace s = filter (\<lambda>w. w \<noteq> []) (split_by is_ascii_whitespace s)"

definition starts_with :: "string \<Rightarrow> string \<Rightarrow> bool" where
  "starts_with p s \<longleftrightarrow> take (length p) s = p"

definition ends_with :: "string \<Rightarrow> string \<Rightarrow> bool" where
  "ends_with p s \<longleftrightarrow> starts_with (rev p) (rev s)"

definition strip_prefix :: "string \<Rightarrow> string \<Rightarrow> string option" where
  "strip_prefix p s = (if starts_with p s then Some (drop (length p) s) else None)"

definition strip_suffix :: "string \<Rightarrow> string \<Rightarrow> string option" where
  "strip_suffix p s = map_option rev (strip_prefix (rev p) (rev s))"

lemma strip_prefix_Some: "strip_prefix p s = Some t \<Longrightarrow> s = p @ t"
  by (auto simp: strip_prefix_def starts_with_def split: if_splits)
     (metis append_take_drop_id)

text \<open>\<open>s.contains(pattern)\<close> for a string pattern.\<close>

fun contains_str :: "string \<Rightarrow> string \<Rightarrow> bool" where
  "contains_str p [] = (p = [])"
| "contains_str p (c # cs) = (starts_with p (c # cs) \<or> contains_str p cs)"

text \<open>\<open>s.trim_start_matches(c)\<close>, \<open>s.rsplit(c).next()\<close>.\<close>

definition trim_start_matches :: "char \<Rightarrow> string \<Rightarrow> string" where
  "trim_start_matches d s = dropWhile (\<lambda>c. c = d) s"

definition trim_end_matches :: "char \<Rightarrow> string \<Rightarrow> string" where
  "trim_end_matches d s = rev (dropWhile (\<lambda>c. c = d) (rev s))"

text \<open>\<open>s.lines()\<close>: the pieces between line feeds, without a last empty one, each without a final
  carriage return.\<close>

definition rust_lines :: "string \<Rightarrow> string list" where
  "rust_lines s =
     (let pieces = split_by (\<lambda>c. c = CHR 0x0A) s;
          pieces = (if last pieces = [] then butlast pieces else pieces)
      in map (\<lambda>l. case strip_suffix [CHR 0x0D] l of Some t \<Rightarrow> t | None \<Rightarrow> l) pieces)"

text \<open>\<open>String::from_utf8\<close> accepts exactly the well-formed byte sequences.\<close>

definition byte_in :: "int \<Rightarrow> int \<Rightarrow> char \<Rightarrow> bool" where
  "byte_in lo hi c \<longleftrightarrow> lo \<le> of_char c \<and> of_char c \<le> hi"

fun utf8_valid :: "string \<Rightarrow> bool" where
  "utf8_valid [] = True"
| "utf8_valid (c # cs) =
     (let b = (of_char c :: int) in
      if b < 128 then utf8_valid cs
      else if 194 \<le> b \<and> b \<le> 223 then
        (case cs of x # r \<Rightarrow> byte_in 128 191 x \<and> utf8_valid r | _ \<Rightarrow> False)
      else if 224 \<le> b \<and> b \<le> 239 then
        (case cs of x # y # r \<Rightarrow>
           byte_in (if b = 224 then 160 else 128) (if b = 237 then 159 else 191) x
           \<and> byte_in 128 191 y \<and> utf8_valid r
         | _ \<Rightarrow> False)
      else if 240 \<le> b \<and> b \<le> 244 then
        (case cs of x # y # z # r \<Rightarrow>
           byte_in (if b = 240 then 144 else 128) (if b = 244 then 143 else 191) x
           \<and> byte_in 128 191 y \<and> byte_in 128 191 z \<and> utf8_valid r
         | _ \<Rightarrow> False)
      else False)"

definition last_piece :: "char \<Rightarrow> string \<Rightarrow> string" where
  "last_piece d s = rev (takeWhile (\<lambda>c. c \<noteq> d) (rev s))"

text \<open>\<open>words.join(separator)\<close>.\<close>

fun join :: "string \<Rightarrow> string list \<Rightarrow> string" where
  "join sep [] = []"
| "join sep [x] = x"
| "join sep (x # y # ys) = x @ sep @ join sep (y # ys)"

text \<open>\<open>format!("{n}")\<close> for an unsigned number.\<close>

fun show_nat :: "nat \<Rightarrow> string" where
  "show_nat n =
     (if n < 10 then [char_of (48 + int n)]
      else show_nat (n div 10) @ [char_of (48 + int (n mod 10))])"

declare show_nat.simps [simp del]

text \<open>\<open>s.len()\<close> and \<open>usize::checked_add\<close> on a 64-bit target; sizes are compared as integers.\<close>

abbreviation len :: "'a list \<Rightarrow> int" where
  "len xs \<equiv> int (length xs)"

definition usize_checked_add :: "int \<Rightarrow> int \<Rightarrow> int option" where
  "usize_checked_add a b = (if a + b < 2 ^ 64 then Some (a + b) else None)"

section \<open>Parsing numbers\<close>

definition digit_value :: "char \<Rightarrow> int" where
  "digit_value c =
     (if is_ascii_digit c then of_char c - 48
      else if is_ascii_lower c then of_char c - 87
      else of_char c - 55)"

definition digits_value :: "int \<Rightarrow> string \<Rightarrow> int" where
  "digits_value radix ds = foldl (\<lambda>n c. n * radix + digit_value c) 0 ds"

text \<open>
  \<open>str::parse\<close> for an unsigned integer type below \<open>bound\<close>: one optional \<open>+\<close>, then at
  least one decimal digit, no overflow.
\<close>

definition parse_uint :: "int \<Rightarrow> string \<Rightarrow> int option" where
  "parse_uint bound s =
     (let ds = (case s of c # cs \<Rightarrow> if c = CHR ''+'' then cs else s | [] \<Rightarrow> [])
      in if ds = [] \<or> \<not> list_all is_ascii_digit ds then None
         else if digits_value 10 ds < bound then Some (digits_value 10 ds) else None)"

lemma parse_uint_bound: "parse_uint bound s = Some n \<Longrightarrow> n < bound"
  by (auto simp: parse_uint_def Let_def split: if_splits)

definition parse_word :: "string \<Rightarrow> 'a::len word option" where
  "parse_word s = map_option of_int (parse_uint (2 ^ LENGTH('a)) s)"

section \<open>Parsing addresses\<close>

text \<open>
  The recursive-descent parser of \<open>core::net\<close>. A reader takes the rest of the input and
  returns the value with what is left, or fails without consuming. \<open>read_number\<close> refuses
  more than \<open>max_digits\<close> digits and, unless allowed, a leading zero.
\<close>

definition read_number :: "int \<Rightarrow> nat \<Rightarrow> bool \<Rightarrow> int \<Rightarrow> string \<Rightarrow> (int \<times> string) option" where
  "read_number radix max_digits zero_prefix bound s =
     (let p = (if radix = 10 then is_ascii_digit else is_ascii_hexdigit);
          ds = takeWhile p s
      in if length ds > max_digits \<or> ds = [] then None
         else if \<not> zero_prefix \<and> hd ds = CHR ''0'' \<and> length ds > 1 then None
         else if digits_value radix ds < bound
           then Some (digits_value radix ds, drop (length ds) s) else None)"

definition read_separator ::
  "char \<Rightarrow> nat \<Rightarrow> (string \<Rightarrow> ('a \<times> string) option) \<Rightarrow> string \<Rightarrow> ('a \<times> string) option" where
  "read_separator sep i inner s =
     (if i = 0 then inner s
      else case s of c # cs \<Rightarrow> if c = sep then inner cs else None | [] \<Rightarrow> None)"

fun read_octets :: "nat \<Rightarrow> nat \<Rightarrow> string \<Rightarrow> (int list \<times> string) option" where
  "read_octets i 0 s = Some ([], s)"
| "read_octets i (Suc n) s =
     (case read_separator (CHR ''.'') i (read_number 10 3 False 256) s of
        None \<Rightarrow> None
      | Some (g, r) \<Rightarrow> map_option (\<lambda>(gs, t). (g # gs, t)) (read_octets (Suc i) n r))"

definition read_ipv4 :: "string \<Rightarrow> (int list \<times> string) option" where
  "read_ipv4 s = read_octets 0 4 s"

definition groups_value :: "int \<Rightarrow> int list \<Rightarrow> int" where
  "groups_value base gs = foldl (\<lambda>n g. n * base + g) 0 gs"

definition parse_ipv4 :: "string \<Rightarrow> u32 option" where
  "parse_ipv4 s =
     (if length s > 15 then None
      else case read_ipv4 s of
        Some (gs, []) \<Rightarrow> Some (of_int (groups_value 256 gs))
      | _ \<Rightarrow> None)"

text \<open>
  Groups \<open>i, i + 1, \<dots>\<close> of an IPv6 address, at most \<open>n\<close> of them; a trailing embedded
  IPv4 address stands for two groups and ends the reading.
\<close>

fun read_groups :: "nat \<Rightarrow> nat \<Rightarrow> string \<Rightarrow> int list \<times> bool \<times> string" where
  "read_groups i 0 s = ([], False, s)"
| "read_groups i (Suc n) s =
     (case (if 1 \<le> n then read_separator (CHR '':'') i read_ipv4 s else None) of
        Some (gs, r) \<Rightarrow> ([groups_value 256 (take 2 gs), groups_value 256 (drop 2 gs)], True, r)
      | None \<Rightarrow>
          (case read_separator (CHR '':'') i (read_number 16 4 True 65536) s of
             None \<Rightarrow> ([], False, s)
           | Some (g, r) \<Rightarrow>
               (case read_groups (Suc i) n r of (gs, v4, t) \<Rightarrow> (g # gs, v4, t))))"

definition read_ipv6 :: "string \<Rightarrow> (int list \<times> string) option" where
  "read_ipv6 s =
     (case read_groups 0 8 s of (front, v4, r) \<Rightarrow>
        if length front = 8 then Some (front, r)
        else if v4 then None
        else case r of
          c # d # r' \<Rightarrow>
            if c = CHR '':'' \<and> d = CHR '':'' then
              (case read_groups 0 (8 - (length front + 1)) r' of (rear, _, t) \<Rightarrow>
                 Some (front @ replicate (8 - length front - length rear) 0 @ rear, t))
            else None
        | _ \<Rightarrow> None)"

definition parse_ipv6 :: "string \<Rightarrow> u128 option" where
  "parse_ipv6 s =
     (case read_ipv6 s of
        Some (gs, []) \<Rightarrow> Some (of_int (groups_value 65536 gs))
      | _ \<Rightarrow> None)"

end
