(* ===== verification/ErrorModel.thy ===== *)
theory ErrorModel
  imports RustStrings
begin

text \<open>
  \<open>crates/model/src/error.rs\<close>: the error codes shared by every process of the program, the
  error value that travels over the IPC, its two constructors and the process exit code that
  the command line derives from it.
\<close>

datatype error_code =
    InvalidInput
  | UnsupportedProtocol
  | UnsupportedAuthentication
  | EngineUnavailable
  | RuntimeFailure
  | AuthenticationRequired
  | AuthenticationRejected
  | ServiceUnavailable
  | AuthorizationDenied
  | Busy
  | Conflict
  | NotFound
  | CorruptStorage
  | NewerSchema
  | KeyringUnavailable
  | CertificateRejected
  | Cancelled
  | ProtocolViolation
  | NetworkFailure
  | RecoveryRequired

record err =
  code :: error_code
  message :: string
  details :: "string option"

type_synonym 'a result = "err + 'a"

definition new_error :: "error_code \<Rightarrow> string \<Rightarrow> err" where
  "new_error c m = \<lparr>code = c, message = m, details = None\<rparr>"

definition invalid :: "string \<Rightarrow> err" where
  "invalid m = new_error InvalidInput m"

definition exit_code :: "err \<Rightarrow> u8" where
  "exit_code e =
     (case code e of
        InvalidInput \<Rightarrow> 2
      | UnsupportedProtocol \<Rightarrow> 2
      | ProtocolViolation \<Rightarrow> 2
      | AuthenticationRequired \<Rightarrow> 3
      | AuthenticationRejected \<Rightarrow> 3
      | UnsupportedAuthentication \<Rightarrow> 3
      | KeyringUnavailable \<Rightarrow> 3
      | CertificateRejected \<Rightarrow> 3
      | ServiceUnavailable \<Rightarrow> 4
      | AuthorizationDenied \<Rightarrow> 4
      | Busy \<Rightarrow> 5
      | Conflict \<Rightarrow> 5
      | Cancelled \<Rightarrow> 130
      | _ \<Rightarrow> 1)"

lemma code_new_error [simp]: "code (new_error c m) = c"
  by (simp add: new_error_def)

lemma code_invalid [simp]: "code (invalid m) = InvalidInput"
  by (simp add: invalid_def)

lemma exit_code_nonzero: "exit_code e \<noteq> 0"
  by (cases "code e") (simp_all add: exit_code_def)

end
