(* ===== verification/NetworkModel.thy ===== *)
theory NetworkModel
  imports ErrorModel "HOL-Library.Product_Lexorder"
begin

text \<open>
  \<open>crates/model/src/network.rs\<close>: addresses, prefixes and the negotiated tunnel configuration,
  with the validation that every consumer of a configuration runs first. The predicates on
  \<open>IpAddr\<close> are those of \<open>core::net\<close>.
\<close>

section \<open>Addresses\<close>

datatype ip_addr = V4 u32 | V6 u128

definition is_ipv4 :: "ip_addr \<Rightarrow> bool" where
  "is_ipv4 a = (case a of V4 _ \<Rightarrow> True | V6 _ \<Rightarrow> False)"

definition is_ipv6 :: "ip_addr \<Rightarrow> bool" where
  "is_ipv6 a = (case a of V4 _ \<Rightarrow> False | V6 _ \<Rightarrow> True)"

lemma is_ip_simps [simp]:
  "is_ipv4 (V4 x)" "\<not> is_ipv4 (V6 y)" "\<not> is_ipv6 (V4 x)" "is_ipv6 (V6 y)"
  by (simp_all add: is_ipv4_def is_ipv6_def)

lemma is_ipv6_iff: "is_ipv6 a \<longleftrightarrow> \<not> is_ipv4 a"
  by (cases a) simp_all

definition is_unspecified :: "ip_addr \<Rightarrow> bool" where
  "is_unspecified a = (case a of V4 x \<Rightarrow> x = 0 | V6 y \<Rightarrow> y = 0)"

definition is_multicast :: "ip_addr \<Rightarrow> bool" where
  "is_multicast a = (case a of V4 x \<Rightarrow> drop_bit 28 x = 14 | V6 y \<Rightarrow> drop_bit 120 y = 255)"

definition is_broadcast :: "u32 \<Rightarrow> bool" where
  "is_broadcast x \<longleftrightarrow> x = 0xFFFFFFFF"

definition is_loopback :: "ip_addr \<Rightarrow> bool" where
  "is_loopback a = (case a of V4 x \<Rightarrow> drop_bit 24 x = 127 | V6 y \<Rightarrow> y = 1)"

definition is_unicast_link_local :: "u128 \<Rightarrow> bool" where
  "is_unicast_link_local y \<longleftrightarrow> drop_bit 118 y = 0x3FA"

definition parse_ip :: "string \<Rightarrow> ip_addr option" where
  "parse_ip s =
     (case parse_ipv4 s of Some x \<Rightarrow> Some (V4 x) | None \<Rightarrow> map_option V6 (parse_ipv6 s))"

text \<open>The derived order of \<open>IpAddr\<close>: every IPv4 address is below every IPv6 address.\<close>

instantiation ip_addr :: linorder
begin

definition less_eq_ip_addr :: "ip_addr \<Rightarrow> ip_addr \<Rightarrow> bool" where
  "less_eq_ip_addr a b =
     (case (a, b) of (V4 x, V4 y) \<Rightarrow> x \<le> y | (V4 _, V6 _) \<Rightarrow> True
      | (V6 _, V4 _) \<Rightarrow> False | (V6 x, V6 y) \<Rightarrow> x \<le> y)"

definition less_ip_addr :: "ip_addr \<Rightarrow> ip_addr \<Rightarrow> bool" where
  "less_ip_addr a b \<longleftrightarrow> a \<le> b \<and> \<not> b \<le> a"

instance
  by intro_classes
     (auto simp: less_eq_ip_addr_def less_ip_addr_def split: ip_addr.splits)

end

section \<open>Prefixes and configurations\<close>

record ip_prefix =
  address :: ip_addr
  prefix :: u8

record interface_identity =
  if_name :: string
  if_index :: u32

record network_config =
  interface :: interface_identity
  mtu :: u16
  addresses :: "ip_prefix list"
  ipv4_subnet :: "ip_prefix option"
  dns_servers :: "ip_addr list"
  search_domains :: "string list"
  split_dns :: "string list"
  full_tunnel_ipv4 :: bool
  full_tunnel_ipv6 :: bool
  split_includes :: "ip_prefix list"
  split_excludes :: "ip_prefix list"
  transport_peer :: ip_addr

datatype network_reason = PreInit | Connect | Reconnect | AttemptReconnect | DisconnectReason

definition max_network_items :: nat where
  "max_network_items = 256"

definition ip_prefix_validate :: "ip_prefix \<Rightarrow> unit result" where
  "ip_prefix_validate p =
     (if prefix p > (if is_ipv4 (address p) then 32 else 128)
      then Inl (invalid ''IP prefix length is outside address family bounds'')
      else Inr ())"

definition valid_label :: "string \<Rightarrow> bool" where
  "valid_label label \<longleftrightarrow>
     \<not> (label = [] \<or> length label > 63 \<or> starts_with ''-'' label
        \<or> starts_with ''-'' (rev label)
        \<or> \<not> list_all (\<lambda>c. is_ascii_alphanumeric c \<or> c = CHR ''-'') label)"

definition validate_domain :: "string \<Rightarrow> unit result" where
  "validate_domain domain =
     (let value = (case strip_suffix ''.'' domain of Some v \<Rightarrow> v | None \<Rightarrow> domain)
      in if value = [] \<or> length value > 253 \<or> \<not> is_ascii value
            \<or> list_ex (\<lambda>label. \<not> valid_label label) (split_by (\<lambda>c. c = CHR ''.'') value)
         then Inl (invalid ''Invalid DNS domain; use ASCII or IDNA A-label form'')
         else Inr ())"

text \<open>The network mask of an IPv4 prefix length; the shift is below 32 because 0 is apart.\<close>

definition subnet_mask :: "u8 \<Rightarrow> u32" where
  "subnet_mask p = (if p = 0 then 0 else push_bit (unat (32 - p)) (- 1))"

unbundle bit_operations_syntax

definition validate_ipv4_subnet :: "network_config \<Rightarrow> ip_prefix \<Rightarrow> unit result" where
  "validate_ipv4_subnet c subnet =
     rbind (ip_prefix_validate subnet) (\<lambda>_.
       case address subnet of
         V6 _ \<Rightarrow> Inl (invalid ''IPv4 subnet has wrong address family'')
       | V4 a \<Rightarrow>
           (let mask = subnet_mask (prefix subnet)
            in if a AND NOT mask \<noteq> 0
               then Inl (invalid ''IPv4 subnet is not a network address'')
               else if \<not> list_ex (\<lambda>value. case address value of
                               V4 ip \<Rightarrow> ip AND mask = a | V6 _ \<Rightarrow> False) (addresses c)
               then Inl (invalid ''IPv4 subnet does not contain the tunnel address'')
               else Inr ()))"

definition not_unicast :: "ip_addr \<Rightarrow> bool" where
  "not_unicast ip \<longleftrightarrow> is_unspecified ip \<or> is_multicast ip
     \<or> (case ip of V4 a \<Rightarrow> is_broadcast a | V6 _ \<Rightarrow> False)"

definition bad_interface_name :: "string \<Rightarrow> bool" where
  "bad_interface_name n \<longleftrightarrow> n = [] \<or> length n > 256
     \<or> list_ex (\<lambda>c. is_control c \<or> c = 47 \<or> c = 92) (chars n)"

definition network_config_validate :: "network_config \<Rightarrow> unit result" where
  "network_config_validate c =
     (if if_index (interface c) = 0 \<or> bad_interface_name (if_name (interface c))
      then Inl (invalid ''Invalid tunnel interface identity'')
      else if addresses c = [] \<or> length (addresses c) > max_network_items
        \<or> length (dns_servers c) > max_network_items
        \<or> length (search_domains c) > max_network_items
        \<or> length (split_dns c) > max_network_items
        \<or> length (split_includes c) > max_network_items
        \<or> length (split_excludes c) > max_network_items
      then Inl (invalid ''Network configuration has missing addresses or too many entries'')
      else let ipv6 = list_ex (\<lambda>a. is_ipv6 (address a)) (addresses c) in
      if \<not> ((if ipv6 then 1280 else 576) \<le> mtu c \<and> mtu c \<le> 9000)
      then Inl (invalid ''Invalid negotiated MTU'')
      else if full_tunnel_ipv4 c \<and> \<not> list_ex (\<lambda>a. is_ipv4 (address a)) (addresses c)
        \<or> full_tunnel_ipv6 c \<and> \<not> ipv6
      then Inl (invalid ''Full tunnel requires a negotiated address in that family'')
      else
        rbind (check_all ip_prefix_validate (addresses c @ split_includes c @ split_excludes c))
          (\<lambda>_.
        rbind (case ipv4_subnet c of
                 None \<Rightarrow> Inr () | Some subnet \<Rightarrow> validate_ipv4_subnet c subnet) (\<lambda>_.
        rbind (check_all validate_domain (search_domains c @ split_dns c)) (\<lambda>_.
        if list_ex not_unicast
             (transport_peer c # dns_servers c @ map address (addresses c))
        then Inl (invalid ''Tunnel, transport peer and DNS addresses must be unicast'')
        else if list_ex (\<lambda>a. address a = transport_peer c) (addresses c)
        then Inl (invalid ''Tunnel address cannot equal its transport peer'')
        else Inr ()))))"

section \<open>What a validated configuration satisfies\<close>

definition prefix_ok :: "ip_prefix \<Rightarrow> bool" where
  "prefix_ok p \<longleftrightarrow> prefix p \<le> (if is_ipv4 (address p) then 32 else 128)"

lemma ip_prefix_validate_iff [result_simps]:
  "ip_prefix_validate p = Inr u \<longleftrightarrow> prefix_ok p"
  by (auto simp: ip_prefix_validate_def prefix_ok_def)

lemma network_config_validate_bounds:
  assumes "network_config_validate c = Inr ()"
  shows "length (addresses c) \<le> max_network_items"
    and "length (split_includes c) \<le> max_network_items"
    and "length (split_excludes c) \<le> max_network_items"
    and "addresses c \<noteq> []"
  using assms by (auto simp: network_config_validate_def split: if_splits)

lemma network_config_validate_prefixes:
  assumes "network_config_validate c = Inr ()"
  shows "\<forall>p \<in> set (addresses c @ split_includes c @ split_excludes c). prefix_ok p"
  using assms
  by (simp add: network_config_validate_def Let_def result_simps split: if_splits)

lemma network_config_validate_subnet:
  assumes "network_config_validate c = Inr ()" and "ipv4_subnet c = Some s"
  shows "validate_ipv4_subnet c s = Inr ()"
  using assms
  by (simp add: network_config_validate_def Let_def result_simps split: if_splits)

lemma network_config_validate_subnet_ok:
  assumes "network_config_validate c = Inr ()" and "ipv4_subnet c = Some s"
  shows "prefix_ok s \<and> is_ipv4 (address s)"
  using network_config_validate_subnet [OF assms]
  by (auto simp: validate_ipv4_subnet_def result_simps split: ip_addr.splits)

lemma network_config_validate_unicast:
  assumes "network_config_validate c = Inr ()"
  shows "\<not> not_unicast (transport_peer c)"
    and "\<forall>d \<in> set (dns_servers c). \<not> not_unicast d"
    and "\<forall>p \<in> set (addresses c). \<not> not_unicast (address p) \<and> address p \<noteq> transport_peer c"
  using assms
  by (simp_all add: network_config_validate_def Let_def result_simps list_ex_iff split: if_splits)

lemma network_config_validate_full:
  assumes "network_config_validate c = Inr ()"
  shows "full_tunnel_ipv4 c \<Longrightarrow> \<exists>p \<in> set (addresses c). is_ipv4 (address p)"
    and "full_tunnel_ipv6 c \<Longrightarrow> \<exists>p \<in> set (addresses c). is_ipv6 (address p)"
  using assms by (auto simp: network_config_validate_def Let_def list_ex_iff split: if_splits)

end
