(* ===== verification/Routes.thy ===== *)
theory Routes
  imports NetworkModel
begin

text \<open>
  \<open>crates/net/src/routes.rs\<close>: the traffic policy of a negotiated configuration. \<open>tunnel_routes\<close>
  computes the prefixes routed into the tunnel and \<open>bypass_routes\<close> those kept on the physical
  network. \<open>tunneled\<close> is the kernel's decision over both (longest prefix), as the tests of the
  file compute it; \<open>wants_tunnel\<close> is the policy itself, stated over the negotiated ranges.
\<close>

unbundle bit_operations_syntax

section \<open>The operations\<close>

definition max_policy_routes :: nat where
  "max_policy_routes = 4096"

definition width :: "ip_prefix \<Rightarrow> u8" where
  "width p = (if is_ipv4 (address p) then 32 else 128)"

definition bits :: "ip_addr \<Rightarrow> u128" where
  "bits a = (case a of V4 x \<Rightarrow> ucast x | V6 y \<Rightarrow> y)"

definition normalize :: "ip_prefix \<Rightarrow> ip_prefix" where
  "normalize p =
     (let host = width p - prefix p;
          network = (if host = 128 then 0
                     else push_bit (unat host) (drop_bit (unat host) (bits (address p))))
      in \<lparr>address = (if is_ipv4 (address p) then V4 (ucast network) else V6 network),
          prefix = prefix p\<rparr>)"

definition contains :: "ip_prefix \<Rightarrow> ip_prefix \<Rightarrow> bool" where
  "contains outer inner \<longleftrightarrow>
     is_ipv4 (address outer) = is_ipv4 (address inner)
     \<and> prefix outer \<le> prefix inner
     \<and> address (normalize \<lparr>address = address inner, prefix = prefix outer\<rparr>) = address outer"

definition append_route :: "ip_prefix list \<Rightarrow> ip_prefix \<Rightarrow> ip_prefix list result" where
  "append_route output p =
     (if length output \<ge> max_policy_routes
      then Inl (invalid ''VPN route policy exceeds the bounded native route expansion'')
      else Inr (output @ [p]))"

text \<open>An include of everything is installed as its two halves, never as a default route.\<close>

definition halves :: "ip_prefix \<Rightarrow> ip_prefix list" where
  "halves include =
     (if prefix include = 0
      then [\<lparr>address = address include, prefix = 1\<rparr>,
            \<lparr>address = (if is_ipv4 (address include) then V4 0x80000000
                        else V6 (push_bit 127 1)), prefix = 1\<rparr>]
      else [include])"

fun merge_includes :: "ip_prefix list \<Rightarrow> ip_prefix list \<Rightarrow> ip_prefix list result" where
  "merge_includes normalized [] = Inr normalized"
| "merge_includes normalized (p # ps) =
     (if list_ex (\<lambda>existing. contains existing p) normalized
      then merge_includes normalized ps
      else rbind (append_route (filter (\<lambda>existing. \<not> contains p existing) normalized) p)
             (\<lambda>normalized'. merge_includes normalized' ps))"

definition host_prefix :: "ip_addr \<Rightarrow> ip_prefix" where
  "host_prefix a = \<lparr>address = a, prefix = (if is_ipv4 a then 32 else 128)\<rparr>"

definition route_key :: "ip_prefix \<Rightarrow> bool \<times> u128 \<times> u8" where
  "route_key p = (is_ipv6 (address p), bits (address p), prefix p)"

definition collect_includes :: "network_config \<Rightarrow> ip_prefix list" where
  "collect_includes c =
     map normalize (split_includes c)
     @ (case ipv4_subnet c of Some subnet \<Rightarrow> [normalize subnet] | None \<Rightarrow> [])
     @ (if full_tunnel_ipv4 c then [\<lparr>address = V4 0, prefix = 0\<rparr>] else [])
     @ (if full_tunnel_ipv6 c then [\<lparr>address = V6 0, prefix = 0\<rparr>] else [])"

definition tunnel_routes :: "network_config \<Rightarrow> ip_prefix list result" where
  "tunnel_routes c =
     rbind (network_config_validate c) (\<lambda>_.
     rbind (merge_includes [] (concat (map halves (collect_includes c)))) (\<lambda>normalized.
       let excludes = map normalize (split_excludes c) @ [host_prefix (transport_peer c)];
           kept = filter (\<lambda>include. \<not> list_ex (\<lambda>exclude. contains exclude include) excludes)
                    normalized
       in Inr (remdups_adj (sort_key route_key kept))))"

text \<open>
  The children of a connected prefix that an exclusion covers: the kernel's own route for the
  connected prefix is outranked by one bit.
\<close>

fun connected_bypass ::
  "ip_prefix list \<Rightarrow> ip_prefix list \<Rightarrow> ip_prefix list \<Rightarrow> ip_prefix list result" where
  "connected_bypass excludes [] bypass = Inr bypass"
| "connected_bypass excludes (a # as) bypass =
     (if prefix a = width a then connected_bypass excludes as bypass
      else let connected = normalize a in
      if \<not> list_ex (\<lambda>exclude. contains (normalize exclude) connected) excludes
      then connected_bypass excludes as bypass
      else let p = prefix connected + 1;
               upper = bits (address connected) OR push_bit (unat (width connected - p)) 1
      in rbind (append_route bypass \<lparr>address = address connected, prefix = p\<rparr>) (\<lambda>bypass'.
         rbind (append_route bypass'
                 \<lparr>address = (if is_ipv4 (address connected) then V4 (ucast upper) else V6 upper),
                  prefix = p\<rparr>) (\<lambda>bypass''.
         connected_bypass excludes as bypass'')))"

definition bypass_routes :: "network_config \<Rightarrow> ip_prefix list result" where
  "bypass_routes c =
     rbind (network_config_validate c) (\<lambda>_.
     rbind (connected_bypass (split_excludes c) (addresses c)
              (map normalize (split_excludes c))) (\<lambda>bypass.
       let kept = filter (\<lambda>route. prefix route \<noteq> width route
                    \<or> \<not> list_ex (\<lambda>a. address a = address route) (addresses c)) bypass
       in Inr (remdups_adj (sort_key route_key kept))))"

section \<open>The kernel's decision\<close>

text \<open>\<open>max_by_key\<close>: the last of the elements with the greatest key.\<close>

fun max_by_key :: "('a \<Rightarrow> 'k::linorder) \<Rightarrow> 'a list \<Rightarrow> 'a option" where
  "max_by_key f [] = None"
| "max_by_key f (x # xs) =
     (case max_by_key f xs of None \<Rightarrow> Some x
      | Some m \<Rightarrow> if f m < f x then Some x else Some m)"

definition policy_table ::
  "network_config \<Rightarrow> ip_prefix list \<Rightarrow> ip_prefix list \<Rightarrow> (ip_prefix \<times> bool) list" where
  "policy_table c tunnel bypass =
     map (\<lambda>r. (r, True)) tunnel @ map (\<lambda>r. (r, False)) bypass
     @ [(host_prefix (transport_peer c), False)]"

definition tunneled :: "(ip_prefix \<times> bool) list \<Rightarrow> ip_addr \<Rightarrow> bool" where
  "tunneled table destination =
     (case max_by_key (\<lambda>(r, _). prefix r)
             (filter (\<lambda>(r, _). contains r (host_prefix destination)) table) of
        None \<Rightarrow> False | Some (_, tunnel) \<Rightarrow> tunnel)"

section \<open>The policy\<close>

definition host_bits :: "ip_prefix \<Rightarrow> nat" where
  "host_bits p = (if is_ipv4 (address p) then 32 else 128) - unat (prefix p)"

definition covers :: "ip_prefix \<Rightarrow> ip_addr \<Rightarrow> bool" where
  "covers p a \<longleftrightarrow> is_ipv4 (address p) = is_ipv4 a
     \<and> drop_bit (host_bits p) (bits (address p)) = drop_bit (host_bits p) (bits a)"

definition included :: "network_config \<Rightarrow> ip_addr \<Rightarrow> bool" where
  "included c a \<longleftrightarrow> list_ex (\<lambda>p. covers p a) (split_includes c)
     \<or> (case ipv4_subnet c of Some s \<Rightarrow> covers s a | None \<Rightarrow> False)
     \<or> full_tunnel_ipv4 c \<and> is_ipv4 a \<or> full_tunnel_ipv6 c \<and> is_ipv6 a"

definition excluded :: "network_config \<Rightarrow> ip_addr \<Rightarrow> bool" where
  "excluded c a \<longleftrightarrow> list_ex (\<lambda>p. covers p a) (split_excludes c) \<or> a = transport_peer c"

definition wants_tunnel :: "network_config \<Rightarrow> ip_addr \<Rightarrow> bool" where
  "wants_tunnel c a \<longleftrightarrow> included c a \<and> \<not> excluded c a"

section \<open>Prefix arithmetic\<close>

lemma drop_push_drop_bit: "drop_bit h (push_bit h (drop_bit h (x :: u128))) = drop_bit h x"
  by (rule bit_word_eqI) (auto simp: bit_simps dest: bit_imp_le_length)

lemma push_drop_eq_iff:
  "push_bit h (drop_bit h x) = push_bit h (drop_bit h y) \<longleftrightarrow> drop_bit h x = drop_bit h (y :: u128)"
  by (metis drop_push_drop_bit)

lemma drop_bit_mono:
  assumes "drop_bit m x = drop_bit m (y :: u128)" and "m \<le> n"
  shows "drop_bit n x = drop_bit n y"
proof -
  have "drop_bit n z = drop_bit (n - m) (drop_bit m z)" for z :: u128
    using assms(2) by (simp add: drop_bit_drop_bit)
  from this [of x] this [of y] show ?thesis by (simp only: assms(1))
qed

lemma bits_eq_iff: "is_ipv4 a = is_ipv4 b \<Longrightarrow> bits a = bits b \<longleftrightarrow> a = b"
proof -
  have id: "ucast (ucast (x :: u32) :: u128) = x" for x
    by (rule bit_word_eqI) (auto simp: bit_simps)
  have "ucast (x :: u32) = (ucast y :: u128) \<Longrightarrow> x = y" for x y
    by (metis id)
  then show "is_ipv4 a = is_ipv4 b \<Longrightarrow> bits a = bits b \<longleftrightarrow> a = b"
    by (cases a; cases b) (auto simp: bits_def)
qed

lemma prefix_ok_unat:
  assumes "prefix_ok p"
  shows "unat (width p - prefix p) = host_bits p"
    and "host_bits p \<le> 128" and "is_ipv4 (address p) \<Longrightarrow> host_bits p \<le> 32"
  using assms
  by (auto simp: prefix_ok_def host_bits_def width_def unat_sub word_le_nat_alt split: if_splits)

lemma bits_ipv4_high:
  assumes "is_ipv4 a"
  shows "ucast (ucast (push_bit h (drop_bit h (bits a))) :: u32) = push_bit h (drop_bit h (bits a))"
proof (rule bit_word_eqI)
  fix n assume n: "n < LENGTH(128)"
  have "bit (bits a) k \<Longrightarrow> k < 32" for k
    using assms by (cases a) (auto simp: bits_def bit_simps dest: bit_imp_le_length)
  then show "bit (ucast (ucast (push_bit h (drop_bit h (bits a))) :: u32) :: u128) n
      = bit (push_bit h (drop_bit h (bits a))) n"
    by (auto simp: bit_simps)
qed

lemma normalize_facts:
  assumes "prefix_ok p"
  shows "is_ipv4 (address (normalize p)) = is_ipv4 (address p)"
    and "prefix (normalize p) = prefix p"
    and "bits (address (normalize p))
          = push_bit (host_bits p) (drop_bit (host_bits p) (bits (address p)))"
    and "host_bits (normalize p) = host_bits p"
proof -
  have net: "(if width p - prefix p = 128 then 0
       else push_bit (unat (width p - prefix p)) (drop_bit (unat (width p - prefix p)) (bits (address p))))
     = push_bit (host_bits p) (drop_bit (host_bits p) (bits (address p)))"
  proof (cases "width p - prefix p = 128")
    case True
    then have "host_bits p = 128" using prefix_ok_unat(1) [OF assms] by simp
    then show ?thesis using True by (auto intro!: bit_word_eqI simp: bit_simps)
  qed (simp add: prefix_ok_unat(1) [OF assms])
  show fam: "is_ipv4 (address (normalize p)) = is_ipv4 (address p)"
    and pre: "prefix (normalize p) = prefix p"
    by (simp_all add: normalize_def Let_def)
  show "bits (address (normalize p))
          = push_bit (host_bits p) (drop_bit (host_bits p) (bits (address p)))"
    using bits_ipv4_high [of "address p" "host_bits p"]
    by (simp add: normalize_def Let_def net) (simp add: bits_def)
  show "host_bits (normalize p) = host_bits p"
    by (simp add: host_bits_def fam pre)
qed

lemma prefix_ok_normalize: "prefix_ok p \<Longrightarrow> prefix_ok (normalize p)"
  by (simp add: prefix_ok_def normalize_facts(1,2))

lemma covers_normalize: "prefix_ok p \<Longrightarrow> covers (normalize p) a \<longleftrightarrow> covers p a"
  by (simp add: covers_def normalize_facts drop_push_drop_bit)

text \<open>A prefix is canonical when its host bits are clear: what \<open>normalize\<close> produces.\<close>

definition canonical :: "ip_prefix \<Rightarrow> bool" where
  "canonical p \<longleftrightarrow> prefix_ok p
     \<and> push_bit (host_bits p) (drop_bit (host_bits p) (bits (address p))) = bits (address p)"

lemma canonical_normalize [intro]: "prefix_ok p \<Longrightarrow> canonical (normalize p)"
  by (simp add: canonical_def prefix_ok_normalize normalize_facts drop_push_drop_bit)

lemma canonical_ok: "canonical p \<Longrightarrow> prefix_ok p"
  by (simp add: canonical_def)

lemma contains_iff:
  assumes "canonical p" and "prefix_ok q"
  shows "contains p q \<longleftrightarrow> prefix p \<le> prefix q \<and> covers p (address q)"
proof (cases "is_ipv4 (address p) = is_ipv4 (address q) \<and> prefix p \<le> prefix q")
  case True
  let ?n = "\<lparr>address = address q, prefix = prefix p\<rparr>"
  have ok: "prefix_ok ?n" and hb: "host_bits ?n = host_bits p"
    using canonical_ok [OF assms(1)] True by (simp_all add: prefix_ok_def host_bits_def)
  have "contains p q \<longleftrightarrow> bits (address (normalize ?n)) = bits (address p)"
    using True normalize_facts(1) [OF ok] by (simp add: contains_def bits_eq_iff)
  also have "\<dots> \<longleftrightarrow> push_bit (host_bits p) (drop_bit (host_bits p) (bits (address q)))
      = push_bit (host_bits p) (drop_bit (host_bits p) (bits (address p)))"
    using assms(1) normalize_facts(3) [OF ok] by (simp add: hb canonical_def)
  also have "\<dots> \<longleftrightarrow> covers p (address q)"
    using True by (auto simp: push_drop_eq_iff covers_def)
  finally show ?thesis using True by simp
qed (auto simp: contains_def covers_def)

lemma host_prefix_facts [simp]:
  "address (host_prefix a) = a" "prefix_ok (host_prefix a)" "host_bits (host_prefix a) = 0"
  "canonical (host_prefix a)"
  by (auto simp: host_prefix_def prefix_ok_def host_bits_def canonical_def)

lemma covers_host: "covers (host_prefix a) b \<longleftrightarrow> a = b"
  by (auto simp: covers_def bits_eq_iff)

lemma prefix_le_host: "prefix_ok p \<Longrightarrow> covers p a \<Longrightarrow> prefix p \<le> prefix (host_prefix a)"
  by (auto simp: prefix_ok_def covers_def host_prefix_def)

lemma contains_host: "canonical p \<Longrightarrow> contains p (host_prefix a) \<longleftrightarrow> covers p a"
  using contains_iff [of p "host_prefix a"] prefix_le_host [of p a] by (auto simp: canonical_ok)

text \<open>Two prefixes that share an address are nested: the longer lies in the shorter.\<close>

lemma covers_nested:
  assumes "prefix_ok p" and "prefix_ok q" and "covers p a" and "covers q a"
    and "prefix p \<le> prefix q"
  shows "covers p (address q)" and "covers q b \<Longrightarrow> covers p b"
proof -
  have hb: "host_bits q \<le> host_bits p"
  proof -
    have "is_ipv4 (address p) = is_ipv4 (address q)"
      using assms(3,4) by (simp add: covers_def)
    moreover have "unat (prefix p) \<le> unat (prefix q)"
      using assms(5) by (simp only: word_le_nat_alt)
    ultimately show ?thesis by (simp add: host_bits_def diff_le_mono2)
  qed
  have fp: "is_ipv4 (address p) = is_ipv4 a" and fq: "is_ipv4 (address q) = is_ipv4 a"
    and dp: "drop_bit (host_bits p) (bits (address p)) = drop_bit (host_bits p) (bits a)"
    and "drop_bit (host_bits q) (bits (address q)) = drop_bit (host_bits q) (bits a)"
    using assms(3,4) unfolding covers_def by blast+
  then have dq: "drop_bit (host_bits p) (bits (address q)) = drop_bit (host_bits p) (bits a)"
    using drop_bit_mono [OF _ hb] by blast
  show "covers p (address q)"
    unfolding covers_def by (simp only: fp fq dp dq)
  assume "covers q b"
  then have fb: "is_ipv4 (address q) = is_ipv4 b"
    and "drop_bit (host_bits q) (bits (address q)) = drop_bit (host_bits q) (bits b)"
    unfolding covers_def by blast+
  then have db: "drop_bit (host_bits p) (bits (address q)) = drop_bit (host_bits p) (bits b)"
    using drop_bit_mono [OF _ hb] by blast
  show "covers p b"
    unfolding covers_def using fp fq fb dp dq db by (simp only: refl simp_thms)
qed

lemma contains_covers:
  assumes "canonical p" and "prefix_ok q" and "contains p q" and "covers q a"
  shows "covers p a"
proof -
  have "prefix p \<le> prefix q" and c: "covers p (address q)"
    using assms contains_iff by auto
  moreover have "covers q (address q)" by (simp add: covers_def)
  ultimately show ?thesis
    using covers_nested(2) [of p q "address q" a] assms by (auto simp: canonical_ok)
qed

end
