(* ===== verification/RoutePolicy.thy ===== *)
theory RoutePolicy
  imports Routes
begin

text \<open>
  Correctness of the traffic policy of \<open>crates/net/src/routes.rs\<close>: the expansion never meets
  its bound, the tunnel table has no default route and no redundant entry, and the kernel's
  longest-prefix decision over both tables is the negotiated policy, in which an exclusion
  beats an include whatever their lengths.
\<close>

unbundle bit_operations_syntax

section \<open>Halving a default route\<close>

lemma drop_bit_top_cases:
  assumes "drop_bit (Suc n) (x :: u128) = 0"
  shows "drop_bit n x = 0 \<or> drop_bit n x = 1"
proof -
  have "drop_bit 1 (drop_bit n x) = 0"
    using assms by (simp add: drop_bit_drop_bit)
  then have "unat (drop_bit n x) div 2 = 0"
    by (metis One_nat_def drop_bit_Suc drop_bit_0 id_apply unat_0 unat_div unat_eq_zero
        unat_drop_bit_eq drop_bit_eq_div power_one_right)
  then have "unat (drop_bit n x) = 0 \<or> unat (drop_bit n x) = 1" by linarith
  then show ?thesis by (metis unat_0 unat_1 word_unat_eq_iff)
qed

lemma bits_v4_bound: "drop_bit 32 (bits (V4 x)) = 0"
  by (rule bit_word_eqI) (auto simp: bits_def bit_simps dest: bit_imp_le_length)

lemma drop_bit_width: "drop_bit 128 (x :: u128) = 0"
  by (rule bit_word_eqI) (auto simp: bit_simps dest: bit_imp_le_length)

lemma canonical_zero:
  assumes "canonical p" and "prefix p = 0"
  shows "address p = (if is_ipv4 (address p) then V4 0 else V6 0)"
proof -
  have "bits (address p) = 0"
    using assms
    by (cases "address p")
       (simp_all add: canonical_def host_bits_def bits_v4_bound [unfolded] drop_bit_width)
  then have "bits (address p) = bits (if is_ipv4 (address p) then V4 0 else V6 0)"
    by (simp add: bits_def)
  then show ?thesis by (subst (asm) bits_eq_iff) simp_all
qed

lemma halves_canonical:
  assumes "canonical p" and "h \<in> set (halves p)"
  shows "canonical h" and "prefix h \<noteq> 0"
proof -
  have "canonical h \<and> prefix h \<noteq> 0"
  proof (cases "prefix p = 0")
    case True
    with assms canonical_zero [OF assms(1) True] show ?thesis
      by (auto simp: halves_def canonical_def prefix_ok_def host_bits_def bits_def
          split: if_splits)
  qed (use assms in \<open>simp add: halves_def\<close>)
  then show "canonical h" and "prefix h \<noteq> 0" by simp_all
qed

lemma halves_cover:
  assumes "canonical p"
  shows "(\<exists>h \<in> set (halves p). covers h a) \<longleftrightarrow> covers p a"
proof (cases "prefix p = 0")
  case True
  show ?thesis
  proof (cases a)
    case (V4 x)
    have "drop_bit 31 (bits a) = 0 \<or> drop_bit 31 (bits a) = 1"
      using drop_bit_top_cases [of 31 "bits a"] bits_v4_bound [of x] V4 by simp
    with True canonical_zero [OF assms True] V4 bits_v4_bound [of x] show ?thesis
      by (cases "address p") (auto simp: halves_def covers_def host_bits_def bits_def)
  next
    case (V6 y)
    have "drop_bit 127 (bits a) = 0 \<or> drop_bit 127 (bits a) = 1"
      using drop_bit_top_cases [of 127 "bits a"] by (simp add: drop_bit_width)
    with True canonical_zero [OF assms True] V6 show ?thesis
      by (cases "address p")
         (auto simp: halves_def covers_def host_bits_def bits_def drop_bit_width)
  qed
qed (simp add: halves_def)

section \<open>Merging the includes\<close>

definition antichain :: "ip_prefix list \<Rightarrow> bool" where
  "antichain rs \<longleftrightarrow> distinct rs \<and> (\<forall>r \<in> set rs. \<forall>s \<in> set rs. r \<noteq> s \<longrightarrow> \<not> contains r s)"

lemma contains_refl: "canonical p \<Longrightarrow> contains p p"
  by (simp add: contains_iff canonical_ok covers_def)

lemma append_route_Inr:
  "append_route out p = Inr out' \<longleftrightarrow> length out < max_policy_routes \<and> out' = out @ [p]"
  by (auto simp: append_route_def)

lemma merge_includes_set:
  "merge_includes ns ps = Inr rs \<Longrightarrow> set rs \<subseteq> set ns \<union> set ps"
proof (induction ns ps arbitrary: rs rule: merge_includes.induct)
  case (2 ns p ps)
  show ?case
  proof (cases "list_ex (\<lambda>e. contains e p) ns")
    case True
    with 2 show ?thesis by auto
  next
    case False
    with "2.prems" obtain ns' where
      a: "append_route (filter (\<lambda>e. \<not> contains p e) ns) p = Inr ns'"
      and m: "merge_includes ns' ps = Inr rs"
      by (auto simp: result_simps)
    from "2.IH"(2) [OF False a m] a show ?thesis by (auto simp: append_route_Inr)
  qed
qed simp

lemma merge_includes_antichain:
  "merge_includes ns ps = Inr rs \<Longrightarrow> antichain ns \<Longrightarrow> \<forall>p \<in> set ps. canonical p \<Longrightarrow> antichain rs"
proof (induction ns ps arbitrary: rs rule: merge_includes.induct)
  case (2 ns p ps)
  show ?case
  proof (cases "list_ex (\<lambda>e. contains e p) ns")
    case True
    with 2 show ?thesis by auto
  next
    case False
    with "2.prems" obtain ns' where
      a: "append_route (filter (\<lambda>e. \<not> contains p e) ns) p = Inr ns'"
      and m: "merge_includes ns' ps = Inr rs"
      by (auto simp: result_simps)
    have "p \<in> set (filter (\<lambda>e. \<not> contains p e) ns) \<Longrightarrow> False"
      using False "2.prems"(3) contains_refl [of p] by (simp add: list_ex_iff)
    with a False "2.prems"(2) have "antichain ns'"
      by (auto simp: antichain_def append_route_Inr list_ex_iff)
    with "2.IH"(2) [OF False a m] "2.prems"(3) show ?thesis by simp
  qed
qed simp

lemma merge_includes_cover:
  assumes "merge_includes ns ps = Inr rs" and "\<forall>p \<in> set ns \<union> set ps. canonical p"
  shows "(\<exists>r \<in> set rs. covers r a) \<longleftrightarrow> (\<exists>p \<in> set ns \<union> set ps. covers p a)"
  using assms
proof (induction ns ps arbitrary: rs rule: merge_includes.induct)
  case (2 ns p ps)
  show ?case
  proof (cases "list_ex (\<lambda>e. contains e p) ns")
    case True
    then obtain e where "e \<in> set ns" "contains e p" by (auto simp: list_ex_iff)
    with "2.prems"(2) contains_covers [of e p a] have "covers p a \<Longrightarrow> \<exists>e \<in> set ns. covers e a"
      by (auto simp: canonical_ok)
    with "2.IH"(1) [OF True] True "2.prems" show ?thesis by auto
  next
    case False
    with "2.prems" obtain ns' where
      a: "append_route (filter (\<lambda>e. \<not> contains p e) ns) p = Inr ns'"
      and m: "merge_includes ns' ps = Inr rs"
      by (auto simp: result_simps)
    have "contains p e \<Longrightarrow> covers e a \<Longrightarrow> covers p a" if "e \<in> set ns" for e
      using that "2.prems"(2) contains_covers [of p e a] by (auto simp: canonical_ok)
    then have "(\<exists>r \<in> set ns'. covers r a) \<longleftrightarrow> (\<exists>r \<in> set ns \<union> {p}. covers r a)"
      using a by (auto simp: append_route_Inr)
    moreover have "\<forall>q \<in> set ns' \<union> set ps. canonical q"
      using a "2.prems"(2) by (auto simp: append_route_Inr)
    ultimately show ?thesis using "2.IH"(2) [OF False a m] by auto
  qed
qed simp

lemma merge_includes_total:
  "length ns + length ps \<le> max_policy_routes \<Longrightarrow>
   \<exists>rs. merge_includes ns ps = Inr rs \<and> length rs \<le> length ns + length ps"
proof (induction ps arbitrary: ns)
  case (Cons p ps)
  show ?case
  proof (cases "list_ex (\<lambda>e. contains e p) ns")
    case True
    with Cons.IH [of ns] Cons.prems show ?thesis by auto
  next
    case False
    let ?f = "filter (\<lambda>e. \<not> contains p e) ns"
    have l: "length ?f \<le> length ns" by (rule length_filter_le)
    have "length ?f < max_policy_routes"
      using le_less_trans [OF l] Cons.prems by simp
    then have a: "append_route ?f p = Inr (?f @ [p])"
      by (simp add: append_route_Inr)
    have le: "length (?f @ [p]) + length ps \<le> length ns + length (p # ps)"
      using l by simp
    with Cons.prems have "length (?f @ [p]) + length ps \<le> max_policy_routes" by linarith
    then obtain rs where m: "merge_includes (?f @ [p]) ps = Inr rs"
      and "length rs \<le> length (?f @ [p]) + length ps"
      using Cons.IH by blast
    then have "length rs \<le> length ns + length (p # ps)" using le by linarith
    with a False m show ?thesis by auto
  qed
qed simp

section \<open>The tunnel table\<close>

lemma collect_includes_canonical:
  assumes "network_config_validate c = Inr ()" and "p \<in> set (collect_includes c)"
  shows "canonical p"
proof -
  have z: "canonical \<lparr>address = V4 0, prefix = 0\<rparr>" "canonical \<lparr>address = V6 0, prefix = 0\<rparr>"
    by (auto simp: canonical_def prefix_ok_def host_bits_def bits_def)
  have i: "\<forall>p \<in> set (split_includes c). prefix_ok p"
    using network_config_validate_prefixes [OF assms(1)] by simp
  have s: "ipv4_subnet c = Some s \<Longrightarrow> prefix_ok s" for s
    using network_config_validate_subnet_ok [OF assms(1)] by simp
  show ?thesis
    using assms(2) z i s
    by (auto simp: collect_includes_def split: option.splits if_splits)
qed

lemma collect_includes_cover:
  assumes "network_config_validate c = Inr ()"
  shows "(\<exists>p \<in> set (collect_includes c). covers p a) \<longleftrightarrow> included c a"
proof -
  have z: "covers \<lparr>address = V4 0, prefix = 0\<rparr> a \<longleftrightarrow> is_ipv4 a"
    using bits_v4_bound by (cases a) (auto simp: covers_def host_bits_def bits_def)
  have z6: "covers \<lparr>address = V6 0, prefix = 0\<rparr> a \<longleftrightarrow> is_ipv6 a"
    by (cases a) (auto simp: covers_def host_bits_def drop_bit_width)
  have i: "p \<in> set (split_includes c) \<Longrightarrow> covers (normalize p) a = covers p a" for p
    using network_config_validate_prefixes [OF assms] by (simp add: covers_normalize)
  have s: "ipv4_subnet c = Some s \<Longrightarrow> covers (normalize s) a = covers s a" for s
    using network_config_validate_subnet_ok [OF assms] by (simp add: covers_normalize)
  show ?thesis
    using z z6 i s
    by (auto simp: collect_includes_def included_def list_ex_iff split: option.splits)
qed

lemma collect_includes_length:
  assumes "network_config_validate c = Inr ()"
  shows "length (concat (map halves (collect_includes c))) \<le> 518"
proof -
  have h: "length (concat (map halves ps)) \<le> 2 * length ps" for ps
    by (induction ps) (auto simp: halves_def)
  have "length (collect_includes c) \<le> 259"
    using network_config_validate_bounds(2) [OF assms]
    by (auto simp: collect_includes_def max_network_items_def split: option.splits)
  with h [of "collect_includes c"] show ?thesis by linarith
qed

text \<open>What \<open>tunnel_routes\<close> returns, with the intermediate list of the code named.\<close>

lemma tunnel_routes_elim:
  assumes "tunnel_routes c = Inr ts"
  obtains ns where "network_config_validate c = Inr ()"
    and "merge_includes [] (concat (map halves (collect_includes c))) = Inr ns"
    and "ts = remdups_adj (sort_key route_key (filter (\<lambda>include. \<not> list_ex
           (\<lambda>exclude. contains exclude include)
           (map normalize (split_excludes c) @ [host_prefix (transport_peer c)])) ns))"
  using assms by (auto simp: tunnel_routes_def result_simps Let_def)

lemma tunnel_routes_mem:
  assumes "tunnel_routes c = Inr ts" and "t \<in> set ts"
  shows "canonical t" and "prefix t \<noteq> 0"
    and "\<not> contains (host_prefix (transport_peer c)) t"
    and "e \<in> set (split_excludes c) \<Longrightarrow> \<not> contains (normalize e) t"
proof -
  obtain ns where v: "network_config_validate c = Inr ()"
    and m: "merge_includes [] (concat (map halves (collect_includes c))) = Inr ns"
    and ts: "ts = remdups_adj (sort_key route_key (filter (\<lambda>include. \<not> list_ex
           (\<lambda>exclude. contains exclude include)
           (map normalize (split_excludes c) @ [host_prefix (transport_peer c)])) ns))"
    using assms(1) by (rule tunnel_routes_elim)
  have t: "t \<in> set ns" using assms(2) ts by simp
  with merge_includes_set [OF m] obtain p where
    "p \<in> set (collect_includes c)" "t \<in> set (halves p)" by auto
  then show "canonical t" "prefix t \<noteq> 0"
    using collect_includes_canonical [OF v] halves_canonical by blast+
  show "\<not> contains (host_prefix (transport_peer c)) t"
    and "e \<in> set (split_excludes c) \<Longrightarrow> \<not> contains (normalize e) t"
    using assms(2) ts by (auto simp: list_ex_iff)
qed

text \<open>Every wanted address has a tunnel route, and every tunnel route lies in an include.\<close>

lemma tunnel_routes_cover:
  assumes "tunnel_routes c = Inr ts"
  shows "t \<in> set ts \<Longrightarrow> covers t a \<Longrightarrow> included c a"
    and "wants_tunnel c a \<Longrightarrow> \<exists>t \<in> set ts. covers t a"
proof -
  obtain ns where v: "network_config_validate c = Inr ()"
    and m: "merge_includes [] (concat (map halves (collect_includes c))) = Inr ns"
    and ts: "ts = remdups_adj (sort_key route_key (filter (\<lambda>include. \<not> list_ex
           (\<lambda>exclude. contains exclude include)
           (map normalize (split_excludes c) @ [host_prefix (transport_peer c)])) ns))"
    using assms by (rule tunnel_routes_elim)
  have can: "\<forall>p \<in> set (concat (map halves (collect_includes c))). canonical p"
    using collect_includes_canonical [OF v] halves_canonical(1) by auto
  have ns_can: "n \<in> set ns \<Longrightarrow> canonical n" for n
    using merge_includes_set [OF m] can by auto
  have "(\<exists>n \<in> set ns. covers n a)
      \<longleftrightarrow> (\<exists>p \<in> set (concat (map halves (collect_includes c))). covers p a)"
    using merge_includes_cover [OF m] can by auto
  also have "\<dots> \<longleftrightarrow> (\<exists>p \<in> set (collect_includes c). covers p a)"
    using halves_cover collect_includes_canonical [OF v] by fastforce
  also have "\<dots> \<longleftrightarrow> included c a"
    by (rule collect_includes_cover [OF v])
  finally have inc: "(\<exists>n \<in> set ns. covers n a) \<longleftrightarrow> included c a" .
  show "t \<in> set ts \<Longrightarrow> covers t a \<Longrightarrow> included c a"
    using inc ts by auto
  assume w: "wants_tunnel c a"
  with inc obtain n where n: "n \<in> set ns" "covers n a" by (auto simp: wants_tunnel_def)
  have ok: "prefix_ok e" if "e \<in> set (split_excludes c)" for e
    using that network_config_validate_prefixes [OF v] by simp
  have "\<not> contains (normalize e) n" if e: "e \<in> set (split_excludes c)" for e
    using contains_covers [of "normalize e" n a] n w e ok [OF e] ns_can [OF n(1)]
    by (auto simp: canonical_ok covers_normalize wants_tunnel_def excluded_def list_ex_iff)
  moreover have "\<not> contains (host_prefix (transport_peer c)) n"
    using contains_covers [of "host_prefix (transport_peer c)" n a] n w ns_can [OF n(1)]
    by (auto simp: canonical_ok covers_host wants_tunnel_def excluded_def)
  ultimately show "\<exists>t \<in> set ts. covers t a"
    using n ts by (auto simp: list_ex_iff intro!: bexI [of _ n])
qed

section \<open>The bypass table\<close>

text \<open>The two children of a canonical prefix that is not a host route.\<close>

definition lower_child :: "ip_prefix \<Rightarrow> ip_prefix" where
  "lower_child q = \<lparr>address = address q, prefix = prefix q + 1\<rparr>"

definition upper_child :: "ip_prefix \<Rightarrow> ip_prefix" where
  "upper_child q =
     (let upper = bits (address q) OR push_bit (unat (width q - (prefix q + 1))) 1
      in \<lparr>address = (if is_ipv4 (address q) then V4 (ucast upper) else V6 upper),
          prefix = prefix q + 1\<rparr>)"

lemma child_prefix:
  assumes "prefix_ok q" and "prefix q \<noteq> width q"
  shows "unat (prefix q + 1) = unat (prefix q) + 1"
    and "host_bits q = Suc (unat (width q - (prefix q + 1)))"
    and "prefix q + 1 \<le> width q"
proof -
  have lt: "unat (prefix q) < unat (width q)"
    using assms by (auto simp: prefix_ok_def width_def word_le_nat_alt le_less
        word_unat_eq_iff split: if_splits)
  have w: "unat (width q) \<le> 128" by (simp add: width_def)
  show p1: "unat (prefix q + 1) = unat (prefix q) + 1"
    using lt w by (simp add: unat_word_ariths)
  show le: "prefix q + 1 \<le> width q"
    using lt p1 by (simp add: word_le_nat_alt)
  have "unat (width q - (prefix q + 1)) = unat (width q) - (unat (prefix q) + 1)"
    using le p1 by (simp add: unat_sub)
  then show "host_bits q = Suc (unat (width q - (prefix q + 1)))"
    using lt by (simp add: host_bits_def width_def split: if_splits)
qed

lemma push_drop_low: "push_bit h (drop_bit h x) = x \<longleftrightarrow> (\<forall>n<h. \<not> bit (x :: u128) n)"
proof
  assume "push_bit h (drop_bit h x) = x"
  then show "\<forall>n<h. \<not> bit x n" by (metis bit_push_bit_iff not_le)
next
  assume l: "\<forall>n<h. \<not> bit x n"
  show "push_bit h (drop_bit h x) = x"
  proof (rule bit_word_eqI)
    fix n
    show "bit (push_bit h (drop_bit h x)) n = bit x n" if "n < LENGTH(128)"
      using l that by (cases "h \<le> n") (auto simp: bit_simps)
  qed
qed

lemma canonical_iff:
  "canonical p \<longleftrightarrow> prefix_ok p \<and> (\<forall>n<host_bits p. \<not> bit (bits (address p)) n)"
  by (simp add: canonical_def push_drop_low)

lemma bits_upper_child:
  assumes "prefix_ok q" and "prefix q \<noteq> width q"
  shows "bits (address (upper_child q))
      = bits (address q) OR push_bit (unat (width q - (prefix q + 1))) 1"
proof (cases "address q")
  case (V4 x)
  have "unat (width q - (prefix q + 1)) < 32"
    using child_prefix(2) [OF assms] prefix_ok_unat(3) [OF assms(1)] V4 by simp
  then have "ucast (ucast (bits (V4 x) OR push_bit (unat (width q - (prefix q + 1))) 1) :: u32)
      = bits (V4 x) OR push_bit (unat (width q - (prefix q + 1))) 1"
    by (intro bit_word_eqI) (auto simp: bits_def bit_simps dest: bit_imp_le_length)
  with V4 show ?thesis by (simp add: upper_child_def Let_def bits_def)
qed (simp add: upper_child_def Let_def bits_def)

lemma child_host_bits:
  assumes "prefix_ok q" and "prefix q \<noteq> width q"
  shows "host_bits (lower_child q) = unat (width q - (prefix q + 1))"
    and "host_bits (upper_child q) = unat (width q - (prefix q + 1))"
    and "prefix_ok (lower_child q)" and "prefix_ok (upper_child q)"
  using child_prefix [OF assms]
  by (simp_all add: host_bits_def lower_child_def upper_child_def Let_def prefix_ok_def width_def
      split: if_splits)

lemma child_facts:
  assumes "canonical q" and "prefix q \<noteq> width q"
  shows "canonical (lower_child q)" and "canonical (upper_child q)"
    and "covers (lower_child q) a \<Longrightarrow> covers q a"
    and "covers (upper_child q) a \<Longrightarrow> covers q a"
proof -
  define k where "k = unat (width q - (prefix q + 1))"
  note ok = canonical_ok [OF assms(1)]
  have hb: "host_bits q = Suc k"
    and hl: "host_bits (lower_child q) = k" and hu: "host_bits (upper_child q) = k"
    and bu: "bits (address (upper_child q)) = bits (address q) OR push_bit k 1"
    unfolding k_def
    using child_prefix(2) [OF ok assms(2)] child_host_bits(1,2) [OF ok assms(2)]
      bits_upper_child [OF ok assms(2)] by blast+
  have al: "address (lower_child q) = address q"
    by (simp add: lower_child_def)
  have fu: "is_ipv4 (address (upper_child q)) = is_ipv4 (address q)"
    by (simp add: upper_child_def Let_def)
  have low: "\<not> bit (bits (address q)) n" if "n \<le> k" for n
    using assms(1) that by (simp add: canonical_iff hb)
  show "canonical (lower_child q)"
    using low child_host_bits(3) [OF ok assms(2)] by (simp add: canonical_iff hl al)
  show "canonical (upper_child q)"
    using low child_host_bits(4) [OF ok assms(2)] by (auto simp: canonical_iff hu bu bit_simps)
  have up: "drop_bit (Suc k) (bits (address (upper_child q))) = drop_bit (Suc k) (bits (address q))"
    by (rule bit_word_eqI) (auto simp: bu bit_simps)
  have wider: "covers q a" if "is_ipv4 (address q) = is_ipv4 a"
    and "drop_bit k x = drop_bit k (bits a)" and "drop_bit (Suc k) x = drop_bit (Suc k) (bits (address q))" for x
    using that drop_bit_mono [of k x "bits a" "Suc k"] unfolding covers_def hb by auto
  show "covers q a" if "covers (lower_child q) a"
    using that unfolding covers_def [of "lower_child q"] hl al by (blast intro: wider)
  show "covers q a" if "covers (upper_child q) a"
    using that up unfolding covers_def [of "upper_child q"] hu fu by (blast intro: wider)
qed

text \<open>
  The loop over the connected prefixes only adds canonical prefixes inside an exclusion, keeps
  what it was given, and stays far below the bound.
\<close>

lemma connected_bypass_step:
  assumes "prefix a \<noteq> width a" and "list_ex (\<lambda>e. contains (normalize e) (normalize a)) es"
  shows "connected_bypass es (a # as) bs =
     rbind (append_route bs (lower_child (normalize a))) (\<lambda>bs'.
     rbind (append_route bs' (upper_child (normalize a))) (\<lambda>bs''.
     connected_bypass es as bs''))"
  using assms by (simp add: Let_def lower_child_def upper_child_def)

declare connected_bypass.simps(2) [simp del]

lemma connected_bypass_skip:
  assumes "prefix a = width a \<or> \<not> list_ex (\<lambda>e. contains (normalize e) (normalize a)) es"
  shows "connected_bypass es (a # as) bs = connected_bypass es as bs"
  using assms by (auto simp: connected_bypass.simps Let_def)

definition inside :: "ip_prefix list \<Rightarrow> ip_prefix \<Rightarrow> bool" where
  "inside es r \<longleftrightarrow> canonical r \<and> (\<forall>x. covers r x \<longrightarrow> (\<exists>e \<in> set es. covers e x))"

lemma children_inside:
  assumes "prefix_ok a" and "\<forall>e \<in> set es. prefix_ok e" and "prefix a \<noteq> width a"
    and "list_ex (\<lambda>e. contains (normalize e) (normalize a)) es"
  shows "inside es (lower_child (normalize a))" and "inside es (upper_child (normalize a))"
proof -
  have can: "canonical (normalize a)" using assms(1) by auto
  have w: "prefix (normalize a) \<noteq> width (normalize a)"
    using assms(1,3) by (simp add: normalize_facts width_def)
  obtain e where e: "e \<in> set es" "contains (normalize e) (normalize a)"
    using assms(4) by (auto simp: list_ex_iff)
  have cov: "covers (normalize a) x \<Longrightarrow> covers e x" for x
    using contains_covers [of "normalize e" "normalize a" x] e assms(1,2)
    by (auto simp: covers_normalize prefix_ok_normalize)
  show "inside es (lower_child (normalize a))" "inside es (upper_child (normalize a))"
    using child_facts [OF can w] cov e(1) unfolding inside_def by blast+
qed

lemma connected_bypass_inside:
  assumes "connected_bypass es as bs = Inr rs"
    and "\<forall>e \<in> set es. prefix_ok e" and "\<forall>a \<in> set as. prefix_ok a"
  shows "set bs \<subseteq> set rs \<and> (\<forall>r \<in> set rs. r \<in> set bs \<or> inside es r)"
  using assms
proof (induction as arbitrary: bs)
  case (Cons a as)
  show ?case
  proof (cases "prefix a = width a \<or> \<not> list_ex (\<lambda>e. contains (normalize e) (normalize a)) es")
    case True
    with Cons show ?thesis by (simp add: connected_bypass_skip)
  next
    case False
    then have "connected_bypass es as
        (bs @ [lower_child (normalize a), upper_child (normalize a)]) = Inr rs"
      using Cons.prems by (auto simp: connected_bypass_step result_simps append_route_Inr)
    from Cons.IH [OF this] Cons.prems children_inside [of a es] False show ?thesis by auto
  qed
qed simp_all

lemma connected_bypass_total:
  "length bs + 2 * length as \<le> max_policy_routes \<Longrightarrow>
   \<exists>rs. connected_bypass es as bs = Inr rs \<and> length rs \<le> length bs + 2 * length as"
proof (induction as arbitrary: bs)
  case (Cons a as)
  show ?case
  proof (cases "prefix a = width a \<or> \<not> list_ex (\<lambda>e. contains (normalize e) (normalize a)) es")
    case True
    have "length bs + 2 * length as \<le> max_policy_routes" using Cons.prems by simp
    with Cons.IH [of bs] True show ?thesis by (auto simp: connected_bypass_skip)
  next
    case False
    let ?bs = "bs @ [lower_child (normalize a), upper_child (normalize a)]"
    have "length ?bs + 2 * length as \<le> max_policy_routes" using Cons.prems by simp
    then obtain rs where rs: "connected_bypass es as ?bs = Inr rs"
      and "length rs \<le> length ?bs + 2 * length as" using Cons.IH by blast
    then have "length rs \<le> length bs + 2 * length (a # as)" by simp
    moreover have "append_route bs (lower_child (normalize a)) = Inr (bs @ [lower_child (normalize a)])"
      and "append_route (bs @ [lower_child (normalize a)]) (upper_child (normalize a)) = Inr ?bs"
      using Cons.prems by (simp_all add: append_route_Inr)
    ultimately show ?thesis using False rs by (auto simp: connected_bypass_step)
  qed
qed simp

lemma bypass_routes_mem:
  assumes "bypass_routes c = Inr bs"
  shows "r \<in> set bs \<Longrightarrow> inside (split_excludes c) r"
    and "e \<in> set (split_excludes c) \<Longrightarrow> normalize e \<in> set bs
      \<or> (\<exists>p \<in> set (addresses c). \<forall>x. covers e x \<longrightarrow> x = address p)"
proof -
  have v: "network_config_validate c = Inr ()"
    using assms by (auto simp: bypass_routes_def result_simps)
  obtain ns where
    ns: "connected_bypass (split_excludes c) (addresses c) (map normalize (split_excludes c)) = Inr ns"
    and bs: "set bs = set (filter (\<lambda>route. prefix route \<noteq> width route
                \<or> \<not> list_ex (\<lambda>a. address a = address route) (addresses c)) ns)"
    using assms by (auto simp: bypass_routes_def result_simps Let_def)
  have ok: "\<forall>e \<in> set (split_excludes c). prefix_ok e" "\<forall>a \<in> set (addresses c). prefix_ok a"
    using network_config_validate_prefixes [OF v] by auto
  have n: "inside (split_excludes c) (normalize e)" if "e \<in> set (split_excludes c)" for e
    using that ok(1) by (auto simp: inside_def covers_normalize)
  note ins = connected_bypass_inside [OF ns ok]
  show "inside (split_excludes c) r" if "r \<in> set bs"
    using that bs ins n by auto
  assume e: "e \<in> set (split_excludes c)"
  show "normalize e \<in> set bs \<or> (\<exists>p \<in> set (addresses c). \<forall>x. covers e x \<longrightarrow> x = address p)"
  proof (cases "normalize e \<in> set bs")
    case False
    have "normalize e \<in> set ns" using e ins by auto
    with False bs obtain p where p: "p \<in> set (addresses c)" "address p = address (normalize e)"
      and w: "prefix (normalize e) = width (normalize e)"
      by (auto simp: list_ex_iff)
    have "normalize e = host_prefix (address (normalize e))"
      using w by (simp add: host_prefix_def width_def)
    then have "covers e x \<Longrightarrow> x = address p" for x
      using covers_normalize [of e x] covers_host e ok(1) p(2) by metis
    with p show ?thesis by blast
  qed simp
qed

section \<open>The kernel's decision is the policy\<close>

lemma max_by_key_None: "max_by_key f xs = None \<longleftrightarrow> xs = []"
  by (cases xs) (auto split: option.splits if_splits)

lemma max_by_key_Some:
  "max_by_key f xs = Some m \<Longrightarrow> m \<in> set xs \<and> (\<forall>x \<in> set xs. f x \<le> f m)"
proof (induction xs arbitrary: m)
  case (Cons x xs)
  show ?case
  proof (cases "max_by_key f xs")
    case None
    with Cons.prems show ?thesis by (simp add: max_by_key_None)
  next
    case (Some y)
    with Cons.IH [OF Some] Cons.prems show ?thesis
      by (auto split: if_splits intro: order_trans less_imp_le)
  qed
qed simp

lemma tunneled_policy_aux:
  assumes "tunnel_routes c = Inr ts" and "bypass_routes c = Inr bs"
    and "a \<notin> address ` set (addresses c)"
  shows "tunneled (policy_table c ts bs) a \<longleftrightarrow> wants_tunnel c a"
proof -
  let ?T = "filter (\<lambda>(r, _). contains r (host_prefix a)) (policy_table c ts bs)"
  have can: "canonical r" if "(r, b) \<in> set (policy_table c ts bs)" for r b
    using that tunnel_routes_mem(1) [OF assms(1)] bypass_routes_mem(1) [OF assms(2)]
    by (auto simp: policy_table_def inside_def)
  then have T: "(r, b) \<in> set ?T \<longleftrightarrow> (r, b) \<in> set (policy_table c ts bs) \<and> covers r a" for r b
    using contains_host by auto
  have inT: "(r, b) \<in> set (policy_table c ts bs) \<Longrightarrow> covers r a \<Longrightarrow> (r, b) \<in> set ?T" for r b
    using T by blast
  have v: "network_config_validate c = Inr ()"
    using assms(1) by (auto simp: tunnel_routes_def result_simps)
  have ok: "prefix_ok e" if "e \<in> set (split_excludes c)" for e
    using that network_config_validate_prefixes [OF v] by simp
  show ?thesis
  proof
    assume w: "wants_tunnel c a"
    have nb: "b" if "(r, b) \<in> set ?T" for r b
    proof -
      have "covers r a" and "(r, b) \<in> set (policy_table c ts bs)"
        using that T by blast+
      with w bypass_routes_mem(1) [OF assms(2)] show ?thesis
        by (auto simp: policy_table_def wants_tunnel_def excluded_def list_ex_iff inside_def
            covers_host)
    qed
    obtain t where "t \<in> set ts" "covers t a"
      using tunnel_routes_cover(2) [OF assms(1) w] by blast
    then have "(t, True) \<in> set ?T" by (intro inT) (simp_all add: policy_table_def)
    then obtain r b where m: "max_by_key (\<lambda>(r, _). prefix r) ?T = Some (r, b)"
      using max_by_key_None by (metis (mono_tags, lifting) empty_iff not_Some_eq list.set(1) surj_pair)
    with max_by_key_Some [OF m] nb show "tunneled (policy_table c ts bs) a"
      by (auto simp: tunneled_def)
  next
    assume "tunneled (policy_table c ts bs) a"
    then obtain r where m: "max_by_key (\<lambda>(r, _). prefix r) ?T = Some (r, True)"
      by (auto simp: tunneled_def split: option.splits prod.splits)
    then have r: "(r, True) \<in> set ?T" and best: "\<forall>(s, b) \<in> set ?T. prefix s \<le> prefix r"
      using max_by_key_Some [OF m] by auto
    have rt: "r \<in> set ts" "covers r a"
      using r T by (auto simp: policy_table_def)
    note rc = canonical_ok [OF tunnel_routes_mem(1) [OF assms(1) rt(1)]]
    have "\<not> covers e a" if e: "e \<in> set (split_excludes c)" for e
    proof
      assume ce: "covers e a"
      with bypass_routes_mem(2) [OF assms(2) e] assms(3) have "normalize e \<in> set bs" by auto
      with ce ok [OF e] have "(normalize e, False) \<in> set ?T"
        by (intro inT) (simp_all add: policy_table_def covers_normalize)
      with best have "prefix (normalize e) \<le> prefix r" by auto
      with covers_nested(1) [of "normalize e" r a] rt(2) rc ce ok [OF e]
      have "contains (normalize e) r"
        by (simp add: contains_iff canonical_normalize covers_normalize prefix_ok_normalize)
      with tunnel_routes_mem(4) [OF assms(1) rt(1) e] show False by simp
    qed
    moreover have "a \<noteq> transport_peer c"
    proof
      assume ap: "a = transport_peer c"
      then have "(host_prefix a, False) \<in> set ?T"
        by (intro inT) (simp_all add: policy_table_def covers_host)
      with best have "prefix (host_prefix a) \<le> prefix r" by auto
      with covers_nested(1) [of "host_prefix a" r a] rt(2) rc
      have "contains (host_prefix a) r" by (simp add: contains_iff covers_host)
      with tunnel_routes_mem(3) [OF assms(1) rt(1)] ap show False by simp
    qed
    ultimately show "wants_tunnel c a"
      using tunnel_routes_cover(1) [OF assms(1) rt]
      by (auto simp: wants_tunnel_def excluded_def list_ex_iff)
  qed
qed

section \<open>Properties\<close>

text \<open>A split-tunnel configuration with nested and overlapping exclusions, as in the tests.\<close>

definition sample_config :: network_config where
  "sample_config =
     \<lparr>interface = \<lparr>if_name = ''tun0'', if_index = 1\<rparr>, mtu = 1400,
      addresses = [\<lparr>address = V4 0x0A4E0002, prefix = 32\<rparr>],
      ipv4_subnet = None, dns_servers = [], search_domains = [], split_dns = [],
      full_tunnel_ipv4 = False, full_tunnel_ipv6 = False,
      split_includes = [\<lparr>address = V4 0x0A000000, prefix = 8\<rparr>,
                        \<lparr>address = V4 0xAC100100, prefix = 24\<rparr>],
      split_excludes = [\<lparr>address = V4 0x0A070000, prefix = 16\<rparr>,
                        \<lparr>address = V4 0xAC100000, prefix = 16\<rparr>],
      transport_peer = V4 0x0A080001\<rparr>"

lemma sample_tables:
  "tunnel_routes sample_config = Inr [\<lparr>address = V4 0x0A000000, prefix = 8\<rparr>]"
  "bypass_routes sample_config = Inr [\<lparr>address = V4 0x0A070000, prefix = 16\<rparr>,
                                      \<lparr>address = V4 0xAC100000, prefix = 16\<rparr>]"
  by code_simp+

text \<open>C3: for every configuration whose tables are computed and every destination that is not one
of the tunnel's own addresses, the longest-prefix decision over the tunnel routes, the bypass
routes and the transport host is the negotiated policy: an address goes through the tunnel
exactly when some include covers it, no exclude covers it (whatever the prefix lengths) and it
is not the transport peer.\<close>

theorem tunnel_decision_is_policy:
  assumes "tunnel_routes c = Inr ts" and "bypass_routes c = Inr bs"
    and "a \<notin> address ` set (addresses c)"
  shows "tunneled (policy_table c ts bs) a \<longleftrightarrow> wants_tunnel c a"
  using assms by (rule tunneled_policy_aux)

theorem tunnel_decision_is_policy_witness:
  "tunneled (policy_table sample_config [\<lparr>address = V4 0x0A000000, prefix = 8\<rparr>]
     [\<lparr>address = V4 0x0A070000, prefix = 16\<rparr>, \<lparr>address = V4 0xAC100000, prefix = 16\<rparr>])
     (V4 0x0A060001)
   \<and> \<not> tunneled (policy_table sample_config [\<lparr>address = V4 0x0A000000, prefix = 8\<rparr>]
     [\<lparr>address = V4 0x0A070000, prefix = 16\<rparr>, \<lparr>address = V4 0xAC100000, prefix = 16\<rparr>])
     (V4 0x0A070001)"
proof -
  have "wants_tunnel sample_config (V4 0x0A060001)" "\<not> wants_tunnel sample_config (V4 0x0A070001)"
    by code_simp+
  moreover have "V4 0x0A060001 \<notin> address ` set (addresses sample_config)"
    "V4 0x0A070001 \<notin> address ` set (addresses sample_config)"
    by (simp_all add: sample_config_def)
  ultimately show ?thesis
    using tunnel_decision_is_policy [OF sample_tables] by blast
qed

text \<open>C@: a validated configuration always has both tables: the bound on the route expansion is
never met, because at most 518 prefixes are appended to the tunnel table and 768 to the
bypass table.\<close>

theorem route_tables_total:
  assumes "network_config_validate c = Inr ()"
  shows "\<exists>ts bs. tunnel_routes c = Inr ts \<and> length ts \<le> 518
    \<and> bypass_routes c = Inr bs \<and> length bs \<le> 768"
proof -
  have shorter: "length (remdups_adj (sort_key route_key (filter P xs))) \<le> n" if "length xs \<le> n"
    for P xs n
  proof -
    have "length (remdups_adj (sort_key route_key (filter P xs))) \<le> length (filter P xs)"
      using remdups_adj_length [of "sort_key route_key (filter P xs)"] by simp
    moreover have "length (filter P xs) \<le> length xs" by (rule length_filter_le)
    ultimately show ?thesis using that by linarith
  qed
  have l: "length (concat (map halves (collect_includes c))) \<le> 518"
    by (rule collect_includes_length [OF assms])
  then obtain ns where ns: "merge_includes [] (concat (map halves (collect_includes c))) = Inr ns"
    and "length ns \<le> 518"
    using merge_includes_total [of "[]" "concat (map halves (collect_includes c))"]
    by (auto simp: max_policy_routes_def)
  have b: "length (map normalize (split_excludes c)) + 2 * length (addresses c) \<le> 768"
    using network_config_validate_bounds [OF assms] by (simp add: max_network_items_def)
  then obtain bs where bs:
    "connected_bypass (split_excludes c) (addresses c) (map normalize (split_excludes c)) = Inr bs"
    and "length bs \<le> 768"
    using connected_bypass_total [of "map normalize (split_excludes c)" "addresses c"]
    by (force simp: max_policy_routes_def)
  show ?thesis
    using assms ns bs shorter [OF \<open>length ns \<le> 518\<close>] shorter [OF \<open>length bs \<le> 768\<close>]
    by (simp add: tunnel_routes_def bypass_routes_def Let_def)
qed

theorem route_tables_total_witness:
  "network_config_validate sample_config = Inr ()
   \<and> (\<exists>ts bs. tunnel_routes sample_config = Inr ts \<and> length ts \<le> 518
        \<and> bypass_routes sample_config = Inr bs \<and> length bs \<le> 768)"
proof -
  have v: "network_config_validate sample_config = Inr ()" by code_simp
  with route_tables_total [OF v] show ?thesis by simp
qed

text \<open>C@: the tunnel table never holds a default route, its entries are in canonical form and in
the order of the sort key, and no entry contains another one.\<close>

theorem tunnel_table_shape:
  assumes "tunnel_routes c = Inr ts"
  shows "(\<forall>t \<in> set ts. prefix t \<noteq> 0 \<and> canonical t) \<and> sorted (map route_key ts) \<and> antichain ts"
proof -
  obtain ns where v: "network_config_validate c = Inr ()"
    and m: "merge_includes [] (concat (map halves (collect_includes c))) = Inr ns"
    and ts: "ts = remdups_adj (sort_key route_key (filter (\<lambda>include. \<not> list_ex
           (\<lambda>exclude. contains exclude include)
           (map normalize (split_excludes c) @ [host_prefix (transport_peer c)])) ns))"
    using assms by (rule tunnel_routes_elim)
  have "\<forall>p \<in> set (concat (map halves (collect_includes c))). canonical p"
    using collect_includes_canonical [OF v] halves_canonical(1) by auto
  then have ac: "antichain ns"
    using merge_includes_antichain [OF m] by (auto simp: antichain_def)
  let ?k = "filter (\<lambda>include. \<not> list_ex (\<lambda>exclude. contains exclude include)
           (map normalize (split_excludes c) @ [host_prefix (transport_peer c)])) ns"
  have d: "distinct (sort_key route_key ?k)"
    using ac by (simp add: antichain_def)
  then have eq: "ts = sort_key route_key ?k"
    using ts by (simp add: remdups_adj_distinct)
  then have "sorted (map route_key ts)" by simp
  moreover have "antichain ts"
    using d ac by (auto simp: eq antichain_def)
  ultimately show ?thesis
    using tunnel_routes_mem(1,2) [OF assms] by blast
qed

theorem tunnel_table_shape_witness:
  "prefix \<lparr>address = V4 0x0A000000, prefix = 8\<rparr> \<noteq> 0
   \<and> antichain [\<lparr>address = V4 0x0A000000, prefix = 8\<rparr>]"
  using tunnel_table_shape [OF sample_tables(1)] by simp

end
