(* ===== verification/ProfileModel.thy ===== *)
theory ProfileModel
  imports ErrorModel
begin

text \<open>
  \<open>crates/model/src/profile.rs\<close> and \<open>storage.rs\<close>: connection profiles, settings and certificate
  pins with their validation. The crates \<open>url\<close> and \<open>base64\<close> are not part of the repository:
  \<open>'u crates\<close> is the argument that stands for what the code calls of them, with \<open>'u\<close> the type
  of parsed URLs.
\<close>

section \<open>The external crates\<close>

record 'u crates =
  url_parse :: "string \<Rightarrow> 'u option"
  url_as_str :: "'u \<Rightarrow> string"
  url_scheme :: "'u \<Rightarrow> string"
  url_host :: "'u \<Rightarrow> string option"
  url_cannot_be_a_base :: "'u \<Rightarrow> bool"
  url_username :: "'u \<Rightarrow> string"
  url_password :: "'u \<Rightarrow> string option"
  url_fragment :: "'u \<Rightarrow> string option"
  url_query :: "'u \<Rightarrow> string option"
  url_path :: "'u \<Rightarrow> string"
  url_port :: "'u \<Rightarrow> u16 option"
  host_parse :: "string \<Rightarrow> string option"
  base64_decode32 :: "string \<Rightarrow> nat option"

section \<open>Data\<close>

record protocol_info =
  pi_id :: string
  pi_label :: string
  pi_description :: string
  pi_flags :: u32

datatype browser_mode = AutoBrowser | SystemBrowser | EmbeddedBrowser | ManualBrowser

datatype token_mode = NoToken | Totp | Hotp | Stoken | Yubioath | Oidc

record 'u profile =
  pf_id :: uuid
  pf_revision :: u64
  pf_name :: string
  pf_protocol :: string
  server :: 'u
  username :: "string option"
  auth_group :: "string option"
  gateway :: "string option"
  ca_file :: "string option"
  client_certificate :: "string option"
  client_key :: "string option"
  secondary_certificate :: "string option"
  secondary_key :: "string option"
  proxy :: "'u option"
  user_agent :: "string option"
  reported_os :: "string option"
  pf_mtu :: "u16 option"
  sni :: "string option"
  direct_gateway :: bool
  disable_dtls :: bool
  disable_ipv6 :: bool
  browser_mode :: browser_mode
  token_mode :: token_mode
  reconnect_timeout_secs :: u32
  remember_password :: bool

definition default_reconnect_timeout :: u32 where
  "default_reconnect_timeout = 300"

text \<open>\<open>Profile::new\<close>; the fresh identifier of \<open>Uuid::new_v4\<close> is an argument.\<close>

definition profile_new :: "uuid \<Rightarrow> string \<Rightarrow> 'u \<Rightarrow> string \<Rightarrow> 'u profile" where
  "profile_new fresh name url protocol =
     \<lparr>pf_id = fresh, pf_revision = 1, pf_name = name, pf_protocol = protocol, server = url,
      username = None, auth_group = None, gateway = None, ca_file = None,
      client_certificate = None, client_key = None, secondary_certificate = None,
      secondary_key = None, proxy = None, user_agent = None, reported_os = None, pf_mtu = None,
      sni = None, direct_gateway = False, disable_dtls = False, disable_ipv6 = False,
      browser_mode = AutoBrowser, token_mode = NoToken,
      reconnect_timeout_secs = default_reconnect_timeout, remember_password = False\<rparr>"

datatype theme = SystemTheme | LightTheme | DarkTheme

record settings =
  theme :: theme
  start_at_login :: bool
  auto_connect_profile_id :: "uuid option"
  close_to_tray :: bool

definition settings_default :: settings where
  "settings_default =
     \<lparr>theme = SystemTheme, start_at_login = False, auto_connect_profile_id = None,
      close_to_tray = True\<rparr>"

record certificate_pin =
  pin_host :: string
  pin_port :: u16
  pin_fingerprint :: string

record 'u profile_document =
  pd_schema_version :: u32
  pd_revision :: u64
  profiles :: "'u profile list"

record settings_document =
  sd_schema_version :: u32
  sd_revision :: u64
  sd_settings :: settings

record pins_document =
  cd_schema_version :: u32
  cd_revision :: u64
  pins :: "certificate_pin list"

record 'u profile_export =
  pe_schema_version :: u32
  pe_profiles :: "'u profile list"

section \<open>Validation\<close>

definition validate_https :: "'u crates \<Rightarrow> 'u \<Rightarrow> unit result" where
  "validate_https X url =
     (if url_scheme X url \<noteq> ''https'' \<or> url_host X url = None \<or> url_cannot_be_a_base X url
        \<or> url_username X url \<noteq> [] \<or> url_password X url \<noteq> None \<or> url_fragment X url \<noteq> None
        \<or> url_port X url = Some 0
      then Inl (invalid ''Server must be an absolute HTTPS URL without credentials or fragment and with a valid port'')
      else Inr ())"

definition validate_proxy :: "'u crates \<Rightarrow> 'u \<Rightarrow> unit result" where
  "validate_proxy X p =
     (if url_scheme X p \<notin> set [''http'', ''socks'', ''socks5''] \<or> url_host X p = None
        \<or> url_username X p \<noteq> [] \<or> url_password X p \<noteq> None \<or> url_fragment X p \<noteq> None
        \<or> url_query X p \<noteq> None \<or> url_path X p \<notin> set [[], ''/''] \<or> url_port X p = Some 0
      then Inl (invalid ''Proxy must be an HTTP/SOCKS endpoint without credentials, path, query or fragment'')
      else Inr ())"

definition parse_server :: "'u crates \<Rightarrow> string \<Rightarrow> 'u result" where
  "parse_server X input =
     (let i = trim input in
      rbind (ok_or (invalid ''Invalid server URL'')
               (if contains_str ''://'' i then url_parse X i else url_parse X (''https://'' @ i)))
        (\<lambda>url. rbind (validate_https X url) (\<lambda>_. Inr url)))"

definition pin_attribute_names :: "string list" where
  "pin_attribute_names = [''pin-value'', ''pin-source'', ''pinfile'']"

definition validate_attribute_name :: "string \<Rightarrow> unit result" where
  "validate_attribute_name attribute =
     (case split_once (CHR ''='') attribute of
        None \<Rightarrow> Inl (invalid ''Invalid PKCS#11 attribute'')
      | Some (name, _) \<Rightarrow>
          if name = [] \<or> \<not> list_all (\<lambda>b. is_ascii_alphanumeric b \<or> b = CHR ''-'' \<or> b = CHR ''_'') name
          then Inl (invalid ''Invalid PKCS#11 attribute name; percent encoding is only allowed in values'')
          else if list_ex (\<lambda>sensitive. eq_ignore_ascii_case name sensitive) pin_attribute_names
          then Inl (invalid ''PKCS#11 PIN values and sources cannot be saved in profile metadata; use the credential prompt'')
          else Inr ())"

text \<open>The attributes of a PKCS\#11 URI, path and query, with literal spaces removed.\<close>

definition reference_attributes :: "string \<Rightarrow> string list" where
  "reference_attributes attributes =
     (let stripped = filter (\<lambda>c. c \<noteq> CHR '' '') attributes;
          (path, query) = (case split_once (CHR ''?'') stripped of
                             Some pq \<Rightarrow> pq | None \<Rightarrow> (stripped, []))
      in filter (\<lambda>part. part \<noteq> [])
           (split_by (\<lambda>c. c = CHR '';'') path @ split_by (\<lambda>c. c = CHR ''&'') query))"

definition is_pkcs11_scheme :: "string \<Rightarrow> bool" where
  "is_pkcs11_scheme scheme \<longleftrightarrow>
     map to_ascii_lowercase (filter (\<lambda>b. b \<noteq> CHR '' '') scheme) = ''pkcs11''"

definition validate_certificate_reference :: "string \<Rightarrow> unit result" where
  "validate_certificate_reference value =
     (case split_once (CHR '':'') value of
        None \<Rightarrow> Inr ()
      | Some (scheme, attributes) \<Rightarrow>
          if \<not> is_pkcs11_scheme scheme then Inr ()
          else check_all validate_attribute_name (reference_attributes attributes))"

definition reported_systems :: "string list" where
  "reported_systems = [''linux'', ''linux-64'', ''win'', ''mac-intel'', ''android'', ''apple-ios'']"

definition validate_mtu :: "bool \<Rightarrow> u16 \<Rightarrow> unit result" where
  "validate_mtu no_ipv6 m =
     (let minimum = (if no_ipv6 then 576 else 1280) in
      if \<not> (minimum \<le> m \<and> m \<le> 9000)
      then Inl (invalid (''MTU must be '' @ (if no_ipv6 then ''576'' else ''1280'') @ ''..9000''))
      else Inr ())"

definition some_values :: "'a option list \<Rightarrow> 'a list" where
  "some_values xs = List.map_filter id xs"

definition profile_validate :: "'u crates \<Rightarrow> 'u profile \<Rightarrow> unit result" where
  "profile_validate X p =
     (if pf_id p = 0 \<or> pf_revision p = 0
      then Inl (invalid ''Profile ID and revision must be nonzero'')
      else if trim (pf_name p) = [] \<or> has_control (pf_name p)
      then Inl (invalid ''Profile name must be nonempty and contain no control characters'')
      else
        rbind (validate_https X (server p)) (\<lambda>_.
        if pf_protocol p = []
           \<or> \<not> list_all (\<lambda>c. is_ascii_alphanumeric c \<or> c = CHR ''-'' \<or> c = CHR ''_'') (pf_protocol p)
        then Inl (invalid ''Invalid protocol identifier'')
        else
        rbind (case pf_mtu p of None \<Rightarrow> Inr () | Some m \<Rightarrow> validate_mtu (disable_ipv6 p) m) (\<lambda>_.
        rbind (case reported_os p of None \<Rightarrow> Inr ()
               | Some os \<Rightarrow> if os \<notin> set reported_systems
                           then Inl (invalid ''Unsupported reported OS'') else Inr ()) (\<lambda>_.
        rbind (case proxy p of None \<Rightarrow> Inr () | Some u \<Rightarrow> validate_proxy X u) (\<lambda>_.
        rbind (check_all
                 (\<lambda>value. if has_control value
                    then Inl (invalid ''Profile options cannot contain control characters'')
                    else Inr ())
                 (some_values [username p, auth_group p, gateway p, ca_file p,
                    client_certificate p, client_key p, secondary_certificate p, secondary_key p,
                    user_agent p, reported_os p, sni p])) (\<lambda>_.
        rbind (check_all validate_certificate_reference
                 (some_values [ca_file p, client_certificate p, client_key p,
                    secondary_certificate p, secondary_key p])) (\<lambda>_.
        case sni p of None \<Rightarrow> Inr ()
        | Some h \<Rightarrow> if h = [] \<or> host_parse X h = None
                   then Inl (invalid ''SNI must be a valid hostname'') else Inr ())))))))"

definition validate_for_connect ::
  "'u crates \<Rightarrow> 'u profile \<Rightarrow> protocol_info list \<Rightarrow> unit result" where
  "validate_for_connect X p protocols =
     rbind (profile_validate X p) (\<lambda>_.
       if \<not> list_ex (\<lambda>i. pi_id i = pf_protocol p) protocols
       then Inl (new_error UnsupportedProtocol
                   ''This engine does not support the profile's protocol'')
       else Inr ())"

definition validate_fingerprint :: "'u crates \<Rightarrow> string \<Rightarrow> unit result" where
  "validate_fingerprint X fp =
     (let valid =
        (case strip_prefix ''pin-sha256:'' fp of
           Some v \<Rightarrow> length v = 44 \<and> base64_decode32 X v = Some 32
         | None \<Rightarrow>
             (let (v, n) = (case strip_prefix ''sha256:'' fp of
                              Some v \<Rightarrow> (v, 64)
                            | None \<Rightarrow> (case strip_prefix ''sha1:'' fp of
                                         Some v \<Rightarrow> v | None \<Rightarrow> fp, 40))
              in length v = n \<and> list_all is_ascii_hexdigit v))
      in if valid then Inr ()
         else Inl (invalid ''Certificate fingerprints require a complete supported hash''))"

definition certificate_pin_new ::
  "'u crates \<Rightarrow> string \<Rightarrow> u16 \<Rightarrow> string \<Rightarrow> certificate_pin result" where
  "certificate_pin_new X host port fp =
     rbind (validate_fingerprint X fp) (\<lambda>_.
       if port = 0 then Inl (invalid ''Invalid certificate pin'')
       else rbind (ok_or (invalid ''Invalid pin host'') (host_parse X host)) (\<lambda>h.
         Inr \<lparr>pin_host = h, pin_port = port, pin_fingerprint = fp\<rparr>))"

section \<open>What a validated profile satisfies\<close>

lemma some_values_set: "v \<in> set (some_values xs) \<longleftrightarrow> Some v \<in> set xs"
  by (induction xs) (auto simp: some_values_def map_filter_def split: option.splits)

lemma profile_validate_identity:
  assumes "profile_validate X p = Inr ()"
  shows "pf_id p \<noteq> 0" and "pf_revision p \<noteq> 0" and "validate_https X (server p) = Inr ()"
  using assms by (auto simp: profile_validate_def result_simps split: if_splits)

lemma profile_validate_references:
  assumes "profile_validate X p = Inr ()"
    and "Some r \<in> {ca_file p, client_certificate p, client_key p, secondary_certificate p,
           secondary_key p}"
  shows "validate_certificate_reference r = Inr () \<and> \<not> has_control r"
proof -
  have v: "check_all validate_certificate_reference
        (some_values [ca_file p, client_certificate p, client_key p,
                    secondary_certificate p, secondary_key p]) = Inr ()"
    and c: "check_all (\<lambda>value. if has_control value
                    then Inl (invalid ''Profile options cannot contain control characters'')
                    else Inr ())
                 (some_values [username p, auth_group p, gateway p, ca_file p,
                    client_certificate p, client_key p, secondary_certificate p, secondary_key p,
                    user_agent p, reported_os p, sni p]) = Inr ()"
    using assms(1) unfolding profile_validate_def
    by (simp_all add: rbind_Inr_iff split: if_splits)
  have "r \<in> set (some_values [ca_file p, client_certificate p, client_key p,
                    secondary_certificate p, secondary_key p])"
    and "r \<in> set (some_values [username p, auth_group p, gateway p, ca_file p,
                    client_certificate p, client_key p, secondary_certificate p, secondary_key p,
                    user_agent p, reported_os p, sni p])"
    using assms(2) by (auto simp: some_values_set)
  with v c show ?thesis
    by (auto simp: check_all_Inr_iff split: if_splits)
qed

section \<open>Properties\<close>

text \<open>C@: a profile that passes validation carries no PKCS\#11 PIN. In each of its five certificate
and key references that is a PKCS\#11 URI, every attribute of the path and of the query, once
literal spaces are removed, has the form name=value, and the name is none of pin-value,
pin-source and pinfile in any mix of upper and lower case.\<close>

theorem profile_references_hold_no_pin:
  assumes "profile_validate X p = Inr ()"
    and "Some r \<in> {ca_file p, client_certificate p, client_key p, secondary_certificate p,
           secondary_key p}"
    and "split_once (CHR '':'') r = Some (scheme, attributes)" and "is_pkcs11_scheme scheme"
    and "part \<in> set (reference_attributes attributes)"
  shows "\<exists>name v. part = name @ CHR ''='' # v \<and> CHR ''='' \<notin> set name
    \<and> map to_ascii_lowercase name \<notin> set pin_attribute_names"
proof -
  have "validate_certificate_reference r = Inr ()"
    using profile_validate_references [OF assms(1,2)] by simp
  then have "validate_attribute_name part = Inr ()"
    using assms(3-5) by (auto simp: validate_certificate_reference_def result_simps)
  then obtain name v where nv: "split_once (CHR ''='') part = Some (name, v)"
    and "\<not> list_ex (\<lambda>sensitive. eq_ignore_ascii_case name sensitive) pin_attribute_names"
    by (auto simp: validate_attribute_name_def split: option.splits prod.splits if_splits)
  moreover have "map to_ascii_lowercase s = s" if "s \<in> set pin_attribute_names" for s
    using that by (auto simp: pin_attribute_names_def to_ascii_lowercase_def is_ascii_upper_def
        less_eq_char_def)
  ultimately show ?thesis
    using split_once_Some [OF nv] by (auto simp: list_ex_iff eq_ignore_ascii_case_def)
qed

definition sample_crates :: "string crates" where
  "sample_crates =
     \<lparr>url_parse = Some, url_as_str = id, url_scheme = (\<lambda>_. ''https''),
      url_host = (\<lambda>u. Some (drop 8 u)), url_cannot_be_a_base = (\<lambda>_. False),
      url_username = (\<lambda>_. []), url_password = (\<lambda>_. None), url_fragment = (\<lambda>_. None),
      url_query = (\<lambda>_. None), url_path = (\<lambda>_. ''/''), url_port = (\<lambda>_. None),
      host_parse = Some, base64_decode32 = (\<lambda>_. None)\<rparr>"

definition sample_profile :: "string profile" where
  "sample_profile =
     (profile_new 7 ''work'' ''https://vpn.example'' ''anyconnect'')
       \<lparr>client_certificate := Some ''pkcs11:token=card;object=key?module-name=p11''\<rparr>"

theorem profile_references_hold_no_pin_witness:
  "\<exists>name v. ''module-name=p11'' = name @ CHR ''='' # v \<and> CHR ''='' \<notin> set name
    \<and> map to_ascii_lowercase name \<notin> set pin_attribute_names"
proof (rule profile_references_hold_no_pin)
  show "profile_validate sample_crates sample_profile = Inr ()" by code_simp
  show "Some ''pkcs11:token=card;object=key?module-name=p11''
      \<in> {ca_file sample_profile, client_certificate sample_profile, client_key sample_profile,
         secondary_certificate sample_profile, secondary_key sample_profile}"
    by (simp add: sample_profile_def)
  show "split_once (CHR '':'') ''pkcs11:token=card;object=key?module-name=p11''
      = Some (''pkcs11'', ''token=card;object=key?module-name=p11'')" by simp
  show "is_pkcs11_scheme ''pkcs11''" by code_simp
  show "''module-name=p11'' \<in> set (reference_attributes ''token=card;object=key?module-name=p11'')"
    by code_simp
qed

lemma hexdigit_not_prefix:
  "list_all is_ascii_hexdigit (''pin-sha256:'' @ v) = False"
  "list_all is_ascii_hexdigit (''sha256:'' @ v) = False"
  "list_all is_ascii_hexdigit (''sha1:'' @ v) = False"
  by (simp_all add: is_ascii_hexdigit_def is_ascii_digit_def less_eq_char_def)

lemma strip_prefix_append [simp]: "strip_prefix p (p @ v) = Some v"
  by (simp add: strip_prefix_def starts_with_def)

lemma strip_prefix_other:
  "strip_prefix ''pin-sha256:'' (''sha256:'' @ v) = None"
  "strip_prefix ''pin-sha256:'' (''sha1:'' @ v) = None"
  "strip_prefix ''sha256:'' (''sha1:'' @ v) = None"
  by (simp_all add: strip_prefix_def starts_with_def)

lemma strip_prefix_hex:
  assumes "list_all is_ascii_hexdigit fp"
  shows "strip_prefix ''pin-sha256:'' fp = None" and "strip_prefix ''sha256:'' fp = None"
    and "strip_prefix ''sha1:'' fp = None"
  using assms strip_prefix_Some [of _ fp] hexdigit_not_prefix
  by (metis option.exhaust)+

text \<open>C@: the accepted certificate fingerprints are exactly the complete digests: a 44-character
base64 text of 32 bytes after pin-sha256:, 64 hexadecimal digits after sha256:, or 40
hexadecimal digits with or without sha1:. No shorter prefix of a digest is ever trusted.\<close>

theorem fingerprint_complete:
  "validate_fingerprint X fp = Inr () \<longleftrightarrow>
     (\<exists>v. fp = ''pin-sha256:'' @ v \<and> length v = 44 \<and> base64_decode32 X v = Some 32)
   \<or> (\<exists>v. fp = ''sha256:'' @ v \<and> length v = 64 \<and> list_all is_ascii_hexdigit v)
   \<or> (\<exists>v. (fp = v \<or> fp = ''sha1:'' @ v) \<and> length v = 40 \<and> list_all is_ascii_hexdigit v)"
proof (cases "strip_prefix ''pin-sha256:'' fp")
  case (Some v)
  with strip_prefix_Some [OF this] show ?thesis
    using hexdigit_not_prefix(1)
    by (auto simp: validate_fingerprint_def)
next
  case p: None
  show ?thesis
  proof (cases "strip_prefix ''sha256:'' fp")
    case (Some v)
    with strip_prefix_Some [OF this] p show ?thesis
      using hexdigit_not_prefix(2) by (auto simp: validate_fingerprint_def)
  next
    case s: None
    then have "fp \<noteq> ''sha256:'' @ v" "fp \<noteq> ''pin-sha256:'' @ v" for v
      using p by (metis option.distinct(1) strip_prefix_append)+
    note no = this
    show ?thesis
    proof (cases "strip_prefix ''sha1:'' fp")
      case None
      then have "fp \<noteq> ''sha1:'' @ v" for v
        by (metis option.distinct(1) strip_prefix_append)
      with no p s None show ?thesis by (auto simp: validate_fingerprint_def)
    next
      case (Some v)
      with strip_prefix_Some [OF this] no p s hexdigit_not_prefix(3) [of v] show ?thesis
        by (auto simp: validate_fingerprint_def)
    qed
  qed
qed

end
