(* ===== verification/AuthModel.thy ===== *)
theory AuthModel
  imports ProfileModel NetworkModel
begin

text \<open>
  \<open>crates/model/src/auth.rs\<close>: server-driven authentication forms and the replies to them, and
  the handoff of an authenticated cookie to the privileged service.
\<close>

section \<open>Prompts and replies\<close>

datatype auth_field_kind = TextField | PasswordField | SelectField | TokenField | SsoToken | SsoUser

record auth_choice =
  ch_id :: string
  ch_label :: string

record auth_field =
  fd_name :: string
  fd_label :: string
  kind :: auth_field_kind
  required :: bool
  numeric :: bool
  choices :: "auth_choice list"

record auth_prompt =
  ap_prompt_id :: uuid
  ap_attempt_id :: uuid
  auth_id :: string
  banner :: "string option"
  ap_message :: "string option"
  ap_error :: "string option"
  ap_fields :: "auth_field list"

text \<open>The answers are a \<open>BTreeMap\<close>: a list of pairs with distinct keys.\<close>

record auth_reply =
  rp_prompt_id :: uuid
  rp_attempt_id :: uuid
  answers :: "(string \<times> string) list option"

definition field_value :: "(string \<times> string) list \<Rightarrow> auth_field \<Rightarrow> string" where
  "field_value as f = (case map_of as (fd_name f) of Some v \<Rightarrow> v | None \<Rightarrow> [])"

definition validate_answer :: "(string \<times> string) list \<Rightarrow> auth_field \<Rightarrow> unit result" where
  "validate_answer as f =
     (let value = field_value as f in
      if len value > 65536 \<or> nul \<in> set value \<or> required f \<and> value = []
      then Inl (invalid ''Missing or invalid authentication answer'')
      else if value \<noteq> [] \<and> numeric f \<and> \<not> list_all is_ascii_digit value
      then Inl (invalid ''Authentication answer must contain only digits'')
      else if kind f = SelectField \<and> \<not> list_ex (\<lambda>c. ch_id c = value) (choices f)
      then Inl (invalid ''Authentication selection is no longer available'')
      else Inr ())"

definition validate_reply :: "auth_prompt \<Rightarrow> auth_reply \<Rightarrow> unit result" where
  "validate_reply p r =
     (if ap_prompt_id p \<noteq> rp_prompt_id r \<or> ap_attempt_id p \<noteq> rp_attempt_id r
      then Inl (new_error Conflict ''Authentication prompt is no longer current'')
      else case answers r of
        None \<Rightarrow> Inr ()
      | Some as \<Rightarrow>
          if list_ex (\<lambda>key. \<not> list_ex (\<lambda>f. fd_name f = key) (ap_fields p)) (map fst as)
          then Inl (invalid ''Unknown authentication field'')
          else check_all (validate_answer as) (ap_fields p))"

section \<open>Certificates and the handoff\<close>

record certificate_prompt =
  cp_prompt_id :: uuid
  cp_attempt_id :: uuid
  cp_host :: string
  cp_port :: u16
  cp_reason :: string
  cp_details :: string
  cp_fingerprint :: string
  changed_pin :: bool

datatype certificate_decision = RejectCertificate | AcceptAttempt | PinCertificate

record 'u tunnel_options =
  to_proxy :: "'u option"
  to_sni :: "string option"
  to_user_agent :: "string option"
  to_reported_os :: "string option"
  to_mtu :: "u16 option"
  to_disable_dtls :: bool
  to_disable_ipv6 :: bool
  to_reconnect_timeout_secs :: u32

record 'u auth_handoff =
  ho_protocol :: string
  connect_url :: 'u
  dns_name :: string
  peer_address :: "ip_addr option"
  peer_fingerprint :: string
  cookie :: string
  proxy_credentials :: "string option"
  expires_at :: "int option"
  tunnel_options :: "'u tunnel_options"

text \<open>\<open>fresh\<close> is the identifier \<open>Profile::new\<close> draws for the profile used to check the options.\<close>

definition handoff_validate ::
  "'u crates \<Rightarrow> uuid \<Rightarrow> protocol_info list \<Rightarrow> int \<Rightarrow> 'u auth_handoff \<Rightarrow> unit result" where
  "handoff_validate X fresh available now h =
     rbind (validate_https X (connect_url h)) (\<lambda>_.
     if \<not> list_ex (\<lambda>p. pi_id p = ho_protocol h) available
     then Inl (new_error UnsupportedProtocol ''Unsupported tunnel protocol'')
     else if cookie h = [] \<or> len (cookie h) > 65536 \<or> nul \<in> set (cookie h)
     then Inl (invalid ''Invalid authentication cookie'')
     else if (case proxy_credentials h of None \<Rightarrow> False
              | Some secret \<Rightarrow> len secret > 65536 \<or> nul \<in> set secret
                  \<or> to_proxy (tunnel_options h) = None)
     then Inl (invalid ''Invalid private proxy credentials'')
     else if dns_name h = [] \<or> host_parse X (dns_name h) = None
     then Inl (invalid ''Invalid authentication DNS name'')
     else
       rbind (validate_fingerprint X (peer_fingerprint h)) (\<lambda>_.
       if (case expires_at h of None \<Rightarrow> False | Some expiry \<Rightarrow> expiry \<le> now)
       then Inl (new_error AuthenticationRequired ''Authentication has expired'')
       else
         let profile = profile_new fresh ''handoff'' (connect_url h) (ho_protocol h);
             options = tunnel_options h
         in profile_validate X
              (profile\<lparr>proxy := to_proxy options, sni := to_sni options,
                 user_agent := to_user_agent options, reported_os := to_reported_os options,
                 pf_mtu := to_mtu options, disable_ipv6 := to_disable_ipv6 options\<rparr>)))"

lemma handoff_validate_ok:
  assumes "handoff_validate X fresh available now h = Inr ()"
  shows "cookie h \<noteq> []" and "\<exists>p \<in> set available. pi_id p = ho_protocol h"
    and "validate_fingerprint X (peer_fingerprint h) = Inr ()"
    and "expires_at h = Some t \<Longrightarrow> now < t"
  using assms
  by (auto simp: handoff_validate_def result_simps list_ex_iff Let_def split: if_splits)

section \<open>Properties\<close>

text \<open>C@: a reply is accepted exactly when it answers the current prompt of the current attempt
and either cancels it, or names only fields of the form and gives each field an answer
of at most 65536 bytes without NUL, nonempty where required, digits only where numeric, and
among the offered choices for a selection.\<close>

theorem reply_accepted_iff:
  "validate_reply p r = Inr () \<longleftrightarrow>
     rp_prompt_id r = ap_prompt_id p \<and> rp_attempt_id r = ap_attempt_id p
   \<and> (answers r = None \<or>
      (\<exists>as. answers r = Some as \<and> fst ` set as \<subseteq> fd_name ` set (ap_fields p)
        \<and> list_all (\<lambda>f.
             len (field_value as f) \<le> 65536 \<and> nul \<notin> set (field_value as f)
           \<and> \<not> (required f \<and> field_value as f = [])
           \<and> \<not> (numeric f \<and> \<not> list_all is_ascii_digit (field_value as f))
           \<and> \<not> (kind f = SelectField \<and> field_value as f \<notin> ch_id ` set (choices f)))
           (ap_fields p)))"
proof -
  have a: "validate_answer as f = Inr () \<longleftrightarrow>
      len (field_value as f) \<le> 65536 \<and> nul \<notin> set (field_value as f)
      \<and> \<not> (required f \<and> field_value as f = [])
      \<and> \<not> (numeric f \<and> \<not> list_all is_ascii_digit (field_value as f))
      \<and> \<not> (kind f = SelectField \<and> field_value as f \<notin> ch_id ` set (choices f))" for as f
  proof -
    have "list_ex (\<lambda>c. ch_id c = field_value as f) (choices f)
        \<longleftrightarrow> field_value as f \<in> ch_id ` set (choices f)"
      unfolding list_ex_iff image_iff by metis
    then show ?thesis
      by (cases "field_value as f = []") (simp_all add: validate_answer_def Let_def)
  qed
  have k: "\<not> list_ex (\<lambda>key. \<not> list_ex (\<lambda>f. fd_name f = key) (ap_fields p)) (map fst as)
      \<longleftrightarrow> fst ` set as \<subseteq> fd_name ` set (ap_fields p)" for as
    by (simp add: list_ex_iff image_subset_iff image_iff) metis
  show ?thesis
  proof (cases "answers r")
    case None
    then show ?thesis by (auto simp: validate_reply_def)
  next
    case (Some as)
    have "validate_reply p r = Inr () \<longleftrightarrow>
        rp_prompt_id r = ap_prompt_id p \<and> rp_attempt_id r = ap_attempt_id p
        \<and> \<not> list_ex (\<lambda>key. \<not> list_ex (\<lambda>f. fd_name f = key) (ap_fields p)) (map fst as)
        \<and> list_all (\<lambda>f. validate_answer as f = Inr ()) (ap_fields p)"
      using Some by (auto simp: validate_reply_def check_all_Inr_iff list_all_iff)
    with Some show ?thesis unfolding k a by auto
  qed
qed

end
