(* ===== verification/BrowserModel.thy ===== *)
theory BrowserModel
  imports AuthModel
begin

text \<open>
  \<open>crates/model/src/browser.rs\<close>: the messages of the browser sign-in and the checks on them: the
  request sent to a browser host, the completion page that comes back, and the origin that
  binds the two.
\<close>

definition max_browser_bytes :: int where
  "max_browser_bytes = 1024 * 1024"

datatype browser_phase = Authentication | Portal | Gateway
datatype native_browser_kind = Webview | External
datatype browser_stage = Opening | Waiting | ManualInput | ConfirmAccount

record browser_prompt =
  bp_attempt_id :: uuid
  bp_transaction_id :: uuid
  bp_expected_origin :: string
  bp_phase :: browser_phase
  bp_mode :: browser_mode
  stage :: browser_stage
  account :: "string option"

record browser_tls_policy =
  tls_ca_file :: "string option"
  tls_pins :: "certificate_pin list"

record 'u browser_request =
  br_attempt_id :: uuid
  br_transaction_id :: uuid
  br_protocol :: string
  expected_origin :: 'u
  br_phase :: browser_phase
  br_kind :: native_browser_kind
  br_mode :: browser_mode
  br_uri :: string
  external_allowed :: "bool option"
  tls :: browser_tls_policy

record browser_page =
  pg_uri :: string
  cookies :: "(string \<times> string) list"
  headers :: "(string \<times> string) list"
  document :: "string option"

definition authority_of :: "string \<Rightarrow> string" where
  "authority_of uri = hd (split_by (\<lambda>c. c = CHR ''/'' \<or> c = CHR ''?'' \<or> c = CHR ''#'') (drop 8 uri))"

text \<open>The slice \<open>uri.get(..8)\<close> only matters when it is ASCII, hence a whole number of characters.\<close>

definition https_origin :: "'u crates \<Rightarrow> string \<Rightarrow> 'u result" where
  "https_origin X uri =
     (if \<not> (8 \<le> length uri \<and> eq_ignore_ascii_case (take 8 uri) ''https://'')
         \<or> len uri > max_browser_bytes \<or> has_control uri
      then Inl (invalid ''Browser navigation requires an absolute HTTPS URL'')
      else let authority = authority_of uri in
      if authority = [] \<or> CHR ''@'' \<in> set authority
      then Inl (invalid ''Browser origin cannot contain credentials'')
      else ok_or (invalid ''Invalid browser HTTPS origin'')
             (url_parse X (''https://'' @ authority @ ''/'')))"

definition browser_request_validate :: "'u crates \<Rightarrow> 'u browser_request \<Rightarrow> unit result" where
  "browser_request_validate X r =
     (if br_attempt_id r = 0 \<or> br_transaction_id r = 0 \<or> br_protocol r = []
        \<or> length (br_protocol r) > 64 \<or> br_uri r = [] \<or> len (br_uri r) > max_browser_bytes
        \<or> nul \<in> set (br_uri r) \<or> len (tls_pins (tls r)) > 1024
      then Inl (invalid ''Invalid browser authentication request'')
      else rbind (https_origin X (url_as_str X (expected_origin r))) (\<lambda>origin.
        if origin \<noteq> expected_origin r
        then Inl (invalid ''Browser completion origin must not contain a path or credential'')
        else if (case tls_ca_file (tls r) of None \<Rightarrow> False
                 | Some path \<Rightarrow> path = [] \<or> len path > 4096 \<or> nul \<in> set path)
        then Inl (invalid ''Invalid browser CA path'')
        else check_all
          (\<lambda>pin. rbind (certificate_pin_new X (pin_host pin) (pin_port pin) (pin_fingerprint pin))
             (\<lambda>_. Inr ()))
          (tls_pins (tls r))))"

text \<open>The running total of the page's bytes, refusing NUL on the way.\<close>

fun page_bytes :: "int \<Rightarrow> string list \<Rightarrow> int result" where
  "page_bytes n [] = Inr n"
| "page_bytes n (v # vs) =
     (case usize_checked_add n (len v) of
        None \<Rightarrow> Inl (invalid ''Browser response exceeds limit'')
      | Some m \<Rightarrow>
          if nul \<in> set v then Inl (invalid ''Invalid browser response encoding'')
          else page_bytes m vs)"

definition page_values :: "browser_page \<Rightarrow> string list" where
  "page_values p =
     concat (map (\<lambda>(name, value). [name, value]) (cookies p @ headers p))
     @ (case document p of None \<Rightarrow> [] | Some d \<Rightarrow> [d])"

definition browser_page_validate :: "'u crates \<Rightarrow> browser_page \<Rightarrow> 'u \<Rightarrow> unit result" where
  "browser_page_validate X p origin =
     (let mismatch = Inl (invalid ''Browser completion came from an unexpected origin'') in
      if length (cookies p) > 128 \<or> length (headers p) > 128 then mismatch
      else rbind (https_origin X (pg_uri p)) (\<lambda>o'.
        if o' \<noteq> origin then mismatch
        else rbind (page_bytes (len (pg_uri p)) (page_values p)) (\<lambda>n.
          if n > max_browser_bytes
          then Inl (invalid ''Browser response exceeds limit'') else Inr ())))"

section \<open>Facts about origins and pages\<close>

lemma hd_split_by: "hd (split_by p s) = takeWhile (\<lambda>c. \<not> p c) s"
proof (induction s)
  case (Cons c s)
  then show ?case by (cases "split_by p s") auto
qed simp

lemma authority_of_takeWhile:
  "authority_of uri = takeWhile (\<lambda>c. c \<notin> {CHR ''/'', CHR ''?'', CHR ''#''}) (drop 8 uri)"
  by (simp add: authority_of_def hd_split_by)

lemma page_bytes_Inr:
  "page_bytes n vs = Inr m \<Longrightarrow>
     m = n + int (sum_list (map length vs)) \<and> (\<forall>v \<in> set vs. nul \<notin> set v)"
  by (induction n vs rule: page_bytes.induct)
     (auto simp: usize_checked_add_def split: option.splits if_splits)

section \<open>Properties\<close>

text \<open>C@: the origin derived from a navigation is computed from the authority alone: it is the
parse of https, the text between the scheme and the first slash, question mark or hash, and
a slash; that text is nonempty and has no at sign. So the credential-bearing path, query and
fragment of a callback never reach the URL parser, and user information is refused.\<close>

theorem origin_from_authority:
  assumes "https_origin X uri = Inr origin"
  shows "url_parse X (''https://'' @ authority_of uri @ ''/'') = Some origin
    \<and> authority_of uri \<noteq> [] \<and> CHR ''@'' \<notin> set (authority_of uri)
    \<and> set (authority_of uri) \<inter> {CHR ''/'', CHR ''?'', CHR ''#''} = {}
    \<and> map to_ascii_lowercase (take 8 uri) = ''https://'' \<and> \<not> has_control uri"
proof -
  have low: "map to_ascii_lowercase ''https://'' = ''https://''"
    by code_simp
  have a: "\<not> (\<not> (8 \<le> length uri \<and> eq_ignore_ascii_case (take 8 uri) ''https://'')
         \<or> len uri > max_browser_bytes \<or> has_control uri)"
    using assms unfolding https_origin_def by (rule contrapos_pn) simp
  then have "(if authority_of uri = [] \<or> CHR ''@'' \<in> set (authority_of uri)
      then Inl (invalid ''Browser origin cannot contain credentials'')
      else ok_or (invalid ''Invalid browser HTTPS origin'')
             (url_parse X (''https://'' @ authority_of uri @ ''/''))) = Inr origin"
    using assms unfolding https_origin_def Let_def by (simp only: if_False)
  then have b: "\<not> (authority_of uri = [] \<or> CHR ''@'' \<in> set (authority_of uri))"
    by (rule contrapos_pn) simp
  have "url_parse X (''https://'' @ authority_of uri @ ''/'') = Some origin"
    using assms a b unfolding https_origin_def Let_def
    by (simp only: if_False ok_or_Inr_iff)
  moreover have "c \<notin> {CHR ''/'', CHR ''?'', CHR ''#''}" if "c \<in> set (authority_of uri)" for c
    using set_takeWhileD [OF that [unfolded authority_of_takeWhile]] by simp
  moreover have "map to_ascii_lowercase (take 8 uri) = ''https://''"
    using a low unfolding eq_ignore_ascii_case_def by argo
  ultimately show ?thesis
    using a b by blast
qed

theorem origin_from_authority_witness:
  "https_origin sample_crates ''HTTPS://vpn.example/cb?token=1'' = Inr ''https://vpn.example/''
   \<and> authority_of ''HTTPS://vpn.example/cb?token=1'' \<noteq> []"
proof -
  have h: "https_origin sample_crates ''HTTPS://vpn.example/cb?token=1''
      = Inr ''https://vpn.example/''"
    by code_simp
  with origin_from_authority [OF h] show ?thesis by blast
qed

text \<open>C@: an accepted completion page comes from the expected origin, holds at most 128 cookies and
128 headers, at most 1 MiB over its URI, names, values and document together, and no value
with a NUL byte.\<close>

theorem page_accepted_bounds:
  assumes "browser_page_validate X p origin = Inr ()"
  shows "https_origin X (pg_uri p) = Inr origin
    \<and> length (cookies p) \<le> 128 \<and> length (headers p) \<le> 128
    \<and> length (pg_uri p) + sum_list (map length (page_values p)) \<le> 1048576
    \<and> (\<forall>v \<in> set (page_values p). nul \<notin> set v)"
proof -
  have l: "length (cookies p) \<le> 128" "length (headers p) \<le> 128"
    using assms by (auto simp: browser_page_validate_def Let_def split: if_splits)
  with assms obtain o' where o': "https_origin X (pg_uri p) = Inr o'"
    and r: "(if o' \<noteq> origin then Inl (invalid ''Browser completion came from an unexpected origin'')
        else rbind (page_bytes (len (pg_uri p)) (page_values p)) (\<lambda>n.
          if n > max_browser_bytes
          then Inl (invalid ''Browser response exceeds limit'') else Inr ())) = Inr ()"
    by (auto simp: browser_page_validate_def Let_def rbind_Inr_iff)
  from r have "o' = origin" by (cases "o' = origin") simp_all
  with r obtain n where n: "page_bytes (len (pg_uri p)) (page_values p) = Inr n"
      "n \<le> max_browser_bytes"
    by (auto simp: rbind_Inr_iff not_less split: if_splits)
  note l o' \<open>o' = origin\<close>
  moreover note page_bytes_Inr [OF n(1)]
  ultimately show ?thesis using n(2) by (simp add: max_browser_bytes_def)
qed

theorem page_accepted_bounds_witness:
  "browser_page_validate sample_crates
     \<lparr>pg_uri = ''https://vpn.example/done'', cookies = [(''sid'', ''1'')], headers = [],
      document = None\<rparr> ''https://vpn.example/'' = Inr ()
   \<and> https_origin sample_crates ''https://vpn.example/done'' = Inr ''https://vpn.example/''"
proof -
  let ?p = "\<lparr>pg_uri = ''https://vpn.example/done'', cookies = [(''sid'', ''1'')], headers = [],
      document = None\<rparr>"
  have "https_origin sample_crates ''https://vpn.example/done'' = Inr ''https://vpn.example/''"
    by code_simp
  then have h: "browser_page_validate sample_crates ?p ''https://vpn.example/'' = Inr ()"
    by (simp add: browser_page_validate_def page_values_def usize_checked_add_def
        max_browser_bytes_def nul_def)
  with page_accepted_bounds [OF h] show ?thesis by simp
qed

end
