(* ===== verification/NetEnv.thy ===== *)
theory NetEnv
  imports NetworkModel
begin

text \<open>
  \<open>crates/net/src/lib.rs\<close> and \<open>interface.rs\<close>: the negotiated configuration read from the
  environment that OpenConnect exports to its script. The recognized variables are collected
  into a map, consumed one by one, and anything left over is an error. The kernel's interface
  table is the argument \<open>ifs\<close> (\<open>if_nametoindex\<close>, 0 for an unknown name).
\<close>

unbundle bit_operations_syntax

section \<open>Limits and the recognized names\<close>

definition max_input_bytes :: int where
  "max_input_bytes = 1024 * 1024"

definition max_env_entries :: int where
  "max_env_entries = 4096"

definition max_value_bytes :: int where
  "max_value_bytes = 65536"

record lifecycle_input =
  li_reason :: network_reason
  li_config :: "network_config option"

definition fixed_names :: "string list" where
  "fixed_names =
     [''reason'', ''TUNDEV'', ''VPNGATEWAY'', ''INTERNAL_IP4_MTU'', ''INTERNAL_IP4_ADDRESS'',
      ''INTERNAL_IP4_NETMASK'', ''INTERNAL_IP4_NETMASKLEN'', ''INTERNAL_IP4_NETADDR'',
      ''INTERNAL_IP6_ADDRESS'', ''INTERNAL_IP6_NETMASK'', ''INTERNAL_IP4_DNS'',
      ''INTERNAL_IP6_DNS'', ''CISCO_DEF_DOMAIN'', ''CISCO_SPLIT_DNS'', ''INTERNAL_IP4_NBNS'',
      ''CISCO_PROXY_PAC'']"

definition route_bases :: "string list" where
  "route_bases = [''CISCO_SPLIT_INC'', ''CISCO_SPLIT_EXC'', ''CISCO_IPV6_SPLIT_INC'',
                  ''CISCO_IPV6_SPLIT_EXC'']"

definition recognized :: "string \<Rightarrow> bool" where
  "recognized key \<longleftrightarrow> key \<in> set fixed_names \<or> list_ex (\<lambda>p. starts_with p key) route_bases"

section \<open>The field map\<close>

type_synonym fields = "(string \<times> string) list"

definition fields_take :: "string \<Rightarrow> fields \<Rightarrow> string option \<times> fields" where
  "fields_take key env =
     (case map_of env key of Some v \<Rightarrow> if v = [] then None else Some v | None \<Rightarrow> None,
      filter (\<lambda>(k, _). k \<noteq> key) env)"

definition fields_required :: "string \<Rightarrow> fields \<Rightarrow> (string \<times> fields) result" where
  "fields_required key env =
     (case fields_take key env of
        (Some v, env') \<Rightarrow> Inr (v, env')
      | (None, _) \<Rightarrow> Inl (invalid ''Missing required network configuration field''))"

fun collect_fields :: "int \<Rightarrow> int \<Rightarrow> fields \<Rightarrow> (string \<times> string) list \<Rightarrow> fields result" where
  "collect_fields n bytes env [] = Inr env"
| "collect_fields n bytes env ((key, value) # rest) =
     rbind (ok_or (invalid ''Network environment exceeds limits'')
              (Option.bind (usize_checked_add bytes (len key))
                 (\<lambda>v. usize_checked_add v (len value)))) (\<lambda>bytes'.
       if n \<ge> max_env_entries \<or> bytes' > max_input_bytes \<or> len key > 256
          \<or> len value > max_value_bytes
       then Inl (invalid ''Network environment exceeds limits'')
       else if recognized key then
         (if nul \<in> set value \<or> map_of env key \<noteq> None
          then Inl (invalid ''Invalid or duplicate network environment field'')
          else collect_fields (n + 1) bytes' ((key, value) # env) rest)
       else collect_fields (n + 1) bytes' env rest)"

section \<open>Values\<close>

definition numeric_error :: err where
  "numeric_error = invalid ''Invalid network address or numeric value''"

definition number :: "(string \<Rightarrow> 'a option) \<Rightarrow> string \<Rightarrow> 'a result" where
  "number parse value = ok_or numeric_error (parse value)"

definition mask_bits :: "u8 \<Rightarrow> u32" where
  "mask_bits p = (if p = 0 then 0 else push_bit (unat (32 - p)) (- 1))"

definition leading_ones :: "u32 \<Rightarrow> nat" where
  "leading_ones x = length (takeWhile (bit x) (rev [0..<32]))"

definition mask_prefix :: "string \<Rightarrow> u8 result" where
  "mask_prefix s =
     rbind (number parse_ipv4 s) (\<lambda>bits.
       let p = of_nat (leading_ones bits) in
       if bits \<noteq> mask_bits p then Inl (invalid ''Noncontiguous IPv4 netmask'') else Inr p)"

definition ipv4_prefix :: "string option \<Rightarrow> string option \<Rightarrow> u8 result" where
  "ipv4_prefix netmask masklen =
     rbind (transpose_result mask_prefix netmask) (\<lambda>from_mask.
     rbind (transpose_result (number (parse_word :: string \<Rightarrow> u8 option)) masklen) (\<lambda>from_len.
     rbind (ok_or (invalid ''Missing IPv4 route prefix'')
              (case from_len of Some l \<Rightarrow> Some l | None \<Rightarrow> from_mask)) (\<lambda>p.
       if p > 32 \<or> (case from_mask of None \<Rightarrow> False | Some m \<Rightarrow> m \<noteq> p)
       then Inl (invalid ''Invalid or inconsistent IPv4 prefix'')
       else Inr p)))"

fun ip_items :: "nat \<Rightarrow> string list \<Rightarrow> ip_addr list result" where
  "ip_items i [] = Inr []"
| "ip_items i (v # vs) =
     (if i \<ge> max_network_items then Inl (invalid ''Too many DNS servers'')
      else rbind (number parse_ip v) (\<lambda>a. rbind (ip_items (Suc i) vs) (\<lambda>as. Inr (a # as))))"

definition ip_list :: "string option \<Rightarrow> ip_addr list result" where
  "ip_list value =
     ip_items 0 (split_ascii_whitespace (case value of Some v \<Rightarrow> v | None \<Rightarrow> []))"

fun domain_items :: "string list \<Rightarrow> string list \<Rightarrow> string list result" where
  "domain_items acc [] = Inr acc"
| "domain_items acc (d # ds) =
     (if d = [] then domain_items acc ds
      else if length acc \<ge> max_network_items then Inl (invalid ''Too many DNS domains'')
      else rbind (validate_domain d) (\<lambda>_. domain_items (acc @ [d]) ds))"

definition env_domains :: "string option \<Rightarrow> bool \<Rightarrow> string list result" where
  "env_domains value comma =
     (case value of None \<Rightarrow> Inr []
      | Some v \<Rightarrow> domain_items []
          (split_by (\<lambda>c. is_ascii_whitespace c \<or> comma \<and> c = CHR '','') v))"

section \<open>Split routes\<close>

definition route_field :: "string \<Rightarrow> nat \<Rightarrow> string \<Rightarrow> string" where
  "route_field base i suffix = base @ ''_'' @ show_nat i @ ''_'' @ suffix"

fun unconstrained :: "string \<Rightarrow> nat \<Rightarrow> string list \<Rightarrow> fields \<Rightarrow> fields result" where
  "unconstrained base i [] env = Inr env"
| "unconstrained base i (suffix # suffixes) env =
     (case fields_take (route_field base i suffix) env of
        (None, env') \<Rightarrow> unconstrained base i suffixes env'
      | (Some value, env') \<Rightarrow>
          rbind (number (parse_word :: string \<Rightarrow> u16 option) value) (\<lambda>v.
            if v \<noteq> 0
            then Inl (invalid ''Port or protocol constrained split routes are unsupported'')
            else unconstrained base i suffixes env'))"

definition one_route :: "string \<Rightarrow> bool \<Rightarrow> nat \<Rightarrow> fields \<Rightarrow> (ip_prefix \<times> fields) result" where
  "one_route base ipv6 i env =
     rbind (fields_required (route_field base i ''ADDR'') env) (\<lambda>(text, env).
     rbind (number parse_ip text) (\<lambda>a.
     if is_ipv6 a \<noteq> ipv6 then Inl (invalid ''Split route has wrong address family'')
     else case fields_take (route_field base i ''MASKLEN'') env of (masklen, env) \<Rightarrow>
     rbind (if ipv6
            then rbind (ok_or (invalid ''Missing IPv6 route prefix'') masklen) (\<lambda>l.
                 rbind (number (parse_word :: string \<Rightarrow> u8 option) l) (\<lambda>p. Inr (p, env)))
            else case fields_take (route_field base i ''MASK'') env of (netmask, env') \<Rightarrow>
                 rbind (ipv4_prefix netmask masklen) (\<lambda>p. Inr (p, env'))) (\<lambda>(p, env).
     rbind (unconstrained base i [''PROTOCOL'', ''SPORT'', ''DPORT''] env) (\<lambda>env.
     let route = \<lparr>address = a, prefix = p\<rparr> in
     rbind (ip_prefix_validate route) (\<lambda>_. Inr (route, env))))))"

fun routes_from :: "string \<Rightarrow> bool \<Rightarrow> nat list \<Rightarrow> fields \<Rightarrow> (ip_prefix list \<times> fields) result" where
  "routes_from base ipv6 [] env = Inr ([], env)"
| "routes_from base ipv6 (i # is) env =
     rbind (one_route base ipv6 i env) (\<lambda>(r, env).
     rbind (routes_from base ipv6 is env) (\<lambda>(rs, env). Inr (r # rs, env)))"

definition env_routes :: "string \<Rightarrow> bool \<Rightarrow> fields \<Rightarrow> (ip_prefix list \<times> fields) result" where
  "env_routes base ipv6 env =
     (case fields_take base env of (value, env) \<Rightarrow>
      rbind (transpose_result (number (parse_uint (2 ^ 64))) value) (\<lambda>n.
        let count = nat (case n of Some k \<Rightarrow> k | None \<Rightarrow> 0) in
        if count > max_network_items then Inl (invalid ''Too many split routes'')
        else routes_from base ipv6 [0..<count] env))"

section \<open>The interface\<close>

definition resolve_interface :: "(string \<Rightarrow> u32) \<Rightarrow> string \<Rightarrow> interface_identity result" where
  "resolve_interface ifs name =
     (if bad_interface_name name then Inl (invalid ''Invalid tunnel interface name'')
      else let index = ifs name in
      if index = 0 then Inl (invalid ''Tunnel interface does not exist'')
      else Inr \<lparr>if_name = name, if_index = index\<rparr>)"

section \<open>The whole environment\<close>

definition parse_reason :: "string \<Rightarrow> network_reason option" where
  "parse_reason s =
     (if s = ''pre-init'' then Some PreInit
      else if s = ''connect'' then Some Connect
      else if s = ''reconnect'' then Some Reconnect
      else if s = ''attempt-reconnect'' then Some AttemptReconnect
      else if s = ''disconnect'' then Some DisconnectReason
      else None)"

text \<open>The IPv4 part: the point-to-point address and the negotiated legacy subnet.\<close>

definition env_ipv4 ::
  "fields \<Rightarrow> (ip_prefix list \<times> ip_prefix option \<times> fields) result" where
  "env_ipv4 env =
     (case fields_take ''INTERNAL_IP4_ADDRESS'' env of (v4, env) \<Rightarrow>
      case fields_take ''INTERNAL_IP4_NETMASK'' env of (netmask, env) \<Rightarrow>
      case fields_take ''INTERNAL_IP4_NETMASKLEN'' env of (masklen, env) \<Rightarrow>
      case fields_take ''INTERNAL_IP4_NETADDR'' env of (net, env) \<Rightarrow>
      let some_net = netmask \<noteq> None \<or> masklen \<noteq> None \<or> net \<noteq> None in
      case v4 of
        Some text \<Rightarrow>
          rbind (number parse_ipv4 text) (\<lambda>a.
          let addresses = [\<lparr>address = V4 a, prefix = 32\<rparr>] in
          if some_net then
            rbind (ipv4_prefix netmask masklen) (\<lambda>p.
            let network = a AND mask_bits p in
            rbind (case net of None \<Rightarrow> Inr ()
                   | Some t \<Rightarrow> rbind (number parse_ipv4 t) (\<lambda>n.
                       if n \<noteq> network
                       then Inl (invalid ''Inconsistent negotiated IPv4 network'')
                       else Inr ())) (\<lambda>_.
            Inr (addresses, Some \<lparr>address = V4 network, prefix = p\<rparr>, env)))
          else Inr (addresses, None, env))
      | None \<Rightarrow>
          if some_net then Inl (invalid ''IPv4 subnet is missing its interface address'')
          else Inr ([], None, env))"

definition env_ipv6 :: "fields \<Rightarrow> (ip_prefix list \<times> fields) result" where
  "env_ipv6 env =
     (case fields_take ''INTERNAL_IP6_ADDRESS'' env of (v6, env) \<Rightarrow>
      case fields_take ''INTERNAL_IP6_NETMASK'' env of (v6_net, env) \<Rightarrow>
      case v6_net of
        Some net \<Rightarrow>
          rbind (ok_or (invalid ''IPv6 netmask must contain address and prefix'')
                   (split_once (CHR ''/'') net)) (\<lambda>(ip, masklen).
          rbind (number parse_ipv6 ip) (\<lambda>a.
          rbind (case v6 of None \<Rightarrow> Inr ()
                 | Some t \<Rightarrow> rbind (number parse_ipv6 t) (\<lambda>b.
                     if b \<noteq> a then Inl (invalid ''Inconsistent negotiated IPv6 address'')
                     else Inr ())) (\<lambda>_.
          rbind (number parse_word masklen) (\<lambda>p.
          Inr ([\<lparr>address = V6 a, prefix = p\<rparr>], env)))))
      | None \<Rightarrow>
          (case v6 of
             None \<Rightarrow> Inr ([], env)
           | Some ip \<Rightarrow> rbind (number parse_ipv6 ip) (\<lambda>a.
               Inr ([\<lparr>address = V6 a, prefix = 128\<rparr>], env))))"

definition parse_config :: "(string \<Rightarrow> u32) \<Rightarrow> fields \<Rightarrow> network_config result" where
  "parse_config ifs env =
     rbind (fields_required ''TUNDEV'' env) (\<lambda>(name, env).
     rbind (fields_required ''INTERNAL_IP4_MTU'' env) (\<lambda>(mtu_text, env).
     rbind (number parse_word mtu_text) (\<lambda>m.
     rbind (fields_required ''VPNGATEWAY'' env) (\<lambda>(peer_text, env).
     rbind (number parse_ip peer_text) (\<lambda>peer.
     rbind (env_ipv4 env) (\<lambda>(addresses4, subnet, env).
     rbind (env_ipv6 env) (\<lambda>(addresses6, env).
     let addresses = addresses4 @ addresses6 in
     case fields_take ''INTERNAL_IP4_DNS'' env of (dns4, env) \<Rightarrow>
     rbind (ip_list dns4) (\<lambda>servers4.
     case fields_take ''INTERNAL_IP6_DNS'' env of (dns6, env) \<Rightarrow>
     rbind (ip_list dns6) (\<lambda>servers6.
     case fields_take ''CISCO_DEF_DOMAIN'' env of (def_domain, env) \<Rightarrow>
     rbind (env_domains def_domain False) (\<lambda>search.
     case fields_take ''CISCO_SPLIT_DNS'' env of (split, env) \<Rightarrow>
     rbind (env_domains split True) (\<lambda>split_domains.
     let full4 = list_ex (\<lambda>a. is_ipv4 (address a)) addresses
                 \<and> map_of env ''CISCO_SPLIT_INC'' = None;
         full6 = list_ex (\<lambda>a. is_ipv6 (address a)) addresses
                 \<and> map_of env ''CISCO_IPV6_SPLIT_INC'' = None in
     rbind (env_routes ''CISCO_SPLIT_INC'' False env) (\<lambda>(inc4, env).
     rbind (env_routes ''CISCO_IPV6_SPLIT_INC'' True env) (\<lambda>(inc6, env).
     rbind (env_routes ''CISCO_SPLIT_EXC'' False env) (\<lambda>(exc4, env).
     rbind (env_routes ''CISCO_IPV6_SPLIT_EXC'' True env) (\<lambda>(exc6, env).
     case fields_take ''INTERNAL_IP4_NBNS'' env of (nbns, env1) \<Rightarrow>
     case fields_take ''CISCO_PROXY_PAC'' env1 of (pac, env2) \<Rightarrow>
     if nbns \<noteq> None \<or> pac \<noteq> None
     then Inl (invalid ''Negotiated WINS or proxy PAC configuration is not supported'')
     else if env2 \<noteq> []
     then Inl (invalid ''Unexpected or unconsumed network configuration field'')
     else
       rbind (resolve_interface ifs name) (\<lambda>identity.
       let config =
         \<lparr>interface = identity, mtu = m, addresses = addresses, ipv4_subnet = subnet,
          dns_servers = servers4 @ servers6, search_domains = search, split_dns = split_domains,
          full_tunnel_ipv4 = full4, full_tunnel_ipv6 = full6,
          split_includes = inc4 @ inc6, split_excludes = exc4 @ exc6, transport_peer = peer\<rparr> in
       rbind (network_config_validate config) (\<lambda>_. Inr config)))))))))))))))))"

definition parse_environment ::
  "(string \<Rightarrow> u32) \<Rightarrow> (string \<times> string) list \<Rightarrow> lifecycle_input result" where
  "parse_environment ifs input =
     rbind (collect_fields 0 0 [] input) (\<lambda>env.
     rbind (fields_required ''reason'' env) (\<lambda>(text, env).
     rbind (ok_or (invalid ''Unsupported network lifecycle reason'') (parse_reason text)) (\<lambda>reason.
     if reason \<in> {PreInit, AttemptReconnect, DisconnectReason}
     then Inr \<lparr>li_reason = reason, li_config = None\<rparr>
     else rbind (parse_config ifs env) (\<lambda>config.
       Inr \<lparr>li_reason = reason, li_config = Some config\<rparr>))))"

end
