(* ===== verification/NetEnvProps.thy ===== *)
theory NetEnvProps
  imports NetEnv
begin

text \<open>
  Proofs about \<open>crates/net/src/lib.rs\<close>: what an accepted environment accounts for, when a
  family is tunnelled in full, which masks are accepted.
\<close>


section \<open>Fields\<close>

definition keys :: "fields \<Rightarrow> string set" where
  "keys env = fst ` set env"

definition taken :: "string \<Rightarrow> fields \<Rightarrow> string option" where
  "taken k env = fst (fields_take k env)"

definition dropped :: "string \<Rightarrow> fields \<Rightarrow> fields" where
  "dropped k env = snd (fields_take k env)"

lemma fields_take_eq [simp]: "fields_take k env = (taken k env, dropped k env)"
  by (simp add: taken_def dropped_def)

lemma keys_dropped [simp]: "keys (dropped k env) = keys env - {k}"
  by (force simp: dropped_def fields_take_def keys_def simp del: fields_take_eq)

lemma map_of_dropped [simp]: "k' \<noteq> k \<Longrightarrow> map_of (dropped k env) k' = map_of env k'"
  by (induction env) (auto simp: dropped_def fields_take_def simp del: fields_take_eq)

lemma keys_fold_dropped: "keys (fold dropped ks env) = keys env - set ks"
  by (induction ks arbitrary: env) auto

lemma map_of_fold_dropped: "k \<notin> set ks \<Longrightarrow> map_of (fold dropped ks env) k = map_of env k"
  by (induction ks arbitrary: env) auto

lemma fields_required_Inr [result_simps]:
  "fields_required k env = Inr p \<longleftrightarrow> taken k env = Some (fst p) \<and> snd p = dropped k env"
  by (cases p) (auto simp: fields_required_def split: option.splits)

lemma map_of_None_keys: "map_of env k = None \<longleftrightarrow> k \<notin> keys env"
  by (simp add: map_of_eq_None_iff keys_def)

lemma keys_Nil [simp]: "keys [] = {}"
  by (simp add: keys_def)

lemma collect_fields_Inr:
  "collect_fields n b env input = Inr env' \<Longrightarrow>
     env' = rev (filter (\<lambda>(k, _). recognized k) input) @ env
   \<and> distinct (map fst (filter (\<lambda>(k, _). recognized k) input))
   \<and> keys (filter (\<lambda>(k, _). recognized k) input) \<inter> keys env = {}"
proof (induction n b env input rule: collect_fields.induct)
  case (2 n b env key v rest)
  then show ?case
    by (auto simp: result_simps map_of_None_keys keys_def ok_or_def split: if_splits option.splits)
qed simp

section \<open>Split routes\<close>

definition route_suffixes :: "string list" where
  "route_suffixes = [''ADDR'', ''MASKLEN'', ''MASK'', ''PROTOCOL'', ''SPORT'', ''DPORT'']"

definition route_keys :: "string \<Rightarrow> nat list \<Rightarrow> string set" where
  "route_keys base is = (\<Union>i \<in> set is. route_field base i ` set route_suffixes)"

lemma unconstrained_keys:
  "unconstrained base i ss env = Inr env' \<Longrightarrow> keys env \<subseteq> keys env' \<union> route_field base i ` set ss"
proof (induction ss arbitrary: env)
  case (Cons s ss)
  have "unconstrained base i ss (dropped (route_field base i s) env) = Inr env'"
    using Cons.prems by (auto simp: rbind_Inr_iff split: option.splits if_splits)
  from Cons.IH [OF this] show ?case by auto
qed simp

lemma one_route_facts:
  assumes "one_route base v6 i env = Inr (r, env')"
  shows "keys env \<subseteq> keys env' \<union> route_keys base [i]"
    and "is_ipv6 (address r) = v6" and "prefix_ok r"
proof -
  let ?e1 = "dropped (route_field base i ''ADDR'') env"
  let ?e2 = "dropped (route_field base i ''MASKLEN'') ?e1"
  obtain a p e3 where a: "is_ipv6 a = v6"
    and e3: "e3 = ?e2 \<or> e3 = dropped (route_field base i ''MASK'') ?e2"
    and u: "unconstrained base i [''PROTOCOL'', ''SPORT'', ''DPORT''] e3 = Inr env'"
    and ok: "ip_prefix_validate \<lparr>address = a, prefix = p\<rparr> = Inr ()"
    and req: "r = \<lparr>address = a, prefix = p\<rparr>"
    using assms unfolding one_route_def
    by (cases v6) (auto simp del: unconstrained.simps
        simp: rbind_Inr_iff Let_def fields_required_Inr split: if_splits)
  show "keys env \<subseteq> keys env' \<union> route_keys base [i]"
    using e3 unconstrained_keys [OF u] by (auto simp: route_keys_def route_suffixes_def)
  show "is_ipv6 (address r) = v6" and "prefix_ok r"
    using a ok req by (simp_all add: ip_prefix_validate_iff)
qed

lemma route_keys_Cons: "route_keys base (i # is) = route_keys base [i] \<union> route_keys base is"
  by (simp add: route_keys_def)

lemma routes_from_facts:
  "routes_from base v6 is env = Inr (rs, env') \<Longrightarrow>
     keys env \<subseteq> keys env' \<union> route_keys base is \<and> length rs = length is
   \<and> (\<forall>r \<in> set rs. is_ipv6 (address r) = v6 \<and> prefix_ok r)"
proof (induction "is" arbitrary: env rs)
  case (Cons i "is")
  then obtain r e rs' where o: "one_route base v6 i env = Inr (r, e)"
    and f: "routes_from base v6 is e = Inr (rs', env')" and rs: "rs = r # rs'"
    by (auto simp: rbind_Inr_iff)
  from one_route_facts [OF o] Cons.IH [OF f] rs show ?case
    unfolding route_keys_Cons [of base i "is"] by auto
qed simp

lemma env_routes_facts:
  assumes "env_routes base v6 env = Inr (rs, env')"
  shows "keys env \<subseteq> keys env' \<union> {base} \<union> route_keys base [0..<length rs]"
    and "r \<in> set rs \<Longrightarrow> is_ipv6 (address r) = v6 \<and> prefix_ok r"
proof -
  obtain n where f: "routes_from base v6 [0..<n] (dropped base env) = Inr (rs, env')"
    using assms unfolding env_routes_def
    by (auto simp: rbind_Inr_iff Let_def split: if_splits)
  from routes_from_facts [OF f]
  show "keys env \<subseteq> keys env' \<union> {base} \<union> route_keys base [0..<length rs]"
    and "r \<in> set rs \<Longrightarrow> is_ipv6 (address r) = v6 \<and> prefix_ok r"
    by auto
qed

definition ipv4_names :: "string list" where
  "ipv4_names = [''INTERNAL_IP4_ADDRESS'', ''INTERNAL_IP4_NETMASK'', ''INTERNAL_IP4_NETMASKLEN'',
                 ''INTERNAL_IP4_NETADDR'']"

definition ipv6_names :: "string list" where
  "ipv6_names = [''INTERNAL_IP6_ADDRESS'', ''INTERNAL_IP6_NETMASK'']"

lemma env_ipv4_facts:
  "env_ipv4 env = Inr (as, sub, env') \<Longrightarrow> env' = fold dropped ipv4_names env
   \<and> (\<forall>a \<in> set as. is_ipv4 (address a))"
  unfolding env_ipv4_def ipv4_names_def
  by (cases "taken ''INTERNAL_IP4_ADDRESS'' env")
     (auto simp: rbind_Inr_iff Let_def split: if_splits)

lemma env_ipv6_facts:
  "env_ipv6 env = Inr (as, env') \<Longrightarrow> env' = fold dropped ipv6_names env
   \<and> (\<forall>a \<in> set as. is_ipv6 (address a))"
  unfolding env_ipv6_def ipv6_names_def
  by (auto simp: rbind_Inr_iff Let_def split: option.splits)

section \<open>The configuration\<close>

text \<open>The keys that a configuration accounts for.\<close>

definition accounted :: "network_config \<Rightarrow> string set" where
  "accounted c = set fixed_names \<union> set route_bases
     \<union> route_keys ''CISCO_SPLIT_INC'' [0..<length (filter (\<lambda>r. is_ipv4 (address r)) (split_includes c))]
     \<union> route_keys ''CISCO_IPV6_SPLIT_INC'' [0..<length (filter (\<lambda>r. is_ipv6 (address r)) (split_includes c))]
     \<union> route_keys ''CISCO_SPLIT_EXC'' [0..<length (filter (\<lambda>r. is_ipv4 (address r)) (split_excludes c))]
     \<union> route_keys ''CISCO_IPV6_SPLIT_EXC'' [0..<length (filter (\<lambda>r. is_ipv6 (address r)) (split_excludes c))]"

lemma filter_family:
  assumes "\<forall>r \<in> set xs. \<not> is_ipv6 (address r)" and "\<forall>r \<in> set ys. is_ipv6 (address r)"
  shows "filter (\<lambda>r. is_ipv4 (address r)) (xs @ ys) = xs"
    and "filter (\<lambda>r. is_ipv6 (address r)) (xs @ ys) = ys"
  using assms by (auto simp: is_ipv6_iff filter_id_conv filter_empty_conv)

lemma parse_config_elim:
  assumes "parse_config ifs env = Inr c"
  obtains e3 name i4 e5 i6 e6 x4 e7 x6 e8 where
    "e3 = fold dropped ([''TUNDEV'', ''INTERNAL_IP4_MTU'', ''VPNGATEWAY''] @ ipv4_names @ ipv6_names) env"
    and "env_routes ''CISCO_SPLIT_INC'' False (fold dropped [''INTERNAL_IP4_DNS'',
           ''INTERNAL_IP6_DNS'', ''CISCO_DEF_DOMAIN'', ''CISCO_SPLIT_DNS''] e3) = Inr (i4, e5)"
    and "env_routes ''CISCO_IPV6_SPLIT_INC'' True e5 = Inr (i6, e6)"
    and "env_routes ''CISCO_SPLIT_EXC'' False e6 = Inr (x4, e7)"
    and "env_routes ''CISCO_IPV6_SPLIT_EXC'' True e7 = Inr (x6, e8)"
    and "fold dropped [''INTERNAL_IP4_NBNS'', ''CISCO_PROXY_PAC''] e8 = []"
    and "resolve_interface ifs name = Inr (interface c)"
    and "network_config_validate c = Inr ()"
    and "split_includes c = i4 @ i6" and "split_excludes c = x4 @ x6"
    and "full_tunnel_ipv4 c \<longleftrightarrow> list_ex (\<lambda>a. is_ipv4 (address a)) (addresses c)
           \<and> map_of e3 ''CISCO_SPLIT_INC'' = None"
    and "full_tunnel_ipv6 c \<longleftrightarrow> list_ex (\<lambda>a. is_ipv6 (address a)) (addresses c)
           \<and> map_of e3 ''CISCO_IPV6_SPLIT_INC'' = None"
proof -
  let ?e1 = "dropped ''VPNGATEWAY'' (dropped ''INTERNAL_IP4_MTU'' (dropped ''TUNDEV'' env))"
  obtain a4 sub e2 a6 e3 name i4 e5 i6 e6 x4 e7 x6 e8 where
    v4: "env_ipv4 ?e1 = Inr (a4, sub, e2)" and v6: "env_ipv6 e2 = Inr (a6, e3)"
    and rest: "env_routes ''CISCO_SPLIT_INC'' False
         (dropped ''CISCO_SPLIT_DNS'' (dropped ''CISCO_DEF_DOMAIN''
           (dropped ''INTERNAL_IP6_DNS'' (dropped ''INTERNAL_IP4_DNS'' e3)))) = Inr (i4, e5)"
      "env_routes ''CISCO_IPV6_SPLIT_INC'' True e5 = Inr (i6, e6)"
      "env_routes ''CISCO_SPLIT_EXC'' False e6 = Inr (x4, e7)"
      "env_routes ''CISCO_IPV6_SPLIT_EXC'' True e7 = Inr (x6, e8)"
      "dropped ''CISCO_PROXY_PAC'' (dropped ''INTERNAL_IP4_NBNS'' e8) = []"
      "resolve_interface ifs name = Inr (interface c)"
      "network_config_validate c = Inr ()"
      "split_includes c = i4 @ i6" "split_excludes c = x4 @ x6"
      "full_tunnel_ipv4 c \<longleftrightarrow> list_ex (\<lambda>a. is_ipv4 (address a)) (addresses c)
              \<and> map_of e3 ''CISCO_SPLIT_INC'' = None"
      "full_tunnel_ipv6 c \<longleftrightarrow> list_ex (\<lambda>a. is_ipv6 (address a)) (addresses c)
              \<and> map_of e3 ''CISCO_IPV6_SPLIT_INC'' = None"
    using assms unfolding parse_config_def
    by (auto simp: rbind_Inr_iff Let_def fields_required_Inr split: if_splits)
  have "e3 = fold dropped ([''TUNDEV'', ''INTERNAL_IP4_MTU'', ''VPNGATEWAY''] @ ipv4_names @ ipv6_names) env"
    using env_ipv4_facts [OF v4] env_ipv6_facts [OF v6] by simp
  with rest show thesis by (intro that) simp_all
qed

lemma resolve_interface_name: "resolve_interface ifs n = Inr i \<Longrightarrow> if_name i = n"
  by (auto simp: resolve_interface_def Let_def split: if_splits)

lemma keys_chain:
  assumes "K \<subseteq> A0 \<union> N" and "A0 \<subseteq> A1 \<union> B1 \<union> S1" and "A1 \<subseteq> A2 \<union> B2 \<union> S2"
    and "A2 \<subseteq> A3 \<union> B3 \<union> S3" and "A3 \<subseteq> A4 \<union> B4 \<union> S4" and "A4 \<subseteq> L"
    and "N \<union> L \<subseteq> F" and "B1 \<union> B2 \<union> B3 \<union> B4 = B"
  shows "K \<subseteq> F \<union> B \<union> S1 \<union> S2 \<union> S3 \<union> S4"
  using assms by blast

definition config_names :: "string list" where
  "config_names = [''TUNDEV'', ''INTERNAL_IP4_MTU'', ''VPNGATEWAY''] @ ipv4_names @ ipv6_names
     @ [''INTERNAL_IP4_DNS'', ''INTERNAL_IP6_DNS'', ''CISCO_DEF_DOMAIN'', ''CISCO_SPLIT_DNS'']"

lemma config_names_fixed: "set config_names \<union> {''INTERNAL_IP4_NBNS'', ''CISCO_PROXY_PAC''} \<subseteq> set fixed_names"
  by code_simp

lemma split_names_free:
  "''CISCO_SPLIT_INC'' \<notin> set ([''TUNDEV'', ''INTERNAL_IP4_MTU'', ''VPNGATEWAY''] @ ipv4_names @ ipv6_names)"
  "''CISCO_IPV6_SPLIT_INC'' \<notin> set ([''TUNDEV'', ''INTERNAL_IP4_MTU'', ''VPNGATEWAY''] @ ipv4_names @ ipv6_names)"
  by code_simp+

lemma parse_config_facts:
  assumes "parse_config ifs env = Inr c"
  shows "network_config_validate c = Inr ()"
    and "keys env \<subseteq> accounted c"
    and "resolve_interface ifs (if_name (interface c)) = Inr (interface c)"
    and "full_tunnel_ipv4 c \<longleftrightarrow> (\<exists>a \<in> set (addresses c). is_ipv4 (address a))
          \<and> ''CISCO_SPLIT_INC'' \<notin> keys env"
    and "full_tunnel_ipv6 c \<longleftrightarrow> (\<exists>a \<in> set (addresses c). is_ipv6 (address a))
          \<and> ''CISCO_IPV6_SPLIT_INC'' \<notin> keys env"
proof -
  obtain e3 name i4 e5 i6 e6 x4 e7 x6 e8 where
        e3: "e3 = fold dropped ([''TUNDEV'', ''INTERNAL_IP4_MTU'', ''VPNGATEWAY''] @ ipv4_names @ ipv6_names) env"
    and r1: "env_routes ''CISCO_SPLIT_INC'' False (fold dropped [''INTERNAL_IP4_DNS'',
           ''INTERNAL_IP6_DNS'', ''CISCO_DEF_DOMAIN'', ''CISCO_SPLIT_DNS''] e3) = Inr (i4, e5)"
    and r2: "env_routes ''CISCO_IPV6_SPLIT_INC'' True e5 = Inr (i6, e6)"
    and r3: "env_routes ''CISCO_SPLIT_EXC'' False e6 = Inr (x4, e7)"
    and r4: "env_routes ''CISCO_IPV6_SPLIT_EXC'' True e7 = Inr (x6, e8)"
    and rest: "fold dropped [''INTERNAL_IP4_NBNS'', ''CISCO_PROXY_PAC''] e8 = []"
    and res: "resolve_interface ifs name = Inr (interface c)"
    and ok: "network_config_validate c = Inr ()"
    and inc: "split_includes c = i4 @ i6" and exc: "split_excludes c = x4 @ x6"
    and f4: "full_tunnel_ipv4 c \<longleftrightarrow> list_ex (\<lambda>a. is_ipv4 (address a)) (addresses c)
           \<and> map_of e3 ''CISCO_SPLIT_INC'' = None"
    and f6: "full_tunnel_ipv6 c \<longleftrightarrow> list_ex (\<lambda>a. is_ipv6 (address a)) (addresses c)
           \<and> map_of e3 ''CISCO_IPV6_SPLIT_INC'' = None"
    using assms by (rule parse_config_elim)
  show "network_config_validate c = Inr ()" by (rule ok)
  show "resolve_interface ifs (if_name (interface c)) = Inr (interface c)"
    using res by (simp add: resolve_interface_name [OF res])
  show "full_tunnel_ipv4 c \<longleftrightarrow> (\<exists>a \<in> set (addresses c). is_ipv4 (address a))
          \<and> ''CISCO_SPLIT_INC'' \<notin> keys env"
    using f4 unfolding e3 map_of_fold_dropped [OF split_names_free(1)] map_of_None_keys
    by (simp add: list_ex_iff)
  show "full_tunnel_ipv6 c \<longleftrightarrow> (\<exists>a \<in> set (addresses c). is_ipv6 (address a))
          \<and> ''CISCO_IPV6_SPLIT_INC'' \<notin> keys env"
    using f6 unfolding e3 map_of_fold_dropped [OF split_names_free(2)] map_of_None_keys
    by (simp add: list_ex_iff)
  have four: "\<forall>r \<in> set i4. \<not> is_ipv6 (address r)" "\<forall>r \<in> set x4. \<not> is_ipv6 (address r)"
    and six: "\<forall>r \<in> set i6. is_ipv6 (address r)" "\<forall>r \<in> set x6. is_ipv6 (address r)"
    using env_routes_facts(2) [OF r1] env_routes_facts(2) [OF r2]
      env_routes_facts(2) [OF r3] env_routes_facts(2) [OF r4] by simp_all
  have start: "fold dropped [''INTERNAL_IP4_DNS'', ''INTERNAL_IP6_DNS'', ''CISCO_DEF_DOMAIN'',
      ''CISCO_SPLIT_DNS''] e3 = fold dropped config_names env"
    by (simp add: e3 config_names_def)
  have head: "keys env \<subseteq> keys (fold dropped config_names env) \<union> set config_names"
    unfolding keys_fold_dropped by blast
  have last: "keys e8 \<subseteq> {''INTERNAL_IP4_NBNS'', ''CISCO_PROXY_PAC''}"
  proof -
    have "keys (fold dropped [''INTERNAL_IP4_NBNS'', ''CISCO_PROXY_PAC''] e8) = {}"
      unfolding rest by simp
    then show ?thesis unfolding keys_fold_dropped by simp
  qed
  have bases: "{''CISCO_SPLIT_INC''} \<union> {''CISCO_IPV6_SPLIT_INC''} \<union> {''CISCO_SPLIT_EXC''}
      \<union> {''CISCO_IPV6_SPLIT_EXC''} = set route_bases"
    unfolding route_bases_def list.set by blast
  show "keys env \<subseteq> accounted c"
    unfolding accounted_def inc exc filter_family [OF four(1) six(1)] filter_family [OF four(2) six(2)]
    by (rule keys_chain [OF head env_routes_facts(1) [OF r1 [unfolded start]]
          env_routes_facts(1) [OF r2] env_routes_facts(1) [OF r3] env_routes_facts(1) [OF r4]
          last config_names_fixed bases])
qed


section \<open>Masks\<close>

lemma leading_ones_table:
  "list_all (\<lambda>n. leading_ones (mask_bits (of_nat n)) = n) [0..<33]"
  by code_simp

lemma leading_ones_mask: "p \<le> 32 \<Longrightarrow> leading_ones (mask_bits p) = unat p"
proof -
  assume "p \<le> 32"
  then have "unat p \<in> set [0..<33]" by (simp add: word_le_nat_alt)
  with leading_ones_table have "leading_ones (mask_bits (of_nat (unat p))) = unat p"
    unfolding list_all_iff by blast
  then show ?thesis by simp
qed

lemma leading_ones_le: "leading_ones x \<le> 32"
  unfolding leading_ones_def using length_takeWhile_le [of "bit x" "rev [0..<32]"] by simp

lemma leading_ones_u8: "unat (of_nat (leading_ones x) :: u8) = leading_ones x"
  using leading_ones_le [of x] by (simp add: unat_of_nat)

lemma mask_prefix_iff:
  "mask_prefix s = Inr p \<longleftrightarrow> parse_ipv4 s = Some (mask_bits p) \<and> p \<le> 32"
proof -
  have "mask_bits (of_nat (leading_ones b)) = b \<and> p = of_nat (leading_ones b)
        \<longleftrightarrow> b = mask_bits p \<and> p \<le> 32" for b
  proof (intro iffI)
    assume a: "mask_bits (of_nat (leading_ones b)) = b \<and> p = of_nat (leading_ones b)"
    then show "b = mask_bits p \<and> p \<le> 32"
      using leading_ones_le [of b] by (simp add: word_le_nat_alt leading_ones_u8)
  next
    assume a: "b = mask_bits p \<and> p \<le> 32"
    then have "of_nat (leading_ones b) = p" by (simp add: leading_ones_mask)
    with a show "mask_bits (of_nat (leading_ones b)) = b \<and> p = of_nat (leading_ones b)" by simp
  qed
  moreover have "mask_prefix s = Inr p \<longleftrightarrow> (\<exists>b. parse_ipv4 s = Some b
      \<and> (mask_bits (of_nat (leading_ones b)) = b \<and> p = of_nat (leading_ones b)))"
    unfolding mask_prefix_def number_def
    by (cases "parse_ipv4 s") (auto simp: ok_or_def Let_def)
  ultimately show ?thesis by simp
qed

text \<open>C@: an IPv4 prefix is accepted exactly when it is at most 32, a mask or a length is
  present, a mask that is present is the contiguous mask of that prefix, and a length that is
  present is that prefix: a noncontiguous or a disagreeing pair is refused.\<close>

theorem ipv4_prefix_iff:
  "ipv4_prefix netmask masklen = Inr p \<longleftrightarrow>
     p \<le> 32 \<and> (netmask, masklen) \<noteq> (None, None)
   \<and> pred_option (\<lambda>m. parse_ipv4 m = Some (mask_bits p)) netmask
   \<and> pred_option (\<lambda>l. parse_word l = Some p) masklen"
proof (cases netmask)
  case None
  then show ?thesis
    by (cases masklen) (auto simp: ipv4_prefix_def rbind_Inr_iff transpose_result_def number_def
        ok_or_def not_less[symmetric] split: option.splits if_splits)
next
  case (Some m)
  have m: "(\<exists>q. mask_prefix m = Inr q \<and> q = p \<and> \<not> 32 < p) \<longleftrightarrow>
      p \<le> 32 \<and> parse_ipv4 m = Some (mask_bits p)"
    by (auto simp: mask_prefix_iff)
  then show ?thesis
    using Some by (cases masklen)
     (auto simp: ipv4_prefix_def rbind_Inr_iff transpose_result_def number_def
        ok_or_def mask_prefix_iff split: option.splits if_splits)
qed


section \<open>The environment\<close>

lemma collected_keys:
  assumes "collect_fields 0 0 [] input = Inr env"
  shows "keys env = {k \<in> fst ` set input. recognized k}"
    and "distinct (map fst (filter (\<lambda>(k, _). recognized k) input))"
  using collect_fields_Inr [OF assms] by (force simp: keys_def)+

lemma parse_environment_elim:
  assumes "parse_environment ifs input = Inr p" and "li_config p = Some c"
  obtains env where "collect_fields 0 0 [] input = Inr env"
    and "parse_config ifs (dropped ''reason'' env) = Inr c"
    and "li_reason p \<in> {Connect, Reconnect}"
  using assms unfolding parse_environment_def
  by (auto simp: rbind_Inr_iff fields_required_Inr split: if_splits)
     (metis network_reason.exhaust)

lemma fixed_reason: "''reason'' \<in> set fixed_names"
  by code_simp

lemma fixed_accounted: "set fixed_names \<subseteq> accounted c"
  unfolding accounted_def by blast

text \<open>C32: when an environment is accepted with a configuration, no recognized variable was
  ignored or given twice: every recognized name of the input is a fixed name or one of the
  fields of a route that the configuration holds, the configuration passes its own validation,
  and its interface is the one the kernel reports under that name.\<close>

theorem environment_consumed:
  assumes "parse_environment ifs input = Inr p" and "li_config p = Some c"
  shows "{k \<in> fst ` set input. recognized k} \<subseteq> accounted c
       \<and> distinct (map fst (filter (\<lambda>(k, _). recognized k) input))
       \<and> network_config_validate c = Inr ()
       \<and> resolve_interface ifs (if_name (interface c)) = Inr (interface c)"
proof -
  obtain env where env: "collect_fields 0 0 [] input = Inr env"
    and c: "parse_config ifs (dropped ''reason'' env) = Inr c"
    using assms by (rule parse_environment_elim)
  have "keys env \<subseteq> insert ''reason'' (keys (dropped ''reason'' env))" by auto
  also have "\<dots> \<subseteq> accounted c"
    using parse_config_facts(2) [OF c] fixed_reason fixed_accounted [of c] by blast
  finally show ?thesis
    using collected_keys [OF env] parse_config_facts(1,3) [OF c] by blast
qed

lemma recognized_split: "recognized ''CISCO_SPLIT_INC''" "recognized ''CISCO_IPV6_SPLIT_INC''"
  "''CISCO_SPLIT_INC'' \<noteq> ''reason''" "''CISCO_IPV6_SPLIT_INC'' \<noteq> ''reason''"
  by code_simp+

text \<open>C@: a family is tunnelled in full exactly when the negotiated addresses have that family
  and the server sent no split-include variable for it.\<close>

theorem full_tunnel_iff:
  assumes "parse_environment ifs input = Inr p" and "li_config p = Some c"
  shows "(full_tunnel_ipv4 c \<longleftrightarrow> (\<exists>a \<in> set (addresses c). is_ipv4 (address a))
            \<and> ''CISCO_SPLIT_INC'' \<notin> fst ` set input)
       \<and> (full_tunnel_ipv6 c \<longleftrightarrow> (\<exists>a \<in> set (addresses c). is_ipv6 (address a))
            \<and> ''CISCO_IPV6_SPLIT_INC'' \<notin> fst ` set input)"
proof -
  obtain env where env: "collect_fields 0 0 [] input = Inr env"
    and c: "parse_config ifs (dropped ''reason'' env) = Inr c"
    using assms by (rule parse_environment_elim)
  have "''CISCO_SPLIT_INC'' \<in> keys (dropped ''reason'' env) \<longleftrightarrow> ''CISCO_SPLIT_INC'' \<in> fst ` set input"
    and "''CISCO_IPV6_SPLIT_INC'' \<in> keys (dropped ''reason'' env)
          \<longleftrightarrow> ''CISCO_IPV6_SPLIT_INC'' \<in> fst ` set input"
    unfolding keys_dropped collected_keys(1) [OF env] using recognized_split by blast+
  then show ?thesis using parse_config_facts(4,5) [OF c] by blast
qed

lemma collect_fields_filter:
  "collect_fields n b env input = Inr r \<Longrightarrow> n' \<le> n \<Longrightarrow> b' \<le> b \<Longrightarrow>
     collect_fields n' b' env (filter (\<lambda>(k, _). recognized k) input) = Inr r"
proof (induction n b env input arbitrary: n' b' rule: collect_fields.induct)
  case (2 n b env key v rest)
  then show ?case
    by (auto simp: result_simps ok_or_def usize_checked_add_def split: if_splits option.splits)
qed simp

text \<open>C@: variables that the parser does not recognize have no influence: an accepted
  environment is accepted with the same result after they are all removed.\<close>

theorem unrecognized_ignored:
  assumes "parse_environment ifs input = Inr p"
  shows "parse_environment ifs (filter (\<lambda>(k, _). recognized k) input) = Inr p"
proof -
  obtain env where env: "collect_fields 0 0 [] input = Inr env"
    using assms unfolding parse_environment_def rbind_Inr_iff by blast
  have "collect_fields 0 0 [] (filter (\<lambda>(k, _). recognized k) input) = Inr env"
    by (rule collect_fields_filter [OF env]) simp_all
  with env assms show ?thesis
    unfolding parse_environment_def by (simp only: rbind_simps)
qed

definition sample_environment :: "(string \<times> string) list" where
  "sample_environment =
     [(''PATH'', ''/usr/bin''), (''reason'', ''connect''), (''TUNDEV'', ''tun0''),
      (''VPNGATEWAY'', ''203.0.113.5''), (''INTERNAL_IP4_MTU'', ''1400''),
      (''INTERNAL_IP4_ADDRESS'', ''10.0.0.2''), (''INTERNAL_IP4_DNS'', ''10.0.0.1''),
      (''CISCO_SPLIT_INC'', ''1''), (''CISCO_SPLIT_INC_0_ADDR'', ''10.0.0.0''),
      (''CISCO_SPLIT_INC_0_MASK'', ''255.0.0.0'')]"

definition sample_ifs :: "string \<Rightarrow> u32" where
  "sample_ifs name = (if name = ''tun0'' then 7 else 0)"

definition sample_parsed :: lifecycle_input where
  "sample_parsed = \<lparr>li_reason = Connect, li_config = Some
     \<lparr>interface = \<lparr>if_name = ''tun0'', if_index = 7\<rparr>, mtu = 1400,
      addresses = [\<lparr>address = V4 0x0A000002, prefix = 32\<rparr>], ipv4_subnet = None,
      dns_servers = [V4 0x0A000001], search_domains = [], split_dns = [],
      full_tunnel_ipv4 = False, full_tunnel_ipv6 = False,
      split_includes = [\<lparr>address = V4 0x0A000000, prefix = 8\<rparr>], split_excludes = [],
      transport_peer = V4 0xCB007105\<rparr>\<rparr>"

lemma sample_parses: "parse_environment sample_ifs sample_environment = Inr sample_parsed"
  by code_simp

theorem environment_consumed_witness:
  "accounted (the (li_config sample_parsed)) \<noteq> {}
   \<and> {k \<in> fst ` set sample_environment. recognized k} \<subseteq> accounted (the (li_config sample_parsed))"
proof -
  have c: "li_config sample_parsed = Some (the (li_config sample_parsed))"
    by (simp add: sample_parsed_def)
  show ?thesis
    using environment_consumed [OF sample_parses c] fixed_reason
      fixed_accounted [of "the (li_config sample_parsed)"] by blast
qed

theorem full_tunnel_iff_witness:
  "''CISCO_SPLIT_INC'' \<in> fst ` set sample_environment
   \<and> \<not> full_tunnel_ipv4 (the (li_config sample_parsed))"
proof -
  have c: "li_config sample_parsed = Some (the (li_config sample_parsed))"
    by (simp add: sample_parsed_def)
  have m: "''CISCO_SPLIT_INC'' \<in> fst ` set sample_environment" by code_simp
  then show ?thesis using full_tunnel_iff [OF sample_parses c] by blast
qed

theorem unrecognized_ignored_witness:
  "length (filter (\<lambda>(k, _). recognized k) sample_environment) = 9
   \<and> parse_environment sample_ifs (filter (\<lambda>(k, _). recognized k) sample_environment)
      = Inr sample_parsed"
proof
  show "length (filter (\<lambda>(k, _). recognized k) sample_environment) = 9" by code_simp
qed (rule unrecognized_ignored [OF sample_parses])

end
