(* ===== verification/SessionState.thy ===== *)
theory SessionState
  imports ProfileModel
begin

text \<open>
  \<open>crates/model/src/state.rs\<close>: the states of a connection with the table of permitted
  transitions, the snapshot published to clients, log records and capabilities.
\<close>

section \<open>States\<close>

datatype connection_state =
    Disconnected
  | Authenticating
  | Connecting
  | Connected
  | Reconnecting
  | Disconnecting
  | NeedsAuthentication
  | Failed

definition can_transition_to :: "connection_state \<Rightarrow> connection_state \<Rightarrow> bool" where
  "can_transition_to s t \<longleftrightarrow>
     (case s of
        Disconnected \<Rightarrow> t = Authenticating
      | Authenticating \<Rightarrow> t \<in> {Connecting, Disconnecting, NeedsAuthentication, Failed}
      | Connecting \<Rightarrow> t \<in> {Connected, Disconnecting, NeedsAuthentication, Failed}
      | Connected \<Rightarrow> t \<in> {Reconnecting, Disconnecting, NeedsAuthentication, Failed}
      | Reconnecting \<Rightarrow> t \<in> {Connected, Disconnecting, NeedsAuthentication, Failed}
      | Disconnecting \<Rightarrow> t \<in> {Disconnected, NeedsAuthentication, Failed}
      | NeedsAuthentication \<Rightarrow> t \<in> {Authenticating, Disconnected}
      | Failed \<Rightarrow> t \<in> {Authenticating, Disconnected})"

definition transition :: "connection_state \<Rightarrow> connection_state \<Rightarrow> connection_state result" where
  "transition s t =
     (if \<not> can_transition_to s t then Inl (new_error Conflict ''Invalid session state transition'')
      else Inr t)"

section \<open>Snapshots\<close>

record network_observation =
  ob_interface :: string
  ob_addresses :: "string list"
  ob_dns_servers :: "string list"
  ob_search_domains :: "string list"
  ob_routes :: "string list"
  ob_transport :: string

record traffic_counters =
  rx_bytes :: u64
  tx_bytes :: u64

definition no_traffic :: traffic_counters where
  "no_traffic = \<lparr>rx_bytes = 0, tx_bytes = 0\<rparr>"

record snapshot =
  service_instance_id :: uuid
  sequence :: u64
  sn_state :: connection_state
  profile_id :: "uuid option"
  profile_name :: "string option"
  attempt_id :: "uuid option"
  session_id :: "uuid option"
  started_at :: "int option"
  network :: "network_observation option"
  traffic :: traffic_counters
  last_error :: "err option"

datatype log_level = LogError | LogWarning | LogInfo | LogDebug

record log_record =
  lr_timestamp :: int
  lr_level :: log_level
  lr_message :: string

record capabilities =
  engine_version :: string
  api_major :: u32
  api_minor :: u32
  protocols :: "protocol_info list"
  cap_pkcs11 :: bool
  cap_totp :: bool
  cap_hotp :: bool
  cap_stoken :: bool
  cap_yubioath :: bool
  cap_hpke :: bool

section \<open>The transition table\<close>

text \<open>The states in which a tunnel may exist, and those in which none does.\<close>

definition tunnel_state :: "connection_state \<Rightarrow> bool" where
  "tunnel_state s \<longleftrightarrow> s \<in> {Connecting, Connected, Reconnecting, Disconnecting}"

definition idle_state :: "connection_state \<Rightarrow> bool" where
  "idle_state s \<longleftrightarrow> s \<in> {Disconnected, NeedsAuthentication, Failed}"

lemma state_trichotomy:
  "idle_state s \<or> s = Authenticating \<or> tunnel_state s"
  by (cases s) (simp_all add: idle_state_def tunnel_state_def)

lemma transition_irreflexive: "\<not> can_transition_to s s"
  by (cases s) (simp_all add: can_transition_to_def)

lemma table_into_tunnel:
  "can_transition_to s t \<Longrightarrow> tunnel_state t \<Longrightarrow> tunnel_state s \<or> s = Authenticating"
  by (cases s) (auto simp: can_transition_to_def tunnel_state_def)

text \<open>A path of the table.\<close>

fun transition_path :: "connection_state \<Rightarrow> connection_state list \<Rightarrow> bool" where
  "transition_path s [] = True"
| "transition_path s (t # ts) = (can_transition_to s t \<and> transition_path t ts)"

lemma transition_path_append:
  "transition_path s (ts @ us) \<longleftrightarrow> transition_path s ts \<and> transition_path (last (s # ts)) us"
  by (induction ts arbitrary: s) auto

lemma path_to_connected:
  assumes "transition_path s (ts @ [Connected])" and "idle_state s"
  shows "Authenticating \<in> set ts \<and> Connecting \<in> set ts"
proof -
  have c: "transition_path s ts \<Longrightarrow> tunnel_state (last (s # ts)) \<Longrightarrow> last (s # ts) \<noteq> Disconnecting
      \<Longrightarrow> idle_state s \<or> s = Authenticating \<Longrightarrow> Connecting \<in> set ts" for s ts
  proof (induction ts arbitrary: s rule: rev_induct)
    case Nil then show ?case by (auto simp: tunnel_state_def idle_state_def)
  next
    case (snoc t ts)
    let ?l = "last (s # ts)"
    have step: "can_transition_to ?l t" and p: "transition_path s ts"
      using snoc.prems(1) by (simp_all add: transition_path_append)
    have t: "tunnel_state t" "t \<noteq> Disconnecting" using snoc.prems(2,3) by simp_all
    show ?case
    proof (cases "t = Connecting")
      case False
      then have "tunnel_state ?l \<and> ?l \<noteq> Disconnecting"
        using step t by (cases ?l) (auto simp: can_transition_to_def tunnel_state_def)
      then show ?thesis using snoc.IH [OF p] snoc.prems(4) by auto
    qed simp
  qed
  have a: "transition_path s ts \<Longrightarrow> tunnel_state (last (s # ts)) \<Longrightarrow> idle_state s
      \<Longrightarrow> Authenticating \<in> set ts" for s ts
  proof (induction ts arbitrary: s rule: rev_induct)
    case Nil then show ?case by (auto simp: tunnel_state_def idle_state_def)
  next
    case (snoc t ts)
    have step: "can_transition_to (last (s # ts)) t" and p: "transition_path s ts"
      using snoc.prems(1) by (simp_all add: transition_path_append)
    have "tunnel_state t" using snoc.prems(2) by simp
    from table_into_tunnel [OF step this] consider "tunnel_state (last (s # ts))"
      | "last (s # ts) = Authenticating" by blast
    then show ?case
    proof cases
      case 1
      then show ?thesis using snoc.IH [OF p _ snoc.prems(3)] by simp
    next
      case 2
      with snoc.prems(3) have "ts \<noteq> []" by (auto simp: idle_state_def)
      with 2 have "Authenticating \<in> set ts" using last_in_set [of ts] by simp
      then show ?thesis by simp
    qed
  qed
  have "can_transition_to (last (s # ts)) Connected" and p: "transition_path s ts"
    using assms(1) by (simp_all add: transition_path_append)
  then have l: "tunnel_state (last (s # ts))" "last (s # ts) \<noteq> Disconnecting"
    by (cases "last (s # ts)"; simp add: can_transition_to_def tunnel_state_def)+
  show ?thesis using c [OF p l] a [OF p l(1)] assms(2) by blast
qed

end
