(* ===== verification/Ipc.thy ===== *)
theory Ipc
  imports SessionState AuthModel
begin

text \<open>
  \<open>crates/model/src/ipc.rs\<close>: the control protocol. A message is a frame: a big-endian \<open>u32\<close>
  length between 1 and 1 MiB and that many bytes of JSON. The streams are byte lists; the JSON
  codec (\<open>serde_json\<close>) is the argument \<open>decode\<close> of the reader and \<open>encode\<close> of the writer,
  which gives the pieces in the order the serializer writes them.
\<close>

definition version :: u32 where
  "version = 1"

definition max_frame_bytes :: int where
  "max_frame_bytes = 1024 * 1024"

record hello =
  hello_version :: u32

definition protocol_error :: "string \<Rightarrow> err" where
  "protocol_error m = new_error ProtocolViolation m"

definition hello_validate :: "hello \<Rightarrow> unit result" where
  "hello_validate h =
     (if hello_version h \<noteq> version then Inl (protocol_error ''Unsupported IPC version'') else Inr ())"

section \<open>Messages\<close>

datatype 'u ipc_method =
    MCapabilities
  | MReserve uuid string string
  | MStart uuid "'u auth_handoff"
  | MAuthProgress uuid
  | MCancel uuid
  | MDisconnect
  | MSnapshot
  | MSubscribe
  | MLogs bool
  | MAdminQuiesce "string option"

record 'u request =
  rq_request_id :: uuid
  rq_method :: "'u ipc_method"

datatype payload =
    PCapabilities capabilities
  | PReserved uuid
  | PAccepted
  | PSnapshot snapshot
  | PLogs "log_record list"

record response =
  rs_request_id :: uuid
  rs_result :: "payload result"

datatype event_payload = ESnapshot snapshot | ELog log_record

record event =
  ev_instance :: uuid
  ev_sequence :: u64
  ev_payload :: event_payload

section \<open>Frames\<close>

definition be_bytes :: "u32 \<Rightarrow> u8 list" where
  "be_bytes n = [of_int (uint n div 2 ^ 24), of_int (uint n div 2 ^ 16),
                 of_int (uint n div 2 ^ 8), of_int (uint n)]"

definition be_value :: "u8 \<Rightarrow> u8 \<Rightarrow> u8 \<Rightarrow> u8 \<Rightarrow> u32" where
  "be_value a b c d = of_int (((uint a * 256 + uint b) * 256 + uint c) * 256 + uint d)"

fun read_u32 :: "u8 list \<Rightarrow> (u32 \<times> u8 list) option" where
  "read_u32 (a # b # c # d # rest) = Some (be_value a b c d, rest)"
| "read_u32 _ = None"

definition read_exact :: "int \<Rightarrow> u8 list \<Rightarrow> (u8 list \<times> u8 list) option" where
  "read_exact n s = (if len s < n then None else Some (take (nat n) s, drop (nat n) s))"

definition read_frame ::
  "(u8 list \<Rightarrow> 'a option) \<Rightarrow> u8 list \<Rightarrow> ('a \<times> u8 list) result" where
  "read_frame decode s =
     rbind (ok_or (protocol_error ''Missing or truncated IPC frame header'') (read_u32 s)) (\<lambda>(n, s).
     if n = 0 \<or> uint n > max_frame_bytes
     then Inl (protocol_error ''IPC frame size is outside the permitted range'')
     else rbind (ok_or (protocol_error ''Truncated IPC frame payload'') (read_exact (uint n) s))
       (\<lambda>(bytes, s).
     rbind (ok_or (protocol_error ''Invalid IPC payload'') (decode bytes)) (\<lambda>v. Inr (v, s))))"

text \<open>\<open>BoundedWriter\<close>: a piece that would exceed the limit is refused and ends the encoding.\<close>

fun bounded_writes :: "u8 list \<Rightarrow> u8 list list \<Rightarrow> u8 list option" where
  "bounded_writes buffer [] = Some buffer"
| "bounded_writes buffer (bytes # pieces) =
     (if len bytes > max 0 (max_frame_bytes - len buffer) then None
      else bounded_writes (buffer @ bytes) pieces)"

definition write_frame :: "('a \<Rightarrow> u8 list list option) \<Rightarrow> 'a \<Rightarrow> u8 list result" where
  "write_frame encode v =
     rbind (ok_or (protocol_error ''IPC payload cannot be encoded within the frame limit'')
              (Option.bind (encode v) (bounded_writes []))) (\<lambda>bytes.
     Inr (be_bytes (of_int (len bytes)) @ bytes))"

text \<open>A stream of frames, as the request loop and the event loop write and read them.\<close>

fun write_frames :: "('a \<Rightarrow> u8 list list option) \<Rightarrow> 'a list \<Rightarrow> u8 list result" where
  "write_frames encode [] = Inr []"
| "write_frames encode (v # vs) =
     rbind (write_frame encode v) (\<lambda>f. rbind (write_frames encode vs) (\<lambda>fs. Inr (f @ fs)))"

fun read_frames :: "(u8 list \<Rightarrow> 'a option) \<Rightarrow> nat \<Rightarrow> u8 list \<Rightarrow> ('a list \<times> u8 list) result" where
  "read_frames decode 0 s = Inr ([], s)"
| "read_frames decode (Suc n) s =
     rbind (read_frame decode s) (\<lambda>(v, s).
     rbind (read_frames decode n s) (\<lambda>(vs, s). Inr (v # vs, s)))"

section \<open>Lemmas\<close>

lemma max_frame_u32: "0 \<le> n \<Longrightarrow> n \<le> max_frame_bytes \<Longrightarrow> uint (of_int n :: u32) = n"
  by (simp add: max_frame_bytes_def unsigned_of_int take_bit_eq_mod)

lemma uint8_of_int: "uint (of_int k :: u8) = k mod 256"
  by (simp add: unsigned_of_int take_bit_eq_mod)

lemma div_steps: "(n :: int) div 2 ^ 16 = n div 2 ^ 8 div 256" "n div 2 ^ 24 = n div 2 ^ 16 div 256"
  by (simp_all add: zdiv_zmult2_eq [symmetric])

lemma digits_horner:
  fixes n :: int
  shows "n = n1 * 256 + d \<Longrightarrow> n1 = n2 * 256 + c \<Longrightarrow> n2 = n3 * 256 + b
    \<Longrightarrow> ((n3 * 256 + b) * 256 + c) * 256 + d = n"
  by simp

lemma digit_step: "0 \<le> r \<Longrightarrow> r < 256 \<Longrightarrow> (k * 256 + r) div 256 = (k :: int)"
  "0 \<le> r \<Longrightarrow> r < 256 \<Longrightarrow> (k * 256 + r) mod 256 = (r :: int)"
  by simp_all

lemma be_digits:
  fixes n :: int
  assumes "0 \<le> n" "n < 2 ^ 32"
  shows "((n div 2 ^ 24 mod 256 * 256 + n div 2 ^ 16 mod 256) * 256 + n div 2 ^ 8 mod 256) * 256
           + n mod 256 = n"
proof -
  have h: "n div 2 ^ 24 mod 256 = n div 2 ^ 24"
    using assms by (intro mod_pos_pos_trivial) (simp_all add: pos_imp_zdiv_nonneg_iff)
  have "n = n div 2 ^ 8 * 256 + n mod 256" by simp
  moreover have "n div 2 ^ 8 = n div 2 ^ 16 * 256 + n div 2 ^ 8 mod 256"
    "n div 2 ^ 16 = n div 2 ^ 24 * 256 + n div 2 ^ 16 mod 256"
    unfolding div_steps(2) unfolding div_steps(1) by simp_all
  ultimately show ?thesis unfolding h by (rule digits_horner)
qed

lemma u32_of_int: "0 \<le> k \<Longrightarrow> k < 2 ^ 32 \<Longrightarrow> uint (of_int k :: u32) = k"
  by (simp add: unsigned_of_int take_bit_eq_mod)

lemma be_value_of:
  assumes "uint a = n div 2 ^ 24 mod 256" "uint b = n div 2 ^ 16 mod 256"
    "uint c = n div 2 ^ 8 mod 256" "uint d = n mod 256" "0 \<le> n" "n < 2 ^ 32"
  shows "be_value a b c d = of_int n"
  unfolding be_value_def assms(1-4) be_digits [OF assms(5,6)] ..

lemma be_value_bytes: "be_bytes n = [a, b, c, d] \<Longrightarrow> be_value a b c d = n"
proof -
  assume *: "be_bytes n = [a, b, c, d]"
  have "be_value a b c d = of_int (uint n)"
    using * uint_bounded [of n] unfolding be_bytes_def list.inject
    by (intro be_value_of) (auto simp only: uint8_of_int uint_ge_0, simp_all)
  then show ?thesis by simp
qed

lemma be_bytes_value: "be_bytes (be_value a b c d) = [a, b, c, d]"
proof -
  define n where "n = ((uint a * 256 + uint b) * 256 + uint c) * 256 + uint d"
  have r: "0 \<le> uint x \<and> uint x < 256" for x :: u8
    using uint_bounded [of x] by simp
  note bounds = r [of a] r [of b] r [of c] r [of d]
  have u: "uint (be_value a b c d) = n"
    unfolding be_value_def n_def [symmetric]
    using bounds by (intro u32_of_int) (simp_all add: n_def)
  have e: "n div 2 ^ 24 = uint a" "n div 2 ^ 16 mod 256 = uint b" "n div 2 ^ 8 mod 256 = uint c"
    "n mod 256 = uint d"
  proof -
    have n1: "n div 2 ^ 8 = (uint a * 256 + uint b) * 256 + uint c"
    proof -
      have "n div 2 ^ 8 = n div 256" by simp
      also have "\<dots> = (uint a * 256 + uint b) * 256 + uint c"
        unfolding n_def by (rule digit_step(1)) (use bounds in simp_all)
      finally show ?thesis .
    qed
    have n2: "n div 2 ^ 16 = uint a * 256 + uint b"
      unfolding div_steps(1) n1 using bounds by (intro digit_step(1)) simp_all
    show "n div 2 ^ 24 = uint a" "n div 2 ^ 16 mod 256 = uint b" "n div 2 ^ 8 mod 256 = uint c"
      "n mod 256 = uint d"
      unfolding div_steps(2) n2 n1 unfolding n_def using bounds
      by (simp_all only: digit_step)
  qed
  have w: "of_int k = x" if "k mod 256 = uint x" for k :: int and x :: u8
    using that by (simp only: word_uint_eq_iff uint8_of_int)
  have "uint a mod 256 = uint a" using bounds by simp
  then show ?thesis
    unfolding be_bytes_def u using e by (simp only: w)
qed

lemma read_u32_be: "read_u32 (be_bytes n @ s) = Some (n, s)"
  using be_value_bytes [of n] by (simp add: be_bytes_def)

lemma read_u32_Some: "read_u32 s = Some (n, s') \<longleftrightarrow> s = be_bytes n @ s'"
proof
  assume "read_u32 s = Some (n, s')"
  then show "s = be_bytes n @ s'"
    by (cases s rule: read_u32.cases) (auto simp: be_bytes_value)
qed (simp add: read_u32_be)

lemma bounded_writes_iff:
  "len buffer \<le> max_frame_bytes \<Longrightarrow>
   bounded_writes buffer ps =
     (if len buffer + len (concat ps) \<le> max_frame_bytes then Some (buffer @ concat ps) else None)"
  by (induction ps arbitrary: buffer) auto

lemma read_frame_iff_aux:
  "read_frame decode s = Inr (v, rest) \<longleftrightarrow>
     (\<exists>bytes. s = be_bytes (of_int (len bytes)) @ bytes @ rest
        \<and> 0 < len bytes \<and> len bytes \<le> max_frame_bytes \<and> decode bytes = Some v)"
  (is "?l \<longleftrightarrow> ?r")
proof
  assume ?l
  then obtain n t where s: "s = be_bytes n @ t" and n: "n \<noteq> 0" "uint n \<le> max_frame_bytes"
    and l: "uint n \<le> len t" and d: "decode (take (nat (uint n)) t) = Some v"
    and r: "rest = drop (nat (uint n)) t"
    unfolding read_frame_def
    by (auto simp: rbind_Inr_iff ok_or_def read_u32_Some read_exact_def split: option.splits if_splits)
  let ?b = "take (nat (uint n)) t"
  have len: "len ?b = uint n" using l
    by (simp only: length_take of_nat_min) (simp add: min_def)
  have "0 < uint n" using n(1) by (simp add: word_neq_0_conv word_less_def)
  then show ?r
    using s n l d r len by (intro exI [of _ ?b]) simp
next
  assume ?r
  then obtain bytes where s: "s = be_bytes (of_int (len bytes)) @ bytes @ rest"
    and n: "0 < len bytes" "len bytes \<le> max_frame_bytes" and d: "decode bytes = Some v" by blast
  have u: "uint (of_int (len bytes) :: u32) = len bytes" using n by (intro max_frame_u32) simp_all
  then have "(of_int (len bytes) :: u32) \<noteq> 0" using n(1) by (metis less_irrefl unsigned_0)
  then show ?l
    unfolding read_frame_def s read_u32_be using u n d
    by (simp add: ok_or_def read_exact_def)
qed

lemma write_frame_Inr:
  "write_frame encode v = Inr f \<longleftrightarrow>
     (\<exists>ps. encode v = Some ps \<and> len (concat ps) \<le> max_frame_bytes
        \<and> f = be_bytes (of_int (len (concat ps))) @ concat ps)"
  unfolding write_frame_def
  by (cases "encode v")
     (auto simp: ok_or_def bounded_writes_iff max_frame_bytes_def rbind_Inr_iff split: if_splits)

lemma read_write_frame:
  assumes "write_frame encode v = Inr f" and "encode v = Some ps"
    and "concat ps \<noteq> []" and "decode (concat ps) = Some v"
  shows "read_frame decode (f @ s) = Inr (v, s)"
proof -
  have "f = be_bytes (of_int (len (concat ps))) @ concat ps" "len (concat ps) \<le> max_frame_bytes"
    using assms(1,2) by (auto simp: write_frame_Inr)
  then show ?thesis
    unfolding read_frame_iff_aux using assms(3,4) by (intro exI [of _ "concat ps"]) simp
qed

section \<open>Properties\<close>

text \<open>C27: the reader accepts exactly the streams that start with a big-endian length between 1
  and 1 MiB followed by that many bytes that decode, and it consumes exactly that frame.\<close>

theorem read_frame_iff:
  "read_frame decode s = Inr (v, rest) \<longleftrightarrow>
     (\<exists>bytes. s = be_bytes (of_int (len bytes)) @ bytes @ rest
        \<and> 0 < len bytes \<and> len bytes \<le> max_frame_bytes \<and> decode bytes = Some v)"
  by (rule read_frame_iff_aux)

text \<open>C28: the messages of a stream are recovered in order, with nothing left over or taken from
  what follows, whenever the codec decodes what it encodes and encodes nothing to the empty
  sequence.\<close>

theorem frames_roundtrip:
  assumes codec: "\<And>v ps. v \<in> set vs \<Longrightarrow> encode v = Some ps \<Longrightarrow>
      concat ps \<noteq> [] \<and> decode (concat ps) = Some v"
    and "write_frames encode vs = Inr bytes"
  shows "read_frames decode (length vs) (bytes @ rest) = Inr (vs, rest)"
  using assms
proof (induction vs arbitrary: bytes)
  case (Cons v vs)
  from Cons.prems(2) obtain f fs where w: "write_frame encode v = Inr f"
    and ws: "write_frames encode vs = Inr fs" and b: "bytes = f @ fs"
    by (auto simp: rbind_Inr_iff)
  obtain ps where "encode v = Some ps" using w by (auto simp: write_frame_Inr)
  then have "read_frame decode (f @ (fs @ rest)) = Inr (v, fs @ rest)"
    using Cons.prems(1) [of v ps] read_write_frame [OF w, of ps decode] by fastforce
  moreover have "read_frames decode (length vs) (fs @ rest) = Inr (vs, rest)"
    by (rule Cons.IH [OF _ ws]) (rule Cons.prems(1), simp_all)
  ultimately show ?case using b by simp
qed simp

text \<open>C@: a message is refused by the writer exactly when it cannot be encoded or its encoding
  exceeds 1 MiB, however the serializer splits it; the length in the header never wraps.\<close>

theorem write_frame_refuses_iff:
  "(\<exists>e. write_frame encode v = Inl e) \<longleftrightarrow>
     (case encode v of None \<Rightarrow> True | Some ps \<Rightarrow> len (concat ps) > max_frame_bytes)"
  by (cases "encode v")
     (auto simp: write_frame_def ok_or_def bounded_writes_iff max_frame_bytes_def)

definition sample_encode :: "bool \<Rightarrow> u8 list list option" where
  "sample_encode b = Some (if b then [[116, 114], [117, 101]] else [[102, 97, 108, 115, 101]])"

definition sample_decode :: "u8 list \<Rightarrow> bool option" where
  "sample_decode bytes =
     (if bytes = [116, 114, 117, 101] then Some True
      else if bytes = [102, 97, 108, 115, 101] then Some False else None)"

theorem frames_roundtrip_witness:
  "read_frames sample_decode 2 ([0,0,0,4,116,114,117,101,0,0,0,5,102,97,108,115,101] @ [0, 0])
     = Inr ([True, False], [0, 0])"
proof -
  have w: "write_frames sample_encode [True, False]
      = Inr [0,0,0,4,116,114,117,101,0,0,0,5,102,97,108,115,101]"
    by code_simp
  have "concat ps \<noteq> [] \<and> sample_decode (concat ps) = Some v"
    if "sample_encode v = Some ps" for v ps
    using that by (cases v) (auto simp: sample_encode_def sample_decode_def)
  from frames_roundtrip [OF this w, of "[0, 0]"] show ?thesis by (simp add: numeral_2_eq_2)
qed

end
