(* ===== verification/Worker.thy ===== *)
theory Worker
  imports Ipc NetEnv
begin

text \<open>
  \<open>crates/service/src/worker.rs\<close> with the two records of \<open>crates/net/src/lib.rs\<close> it exchanges:
  the supervisor of the private worker process (it relays updates, cancels, terminates, waits
  for quiescence and only then recovers the network journal), and the worker's own loop that
  combines the native tunnel events with the reports of the network helper.

  The operating system is an argument: \<open>worker_os\<close> holds what each system call of the
  supervisor answers, and the select loops take the sequence of events they receive.
\<close>

section \<open>Messages\<close>

record transaction_id =
  tx_service_instance_id :: uuid
  tx_attempt_id :: uuid

record lifecycle_report =
  lp_transaction :: transaction_id
  lp_reason :: network_reason
  lp_result :: "network_observation option result"

datatype update =
    UpdConnected network_observation
  | UpdReconnecting
  | UpdTraffic traffic_counters
  | UpdFinished "unit result" bool

definition worker_error :: "string \<Rightarrow> err" where
  "worker_error m = new_error ServiceUnavailable m"

section \<open>Recovery warnings\<close>

definition warning_text :: "string \<Rightarrow> string" where
  "warning_text s = concat (map utf8 (take 512 (filter (\<lambda>c. \<not> is_control c) (chars s))))"

definition warning_detail :: "err \<Rightarrow> string" where
  "warning_detail w =
     warning_text (message w)
     @ (case details w of None \<Rightarrow> [] | Some value \<Rightarrow> '': '' @ warning_text value)"

definition recovery_warning :: "err list \<Rightarrow> err" where
  "recovery_warning warnings =
     (new_error RecoveryRequired ''Network recovery requires repair before reconnecting'')
       \<lparr>details := Some (join ''; '' (map warning_detail (take 32 warnings)))\<rparr>"

section \<open>The supervisor\<close>

text \<open>What the process calls of one supervised worker answer. \<open>os_wait\<close> is the wait of
  \<open>terminate_worker\<close>, \<open>os_quiet\<close> the lock probe that shows that no descendant lives.\<close>

record worker_os =
  os_prepare :: "unit result"
  os_spawn :: bool
  os_attach :: "unit result"
  os_pipes :: "unit result"
  os_handoff :: bool
  os_terminate :: bool
  os_wait :: "unit option option"
  os_quiet :: "unit result"

definition terminate_worker :: "worker_os \<Rightarrow> unit result" where
  "terminate_worker w =
     (if \<not> os_terminate w
      then Inl (new_error RecoveryRequired
                  ''Cannot terminate owned worker tree; network journal retained'')
      else case os_wait w of
        None \<Rightarrow> Inl (new_error RecoveryRequired
                  ''Owned worker exit timed out; network journal retained'')
      | Some None \<Rightarrow> Inl (new_error RecoveryRequired
                  ''Cannot establish owned worker exit; network journal retained'')
      | Some (Some _) \<Rightarrow> Inr ())"

text \<open>The select loop. \<open>Received (Some (Inr u))\<close> is a frame of the worker, \<open>Received (Some (Inl e))\<close>
  a frame that could not be read, \<open>Received None\<close> the closed reader; \<open>Exited ok drained\<close> is the
  end of the child with the result found among the frames still buffered. A branch whose
  condition does not hold is not polled.\<close>

datatype sup_event =
    CancelRequested
  | DeadlinePassed
  | Received "update result option" bool
  | Exited bool "unit result option"

record sup_state =
  terminal :: "unit result option"
  sup_stopping :: bool
  cancels :: nat
  relayed :: "update list"

text \<open>\<open>Return\<close> is the early return of the question mark after a failed termination.\<close>

datatype sup_outcome =
    Continue sup_state
  | Break "unit result" sup_state
  | Return err sup_state

definition send_cancel :: "sup_state \<Rightarrow> sup_state" where
  "send_cancel s = s\<lparr>sup_stopping := True, cancels := Suc (cancels s)\<rparr>"

definition sup_step :: "worker_os \<Rightarrow> sup_event \<Rightarrow> sup_state \<Rightarrow> sup_outcome" where
  "sup_step w e s =
     (case e of
        CancelRequested \<Rightarrow> Continue (if sup_stopping s then s else send_cancel s)
      | DeadlinePassed \<Rightarrow>
          if sup_stopping s then
            (case terminate_worker w of
               Inl err \<Rightarrow> Return err s
             | Inr _ \<Rightarrow> Break (case terminal s of Some r \<Rightarrow> r | None \<Rightarrow> Inr ()) s)
          else Continue s
      | Received msg sent \<Rightarrow>
          if terminal s \<noteq> None then Continue s
          else (case msg of
             Some (Inr (UpdFinished r q)) \<Rightarrow>
               Continue (s\<lparr>terminal := Some r, sup_stopping := True\<rparr>)
           | Some (Inr u) \<Rightarrow>
               if sent then Continue (s\<lparr>relayed := relayed s @ [u]\<rparr>) else Continue (send_cancel s)
           | _ \<Rightarrow> Continue (send_cancel (s\<lparr>terminal :=
               Some (Inl (worker_error ''Private tunnel worker channel closed unexpectedly''))\<rparr>)))
      | Exited ok drained \<Rightarrow>
          (case (ok, case terminal s of None \<Rightarrow> drained | t \<Rightarrow> t) of
             (True, Some r) \<Rightarrow> Break r s
           | _ \<Rightarrow> Break (Inl (worker_error ''Private tunnel worker exited unexpectedly'')) s))"

text \<open>None: the events ran out before the loop ended; \<open>Inl\<close> is an early return.\<close>

fun sup_loop ::
  "worker_os \<Rightarrow> sup_event list \<Rightarrow> sup_state \<Rightarrow> ((err + unit result) \<times> sup_state) option" where
  "sup_loop w [] s = None"
| "sup_loop w (e # es) s =
     (case sup_step w e s of
        Continue s' \<Rightarrow> sup_loop w es s'
      | Break r s' \<Rightarrow> Some (Inr r, s')
      | Return err s' \<Rightarrow> Some (Inl err, s'))"

definition sup_start :: sup_state where
  "sup_start = \<lparr>terminal = None, sup_stopping = False, cancels = 0, relayed = []\<rparr>"

text \<open>The result, the final value of \<open>quiescent\<close> (initially true) and the relayed updates. An
  early return leaves \<open>quiescent\<close> as it is at that point.\<close>

definition supervise_inner ::
  "worker_os \<Rightarrow> sup_event list \<Rightarrow> (unit result \<times> bool \<times> update list) option" where
  "supervise_inner w events =
     (case os_prepare w of
        Inl e \<Rightarrow> Some (Inl e, True, [])
      | Inr _ \<Rightarrow>
          if \<not> os_spawn w
          then Some (Inl (worker_error ''Cannot launch installed private tunnel worker''), True, [])
          else (case rbind (os_attach w) (\<lambda>_. os_pipes w) of
             Inl e \<Rightarrow> Some (Inl e, False, [])
           | Inr _ \<Rightarrow>
               if \<not> os_handoff w then
                 (case rbind (terminate_worker w) (\<lambda>_. os_quiet w) of
                    Inl e \<Rightarrow> Some (Inl e, False, [])
                  | Inr _ \<Rightarrow> Some (Inl (worker_error ''Private worker handoff failed''), True, []))
               else
                 (case sup_loop w events sup_start of
                    None \<Rightarrow> None
                  | Some (Inl e, s) \<Rightarrow> Some (Inl e, False, relayed s)
                  | Some (Inr r, s) \<Rightarrow>
                      (case os_quiet w of
                         Inl e \<Rightarrow> Some (Inl e, False, relayed s)
                       | Inr _ \<Rightarrow> Some (r, True, relayed s)))))"

text \<open>\<open>recover\<close> is the recovery of the journal on the machine state \<open>'w\<close>; None when its task
  failed. It runs only on the quiescent path.\<close>

definition supervise ::
  "('w \<Rightarrow> err list result option \<times> 'w) \<Rightarrow> unit result \<Rightarrow> bool \<Rightarrow> 'w \<Rightarrow> update \<times> 'w" where
  "supervise recover result quiescent w =
     (if \<not> quiescent then
        (UpdFinished (Inl (new_error RecoveryRequired
           ''Owned worker quiescence is uncertain; network journal retained'')) False, w)
      else case recover w of (recovery, w') \<Rightarrow>
        (UpdFinished
           (case recovery of
              Some (Inr warnings) \<Rightarrow> if warnings = [] then result else Inl (recovery_warning warnings)
            | Some (Inl e) \<Rightarrow> Inl (recovery_warning [e])
            | None \<Rightarrow> Inl (new_error RecoveryRequired
                ''Network recovery worker failed; repair before reconnecting'')) True, w'))"


text \<open>The updates of one supervised tunnel: the relayed ones, then the final one.\<close>

definition supervised ::
  "worker_os \<Rightarrow> sup_event list \<Rightarrow> ('w \<Rightarrow> err list result option \<times> 'w) \<Rightarrow> 'w
     \<Rightarrow> (update list \<times> 'w) option" where
  "supervised os events recover w =
     (case supervise_inner os events of
        None \<Rightarrow> None
      | Some (result, quiescent, sent) \<Rightarrow>
          (case supervise recover result quiescent w of (final, w') \<Rightarrow> Some (sent @ [final], w')))"

section \<open>The worker\<close>

datatype tunnel_event =
    Statistics traffic_counters bool string
  | NativeReconnected
  | NativeFinished "unit result"

record channel =
  native_ready :: bool
  reconnecting :: bool
  native_reconnected :: bool
  observation :: "network_observation option"
  connected :: bool
  failure :: "err option"
  transport :: string
  stops :: nat
  written :: "update list"

definition channel_start :: channel where
  "channel_start = \<lparr>native_ready = False, reconnecting = False, native_reconnected = False,
     observation = None, connected = False, failure = None, transport = [], stops = 0,
     written = []\<rparr>"

text \<open>\<open>failure = Some e; control.cancel()\<close>\<close>

definition fail_channel :: "err \<Rightarrow> channel \<Rightarrow> channel" where
  "fail_channel e c = c\<lparr>failure := Some e, stops := Suc (stops c)\<rparr>"

definition channel_write :: "update \<Rightarrow> channel \<Rightarrow> channel" where
  "channel_write u c = c\<lparr>written := written c @ [u]\<rparr>"

definition channel_report ::
  "transaction_id \<Rightarrow> lifecycle_report result option \<Rightarrow> channel \<Rightarrow> channel" where
  "channel_report t report c =
     (case (case report of None \<Rightarrow> Inl (worker_error ''Network monitor stopped'') | Some r \<Rightarrow> r) of
        Inl e \<Rightarrow> fail_channel e c
      | Inr r \<Rightarrow>
          if lp_transaction r \<noteq> t
          then fail_channel (worker_error ''Network helper transaction mismatch'') c
          else (case lp_result r of
             Inl e \<Rightarrow> fail_channel e c
           | Inr value \<Rightarrow>
               (case lp_reason r of
                  AttemptReconnect \<Rightarrow>
                    channel_write UpdReconnecting
                      (c\<lparr>reconnecting := True, connected := False, observation := None\<rparr>)
                | Connect \<Rightarrow>
                    if \<not> reconnecting c then c\<lparr>observation := value\<rparr>
                    else fail_channel (worker_error ''Unexpected network lifecycle order'') c
                | Reconnect \<Rightarrow>
                    if reconnecting c then c\<lparr>observation := value\<rparr>
                    else fail_channel (worker_error ''Unexpected network lifecycle order'') c
                | DisconnectReason \<Rightarrow> c
                | PreInit \<Rightarrow> c)))"

definition channel_finish :: "unit result \<Rightarrow> channel \<Rightarrow> unit result" where
  "channel_finish r c = (case failure c of None \<Rightarrow> r | Some e \<Rightarrow> Inl e)"

text \<open>The queue of native events; \<open>Some r\<close> when the run returns \<open>r\<close>.\<close>

fun channel_events ::
  "tunnel_event result list \<Rightarrow> channel \<Rightarrow> unit result option \<times> channel" where
  "channel_events [] c = (None, c)"
| "channel_events (Inl e # evs) c = (Some (Inl e), c)"
| "channel_events (Inr (Statistics t ready actual) # evs) c =
     channel_events evs
       (channel_write (UpdTraffic t) (c\<lparr>native_ready := ready, transport := actual\<rparr>))"
| "channel_events (Inr NativeReconnected # evs) c =
     channel_events evs (c\<lparr>native_reconnected := True\<rparr>)"
| "channel_events (Inr (NativeFinished r) # evs) c =
     (Some (channel_finish r c), channel_write (UpdFinished (channel_finish r c) False) c)"

definition channel_connect :: "channel \<Rightarrow> channel" where
  "channel_connect c =
     (if \<not> connected c \<and> failure c = None \<and> native_ready c
         \<and> (\<not> reconnecting c \<or> native_reconnected c)
      then (case observation c of
         None \<Rightarrow> c
       | Some n \<Rightarrow>
           (channel_write (UpdConnected (n\<lparr>ob_transport := transport c\<rparr>)) (c\<lparr>observation := None\<rparr>))
             \<lparr>connected := True, reconnecting := False, native_reconnected := False\<rparr>)
      else c)"

definition channel_closed :: "bool \<Rightarrow> channel \<Rightarrow> channel" where
  "channel_closed closed c =
     (if closed \<and> failure c = None
      then fail_channel (worker_error ''Network monitor stopped'') c else c)"

text \<open>One turn of the loop: the report received (or the tick), the native events then queued,
  and whether the report channel is closed at its end.\<close>

record turn =
  tn_report :: "lifecycle_report result option option"
  tn_events :: "tunnel_event result list"
  tn_closed :: bool

definition channel_turn :: "transaction_id \<Rightarrow> turn \<Rightarrow> channel \<Rightarrow> unit result option \<times> channel" where
  "channel_turn t n c =
     (let c = (case tn_report n of None \<Rightarrow> c | Some r \<Rightarrow> channel_report t r c) in
      case channel_events (tn_events n) c of
        (Some r, c) \<Rightarrow> (Some r, c)
      | (None, c) \<Rightarrow> (None, channel_closed (tn_closed n) (channel_connect c)))"

fun run_channel ::
  "transaction_id \<Rightarrow> turn list \<Rightarrow> channel \<Rightarrow> unit result option \<times> channel" where
  "run_channel t [] c = (None, c)"
| "run_channel t (n # ns) c =
     (case channel_turn t n c of
        (Some r, c) \<Rightarrow> (Some r, c)
      | (None, c) \<Rightarrow> run_channel t ns c)"

text \<open>\<open>run_channel\<close> refuses a handoff whose identifiers are nil before it starts anything.\<close>

definition check_start :: "transaction_id \<Rightarrow> unit result" where
  "check_start t =
     (if tx_service_instance_id t = 0 \<or> tx_attempt_id t = 0
      then Inl (invalid ''Invalid private worker transaction'') else Inr ())"


section \<open>Lemmas on warnings\<close>

lemma length_utf8: "length (utf8 c) \<le> 4"
  by (simp add: utf8_def)

lemma length_concat_bound:
  "(\<And>x. x \<in> set xs \<Longrightarrow> length x \<le> n) \<Longrightarrow> length (concat xs) \<le> length xs * n"
  by (induction xs) (auto intro: add_mono)

lemma length_join_bound:
  "(\<And>x. x \<in> set xs \<Longrightarrow> length x \<le> n) \<Longrightarrow> length (join sep xs) \<le> length xs * (n + length sep)"
proof (induction sep xs rule: join.induct)
  case (3 sep x y ys)
  have "length (join sep (y # ys)) \<le> length (y # ys) * (n + length sep)"
    by (rule "3.IH") (use "3.prems" in auto)
  moreover have "length x \<le> n" using "3.prems" by simp
  ultimately show ?case by simp
qed auto

lemma length_warning_text: "length (warning_text s) \<le> 2048"
proof -
  let ?cs = "take 512 (filter (\<lambda>c. \<not> is_control c) (chars s))"
  have "length (warning_text s) \<le> length (map utf8 ?cs) * 4"
    unfolding warning_text_def by (rule length_concat_bound) (auto simp: length_utf8)
  also have "\<dots> \<le> 512 * 4" by simp
  finally show ?thesis by simp
qed

lemma length_warning_detail: "length (warning_detail w) \<le> 4098"
  using length_warning_text [of "message w"]
    add_mono [OF length_warning_text [of "message w"] length_warning_text]
  by (auto simp: warning_detail_def split: option.splits)

lemma recovery_warning_code [simp]: "code (recovery_warning ws) = RecoveryRequired"
  by (simp add: recovery_warning_def new_error_def)

section \<open>Lemmas on the supervisor\<close>

definition is_finished :: "update \<Rightarrow> bool" where
  "is_finished u \<longleftrightarrow> (case u of UpdFinished _ _ \<Rightarrow> True | _ \<Rightarrow> False)"

definition started :: "worker_os \<Rightarrow> bool" where
  "started os \<longleftrightarrow> os_prepare os = Inr () \<and> os_spawn os"

lemma sup_step_relayed:
  "(case sup_step w e s of Continue s' \<Rightarrow> list_all (\<lambda>u. \<not> is_finished u) (relayed s')
      | Break r s' \<Rightarrow> list_all (\<lambda>u. \<not> is_finished u) (relayed s')
      | Return x s' \<Rightarrow> list_all (\<lambda>u. \<not> is_finished u) (relayed s'))"
  if "list_all (\<lambda>u. \<not> is_finished u) (relayed s)"
  using that
  by (auto simp: sup_step_def send_cancel_def is_finished_def
      split: sup_event.splits option.splits sum.splits update.splits bool.splits)

lemma sup_loop_relayed:
  "sup_loop w es s = Some (r, s') \<Longrightarrow> list_all (\<lambda>u. \<not> is_finished u) (relayed s)
     \<Longrightarrow> list_all (\<lambda>u. \<not> is_finished u) (relayed s')"
proof (induction es arbitrary: s)
  case (Cons e es)
  then show ?case
    using sup_step_relayed [OF Cons.prems(2), of w e]
    by (auto split: sup_outcome.splits)
qed simp

lemma supervise_inner_facts:
  assumes "supervise_inner os events = Some (r, q, us)"
  shows "list_all (\<lambda>u. \<not> is_finished u) us" and "q \<Longrightarrow> started os \<Longrightarrow> os_quiet os = Inr ()"
proof -
  show "list_all (\<lambda>u. \<not> is_finished u) us"
    using assms unfolding supervise_inner_def
    by (auto simp: sup_start_def split: sum.splits if_splits option.splits dest!: sup_loop_relayed)
  show "q \<Longrightarrow> started os \<Longrightarrow> os_quiet os = Inr ()"
    using assms unfolding supervise_inner_def started_def
    by (auto simp: rbind_Inr_iff split: sum.splits if_splits option.splits prod.splits)
qed

lemma sup_loop_deadline:
  "sup_stopping s \<Longrightarrow> DeadlinePassed \<in> set es \<Longrightarrow> sup_loop w es s \<noteq> None"
proof (induction es arbitrary: s)
  case (Cons e es)
  show ?case
  proof (cases "e = DeadlinePassed")
    case True
    then show ?thesis using Cons.prems by (auto simp: sup_step_def split: sum.splits)
  next
    case False
    have "sup_stopping s'" if "sup_step w e s = Continue s'" for s'
      using that Cons.prems(1)
      by (auto simp: sup_step_def send_cancel_def
          split: sup_event.splits option.splits sum.splits update.splits bool.splits if_splits)
    then show ?thesis
      using Cons.IH Cons.prems(2) False by (auto split: sup_outcome.splits)
  qed
qed simp


section \<open>Lemmas on the worker\<close>

text \<open>The states of the connection that the updates go through: \<open>up\<close> between a \<open>Connected\<close> and
  the next \<open>Reconnecting\<close>. None once the order is violated.\<close>

fun update_order :: "bool \<Rightarrow> update list \<Rightarrow> bool option" where
  "update_order up [] = Some up"
| "update_order up (UpdConnected n # us) = (if up then None else update_order True us)"
| "update_order up (UpdReconnecting # us) = update_order False us"
| "update_order up (UpdTraffic t # us) = update_order up us"
| "update_order up (UpdFinished r q # us) = (if us = [] then Some up else None)"

lemma update_order_append:
  "list_all (\<lambda>u. \<not> is_finished u) us \<Longrightarrow>
     update_order up (us @ vs) = Option.bind (update_order up us) (\<lambda>up. update_order up vs)"
  by (induction up us rule: update_order.induct) (auto simp: is_finished_def)

definition ordered :: "channel \<Rightarrow> bool" where
  "ordered c \<longleftrightarrow> update_order False (written c) = Some (connected c)
     \<and> list_all (\<lambda>u. \<not> is_finished u) (written c)"

lemma orderedD:
  "ordered c \<Longrightarrow> update_order False (written c @ us) = update_order (connected c) us"
  by (simp add: ordered_def update_order_append)

lemma ordered_report: "ordered c \<Longrightarrow> ordered (channel_report t r c)"
  by (auto simp: channel_report_def ordered_def fail_channel_def channel_write_def
      update_order_append is_finished_def
      split: option.splits sum.splits network_reason.splits)

lemma ordered_events:
  "ordered c \<Longrightarrow> channel_events evs c = (r, c') \<Longrightarrow>
     (r = None \<longrightarrow> ordered c') \<and> update_order False (written c') \<noteq> None"
  by (induction evs c rule: channel_events.induct)
     (auto simp: ordered_def channel_write_def update_order_append is_finished_def)

lemma ordered_connect: "ordered c \<Longrightarrow> ordered (channel_connect c)"
  by (auto simp: channel_connect_def ordered_def channel_write_def update_order_append
      is_finished_def split: option.splits)

lemma ordered_closed: "ordered c \<Longrightarrow> ordered (channel_closed b c)"
  by (simp add: channel_closed_def fail_channel_def ordered_def)

definition received :: "transaction_id \<Rightarrow> turn \<Rightarrow> channel \<Rightarrow> channel" where
  "received t n c = (case tn_report n of None \<Rightarrow> c | Some r \<Rightarrow> channel_report t r c)"

text \<open>A turn, split at the end of the event queue.\<close>

lemma channel_turn_cases:
  assumes "channel_turn t n c = (r, c')"
  obtains (finished) x where "r = Some x" and "channel_events (tn_events n) (received t n c) = (Some x, c')"
  | (running) c2 where "r = None" and "channel_events (tn_events n) (received t n c) = (None, c2)"
      and "c' = channel_closed (tn_closed n) (channel_connect c2)"
  using assms unfolding channel_turn_def Let_def received_def [symmetric]
  by (cases "channel_events (tn_events n) (received t n c)") (auto split: option.splits)

lemma ordered_received: "ordered c \<Longrightarrow> ordered (received t n c)"
  by (simp add: received_def ordered_report split: option.splits)

lemma ordered_update: "ordered c \<Longrightarrow> update_order False (written c) \<noteq> None"
  by (simp add: ordered_def)

lemma ordered_turn:
  assumes "ordered c" and "channel_turn t n c = (r, c')"
  shows "(r = None \<longrightarrow> ordered c') \<and> update_order False (written c') \<noteq> None"
  using assms(2)
proof (cases rule: channel_turn_cases)
  case (finished x)
  with ordered_events [OF ordered_received [OF assms(1)] finished(2)] show ?thesis by simp
next
  case (running c2)
  with ordered_events [OF ordered_received [OF assms(1)] running(2)]
  have "ordered c'" by (simp add: ordered_connect ordered_closed)
  then show ?thesis using ordered_update by blast
qed

lemma ordered_run:
  "ordered c \<Longrightarrow> run_channel t ns c = (r, c') \<Longrightarrow> update_order False (written c') \<noteq> None"
proof (induction ns arbitrary: c)
  case Nil then show ?case using ordered_update by simp
next
  case (Cons n ns)
  obtain r1 c1 where turn: "channel_turn t n c = (r1, c1)" by (cases "channel_turn t n c")
  show ?case
  proof (cases r1)
    case None
    with ordered_turn [OF Cons.prems(1) turn] have "ordered c1" by simp
    then show ?thesis using Cons.IH Cons.prems(2) turn None by simp
  next
    case (Some x)
    with ordered_turn [OF Cons.prems(1) turn] Cons.prems(2) turn show ?thesis by simp
  qed
qed

text \<open>What a failed channel does: it stays failed and writes no \<open>Connected\<close>.\<close>

definition connects :: "update list \<Rightarrow> network_observation list" where
  "connects us = concat (map (\<lambda>u. case u of UpdConnected n \<Rightarrow> [n] | _ \<Rightarrow> []) us)"

lemma connects_simps [simp]:
  "connects [] = []" "connects (us @ vs) = connects us @ connects vs"
  "connects (UpdConnected n # us) = n # connects us" "connects (UpdReconnecting # us) = connects us"
  "connects (UpdTraffic tr # us) = connects us" "connects (UpdFinished r q # us) = connects us"
  by (simp_all add: connects_def)

lemma connects_report [simp]: "connects (written (channel_report t r c)) = connects (written c)"
  by (auto simp: channel_report_def fail_channel_def channel_write_def
      split: option.splits sum.splits network_reason.splits)

lemma connects_received [simp]: "connects (written (received t n c)) = connects (written c)"
  by (simp add: received_def split: option.splits)

lemma failed_received: "failure c \<noteq> None \<Longrightarrow> failure (received t n c) \<noteq> None"
  by (auto simp: received_def channel_report_def fail_channel_def channel_write_def
      split: option.splits sum.splits network_reason.splits)

lemma events_facts:
  "channel_events evs c = (r, c') \<Longrightarrow> connects (written c') = connects (written c)
     \<and> failure c' = failure c \<and> observation c' = observation c
     \<and> (\<forall>x e. r = Some x \<longrightarrow> failure c = Some e \<longrightarrow> (\<exists>e'. x = Inl e'))"
  by (induction evs c rule: channel_events.induct)
     (auto simp: channel_write_def channel_finish_def)

lemma failed_connect: "failure c \<noteq> None \<Longrightarrow> channel_connect c = c"
  unfolding channel_connect_def by (rule if_not_P) blast

lemma failed_closed: "failure c \<noteq> None \<Longrightarrow> channel_closed b c = c"
  unfolding channel_closed_def by (rule if_not_P) blast

lemma failed_turn:
  assumes "failure c \<noteq> None" and "channel_turn t n c = (r, c')"
  shows "failure c' \<noteq> None \<and> connects (written c') = connects (written c)
       \<and> (\<forall>x. r = Some x \<longrightarrow> (\<exists>e. x = Inl e))"
  using assms(2)
proof (cases rule: channel_turn_cases)
  case (finished x)
  with events_facts [OF finished(2)] failed_received [OF assms(1), of t n] show ?thesis by auto
next
  case (running c2)
  with events_facts [OF running(2)] failed_received [OF assms(1), of t n]
  show ?thesis by (simp add: failed_connect failed_closed)
qed

text \<open>Where a \<open>Connected\<close> comes from.\<close>

definition reported :: "transaction_id \<Rightarrow> turn list \<Rightarrow> network_observation \<Rightarrow> bool" where
  "reported t ns m \<longleftrightarrow> (\<exists>n \<in> set ns. \<exists>r. tn_report n = Some (Some (Inr r)) \<and> lp_transaction r = t
     \<and> lp_reason r \<in> {Connect, Reconnect} \<and> lp_result r = Inr (Some m))"

definition sourced :: "transaction_id \<Rightarrow> turn list \<Rightarrow> channel \<Rightarrow> bool" where
  "sourced t ns c \<longleftrightarrow> (\<forall>m. observation c = Some m \<longrightarrow> reported t ns m)
     \<and> (\<forall>n \<in> set (connects (written c)). \<exists>m tr. reported t ns m \<and> n = m\<lparr>ob_transport := tr\<rparr>)"

lemma reported_mono: "reported t ns m \<Longrightarrow> reported t (ns @ ns') m"
  by (auto simp: reported_def)

lemma sourced_mono: "sourced t ns c \<Longrightarrow> sourced t (ns @ ns') c"
  unfolding sourced_def by (blast dest: reported_mono)

lemma observation_received:
  "observation (received t n c) = Some m \<Longrightarrow> observation c = Some m \<or> reported t [n] m"
  by (auto simp: received_def reported_def channel_report_def fail_channel_def channel_write_def
      split: option.splits sum.splits network_reason.splits if_splits)

lemma sourced_received:
  assumes "sourced t ns c" shows "sourced t (ns @ [n]) (received t n c)"
proof -
  have "reported t (ns @ [n]) m" if "observation (received t n c) = Some m" for m
    using observation_received [OF that] assms
    by (auto simp: sourced_def reported_def)
  then show ?thesis
    using sourced_mono [OF assms, of "[n]"] by (simp add: sourced_def)
qed

lemma sourced_connect: "sourced t ns c \<Longrightarrow> sourced t ns (channel_connect c)"
  by (auto simp: channel_connect_def sourced_def channel_write_def split: option.splits)

lemma sourced_closed: "sourced t ns c \<Longrightarrow> sourced t ns (channel_closed b c)"
  by (simp add: channel_closed_def fail_channel_def sourced_def)

lemma sourced_turn:
  assumes "sourced t ns c" and "channel_turn t n c = (r, c')"
  shows "sourced t (ns @ [n]) c'"
  using assms(2)
proof (cases rule: channel_turn_cases)
  case (finished x)
  with events_facts [OF finished(2)] sourced_received [OF assms(1), of n]
  show ?thesis by (simp add: sourced_def)
next
  case (running c2)
  with events_facts [OF running(2)] sourced_received [OF assms(1), of n]
  have "sourced t (ns @ [n]) c2" by (simp add: sourced_def)
  with running show ?thesis by (simp add: sourced_connect sourced_closed)
qed

lemma sourced_run:
  "sourced t ms c \<Longrightarrow> run_channel t ns c = (r, c') \<Longrightarrow> sourced t (ms @ ns) c'"
proof (induction ns arbitrary: c ms)
  case (Cons n ns)
  obtain r1 c1 where turn: "channel_turn t n c = (r1, c1)" by (cases "channel_turn t n c")
  note s = sourced_turn [OF Cons.prems(1) turn]
  show ?case
  proof (cases r1)
    case None
    then show ?thesis using Cons.IH [OF s] Cons.prems(2) turn by simp
  next
    case (Some x)
    then have "c' = c1" using Cons.prems(2) turn by simp
    then show ?thesis using sourced_mono [OF s, of ns] by simp
  qed
qed simp

section \<open>Properties\<close>

text \<open>The shape of what a supervised tunnel sends.\<close>

lemma supervised_shape:
  assumes "supervised os events recover w = Some (us, w')"
  shows "\<exists>sent r q. us = sent @ [UpdFinished r q] \<and> list_all (\<lambda>u. \<not> is_finished u) sent
     \<and> (if q then (\<not> started os \<or> os_quiet os = Inr ()) \<and> w' = snd (recover w)
        else w' = w \<and> (\<exists>e. r = Inl e \<and> code e = RecoveryRequired))"
proof -
  obtain r q sent where inner: "supervise_inner os events = Some (r, q, sent)"
    and us: "us = sent @ [fst (supervise recover r q w)]" and w: "w' = snd (supervise recover r q w)"
    using assms unfolding supervised_def by (auto split: option.splits prod.splits)
  obtain r' where "supervise recover r q w = (UpdFinished r' q, if q then snd (recover w) else w)"
    and "\<not> q \<Longrightarrow> \<exists>e. r' = Inl e \<and> code e = RecoveryRequired"
    by (cases "recover w") (cases q; auto simp: supervise_def)
  then show ?thesis
    using us w supervise_inner_facts [OF inner] by (intro exI [of _ sent] exI [of _ r'] exI [of _ q]) auto
qed

text \<open>C25: every supervised tunnel ends with exactly one final update. The journal is recovered
  only when no worker was started or every descendant of it is known to have exited; when that
  is not known, the final update carries a recovery-required error, says so, and nothing on
  the machine was touched by the supervisor.\<close>

theorem recovery_only_when_quiet:
  assumes "supervised os events recover w = Some (us, w')"
  shows "\<exists>sent r q. us = sent @ [UpdFinished r q] \<and> list_all (\<lambda>u. \<not> is_finished u) sent
     \<and> (if q then (\<not> started os \<or> os_quiet os = Inr ()) \<and> w' = snd (recover w)
        else w' = w \<and> (\<exists>e. r = Inl e \<and> code e = RecoveryRequired))"
  by (rule supervised_shape [OF assms])


text \<open>C@: the updates a worker writes alternate: \<open>Connected\<close> is never repeated without a
  \<open>Reconnecting\<close> in between, and nothing follows \<open>Finished\<close>.\<close>

theorem worker_update_order:
  "update_order False (written (snd (run_channel t ns channel_start))) \<noteq> None"
proof -
  have "ordered channel_start" by (simp add: ordered_def channel_start_def)
  then show ?thesis using ordered_run by (metis prod.collapse)
qed

text \<open>C33: a worker reports \<open>Connected\<close> only with a network configuration that the helper of this
  very transaction reported as applied on connect or reconnect.\<close>

theorem connected_only_from_report:
  assumes "run_channel t ns channel_start = (r, c)" and "UpdConnected n \<in> set (written c)"
  shows "\<exists>m tr. reported t ns m \<and> n = m\<lparr>ob_transport := tr\<rparr>"
proof -
  have "sourced t [] channel_start" by (simp add: sourced_def channel_start_def)
  from sourced_run [OF this assms(1)] have "sourced t ns c" by simp
  moreover have "n \<in> set (connects (written c))"
    using assms(2) by (force simp: connects_def)
  ultimately show ?thesis by (simp add: sourced_def)
qed

text \<open>C@: after a failure the worker never reports \<open>Connected\<close> again and can only end with an
  error.\<close>

theorem failure_is_final:
  assumes "failure c \<noteq> None" and "run_channel t ns c = (r, c')"
  shows "connects (written c') = connects (written c) \<and> r \<noteq> Some (Inr ())"
  using assms
proof (induction ns arbitrary: c)
  case (Cons n ns)
  obtain r1 c1 where turn: "channel_turn t n c = (r1, c1)" by (cases "channel_turn t n c")
  note f = failed_turn [OF Cons.prems(1) turn]
  show ?case
  proof (cases r1)
    case None
    then show ?thesis using Cons.IH [of c1] Cons.prems(2) turn f by simp
  next
    case (Some x)
    then show ?thesis using Cons.prems(2) turn f by auto
  qed
qed simp

text \<open>C@: however many warnings recovery collects and however long they are, the combined
  warning is at most 131200 bytes, an eighth of the frame limit.\<close>

theorem recovery_warning_bounded:
  "len (case details (recovery_warning ws) of Some d \<Rightarrow> d | None \<Rightarrow> []) \<le> 131200"
proof -
  have "length (join ''; '' (map warning_detail (take 32 ws)))
      \<le> length (map warning_detail (take 32 ws)) * (4098 + length ''; '')"
    by (rule length_join_bound) (auto simp: length_warning_detail)
  also have "\<dots> \<le> 32 * 4100" by simp
  finally show ?thesis by (simp add: recovery_warning_def)
qed


section \<open>Witnesses\<close>

text \<open>A worker that exits cleanly while a descendant may live on, and one that goes quiet.\<close>

definition sample_os :: "bool \<Rightarrow> worker_os" where
  "sample_os quiet = \<lparr>os_prepare = Inr (), os_spawn = True, os_attach = Inr (), os_pipes = Inr (),
     os_handoff = True, os_terminate = True, os_wait = Some (Some ()),
     os_quiet = (if quiet then Inr () else Inl (new_error RecoveryRequired ''lifetime''))\<rparr>"

definition sample_events :: "sup_event list" where
  "sample_events = [Received (Some (Inr (UpdTraffic no_traffic))) True, CancelRequested,
     Exited True (Some (Inr ()))]"

definition sample_recover :: "nat \<Rightarrow> err list result option \<times> nat" where
  "sample_recover n = (Some (Inr []), Suc n)"

lemma sample_supervised:
  "supervised (sample_os False) sample_events sample_recover 7 =
     Some ([UpdTraffic no_traffic, UpdFinished (Inl (new_error RecoveryRequired
       ''Owned worker quiescence is uncertain; network journal retained'')) False], 7)"
  "supervised (sample_os True) sample_events sample_recover 7 =
     Some ([UpdTraffic no_traffic, UpdFinished (Inr ()) True], 8)"
  by code_simp+

theorem recovery_only_when_quiet_witness:
  "(\<exists>sent r q. [UpdTraffic no_traffic, UpdFinished (Inr ()) True] = sent @ [UpdFinished r q]
     \<and> list_all (\<lambda>u. \<not> is_finished u) sent
     \<and> (if q then (\<not> started (sample_os True) \<or> os_quiet (sample_os True) = Inr ())
              \<and> 8 = snd (sample_recover 7)
        else 8 = (7 :: nat) \<and> (\<exists>e. r = Inl e \<and> code e = RecoveryRequired)))"
  by (rule recovery_only_when_quiet [OF sample_supervised(2)])

definition sample_observation :: network_observation where
  "sample_observation = \<lparr>ob_interface = ''tun0'', ob_addresses = [''10.0.0.2/32''],
     ob_dns_servers = [], ob_search_domains = [], ob_routes = [], ob_transport = []\<rparr>"

definition sample_transaction :: transaction_id where
  "sample_transaction = \<lparr>tx_service_instance_id = 1, tx_attempt_id = 2\<rparr>"

definition sample_turns :: "turn list" where
  "sample_turns =
     [\<lparr>tn_report = Some (Some (Inr \<lparr>lp_transaction = sample_transaction, lp_reason = Connect,
         lp_result = Inr (Some sample_observation)\<rparr>)),
       tn_events = [Inr (Statistics no_traffic True ''DTLS'')], tn_closed = False\<rparr>,
      \<lparr>tn_report = None, tn_events = [Inr (NativeFinished (Inr ()))], tn_closed = False\<rparr>]"

lemma sample_run:
  "fst (run_channel sample_transaction sample_turns channel_start) = Some (Inr ())"
  "UpdConnected (sample_observation\<lparr>ob_transport := ''DTLS''\<rparr>)
     \<in> set (written (snd (run_channel sample_transaction sample_turns channel_start)))"
  by code_simp+

theorem connected_only_from_report_witness:
  "\<exists>m tr. reported sample_transaction sample_turns m
     \<and> sample_observation\<lparr>ob_transport := ''DTLS''\<rparr> = m\<lparr>ob_transport := tr\<rparr>"
  by (rule connected_only_from_report [OF prod.collapse [symmetric] sample_run(2)])

definition sample_failed :: channel where
  "sample_failed = fail_channel (worker_error ''Network monitor stopped'') channel_start"

theorem failure_is_final_witness:
  "connects (written (snd (run_channel sample_transaction sample_turns sample_failed))) = []
   \<and> fst (run_channel sample_transaction sample_turns sample_failed) \<noteq> Some (Inr ())"
proof -
  have "failure sample_failed \<noteq> None" "written sample_failed = []"
    by (simp_all add: sample_failed_def fail_channel_def channel_start_def)
  with failure_is_final [OF this(1) prod.collapse [symmetric]] show ?thesis by simp
qed

end
