(* ===== verification/Daemon.thy ===== *)
theory Daemon
  imports Worker
begin

text \<open>
  \<open>crates/service/src/daemon.rs\<close>: the one machine-wide slot and the requests on it. A session
  method is a function on the record \<open>service\<close>, which holds the fields of \<open>Session\<close> with the
  event bus and the capabilities of \<open>Service\<close>; every function is one critical section under
  the lock. What is not deterministic in a section is the argument \<open>moment\<close>: the instant of
  \<open>Instant::now()\<close> in nanoseconds, the wall clock of \<open>now()\<close> and the identifier a
  \<open>Uuid::new_v4()\<close> draws.
\<close>

section \<open>State\<close>

datatype peer_identity = Uid u32 | Sid "u8 list"

datatype platform = Linux | Macos | Windows

record moment =
  instant :: int
  unix_now :: int
  fresh :: uuid

text \<open>\<open>cancel\<close> is the sender of the channel of capacity one to the supervisor: None before
  \<open>Start\<close>, otherwise whether a cancellation has been sent (a second \<open>try_send\<close> changes nothing).\<close>

record slot =
  owner :: peer_identity
  connection :: uuid
  attempt :: uuid
  sl_protocol :: string
  lease :: int
  cancel :: "bool option"

record session =
  snap :: snapshot
  current :: "slot option"
  last_owner :: "peer_identity option"
  logs :: "log_record list"
  recovery_blocked :: bool
  quiescence_blocked :: bool
  stopping :: bool

type_synonym bus = "(peer_identity option \<times> event) list"

record service = session +
  events :: bus
  svc_capabilities :: capabilities

definition busy :: err where
  "busy = new_error Busy ''The machine-wide VPN slot belongs to another session''"

definition lease_limit :: int where
  "lease_limit = 300 * 1000000000"

definition elapsed :: "int \<Rightarrow> slot \<Rightarrow> int" where
  "elapsed t sl = max 0 (t - lease sl)"

section \<open>Methods of the session\<close>

definition authorize :: "'a session_scheme \<Rightarrow> peer_identity \<Rightarrow> unit result" where
  "authorize s peer =
     (case current s of
        Some sl \<Rightarrow> if owner sl \<noteq> peer then Inl busy else Inr ()
      | None \<Rightarrow> Inr ())"

definition visible :: "'a session_scheme \<Rightarrow> peer_identity \<Rightarrow> snapshot" where
  "visible s peer =
     (if current s = None \<and> (case last_owner s of Some o' \<Rightarrow> o' \<noteq> peer | None \<Rightarrow> False)
      then (snap s)\<lparr>profile_id := None, profile_name := None, attempt_id := None,
             session_id := None, started_at := None, network := None, traffic := no_traffic,
             last_error := None, sn_state := Disconnected\<rparr>
      else snap s)"

definition send :: "event_payload \<Rightarrow> service \<Rightarrow> service" where
  "send p s =
     s\<lparr>events := events s @ [(last_owner s,
         \<lparr>ev_instance = service_instance_id (snap s), ev_sequence = sequence (snap s), ev_payload = p\<rparr>)]\<rparr>"

definition next_sequence :: "service \<Rightarrow> service" where
  "next_sequence s = s\<lparr>snap := (snap s)\<lparr>sequence := sequence (snap s) + 1\<rparr>\<rparr>"

definition append_log :: "log_record \<Rightarrow> service \<Rightarrow> service" where
  "append_log l s = s\<lparr>logs := (if len (logs s) = 2000 then tl (logs s) else logs s) @ [l]\<rparr>"

definition publish :: "moment \<Rightarrow> (string \<times> log_level) option \<Rightarrow> service \<Rightarrow> service" where
  "publish m msg s =
     (let s = (case msg of
                 None \<Rightarrow> s
               | Some (text, level) \<Rightarrow>
                   let log = \<lparr>lr_timestamp = unix_now m, lr_level = level, lr_message = text\<rparr>
                   in send (ELog log) (next_sequence (append_log log s)));
          s = next_sequence s
      in send (ESnapshot (snap s)) s)"

definition set_state :: "connection_state \<Rightarrow> service \<Rightarrow> service" where
  "set_state st s = s\<lparr>snap := (snap s)\<lparr>sn_state := st\<rparr>\<rparr>"

definition session_cancel :: "moment \<Rightarrow> service \<Rightarrow> service" where
  "session_cancel m s =
     (case current s of
        None \<Rightarrow> s
      | Some sl \<Rightarrow>
          publish m (Some (''VPN cancellation requested'', LogInfo))
            (case cancel sl of
               Some _ \<Rightarrow> set_state Disconnecting (s\<lparr>current := Some (sl\<lparr>cancel := Some True\<rparr>)\<rparr>)
             | None \<Rightarrow> set_state Disconnected (s\<lparr>last_owner := Some (owner sl), current := None\<rparr>)))"

section \<open>Start of the daemon\<close>

definition startup_recovery :: "err list result option \<Rightarrow> err option result" where
  "startup_recovery recovery =
     (case recovery of
        None \<Rightarrow> Inl (new_error RecoveryRequired ''Startup recovery task failed'')
      | Some (Inr warnings) \<Rightarrow>
          Inr (if warnings = [] then None else Some (recovery_warning warnings))
      | Some (Inl e) \<Rightarrow> Inr (Some (recovery_warning [e])))"

definition initial_service :: "uuid \<Rightarrow> capabilities \<Rightarrow> err option \<Rightarrow> service" where
  "initial_service instance' caps recovery_error =
     \<lparr>snap = \<lparr>service_instance_id = instance', sequence = 0, sn_state = Disconnected,
        profile_id = None, profile_name = None, attempt_id = None, session_id = None,
        started_at = None, network = None, traffic = no_traffic, last_error = recovery_error\<rparr>,
      current = None, last_owner = None, logs = [],
      recovery_blocked = (recovery_error \<noteq> None), quiescence_blocked = False, stopping = False,
      events = [], svc_capabilities = caps\<rparr>"

section \<open>The main loop and the connections\<close>

definition lease_tick :: "moment \<Rightarrow> service \<Rightarrow> service" where
  "lease_tick m s =
     (case current s of
        Some sl \<Rightarrow>
          if cancel sl = None \<and> elapsed (instant m) sl \<ge> lease_limit then session_cancel m s else s
      | None \<Rightarrow> s)"

definition stop_service :: "moment \<Rightarrow> service \<Rightarrow> service" where
  "stop_service m s = session_cancel m (s\<lparr>stopping := True\<rparr>)"

definition max_connections :: int where
  "max_connections = 128"

text \<open>The end of a connection, after its request loop has returned.\<close>

definition connection_closed :: "moment \<Rightarrow> uuid \<Rightarrow> service \<Rightarrow> service" where
  "connection_closed m c s =
     (case current s of
        Some sl \<Rightarrow>
          if connection sl = c \<and> sn_state (snap s) \<in> {Authenticating, Connecting}
          then session_cancel m s else s
      | None \<Rightarrow> s)"

text \<open>One turn of the event loop of a \<open>Subscribe\<close> or following \<open>Logs\<close> request. \<open>Inr None\<close>: the
  bus is closed and the connection ends without error.\<close>

datatype bus_receive = BusEvent "peer_identity option" event | BusLagged | BusClosed

definition follows :: "'u ipc_method \<Rightarrow> bool" where
  "follows m \<longleftrightarrow> m = MSubscribe \<or> m = MLogs True"

definition log_stream :: "'u ipc_method \<Rightarrow> bool" where
  "log_stream m \<longleftrightarrow> m = MLogs True"

definition follow_event ::
  "peer_identity \<Rightarrow> bool \<Rightarrow> bus_receive \<Rightarrow> service \<Rightarrow> event option result" where
  "follow_event peer logging got s =
     (case got of
        BusEvent o' ev \<Rightarrow>
          rbind (authorize s peer) (\<lambda>_.
          if (case o' of Some p \<Rightarrow> p \<noteq> peer | None \<Rightarrow> False) then Inl busy else Inr (Some ev))
      | BusLagged \<Rightarrow>
          if logging
          then Inl (new_error ServiceUnavailable
                 ''Log subscription fell behind; reconnect to reload recent records'')
          else rbind (authorize s peer) (\<lambda>_.
            Inr (Some \<lparr>ev_instance = service_instance_id (snap s),
                       ev_sequence = sequence (snap s), ev_payload = ESnapshot (visible s peer)\<rparr>))
      | BusClosed \<Rightarrow> Inr None)"

section \<open>Requests\<close>

definition bad_reservation :: "uuid \<Rightarrow> string \<Rightarrow> bool" where
  "bad_reservation profile name \<longleftrightarrow>
     profile = 0 \<or> trim name = [] \<or> len name > 256 \<or> has_control name"

definition reserve ::
  "moment \<Rightarrow> peer_identity \<Rightarrow> uuid \<Rightarrow> uuid \<Rightarrow> string \<Rightarrow> string \<Rightarrow> service \<Rightarrow> payload result \<times> service" where
  "reserve m peer conn profile name protocol s =
     (if stopping s then (Inl (new_error ServiceUnavailable ''Service is stopping''), s)
      else if recovery_blocked s
      then (Inl (new_error RecoveryRequired
              ''Repair pending network recovery before connecting''), s)
      else if current s \<noteq> None then (Inl busy, s)
      else if bad_reservation profile name
      then (Inl (invalid ''Invalid reservation profile''), s)
      else if \<not> list_ex (\<lambda>p. pi_id p = protocol) (protocols (svc_capabilities s))
      then (Inl (new_error UnsupportedProtocol ''Protocol unavailable in installed engine''), s)
      else
        (Inr (PReserved (fresh m)),
         publish m (Some (''Authentication reservation created'', LogInfo))
           (s\<lparr>logs := [], last_owner := Some peer,
              snap := (snap s)\<lparr>sn_state := Authenticating, profile_id := Some profile,
                profile_name := Some name, attempt_id := Some (fresh m), session_id := None,
                started_at := None, network := None, traffic := no_traffic, last_error := None\<rparr>,
              current := Some \<lparr>owner = peer, connection = conn, attempt = fresh m,
                sl_protocol = protocol, lease = instant m, cancel = None\<rparr>\<rparr>)))"

definition start ::
  "'u crates \<Rightarrow> moment \<Rightarrow> uuid \<Rightarrow> uuid \<Rightarrow> 'u auth_handoff \<Rightarrow> service \<Rightarrow> payload result \<times> service" where
  "start X m conn a handoff s =
     (case current s of
        None \<Rightarrow> (Inl (new_error Conflict ''No current reservation''), s)
      | Some sl \<Rightarrow>
          if attempt sl \<noteq> a \<or> connection sl \<noteq> conn \<or> cancel sl \<noteq> None
             \<or> elapsed (instant m) sl \<ge> lease_limit
          then (Inl (new_error Conflict ''Authentication reservation is no longer current''), s)
          else if sl_protocol sl \<noteq> ho_protocol handoff
          then (Inl (invalid ''Handoff protocol does not match reservation''), s)
          else (case handoff_validate X (fresh m) (protocols (svc_capabilities s)) (unix_now m) handoff of
             Inl e \<Rightarrow> (Inl e, s)
           | Inr _ \<Rightarrow>
               (Inr PAccepted,
                publish m (Some (''Starting authenticated tunnel'', LogInfo))
                  (set_state Connecting (s\<lparr>current := Some (sl\<lparr>cancel := Some False\<rparr>)\<rparr>)))))"

definition auth_progress ::
  "moment \<Rightarrow> uuid \<Rightarrow> uuid \<Rightarrow> service \<Rightarrow> payload result \<times> service" where
  "auth_progress m conn a s =
     (if sn_state (snap s) \<noteq> Authenticating
      then (Inl (new_error Conflict ''Authentication is no longer pending''), s)
      else case current s of
        None \<Rightarrow> (Inl (new_error Conflict ''No authentication reservation''), s)
      | Some sl \<Rightarrow>
          if attempt sl \<noteq> a \<or> connection sl \<noteq> conn \<or> elapsed (instant m) sl \<ge> lease_limit
          then (Inl (new_error Conflict ''Authentication reservation is no longer current''), s)
          else (Inr PAccepted, s\<lparr>current := Some (sl\<lparr>lease := instant m\<rparr>)\<rparr>))"

definition cancel_attempt :: "moment \<Rightarrow> uuid \<Rightarrow> service \<Rightarrow> payload result \<times> service" where
  "cancel_attempt m a s =
     (case current s of
        Some sl \<Rightarrow>
          if attempt sl \<noteq> a
          then (Inl (new_error Conflict ''Cancellation does not own the current attempt''), s)
          else (Inr PAccepted, session_cancel m s)
      | None \<Rightarrow> (Inr PAccepted, session_cancel m s))"

definition disconnect :: "moment \<Rightarrow> uuid \<Rightarrow> service \<Rightarrow> payload result \<times> service" where
  "disconnect m conn s =
     (if (case current s of
            Some sl \<Rightarrow> connection sl \<noteq> conn \<and> sn_state (snap s) \<in> {Authenticating, Connecting}
          | None \<Rightarrow> False)
      then (Inl busy, s)
      else (Inr PAccepted, session_cancel m s))"

definition visible_logs :: "peer_identity \<Rightarrow> 'a session_scheme \<Rightarrow> log_record list" where
  "visible_logs peer s =
     (if (case last_owner s of None \<Rightarrow> True | Some o' \<Rightarrow> o' = peer) then logs s else [])"

text \<open>The part of \<open>dispatch\<close> under the session lock.\<close>

definition dispatch ::
  "'u crates \<Rightarrow> moment \<Rightarrow> peer_identity \<Rightarrow> uuid \<Rightarrow> 'u ipc_method \<Rightarrow> service
     \<Rightarrow> payload result \<times> service" where
  "dispatch X m peer conn method' s =
     (case authorize s peer of
        Inl e \<Rightarrow> (Inl e, s)
      | Inr _ \<Rightarrow>
          (case method' of
             MCapabilities \<Rightarrow> (Inr (PCapabilities (svc_capabilities s)), s)
           | MSnapshot \<Rightarrow> (Inr (PSnapshot (visible s peer)), s)
           | MSubscribe \<Rightarrow> (Inr (PSnapshot (visible s peer)), s)
           | MLogs _ \<Rightarrow> (Inr (PLogs (visible_logs peer s)), s)
           | MReserve profile name protocol \<Rightarrow> reserve m peer conn profile name protocol s
           | MStart a handoff \<Rightarrow> start X m conn a handoff s
           | MAuthProgress a \<Rightarrow> auth_progress m conn a s
           | MCancel a \<Rightarrow> cancel_attempt m a s
           | MDisconnect \<Rightarrow> disconnect m conn s
           | MAdminQuiesce _ \<Rightarrow>
               (Inl (new_error AuthorizationDenied ''Invalid administrative dispatch''), s)))"

text \<open>The head of \<open>dispatch\<close> for \<open>AdminQuiesce\<close>. \<open>native\<close> is the native authorization of macOS,
  None when its task failed.\<close>

definition is_root :: "platform \<Rightarrow> peer_identity \<Rightarrow> bool" where
  "is_root P peer \<longleftrightarrow> P \<noteq> Windows \<and> peer = Uid 0"

definition admin_authorized ::
  "platform \<Rightarrow> (string \<Rightarrow> unit result option) \<Rightarrow> peer_identity \<Rightarrow> string option \<Rightarrow> unit result" where
  "admin_authorized P native peer authorization =
     (if is_root P peer then Inr ()
      else if P = Macos then
        rbind (ok_or (new_error AuthorizationDenied
                 ''Native administrator authorization is required'') authorization) (\<lambda>token.
        case native token of
          None \<Rightarrow> Inl (new_error AuthorizationDenied ''Native authorization verification failed'')
        | Some r \<Rightarrow> r)
      else Inl (new_error AuthorizationDenied
             ''Administrator service control is unavailable on this connection''))"

section \<open>The update task of a tunnel\<close>

text \<open>One received update; the flag tells whether the loop ends.\<close>

definition finish_tunnel :: "moment \<Rightarrow> unit result \<Rightarrow> bool \<Rightarrow> service \<Rightarrow> service" where
  "finish_tunnel m result quiescent s =
     (let s = s\<lparr>current := None, snap := (snap s)\<lparr>network := None\<rparr>,
                quiescence_blocked := \<not> quiescent\<rparr>;
          s = (case result of
                 Inr _ \<Rightarrow> s\<lparr>snap := (snap s)\<lparr>sn_state := Disconnected, last_error := None\<rparr>\<rparr>
               | Inl e \<Rightarrow>
                   s\<lparr>recovery_blocked := (code e = RecoveryRequired),
                     snap := (snap s)\<lparr>sn_state :=
                         (if code e = AuthenticationRequired then NeedsAuthentication else Failed),
                       last_error := Some e\<rparr>\<rparr>);
          text = (if \<not> quiescent
                  then ''Tunnel termination is uncertain; network journal retained''
                  else if recovery_blocked s
                  then ''Tunnel stopped; network recovery requires repair''
                  else ''Tunnel stopped'')
      in publish m (Some (text, LogInfo)) s)"

definition apply_update :: "moment \<Rightarrow> uuid \<Rightarrow> update \<Rightarrow> service \<Rightarrow> bool \<times> service" where
  "apply_update m a u s =
     (if (case current s of None \<Rightarrow> True | Some sl \<Rightarrow> attempt sl \<noteq> a) then (True, s)
      else (case u of
        UpdConnected n \<Rightarrow>
          if sn_state (snap s) \<noteq> Disconnecting then
            (False, publish m (Some (''Tunnel and network configuration verified'', LogInfo))
              (s\<lparr>snap := (let sn = (snap s)\<lparr>network := Some n, sn_state := Connected\<rparr>
                          in if session_id sn = None
                             then sn\<lparr>session_id := Some (fresh m), started_at := Some (unix_now m)\<rparr>
                             else sn)\<rparr>))
          else (False, s)
      | UpdReconnecting \<Rightarrow>
          if sn_state (snap s) \<noteq> Disconnecting then
            (False, publish m (Some (''Native tunnel reconnecting'', LogInfo))
              (set_state Reconnecting s))
          else (False, s)
      | UpdTraffic t \<Rightarrow>
          (False, publish m None (s\<lparr>snap := (snap s)\<lparr>traffic := t\<rparr>\<rparr>))
      | UpdFinished result quiescent \<Rightarrow> (True, finish_tunnel m result quiescent s)))"

text \<open>After the loop, when the supervisor task is over.\<close>

definition supervisor_end :: "moment \<Rightarrow> uuid \<Rightarrow> service \<Rightarrow> service" where
  "supervisor_end m a s =
     (if (case current s of None \<Rightarrow> False | Some sl \<Rightarrow> attempt sl = a) then
        publish m (Some (''Tunnel supervisor failed; repair required'', LogError))
          (s\<lparr>current := None, recovery_blocked := True, quiescence_blocked := True,
             snap := (snap s)\<lparr>sn_state := Failed, network := None,
               last_error := Some (new_error RecoveryRequired
                 ''Tunnel supervisor stopped unexpectedly; journal retained for safe repair'')\<rparr>\<rparr>)
      else s)"

section \<open>Administrative teardown\<close>

text \<open>\<open>quiesce\<close> after it took the recovery lock: it stops the service, polls until the slot is
  free, recovers in a task that keeps the lock, and unblocks the service.\<close>

definition quiesce_poll :: "service \<Rightarrow> unit result option" where
  "quiesce_poll s =
     (if current s = None then
        Some (if quiescence_blocked s
              then Inl (new_error RecoveryRequired
                ''Owned process quiescence is uncertain; establish termination before uninstalling'')
              else Inr ())
      else None)"

definition quiesce_finish :: "err list result option \<Rightarrow> service \<Rightarrow> payload result \<times> service" where
  "quiesce_finish recovery s =
     (case recovery of
        None \<Rightarrow> (Inl (new_error RecoveryRequired ''Administrative recovery task failed''), s)
      | Some (Inl e) \<Rightarrow> (Inl e, s)
      | Some (Inr warnings) \<Rightarrow>
          if warnings \<noteq> [] then (Inl (recovery_warning warnings), s)
          else (Inr PAccepted,
                s\<lparr>recovery_blocked := False, snap := (snap s)\<lparr>last_error := None\<rparr>\<rparr>))"

end
