(* ===== verification/DaemonRun.thy ===== *)
theory DaemonRun
  imports Daemon
begin

text \<open>
  The running daemon: the interleaving of its critical sections. Connections, the update task
  of a tunnel, the lease timer, the stop signal and administrative teardowns each take the
  session lock for one section at a time, in any order the scheduler picks. The laws of the
  slot hold in every reachable state.
\<close>

section \<open>The world around the session\<close>

text \<open>A teardown polls for the free slot while it holds the recovery lock, then recovers in a
  task that keeps the lock (the flag: whether its request still waits for it), then is ready
  to unblock the service.\<close>

datatype quiesce_phase = QPolling | QRecovering bool | QRecovered "err list result option"

definition holds_lock :: "quiesce_phase \<Rightarrow> bool" where
  "holds_lock q \<longleftrightarrow> (case q of QRecovered _ \<Rightarrow> False | _ \<Rightarrow> True)"

text \<open>\<open>running\<close>: attempts whose update loop receives; \<open>draining\<close>: attempts whose loop is over and
  which wait for the supervisor task; \<open>used\<close>: identifiers drawn so far.\<close>

record world =
  service_of :: service
  connections :: "(uuid \<times> peer_identity) list"
  running :: "uuid list"
  draining :: "uuid list"
  admins :: "quiesce_phase list"
  used :: "uuid list"
  halting :: bool

definition initial_world :: "service \<Rightarrow> world" where
  "initial_world s = \<lparr>service_of = s, connections = [], running = [], draining = [],
     admins = [], used = [], halting = False\<rparr>"

text \<open>What the supervisor of \<open>Worker\<close> guarantees of an update: when it is not certain that the
  worker is gone, the result is a recovery-required error.\<close>

definition update_contract :: "update \<Rightarrow> bool" where
  "update_contract u \<longleftrightarrow>
     (case u of UpdFinished r q \<Rightarrow> q \<or> (case r of Inl e \<Rightarrow> code e = RecoveryRequired | Inr _ \<Rightarrow> False)
      | _ \<Rightarrow> True)"

definition starts :: "'u ipc_method \<Rightarrow> payload result \<Rightarrow> uuid list" where
  "starts m r = (case (m, r) of (MStart a _, Inr _) \<Rightarrow> [a] | _ \<Rightarrow> [])"

definition is_admin :: "'u ipc_method \<Rightarrow> bool" where
  "is_admin m \<longleftrightarrow> (case m of MAdminQuiesce _ \<Rightarrow> True | _ \<Rightarrow> False)"

inductive step ::
  "'u crates \<Rightarrow> platform \<Rightarrow> (string \<Rightarrow> unit result option) \<Rightarrow> world \<Rightarrow> world \<Rightarrow> bool"
  for X P native where
  accept: "\<not> halting w \<Longrightarrow> len (connections w) < max_connections \<Longrightarrow> c \<notin> set (used w) \<Longrightarrow>
     step X P native w (w\<lparr>connections := (c, p) # connections w, used := c # used w\<rparr>)"
| request: "(c, p) \<in> set (connections w) \<Longrightarrow> \<not> is_admin method' \<Longrightarrow> fresh m \<notin> set (used w) \<Longrightarrow>
     dispatch X m p c method' (service_of w) = (r, s) \<Longrightarrow>
     step X P native w (w\<lparr>service_of := s, used := fresh m # used w,
       running := starts method' r @ running w\<rparr>)"
| close: "(c, p) \<in> set (connections w) \<Longrightarrow>
     step X P native w (w\<lparr>connections := filter (\<lambda>(c', _). c' \<noteq> c) (connections w),
       service_of := connection_closed m c (service_of w)\<rparr>)"
| tick: "\<not> halting w \<Longrightarrow>
     step X P native w (w\<lparr>service_of := lease_tick m (service_of w)\<rparr>)"
| update: "a \<in> set (running w) \<Longrightarrow> update_contract u \<Longrightarrow>
     apply_update m a u (service_of w) = (ended, s) \<Longrightarrow>
     step X P native w (if ended
       then w\<lparr>service_of := s, running := remove1 a (running w), draining := a # draining w\<rparr>
       else w\<lparr>service_of := s\<rparr>)"
| channel_end: "a \<in> set (running w) \<Longrightarrow>
     step X P native w (w\<lparr>running := remove1 a (running w), draining := a # draining w\<rparr>)"
| supervisor: "a \<in> set (draining w) \<Longrightarrow>
     step X P native w (w\<lparr>service_of := supervisor_end m a (service_of w),
       draining := remove1 a (draining w)\<rparr>)"
| stop: "step X P native w (w\<lparr>service_of := stop_service m (service_of w), halting := True\<rparr>)"
| quiesce: "(c, p) \<in> set (connections w) \<Longrightarrow> admin_authorized P native p auth = Inr () \<Longrightarrow>
     list_all (\<lambda>q. \<not> holds_lock q) (admins w) \<Longrightarrow>
     step X P native w (w\<lparr>service_of := stop_service m (service_of w),
       admins := QPolling # admins w\<rparr>)"
| poll: "admins w = xs @ QPolling # ys \<Longrightarrow> quiesce_poll (service_of w) = Some r \<Longrightarrow>
     step X P native w (w\<lparr>admins := xs @ (case r of Inr _ \<Rightarrow> [QRecovering True] | Inl _ \<Rightarrow> []) @ ys\<rparr>)"
| recovered: "admins w = xs @ QRecovering b # ys \<Longrightarrow>
     step X P native w (w\<lparr>admins := xs @ (if b then [QRecovered res] else []) @ ys\<rparr>)"
| abandon: "admins w = xs @ q # ys \<Longrightarrow>
     step X P native w (w\<lparr>admins := xs @ (case q of QRecovering _ \<Rightarrow> [QRecovering False] | _ \<Rightarrow> []) @ ys\<rparr>)"
| unblock: "admins w = xs @ QRecovered res # ys \<Longrightarrow>
     step X P native w (w\<lparr>service_of := snd (quiesce_finish res (service_of w)), admins := xs @ ys\<rparr>)"

inductive reachable ::
  "'u crates \<Rightarrow> platform \<Rightarrow> (string \<Rightarrow> unit result option) \<Rightarrow> world \<Rightarrow> bool"
  for X P native where
  start_up: "startup_recovery recovery = Inr e \<Longrightarrow>
     reachable X P native (initial_world (initial_service i caps e))"
| advance: "reachable X P native w \<Longrightarrow> step X P native w w' \<Longrightarrow> reachable X P native w'"

section \<open>What a section leaves of the slot\<close>

text \<open>The sections seen through the fields the laws speak of.\<close>

lemma publish_fields [simp]:
  "current (publish m msg s) = current s" "last_owner (publish m msg s) = last_owner s"
  "recovery_blocked (publish m msg s) = recovery_blocked s"
  "quiescence_blocked (publish m msg s) = quiescence_blocked s"
  "stopping (publish m msg s) = stopping s" "sn_state (snap (publish m msg s)) = sn_state (snap s)"
  "network (snap (publish m msg s)) = network (snap s)"
  "attempt_id (snap (publish m msg s)) = attempt_id (snap s)"
  "session_id (snap (publish m msg s)) = session_id (snap s)"
  "last_error (snap (publish m msg s)) = last_error (snap s)"
  "svc_capabilities (publish m msg s) = svc_capabilities s"
  "service_instance_id (snap (publish m msg s)) = service_instance_id (snap s)"
  by (simp_all add: publish_def send_def next_sequence_def append_log_def Let_def
      split: option.splits prod.splits)


lemma publish_logs:
  "logs (publish m msg s) =
     (case msg of None \<Rightarrow> logs s
      | Some (text, level) \<Rightarrow> (if len (logs s) = 2000 then tl (logs s) else logs s)
          @ [\<lparr>lr_timestamp = unix_now m, lr_level = level, lr_message = text\<rparr>])"
  by (simp add: publish_def send_def next_sequence_def append_log_def Let_def
      split: option.splits prod.splits)

definition logs_ok :: "log_record list \<Rightarrow> bool" where
  "logs_ok ls \<longleftrightarrow> len ls \<le> 2000"

lemma logs_ok_Nil [simp]: "logs_ok []"
  by (simp add: logs_ok_def)

lemma publish_logs_ok [simp]: "logs_ok (logs s) \<Longrightarrow> logs_ok (logs (publish m msg s))"
  by (auto simp: publish_logs logs_ok_def split: option.splits)

lemma set_state_fields [simp]:
  "current (set_state st s) = current s" "last_owner (set_state st s) = last_owner s"
  "recovery_blocked (set_state st s) = recovery_blocked s"
  "quiescence_blocked (set_state st s) = quiescence_blocked s"
  "stopping (set_state st s) = stopping s" "sn_state (snap (set_state st s)) = st"
  "network (snap (set_state st s)) = network (snap s)"
  "attempt_id (snap (set_state st s)) = attempt_id (snap s)"
  "logs (set_state st s) = logs s"
  "events (set_state st s) = events s" "sequence (snap (set_state st s)) = sequence (snap s)"
  "service_instance_id (snap (set_state st s)) = service_instance_id (snap s)"
  by (simp_all add: set_state_def)

section \<open>The slot as an abstract machine\<close>

text \<open>The contract of the slot: free, held by a peer's connection while it authenticates, or
  taken by the tunnel of an attempt.\<close>

datatype phase =
    Free
  | Held peer_identity uuid uuid
  | Tunnel peer_identity uuid uuid

definition slot_phase :: "slot option \<Rightarrow> phase" where
  "slot_phase x =
     (case x of None \<Rightarrow> Free
      | Some sl \<Rightarrow> if cancel sl = None then Held (owner sl) (connection sl) (attempt sl)
                   else Tunnel (owner sl) (connection sl) (attempt sl))"

definition phase_of :: "service \<Rightarrow> phase" where
  "phase_of s = slot_phase (current s)"

lemma slot_phase_simps [simp]:
  "slot_phase None = Free"
  "cancel sl = None \<Longrightarrow> slot_phase (Some sl) = Held (owner sl) (connection sl) (attempt sl)"
  "cancel sl \<noteq> None \<Longrightarrow> slot_phase (Some sl) = Tunnel (owner sl) (connection sl) (attempt sl)"
  by (simp_all add: slot_phase_def)

lemma slot_phase_Free [simp]: "slot_phase x = Free \<longleftrightarrow> x = None"
  by (auto simp: slot_phase_def split: option.splits if_splits)

lemma slot_phase_Held:
  "slot_phase x = Held p c a \<longleftrightarrow>
     (\<exists>sl. x = Some sl \<and> cancel sl = None \<and> owner sl = p \<and> connection sl = c \<and> attempt sl = a)"
  by (auto simp: slot_phase_def split: option.splits if_splits)

lemma slot_phase_Tunnel:
  "slot_phase x = Tunnel p c a \<longleftrightarrow>
     (\<exists>sl. x = Some sl \<and> cancel sl \<noteq> None \<and> owner sl = p \<and> connection sl = c \<and> attempt sl = a)"
  by (auto simp: slot_phase_def split: option.splits if_splits)

inductive phase_step :: "phase \<Rightarrow> phase \<Rightarrow> bool" where
  reserve_slot: "phase_step Free (Held p c a)"
| start_tunnel: "phase_step (Held p c a) (Tunnel p c a)"
| give_up: "phase_step (Held p c a) Free"
| tunnel_over: "phase_step (Tunnel p c a) Free"
| stay: "phase_step x x"

section \<open>The invariant of the session\<close>

text \<open>Slot, published state and blocking flags agree.\<close>

definition slot_ok :: "service \<Rightarrow> slot \<Rightarrow> bool" where
  "slot_ok s sl \<longleftrightarrow> last_owner s = Some (owner sl) \<and> attempt_id (snap s) = Some (attempt sl)
     \<and> \<not> recovery_blocked s \<and> \<not> quiescence_blocked s
     \<and> (if cancel sl = None then sn_state (snap s) = Authenticating \<and> network (snap s) = None
        else tunnel_state (sn_state (snap s))
           \<and> (sn_state (snap s) = Connecting \<longrightarrow> network (snap s) = None))"

definition session_ok :: "service \<Rightarrow> bool" where
  "session_ok s \<longleftrightarrow> logs_ok (logs s) \<and> (quiescence_blocked s \<longrightarrow> recovery_blocked s)
     \<and> (case current s of
          None \<Rightarrow> idle_state (sn_state (snap s)) \<and> network (snap s) = None
        | Some sl \<Rightarrow> slot_ok s sl)"

lemma session_ok_publish: "session_ok s \<Longrightarrow> session_ok (publish m msg s)"
  by (auto simp: session_ok_def slot_ok_def split: option.splits)

lemma states_simps [simp]:
  "idle_state Disconnected" "idle_state Failed" "idle_state NeedsAuthentication"
  "\<not> idle_state Authenticating" "\<not> tunnel_state Authenticating"
  "tunnel_state Connecting" "tunnel_state Connected" "tunnel_state Reconnecting"
  "tunnel_state Disconnecting"
  "\<not> tunnel_state Disconnected" "\<not> tunnel_state Failed" "\<not> tunnel_state NeedsAuthentication"
  by (simp_all add: idle_state_def tunnel_state_def)

lemma cancel_ok: "session_ok s \<Longrightarrow> session_ok (session_cancel m s)"
  unfolding session_cancel_def
  by (auto simp: session_ok_def slot_ok_def intro!: session_ok_publish split: option.splits)

lemma cancel_phase:
  "phase_of (session_cancel m s) = (case phase_of s of Held _ _ _ \<Rightarrow> Free | x \<Rightarrow> x)"
  by (auto simp: phase_of_def session_cancel_def split: option.splits)

lemma cancel_frame [simp]:
  "stopping (session_cancel m s) = stopping s"
  "quiescence_blocked (session_cancel m s) = quiescence_blocked s"
  "recovery_blocked (session_cancel m s) = recovery_blocked s"
  by (simp_all add: session_cancel_def split: option.splits)

lemma cancel_state:
  "sn_state (snap (session_cancel m s)) =
     (case phase_of s of Free \<Rightarrow> sn_state (snap s) | Held _ _ _ \<Rightarrow> Disconnected
      | Tunnel _ _ _ \<Rightarrow> Disconnecting)"
  by (auto simp: phase_of_def session_cancel_def split: option.splits)

lemma cancel_cases:
  assumes "s' = s \<or> s' = session_cancel m s"
  shows "session_ok s \<Longrightarrow> session_ok s'" and "phase_step (phase_of s) (phase_of s')"
    and "stopping s' = stopping s" and "quiescence_blocked s' = quiescence_blocked s"
    and "recovery_blocked s' = recovery_blocked s"
  using assms cancel_ok by (auto simp: cancel_phase intro: phase_step.intros split: phase.splits)


section \<open>The sections\<close>

text \<open>The flags that no request changes.\<close>

definition same_flags :: "service \<Rightarrow> service \<Rightarrow> bool" where
  "same_flags s s' \<longleftrightarrow> stopping s' = stopping s \<and> recovery_blocked s' = recovery_blocked s
     \<and> quiescence_blocked s' = quiescence_blocked s"

lemma same_flags_refl [simp]: "same_flags s s"
  by (simp add: same_flags_def)

lemma same_flags_cancel [simp]: "same_flags s (session_cancel m s)"
  by (simp add: same_flags_def)

lemma lease_tick_is:
  "lease_tick m s = s \<or> lease_tick m s = session_cancel m s \<and> (\<exists>p c a. phase_of s = Held p c a)"
  by (auto simp: lease_tick_def phase_of_def split: option.splits)

lemma connection_closed_is:
  "connection_closed m c s = s \<or> connection_closed m c s = session_cancel m s"
  by (simp add: connection_closed_def split: option.splits)

definition granted_service ::
  "moment \<Rightarrow> peer_identity \<Rightarrow> uuid \<Rightarrow> uuid \<Rightarrow> string \<Rightarrow> string \<Rightarrow> service \<Rightarrow> service" where
  "granted_service m peer conn profile name protocol s =
     s\<lparr>logs := [], last_owner := Some peer,
       snap := (snap s)\<lparr>sn_state := Authenticating, profile_id := Some profile,
         profile_name := Some name, attempt_id := Some (fresh m), session_id := None,
         started_at := None, network := None, traffic := no_traffic, last_error := None\<rparr>,
       current := Some \<lparr>owner = peer, connection = conn, attempt = fresh m,
         sl_protocol = protocol, lease = instant m, cancel = None\<rparr>\<rparr>"

lemma granted_facts:
  "current (granted_service m p c pid name proto s) = Some \<lparr>owner = p, connection = c,
     attempt = fresh m, sl_protocol = proto, lease = instant m, cancel = None\<rparr>"
  "last_owner (granted_service m p c pid name proto s) = Some p"
  "sn_state (snap (granted_service m p c pid name proto s)) = Authenticating"
  "stopping (granted_service m p c pid name proto s) = stopping s"
  "recovery_blocked (granted_service m p c pid name proto s) = recovery_blocked s"
  "quiescence_blocked (granted_service m p c pid name proto s) = quiescence_blocked s"
  "session_ok s \<Longrightarrow> \<not> recovery_blocked s \<Longrightarrow> session_ok (granted_service m p c pid name proto s)"
  by (auto simp: granted_service_def session_ok_def slot_ok_def)

lemma reserve_cases:
  assumes "reserve m p c pid name proto s = (r, s')"
  obtains (refused) e where "s' = s" and "r = Inl e"
  | (granted) "current s = None" and "\<not> stopping s" and "\<not> recovery_blocked s"
      and "r = Inr (PReserved (fresh m))" and "phase_of s' = Held p c (fresh m)"
      and "same_flags s s'" and "session_ok s \<Longrightarrow> session_ok s'"
      and "sn_state (snap s') = Authenticating" and "last_owner s' = Some p"
proof (cases "\<not> stopping s \<and> \<not> recovery_blocked s \<and> current s = None \<and> \<not> bad_reservation pid name
    \<and> list_ex (\<lambda>p. pi_id p = proto) (protocols (svc_capabilities s))")
  case True
  then have "r = Inr (PReserved (fresh m))"
    and s': "s' = publish m (Some (''Authentication reservation created'', LogInfo))
             (granted_service m p c pid name proto s)"
    using assms unfolding reserve_def granted_service_def by simp_all
  then show thesis
    using True by (intro granted)
      (simp_all add: phase_of_def same_flags_def session_ok_publish granted_facts)
next
  case False
  then have "s' = s \<and> (\<exists>e. r = Inl e)"
    using assms unfolding reserve_def granted_service_def [symmetric]
    by (simp split: if_splits) blast+
  then show thesis using refused by blast
qed

lemma start_cases:
  assumes "start X m c a h s = (r, s')"
  obtains (refused) e where "s' = s" and "r = Inl e"
  | (started) p where "phase_of s = Held p c a" and "r = Inr PAccepted"
      and "phase_of s' = Tunnel p c a"
      and "same_flags s s'" and "session_ok s \<Longrightarrow> session_ok s'"
      and "sn_state (snap s') = Connecting"
      and "\<exists>sl. current s = Some sl \<and> sl_protocol sl = ho_protocol h
           \<and> elapsed (instant m) sl < lease_limit"
      and "handoff_validate X (fresh m) (protocols (svc_capabilities s)) (unix_now m) h = Inr ()"
proof (cases "r")
  case (Inl e)
  then show thesis
    using assms unfolding start_def
    by (intro refused) (simp_all split: if_splits option.splits sum.splits)
next
  case (Inr x)
  with assms obtain sl where sl: "current s = Some sl" "attempt sl = a" "connection sl = c" "cancel sl = None"
    "elapsed (instant m) sl < lease_limit" "sl_protocol sl = ho_protocol h"
    and v: "handoff_validate X (fresh m) (protocols (svc_capabilities s)) (unix_now m) h = Inr ()"
    and s': "s' = publish m (Some (''Starting authenticated tunnel'', LogInfo))
               (set_state Connecting (s\<lparr>current := Some (sl\<lparr>cancel := Some False\<rparr>)\<rparr>))"
    and r: "r = Inr PAccepted"
    unfolding start_def by (simp split: if_splits option.splits sum.splits)
  show thesis
  proof (rule started [of "owner sl"])
    show "session_ok s'" if "session_ok s"
      using that sl unfolding s' by (intro session_ok_publish) (simp add: session_ok_def slot_ok_def)
  qed (use sl v r in \<open>simp_all add: phase_of_def s' same_flags_def\<close>)
qed

lemma auth_progress_cases:
  assumes "auth_progress m c a s = (r, s')"
  obtains (refused) e where "s' = s" and "r = Inl e"
  | (renewed) sl where "r = Inr PAccepted" and "current s = Some sl" and "attempt sl = a"
      and "connection sl = c" and "elapsed (instant m) sl < lease_limit"
      and "s' = s\<lparr>current := Some (sl\<lparr>lease := instant m\<rparr>)\<rparr>"
proof (cases r)
  case (Inl e)
  then show thesis
    using assms unfolding auth_progress_def
    by (intro refused) (simp_all split: if_splits option.splits)
next
  case (Inr x)
  with assms obtain sl where "current s = Some sl" "attempt sl = a" "connection sl = c"
    "elapsed (instant m) sl < lease_limit" "s' = s\<lparr>current := Some (sl\<lparr>lease := instant m\<rparr>)\<rparr>"
    "r = Inr PAccepted"
    unfolding auth_progress_def by (simp split: if_splits option.splits)
  then show thesis by (intro renewed)
qed

lemma renewed_frame:
  assumes "current s = Some sl" and "s' = s\<lparr>current := Some (sl\<lparr>lease := i\<rparr>)\<rparr>"
  shows "phase_of s' = phase_of s" and "same_flags s s'" and "session_ok s \<Longrightarrow> session_ok s'"
    and "snap s' = snap s"
  using assms by (auto simp: phase_of_def same_flags_def slot_phase_def session_ok_def slot_ok_def)

lemma dispatch_cases:
  assumes "dispatch X m p c method' s = (r, s')"
  obtains (unchanged) "s' = s" and "starts method' r = []"
  | (granted) "phase_of s = Free" and "\<not> stopping s" and "\<not> recovery_blocked s"
      and "phase_of s' = Held p c (fresh m)" and "same_flags s s'"
      and "session_ok s \<Longrightarrow> session_ok s'" and "sn_state (snap s') = Authenticating"
      and "starts method' r = []"
  | (started) a h where "method' = MStart a h" and "phase_of s = Held p c a"
      and "phase_of s' = Tunnel p c a" and "same_flags s s'"
      and "session_ok s \<Longrightarrow> session_ok s'" and "sn_state (snap s') = Connecting"
      and "starts method' r = [a]"
  | (renewed) "phase_of s' = phase_of s" and "same_flags s s'"
      and "session_ok s \<Longrightarrow> session_ok s'" and "snap s' = snap s" and "starts method' r = []"
  | (cancelled) "s' = session_cancel m s" and "starts method' r = []"
proof (cases "authorize s p")
  case (Inl e)
  with assms show thesis
    by (intro unchanged) (auto simp: dispatch_def starts_def split: ipc_method.splits)
next
  case (Inr u)
  have auth: "phase_of s = Held q c a \<Longrightarrow> q = p" for q a
    using Inr by (auto simp: authorize_def phase_of_def slot_phase_Held split: if_splits)
  note d = assms [unfolded dispatch_def Inr, simplified]
  show thesis
  proof (cases method')
    case (MReserve pid name proto)
    with d have "reserve m p c pid name proto s = (r, s')" by simp
    then show thesis
      by (cases rule: reserve_cases) (use MReserve in \<open>auto simp: starts_def phase_of_def intro: unchanged granted\<close>)
  next
    case (MStart a h)
    with d have "start X m c a h s = (r, s')" by simp
    then show thesis
    proof (cases rule: start_cases)
      case (refused e)
      then show thesis using MStart by (intro unchanged) (auto simp: starts_def)
    next
      case (started q)
      with auth have "q = p" by blast
      with started MStart show thesis by (intro that(3) [of a h]) (auto simp: starts_def)
    qed
  next
    case (MAuthProgress a)
    with d have "auth_progress m c a s = (r, s')" by simp
    then show thesis
    proof (cases rule: auth_progress_cases)
      case (refused e)
      then show thesis using MAuthProgress by (intro unchanged) (auto simp: starts_def)
    next
      case (renewed sl)
      from renewed_frame [OF renewed(2,6)] MAuthProgress show thesis
        by (intro that(4)) (auto simp: starts_def)
    qed
  next
    case (MCancel a)
    with d have "s' = s \<or> s' = session_cancel m s"
      by (auto simp: cancel_attempt_def split: option.splits if_splits)
    then show thesis using MCancel by (auto simp: starts_def intro: unchanged cancelled)
  next
    case MDisconnect
    with d have "s' = s \<or> s' = session_cancel m s"
      by (auto simp: disconnect_def split: option.splits if_splits)
    then show thesis using MDisconnect by (auto simp: starts_def intro: unchanged cancelled)
  qed (use d in \<open>auto simp: starts_def intro: unchanged\<close>)
qed

lemma apply_update_cases:
  assumes "apply_update m a u s = (ended, s')" and "phase_of s = Tunnel p c a"
    and "session_ok s" and "update_contract u"
  obtains (running) "\<not> ended" and "phase_of s' = Tunnel p c a" and "same_flags s s'" and "session_ok s'"
      and "sn_state (snap s') \<noteq> Connecting \<or> sn_state (snap s') = sn_state (snap s)"
  | (finished) "ended" and "phase_of s' = Free" and "stopping s' = stopping s" and "session_ok s'"
proof -
  obtain sl where sl: "current s = Some sl" "cancel sl \<noteq> None" "attempt sl = a"
    "owner sl = p" "connection sl = c"
    using assms(2) by (auto simp: phase_of_def slot_phase_Tunnel)
  note ok = assms(3) [unfolded session_ok_def sl(1), simplified]
  have ok': "slot_ok s sl" "logs_ok (logs s)" using ok by auto
  show thesis
  proof (cases u)
    case (UpdFinished result q)
    have "session_ok (finish_tunnel m result q s)"
      using ok' assms(4) sl UpdFinished
      unfolding finish_tunnel_def Let_def
      by (intro session_ok_publish)
         (auto simp: session_ok_def slot_ok_def update_contract_def split: sum.splits if_splits)
    moreover have "current (finish_tunnel m result q s) = None"
      "stopping (finish_tunnel m result q s) = stopping s"
      by (auto simp: finish_tunnel_def Let_def split: sum.splits)
    ultimately show thesis
      using assms(1) sl UpdFinished by (intro finished) (auto simp: apply_update_def phase_of_def)
  next
    case (UpdConnected n)
    then show thesis
      using assms(1) sl ok' by (intro running)
        (auto simp: apply_update_def phase_of_def slot_phase_Tunnel same_flags_def Let_def
           session_ok_def slot_ok_def split: if_splits)
  next
    case UpdReconnecting
    then show thesis
      using assms(1) sl ok' by (intro running)
        (auto simp: apply_update_def phase_of_def slot_phase_Tunnel same_flags_def
           session_ok_def slot_ok_def split: if_splits)
  next
    case (UpdTraffic t)
    then show thesis
      using assms(1) sl ok' by (intro running)
        (auto simp: apply_update_def phase_of_def slot_phase_Tunnel same_flags_def
           session_ok_def slot_ok_def split: if_splits)
  qed
qed

lemma supervisor_end_cases:
  "supervisor_end m a s = s \<or>
     (\<exists>sl. current s = Some sl \<and> attempt sl = a) \<and> phase_of (supervisor_end m a s) = Free
     \<and> stopping (supervisor_end m a s) = stopping s
     \<and> (session_ok s \<longrightarrow> session_ok (supervisor_end m a s))"
  by (auto simp: supervisor_end_def phase_of_def session_ok_def split: option.splits)

lemma stop_service_facts:
  "session_ok s \<Longrightarrow> session_ok (stop_service m s)" "stopping (stop_service m s)"
  "phase_of (stop_service m s) = (case phase_of s of Held _ _ _ \<Rightarrow> Free | x \<Rightarrow> x)"
  "quiescence_blocked (stop_service m s) = quiescence_blocked s"
  "recovery_blocked (stop_service m s) = recovery_blocked s"
proof -
  show "session_ok s \<Longrightarrow> session_ok (stop_service m s)"
    unfolding stop_service_def by (rule cancel_ok) (auto simp: session_ok_def slot_ok_def split: option.splits)
  have "phase_of (s\<lparr>stopping := True\<rparr>) = phase_of s" by (simp add: phase_of_def)
  then show "phase_of (stop_service m s) = (case phase_of s of Held _ _ _ \<Rightarrow> Free | x \<Rightarrow> x)"
    unfolding stop_service_def cancel_phase by simp
qed (simp_all add: stop_service_def)

lemma quiesce_finish_facts:
  assumes "(r, s') = quiesce_finish res s"
  shows "phase_of s' = phase_of s" and "stopping s' = stopping s"
    and "quiescence_blocked s' = quiescence_blocked s"
    and "session_ok s \<Longrightarrow> \<not> quiescence_blocked s \<Longrightarrow> session_ok s'"
  using assms
  by (auto simp: quiesce_finish_def phase_of_def session_ok_def slot_ok_def
      split: option.splits sum.splits if_splits)


section \<open>The invariant of the world\<close>

text \<open>Tunnels: an update loop that receives serves the attempt of the slot; a started attempt
  keeps a task until the slot is free; identifiers are drawn once.\<close>

definition tasks_ok :: "phase \<Rightarrow> uuid list \<Rightarrow> uuid list \<Rightarrow> uuid list \<Rightarrow> bool" where
  "tasks_ok ph run dr us \<longleftrightarrow> distinct (run @ dr) \<and> set run \<union> set dr \<subseteq> set us
     \<and> (\<forall>a \<in> set run. \<exists>p c. ph = Tunnel p c a)
     \<and> (case ph of Free \<Rightarrow> True
        | Held p c a \<Rightarrow> a \<in> set us \<and> a \<notin> set run \<union> set dr
        | Tunnel p c a \<Rightarrow> a \<in> set run \<union> set dr)"

text \<open>Connections: at most the limit; a reservation that authenticates or connects belongs to
  an open connection of its owner.\<close>

definition conns_ok ::
  "phase \<Rightarrow> connection_state \<Rightarrow> (uuid \<times> peer_identity) list \<Rightarrow> uuid list \<Rightarrow> bool" where
  "conns_ok ph st cs us \<longleftrightarrow> distinct (map fst cs) \<and> fst ` set cs \<subseteq> set us \<and> len cs \<le> max_connections
     \<and> (case ph of Free \<Rightarrow> True
        | Held p c a \<Rightarrow> (c, p) \<in> set cs
        | Tunnel p c a \<Rightarrow> st = Connecting \<longrightarrow> (c, p) \<in> set cs)"

text \<open>Teardowns: one at a time holds the recovery lock, the service is stopping, and past the
  polling the slot is free and quiescence is certain.\<close>

definition past_poll :: "quiesce_phase \<Rightarrow> bool" where
  "past_poll q \<longleftrightarrow> q \<noteq> QPolling"

definition admins_ok :: "phase \<Rightarrow> bool \<Rightarrow> bool \<Rightarrow> quiesce_phase list \<Rightarrow> bool \<Rightarrow> bool" where
  "admins_ok ph stp qb qs halt \<longleftrightarrow> length (filter holds_lock qs) \<le> 1
     \<and> (qs \<noteq> [] \<or> halt \<longrightarrow> stp) \<and> (list_ex past_poll qs \<longrightarrow> ph = Free \<and> \<not> qb)"

definition world_ok :: "world \<Rightarrow> bool" where
  "world_ok w \<longleftrightarrow>
     (let s = service_of w in session_ok s
      \<and> tasks_ok (phase_of s) (running w) (draining w) (used w)
      \<and> conns_ok (phase_of s) (sn_state (snap s)) (connections w) (used w)
      \<and> admins_ok (phase_of s) (stopping s) (quiescence_blocked s) (admins w) (halting w))"

lemma world_okI:
  assumes "session_ok (service_of w)"
    and "tasks_ok (phase_of (service_of w)) (running w) (draining w) (used w)"
    and "conns_ok (phase_of (service_of w)) (sn_state (snap (service_of w))) (connections w) (used w)"
    and "admins_ok (phase_of (service_of w)) (stopping (service_of w))
           (quiescence_blocked (service_of w)) (admins w) (halting w)"
  shows "world_ok w"
  using assms by (simp add: world_ok_def Let_def)

lemma world_okD:
  assumes "world_ok w"
  shows "session_ok (service_of w)"
    and "tasks_ok (phase_of (service_of w)) (running w) (draining w) (used w)"
    and "conns_ok (phase_of (service_of w)) (sn_state (snap (service_of w))) (connections w) (used w)"
    and "admins_ok (phase_of (service_of w)) (stopping (service_of w))
           (quiescence_blocked (service_of w)) (admins w) (halting w)"
  using assms by (simp_all add: world_ok_def Let_def)

text \<open>How the parts move with the phase.\<close>

lemma tasks_ok_used: "tasks_ok ph run dr us \<Longrightarrow> tasks_ok ph run dr (x # us)"
  by (auto simp: tasks_ok_def split: phase.splits)

lemma tasks_ok_release:
  "tasks_ok (Held p c a) run dr us \<Longrightarrow> tasks_ok Free run dr us"
  by (simp add: tasks_ok_def)

lemma tasks_ok_cancel:
  "tasks_ok ph run dr us \<Longrightarrow> tasks_ok (case ph of Held _ _ _ \<Rightarrow> Free | x \<Rightarrow> x) run dr us"
  by (auto simp: tasks_ok_def split: phase.splits)

lemma tasks_ok_grant:
  "tasks_ok Free run dr us \<Longrightarrow> a \<notin> set us \<Longrightarrow> tasks_ok (Held p c a) run dr (a # us)"
  by (auto simp: tasks_ok_def)

lemma tasks_ok_start:
  "tasks_ok (Held p c a) run dr us \<Longrightarrow> tasks_ok (Tunnel p c a) (a # run) dr us"
  by (auto simp: tasks_ok_def)

lemma tasks_ok_drain:
  assumes "tasks_ok ph run dr us" and "a \<in> set run"
  shows "tasks_ok ph (remove1 a run) (a # dr) us" and "tasks_ok Free (remove1 a run) (a # dr) us"
proof -
  obtain p c where ph: "ph = Tunnel p c a" using assms by (auto simp: tasks_ok_def)
  have d: "distinct run" "distinct dr" "set run \<inter> set dr = {}" "set run \<union> set dr \<subseteq> set us"
    using assms(1) by (auto simp: tasks_ok_def)
  have "set run \<subseteq> {a}" using assms(1) ph by (auto simp: tasks_ok_def)
  then have r: "set (remove1 a run) = {}" using d(1) by (auto simp: set_remove1_eq)
  then show "tasks_ok ph (remove1 a run) (a # dr) us" "tasks_ok Free (remove1 a run) (a # dr) us"
    using d assms(2) ph by (auto simp: tasks_ok_def)
qed

lemma tasks_ok_distinct:
  "tasks_ok ph run dr us \<Longrightarrow> distinct run \<and> distinct dr \<and> set run \<inter> set dr = {} \<and> set run \<union> set dr \<subseteq> set us"
  by (simp add: tasks_ok_def)

lemma tasks_ok_run:
  "tasks_ok (Tunnel p c a) run dr us \<Longrightarrow> a \<in> set dr \<Longrightarrow> run = []"
  by (cases run) (auto simp: tasks_ok_def)

lemma tasks_ok_remove1:
  assumes "tasks_ok ph run dr us"
  shows "distinct (run @ remove1 a dr)" and "set run \<union> set (remove1 a dr) \<subseteq> set us"
    and "set (remove1 a dr) = set dr - {a}"
proof -
  note d = tasks_ok_distinct [OF assms]
  show r: "set (remove1 a dr) = set dr - {a}" using d by (simp add: set_remove1_eq)
  show "distinct (run @ remove1 a dr)" "set run \<union> set (remove1 a dr) \<subseteq> set us"
    using d unfolding distinct_append r by auto
qed

lemma tasks_ok_ended:
  "tasks_ok (Tunnel p c a) run dr us \<Longrightarrow> a \<in> set dr \<Longrightarrow> tasks_ok Free run (remove1 a dr) us"
  using tasks_ok_remove1 [of "Tunnel p c a" run dr us a] tasks_ok_run [of p c a run dr us]
  by (simp add: tasks_ok_def [of Free])

lemma tasks_ok_other:
  assumes "tasks_ok ph run dr us" and "\<And>p c. ph \<noteq> Tunnel p c a"
  shows "tasks_ok ph run (remove1 a dr) us"
proof (cases ph)
  case (Tunnel p c b)
  then have "b \<noteq> a" using assms(2) by blast
  with assms(1) tasks_ok_remove1 [OF assms(1), of a] Tunnel show ?thesis
    by (simp add: tasks_ok_def)
qed (use assms(1) tasks_ok_remove1 [OF assms(1), of a] in \<open>simp_all add: tasks_ok_def\<close>)

lemma conns_ok_cancel:
  "conns_ok ph st cs us \<Longrightarrow> st' = (case ph of Free \<Rightarrow> st | Held _ _ _ \<Rightarrow> Disconnected | Tunnel _ _ _ \<Rightarrow> Disconnecting)
    \<Longrightarrow> conns_ok (case ph of Held _ _ _ \<Rightarrow> Free | x \<Rightarrow> x) st' cs us"
  by (auto simp: conns_ok_def split: phase.splits)

lemma conns_ok_used: "conns_ok ph st cs us \<Longrightarrow> conns_ok ph st cs (x # us)"
  by (auto simp: conns_ok_def split: phase.splits)

lemma conns_ok_Free: "conns_ok ph st cs us \<Longrightarrow> conns_ok Free st' cs us"
  by (simp add: conns_ok_def)

lemma admins_ok_frame:
  assumes "admins_ok ph stp qb qs halt" and "ph = Free \<Longrightarrow> stp \<Longrightarrow> ph' = Free \<and> qb' = qb"
    and "stp \<Longrightarrow> stp'"
  shows "admins_ok ph' stp' qb' qs halt"
proof -
  have "qs \<noteq> []" if "list_ex past_poll qs" using that by auto
  then show ?thesis using assms by (auto simp: admins_ok_def)
qed

lemma admins_ok_replace:
  assumes "admins_ok ph stp qb (xs @ q # ys) halt"
    and "list_all (\<lambda>r. holds_lock r \<longrightarrow> holds_lock q) rs" and "length rs \<le> 1"
    and "list_ex past_poll rs \<Longrightarrow> past_poll q \<or> ph = Free \<and> \<not> qb"
  shows "admins_ok ph stp qb (xs @ rs @ ys) halt"
proof (cases rs)
  case Nil
  then show ?thesis using assms(1) by (auto simp: admins_ok_def split: if_splits)
next
  case (Cons r rs')
  then have "rs = [r]" using assms(3) by simp
  then show ?thesis using assms(1,2,4) by (auto simp: admins_ok_def split: if_splits)
qed

lemma cancelled_world:
  assumes "world_ok w" and s: "s = service_of w"
  shows "world_ok (w\<lparr>service_of := session_cancel m s\<rparr>)"
proof (rule world_okI)
  show "session_ok (service_of (w\<lparr>service_of := session_cancel m s\<rparr>))"
    using world_okD(1) [OF assms(1)] by (simp add: s cancel_ok)
qed (use world_okD(2-4) [OF assms(1)] in
    \<open>auto simp: s cancel_phase cancel_state intro: tasks_ok_cancel conns_ok_cancel
       elim!: admins_ok_frame\<close>)

section \<open>Every section keeps the invariant\<close>

lemma world_ok_stop:
  assumes "world_ok w"
  shows "world_ok (w\<lparr>service_of := stop_service m (service_of w)\<rparr>)"
proof -
  have "world_ok (w\<lparr>service_of := (service_of w)\<lparr>stopping := True\<rparr>\<rparr>)"
    using world_okD [OF assms]
    by (intro world_okI)
       (auto simp: phase_of_def session_ok_def slot_ok_def elim!: admins_ok_frame split: option.splits)
  from cancelled_world [OF this refl, of m] show ?thesis by (simp add: stop_service_def)
qed

lemma world_ok_request:
  assumes ok: "world_ok w" and conn: "(c, p) \<in> set (connections w)" and new: "fresh m \<notin> set (used w)"
    and d: "dispatch X m p c method' (service_of w) = (r, s)"
  shows "world_ok (w\<lparr>service_of := s, used := fresh m # used w,
           running := starts method' r @ running w\<rparr>)"
  using d
proof (cases rule: dispatch_cases)
  case unchanged
  then show ?thesis using world_okD [OF ok]
    by (intro world_okI) (auto intro: tasks_ok_used conns_ok_used)
next
  case granted
  note ok' = world_okD [OF ok, unfolded granted(1)]
  show ?thesis
  proof (rule world_okI)
    show "conns_ok (phase_of (service_of (w\<lparr>service_of := s, used := fresh m # used w,
           running := starts method' r @ running w\<rparr>)))
          (sn_state (snap (service_of (w\<lparr>service_of := s, used := fresh m # used w,
           running := starts method' r @ running w\<rparr>))))
          (connections (w\<lparr>service_of := s, used := fresh m # used w,
           running := starts method' r @ running w\<rparr>))
          (used (w\<lparr>service_of := s, used := fresh m # used w,
           running := starts method' r @ running w\<rparr>))"
      using ok'(3) conn granted(4) by (auto simp: conns_ok_def)
  qed (use ok' granted new in \<open>auto simp: same_flags_def intro: tasks_ok_grant elim!: admins_ok_frame\<close>)
next
  case (started a h)
  note ok' = world_okD [OF ok, unfolded started(2)]
  show ?thesis
  proof (rule world_okI)
    show "conns_ok (phase_of (service_of (w\<lparr>service_of := s, used := fresh m # used w,
           running := starts method' r @ running w\<rparr>)))
          (sn_state (snap (service_of (w\<lparr>service_of := s, used := fresh m # used w,
           running := starts method' r @ running w\<rparr>))))
          (connections (w\<lparr>service_of := s, used := fresh m # used w,
           running := starts method' r @ running w\<rparr>))
          (used (w\<lparr>service_of := s, used := fresh m # used w,
           running := starts method' r @ running w\<rparr>))"
      using ok'(3) started(3) by (auto simp: conns_ok_def)
  qed (use ok' started in \<open>auto simp: same_flags_def intro: tasks_ok_used tasks_ok_start elim!: admins_ok_frame\<close>)
next
  case renewed
  then show ?thesis using world_okD [OF ok]
    by (intro world_okI) (auto simp: same_flags_def intro: tasks_ok_used conns_ok_used)
next
  case cancelled
  have "world_ok (w\<lparr>used := fresh m # used w\<rparr>)"
    using world_okD [OF ok] by (intro world_okI) (auto intro: tasks_ok_used conns_ok_used)
  from world_okD [OF cancelled_world [OF this refl, of m]] cancelled show ?thesis
    by (intro world_okI) simp_all
qed

lemma world_ok_close:
  assumes ok: "world_ok w"
  shows "world_ok (w\<lparr>connections := filter (\<lambda>(c', _). c' \<noteq> c) (connections w),
       service_of := connection_closed m c (service_of w)\<rparr>)"
proof -
  let ?s = "service_of w" and ?s' = "connection_closed m c (service_of w)"
  have ok': "world_ok (w\<lparr>service_of := ?s'\<rparr>)"
    using connection_closed_is [of m c ?s] cancelled_world [OF ok refl, of m] ok by auto
  have away: "phase_of ?s' \<noteq> Held p c a" for p a
    by (auto simp: connection_closed_def phase_of_def slot_phase_Held session_cancel_def
        split: option.splits if_splits)
       (use world_okD(1) [OF ok] in \<open>auto simp: session_ok_def slot_ok_def\<close>)
  have away': "sn_state (snap ?s') \<noteq> Connecting" if "phase_of ?s' = Tunnel p c a" for p a
    using that
    by (auto simp: connection_closed_def phase_of_def slot_phase_Tunnel session_cancel_def
        split: option.splits if_splits)
  have "conns_ok (phase_of ?s') (sn_state (snap ?s')) (filter (\<lambda>(c', _). c' \<noteq> c) (connections w)) (used w)"
    using world_okD(3) [OF ok'] away away'
      le_trans [OF length_filter_le [of "\<lambda>(c', _). c' \<noteq> c" "connections w"]]
    by (auto simp: conns_ok_def distinct_map_filter max_connections_def split: phase.splits)
  then show ?thesis using world_okD [OF ok'] by (intro world_okI) simp_all
qed


lemma world_ok_update:
  assumes ok: "world_ok w" and a: "a \<in> set (running w)" and u: "update_contract u"
    and d: "apply_update m a u (service_of w) = (ended, s)"
  shows "world_ok (if ended
       then w\<lparr>service_of := s, running := remove1 a (running w), draining := a # draining w\<rparr>
       else w\<lparr>service_of := s\<rparr>)"
proof -
  note ok' = world_okD [OF ok]
  obtain p c where t: "phase_of (service_of w) = Tunnel p c a"
    using ok'(2) a by (auto simp: tasks_ok_def)
  from d t ok'(1) u show ?thesis
  proof (cases rule: apply_update_cases)
    case running
    have "conns_ok (phase_of s) (sn_state (snap s)) (connections w) (used w)"
      using ok'(3) running(5) t running(2) by (auto simp: conns_ok_def)
    with running ok'(2,4) t show ?thesis
      by (intro world_okI) (simp_all add: same_flags_def)
  next
    case finished
    have "admins_ok (phase_of s) (stopping s) (quiescence_blocked s) (admins w) (halting w)"
      using ok'(4) by (rule admins_ok_frame) (use t finished in simp_all)
    then show ?thesis
      using finished ok' a
      by (intro world_okI) (auto intro: tasks_ok_drain(2) conns_ok_Free)
  qed
qed

lemma world_ok_channel_end:
  assumes ok: "world_ok w" and a: "a \<in> set (running w)"
  shows "world_ok (w\<lparr>running := remove1 a (running w), draining := a # draining w\<rparr>)"
  using world_okD [OF ok] a by (intro world_okI) (auto intro: tasks_ok_drain(1))

lemma world_ok_supervisor:
  assumes ok: "world_ok w" and a: "a \<in> set (draining w)"
  shows "world_ok (w\<lparr>service_of := supervisor_end m a (service_of w),
       draining := remove1 a (draining w)\<rparr>)"
proof -
  let ?s = "service_of w" and ?s' = "supervisor_end m a (service_of w)"
  note ok' = world_okD [OF ok]
  have held: "phase_of ?s \<noteq> Held p c a" for p c
    using ok'(2) a by (auto simp: tasks_ok_def)
  consider (other) "?s' = ?s" "\<forall>p c. phase_of ?s \<noteq> Tunnel p c a"
    | (ended) "phase_of ?s' = Free" "stopping ?s' = stopping ?s" "session_ok ?s'"
        "\<exists>p c. phase_of ?s = Tunnel p c a"
  proof (cases "\<exists>sl. current ?s = Some sl \<and> attempt sl = a")
    case True
    then obtain sl where "current ?s = Some sl" "attempt sl = a" by blast
    with held [of "owner sl" "connection sl"] have "\<exists>p c. phase_of ?s = Tunnel p c a"
      by (cases "cancel sl") (simp_all add: phase_of_def)
    then show thesis
      using True supervisor_end_cases [of m a ?s] ok'(1)
      by (intro ended) (auto simp: supervisor_end_def phase_of_def)
  next
    case False
    then show thesis
      by (intro other) (auto simp: supervisor_end_def phase_of_def slot_phase_Tunnel split: option.splits)
  qed
  then show ?thesis
  proof cases
    case other
    with ok' tasks_ok_other [OF ok'(2), of a] show ?thesis
      by (intro world_okI) simp_all
  next
    case ended
    have adm: "admins_ok (phase_of ?s') (stopping ?s') (quiescence_blocked ?s') (admins w) (halting w)"
      using ok'(4) by (rule admins_ok_frame) (use ended in auto)
    obtain p c where "phase_of ?s = Tunnel p c a" using ended(4) by blast
    with ok'(2) have "tasks_ok Free (running w) (remove1 a (draining w)) (used w)"
      using a by (auto intro: tasks_ok_ended)
    with ended ok' adm show ?thesis
      by (intro world_okI) (auto intro: conns_ok_Free)
  qed
qed

lemma world_ok_unblock:
  assumes ok: "world_ok w" and q: "admins w = xs @ QRecovered res # ys"
  shows "world_ok (w\<lparr>service_of := snd (quiesce_finish res (service_of w)), admins := xs @ ys\<rparr>)"
proof -
  let ?s = "service_of w" and ?s' = "snd (quiesce_finish res (service_of w))"
  note ok' = world_okD [OF ok]
  have free: "phase_of ?s = Free" "\<not> quiescence_blocked ?s"
    using ok'(4) q by (auto simp: admins_ok_def past_poll_def)
  have f: "(fst (quiesce_finish res ?s), ?s') = quiesce_finish res ?s" by simp
  note facts = quiesce_finish_facts [OF f]
  have "admins_ok (phase_of ?s) (stopping ?s) (quiescence_blocked ?s) (xs @ [] @ ys) (halting w)"
    using ok'(4) q by (intro admins_ok_replace [where q = "QRecovered res"]) auto
  then show ?thesis
    using ok' facts free by (intro world_okI) (auto intro: conns_ok_Free)
qed

lemma world_ok_admins:
  assumes ok: "world_ok w" and q: "admins w = xs @ q # ys"
    and "list_all (\<lambda>r. holds_lock r \<longrightarrow> holds_lock q) rs" and "length rs \<le> 1"
    and "list_ex past_poll rs \<Longrightarrow> past_poll q
           \<or> phase_of (service_of w) = Free \<and> \<not> quiescence_blocked (service_of w)"
  shows "world_ok (w\<lparr>admins := xs @ rs @ ys\<rparr>)"
  using world_okD [OF ok] assms(2-5)
  by (intro world_okI) (auto intro: admins_ok_replace)

theorem step_keeps_world_ok:
  assumes "step X P native w w'" and "world_ok w"
  shows "world_ok w'"
  using assms
proof (induction rule: step.induct)
  case (accept w c p)
  then show ?case
    using world_okD [OF accept(4)]
    by (intro world_okI)
       (auto simp: conns_ok_def tasks_ok_def max_connections_def split: phase.splits)
next
  case (request c p w method' m r s)
  then show ?case by (intro world_ok_request)
next
  case (close c p w m)
  then show ?case by (intro world_ok_close)
next
  case (tick w m)
  then show ?case
    using lease_tick_is [of m "service_of w"] cancelled_world [OF _ refl, of w m] by auto
next
  case (update a w u m ended s)
  then show ?case by (intro world_ok_update)
next
  case (channel_end a w)
  then show ?case by (intro world_ok_channel_end)
next
  case (supervisor a w m)
  then show ?case by (intro world_ok_supervisor)
next
  case (stop w m)
  have "world_ok (w\<lparr>service_of := stop_service m (service_of w)\<rparr>)" by (rule world_ok_stop [OF stop])
  from world_okD [OF this] show ?case
    by (intro world_okI) (auto simp: admins_ok_def stop_service_facts)
next
  case (quiesce c p w auth m)
  have ok: "world_ok (w\<lparr>service_of := stop_service m (service_of w)\<rparr>)"
    by (rule world_ok_stop [OF quiesce(4)])
  have "filter holds_lock (admins w) = []"
    using quiesce(3) by (simp add: filter_empty_conv list_all_iff)
  with world_okD [OF ok] show ?case
    by (intro world_okI) (auto simp: admins_ok_def past_poll_def holds_lock_def stop_service_facts)
next
  case (poll w xs ys r)
  then show ?case
    by (intro world_ok_admins [where q = QPolling])
       (auto simp: holds_lock_def past_poll_def quiesce_poll_def phase_of_def split: sum.splits if_splits)
next
  case (recovered w xs b ys res)
  then show ?case
    by (intro world_ok_admins [where q = "QRecovering b"]) (auto simp: holds_lock_def past_poll_def)
next
  case (abandon w xs q ys)
  then show ?case
    by (intro world_ok_admins [where q = q])
       (auto simp: holds_lock_def past_poll_def split: quiesce_phase.splits)
next
  case (unblock w xs res ys)
  then show ?case by (intro world_ok_unblock)
qed

lemma initial_ok: "world_ok (initial_world (initial_service i caps e))"
  by (rule world_okI)
     (simp_all add: initial_world_def initial_service_def session_ok_def tasks_ok_def conns_ok_def
        admins_ok_def phase_of_def max_connections_def)

lemma reachable_ok: "reachable X P native w \<Longrightarrow> world_ok w"
  by (induction rule: reachable.induct) (auto intro: initial_ok step_keeps_world_ok)

end
