(* ===== verification/Contracts.thy ===== *)
theory Contracts
  imports RustStrings
begin

text \<open>
  The contracts between the components: systems of steps with an invariant, systems that refine
  another one, and printed forms that are read back. Each is interpreted where a component provides
  it.
\<close>

section \<open>Systems of steps\<close>

locale invariant_system =
  fixes begins :: "'s \<Rightarrow> bool" and moves :: "'s \<Rightarrow> 's \<Rightarrow> bool" and good :: "'s \<Rightarrow> bool"
  assumes good_begins: "begins s \<Longrightarrow> good s"
    and good_moves: "good s \<Longrightarrow> moves s s' \<Longrightarrow> good s'"
begin

lemma good_run: "moves\<^sup>*\<^sup>* s s' \<Longrightarrow> good s \<Longrightarrow> good s'"
  by (induction rule: rtranclp_induct) (auto intro: good_moves)

lemma good_reached: "begins s \<Longrightarrow> moves\<^sup>*\<^sup>* s s' \<Longrightarrow> good s'"
  by (blast intro: good_run good_begins)

lemma stable:
  assumes "moves\<^sup>*\<^sup>* s s'" "good s" "P s"
    and "\<And>v v'. good v \<Longrightarrow> P v \<Longrightarrow> moves v v' \<Longrightarrow> P v'"
  shows "good s' \<and> P s'"
  using assms(1-3) by (induction rule: rtranclp_induct) (auto intro: good_moves assms(4))

end

text \<open>A system that refines another one: what is seen of its state moves along the edges of the
  other, so that whatever these keep is kept.\<close>

locale refined_system = invariant_system +
  fixes seen :: "'a \<Rightarrow> 'b" and edge :: "'b \<Rightarrow> 'b \<Rightarrow> bool"
  assumes seen_moves: "good s \<Longrightarrow> moves s s' \<Longrightarrow> edge (seen s) (seen s')"
begin

lemma runs_refine: "moves\<^sup>*\<^sup>* s s' \<Longrightarrow> good s \<Longrightarrow> edge\<^sup>*\<^sup>* (seen s) (seen s')"
  by (induction rule: rtranclp_induct) (auto intro: rtranclp.rtrancl_into_rtrancl seen_moves good_run)

lemma seen_stable:
  assumes "moves\<^sup>*\<^sup>* s s'" "good s" "Q (seen s)"
    and "\<And>a a'. Q a \<Longrightarrow> edge a a' \<Longrightarrow> Q a'"
  shows "Q (seen s')"
  using stable [OF assms(1,2), of "\<lambda>s. Q (seen s)"] assms(3,4) seen_moves by blast

end

section \<open>Printed forms\<close>

lemma split_once_append: "d \<notin> set a \<Longrightarrow> split_once d (a @ d # b) = Some (a, b)"
  by (induction a) auto

locale text_form =
  fixes print :: "'a \<Rightarrow> string" and parse :: "string \<Rightarrow> 'a option" and fits :: "'a \<Rightarrow> bool"
  assumes parse_print: "fits x \<Longrightarrow> parse (print x) = Some x"
begin

lemma print_inj: "fits x \<Longrightarrow> fits y \<Longrightarrow> print x = print y \<longleftrightarrow> x = y"
  using parse_print by (metis option.inject)

lemma print_distinct: "list_all fits xs \<Longrightarrow> distinct (map print xs) \<longleftrightarrow> distinct xs"
  by (induction xs) (auto simp: list_all_iff print_inj)

end

text \<open>Two printed forms around a separator the first does not use.\<close>

locale separated_form = left: text_form print parse fits + right: text_form print' parse' fits'
  for print :: "'a \<Rightarrow> string" and parse fits and print' :: "'b \<Rightarrow> string" and parse' fits' +
  fixes sep :: char
  assumes no_sep: "fits x \<Longrightarrow> sep \<notin> set (print x)"

sublocale separated_form \<subseteq> both: text_form
  "\<lambda>(x, y). print x @ sep # print' y"
  "\<lambda>s. case split_once sep s of
         None \<Rightarrow> None
       | Some (a, b) \<Rightarrow> (case parse a of None \<Rightarrow> None | Some x \<Rightarrow> map_option (Pair x) (parse' b))"
  "\<lambda>(x, y). fits x \<and> fits' y"
  by unfold_locales
    (auto simp: left.parse_print right.parse_print split_once_append no_sep)

end
