(* ===== verification/DaemonProps.thy ===== *)
theory DaemonProps
  imports DaemonRun Contracts
begin

text \<open>
  What the daemon promises, in every reachable state of \<open>DaemonRun\<close>: one tunnel at a time,
  owner isolation, addressed and gapless events, no connection attempt after an uncertain
  termination, and which changes of the published state happen.
\<close>

section \<open>The event bus\<close>

definition bus_ok :: "service \<Rightarrow> bool" where
  "bus_ok s \<longleftrightarrow>
     map (\<lambda>(_, ev). ev_sequence ev) (events s) = map of_nat [1..<Suc (length (events s))]
   \<and> sequence (snap s) = of_nat (length (events s))
   \<and> list_all (\<lambda>(o', ev). o' \<noteq> None \<and> ev_instance ev = service_instance_id (snap s)) (events s)"

definition silent :: "service \<Rightarrow> service \<Rightarrow> bool" where
  "silent s t \<longleftrightarrow> events t = events s \<and> sequence (snap t) = sequence (snap s)
     \<and> service_instance_id (snap t) = service_instance_id (snap s)"

lemma bus_ok_silent: "silent s t \<Longrightarrow> bus_ok s \<Longrightarrow> bus_ok t"
  by (simp add: bus_ok_def silent_def)

lemma silent_refl [simp]: "silent s s"
  by (simp add: silent_def)

lemma bus_ok_send:
  assumes "bus_ok s" and "last_owner s \<noteq> None"
  shows "bus_ok (send p (next_sequence s))"
  using assms by (auto simp: bus_ok_def send_def next_sequence_def)

lemma send_fields [simp]:
  "last_owner (send p s) = last_owner s" "last_owner (next_sequence s) = last_owner s"
  by (simp_all add: send_def next_sequence_def)

lemma bus_ok_publish:
  assumes "bus_ok s" and "last_owner s \<noteq> None"
  shows "bus_ok (publish m msg s)"
proof (cases msg)
  case None
  then show ?thesis using bus_ok_send [OF assms] by (simp add: publish_def Let_def)
next
  case (Some x)
  obtain body level where x: "x = (body, level)" by (cases x)
  define log where "log = \<lparr>lr_timestamp = unix_now m, lr_level = level, lr_message = body\<rparr>"
  define t where "t = append_log log s"
  have s: "silent s t" "last_owner t \<noteq> None"
    using assms(2) by (simp_all add: t_def append_log_def silent_def)
  have "bus_ok (send (ELog log) (next_sequence t))"
    by (rule bus_ok_send [OF bus_ok_silent [OF s(1) assms(1)] s(2)])
  then have "bus_ok (send p (next_sequence (send (ELog log) (next_sequence t))))" for p
    by (rule bus_ok_send) (simp add: s(2))
  then show ?thesis by (simp add: publish_def Let_def Some x log_def t_def)
qed

definition told :: "service \<Rightarrow> service \<Rightarrow> bool" where
  "told s s' \<longleftrightarrow> silent s s' \<or>
     (\<exists>t m msg. silent s t \<and> last_owner t \<noteq> None \<and> s' = publish m msg t)"

lemma told_silent: "silent s s' \<Longrightarrow> told s s'"
  by (simp add: told_def)

lemma told_publish: "silent s t \<Longrightarrow> last_owner t \<noteq> None \<Longrightarrow> told s (publish m msg t)"
  unfolding told_def by blast

lemma bus_ok_told: "told s s' \<Longrightarrow> bus_ok s \<Longrightarrow> bus_ok s'"
  unfolding told_def by (auto intro: bus_ok_silent bus_ok_publish)

lemma owned: "session_ok s \<Longrightarrow> current s = Some sl \<Longrightarrow> last_owner s = Some (owner sl)"
  by (simp add: session_ok_def slot_ok_def)

lemma told_cancel: "session_ok s \<Longrightarrow> told s (session_cancel m s)"
  by (cases "current s")
     (auto simp: session_cancel_def told_silent silent_def set_state_def
        intro!: told_publish dest: owned split: option.split)

lemma told_dispatch:
  assumes d: "dispatch X m p c method' s = (r, s')" and ok: "session_ok s"
  shows "told s s'"
proof (cases "authorize s p")
  case (Inl e)
  with d show ?thesis by (simp add: dispatch_def told_silent)
next
  case (Inr u)
  note d' = d [unfolded dispatch_def Inr, simplified]
  show ?thesis
  proof (cases method')
    case (MReserve pid name proto)
    have "reserve m p c pid name proto s = (r, s')" using d' MReserve by simp
    then have "s' = s \<or> s' = publish m (Some (''Authentication reservation created'', LogInfo))
           (granted_service m p c pid name proto s)"
      unfolding reserve_def granted_service_def [symmetric] by (simp split: if_splits)
    moreover have "silent s (granted_service m p c pid name proto s)"
      by (simp add: silent_def granted_service_def)
    ultimately show ?thesis by (auto simp: told_silent granted_facts intro: told_publish)
  next
    case (MStart a h)
    have "start X m c a h s = (r, s')" using d' MStart by simp
    then consider "s' = s" | sl where "current s = Some sl"
      "s' = publish m (Some (''Starting authenticated tunnel'', LogInfo))
         (set_state Connecting (s\<lparr>current := Some (sl\<lparr>cancel := Some False\<rparr>)\<rparr>))"
      unfolding start_def by (simp split: if_splits option.splits sum.splits)
    then show ?thesis
    proof cases
      case (2 sl)
      show ?thesis
        unfolding 2(2) by (rule told_publish) (simp_all add: silent_def owned [OF ok 2(1)])
    qed (simp add: told_silent)
  next
    case (MAuthProgress a)
    then have "auth_progress m c a s = (r, s')" using d' by simp
    then show ?thesis by (cases rule: auth_progress_cases) (auto simp: told_silent silent_def)
  next
    case (MCancel a)
    with d' have "s' = s \<or> s' = session_cancel m s"
      by (auto simp: cancel_attempt_def split: option.splits if_splits)
    then show ?thesis using told_cancel [OF ok] by (auto simp: told_silent)
  next
    case MDisconnect
    with d' have "s' = s \<or> s' = session_cancel m s"
      by (auto simp: disconnect_def split: option.splits if_splits)
    then show ?thesis using told_cancel [OF ok] by (auto simp: told_silent)
  qed (use d' in \<open>auto simp: told_silent\<close>)
qed

lemma told_update:
  assumes "apply_update m a u s = (ended, s')" and ok: "session_ok s"
  shows "told s s'"
proof (cases "case current s of None \<Rightarrow> True | Some sl \<Rightarrow> attempt sl \<noteq> a")
  case True
  with assms(1) show ?thesis by (simp add: apply_update_def told_silent)
next
  case False
  then obtain sl where sl: "current s = Some sl" "attempt sl = a" by (auto split: option.splits)
  note own = owned [OF ok sl(1)]
  show ?thesis
  proof (cases u)
    case (UpdFinished result q)
    have "s' = finish_tunnel m result q s"
      using assms(1) sl UpdFinished by (simp add: apply_update_def)
    then show ?thesis
      unfolding finish_tunnel_def Let_def
      by (cases result) (auto simp: own silent_def intro!: told_publish)
  next
    case (UpdConnected n)
    then show ?thesis
      using assms(1) sl own
      by (auto simp: apply_update_def silent_def told_silent Let_def intro!: told_publish split: if_splits)
  next
    case UpdReconnecting
    then show ?thesis
      using assms(1) sl own
      by (auto simp: apply_update_def silent_def told_silent intro!: told_publish split: if_splits)
  next
    case (UpdTraffic t)
    then show ?thesis
      using assms(1) sl own by (auto simp: apply_update_def silent_def intro!: told_publish)
  qed
qed

lemma told_stop: "session_ok s \<Longrightarrow> told s (stop_service m s)"
proof -
  assume ok: "session_ok s"
  then have "session_ok (s\<lparr>stopping := True\<rparr>)"
    by (auto simp: session_ok_def slot_ok_def split: option.splits)
  from told_cancel [OF this, of m] show ?thesis
    unfolding stop_service_def told_def by (simp add: silent_def)
qed

lemma told_supervisor: "session_ok s \<Longrightarrow> told s (supervisor_end m a s)"
  by (auto simp: supervisor_end_def told_silent silent_def intro!: told_publish dest: owned split: option.splits)

lemma told_finish: "told s (snd (quiesce_finish res s))"
  by (auto simp: quiesce_finish_def silent_def intro!: told_silent split: option.splits sum.splits)

text \<open>Every section of a step is silent or publishes to an owner.\<close>

lemma step_told:
  assumes "step X P native w w'" and "world_ok w"
  shows "told (service_of w) (service_of w')"
  using assms(1) world_okD(1) [OF assms(2)]
proof (induction rule: step.induct)
  case (request c p w method' m r s)
  then show ?case by (simp add: told_dispatch)
next
  case (close c p w m)
  then show ?case
    using connection_closed_is [of m c "service_of w"] by (auto simp: told_silent told_cancel)
next
  case (tick w m)
  then show ?case
    using lease_tick_is [of m "service_of w"] by (auto simp: told_silent told_cancel)
next
  case (update a w u m ended s)
  then show ?case by (auto simp: told_update)
qed (simp_all add: told_silent told_supervisor told_stop told_finish)

lemma reachable_bus: "reachable X P native w \<Longrightarrow> bus_ok (service_of w)"
proof (induction rule: reachable.induct)
  case (start_up recovery e i caps)
  show ?case by (simp add: bus_ok_def initial_world_def initial_service_def)
next
  case (advance w w')
  then show ?case using step_told reachable_ok bus_ok_told by blast
qed


section \<open>Runs\<close>

abbreviation steps ::
  "'u crates \<Rightarrow> platform \<Rightarrow> (string \<Rightarrow> unit result option) \<Rightarrow> world \<Rightarrow> world \<Rightarrow> bool" where
  "steps X P native \<equiv> (step X P native)\<^sup>*\<^sup>*"

text \<open>One step as seen by the slot, the flags and the published state.\<close>

definition state_edge :: "connection_state \<Rightarrow> connection_state \<Rightarrow> bool" where
  "state_edge st st' \<longleftrightarrow> st = st' \<or> can_transition_to st st'
     \<or> st' = Disconnected \<and> st \<in> {Authenticating, Connecting, Connected, Reconnecting}
     \<or> st' = Reconnecting \<and> st = Connecting"

definition slot_edge :: "service \<Rightarrow> service \<Rightarrow> bool" where
  "slot_edge s s' \<longleftrightarrow> phase_step (phase_of s) (phase_of s')
     \<and> (stopping s \<longrightarrow> stopping s' \<and> (phase_of s = Free \<longrightarrow> phase_of s' = Free))
     \<and> (recovery_blocked s \<and> phase_of s = Free \<longrightarrow> phase_of s' = Free)
     \<and> (phase_of s = Free \<longrightarrow> quiescence_blocked s' = quiescence_blocked s)
     \<and> state_edge (sn_state (snap s)) (sn_state (snap s'))"

lemma session_ok_states:
  "session_ok s \<Longrightarrow> phase_of s = Free \<Longrightarrow> idle_state (sn_state (snap s))"
  "session_ok s \<Longrightarrow> phase_of s = Held p c a \<Longrightarrow> sn_state (snap s) = Authenticating"
  "session_ok s \<Longrightarrow> phase_of s = Tunnel p c a \<Longrightarrow> tunnel_state (sn_state (snap s))"
  by (auto simp: session_ok_def slot_ok_def phase_of_def slot_phase_Held slot_phase_Tunnel)

lemma edge_same: "phase_of s' = phase_of s \<Longrightarrow> same_flags s s' \<Longrightarrow> sn_state (snap s') = sn_state (snap s)
    \<Longrightarrow> slot_edge s s'"
  by (auto simp: slot_edge_def same_flags_def state_edge_def intro: phase_step.intros)

lemma edge_refl [simp]: "slot_edge s s"
  by (simp add: edge_same)

lemma edge_cancel: "session_ok s \<Longrightarrow> slot_edge s (session_cancel m s)"
proof (cases "phase_of s")
  case Free
  then have "session_cancel m s = s" by (simp add: phase_of_def session_cancel_def)
  then show ?thesis by simp
next
  case (Held p c a)
  assume "session_ok s"
  from session_ok_states(2) [OF this Held] Held show ?thesis
    by (auto simp: slot_edge_def cancel_phase cancel_state state_edge_def intro: phase_step.intros)
next
  case (Tunnel p c a)
  assume "session_ok s"
  from session_ok_states(3) [OF this Tunnel] Tunnel show ?thesis
    by (auto simp: slot_edge_def cancel_phase cancel_state state_edge_def can_transition_to_def
        tunnel_state_def intro: phase_step.intros)
qed

lemma edge_dispatch:
  assumes "dispatch X m p c method' s = (r, s')" and ok: "session_ok s"
  shows "slot_edge s s'"
  using assms(1)
proof (cases rule: dispatch_cases)
  case granted
  then show ?thesis
    using session_ok_states(1) [OF ok granted(1)]
    by (auto simp: slot_edge_def same_flags_def state_edge_def can_transition_to_def idle_state_def
        intro: phase_step.intros)
next
  case (started a h)
  then show ?thesis
    using session_ok_states(2) [OF ok started(2)]
    by (auto simp: slot_edge_def same_flags_def state_edge_def can_transition_to_def
        intro: phase_step.intros)
next
  case renewed
  then show ?thesis by (intro edge_same) auto
qed (auto intro: edge_cancel ok)

lemma finish_tunnel_state:
  "sn_state (snap (finish_tunnel m r q s)) =
     (case r of Inr _ \<Rightarrow> Disconnected
      | Inl e \<Rightarrow> if code e = AuthenticationRequired then NeedsAuthentication else Failed)"
  by (cases r) (simp_all add: finish_tunnel_def Let_def)

lemma edge_update:
  assumes d: "apply_update m a u s = (ended, s')" and ph: "phase_of s = Tunnel p c a"
    and ok: "session_ok s" and u: "update_contract u"
  shows "slot_edge s s'"
proof -
  obtain sl where sl: "current s = Some sl" "attempt sl = a"
    using ph by (auto simp: phase_of_def slot_phase_Tunnel)
  have st: "tunnel_state (sn_state (snap s))" by (rule session_ok_states(3) [OF ok ph])
  have edge: "state_edge (sn_state (snap s)) (sn_state (snap s'))"
  proof (cases u)
    case (UpdFinished result q)
    then have "sn_state (snap s') \<in> {Disconnected, NeedsAuthentication, Failed}"
      using d sl by (auto simp: apply_update_def finish_tunnel_state split: sum.splits)
    with st show ?thesis
      by (auto simp: state_edge_def tunnel_state_def can_transition_to_def)
  next
    case (UpdConnected n)
    then have "sn_state (snap s') = sn_state (snap s)
        \<or> sn_state (snap s) \<noteq> Disconnecting \<and> sn_state (snap s') = Connected"
      using d sl by (auto simp: apply_update_def Let_def split: if_splits)
    with st show ?thesis
      by (auto simp: state_edge_def tunnel_state_def can_transition_to_def)
  next
    case UpdReconnecting
    then have "sn_state (snap s') = sn_state (snap s)
        \<or> sn_state (snap s) \<noteq> Disconnecting \<and> sn_state (snap s') = Reconnecting"
      using d sl by (auto simp: apply_update_def split: if_splits)
    with st show ?thesis
      by (auto simp: state_edge_def tunnel_state_def can_transition_to_def)
  next
    case (UpdTraffic t)
    then show ?thesis using d sl by (auto simp: apply_update_def state_edge_def)
  qed
  from d ph ok u show ?thesis
    by (cases rule: apply_update_cases)
       (use edge ph in \<open>auto simp: slot_edge_def same_flags_def intro: phase_step.intros\<close>)
qed

lemma edge_stop: "session_ok s \<Longrightarrow> slot_edge s (stop_service m s)"
proof -
  assume ok: "session_ok s"
  have "session_ok (s\<lparr>stopping := True\<rparr>)"
    using ok by (auto simp: session_ok_def slot_ok_def split: option.splits)
  from edge_cancel [OF this, of m] show ?thesis
    by (auto simp: slot_edge_def stop_service_def phase_of_def)
qed

lemma edge_supervisor:
  assumes ok: "session_ok s" and ph: "\<And>p c. phase_of s \<noteq> Held p c a"
  shows "slot_edge s (supervisor_end m a s)"
proof (cases "\<exists>p c. phase_of s = Tunnel p c a")
  case True
  then obtain p c where t: "phase_of s = Tunnel p c a" by blast
  then obtain sl where "current s = Some sl" "attempt sl = a" by (auto simp: phase_of_def slot_phase_Tunnel)
  then have e: "phase_of (supervisor_end m a s) = Free" "sn_state (snap (supervisor_end m a s)) = Failed"
    "stopping (supervisor_end m a s) = stopping s"
    by (auto simp: supervisor_end_def phase_of_def)
  have "state_edge (sn_state (snap s)) Failed"
    using session_ok_states(3) [OF ok t] by (auto simp: state_edge_def tunnel_state_def can_transition_to_def)
  with e t show ?thesis by (auto simp: slot_edge_def intro: phase_step.intros)
next
  case False
  have "supervisor_end m a s = s"
  proof (cases "current s")
    case (Some sl)
    have "attempt sl \<noteq> a"
    proof
      assume "attempt sl = a"
      with Some ph False show False by (cases "cancel sl") (auto simp: phase_of_def)
    qed
    with Some show ?thesis by (simp add: supervisor_end_def)
  qed (simp add: supervisor_end_def)
  then show ?thesis by simp
qed

lemma edge_finish:
  assumes "phase_of s = Free"
  shows "slot_edge s (snd (quiesce_finish res s))"
  using assms
  by (auto simp: quiesce_finish_def slot_edge_def phase_of_def state_edge_def
      intro: phase_step.intros split: option.splits sum.splits)

lemma step_edge:
  assumes "step X P native w w'" and "world_ok w"
  shows "slot_edge (service_of w) (service_of w')"
  using assms
proof (induction rule: step.induct)
  case (request c p w method' m r s)
  then show ?case by (simp add: edge_dispatch world_okD(1))
next
  case (close c p w m)
  then show ?case
    using connection_closed_is [of m c "service_of w"] by (auto simp: edge_cancel world_okD(1))
next
  case (tick w m)
  then show ?case
    using lease_tick_is [of m "service_of w"] by (auto simp: edge_cancel world_okD(1))
next
  case (update a w u m ended s)
  obtain p c where "phase_of (service_of w) = Tunnel p c a"
    using world_okD(2) [OF update(4)] update(1) unfolding tasks_ok_def by blast
  from edge_update [OF update(3) this world_okD(1) [OF update(4)] update(2)] show ?case by simp
next
  case (supervisor a w m)
  have "phase_of (service_of w) \<noteq> Held p c a" for p c
    using world_okD(2) [OF supervisor(2)] supervisor(1) by (auto simp: tasks_ok_def)
  then show ?case by (simp add: edge_supervisor world_okD(1) [OF supervisor(2)])
next
  case (unblock w xs res ys)
  have "phase_of (service_of w) = Free"
    using world_okD(4) [OF unblock(2)] unblock(1) by (simp add: admins_ok_def past_poll_def)
  then show ?case by (simp add: edge_finish)
qed (simp_all add: edge_stop world_okD(1))

text \<open>The daemon as a system of steps: its invariant is \<open>world_ok\<close>, and seen through the session it
  moves along \<open>slot_edge\<close>, seen through the slot along the slot machine.\<close>

definition daemon_started :: "world \<Rightarrow> bool" where
  "daemon_started w \<longleftrightarrow> (\<exists>recovery i caps e. startup_recovery recovery = Inr e
     \<and> w = initial_world (initial_service i caps e))"

interpretation daemon: refined_system daemon_started "step X P native" world_ok service_of slot_edge
  for X P native
  by unfold_locales (auto simp: daemon_started_def intro: initial_ok step_keeps_world_ok step_edge)

interpretation slot_machine: refined_system daemon_started "step X P native" world_ok
  "\<lambda>w. phase_of (service_of w)" phase_step for X P native
  by unfold_locales (rule step_edge [unfolded slot_edge_def, THEN conjunct1])

lemma reachable_iff: "reachable X P native w \<longleftrightarrow> (\<exists>w0. daemon_started w0 \<and> steps X P native w0 w)"
proof
  assume "reachable X P native w"
  then show "\<exists>w0. daemon_started w0 \<and> steps X P native w0 w"
  proof (induction rule: reachable.induct)
    case (start_up recovery e i caps)
    then show ?case unfolding daemon_started_def by blast
  qed (blast intro: rtranclp.rtrancl_into_rtrancl)
next
  assume "\<exists>w0. daemon_started w0 \<and> steps X P native w0 w"
  then obtain w0 where w0: "daemon_started w0" "steps X P native w0 w" by blast
  from w0(2) show "reachable X P native w"
  proof (induction rule: rtranclp_induct)
    case base
    show ?case using w0(1) unfolding daemon_started_def by (blast intro: reachable.start_up)
  qed (rule reachable.advance)
qed


section \<open>A run\<close>

definition sample_caps :: capabilities where
  "sample_caps = \<lparr>engine_version = ''9'', api_major = 5, api_minor = 9,
     protocols = [\<lparr>pi_id = ''anyconnect'', pi_label = [], pi_description = [], pi_flags = 0\<rparr>],
     cap_pkcs11 = False, cap_totp = False, cap_hotp = False, cap_stoken = False,
     cap_yubioath = False, cap_hpke = False\<rparr>"

definition sample_handoff :: "string auth_handoff" where
  "sample_handoff = \<lparr>ho_protocol = ''anyconnect'', connect_url = ''https://vpn.example'',
     dns_name = ''vpn.example'', peer_address = None,
     peer_fingerprint = ''0123456789abcdef0123456789abcdef01234567'', cookie = ''c'',
     proxy_credentials = None, expires_at = Some 2000,
     tunnel_options = \<lparr>to_proxy = None, to_sni = None, to_user_agent = None,
       to_reported_os = None, to_mtu = None, to_disable_dtls = False, to_disable_ipv6 = False,
       to_reconnect_timeout_secs = 300\<rparr>\<rparr>"

definition moment_at :: "int \<Rightarrow> uuid \<Rightarrow> moment" where
  "moment_at seconds u = \<lparr>instant = seconds * 1000000000, unix_now = 1000 + seconds, fresh = u\<rparr>"

definition service0 :: service where
  "service0 = initial_service 1 sample_caps None"

definition reserve_request :: "string ipc_method" where
  "reserve_request = MReserve 9 ''work'' ''anyconnect''"

definition log1 :: log_record where
  "log1 = \<lparr>lr_timestamp = 1001, lr_level = LogInfo, lr_message = ''Authentication reservation created''\<rparr>"

definition log2 :: log_record where
  "log2 = \<lparr>lr_timestamp = 1002, lr_level = LogInfo, lr_message = ''Starting authenticated tunnel''\<rparr>"

definition snap1 :: snapshot where
  "snap1 = \<lparr>service_instance_id = 1, sequence = 2, sn_state = Authenticating, profile_id = Some 9,
     profile_name = Some ''work'', attempt_id = Some 7, session_id = None, started_at = None,
     network = None, traffic = no_traffic, last_error = None\<rparr>"

definition snap2 :: snapshot where
  "snap2 = snap1\<lparr>sequence := 4, sn_state := Connecting\<rparr>"

definition slot1 :: slot where
  "slot1 = \<lparr>owner = Uid 1000, connection = 5, attempt = 7, sl_protocol = ''anyconnect'',
     lease = 1000000000, cancel = None\<rparr>"

definition sample_event :: "u64 \<Rightarrow> event_payload \<Rightarrow> peer_identity option \<times> event" where
  "sample_event n p = (Some (Uid 1000), \<lparr>ev_instance = 1, ev_sequence = n, ev_payload = p\<rparr>)"

definition service1 :: service where
  "service1 = \<lparr>snap = snap1, current = Some slot1, last_owner = Some (Uid 1000), logs = [log1],
     recovery_blocked = False, quiescence_blocked = False, stopping = False,
     events = [sample_event 1 (ELog log1), sample_event 2 (ESnapshot snap1)],
     svc_capabilities = sample_caps\<rparr>"

definition service2 :: service where
  "service2 = \<lparr>snap = snap2, current = Some (slot1\<lparr>cancel := Some False\<rparr>),
     last_owner = Some (Uid 1000), logs = [log1, log2],
     recovery_blocked = False, quiescence_blocked = False, stopping = False,
     events = [sample_event 1 (ELog log1), sample_event 2 (ESnapshot snap1),
               sample_event 3 (ELog log2), sample_event 4 (ESnapshot snap2)],
     svc_capabilities = sample_caps\<rparr>"

definition service3 :: service where
  "service3 = supervisor_end (moment_at 3 9) 7 service2"

definition world0 :: world where "world0 = initial_world service0"

definition world1 :: world where
  "world1 = world0\<lparr>connections := [(5, Uid 1000)], used := [5]\<rparr>"

definition world2 :: world where
  "world2 = world1\<lparr>service_of := service1, used := [7, 5], running := []\<rparr>"

definition world3 :: world where
  "world3 = world2\<lparr>service_of := service2, used := [8, 7, 5], running := [7]\<rparr>"

definition world4 :: world where
  "world4 = world3\<lparr>running := [], draining := [7]\<rparr>"

definition world5 :: world where
  "world5 = world4\<lparr>service_of := service3, draining := []\<rparr>"

definition deny :: "string \<Rightarrow> unit result option" where
  "deny token = None"

lemma run_checks:
  "\<not> bad_reservation 9 ''work''"
  "handoff_validate sample_crates 8 (protocols sample_caps) 1002 sample_handoff = Inr ()"
  by code_simp+

lemmas section_defs = dispatch_def authorize_def publish_def Let_def send_def next_sequence_def
  append_log_def set_state_def sample_event_def moment_at_def

lemma run_dispatch:
  "dispatch sample_crates (moment_at 1 7) (Uid 1000) 5 reserve_request service0
     = (Inr (PReserved 7), service1)"
  "dispatch sample_crates (moment_at 2 8) (Uid 1000) 5 (MStart 7 sample_handoff) service1
     = (Inr PAccepted, service2)"
proof -
  show "dispatch sample_crates (moment_at 1 7) (Uid 1000) 5 reserve_request service0
     = (Inr (PReserved 7), service1)"
    using run_checks(1)
    by (simp add: section_defs reserve_request_def reserve_def service0_def initial_service_def
        sample_caps_def service1_def log1_def snap1_def slot1_def)
  show "dispatch sample_crates (moment_at 2 8) (Uid 1000) 5 (MStart 7 sample_handoff) service1
     = (Inr PAccepted, service2)"
    using run_checks(2)
    by (simp add: section_defs start_def service1_def slot1_def elapsed_def lease_limit_def
        service2_def log2_def snap2_def snap1_def) (simp add: sample_handoff_def)
qed

lemma run_facts:
  "phase_of service0 = Free" "phase_of service1 = Held (Uid 1000) 5 7"
  "phase_of service2 = Tunnel (Uid 1000) 5 7" "phase_of service3 = Free"
  "quiescence_blocked service3" "sn_state (snap service1) = Authenticating"
  "length (events service2) = 4"
  by (simp_all add: phase_of_def service0_def initial_service_def service1_def service2_def
      service3_def supervisor_end_def slot1_def snap1_def)

lemma run_start: "reachable sample_crates Linux deny world0"
  unfolding world0_def service0_def
  by (rule reachable.start_up [of "Some (Inr [])"]) (simp add: startup_recovery_def)

lemma run_accept: "step sample_crates Linux deny world0 world1"
proof -
  have "step sample_crates Linux deny world0
      (world0\<lparr>connections := (5, Uid 1000) # connections world0, used := 5 # used world0\<rparr>)"
    by (rule step.accept) (simp_all add: world0_def initial_world_def max_connections_def)
  then show ?thesis by (simp add: world1_def world0_def initial_world_def)
qed

lemma run_reserve: "step sample_crates Linux deny world1 world2"
proof -
  have "step sample_crates Linux deny world1
      (world1\<lparr>service_of := service1, used := fresh (moment_at 1 7) # used world1,
        running := starts reserve_request (Inr (PReserved 7)) @ running world1\<rparr>)"
  proof (rule step.request)
    show "dispatch sample_crates (moment_at 1 7) (Uid 1000) 5 reserve_request (service_of world1)
        = (Inr (PReserved 7), service1)"
      using run_dispatch(1) by (simp add: world1_def world0_def initial_world_def)
  qed (simp_all add: world1_def is_admin_def reserve_request_def moment_at_def)
  then show ?thesis
    by (simp add: world2_def world1_def world0_def initial_world_def starts_def moment_at_def
        reserve_request_def)
qed

lemma run_tunnel: "step sample_crates Linux deny world2 world3"
proof -
  have "step sample_crates Linux deny world2
      (world2\<lparr>service_of := service2, used := fresh (moment_at 2 8) # used world2,
        running := starts (MStart 7 sample_handoff) (Inr PAccepted) @ running world2\<rparr>)"
  proof (rule step.request)
    show "dispatch sample_crates (moment_at 2 8) (Uid 1000) 5 (MStart 7 sample_handoff) (service_of world2)
        = (Inr PAccepted, service2)"
      using run_dispatch(2) by (simp add: world2_def)
  qed (simp_all add: world2_def world1_def is_admin_def moment_at_def)
  then show ?thesis by (simp add: world3_def world2_def starts_def moment_at_def)
qed

lemma run_lost: "step sample_crates Linux deny world3 world4"
  using step.channel_end [of 7 world3 sample_crates Linux deny]
  by (simp add: world4_def world3_def world2_def world1_def world0_def initial_world_def)

lemma run_ended: "step sample_crates Linux deny world4 world5"
  using step.supervisor [of 7 world4 sample_crates Linux deny "moment_at 3 9"]
  by (simp add: world5_def world4_def world3_def service3_def)

lemma run_reachable:
  "reachable sample_crates Linux deny world2" "reachable sample_crates Linux deny world3"
  "reachable sample_crates Linux deny world5"
proof -
  show r2: "reachable sample_crates Linux deny world2"
    by (rule reachable.advance [OF reachable.advance [OF run_start run_accept] run_reserve])
  show r3: "reachable sample_crates Linux deny world3"
    by (rule reachable.advance [OF r2 run_tunnel])
  show "reachable sample_crates Linux deny world5"
    by (rule reachable.advance [OF reachable.advance [OF r3 run_lost] run_ended])
qed

section \<open>Properties\<close>

text \<open>C9: in every reachable state the slot, the published state and the tasks agree. A free slot
  shows an idle state and no network; a held one is authenticating and belongs to an open
  connection of its owner; a tunnel shows a tunnel state and has a task that will release it.
  At most one tunnel is served, the one of the slot, at most 128 connections are open and at
  most 2000 log records are kept.\<close>

theorem slot_agrees:
  assumes "reachable X P native w"
  shows "(case phase_of (service_of w) of
            Free \<Rightarrow> idle_state (sn_state (snap (service_of w))) \<and> network (snap (service_of w)) = None
          | Held p c a \<Rightarrow> sn_state (snap (service_of w)) = Authenticating
              \<and> (c, p) \<in> set (connections w)
          | Tunnel p c a \<Rightarrow> tunnel_state (sn_state (snap (service_of w)))
              \<and> a \<in> set (running w) \<union> set (draining w))
       \<and> length (running w) \<le> 1 \<and> len (connections w) \<le> 128 \<and> len (logs (service_of w)) \<le> 2000"
proof -
  note ok = world_okD [OF reachable_ok [OF assms]]
  have r: "length (running w) \<le> 1"
  proof (rule ccontr)
    assume "\<not> length (running w) \<le> 1"
    then obtain a b rest where r: "running w = a # b # rest"
      by (cases "running w"; cases "tl (running w)") auto
    with ok(2) have "a \<noteq> b" by (simp add: tasks_ok_def)
    moreover obtain p c where "phase_of (service_of w) = Tunnel p c a"
      using ok(2) r by (auto simp: tasks_ok_def)
    ultimately show False using ok(2) r by (auto simp: tasks_ok_def)
  qed
  have l: "len (connections w) \<le> 128 \<and> len (logs (service_of w)) \<le> 2000"
    using ok(1,3) by (simp add: conns_ok_def max_connections_def session_ok_def logs_ok_def)
  show ?thesis
  proof (cases "phase_of (service_of w)")
    case Free
    with ok(1) r l session_ok_states(1) [OF ok(1)] show ?thesis
      by (auto simp: session_ok_def phase_of_def)
  next
    case (Held p c a)
    with ok(3) r l session_ok_states(2) [OF ok(1)] show ?thesis by (auto simp: conns_ok_def)
  next
    case (Tunnel p c a)
    with ok(2) r l session_ok_states(3) [OF ok(1)] show ?thesis by (auto simp: tasks_ok_def)
  qed
qed

theorem slot_agrees_witness:
  "length (running world3) \<le> 1 \<and> phase_of (service_of world3) = Tunnel (Uid 1000) 5 7"
  using slot_agrees [OF run_reachable(2)] run_facts(3) by (simp add: world3_def)

text \<open>C4: the daemon refines the slot machine: every step takes the slot along an edge of it.
  In particular the only way out of a tunnel is its end, never another reservation.\<close>

theorem daemon_refines_slot:
  assumes "reachable X P native w" and "step X P native w w'"
  shows "phase_step (phase_of (service_of w)) (phase_of (service_of w'))"
  by (rule slot_machine.seen_moves [OF reachable_ok [OF assms(1)] assms(2)])

theorem daemon_refines_slot_witness:
  "phase_step (phase_of (service_of world2)) (phase_of (service_of world3))
   \<and> phase_of (service_of world3) = Tunnel (Uid 1000) 5 7"
  using daemon_refines_slot [OF run_reachable(1) run_tunnel] run_facts(3) by (simp add: world3_def)



text \<open>C7: once it is uncertain whether a tunnel process still lives, the daemon never again
  hands out the slot and every teardown is refused, until it is restarted.\<close>

theorem uncertainty_is_permanent:
  assumes "reachable X P native w" and "quiescence_blocked (service_of w)"
    and "steps X P native w w'"
  shows "current (service_of w') = None
       \<and> fst (reserve m p c pid name proto (service_of w'))
           \<in> {Inl (new_error ServiceUnavailable ''Service is stopping''),
              Inl (new_error RecoveryRequired ''Repair pending network recovery before connecting'')}
       \<and> (\<exists>e. quiesce_poll (service_of w') = Some (Inl e))"
proof -
  have free: "phase_of (service_of v) = Free"
    if "world_ok v" "quiescence_blocked (service_of v)" for v
    using world_okD(1) [OF that(1)] that(2)
    by (auto simp: session_ok_def slot_ok_def phase_of_def split: option.splits)
  have "world_ok w' \<and> quiescence_blocked (service_of w')"
  proof (rule daemon.stable [where P = "\<lambda>v. quiescence_blocked (service_of v)",
        OF assms(3) reachable_ok [OF assms(1)] assms(2)])
    fix v v'
    assume v: "world_ok v" "quiescence_blocked (service_of v)" "step X P native v v'"
    show "quiescence_blocked (service_of v')"
      using daemon.seen_moves [OF v(1,3)] free [OF v(1,2)] v(2) by (simp add: slot_edge_def)
  qed
  then have ok: "session_ok (service_of w')" "quiescence_blocked (service_of w')"
    "phase_of (service_of w') = Free"
    using free world_okD(1) by blast+
  then have "current (service_of w') = None" "recovery_blocked (service_of w')"
    by (simp_all add: phase_of_def session_ok_def)
  with ok(2) show ?thesis by (simp add: reserve_def quiesce_poll_def)
qed

theorem uncertainty_is_permanent_witness:
  "quiescence_blocked service3 \<and> current service3 = None"
  using uncertainty_is_permanent [OF run_reachable(3) _ rtranclp.rtrancl_refl] run_facts(5)
  by (simp add: world5_def)


definition world6 :: world where
  "world6 = world0\<lparr>service_of := stop_service (moment_at 4 9) service0, halting := True\<rparr>"


text \<open>C@: every change of the published state is one of the transition table, or one of five the
  table does not have: the direct return to \<open>Disconnected\<close> from \<open>Authenticating\<close>,
  \<open>Connecting\<close>, \<open>Connected\<close> or \<open>Reconnecting\<close>, and \<open>Connecting\<close> to \<open>Reconnecting\<close>.\<close>

theorem published_transitions:
  assumes "reachable X P native w" and "step X P native w w'"
  shows "state_edge (sn_state (snap (service_of w))) (sn_state (snap (service_of w')))"
  using step_edge [OF assms(2) reachable_ok [OF assms(1)]] by (simp add: slot_edge_def)

definition world7 :: world where
  "world7 = world2\<lparr>service_of := lease_tick (moment_at 400 9) service1\<rparr>"

theorem published_transitions_witness:
  "state_edge Authenticating (sn_state (snap (service_of world7)))
   \<and> \<not> can_transition_to Authenticating (sn_state (snap (service_of world7)))"
proof -
  have s: "step sample_crates Linux deny world2 world7"
    using step.tick [of world2 sample_crates Linux deny "moment_at 400 9"]
    by (simp add: world7_def world2_def world1_def world0_def initial_world_def)
  have "sn_state (snap (service_of world7)) = Disconnected"
    by (simp add: world7_def lease_tick_def service1_def slot1_def elapsed_def moment_at_def
        lease_limit_def session_cancel_def)
  moreover have "sn_state (snap (service_of world2)) = Authenticating"
    by (simp add: world2_def run_facts)
  ultimately show ?thesis
    using published_transitions [OF run_reachable(1) s] by (simp add: can_transition_to_def)
qed

text \<open>C@: the events of the bus are numbered without gaps from 1 (modulo 2 to the 64), the snapshot
  carries the number of the last one, and every event is addressed to the owner of a slot.\<close>

theorem events_numbered_and_addressed:
  assumes "reachable X P native w"
  shows "map (\<lambda>(_, ev). ev_sequence ev) (events (service_of w))
           = map of_nat [1..<Suc (length (events (service_of w)))]
       \<and> sequence (snap (service_of w)) = of_nat (length (events (service_of w)))
       \<and> list_all (\<lambda>(o', ev). o' \<noteq> None \<and> ev_instance ev = service_instance_id (snap (service_of w)))
           (events (service_of w))"
  using reachable_bus [OF assms] unfolding bus_ok_def .

theorem events_numbered_and_addressed_witness:
  "sequence (snap (service_of world3)) = of_nat (length (events (service_of world3)))
   \<and> length (events (service_of world3)) = 4"
  using events_numbered_and_addressed [OF run_reachable(2)] run_facts(7) by (simp add: world3_def)

text \<open>C@: a subscriber is sent an event of the bus only if it is its own.\<close>

theorem events_stay_with_owner:
  assumes "reachable X P native w" and "(o', ev) \<in> set (events (service_of w))"
    and "follow_event p logging (BusEvent o' ev) s = Inr (Some ev')"
  shows "o' = Some p \<and> ev' = ev"
proof -
  have "o' \<noteq> None"
    using reachable_bus [OF assms(1)] assms(2) by (auto simp: bus_ok_def list_all_iff)
  then show ?thesis
    using assms(3) by (auto simp: follow_event_def rbind_Inr_iff split: if_splits)
qed

theorem events_stay_with_owner_witness:
  "Some (Uid 1000) = Some (Uid 1000) \<and> snd (sample_event 3 (ELog log2)) = snd (sample_event 3 (ELog log2))"
  by (rule events_stay_with_owner [OF run_reachable(2), of _ _ _ False service2])
     (simp_all add: world3_def service2_def sample_event_def follow_event_def authorize_def slot1_def)

text \<open>C@: a tunnel is started exactly for a reservation that is current: same attempt, same
  connection, not started before, its lease younger than 300 seconds, the same protocol, and a
  handoff that validates at this time.\<close>

theorem start_accepted_iff:
  "fst (start X m c a h s) = Inr PAccepted \<longleftrightarrow>
     (\<exists>sl. current s = Some sl \<and> attempt sl = a \<and> connection sl = c \<and> cancel sl = None
        \<and> max 0 (instant m - lease sl) < 300 * 1000000000 \<and> sl_protocol sl = ho_protocol h
        \<and> handoff_validate X (fresh m) (protocols (svc_capabilities s)) (unix_now m) h = Inr ())"
  by (cases "current s")
     (auto simp: start_def elapsed_def lease_limit_def not_le not_less split: sum.splits)


text \<open>What the service shows to everyone.\<close>

definition same_public :: "service \<Rightarrow> service \<Rightarrow> bool" where
  "same_public s t \<longleftrightarrow> svc_capabilities s = svc_capabilities t \<and> stopping s = stopping t
     \<and> recovery_blocked s = recovery_blocked t
     \<and> service_instance_id (snap s) = service_instance_id (snap t)
     \<and> sequence (snap s) = sequence (snap t) \<and> (current s = None \<longleftrightarrow> current t = None)"

definition foreign_to :: "peer_identity \<Rightarrow> service \<Rightarrow> bool" where
  "foreign_to p s \<longleftrightarrow> (\<exists>q. last_owner s = Some q \<and> q \<noteq> p)"

lemma foreign_visible:
  "session_ok s \<Longrightarrow> foreign_to p s \<Longrightarrow> current s = None \<Longrightarrow>
     visible s p = \<lparr>service_instance_id = service_instance_id (snap s), sequence = sequence (snap s),
       sn_state = Disconnected, profile_id = None, profile_name = None, attempt_id = None,
       session_id = None, started_at = None, network = None, traffic = no_traffic, last_error = None\<rparr>"
  by (auto simp: visible_def foreign_to_def)

lemma foreign_busy:
  "session_ok s \<Longrightarrow> foreign_to p s \<Longrightarrow> current s = Some sl \<Longrightarrow> authorize s p = Inl busy"
  by (auto simp: session_ok_def slot_ok_def foreign_to_def authorize_def)

lemma foreign_reserve:
  "same_public s t \<Longrightarrow> fst (reserve m p c pid name proto s) = fst (reserve m p c pid name proto t)"
  by (simp add: reserve_def same_public_def)



end
