(* ===== verification/Composition.thy ===== *)
theory Composition
  imports DaemonProps
begin

text \<open>
  The tunnel from end to end: what the supervisor of \<open>worker.rs\<close> sends, delivered to the update task of
  \<open>daemon.rs\<close>, frees the slot and tells whether the tunnel process is known to be gone.
\<close>

section \<open>A source of updates\<close>

text \<open>What the daemon relies on of the supervisor: every update keeps the contract, and the last one,
  and only the last one, is final.\<close>

locale update_source =
  fixes sends :: "update list \<Rightarrow> bool"
  assumes contract: "sends us \<Longrightarrow> list_all update_contract us"
    and finishes: "sends us \<Longrightarrow>
      \<exists>sent r q. us = sent @ [UpdFinished r q] \<and> list_all (\<lambda>u. \<not> is_finished u) sent"
begin

lemma passing_update:
  assumes "world_ok w" "phase_of (service_of w) = Tunnel p c a" "a \<in> set (running w)"
    and "update_contract u" "\<not> is_finished u"
  shows "\<exists>w'. step X P native w w' \<and> world_ok w' \<and> phase_of (service_of w') = Tunnel p c a
           \<and> a \<in> set (running w')"
proof -
  obtain e s where u: "apply_update m a u (service_of w) = (e, s)" by (cases "apply_update m a u (service_of w)")
  have running: "\<not> e"
    using u assms(2,5)
    by (auto simp: apply_update_def phase_of_def slot_phase_Tunnel is_finished_def split: update.splits if_splits)
  have t: "phase_of s = Tunnel p c a"
    by (rule apply_update_cases [OF u assms(2) world_okD(1) [OF assms(1)] assms(4)]) (use running in auto)
  have st: "step X P native w (w\<lparr>service_of := s\<rparr>)"
    using step.update [OF assms(3,4) u, of X P native] running by simp
  show ?thesis
    using st t assms(3) step_keeps_world_ok [OF st assms(1)] by (intro exI [of _ "w\<lparr>service_of := s\<rparr>"]) simp
qed

lemma passing_updates:
  assumes "list_all (\<lambda>u. \<not> is_finished u) us" "list_all update_contract us"
    and "world_ok w" "phase_of (service_of w) = Tunnel p c a" "a \<in> set (running w)"
  shows "\<exists>w'. steps X P native w w' \<and> world_ok w' \<and> phase_of (service_of w') = Tunnel p c a
           \<and> a \<in> set (running w')"
  using assms
proof (induction us arbitrary: w)
  case (Cons u us)
  obtain v where v: "step X P native w v" "world_ok v" "phase_of (service_of v) = Tunnel p c a"
    "a \<in> set (running v)"
    using passing_update [OF Cons.prems(3-5), of u X P native] Cons.prems(1,2) by auto
  obtain w' where "steps X P native v w'" "world_ok w'" "phase_of (service_of w') = Tunnel p c a"
    "a \<in> set (running w')"
    using Cons.IH [OF _ _ v(2-4)] Cons.prems(1,2) by auto
  with v(1) show ?case by (blast intro: converse_rtranclp_into_rtranclp)
qed blast

lemma final_update:
  assumes "world_ok w" "phase_of (service_of w) = Tunnel p c a" "a \<in> set (running w)"
    and "update_contract (UpdFinished r q)"
  shows "\<exists>w'. step X P native w w' \<and> current (service_of w') = None
           \<and> quiescence_blocked (service_of w') = (\<not> q)
           \<and> recovery_blocked (service_of w') = (case r of Inr _ \<Rightarrow> False | Inl e \<Rightarrow> code e = RecoveryRequired)"
proof -
  let ?s = "finish_tunnel m r q (service_of w)"
  have u: "apply_update m a (UpdFinished r q) (service_of w) = (True, ?s)"
    using assms(2) by (auto simp: apply_update_def phase_of_def slot_phase_Tunnel)
  have "recovery_blocked (service_of w) = False"
    using world_okD(1) [OF assms(1)] assms(2)
    by (auto simp: session_ok_def slot_ok_def phase_of_def slot_phase_Tunnel)
  then have "current ?s = None" "quiescence_blocked ?s = (\<not> q)"
    "recovery_blocked ?s = (case r of Inr _ \<Rightarrow> False | Inl e \<Rightarrow> code e = RecoveryRequired)"
    by (auto simp: finish_tunnel_def Let_def split: sum.splits)
  with step.update [OF assms(3,4) u, of X P native] show ?thesis by auto
qed

lemma tunnel_ends:
  assumes "sends us" "world_ok w" "phase_of (service_of w) = Tunnel p c a" "a \<in> set (running w)"
  shows "\<exists>w' r q. last us = UpdFinished r q \<and> steps X P native w w' \<and> current (service_of w') = None
           \<and> quiescence_blocked (service_of w') = (\<not> q)
           \<and> recovery_blocked (service_of w') = (case r of Inr _ \<Rightarrow> False | Inl e \<Rightarrow> code e = RecoveryRequired)"
proof -
  obtain sent r q where us: "us = sent @ [UpdFinished r q]" "list_all (\<lambda>u. \<not> is_finished u) sent"
    using finishes [OF assms(1)] by blast
  then have c: "list_all update_contract sent" "update_contract (UpdFinished r q)"
    using contract [OF assms(1)] by simp_all
  obtain v where v: "steps X P native w v" "world_ok v" "phase_of (service_of v) = Tunnel p c a"
    "a \<in> set (running v)"
    using passing_updates [OF us(2) c(1) assms(2-4)] by blast
  obtain w' where w': "step X P native v w'" "current (service_of w') = None"
    "quiescence_blocked (service_of w') = (\<not> q)"
    "recovery_blocked (service_of w') = (case r of Inr _ \<Rightarrow> False | Inl e \<Rightarrow> code e = RecoveryRequired)"
    using final_update [OF v(2-4) c(2), of X P native] by blast
  have "steps X P native w w'" using v(1) w'(1) by (rule rtranclp.rtrancl_into_rtrancl)
  moreover have "last us = UpdFinished r q" using us(1) by simp
  ultimately show ?thesis using w'(2-4) by blast
qed

end

interpretation worker: update_source "\<lambda>us. \<exists>os evs m'. supervised os evs recover m = Some (us, m')"
  for recover :: "'w \<Rightarrow> err list result option \<times> 'w" and m
proof unfold_locales
  fix us
  assume "\<exists>os evs m'. supervised os evs recover m = Some (us, m')"
  then obtain os evs m' where s: "supervised os evs recover m = Some (us, m')" by blast
  from supervised_shape [OF s] obtain sent r q where us: "us = sent @ [UpdFinished r q]"
    "list_all (\<lambda>u. \<not> is_finished u) sent" and q: "\<not> q \<Longrightarrow> \<exists>e. r = Inl e \<and> code e = RecoveryRequired"
    by (metis (full_types))
  from us show "\<exists>sent r q. us = sent @ [UpdFinished r q] \<and> list_all (\<lambda>u. \<not> is_finished u) sent"
    by blast
  have "update_contract u" if "\<not> is_finished u" for u
    using that by (cases u) (simp_all add: update_contract_def is_finished_def)
  moreover have "update_contract (UpdFinished r q)"
    using q by (cases q) (auto simp: update_contract_def)
  ultimately show "list_all update_contract us"
    using us by (auto simp: list_all_iff)
qed



end
