(* ===== verification/Json.thy ===== *)
theory Json
  imports ErrorModel "HOL-Library.List_Lexorder"
begin

text \<open>
  JSON values as the Rust sources hold them (\<open>serde_json::Value\<close>): the accessors and the updates
  they use. An object is the list of its entries in ascending order of the keys, each key once,
  which is the \<open>BTreeMap\<close> behind \<open>serde_json::Map\<close>, so that equality of values is equality
  here. A number is an integer, or the bits of a double, which the sources only carry along.
\<close>

datatype json =
    JNull
  | JBool bool
  | JInt int
  | JFloat u64
  | JString string
  | JArray "json list"
  | JObject "(string \<times> json) list"

section \<open>Accessors\<close>

definition as_str :: "json \<Rightarrow> string option" where
  "as_str v = (case v of JString s \<Rightarrow> Some s | _ \<Rightarrow> None)"

definition as_array :: "json \<Rightarrow> json list option" where
  "as_array v = (case v of JArray xs \<Rightarrow> Some xs | _ \<Rightarrow> None)"

definition as_object :: "json \<Rightarrow> (string \<times> json) list option" where
  "as_object v = (case v of JObject kvs \<Rightarrow> Some kvs | _ \<Rightarrow> None)"

definition as_bool :: "json \<Rightarrow> bool option" where
  "as_bool v = (case v of JBool b \<Rightarrow> Some b | _ \<Rightarrow> None)"

definition as_u64 :: "json \<Rightarrow> int option" where
  "as_u64 v = (case v of JInt n \<Rightarrow> if 0 \<le> n \<and> n < 2 ^ 64 then Some n else None | _ \<Rightarrow> None)"

lemma as_simps [simp]:
  "as_str (JString s) = Some s" "as_array (JArray xs) = Some xs"
  "as_object (JObject kvs) = Some kvs" "as_bool (JBool b) = Some b"
  by (simp_all add: as_str_def as_array_def as_object_def as_bool_def)

lemma as_Some:
  "as_str v = Some s \<longleftrightarrow> v = JString s" "as_array v = Some xs \<longleftrightarrow> v = JArray xs"
  "as_object v = Some kvs \<longleftrightarrow> v = JObject kvs" "as_bool v = Some b \<longleftrightarrow> v = JBool b"
  by (cases v; simp add: as_str_def as_array_def as_object_def as_bool_def)+

text \<open>\<open>v.get(key)\<close>, and \<open>v[key]\<close> for reading, which is null where there is no such entry.\<close>

definition jget :: "string \<Rightarrow> json \<Rightarrow> json option" where
  "jget k v = (case v of JObject kvs \<Rightarrow> map_of kvs k | _ \<Rightarrow> None)"

definition jindex :: "json \<Rightarrow> string \<Rightarrow> json" where
  "jindex v k = (case jget k v of Some x \<Rightarrow> x | None \<Rightarrow> JNull)"

lemma jget_simps [simp]:
  "jget k (JObject kvs) = map_of kvs k" "jget k (JArray xs) = None" "jget k (JString s) = None"
  "jget k JNull = None" "jget k (JBool b) = None" "jget k (JInt n) = None"
  by (simp_all add: jget_def)

section \<open>Objects\<close>

text \<open>\<open>map.insert(key, value)\<close> on the ordered entries.\<close>

fun object_insert :: "string \<Rightarrow> json \<Rightarrow> (string \<times> json) list \<Rightarrow> (string \<times> json) list" where
  "object_insert k v [] = [(k, v)]"
| "object_insert k v ((l, w) # kvs) =
     (if k = l then (k, v) # kvs
      else if k < l then (k, v) # (l, w) # kvs
      else (l, w) # object_insert k v kvs)"

lemma map_of_object_insert [simp]:
  "map_of (object_insert k v kvs) = (map_of kvs)(k \<mapsto> v)"
  by (induction kvs) (auto simp: fun_eq_iff)

lemma set_object_insert: "set (map fst (object_insert k v kvs)) = insert k (set (map fst kvs))"
proof (induction kvs)
  case (Cons e kvs)
  then show ?case by (cases e) (simp add: insert_commute)
qed simp

definition object_ok :: "(string \<times> json) list \<Rightarrow> bool" where
  "object_ok kvs \<longleftrightarrow> sorted_wrt (<) (map fst kvs)"

lemma object_insert_ok: "object_ok kvs \<Longrightarrow> object_ok (object_insert k v kvs)"
proof (induction kvs)
  case (Cons e kvs)
  obtain l w where e: "e = (l, w)" by (cases e)
  show ?case
  proof (cases "k = l \<or> k < l")
    case True
    with Cons.prems e show ?thesis
      by (fastforce simp: object_ok_def)
  next
    case False
    then have "l < k" by auto
    moreover have "object_ok (object_insert k v kvs)"
      using Cons by (simp add: object_ok_def)
    moreover have "\<forall>x\<in>set (map fst kvs). l < x"
      using Cons.prems e by (simp add: object_ok_def)
    ultimately have "\<forall>x\<in>set (map fst (object_insert k v kvs)). l < x"
      unfolding set_object_insert by blast
    with False e \<open>object_ok (object_insert k v kvs)\<close> show ?thesis
      by (simp add: object_ok_def)
  qed
qed (simp add: object_ok_def)

text \<open>\<open>map.entry(key).or_insert(value)\<close> and \<open>v[key] = value\<close> on an object.\<close>

definition or_insert :: "string \<Rightarrow> json \<Rightarrow> (string \<times> json) list \<Rightarrow> (string \<times> json) list" where
  "or_insert k v kvs = (if map_of kvs k = None then object_insert k v kvs else kvs)"

definition jset :: "string \<Rightarrow> json \<Rightarrow> json \<Rightarrow> json" where
  "jset k x v = (case v of JObject kvs \<Rightarrow> JObject (object_insert k x kvs) | _ \<Rightarrow> v)"

text \<open>The literal \<open>json!({\<dots>})\<close>.\<close>

definition jobject :: "(string \<times> json) list \<Rightarrow> json" where
  "jobject kvs = JObject (fold (\<lambda>(k, v). object_insert k v) kvs [])"

lemma jobject_ok: "\<exists>kvs'. jobject kvs = JObject kvs' \<and> object_ok kvs'"
proof -
  have "object_ok acc \<Longrightarrow> object_ok (fold (\<lambda>(k, v). object_insert k v) kvs acc)" for acc
    by (induction kvs arbitrary: acc) (auto simp: object_insert_ok)
  then show ?thesis by (simp add: jobject_def object_ok_def)
qed

end
