(* ===== verification/IpText.thy ===== *)
theory IpText
  imports NetworkModel
begin

text \<open>
  \<open>Display\<close> of addresses as \<open>core::net\<close> prints them: dotted quads, and for IPv6 the hexadecimal
  groups with the first longest run of at least two zero groups cut out and mapped IPv4
  addresses in dotted form.
\<close>

definition octets :: "u32 \<Rightarrow> nat list" where
  "octets x = map (\<lambda>i. unat (ucast (drop_bit i x) :: u8)) [24, 16, 8, 0]"

definition show_ipv4 :: "u32 \<Rightarrow> string" where
  "show_ipv4 x = join ''.'' (map show_nat (octets x))"

definition segments :: "u128 \<Rightarrow> int list" where
  "segments y = map (\<lambda>i. uint (ucast (drop_bit i y) :: u16)) [112, 96, 80, 64, 48, 32, 16, 0]"

definition hex_digit :: "int \<Rightarrow> char" where
  "hex_digit d = char_of (if d < 10 then 48 + d else 87 + d)"

function show_hex :: "int \<Rightarrow> string" where
  "show_hex n = (if n < 16 then [hex_digit n] else show_hex (n div 16) @ [hex_digit (n mod 16)])"
  by pat_completeness auto
termination by (relation "measure nat") auto

declare show_hex.simps [simp del]

text \<open>
  The longest run of zeros as (start, length): a later run replaces an earlier one only when it
  is strictly longer.
\<close>

fun zero_run :: "nat \<Rightarrow> nat \<times> nat \<Rightarrow> nat \<times> nat \<Rightarrow> int list \<Rightarrow> nat \<times> nat" where
  "zero_run i longest cur [] = longest"
| "zero_run i longest cur (s # ss) =
     (if s = 0 then
        let cur = (if snd cur = 0 then (i, 1) else (fst cur, snd cur + 1));
            longest = (if snd cur > snd longest then cur else longest)
        in zero_run (Suc i) longest cur ss
      else zero_run (Suc i) longest (0, 0) ss)"

definition show_ipv6 :: "u128 \<Rightarrow> string" where
  "show_ipv6 y =
     (if drop_bit 32 y = 0xFFFF then ''::ffff:'' @ show_ipv4 (ucast y)
      else let ss = segments y;
               (start, n) = zero_run 0 (0, 0) (0, 0) ss
      in if n > 1 then join '':'' (map show_hex (take start ss)) @ ''::''
                       @ join '':'' (map show_hex (drop (start + n) ss))
         else join '':'' (map show_hex ss))"

definition show_ip :: "ip_addr \<Rightarrow> string" where
  "show_ip a = (case a of V4 x \<Rightarrow> show_ipv4 x | V6 y \<Rightarrow> show_ipv6 y)"

text \<open>\<open>format!("{address}/{prefix}")\<close>.\<close>

definition show_prefix :: "ip_prefix \<Rightarrow> string" where
  "show_prefix p = show_ip (address p) @ ''/'' @ show_nat (unat (prefix p))"

lemma show_samples:
  "show_ip (V4 0xC0A80001) = ''192.168.0.1''"
  "show_ip (V6 0x20010db8000000000000000000000001) = ''2001:db8::1''"
  "show_ip (V6 0) = ''::''"
  "show_ip (V6 0xFFFF01020304) = ''::ffff:1.2.3.4''"
  by code_simp+

end
