(* ===== verification/Effects.thy ===== *)
theory Effects
  imports ErrorModel
begin

text \<open>
  Effects that can be cut short. An operation on the machine state \<open>'m\<close> ends with a value or
  an error of the code, or not at all: \<open>Crashed\<close> is the death of the process or the loss of
  power between two effects, which no code runs after. The combinators follow the question mark
  and the sequencing of the source.
\<close>

datatype 'a outcome = Done 'a | Fault err | Crashed

type_synonym ('m, 'a) io = "'m \<Rightarrow> 'a outcome \<times> 'm"

definition io_return :: "'a \<Rightarrow> ('m, 'a) io" where
  "io_return x m = (Done x, m)"

definition io_fail :: "err \<Rightarrow> ('m, 'a) io" where
  "io_fail e m = (Fault e, m)"

definition io_bind :: "('m, 'a) io \<Rightarrow> ('a \<Rightarrow> ('m, 'b) io) \<Rightarrow> ('m, 'b) io" where
  "io_bind f g m =
     (case f m of
        (Done x, m') \<Rightarrow> g x m'
      | (Fault e, m') \<Rightarrow> (Fault e, m')
      | (Crashed, m') \<Rightarrow> (Crashed, m'))"

definition io_lift :: "'a result \<Rightarrow> ('m, 'a) io" where
  "io_lift r m = (case r of Inl e \<Rightarrow> (Fault e, m) | Inr x \<Rightarrow> (Done x, m))"

text \<open>The value of a fallible block: its error is a value, its death is not.\<close>

definition io_try :: "('m, 'a) io \<Rightarrow> ('m, 'a result) io" where
  "io_try f m =
     (case f m of
        (Done x, m') \<Rightarrow> (Done (Inr x), m')
      | (Fault e, m') \<Rightarrow> (Done (Inl e), m')
      | (Crashed, m') \<Rightarrow> (Crashed, m'))"

definition io_get :: "('m \<Rightarrow> 'a) \<Rightarrow> ('m, 'a) io" where
  "io_get f m = (Done (f m), m)"

fun io_each :: "('x \<Rightarrow> ('m, unit) io) \<Rightarrow> 'x list \<Rightarrow> ('m, unit) io" where
  "io_each f [] = io_return ()"
| "io_each f (x # xs) = io_bind (f x) (\<lambda>_. io_each f xs)"

lemmas io_defs = io_return_def io_fail_def io_bind_def io_lift_def io_try_def io_get_def

lemma io_bind_Done:
  "io_bind f g m = (Done y, m') \<longleftrightarrow> (\<exists>x m1. f m = (Done x, m1) \<and> g x m1 = (Done y, m'))"
  by (cases "f m") (auto simp: io_bind_def split: outcome.splits)

lemma bind_to: "f m = (Done x, m') \<Longrightarrow> io_bind f g m = g x m'"
  by (simp add: io_bind_def)

section \<open>Assertions\<close>

text \<open>
  From a state with \<open>P\<close> the operation leaves a state with \<open>C\<close> however it ends, and one with
  \<open>R x\<close> when it returns \<open>x\<close>: a Hoare triple with a crash condition.
\<close>

definition runs ::
  "('m \<Rightarrow> bool) \<Rightarrow> ('m, 'a) io \<Rightarrow> ('m \<Rightarrow> bool) \<Rightarrow> ('a \<Rightarrow> 'm \<Rightarrow> bool) \<Rightarrow> bool" where
  "runs P f C R \<longleftrightarrow>
     (\<forall>m. P m \<longrightarrow> C (snd (f m)) \<and> (\<forall>x. fst (f m) = Done x \<longrightarrow> R x (snd (f m))))"

named_theorems runs_rules \<open>triples of the combinators\<close>
named_theorems keeps_rules \<open>invariants of the combinators\<close>

lemma runsI:
  "(\<And>m r m'. P m \<Longrightarrow> f m = (r, m') \<Longrightarrow> C m' \<and> (\<forall>x. r = Done x \<longrightarrow> R x m')) \<Longrightarrow> runs P f C R"
  unfolding runs_def by (metis prod.collapse)

lemma runsD:
  assumes "runs P f C R" "P m" "f m = (r, m')"
  shows "C m'" "r = Done x \<Longrightarrow> R x m'"
  using assms by (force simp: runs_def)+

lemma runs_weaken:
  "runs P f C R \<Longrightarrow> (\<And>m. P' m \<Longrightarrow> P m) \<Longrightarrow> (\<And>m. C m \<Longrightarrow> C' m) \<Longrightarrow> (\<And>x m. R x m \<Longrightarrow> R' x m)
    \<Longrightarrow> runs P' f C' R'"
  by (simp add: runs_def)

lemma runs_bind:
  assumes "runs P f C R" and "\<And>x. runs (R x) (g x) C S"
  shows "runs P (io_bind f g) C S"
proof (rule runsI)
  fix m r m'
  assume P: "P m" and b: "io_bind f g m = (r, m')"
  obtain q m1 where f: "f m = (q, m1)" by (cases "f m")
  show "C m' \<and> (\<forall>x. r = Done x \<longrightarrow> S x m')"
  proof (cases q)
    case (Done x)
    then have "R x m1" "g x m1 = (r, m')"
      using runsD(2) [OF assms(1) P f] b f by (simp_all add: io_bind_def)
    then show ?thesis using runsD [OF assms(2)] by blast
  qed (use runsD(1) [OF assms(1) P f] b f in \<open>auto simp: io_bind_def\<close>)
qed

lemma runs_return: "(\<And>m. P m \<Longrightarrow> C m \<and> R x m) \<Longrightarrow> runs P (io_return x) C R"
  by (simp add: runs_def io_return_def)

lemma runs_fail: "(\<And>m. P m \<Longrightarrow> C m) \<Longrightarrow> runs P (io_fail e) C R"
  by (simp add: runs_def io_fail_def)

lemma runs_get: "(\<And>m. P m \<Longrightarrow> C m \<and> R (h m) m) \<Longrightarrow> runs P (io_get h) C R"
  by (simp add: runs_def io_get_def)

lemma runs_lift:
  "(\<And>m. P m \<Longrightarrow> C m) \<Longrightarrow> (\<And>m x. P m \<Longrightarrow> r = Inr x \<Longrightarrow> R x m) \<Longrightarrow> runs P (io_lift r) C R"
  by (auto simp: runs_def io_lift_def split: sum.splits)

lemma runs_try:
  assumes "runs P f C (\<lambda>x. R (Inr x))" and "\<And>e m. C m \<Longrightarrow> R (Inl e) m"
  shows "runs P (io_try f) C R"
proof (rule runsI)
  fix m r m'
  assume P: "P m" and t: "io_try f m = (r, m')"
  obtain q m1 where f: "f m = (q, m1)" by (cases "f m")
  then show "C m' \<and> (\<forall>x. r = Done x \<longrightarrow> R x m')"
    using runsD [OF assms(1) P f] assms(2) t by (cases q) (auto simp: io_try_def)
qed

lemma runs_if:
  "(b \<Longrightarrow> runs P f C R) \<Longrightarrow> (\<not> b \<Longrightarrow> runs P g C R) \<Longrightarrow> runs P (if b then f else g) C R"
  by simp

lemma runs_pre: "(\<And>m. P m \<Longrightarrow> b) \<Longrightarrow> (b \<Longrightarrow> runs P f C R) \<Longrightarrow> runs P f C R"
  by (cases b) (auto simp: runs_def)

lemma runs_False: "(\<And>m. \<not> P m) \<Longrightarrow> runs P f C R"
  by (simp add: runs_def)

lemma runs_option:
  "(v = None \<Longrightarrow> runs P f C R) \<Longrightarrow> (\<And>x. v = Some x \<Longrightarrow> runs P (g x) C R)
    \<Longrightarrow> runs P (case v of None \<Rightarrow> f | Some x \<Rightarrow> g x) C R"
  by (cases v) auto

text \<open>An invariant holds again however the operation ends.\<close>

definition keeps :: "('m \<Rightarrow> bool) \<Rightarrow> ('m, 'a) io \<Rightarrow> bool" where
  "keeps I f \<longleftrightarrow> runs I f I (\<lambda>_. I)"

lemma keepsI: "(\<And>m. I m \<Longrightarrow> I (snd (f m))) \<Longrightarrow> keeps I f"
  by (simp add: keeps_def runs_def)

lemma keepsD: "keeps I f \<Longrightarrow> I m \<Longrightarrow> f m = (r, m') \<Longrightarrow> I m'"
  unfolding keeps_def by (rule runsD(1))

lemma keeps_runs: "runs I f I R \<Longrightarrow> keeps I f"
  by (auto simp: keeps_def runs_def)

lemma keeps_bind [keeps_rules]:
  "keeps I f \<Longrightarrow> (\<And>x. keeps I (g x)) \<Longrightarrow> keeps I (io_bind f g)"
  unfolding keeps_def by (rule runs_bind)

lemma keeps_basic [keeps_rules]:
  "keeps I (io_return x)" "keeps I (io_fail e)" "keeps I (io_lift r)" "keeps I (io_get h)"
  by (auto intro!: keepsI simp: io_return_def io_fail_def io_lift_def io_get_def split: sum.splits)

lemma keeps_if [keeps_rules]: "(b \<Longrightarrow> keeps I f) \<Longrightarrow> (\<not> b \<Longrightarrow> keeps I g) \<Longrightarrow> keeps I (if b then f else g)"
  by simp

lemma keeps_try [keeps_rules]: "keeps I f \<Longrightarrow> keeps I (io_try f)"
  unfolding keeps_def by (erule runs_try) simp

lemma keeps_each [keeps_rules]: "(\<And>x. x \<in> set xs \<Longrightarrow> keeps I (f x)) \<Longrightarrow> keeps I (io_each f xs)"
  by (induction xs) (auto intro!: keeps_rules)

lemma keeps_option [keeps_rules]:
  "keeps I f \<Longrightarrow> (\<And>x. v = Some x \<Longrightarrow> keeps I (g x)) \<Longrightarrow> keeps I (case v of None \<Rightarrow> f | Some x \<Rightarrow> g x)"
  by (cases v) auto

lemma keeps_sum [keeps_rules]:
  "(\<And>x. keeps I (f x)) \<Longrightarrow> (\<And>x. keeps I (g x)) \<Longrightarrow> keeps I (case v of Inl x \<Rightarrow> f x | Inr x \<Rightarrow> g x)"
  by (cases v) auto

lemma keeps_prod [keeps_rules]:
  "(\<And>x y. keeps I (f x y)) \<Longrightarrow> keeps I (case v of (x, y) \<Rightarrow> f x y)"
  by (cases v) auto

lemma keeps_Let [keeps_rules]: "(\<And>x. keeps I (f x)) \<Longrightarrow> keeps I (let x = v in f x)"
  by simp

lemma io_each_append:
  "io_each f (xs @ ys) = io_bind (io_each f xs) (\<lambda>_. io_each f ys)"
proof (induction xs)
  case (Cons x xs)
  show ?case
  proof (rule ext)
    fix m
    show "io_each f ((x # xs) @ ys) m = io_bind (io_each f (x # xs)) (\<lambda>_. io_each f ys) m"
      using Cons by (cases "f x m"; cases "fst (f x m)") (auto simp: io_bind_def)
  qed
qed (auto simp: io_bind_def io_return_def fun_eq_iff)

end
