(* ===== verification/UnixNet.thy ===== *)
theory UnixNet
  imports Json IpText Effects NetEnv SessionState
begin

text \<open>
  \<open>crates/net/src/unix.rs\<close>: the mutation sites of the Unix network back end. The state of the
  operating system has the type \<open>'k\<close>; what the code asks of it is a record of operations: the
  kernel's interface table, the adapter of the platform (\<open>native\<close> in the source, \<open>linux.rs\<close> or
  \<open>macos.rs\<close>) and the installed shell script. Durations are the number of polls that fit
  before a deadline.
\<close>

section \<open>Journal keys and mutations\<close>

record key =
  key_kind :: string
  key_name :: string

record mutation =
  mut_key :: key
  before :: "json option"
  intended :: "json option"
  applied :: "json option"

definition net_failure :: "string \<Rightarrow> err" where
  "net_failure m = new_error NetworkFailure m"

definition json_text :: "json \<Rightarrow> string result" where
  "json_text v = ok_or (net_failure ''Invalid Unix journal string'') (as_str v)"

definition json_strings :: "json \<Rightarrow> string list result" where
  "json_strings v =
     rbind (ok_or (net_failure ''Invalid Unix journal list'') (as_array v)) (\<lambda>xs.
     map_result json_text xs)"

definition safe_char :: "char \<Rightarrow> bool" where
  "safe_char c \<longleftrightarrow> is_ascii_alphanumeric c \<or> c \<in> set ''_.:-''"

definition safe_name :: "string \<Rightarrow> unit result" where
  "safe_name name =
     (if name = [] \<or> len name > 255 \<or> \<not> list_all safe_char name \<or> starts_with ''-'' name
      then Inl (invalid ''Unsafe native network identifier'') else Inr ())"

text \<open>The kinds of state that live and die with a tunnel interface.\<close>

definition bound_kinds :: "string list" where
  "bound_kinds = [''linux-mtu'', ''linux-up'', ''linux-address'', ''linux-addrgen'', ''linux-dns'',
     ''linux-domains'', ''linux-default-dns'', ''mac-mtu'', ''mac-up'', ''mac-address'',
     ''mac-auto-route'']"

definition first_piece :: "char \<Rightarrow> string \<Rightarrow> string" where
  "first_piece d s = takeWhile (\<lambda>c. c \<noteq> d) s"

section \<open>The platform\<close>

record 'k native_base =
  nt_index :: "'k \<Rightarrow> string \<Rightarrow> u32"
  nt_read :: "key \<Rightarrow> ('k, json option) io"
  nt_write :: "key \<Rightarrow> json option \<Rightarrow> ('k, unit) io"

text \<open>
  What a shell of the lifecycle does once it is spawned: the pieces \<open>read_line\<close> yields (of at
  most 513 bytes), each with whether the acknowledgement can be written, or nothing before the
  deadline; and whether it is gone before the deadline, and with what status. A piece that is not
  UTF-8 is a reading error.
\<close>

datatype shell_event = ShLine string bool | ShUnreadable | ShTimeout

record shell_run =
  sh_spawned :: bool
  sh_events :: "shell_event list"
  sh_exited :: bool
  sh_success :: bool

record 'k native = "'k native_base" +
  nt_plan :: "network_config \<Rightarrow> ('k, mutation list) io"
  nt_observe :: "network_config \<Rightarrow> ('k, network_observation) io"
  nt_implicit :: "network_config \<Rightarrow> key \<Rightarrow> json option \<Rightarrow> json option \<Rightarrow> bool"
  nt_automatic :: "json option \<Rightarrow> json option \<Rightarrow> bool"
  nt_macos :: bool
  nt_script :: "('k, unit) io"
  nt_shell :: "(string \<times> string) list \<Rightarrow> ('k, shell_run) io"
  nt_polls :: nat

section \<open>The mutation sites\<close>

definition native_key :: "(string \<Rightarrow> u32) \<Rightarrow> key \<Rightarrow> (key \<times> bool) result" where
  "native_key ifs k =
     (case split_once (CHR ''@'') (key_kind k) of
        None \<Rightarrow> Inr (k, False)
      | Some (base, index) \<Rightarrow>
          if base \<notin> set bound_kinds
          then Inl (net_failure ''Invalid interface-bound journal key_kind'')
          else rbind (ok_or (net_failure ''Invalid journal interface index'')
                       (parse_word index :: u32 option)) (\<lambda>i.
            let name = first_piece (CHR ''|'') (key_name k) in
            rbind (safe_name name) (\<lambda>_.
            let current = ifs name in
            Inr (\<lparr>key_kind = base, key_name = key_name k\<rparr>, current = 0 \<or> current \<noteq> i))))"

definition unix_vanished :: "('k, 'z) native_base_scheme \<Rightarrow> key \<Rightarrow> ('k, bool) io" where
  "unix_vanished N k =
     io_bind (io_get (nt_index N)) (\<lambda>ifs.
     io_bind (io_lift (native_key ifs k)) (\<lambda>(nk, missing).
     io_return (missing \<and> key_kind nk \<noteq> ''linux-resolvconf'' \<and> key_kind nk \<noteq> ''mac-store'')))"

definition unix_equivalent ::
  "'k native \<Rightarrow> key \<Rightarrow> json option \<Rightarrow> json option \<Rightarrow> bool" where
  "unix_equivalent N k actual expected =
     (if nt_macos N \<and> starts_with ''mac-auto-route@'' (key_kind k)
      then nt_automatic N actual expected else actual = expected)"

definition unix_read :: "('k, 'z) native_base_scheme \<Rightarrow> key \<Rightarrow> ('k, json option) io" where
  "unix_read N k =
     io_bind (io_get (nt_index N)) (\<lambda>ifs.
     io_bind (io_lift (native_key ifs k)) (\<lambda>(nk, missing).
     if missing then io_return None else nt_read N nk))"

definition unix_write ::
  "('k, 'z) native_base_scheme \<Rightarrow> key \<Rightarrow> json option \<Rightarrow> ('k, unit) io" where
  "unix_write N k v =
     io_bind (io_get (nt_index N)) (\<lambda>ifs.
     io_bind (io_lift (native_key ifs k)) (\<lambda>(nk, missing).
     if missing then io_fail (net_failure ''Journaled interface no longer exists'')
     else nt_write N nk v))"

definition mutation_kind :: "(string \<Rightarrow> u32) \<Rightarrow> string \<Rightarrow> string \<Rightarrow> string result" where
  "mutation_kind ifs k name =
     (if k \<in> set bound_kinds
      then rbind (resolve_interface ifs (first_piece (CHR ''|'') name)) (\<lambda>identity.
             Inr (k @ ''@'' @ show_nat (unat (if_index identity))))
      else Inr k)"

definition plan_mutation ::
  "('k, 'z) native_base_scheme \<Rightarrow> string \<Rightarrow> string \<Rightarrow> json option \<Rightarrow> ('k, mutation) io" where
  "plan_mutation N k name want =
     io_bind (io_get (nt_index N)) (\<lambda>ifs.
     io_bind (io_lift (mutation_kind ifs k name)) (\<lambda>k'.
     let key = \<lparr>key_kind = k', key_name = name\<rparr> in
     io_bind (unix_read N key) (\<lambda>was.
     io_return \<lparr>mut_key = key, before = was, intended = want, applied = None\<rparr>)))"

text \<open>One mutation per key: a second request for a key must agree with the first.\<close>

fun merge_mutations :: "mutation list \<Rightarrow> mutation list \<Rightarrow> mutation list result" where
  "merge_mutations ms [] = Inr ms"
| "merge_mutations ms (item # rest) =
     (case find (\<lambda>m. mut_key m = mut_key item) ms of
        Some previous \<Rightarrow>
          if before previous \<noteq> before item \<or> intended previous \<noteq> intended item
          then Inl (net_failure ''Conflicting negotiated network mutations'')
          else merge_mutations ms rest
      | None \<Rightarrow> merge_mutations (ms @ [item]) rest)"

definition same_interface :: "(string \<Rightarrow> u32) \<Rightarrow> network_config \<Rightarrow> unit result" where
  "same_interface ifs c =
     rbind (resolve_interface ifs (if_name (interface c))) (\<lambda>identity.
     if identity \<noteq> interface c then Inl (net_failure ''Tunnel interface identity changed'')
     else Inr ())"

definition unix_plan :: "'k native \<Rightarrow> network_config \<Rightarrow> ('k, mutation list) io" where
  "unix_plan N c =
     io_bind (io_lift (network_config_validate c)) (\<lambda>_.
     if (case transport_peer c of V6 y \<Rightarrow> is_unicast_link_local y | V4 _ \<Rightarrow> False)
     then io_fail (net_failure ''Link-local IPv6 transport peers require an explicit native scope'')
     else
     io_bind (io_lift (safe_name (if_name (interface c)))) (\<lambda>_.
     io_bind (io_get (nt_index N)) (\<lambda>ifs.
     io_bind (io_lift (same_interface ifs c)) (\<lambda>_.
     io_bind (nt_script N) (\<lambda>_.
     io_bind (nt_plan N c) (\<lambda>items.
     io_lift (merge_mutations [] items)))))))"

definition pending_address :: "key \<Rightarrow> json option \<Rightarrow> bool" where
  "pending_address k actual \<longleftrightarrow>
     contains_str ''-address@'' (key_kind k)
     \<and> (case actual of Some v \<Rightarrow> jget ''unusable'' v = Some (JBool True) | None \<Rightarrow> False)"

text \<open>The wait for a new address to become usable, at most \<open>n\<close> more polls.\<close>

fun await_state :: "'k native \<Rightarrow> mutation \<Rightarrow> nat \<Rightarrow> ('k, json option) io" where
  "await_state N item n =
     io_bind (unix_read N (mut_key item)) (\<lambda>actual.
     if unix_equivalent N (mut_key item) actual (intended item) then io_return actual
     else case n of
       Suc n' \<Rightarrow> if pending_address (mut_key item) actual then await_state N item n'
         else io_fail (net_failure ''Native network mutation did not produce the journaled state'')
     | 0 \<Rightarrow> io_fail (net_failure ''Native network mutation did not produce the journaled state''))"

declare await_state.simps [simp del]

definition unix_apply_one ::
  "'k native \<Rightarrow> network_config \<Rightarrow> mutation \<Rightarrow> ('k, json option) io" where
  "unix_apply_one N c item =
     io_bind (unix_read N (mut_key item)) (\<lambda>current.
     if current \<noteq> before item
        \<and> \<not> unix_equivalent N (mut_key item) current (intended item)
        \<and> \<not> nt_implicit N c (mut_key item) current (before item)
     then io_fail (new_error Conflict ''Network state changed during transaction application'')
     else
     io_bind (if \<not> unix_equivalent N (mut_key item) current (intended item)
              then unix_write N (mut_key item) (intended item) else io_return ()) (\<lambda>_.
     await_state N item (nt_polls N)))"

definition unix_observe :: "'k native \<Rightarrow> network_config \<Rightarrow> ('k, network_observation) io" where
  "unix_observe N c =
     io_bind (io_lift (network_config_validate c)) (\<lambda>_.
     io_bind (io_get (nt_index N)) (\<lambda>ifs.
     io_bind (io_lift (same_interface ifs c)) (\<lambda>_.
     nt_observe N c)))"

end
