(* ===== verification/UnixLifecycle.thy ===== *)
theory UnixLifecycle
  imports UnixNet
begin

text \<open>
  \<open>crates/net/src/unix/lifecycle.rs\<close>: the lockstep protocol with the installed \<open>vpnc-script\<close>. The
  planned mutations are sorted into groups; the shell names groups over a pipe, and only the
  caller's \<open>operation\<close> turns a named group into mutations, each at most once. The shell is
  arbitrary: whatever it prints is a list of events.
\<close>

section \<open>The inventory\<close>

record inventory =
  inv_groups :: "(string \<times> nat list) list"
  inv_excludes :: "string list"
  inv_includes :: "string list"
  inv_resolver :: string

definition first_interface :: "mutation list \<Rightarrow> nat" where
  "first_interface ms =
     (case position (\<lambda>m. contains_str ''-mtu@'' (key_kind (mut_key m))) ms of
        Some i \<Rightarrow> i | None \<Rightarrow> length ms)"

definition peer_prefix :: "network_config \<Rightarrow> string" where
  "peer_prefix c =
     show_ip (transport_peer c) @ ''/'' @ (if is_ipv4 (transport_peer c) then ''32'' else ''128'')"

definition text_entry :: "string \<Rightarrow> json \<Rightarrow> string option" where
  "text_entry k v = (case jget k v of Some x \<Rightarrow> as_str x | None \<Rightarrow> None)"

definition automatic_route :: "network_config \<Rightarrow> nat \<Rightarrow> nat \<Rightarrow> mutation \<Rightarrow> bool" where
  "automatic_route c first i m \<longleftrightarrow>
     first \<le> i \<and> key_kind (mut_key m) = ''linux-route''
     \<and> (case intended m of
          Some (JArray routes) \<Rightarrow>
            list_ex (\<lambda>r. text_entry ''protocol'' r = Some ''kernel''
                         \<and> text_entry ''dev'' r = Some (if_name (interface c))) routes
        | _ \<Rightarrow> False)"

definition interface_key :: "mutation \<Rightarrow> bool" where
  "interface_key m \<longleftrightarrow>
     list_ex (\<lambda>k. contains_str k (key_kind (mut_key m)))
       [''-mtu@'', ''-up@'', ''-address@'', ''-addrgen@'', ''-auto-route@'']"

definition push_group :: "string \<Rightarrow> nat \<Rightarrow> inventory \<Rightarrow> inventory" where
  "push_group g i iv =
     iv\<lparr>inv_groups :=
       (if map_of (inv_groups iv) g = None then inv_groups iv @ [(g, [i])]
        else map (\<lambda>(h, is). if h = g then (h, is @ [i]) else (h, is)) (inv_groups iv))\<rparr>"

definition classify ::
  "network_config \<Rightarrow> nat \<Rightarrow> nat \<Rightarrow> mutation \<Rightarrow> inventory \<Rightarrow> inventory result" where
  "classify c first i m iv =
     (let k = key_kind (mut_key m) in
      if interface_key m \<or> automatic_route c first i m
      then Inr (push_group ''interface'' i iv)
      else if k = ''linux-route'' \<or> k = ''mac-route'' then
        let prefix = last_piece (CHR ''|'') (key_name (mut_key m)) in
        if i < first \<and> prefix = peer_prefix c then Inr (push_group ''gateway'' i iv)
        else Inr (push_group (''route '' @ prefix) i
               (if i < first then iv\<lparr>inv_excludes := inv_excludes iv @ [prefix]\<rparr>
                else iv\<lparr>inv_includes := inv_includes iv @ [prefix]\<rparr>))
      else if starts_with ''linux-resolvconf'' k
      then Inr (push_group ''resolvconf'' i (iv\<lparr>inv_resolver := ''resolvconf''\<rparr>))
      else if starts_with ''linux-dns@'' k \<or> starts_with ''linux-domains@'' k
              \<or> starts_with ''linux-default-dns@'' k
      then Inr (push_group ''resolved'' i (iv\<lparr>inv_resolver := ''resolved''\<rparr>))
      else if k = ''mac-store''
      then Inr (push_group ''darwin'' i (iv\<lparr>inv_resolver := ''darwin''\<rparr>))
      else Inl (net_failure ''Unclassified journal mutation''))"

fun classify_all ::
  "network_config \<Rightarrow> nat \<Rightarrow> nat \<Rightarrow> mutation list \<Rightarrow> inventory \<Rightarrow> inventory result" where
  "classify_all c first i [] iv = Inr iv"
| "classify_all c first i (m # ms) iv =
     rbind (classify c first i m iv) (\<lambda>iv'. classify_all c first (Suc i) ms iv')"

definition build_inventory :: "network_config \<Rightarrow> mutation list \<Rightarrow> inventory result" where
  "build_inventory c ms =
     classify_all c (first_interface ms) 0 ms
       \<lparr>inv_groups = [], inv_excludes = [], inv_includes = [], inv_resolver = ''none''\<rparr>"

section \<open>The environment of the shell\<close>

definition reason_word :: "network_reason \<Rightarrow> string result" where
  "reason_word r =
     (case r of Connect \<Rightarrow> Inr ''connect'' | Reconnect \<Rightarrow> Inr ''reconnect''
      | DisconnectReason \<Rightarrow> Inr ''disconnect''
      | _ \<Rightarrow> Inl (net_failure ''Unexpected configuring lifecycle''))"

definition route_variables :: "string \<Rightarrow> nat \<times> string \<Rightarrow> (string \<times> string) list result" where
  "route_variables base r =
     (case r of (i, route) \<Rightarrow>
      rbind (ok_or (net_failure ''Invalid route inventory'') (split_once (CHR ''/'') route))
        (\<lambda>(a, p). let name = base @ ''_'' @ show_nat i in
           Inr [(name @ ''_ADDR'', a), (name @ ''_MASKLEN'', p), (name @ ''_MASK'', [])]))"

definition split_variables ::
  "string \<Rightarrow> string list \<Rightarrow> bool \<Rightarrow> (string \<times> string) list result" where
  "split_variables suffix all_routes v6 =
     (let base = (if v6 then ''CISCO_IPV6_'' else ''CISCO_'') @ ''SPLIT_'' @ suffix;
          mine = filter (\<lambda>p. (CHR '':'' \<in> set p) = v6) all_routes
      in rbind (map_result (route_variables base) (List.enumerate 0 mine)) (\<lambda>vars.
         Inr ((base, show_nat (length mine)) # concat vars)))"

definition shell_environment ::
  "network_config \<Rightarrow> network_reason \<Rightarrow> inventory \<Rightarrow> (string \<times> string) list result" where
  "shell_environment c r iv =
     rbind (reason_word r) (\<lambda>word.
     rbind (split_variables ''EXC'' (inv_excludes iv) False) (\<lambda>e4.
     rbind (split_variables ''EXC'' (inv_excludes iv) True) (\<lambda>e6.
     rbind (split_variables ''INC'' (inv_includes iv) False) (\<lambda>i4.
     rbind (split_variables ''INC'' (inv_includes iv) True) (\<lambda>i6.
     Inr ([(''PATH'', ''/usr/sbin:/usr/bin:/sbin:/bin''), (''LC_ALL'', ''C''), (''reason'', word),
           (''OCGUI_RESOLVER'', inv_resolver iv),
           (''VPNGATEWAY'', show_ip (transport_peer c)), (''TUNDEV'', if_name (interface c)),
           (''CISCO_BANNER'', []), (''INTERNAL_IP4_ADDRESS'', []),
           (''INTERNAL_IP6_ADDRESS'', []), (''INTERNAL_IP6_NETMASK'', []),
           (''INTERNAL_IP4_DNS'', if dns_servers c = [] then [] else ''planned''),
           (''INTERNAL_IP6_DNS'', [])] @ e4 @ e6 @ i4 @ i6))))))"

section \<open>The lockstep\<close>

fun run_group ::
  "(nat \<Rightarrow> ('m, unit) io) \<Rightarrow> nat list \<Rightarrow> bool list \<Rightarrow> ('m, bool list) io" where
  "run_group operation [] visited = io_return visited"
| "run_group operation (i # is) visited =
     (if visited ! i then io_fail (net_failure ''Replayed vpnc lifecycle operation'')
      else io_bind (operation i) (\<lambda>_. run_group operation is (visited[i := True])))"

definition request_key :: "string \<Rightarrow> string" where
  "request_key line =
     (let request = rev (dropWhile (\<lambda>c. c = CHR 0x0A) (rev line)) in
      case strip_suffix '' -'' request of Some k \<Rightarrow> k | None \<Rightarrow> request)"

definition serve_request ::
  "network_config \<Rightarrow> network_reason \<Rightarrow> (string \<times> nat list) list \<Rightarrow> (nat \<Rightarrow> ('m, unit) io)
     \<Rightarrow> string \<Rightarrow> bool list \<Rightarrow> ('m, bool list) io" where
  "serve_request c r groups operation line visited =
     (let k = request_key line in
      if k = ''gateway'' \<and> map_of groups k = None \<and> is_loopback (transport_peer c)
      then io_return visited
      else case map_of groups k of
        None \<Rightarrow> io_fail (net_failure ''Unplanned vpnc lifecycle operation'')
      | Some is \<Rightarrow>
          run_group operation (if r = DisconnectReason then rev is else is) visited)"

fun serve ::
  "network_config \<Rightarrow> network_reason \<Rightarrow> (string \<times> nat list) list \<Rightarrow> (nat \<Rightarrow> ('m, unit) io)
     \<Rightarrow> shell_event list \<Rightarrow> bool list \<Rightarrow> ('m, bool list) io" where
  "serve c r groups operation [] visited = io_return visited"
| "serve c r groups operation (ShTimeout # es) visited =
     io_fail (net_failure ''vpnc lifecycle exceeded deadline'')"
| "serve c r groups operation (ShUnreadable # es) visited =
     io_fail (net_failure ''Malformed lifecycle operation'')"
| "serve c r groups operation (ShLine line ack # es) visited =
     (if len line > 512 \<or> \<not> starts_with [CHR 0x0A] (rev line)
      then io_fail (net_failure ''Malformed lifecycle operation'')
      else io_bind (serve_request c r groups operation line visited) (\<lambda>visited'.
        if ack then serve c r groups operation es visited'
        else io_fail (net_failure ''Lifecycle acknowledgement failed'')))"

definition execute ::
  "('m, unit) io \<Rightarrow> ((string \<times> string) list \<Rightarrow> ('m, shell_run) io) \<Rightarrow> network_config
     \<Rightarrow> network_reason \<Rightarrow> mutation list \<Rightarrow> (nat \<Rightarrow> ('m, unit) io) \<Rightarrow> ('m, unit) io" where
  "execute script shell c r ms operation =
     io_bind (io_lift (build_inventory c ms)) (\<lambda>iv.
     io_bind script (\<lambda>_.
     io_bind (io_lift (shell_environment c r iv)) (\<lambda>env.
     io_bind (shell env) (\<lambda>run.
     if \<not> sh_spawned run then io_fail (net_failure ''Cannot launch journaled vpnc lifecycle'')
     else
     io_bind (serve c r (inv_groups iv) operation (sh_events run)
                (replicate (length ms) False)) (\<lambda>visited.
     if \<not> sh_exited run then io_fail (net_failure ''vpnc lifecycle exceeded deadline'')
     else if \<not> sh_success run then io_fail (net_failure ''vpnc lifecycle failed'')
     else if list_ex (\<lambda>v. \<not> v) visited
     then io_fail (net_failure ''vpnc lifecycle omitted a planned mutation'')
     else io_return ())))))"

definition unix_apply_script ::
  "(string \<Rightarrow> u32) \<Rightarrow> ('m, unit) io \<Rightarrow> ((string \<times> string) list \<Rightarrow> ('m, shell_run) io)
     \<Rightarrow> network_config \<Rightarrow> network_reason \<Rightarrow> mutation list \<Rightarrow> (nat \<Rightarrow> ('m, unit) io)
     \<Rightarrow> ('m, unit) io" where
  "unix_apply_script ifs script shell c r ms operation =
     io_bind (io_lift (network_config_validate c)) (\<lambda>_.
     io_bind (io_lift (if r \<noteq> DisconnectReason then same_interface ifs c else Inr ())) (\<lambda>_.
     execute script shell c r ms operation))"

section \<open>What a shell can bring about\<close>

text \<open>How the end of a lockstep follows from the end of the operations it ran.\<close>

definition follows :: "unit outcome \<Rightarrow> 'a outcome \<Rightarrow> bool" where
  "follows q r \<longleftrightarrow>
     (case q of Done _ \<Rightarrow> r \<noteq> Crashed | Fault e \<Rightarrow> r = Fault e | Crashed \<Rightarrow> r = Crashed)"

definition marks :: "bool list \<Rightarrow> nat list \<Rightarrow> bool list \<Rightarrow> bool" where
  "marks v os v' \<longleftrightarrow> length v' = length v \<and> (\<forall>i<length v. v' ! i \<longleftrightarrow> v ! i \<or> i \<in> set os)"

definition ran ::
  "(nat \<Rightarrow> ('m, unit) io) \<Rightarrow> bool list \<Rightarrow> nat list \<Rightarrow> 'm \<Rightarrow> bool list outcome \<Rightarrow> 'm \<Rightarrow> bool" where
  "ran operation v os m r m' \<longleftrightarrow>
     distinct os \<and> (\<forall>i\<in>set os. i < length v \<and> \<not> v ! i)
     \<and> (\<exists>q. io_each operation os m = (q, m') \<and> follows q r
            \<and> (\<forall>v'. r = Done v' \<longrightarrow> q = Done () \<and> marks v os v'))"

lemma ran_Nil: "(\<And>v'. r = Done v' \<Longrightarrow> v' = v) \<Longrightarrow> r \<noteq> Crashed \<Longrightarrow> ran operation v [] m r m"
  by (auto simp: ran_def io_return_def follows_def marks_def)

lemma ran_step:
  assumes a: "ran operation v xs m (Done v1) m1" and b: "ran operation v1 ys m1 r m'"
  shows "ran operation v (xs @ ys) m r m'"
proof -
  from a have x: "distinct xs" "\<forall>i\<in>set xs. i < length v \<and> \<not> v ! i" "marks v xs v1"
    "io_each operation xs m = (Done (), m1)"
    by (auto simp: ran_def)
  from b obtain q where y: "distinct ys" "\<forall>i\<in>set ys. i < length v1 \<and> \<not> v1 ! i"
    "io_each operation ys m1 = (q, m')" "follows q r"
    "\<forall>v'. r = Done v' \<longrightarrow> q = Done () \<and> marks v1 ys v'"
    by (auto simp: ran_def)
  have n: "\<forall>i\<in>set ys. i < length v \<and> \<not> v ! i \<and> i \<notin> set xs"
    using y(2) x(3) by (auto simp: marks_def)
  have "io_each operation (xs @ ys) m = (q, m')"
    by (simp add: io_each_append io_bind_def x(4) y(3))
  moreover have "marks v (xs @ ys) v'" if "r = Done v'" for v'
    using y(5) that x(3) by (auto simp: marks_def)
  ultimately show ?thesis
    using x(1,2) y(1,4,5) n by (auto simp: ran_def)
qed

lemma run_group_ran:
  assumes "run_group operation is v m = (r, m')" and "set is \<subseteq> {..<length v}"
  shows "\<exists>os. ran operation v os m r m'"
  using assms
proof (induction "is" arbitrary: v m)
  case Nil
  then show ?case
    by (intro exI [of _ "[]"]) (auto simp: io_return_def intro!: ran_Nil)
next
  case (Cons i "is")
  show ?case
  proof (cases "v ! i")
    case True
    with Cons.prems show ?thesis
      by (intro exI [of _ "[]"]) (auto simp: io_fail_def intro!: ran_Nil)
  next
    case new: False
    obtain q m1 where o: "operation i m = (q, m1)" by (cases "operation i m")
    have i: "i < length v" using Cons.prems by simp
    show ?thesis
    proof (cases q)
      case (Done u)
      have "run_group operation is (v[i := True]) m1 = (r, m')"
        using Cons.prems(1) new o Done by (simp add: io_bind_def)
      from Cons.IH [OF this] Cons.prems(2)
      obtain os where os: "ran operation (v[i := True]) os m1 r m'" by auto
      have "ran operation v [i] m (Done (v[i := True])) m1"
        using new i o Done
        by (auto simp: ran_def io_bind_def io_return_def follows_def marks_def nth_list_update)
      from ran_step [OF this os] show ?thesis by blast
    next
      case (Fault e)
      then show ?thesis
        using Cons.prems new i o
        by (intro exI [of _ "[i]"]) (auto simp: ran_def io_bind_def follows_def)
    next
      case Crashed
      then show ?thesis
        using Cons.prems new i o
        by (intro exI [of _ "[i]"]) (auto simp: ran_def io_bind_def follows_def)
    qed
  qed
qed

definition groups_within :: "nat \<Rightarrow> (string \<times> nat list) list \<Rightarrow> bool" where
  "groups_within n gs \<longleftrightarrow> (\<forall>(g, is)\<in>set gs. set is \<subseteq> {..<n})"

lemma serve_request_ran:
  assumes "serve_request c reason gs operation line v m = (r, m')" "groups_within (length v) gs"
  shows "\<exists>os. ran operation v os m r m'"
proof (cases "map_of gs (request_key line)")
  case None
  with assms(1) show ?thesis
    by (intro exI [of _ "[]"])
       (auto simp: serve_request_def io_return_def io_fail_def Let_def split: if_splits
          intro!: ran_Nil)
next
  case (Some "is")
  have "set is \<subseteq> {..<length v}"
    using map_of_SomeD [OF Some] assms(2) by (auto simp: groups_within_def)
  then have "set (if reason = DisconnectReason then rev is else is) \<subseteq> {..<length v}"
    by simp
  moreover have
    "run_group operation (if reason = DisconnectReason then rev is else is) v m = (r, m')"
    using assms(1) Some by (simp add: serve_request_def Let_def)
  ultimately show ?thesis by (blast intro: run_group_ran)
qed

lemma serve_ran:
  assumes "serve c reason gs operation es v m = (r, m')" "groups_within (length v) gs"
  shows "\<exists>os. ran operation v os m r m'"
  using assms
proof (induction c reason gs operation es v arbitrary: m rule: serve.induct)
  case (1 c reason gs operation v)
  then show ?case
    by (intro exI [of _ "[]"]) (auto simp: io_return_def intro!: ran_Nil)
next
  case (4 c reason gs operation line ack es v)
  show ?case
  proof (cases "len line > 512 \<or> \<not> starts_with [CHR 0x0A] (rev line)")
    case True
    with "4.prems" show ?thesis
      by (intro exI [of _ "[]"]) (auto simp: io_fail_def intro!: ran_Nil)
  next
    case ok: False
    obtain q m1 where s: "serve_request c reason gs operation line v m = (q, m1)"
      by (cases "serve_request c reason gs operation line v m")
    from serve_request_ran [OF this "4.prems"(2)]
    obtain xs where xs: "ran operation v xs m q m1" ..
    show ?thesis
    proof (cases q)
      case (Done v1)
      have len: "length v1 = length v" using xs Done by (auto simp: ran_def marks_def)
      show ?thesis
      proof (cases ack)
        case True
        have "serve c reason gs operation es v1 m1 = (r, m')"
          using "4.prems"(1) ok s Done True by (simp add: io_bind_def)
        then obtain ys where "ran operation v1 ys m1 r m'"
          using "4.IH" [OF ok True] "4.prems"(2) len by metis
        with xs Done show ?thesis by (blast intro: ran_step)
      next
        case False
        have "r = Fault (net_failure ''Lifecycle acknowledgement failed'')" "m' = m1"
          using "4.prems"(1) ok s Done False by (auto simp: io_bind_def io_fail_def)
        with xs Done show ?thesis by (auto simp: ran_def follows_def)
      qed
    next
      case (Fault e)
      then have "r = Fault e" "m' = m1" using "4.prems"(1) ok s by (auto simp: io_bind_def)
      with xs Fault show ?thesis by (auto simp: ran_def follows_def split: outcome.splits)
    next
      case Crashed
      then have "r = Crashed" "m' = m1" using "4.prems"(1) ok s by (auto simp: io_bind_def)
      with xs Crashed show ?thesis by (auto simp: ran_def follows_def split: outcome.splits)
    qed
  qed
qed (auto simp: io_fail_def intro!: exI [of _ "[]"] ran_Nil)

lemma push_group_within:
  "groups_within n (inv_groups iv) \<Longrightarrow> i < n \<Longrightarrow> groups_within n (inv_groups (push_group g i iv))"
  by (fastforce simp: groups_within_def push_group_def split: if_splits)

lemma push_group_more [simp]:
  "inv_groups (iv\<lparr>inv_excludes := x\<rparr>) = inv_groups iv"
  "inv_groups (iv\<lparr>inv_includes := x\<rparr>) = inv_groups iv"
  "inv_groups (iv\<lparr>inv_resolver := s\<rparr>) = inv_groups iv"
  by (cases iv, simp)+

lemma classify_within:
  "classify c first i m iv = Inr iv' \<Longrightarrow> groups_within n (inv_groups iv) \<Longrightarrow> i < n
    \<Longrightarrow> groups_within n (inv_groups iv')"
  by (auto simp: classify_def Let_def split: if_splits intro: push_group_within)

lemma classify_all_within:
  "classify_all c first i ms iv = Inr iv' \<Longrightarrow> groups_within n (inv_groups iv) \<Longrightarrow> i + length ms \<le> n
    \<Longrightarrow> groups_within n (inv_groups iv')"
proof (induction c first i ms iv rule: classify_all.induct)
  case (2 c first i m ms iv)
  then obtain x where x: "classify c first i m iv = Inr x"
    "classify_all c first (Suc i) ms x = Inr iv'" by (auto simp: result_simps)
  have "groups_within n (inv_groups x)"
    using classify_within [OF x(1) "2.prems"(2)] "2.prems"(3) by simp
  with "2.IH" x "2.prems"(3) show ?case by simp
qed simp

lemma build_inventory_within:
  "build_inventory c ms = Inr iv \<Longrightarrow> groups_within (length ms) (inv_groups iv)"
  unfolding build_inventory_def
  by (erule classify_all_within) (simp_all add: groups_within_def)

text \<open>The lockstep keeps what its operations keep.\<close>

lemma keeps_run_group:
  "(\<And>i. i \<in> set is \<Longrightarrow> keeps I (operation i)) \<Longrightarrow> keeps I (run_group operation is v)"
  by (induction "is" arbitrary: v) (auto intro!: keeps_rules)

lemma keeps_serve:
  assumes "\<And>i. i < n \<Longrightarrow> keeps I (operation i)" and "groups_within n gs"
  shows "keeps I (serve c reason gs operation es v)"
  using assms
proof (induction c reason gs operation es v rule: serve.induct)
  case (4 c reason gs operation line ack es v)
  have "set is \<subseteq> {..<n}" if "map_of gs k = Some is" for k "is"
    using map_of_SomeD [OF that] "4.prems"(2) by (auto simp: groups_within_def)
  then have "keeps I (serve_request c reason gs operation line v)"
    unfolding serve_request_def Let_def
    by (intro keeps_rules keeps_run_group "4.prems"(1)) (auto split: if_splits)
  with 4 show ?case by (auto intro!: keeps_rules)
qed (auto intro!: keeps_rules)

lemma keeps_execute:
  assumes "\<And>i. i < length ms \<Longrightarrow> keeps I (operation i)" "keeps I script" "\<And>e. keeps I (shell e)"
  shows "keeps I (execute script shell c reason ms operation)"
proof -
  have "keeps I (case build_inventory c ms of Inl e \<Rightarrow> io_fail e | Inr iv \<Rightarrow>
     io_bind script (\<lambda>_.
     io_bind (io_lift (shell_environment c reason iv)) (\<lambda>env.
     io_bind (shell env) (\<lambda>run.
     if \<not> sh_spawned run then io_fail (net_failure ''Cannot launch journaled vpnc lifecycle'')
     else
     io_bind (serve c reason (inv_groups iv) operation (sh_events run)
                (replicate (length ms) False)) (\<lambda>visited.
     if \<not> sh_exited run then io_fail (net_failure ''vpnc lifecycle exceeded deadline'')
     else if \<not> sh_success run then io_fail (net_failure ''vpnc lifecycle failed'')
     else if list_ex (\<lambda>v. \<not> v) visited
     then io_fail (net_failure ''vpnc lifecycle omitted a planned mutation'')
     else io_return ())))))" (is "keeps I ?f")
  proof (cases "build_inventory c ms")
    case (Inr iv)
    note within = build_inventory_within [OF Inr]
    show ?thesis
      unfolding Inr by simp (intro keeps_rules assms keeps_serve [OF _ within])
  qed (simp add: keeps_rules)
  moreover have "?f = execute script shell c reason ms operation"
    by (auto simp: execute_def io_bind_def io_lift_def io_fail_def fun_eq_iff split: sum.splits)
  ultimately show ?thesis by simp
qed

lemma keeps_apply_script:
  assumes "\<And>i. i < length ms \<Longrightarrow> keeps I (operation i)" "keeps I script" "\<And>e. keeps I (shell e)"
  shows "keeps I (unix_apply_script ifs script shell c reason ms operation)"
  unfolding unix_apply_script_def by (intro keeps_rules keeps_execute assms)

end
