(* ===== verification/Journal.thy ===== *)
theory Journal
  imports UnixLifecycle Worker
begin

text \<open>
  \<open>crates/net/src/journal.rs\<close> (with the file checks of \<open>secure.rs\<close>), as built for Unix: the
  write-ahead journal of network mutations. A machine is the operating system's network state,
  the journal directory and the identity of the boot. Every effect on a file takes the next fate
  of the machine: it succeeds, it fails, or the process dies in it; the last two leave a part of
  the effect behind. Reading and writing JSON and UUIDs are the crates \<open>serde_json\<close> and \<open>uuid\<close>.
\<close>

section \<open>The machine\<close>

record file_meta =
  fm_symlink :: bool
  fm_regular :: bool
  fm_uid :: nat
  fm_mode :: u32
  fm_nlink :: nat

record jfile =
  f_meta :: file_meta
  f_data :: "u8 list"

datatype fate = Go | Refuse nat | Die nat

record 'k machine =
  kernel :: 'k
  files :: "(string \<times> jfile) list"
  fates :: "fate list"
  boot :: string
  euid :: nat

text \<open>An effect that may be short short after \<open>n\<close> units of its work.\<close>

definition effect :: "err \<Rightarrow> (nat option \<Rightarrow> 'k machine \<Rightarrow> 'k machine) \<Rightarrow> ('k machine, unit) io" where
  "effect e f m =
     (case fates m of
        [] \<Rightarrow> (Done (), f None m)
      | Go # fs \<Rightarrow> (Done (), f None (m\<lparr>fates := fs\<rparr>))
      | Refuse n # fs \<Rightarrow> (Fault e, f (Some n) (m\<lparr>fates := fs\<rparr>))
      | Die n # fs \<Rightarrow> (Crashed, f (Some n) (m\<lparr>fates := fs\<rparr>)))"

definition whole :: "('k machine \<Rightarrow> 'k machine) \<Rightarrow> nat option \<Rightarrow> 'k machine \<Rightarrow> 'k machine" where
  "whole f short m = (if short = Some 0 then m else f m)"

definition probe :: "err \<Rightarrow> ('k machine, unit) io" where
  "probe e = effect e (\<lambda>_ m. m)"

definition on_kernel :: "('k, 'a) io \<Rightarrow> ('k machine, 'a) io" where
  "on_kernel f m = (case f (kernel m) of (r, k) \<Rightarrow> (r, m\<lparr>kernel := k\<rparr>))"

section \<open>Files\<close>

definition denied :: err where
  "denied = new_error AuthorizationDenied
     ''Network operation requires protected administrator-owned resources''"

definition fresh_meta :: file_meta where
  "fresh_meta = \<lparr>fm_symlink = False, fm_regular = True, fm_uid = 0, fm_mode = 0x180, fm_nlink = 1\<rparr>"

definition openable :: "jfile \<Rightarrow> bool" where
  "openable f \<longleftrightarrow> \<not> fm_symlink (f_meta f) \<and> fm_regular (f_meta f) \<and> fm_uid (f_meta f) = 0
     \<and> fm_mode (f_meta f) AND 0x3F = 0 \<and> fm_nlink (f_meta f) = 1"

definition privileged :: "('k machine, unit) io" where
  "privileged = io_bind (io_get euid) (\<lambda>u. if u = 0 then io_return () else io_fail denied)"

fun put_file :: "string \<Rightarrow> jfile \<Rightarrow> (string \<times> jfile) list \<Rightarrow> (string \<times> jfile) list" where
  "put_file n f [] = [(n, f)]"
| "put_file n f ((n', f') # fs) = (if n = n' then (n, f) # fs else (n', f') # put_file n f fs)"

definition del_file :: "string \<Rightarrow> (string \<times> jfile) list \<Rightarrow> (string \<times> jfile) list" where
  "del_file n fs = filter (\<lambda>(n', _). n' \<noteq> n) fs"

text \<open>\<open>secure::open(path, true)\<close>: the file is made when missing, then its owner, mode and links are
  checked; \<open>write_file\<close> replaces the contents of an open file.\<close>

definition open_create :: "string \<Rightarrow> ('k machine, unit) io" where
  "open_create name =
     io_bind (effect denied (whole (\<lambda>m.
       if map_of (files m) name = None
       then m\<lparr>files := put_file name \<lparr>f_meta = fresh_meta, f_data = []\<rparr> (files m)\<rparr> else m))) (\<lambda>_.
     io_bind (io_get files) (\<lambda>fs.
     case map_of fs name of
       Some f \<Rightarrow> if openable f then io_return () else io_fail denied
     | None \<Rightarrow> io_fail denied))"

definition open_existing :: "string \<Rightarrow> ('k machine, u8 list) io" where
  "open_existing name =
     io_bind (probe denied) (\<lambda>_.
     io_bind (io_get files) (\<lambda>fs.
     case map_of fs name of
       Some f \<Rightarrow> if openable f then io_return (f_data f) else io_fail denied
     | None \<Rightarrow> io_fail denied))"

definition write_file :: "string \<Rightarrow> u8 list \<Rightarrow> nat option \<Rightarrow> 'k machine \<Rightarrow> 'k machine" where
  "write_file name bytes short m =
     (case map_of (files m) name of
        None \<Rightarrow> m
      | Some f \<Rightarrow> m\<lparr>files := put_file name
          (f\<lparr>f_data := (case short of None \<Rightarrow> bytes | Some n \<Rightarrow> take n bytes)\<rparr>) (files m)\<rparr>)"

definition rename_file :: "string \<Rightarrow> string \<Rightarrow> 'k machine \<Rightarrow> 'k machine" where
  "rename_file a b m =
     (case map_of (files m) a of
        None \<Rightarrow> m
      | Some f \<Rightarrow> m\<lparr>files := put_file b f (del_file a (files m))\<rparr>)"

definition sync_directory :: "('k machine, unit) io" where
  "sync_directory = probe (net_failure ''Cannot durably commit network journal'')"

section \<open>The journal\<close>

record journal =
  jversion :: u32
  transaction :: transaction_id
  boot_id :: string
  jconfig :: network_config
  mutations :: "mutation list"
  pending_operation :: "nat option"

record journal_codec =
  jc_encode :: "journal \<Rightarrow> u8 list"
  jc_decode :: "u8 list \<Rightarrow> journal option"
  jc_uuid :: "uuid \<Rightarrow> string"
  jc_parse :: "string \<Rightarrow> uuid option"

definition journal_error :: err where
  "journal_error = new_error RecoveryRequired ''Network transaction journal requires recovery''"

definition max_journal :: int where
  "max_journal = 16 * 1024 * 1024"

definition max_mutations :: int where
  "max_mutations = 8192"

definition stem :: "journal_codec \<Rightarrow> transaction_id \<Rightarrow> string" where
  "stem K t = jc_uuid K (tx_service_instance_id t) @ ''-'' @ jc_uuid K (tx_attempt_id t)"

definition journal_file :: "journal_codec \<Rightarrow> transaction_id \<Rightarrow> string" where
  "journal_file K t = stem K t @ ''.json''"

definition pending_file :: "journal_codec \<Rightarrow> transaction_id \<Rightarrow> string" where
  "pending_file K t = stem K t @ ''.pending''"

definition journal_lock :: "('k machine, unit) io" where
  "journal_lock =
     io_bind privileged (\<lambda>_.
     io_bind (probe denied) (\<lambda>_.
     io_bind (open_create ''lock'') (\<lambda>_.
     probe journal_error)))"

definition well_formed_journal :: "transaction_id \<Rightarrow> journal \<Rightarrow> bool" where
  "well_formed_journal t j \<longleftrightarrow>
     \<not> (jversion j \<noteq> 1 \<or> transaction j \<noteq> t \<or> len (mutations j) > max_mutations
        \<or> (case pending_operation j of Some i \<Rightarrow> i \<ge> length (mutations j) | None \<Rightarrow> False))"

definition load :: "journal_codec \<Rightarrow> transaction_id \<Rightarrow> ('k machine, journal option) io" where
  "load K t =
     io_bind (probe journal_error) (\<lambda>_.
     io_bind (io_get files) (\<lambda>fs.
     if map_of fs (journal_file K t) = None then io_return None
     else
     io_bind (open_existing (journal_file K t)) (\<lambda>bytes.
     io_bind (probe journal_error) (\<lambda>_.
     if len bytes > max_journal then io_fail journal_error
     else
     io_bind (probe journal_error) (\<lambda>_.
     io_bind (io_lift (ok_or journal_error (jc_decode K bytes))) (\<lambda>j.
     if \<not> well_formed_journal t j then io_fail journal_error
     else
     io_bind (io_lift (network_config_validate (jconfig j))) (\<lambda>_.
     io_return (Some j))))))))"

definition save :: "journal_codec \<Rightarrow> journal \<Rightarrow> ('k machine, unit) io" where
  "save K j =
     (let tmp = pending_file K (transaction j) in
     io_bind (open_create tmp) (\<lambda>_.
     io_bind (effect journal_error (whole (write_file tmp [] None))) (\<lambda>_.
     io_bind (probe journal_error) (\<lambda>_.
     io_bind (effect journal_error (write_file tmp (jc_encode K j))) (\<lambda>_.
     io_bind (probe journal_error) (\<lambda>_.
     if len (jc_encode K j) > max_journal then io_fail journal_error
     else
     io_bind (probe journal_error) (\<lambda>_.
     io_bind (effect journal_error
       (whole (rename_file tmp (journal_file K (transaction j))))) (\<lambda>_.
     sync_directory))))))))"

definition read_boot_id :: "('k machine, string) io" where
  "read_boot_id =
     io_bind (probe (net_failure ''Cannot read OS boot identity'')) (\<lambda>_. io_get boot)"

section \<open>Restoring\<close>

definition persistent_owned :: "mutation \<Rightarrow> bool" where
  "persistent_owned m \<longleftrightarrow>
     key_kind (mut_key m) = ''win-nrpt''
     \<and> (case applied m of
          Some v \<Rightarrow> (case jget ''names'' v of Some (JArray ns) \<Rightarrow> ns \<noteq> [] | _ \<Rightarrow> False)
        | None \<Rightarrow> False)"

definition owned_value :: "mutation \<Rightarrow> json option" where
  "owned_value m = (case applied m of Some v \<Rightarrow> Some v | None \<Rightarrow> intended m)"

text \<open>Whether the state \<open>current\<close> of a recorded key is to be overwritten with what was there
  before: the guards of \<open>restore_one\<close>, in their order.\<close>

definition restore_verdict ::
  "'k native \<Rightarrow> journal \<Rightarrow> nat \<Rightarrow> bool \<Rightarrow> json option \<Rightarrow> bool result" where
  "restore_verdict N j i same_boot current =
     (let m = mutations j ! i; equal = unix_equivalent N (mut_key m) current in
      if equal (before m) then Inr False
      else if pending_operation j = Some i \<and> \<not> equal (intended m)
      then Inl (new_error RecoveryRequired
        ''Interrupted network mutation has unobserved state; preserved for explicit recovery'')
      else if current = None \<and> intended m \<noteq> None then Inr False
      else if \<not> same_boot \<and> current = None then Inr False
      else if \<not> same_boot \<and> \<not> persistent_owned m
      then Inl (new_error RecoveryRequired
        ''Network interface identity belongs to a previous OS boot; current state preserved'')
      else if \<not> equal (owned_value m)
      then Inl (new_error RecoveryRequired
        ''Concurrent network change preserved; retry service repair after resolving conflict'')
      else Inr True)"

definition restore_one :: "'k native \<Rightarrow> journal \<Rightarrow> nat \<Rightarrow> bool \<Rightarrow> ('k, unit) io" where
  "restore_one N j i same_boot =
     (let m = mutations j ! i in
     io_bind (unix_vanished N (mut_key m)) (\<lambda>gone.
     if gone then io_return ()
     else
     io_bind (unix_read N (mut_key m)) (\<lambda>current.
     io_bind (io_lift (restore_verdict N j i same_boot current)) (\<lambda>overwrite.
     if \<not> overwrite then io_return ()
     else
     io_bind (unix_write N (mut_key m) (before m)) (\<lambda>_.
     io_bind (unix_read N (mut_key m)) (\<lambda>now.
     if \<not> unix_equivalent N (mut_key m) now (before m) then io_fail journal_error
     else io_return ()))))))"

fun restore_each :: "(nat \<Rightarrow> ('m, unit) io) \<Rightarrow> nat list \<Rightarrow> err list \<Rightarrow> ('m, err list) io" where
  "restore_each f [] warnings = io_return warnings"
| "restore_each f (i # is) warnings =
     io_bind (io_try (f i)) (\<lambda>r.
     restore_each f is (case r of Inl e \<Rightarrow> warnings @ [e] | Inr _ \<Rightarrow> warnings))"

definition script_io :: "'k native \<Rightarrow> network_config \<Rightarrow> network_reason \<Rightarrow> mutation list
    \<Rightarrow> (('k, unit) io \<Rightarrow> ('m, unit) io)
    \<Rightarrow> (((string \<times> string) list \<Rightarrow> ('k, shell_run) io) \<Rightarrow> (string \<times> string) list \<Rightarrow> ('m, shell_run) io)
    \<Rightarrow> ('m \<Rightarrow> 'k) \<Rightarrow> (nat \<Rightarrow> ('m, unit) io) \<Rightarrow> ('m, unit) io" where
  "script_io N c r ms lift lift_shell kernel_of operation =
     io_bind (io_get (\<lambda>m. nt_index N (kernel_of m))) (\<lambda>ifs.
     unix_apply_script ifs (lift (nt_script N)) (lift_shell (nt_shell N)) c r ms operation)"

definition restore :: "journal_codec \<Rightarrow> 'k native \<Rightarrow> journal \<Rightarrow> ('k machine, err list) io" where
  "restore K N j =
     io_bind read_boot_id (\<lambda>b.
     let same_boot = (boot_id j = b);
         site = (\<lambda>i. on_kernel (restore_one N j i same_boot)) in
     io_bind (if same_boot
              then io_bind (io_try (script_io N (jconfig j) DisconnectReason (mutations j)
                       on_kernel (\<lambda>sh env. on_kernel (sh env)) kernel site))
                     (\<lambda>r. io_return (case r of Inl e \<Rightarrow> [e] | Inr _ \<Rightarrow> []))
              else io_return []) (\<lambda>warnings.
     io_bind (restore_each site (rev [0..<length (mutations j)]) warnings) (\<lambda>warnings.
     io_bind (if warnings = []
              then io_bind (effect journal_error (whole (\<lambda>m.
                       m\<lparr>files := del_file (journal_file K (transaction j)) (files m)\<rparr>)))
                     (\<lambda>_. sync_directory)
              else io_return ()) (\<lambda>_.
     io_return warnings))))"

definition recover :: "journal_codec \<Rightarrow> 'k native \<Rightarrow> transaction_id \<Rightarrow> ('k machine, err list) io" where
  "recover K N t =
     io_bind privileged (\<lambda>_.
     io_bind journal_lock (\<lambda>_.
     io_bind (load K t) (\<lambda>found.
     case found of Some j \<Rightarrow> restore K N j | None \<Rightarrow> io_return [])))"

text \<open>\<open>recover_all\<close>: the transaction in the name of a journal file.\<close>

definition named_transaction :: "journal_codec \<Rightarrow> string \<Rightarrow> transaction_id result" where
  "named_transaction K name =
     (let s = take (length name - 5) name in
      if length s \<noteq> 73 \<or> s ! 36 \<noteq> CHR ''-'' then Inl journal_error
      else rbind (ok_or journal_error (jc_parse K (take 36 s))) (\<lambda>i.
           rbind (ok_or journal_error (jc_parse K (drop 37 s))) (\<lambda>a.
           Inr \<lparr>tx_service_instance_id = i, tx_attempt_id = a\<rparr>)))"

fun recover_names ::
  "journal_codec \<Rightarrow> 'k native \<Rightarrow> string list \<Rightarrow> err list \<Rightarrow> ('k machine, err list) io" where
  "recover_names K N [] warnings = io_return warnings"
| "recover_names K N (name # names) warnings =
     io_bind (probe journal_error) (\<lambda>_.
     if \<not> utf8_valid name then io_fail journal_error
     else if \<not> ends_with ''.json'' name then recover_names K N names warnings
     else
     io_bind (io_lift (named_transaction K name)) (\<lambda>t.
     io_bind (load K t) (\<lambda>found.
     case found of
       None \<Rightarrow> recover_names K N names warnings
     | Some j \<Rightarrow> io_bind (restore K N j) (\<lambda>ws. recover_names K N names (warnings @ ws)))))"

definition recover_all :: "journal_codec \<Rightarrow> 'k native \<Rightarrow> ('k machine, err list) io" where
  "recover_all K N =
     io_bind privileged (\<lambda>_.
     io_bind journal_lock (\<lambda>_.
     io_bind (probe journal_error) (\<lambda>_.
     io_bind (io_get (\<lambda>m. map fst (files m))) (\<lambda>names.
     recover_names K N names []))))"

section \<open>The lifecycle of a transaction\<close>

text \<open>The journal that the steps of a lifecycle update lives beside the machine.\<close>

text \<open>\<open>path.extension() == "json"\<close>: a name that is only an extension has none.\<close>

definition json_extension :: "string \<Rightarrow> bool" where
  "json_extension name \<longleftrightarrow> ends_with ''.json'' name \<and> name \<noteq> ''.json''"

type_synonym 'k workspace = "'k machine \<times> journal"

definition beside :: "('k machine, 'a) io \<Rightarrow> ('k workspace, 'a) io" where
  "beside f s = (case f (fst s) of (r, m) \<Rightarrow> (r, (m, snd s)))"

definition edit :: "(journal \<Rightarrow> journal) \<Rightarrow> ('k workspace, unit) io" where
  "edit f s = (Done (), (fst s, f (snd s)))"

definition save_current :: "journal_codec \<Rightarrow> ('k workspace, unit) io" where
  "save_current K s = beside (save K (snd s)) s"

definition set_applied :: "nat \<Rightarrow> json option \<Rightarrow> journal \<Rightarrow> journal" where
  "set_applied i v j =
     j\<lparr>mutations := (mutations j)[i := (mutations j ! i)\<lparr>applied := v\<rparr>]\<rparr>"

definition preflight :: "'k native \<Rightarrow> mutation \<Rightarrow> ('k machine, unit) io" where
  "preflight N m =
     io_bind (on_kernel (unix_read N (mut_key m))) (\<lambda>v.
     if v \<noteq> before m
     then io_fail (new_error Conflict ''Network state changed after transaction planning'')
     else io_return ())"

definition apply_site ::
  "journal_codec \<Rightarrow> 'k native \<Rightarrow> network_config \<Rightarrow> mutation list \<Rightarrow> nat \<Rightarrow> ('k workspace, unit) io" where
  "apply_site K N c inventory i =
     io_bind (edit (\<lambda>j. j\<lparr>pending_operation := Some i\<rparr>)) (\<lambda>_.
     io_bind (save_current K) (\<lambda>_.
     io_bind (beside (on_kernel (unix_apply_one N c (inventory ! i)))) (\<lambda>v.
     io_bind (edit (set_applied i v)) (\<lambda>_.
     io_bind (edit (\<lambda>j. j\<lparr>pending_operation := None\<rparr>)) (\<lambda>_.
     save_current K)))))"

definition verify_site :: "'k native \<Rightarrow> nat \<Rightarrow> ('k workspace, unit) io" where
  "verify_site N i =
     io_bind (io_get (\<lambda>s. mutations (snd s) ! i)) (\<lambda>m.
     io_bind (beside (on_kernel (unix_read N (mut_key m)))) (\<lambda>actual.
     if \<not> unix_equivalent N (mut_key m) actual (intended m)
     then io_fail (net_failure
       ''Applied network configuration did not match operating system state'')
     else edit (set_applied i actual)))"

definition apply_and_verify ::
  "journal_codec \<Rightarrow> 'k native \<Rightarrow> network_reason \<Rightarrow> journal \<Rightarrow> ('k workspace, network_observation) io" where
  "apply_and_verify K N r j =
     io_bind (beside (io_each (preflight N) (mutations j))) (\<lambda>_.
     io_bind (script_io N (jconfig j) r (mutations j) (\<lambda>f. beside (on_kernel f))
       (\<lambda>sh env. beside (on_kernel (sh env))) (\<lambda>s. kernel (fst s))
       (apply_site K N (jconfig j) (mutations j))) (\<lambda>_.
     io_bind (io_each (verify_site N) [0..<length (mutations j)]) (\<lambda>_.
     io_bind (save_current K) (\<lambda>_.
     beside (on_kernel (unix_observe N (jconfig j)))))))"

text \<open>A workspace computation whose journal is dropped at the end.\<close>

definition in_workspace :: "journal \<Rightarrow> ('k workspace, 'a) io \<Rightarrow> ('k machine, 'a) io" where
  "in_workspace j f m = (case f (m, j) of (r, s) \<Rightarrow> (r, fst s))"

definition commit ::
  "journal_codec \<Rightarrow> 'k native \<Rightarrow> network_reason \<Rightarrow> journal \<Rightarrow> ('k machine, network_observation option) io" where
  "commit K N r j =
     in_workspace j
       (io_bind (io_try (apply_and_verify K N r j)) (\<lambda>verified.
        case verified of
          Inr v \<Rightarrow> io_return (Some v)
        | Inl e \<Rightarrow>
            io_bind (io_get snd) (\<lambda>j.
            io_bind (beside (restore K N j)) (\<lambda>warnings.
            io_fail (if warnings = [] then e else journal_error)))))"

definition new_journal ::
  "transaction_id \<Rightarrow> string \<Rightarrow> network_config \<Rightarrow> mutation list \<Rightarrow> journal" where
  "new_journal t b c ms =
     \<lparr>jversion = 1, transaction = t, boot_id = b, jconfig = c, mutations = ms,
      pending_operation = None\<rparr>"

definition begin_transaction ::
  "journal_codec \<Rightarrow> 'k native \<Rightarrow> transaction_id \<Rightarrow> network_reason \<Rightarrow> network_config option
     \<Rightarrow> ('k machine, network_observation option) io" where
  "begin_transaction K N t r config =
     io_bind (probe journal_error) (\<lambda>_.
     io_bind (io_get (\<lambda>m. map fst (files m))) (\<lambda>names.
     io_bind (io_each (\<lambda>name. io_bind (probe journal_error) (\<lambda>_.
       if json_extension name then io_fail journal_error else io_return ())) names) (\<lambda>_.
     io_bind (io_lift (ok_or (net_failure ''Missing negotiated network configuration'') config)) (\<lambda>c.
     io_bind (on_kernel (unix_plan N c)) (\<lambda>ms.
     if len ms > max_mutations
     then io_fail (net_failure ''Network transaction exceeds mutation limit'')
     else
     io_bind read_boot_id (\<lambda>b.
     io_bind (save K (new_journal t b c ms)) (\<lambda>_.
     commit K N r (new_journal t b c ms))))))))"

definition lifecycle ::
  "journal_codec \<Rightarrow> 'k native \<Rightarrow> transaction_id \<Rightarrow> lifecycle_input
     \<Rightarrow> ('k machine, network_observation option) io" where
  "lifecycle K N t input =
     io_bind privileged (\<lambda>_.
     io_bind journal_lock (\<lambda>_.
     if li_reason input = PreInit \<or> li_reason input = AttemptReconnect then io_return None
     else
     io_bind (load K t) (\<lambda>found.
     io_bind (case found of
                None \<Rightarrow> io_return ()
              | Some j \<Rightarrow> io_bind (restore K N j) (\<lambda>warnings.
                  if warnings \<noteq> [] then io_fail journal_error else io_return ())) (\<lambda>_.
     if li_reason input = DisconnectReason then io_return None
     else begin_transaction K N t (li_reason input) (li_config input)))))"

end
