(* ===== verification/JournalLogic.thy ===== *)
theory JournalLogic
  imports Journal
begin

section \<open>Files\<close>

lemma map_of_put_file [simp]: "map_of (put_file n f fs) = (map_of fs)(n \<mapsto> f)"
  by (induction n f fs rule: put_file.induct) (auto simp: fun_eq_iff)

lemma map_of_del_file [simp]: "map_of (del_file n fs) = (map_of fs)(n := None)"
  by (induction fs) (auto simp: del_file_def fun_eq_iff)

lemma names_differ [simp]:
  "pending_file K t \<noteq> journal_file K t'" "journal_file K t' \<noteq> pending_file K t"
  "''lock'' \<noteq> journal_file K t" "journal_file K t \<noteq> ''lock''"
  "''lock'' \<noteq> pending_file K t" "pending_file K t \<noteq> ''lock''"
proof -
  have l: "last (pending_file K t) = CHR ''g''" "last (journal_file K t) = CHR ''n''"
    "last (journal_file K t') = CHR ''n''" "last ''lock'' = CHR ''k''"
    by (simp_all add: pending_file_def journal_file_def)
  have d: "last a \<noteq> last b \<Longrightarrow> a \<noteq> b" for a b :: string by auto
  show "pending_file K t \<noteq> journal_file K t'" "journal_file K t' \<noteq> pending_file K t"
    "''lock'' \<noteq> journal_file K t" "journal_file K t \<noteq> ''lock''"
    "''lock'' \<noteq> pending_file K t" "pending_file K t \<noteq> ''lock''"
    by (rule d, simp only: l, simp)+
qed

text \<open>The file named \<open>n\<close> of a machine.\<close>

definition file_at :: "'k machine \<Rightarrow> string \<Rightarrow> jfile option" where
  "file_at m n = map_of (files m) n"

text \<open>The part of a machine that file effects leave alone.\<close>

definition same_world :: "'k machine \<Rightarrow> 'k machine \<Rightarrow> bool" where
  "same_world m m' \<longleftrightarrow> kernel m' = kernel m \<and> boot m' = boot m \<and> euid m' = euid m"

lemma same_world_refl [simp]: "same_world m m"
  by (simp add: same_world_def)

lemma same_world_trans: "same_world a b \<Longrightarrow> same_world b c \<Longrightarrow> same_world a c"
  by (simp add: same_world_def)

text \<open>Every outcome of an effect leaves the state of some extent of its work.\<close>

lemma effect_cases:
  assumes "effect e f m = (r, m')"
  obtains (complete) fs where "r = Done ()" "m' = f None (m\<lparr>fates := fs\<rparr>)"
  | (short) n fs where "r = Fault e \<or> r = Crashed" "m' = f (Some n) (m\<lparr>fates := fs\<rparr>)"
proof (cases "fates m")
  case Nil
  then have "r = Done ()" "m' = f None (m\<lparr>fates := []\<rparr>)"
    using assms by (cases m; simp add: effect_def)+
  then show ?thesis by (rule complete)
next
  case (Cons x fs)
  then show ?thesis
    using assms by (cases x) (auto simp: effect_def intro: complete short)
qed

lemma runs_effect:
  assumes "\<And>m fs. P m \<Longrightarrow> C (f None (m\<lparr>fates := fs\<rparr>)) \<and> R () (f None (m\<lparr>fates := fs\<rparr>))"
    and "\<And>m n fs. P m \<Longrightarrow> C (f (Some n) (m\<lparr>fates := fs\<rparr>))"
  shows "runs P (effect e f) C R"
proof (rule runsI)
  fix m r m'
  assume P: "P m" and "effect e f m = (r, m')"
  from this(2) show "C m' \<and> (\<forall>x. r = Done x \<longrightarrow> R x m')"
    by (cases rule: effect_cases) (use assms [OF P] in auto)
qed

lemma file_at_simps [simp]:
  "file_at (m\<lparr>fates := fs\<rparr>) n = file_at m n"
  "file_at (m\<lparr>kernel := k\<rparr>) n = file_at m n"
  "file_at (m\<lparr>files := put_file n' f (files m)\<rparr>) n = (if n = n' then Some f else file_at m n)"
  "file_at (m\<lparr>files := del_file n' (files m)\<rparr>) n = (if n = n' then None else file_at m n)"
  by (simp_all add: file_at_def)

lemma same_world_simps [simp]:
  "same_world m (m'\<lparr>fates := fs\<rparr>) \<longleftrightarrow> same_world m m'"
  "same_world m (m'\<lparr>files := gs\<rparr>) \<longleftrightarrow> same_world m m'"
  by (simp_all add: same_world_def)

lemma runs_probe:
  assumes "\<And>m fs. P m \<Longrightarrow> P (m\<lparr>fates := fs\<rparr>)" "\<And>m. P m \<Longrightarrow> C m"
  shows "runs P (probe e) C (\<lambda>_. P)"
  unfolding probe_def by (rule runs_effect) (auto intro: assms)

section \<open>Saving\<close>

text \<open>Between the start \<open>m0\<close> of a save and \<open>m\<close>, only the temporary file changed.\<close>

definition drafting :: "string \<Rightarrow> 'k machine \<Rightarrow> 'k machine \<Rightarrow> bool" where
  "drafting tmp m0 m \<longleftrightarrow> same_world m0 m \<and> (\<forall>n. n \<noteq> tmp \<longrightarrow> file_at m n = file_at m0 n)"

definition drafted :: "string \<Rightarrow> (u8 list \<Rightarrow> bool) \<Rightarrow> 'k machine \<Rightarrow> 'k machine \<Rightarrow> bool" where
  "drafted tmp p m0 m \<longleftrightarrow>
     drafting tmp m0 m \<and> (\<exists>f. file_at m tmp = Some f \<and> openable f \<and> p (f_data f))"

lemma drafting_fates [simp]: "drafting tmp m0 (m\<lparr>fates := fs\<rparr>) \<longleftrightarrow> drafting tmp m0 m"
  by (simp add: drafting_def)

lemma drafted_fates [simp]: "drafted tmp p m0 (m\<lparr>fates := fs\<rparr>) \<longleftrightarrow> drafted tmp p m0 m"
  by (simp add: drafted_def)

lemma drafted_drafting: "drafted tmp p m0 m \<Longrightarrow> drafting tmp m0 m"
  by (simp add: drafted_def)

lemma drafting_put:
  "drafting tmp m0 m \<Longrightarrow> drafting tmp m0 (m\<lparr>files := put_file tmp f (files m)\<rparr>)"
  by (simp add: drafting_def)

lemma open_create_runs:
  "runs (drafting tmp m0) (open_create tmp) (drafting tmp m0) (\<lambda>_. drafted tmp (\<lambda>_. True) m0)"
  unfolding open_create_def
proof (rule runs_bind)
  show "runs (drafting tmp m0) (effect denied (whole (\<lambda>m.
       if map_of (files m) tmp = None
       then m\<lparr>files := put_file tmp \<lparr>f_meta = fresh_meta, f_data = []\<rparr> (files m)\<rparr> else m)))
       (drafting tmp m0) (\<lambda>_. drafting tmp m0)"
    by (rule runs_effect) (simp_all add: whole_def drafting_def file_at_def)
next
  show "runs (drafting tmp m0) (io_bind (io_get files) (\<lambda>fs. case map_of fs tmp of
       Some f \<Rightarrow> if openable f then io_return () else io_fail denied
     | None \<Rightarrow> io_fail denied)) (drafting tmp m0) (\<lambda>_. drafted tmp (\<lambda>_. True) m0)"
    by (rule runsI)
       (auto simp: io_bind_def io_get_def io_return_def io_fail_def drafted_def file_at_def
          split: option.splits if_splits)
qed

lemma write_file_drafted:
  assumes "drafted tmp p m0 m"
  shows "drafted tmp (\<lambda>d. d = (case short of None \<Rightarrow> bytes | Some n \<Rightarrow> take n bytes)) m0
           (write_file tmp bytes short m)"
proof -
  obtain f where f: "map_of (files m) tmp = Some f" "openable f"
    using assms by (auto simp: drafted_def file_at_def)
  have "openable (f\<lparr>f_data := d\<rparr>)" for d
    using f(2) by (simp add: openable_def)
  then show ?thesis
    using assms f by (simp add: write_file_def drafted_def drafting_put)
qed

text \<open>The state of the journal file after an attempt to save \<open>j\<close> in \<open>m0\<close>.\<close>

definition committed :: "journal_codec \<Rightarrow> journal \<Rightarrow> 'k machine \<Rightarrow> bool" where
  "committed K j m \<longleftrightarrow>
     (\<exists>f. file_at m (journal_file K (transaction j)) = Some f \<and> openable f
          \<and> f_data f = jc_encode K j \<and> len (jc_encode K j) \<le> max_journal)"

definition saving :: "journal_codec \<Rightarrow> journal \<Rightarrow> 'k machine \<Rightarrow> 'k machine \<Rightarrow> bool" where
  "saving K j m0 m \<longleftrightarrow>
     same_world m0 m
     \<and> (\<forall>n. n \<noteq> pending_file K (transaction j) \<and> n \<noteq> journal_file K (transaction j)
             \<longrightarrow> file_at m n = file_at m0 n)
     \<and> (file_at m (journal_file K (transaction j)) = file_at m0 (journal_file K (transaction j))
        \<or> committed K j m)"

lemma saving_fates [simp]: "saving K j m0 (m\<lparr>fates := fs\<rparr>) \<longleftrightarrow> saving K j m0 m"
  by (simp add: saving_def committed_def)

lemma committed_fates [simp]: "committed K j (m\<lparr>fates := fs\<rparr>) \<longleftrightarrow> committed K j m"
  by (simp add: committed_def)

lemma drafting_saving: "drafting (pending_file K (transaction j)) m0 m \<Longrightarrow> saving K j m0 m"
  by (simp add: drafting_def saving_def)

lemma rename_committed:
  assumes "drafted (pending_file K (transaction j)) (\<lambda>d. d = jc_encode K j) m0 m"
    and "len (jc_encode K j) \<le> max_journal"
  defines "m' \<equiv> rename_file (pending_file K (transaction j)) (journal_file K (transaction j)) m"
  shows "saving K j m0 m' \<and> committed K j m'"
proof -
  obtain f where f: "map_of (files m) (pending_file K (transaction j)) = Some f" "openable f"
    "f_data f = jc_encode K j"
    using assms(1) by (auto simp: drafted_def file_at_def)
  have m': "m' = m\<lparr>files := put_file (journal_file K (transaction j)) f
      (del_file (pending_file K (transaction j)) (files m))\<rparr>"
    using f(1) by (simp add: m'_def rename_file_def)
  have "committed K j m'"
    using f assms(2) by (simp add: m' committed_def file_at_def)
  moreover have "file_at m' n = file_at m0 n"
    if "n \<noteq> pending_file K (transaction j)" "n \<noteq> journal_file K (transaction j)" for n
    using assms(1) that by (simp add: m' file_at_def drafted_def drafting_def)
  moreover have "same_world m0 m'"
    using assms(1) by (simp add: m' drafted_def drafting_def)
  ultimately show ?thesis by (simp add: saving_def)
qed

lemma save_runs:
  "runs (drafting (pending_file K (transaction j)) m0) (save K j) (saving K j m0)
     (\<lambda>_ m. saving K j m0 m \<and> committed K j m)"
proof -
  let ?tmp = "pending_file K (transaction j)"
  let ?all = "drafted ?tmp (\<lambda>_. True) m0"
  let ?enc = "drafted ?tmp (\<lambda>d. d = jc_encode K j) m0"
  have w: "drafted ?tmp p m0 m \<Longrightarrow> saving K j m0 m" for p m
    by (rule drafting_saving) (rule drafted_drafting)
  have dr: "drafted ?tmp p m0 m \<Longrightarrow> drafted ?tmp (\<lambda>_. True) m0 m" for p m
    by (auto simp: drafted_def)
  have wt: "?all m \<Longrightarrow> ?all (write_file ?tmp bytes short m)" for bytes short m
    by (rule dr) (rule write_file_drafted)
  have oc: "runs (drafting ?tmp m0) (open_create ?tmp) (saving K j m0) (\<lambda>_. ?all)"
    by (rule runs_weaken [OF open_create_runs]) (auto intro: drafting_saving)
  show ?thesis
    unfolding save_def Let_def
  proof (rule runs_bind [OF oc])
    show "runs ?all (io_bind (effect journal_error (whole (write_file ?tmp [] None))) (\<lambda>_.
     io_bind (probe journal_error) (\<lambda>_.
     io_bind (effect journal_error (write_file ?tmp (jc_encode K j))) (\<lambda>_.
     io_bind (probe journal_error) (\<lambda>_.
     if len (jc_encode K j) > max_journal then io_fail journal_error
     else
     io_bind (probe journal_error) (\<lambda>_.
     io_bind (effect journal_error (whole (rename_file ?tmp (journal_file K (transaction j))))) (\<lambda>_.
     sync_directory))))))) (saving K j m0) (\<lambda>_ m. saving K j m0 m \<and> committed K j m)"
    proof (intro runs_bind)
      show "runs ?all (effect journal_error (whole (write_file ?tmp [] None))) (saving K j m0) (\<lambda>_. ?all)"
        by (rule runs_effect)
           (simp_all add: whole_def wt w [OF wt] w [where p = "\<lambda>_. True"])
      show "runs ?all (probe journal_error) (saving K j m0) (\<lambda>_. ?all)"
        by (rule runs_probe) (simp_all add: w)
      show "runs ?all (effect journal_error (write_file ?tmp (jc_encode K j))) (saving K j m0) (\<lambda>_. ?enc)"
        by (rule runs_effect)
           (use write_file_drafted [of ?tmp "\<lambda>_. True" m0 _ "jc_encode K j" None]
                write_file_drafted [of ?tmp "\<lambda>_. True" m0 _ "jc_encode K j" "Some _"]
            in \<open>auto intro: w [OF wt]\<close>)
      show "runs ?enc (probe journal_error) (saving K j m0) (\<lambda>_. ?enc)"
        by (rule runs_probe) (simp_all add: w)
      show "runs ?enc (if len (jc_encode K j) > max_journal then io_fail journal_error
         else
         io_bind (probe journal_error) (\<lambda>_.
         io_bind (effect journal_error (whole (rename_file ?tmp (journal_file K (transaction j))))) (\<lambda>_.
         sync_directory))) (saving K j m0) (\<lambda>_ m. saving K j m0 m \<and> committed K j m)"
      proof (intro runs_if runs_bind)
        show "runs ?enc (io_fail journal_error) (saving K j m0) (\<lambda>_ m. saving K j m0 m \<and> committed K j m)"
          by (rule runs_fail) (rule w)
        show "runs ?enc (probe journal_error) (saving K j m0) (\<lambda>_. ?enc)"
          by (rule runs_probe) (simp_all add: w)
        assume l: "\<not> len (jc_encode K j) > max_journal"
        show "runs ?enc (effect journal_error (whole (rename_file ?tmp (journal_file K (transaction j)))))
          (saving K j m0) (\<lambda>_ m. saving K j m0 m \<and> committed K j m)"
          by (rule runs_effect) (use l in \<open>auto simp: whole_def rename_committed intro: w\<close>)
        show "runs (\<lambda>m. saving K j m0 m \<and> committed K j m) sync_directory (saving K j m0)
          (\<lambda>_ m. saving K j m0 m \<and> committed K j m)"
          unfolding sync_directory_def by (rule runs_probe) simp_all
      qed
    qed
  qed
qed

lemma keeps_probe: "(\<And>m fs. I m \<Longrightarrow> I (m\<lparr>fates := fs\<rparr>)) \<Longrightarrow> keeps I (probe e)"
  by (rule keeps_runs) (rule runs_probe)

end
