(* ===== verification/Recovery.thy ===== *)
theory Recovery
  imports JournalLogic
begin

text \<open>
  What the journal is for: through every lifecycle, recovery and crash, every network value that
  is no longer the original one is recorded on disk with the original value, and a recovery that
  reports nothing has put them all back. The operating system appears through a \<open>ledger\<close>: the value
  of every journal key, as the code's own reads report it, and the keys a write of a key can
  change, by itself or by what the kernel does with it.
\<close>

section \<open>Assumptions on the environment\<close>

fun plain :: "json \<Rightarrow> bool" where
  "plain (JFloat _) = False"
| "plain (JInt n) = (- (2 ^ 63) \<le> n \<and> n < 2 ^ 64)"
| "plain (JArray vs) = list_all plain vs"
| "plain (JObject kvs) = list_all (\<lambda>kv. plain (snd kv)) kvs"
| "plain _ = True"

text \<open>A value of an optional field that survives \<open>serde_json\<close>: \<open>Some(null)\<close> reads undone as \<open>None\<close>.\<close>

definition storable :: "json option \<Rightarrow> bool" where
  "storable v \<longleftrightarrow> (case v of None \<Rightarrow> True | Some x \<Rightarrow> x \<noteq> JNull \<and> plain x)"

definition storable_mutation :: "mutation \<Rightarrow> bool" where
  "storable_mutation m \<longleftrightarrow> storable (before m) \<and> storable (intended m) \<and> storable (applied m)"

definition lossless :: "journal_codec \<Rightarrow> bool" where
  "lossless K \<longleftrightarrow>
     (\<forall>j. (\<forall>m\<in>set (mutations j). storable_mutation m) \<longrightarrow> jc_decode K (jc_encode K j) = Some j)"

text \<open>
  How the operating system appears: the value of every journal key, the keys whose value a write
  of a key may change (an address brings the routes the kernel derives from it), the keys the
  statements speak of, and the configurations of the transaction.
\<close>

record 'k ledger =
  lg_view :: "'k \<Rightarrow> key \<Rightarrow> json option"
  lg_reach :: "key \<Rightarrow> key set"
  lg_keys :: "key set"
  lg_configs :: "network_config set"

text \<open>From one state to another only keys of \<open>T\<close> change, unless what they speak of disappears.\<close>

definition changes :: "'k ledger \<Rightarrow> key set \<Rightarrow> 'k \<Rightarrow> 'k \<Rightarrow> bool" where
  "changes W T k k' \<longleftrightarrow>
     (\<forall>key\<in>lg_keys W. key \<in> T \<or> lg_view W k' key = lg_view W k key \<or> lg_view W k' key = None)"

definition quiet :: "'k ledger \<Rightarrow> ('k, 'a) io \<Rightarrow> bool" where
  "quiet W f \<longleftrightarrow> (\<forall>k. changes W {} k (snd (f k)))"

text \<open>A plan as the back end makes it: from the values that are there, and with every key that a
  write of one of its keys reaches.\<close>

definition accurate_plan :: "'k ledger \<Rightarrow> 'k \<Rightarrow> mutation list \<Rightarrow> bool" where
  "accurate_plan W k ms \<longleftrightarrow>
     (\<forall>m\<in>set ms. mut_key m \<in> lg_keys W \<and> before m = lg_view W k (mut_key m) \<and> applied m = None
        \<and> storable (before m) \<and> storable (intended m)
        \<and> lg_reach W (mut_key m) \<inter> lg_keys W \<subseteq> mut_key ` set ms)"

text \<open>
  The account of a back end: a read that succeeds reports the value of its key, and a key whose
  interface is gone has none; planning, observing, reading and the shell itself change nothing;
  and a write, however it ends and however far it got, changes no key that its own does not reach.
  Every implicit effect of a planned write is itself planned.
\<close>

definition honest_key :: "'k native \<Rightarrow> 'k ledger \<Rightarrow> key \<Rightarrow> bool" where
  "honest_key N W key \<longleftrightarrow>
     quiet W (unix_read N key)
     \<and> (\<forall>k k' v. unix_read N key k = (Done v, k') \<longrightarrow> lg_view W k' key = v)
     \<and> (\<forall>k. fst (unix_vanished N key k) = Done True \<longrightarrow> lg_view W k key = None)
     \<and> (\<forall>v k. changes W (lg_reach W key) k (snd (unix_write N key v k)))"

definition accounted :: "'k native \<Rightarrow> 'k ledger \<Rightarrow> bool" where
  "accounted N W \<longleftrightarrow>
     \<not> nt_macos N \<and> (\<forall>key\<in>lg_keys W. honest_key N W key)
     \<and> quiet W (nt_script N) \<and> (\<forall>env. quiet W (nt_shell N env)) \<and> (\<forall>c. quiet W (nt_observe N c))
     \<and> (\<forall>c\<in>lg_configs W. quiet W (nt_plan N c)
          \<and> (\<forall>k ms. fst (nt_plan N c k) = Done ms \<longrightarrow> accurate_plan W k ms))"

text \<open>A key of the ledger has its original value or is absent.\<close>

definition settled :: "'k ledger \<Rightarrow> (key \<Rightarrow> json option) \<Rightarrow> 'k \<Rightarrow> key \<Rightarrow> bool" where
  "settled W V0 k key \<longleftrightarrow> lg_view W k key = V0 key \<or> lg_view W k key = None"

text \<open>
  Putting one key back, or removing it, does not unsettle another key: the kernel drops with an
  address only the routes it had derived from it.
\<close>

definition ordered_undo :: "'k native \<Rightarrow> 'k ledger \<Rightarrow> (key \<Rightarrow> json option) \<Rightarrow> bool" where
  "ordered_undo N W V0 \<longleftrightarrow>
     (\<forall>key\<in>lg_keys W. \<forall>v k k'. v = V0 key \<or> v = None \<longrightarrow> unix_write N key v k = (Done (), k') \<longrightarrow>
        (\<forall>other\<in>lg_keys W. settled W V0 k other \<longrightarrow> settled W V0 k' other))"

definition dependable :: "'k native \<Rightarrow> 'k ledger \<Rightarrow> (key \<Rightarrow> json option) \<Rightarrow> bool" where
  "dependable N W V0 \<longleftrightarrow> accounted N W \<and> ordered_undo N W V0"

lemma changes_refl [simp]: "changes W T k k"
  by (simp add: changes_def)

lemma changes_trans: "changes W T k k1 \<Longrightarrow> changes W T k1 k2 \<Longrightarrow> changes W T k k2"
  unfolding changes_def by metis

lemma changes_mono: "changes W S k k' \<Longrightarrow> S \<subseteq> T \<Longrightarrow> changes W T k k'"
  unfolding changes_def by (auto dest: subsetD)

lemma accounted_key: "accounted N W \<Longrightarrow> key \<in> lg_keys W \<Longrightarrow> honest_key N W key"
  by (simp add: accounted_def)

lemma accounted_read:
  assumes "accounted N W" "key \<in> lg_keys W" "unix_read N key k = (r, k')"
  shows "changes W {} k k'" "r = Done v \<Longrightarrow> lg_view W k' key = v"
proof -
  note h = accounted_key [OF assms(1,2), unfolded honest_key_def]
  have "changes W {} k (snd (unix_read N key k))"
    using h [THEN conjunct1] by (simp add: quiet_def)
  with assms(3) show "changes W {} k k'" by simp
  show "lg_view W k' key = v" if "r = Done v"
    using h [THEN conjunct2, THEN conjunct1] assms(3) that by simp
qed

lemma accounted_vanished:
  assumes "accounted N W" "key \<in> lg_keys W" "unix_vanished N key k = (Done True, k')"
  shows "lg_view W k key = None"
  using accounted_key [OF assms(1,2), unfolded honest_key_def, THEN conjunct2, THEN conjunct2, THEN conjunct1]
    assms(3) by simp

lemma accounted_write:
  assumes "accounted N W" "key \<in> lg_keys W" "unix_write N key v k = (r, k')"
  shows "changes W (lg_reach W key) k k'"
proof -
  have "changes W (lg_reach W key) k (snd (unix_write N key v k))"
    using accounted_key [OF assms(1,2), unfolded honest_key_def, THEN conjunct2, THEN conjunct2, THEN conjunct2]
    by blast
  with assms(3) show ?thesis by simp
qed

lemma accounted_quiet:
  assumes "accounted N W"
  shows "quiet W (nt_script N)" "quiet W (nt_shell N env)" "quiet W (nt_observe N c)"
    "c \<in> lg_configs W \<Longrightarrow> quiet W (nt_plan N c)"
    "c \<in> lg_configs W \<Longrightarrow> nt_plan N c k = (Done ms, k') \<Longrightarrow> accurate_plan W k ms"
proof -
  note a = assms [unfolded accounted_def, THEN conjunct2, THEN conjunct2]
  note c = a [THEN conjunct2, THEN conjunct2, THEN conjunct2, THEN bspec]
  show "quiet W (nt_script N)" by (rule a [THEN conjunct1])
  show "quiet W (nt_shell N env)" by (rule a [THEN conjunct2, THEN conjunct1, THEN spec])
  show "quiet W (nt_observe N c)"
    by (rule a [THEN conjunct2, THEN conjunct2, THEN conjunct1, THEN spec])
  show "c \<in> lg_configs W \<Longrightarrow> quiet W (nt_plan N c)" by (rule c [THEN conjunct1])
  assume "c \<in> lg_configs W" and p: "nt_plan N c k = (Done ms, k')"
  then show "accurate_plan W k ms"
    using c [THEN conjunct2] by simp
qed

lemma equivalent_eq: "accounted N W \<Longrightarrow> unix_equivalent N key a b \<longleftrightarrow> a = b"
  by (simp add: accounted_def unix_equivalent_def)

section \<open>Plans and views\<close>

definition recorded :: "'k ledger \<Rightarrow> (key \<Rightarrow> json option) \<Rightarrow> mutation list \<Rightarrow> bool" where
  "recorded W V0 ms \<longleftrightarrow>
     distinct (map mut_key ms)
     \<and> (\<forall>m\<in>set ms. mut_key m \<in> lg_keys W \<and> (before m = V0 (mut_key m) \<or> before m = None)
          \<and> storable (before m) \<and> storable (intended m)
          \<and> lg_reach W (mut_key m) \<inter> lg_keys W \<subseteq> mut_key ` set ms)"

text \<open>The network beside a plan: what the plan does not record is settled, and so is \<open>S\<close>.\<close>

definition settling ::
  "'k ledger \<Rightarrow> (key \<Rightarrow> json option) \<Rightarrow> mutation list \<Rightarrow> key set \<Rightarrow> 'k \<Rightarrow> bool" where
  "settling W V0 ms S k \<longleftrightarrow>
     (\<forall>key\<in>lg_keys W. key \<in> mut_key ` set ms \<and> key \<notin> S \<or> settled W V0 k key)"

definition original :: "'k ledger \<Rightarrow> (key \<Rightarrow> json option) \<Rightarrow> 'k \<Rightarrow> bool" where
  "original W V0 k \<longleftrightarrow> (\<forall>key\<in>lg_keys W. settled W V0 k key)"

lemma settled_changes:
  "changes W T k k' \<Longrightarrow> key \<in> lg_keys W \<Longrightarrow> key \<notin> T \<Longrightarrow> settled W V0 k key \<Longrightarrow> settled W V0 k' key"
  unfolding changes_def settled_def by metis

lemma settling_reach:
  assumes "settling W V0 ms S k" "changes W T k k'" "T \<inter> lg_keys W \<subseteq> mut_key ` set ms"
  shows "settling W V0 ms {} k'"
  unfolding settling_def
proof
  fix key assume key: "key \<in> lg_keys W"
  show "key \<in> mut_key ` set ms \<and> key \<notin> {} \<or> settled W V0 k' key"
  proof (cases "key \<in> T")
    case True
    with key assms(3) show ?thesis by blast
  next
    case False
    with assms(1) key settled_changes [OF assms(2) key False] show ?thesis
      unfolding settling_def by blast
  qed
qed

lemma settling_quiet:
  assumes "settling W V0 ms S k" "changes W {} k k'"
  shows "settling W V0 ms S k'"
  unfolding settling_def
proof
  fix key assume key: "key \<in> lg_keys W"
  with assms(1) settled_changes [OF assms(2) key]
  show "key \<in> mut_key ` set ms \<and> key \<notin> S \<or> settled W V0 k' key"
    unfolding settling_def by blast
qed

lemma settling_more: "settling W V0 ms S k \<Longrightarrow> T \<subseteq> S \<Longrightarrow> settling W V0 ms T k"
  unfolding settling_def by blast

lemma settling_insert:
  "settling W V0 ms S k \<Longrightarrow> settled W V0 k key \<Longrightarrow> settling W V0 ms (insert key S) k"
  unfolding settling_def by blast

lemma settling_all: "settling W V0 ms S k \<Longrightarrow> mut_key ` set ms \<subseteq> S \<Longrightarrow> original W V0 k"
  unfolding settling_def original_def by blast

lemma original_settling: "original W V0 k \<Longrightarrow> settling W V0 ms S k"
  unfolding settling_def original_def by blast

lemma original_quiet:
  assumes "original W V0 k" "changes W {} k k'"
  shows "original W V0 k'"
  unfolding original_def
proof
  fix key assume "key \<in> lg_keys W"
  with assms(1) settled_changes [OF assms(2) this] show "settled W V0 k' key"
    by (simp add: original_def)
qed

lemma settling_undo:
  assumes "dependable N W V0" "key \<in> lg_keys W" "v = V0 key \<or> v = None"
    and "settling W V0 ms S k" "unix_write N key v k = (Done (), k')"
    and "settling W V0 ms {} k'"
  shows "settling W V0 ms S k'"
proof -
  have "\<forall>other\<in>lg_keys W. settled W V0 k other \<longrightarrow> settled W V0 k' other"
    using assms(1,2,3,5) unfolding dependable_def ordered_undo_def by blast
  with assms(4,6) show ?thesis unfolding settling_def by blast
qed

text \<open>A mutation without its record of what was observed; two stages of one plan.\<close>

definition core :: "mutation \<Rightarrow> key \<times> json option \<times> json option" where
  "core m = (mut_key m, before m, intended m)"

definition stage :: "mutation list \<Rightarrow> mutation list \<Rightarrow> bool" where
  "stage ms0 ms \<longleftrightarrow>
     map core ms = map core ms0 \<and> (\<forall>m\<in>set ms. applied m = None \<or> applied m = intended m)"

lemma stage_core:
  "stage ms0 ms \<Longrightarrow> i < length ms0 \<Longrightarrow> length ms = length ms0 \<and> mut_key (ms ! i) = mut_key (ms0 ! i)
     \<and> before (ms ! i) = before (ms0 ! i) \<and> intended (ms ! i) = intended (ms0 ! i)"
  unfolding stage_def core_def
  by (metis (no_types, lifting) length_map nth_map prod.inject)

lemma stage_length: "stage ms0 ms \<Longrightarrow> length ms = length ms0"
  unfolding stage_def by (metis length_map)

lemma stage_mem:
  assumes "stage ms0 ms" "m \<in> set ms"
  obtains m0 where "m0 \<in> set ms0" "mut_key m = mut_key m0" "before m = before m0"
    "intended m = intended m0" "applied m = None \<or> applied m = intended m"
proof -
  obtain i where i: "i < length ms" "m = ms ! i" using assms(2) by (auto simp: in_set_conv_nth)
  with stage_length [OF assms(1)] have "i < length ms0" by simp
  moreover have "applied m = None \<or> applied m = intended m" using assms by (simp add: stage_def)
  ultimately show ?thesis
    using stage_core [OF assms(1)] i that [of "ms0 ! i"] by simp
qed

lemma stage_storable:
  assumes "stage ms0 ms" "recorded W V0 ms0" "m \<in> set ms"
  shows "storable_mutation m"
proof -
  obtain m0 where "m0 \<in> set ms0" "before m = before m0" "intended m = intended m0"
    "applied m = None \<or> applied m = intended m"
    using stage_mem [OF assms(1,3)] by metis
  with assms(2) show ?thesis
    by (auto simp: storable_mutation_def recorded_def storable_def)
qed

lemma stage_update:
  assumes "stage ms0 ms" "i < length ms0" "v = intended (ms0 ! i)"
  shows "stage ms0 (ms[i := (ms ! i)\<lparr>applied := v\<rparr>])"
proof -
  have "map core (ms[i := (ms ! i)\<lparr>applied := v\<rparr>]) = map core ms"
    using assms(2) stage_length [OF assms(1)]
    by (auto simp: map_update core_def list_eq_iff_nth_eq nth_list_update)
  moreover have "applied m = None \<or> applied m = intended m"
    if "m \<in> set (ms[i := (ms ! i)\<lparr>applied := v\<rparr>])" for m
    using set_update_subset_insert [of ms i "(ms ! i)\<lparr>applied := v\<rparr>"] that assms
      stage_core [OF assms(1,2)]
    by (auto simp: stage_def)
  ultimately show ?thesis using assms(1) by (simp add: stage_def)
qed

lemma recorded_nth:
  "recorded W V0 ms \<Longrightarrow> i < length ms \<Longrightarrow>
     mut_key (ms ! i) \<in> lg_keys W
     \<and> (before (ms ! i) = V0 (mut_key (ms ! i)) \<or> before (ms ! i) = None)
     \<and> lg_reach W (mut_key (ms ! i)) \<inter> lg_keys W \<subseteq> mut_key ` set ms"
  by (simp add: recorded_def)

section \<open>The mutation sites\<close>

lemma vanished_same: "unix_vanished N key k = (r, k') \<Longrightarrow> k' = k"
  by (auto simp: unix_vanished_def io_bind_def io_get_def io_lift_def io_return_def
      split: sum.splits prod.splits)

lemma quiet_runs:
  assumes "quiet W f" "\<And>k k'. P k \<Longrightarrow> changes W {} k k' \<Longrightarrow> P k'"
  shows "runs P f P (\<lambda>_. P)"
  using assms by (simp add: quiet_def runs_def)

lemma read_runs:
  assumes "accounted N W" "key \<in> lg_keys W" "\<And>k k'. P k \<Longrightarrow> changes W {} k k' \<Longrightarrow> P k'"
  shows "runs P (unix_read N key) P (\<lambda>v k. P k \<and> v = lg_view W k key)"
proof (rule runsI)
  fix k r k'
  assume "P k" "unix_read N key k = (r, k')"
  with assms(3) accounted_read [OF assms(1,2)]
  show "P k' \<and> (\<forall>v. r = Done v \<longrightarrow> P k' \<and> v = lg_view W k' key)" by blast
qed

text \<open>Restoring key \<open>i\<close> keeps what the plan does not record, and when it succeeds it keeps what was
  settled and settles the key.\<close>

lemma restore_write_runs:
  assumes "dependable N W V0" "recorded W V0 ms" "i < length ms"
  shows "runs (settling W V0 ms S) (unix_write N (mut_key (ms ! i)) (before (ms ! i)))
           (settling W V0 ms {}) (\<lambda>_. settling W V0 ms S)"
proof (rule runsI)
  fix k r k'
  assume P: "settling W V0 ms S k" and w: "unix_write N (mut_key (ms ! i)) (before (ms ! i)) k = (r, k')"
  note at = recorded_nth [OF assms(2,3)]
  have acc: "accounted N W" using assms(1) by (simp add: dependable_def)
  have c: "settling W V0 ms {} k'"
    using settling_reach [OF P accounted_write [OF acc _ w]] at by blast
  moreover have "settling W V0 ms S k'" if "r = Done ()"
    using settling_undo [OF assms(1) _ _ P _ c] at w that by blast
  ultimately show "settling W V0 ms {} k' \<and> (\<forall>u. r = Done u \<longrightarrow> settling W V0 ms S k')" by simp
qed

lemma verdict_cases:
  assumes "accounted N W" "restore_verdict N j i True v = Inr False"
  shows "v = before (mutations j ! i) \<or> v = None"
  using assms(2) by (auto simp: restore_verdict_def Let_def equivalent_eq [OF assms(1)] split: if_splits)

lemma restore_one_runs:
  assumes "dependable N W V0" "recorded W V0 ms" "stage ms (mutations j)" "i < length ms"
  shows "runs (settling W V0 ms S) (restore_one N j i True) (settling W V0 ms {})
           (\<lambda>_. settling W V0 ms (insert (mut_key (ms ! i)) S))"
proof -
  note core = stage_core [OF assms(3,4)]
  note at = recorded_nth [OF assms(2,4)]
  have acc: "accounted N W" using assms(1) by (simp add: dependable_def)
  let ?key = "mut_key (ms ! i)"
  let ?C = "settling W V0 ms {}"
  let ?P = "settling W V0 ms S"
  let ?R = "settling W V0 ms (insert ?key S)"
  have pc: "?P k \<Longrightarrow> ?C k" "?R k \<Longrightarrow> ?C k" for k by (rule settling_more, assumption, simp)+
  have ins: "?P k \<Longrightarrow> lg_view W k ?key = before (ms ! i) \<or> lg_view W k ?key = None \<Longrightarrow> ?R k" for k
    using at by (intro settling_insert) (auto simp: settled_def)
  have van: "runs ?P (unix_vanished N ?key) ?C (\<lambda>gone k. ?P k \<and> (gone \<longrightarrow> lg_view W k ?key = None))"
  proof (rule runsI)
    fix k r k'
    assume P: "?P k" and v: "unix_vanished N ?key k = (r, k')"
    have "r = Done True \<longrightarrow> lg_view W k ?key = None"
      using accounted_vanished [OF acc, of ?key k k'] at v by simp
    with P v vanished_same [OF v] pc(1)
    show "?C k' \<and> (\<forall>gone. r = Done gone \<longrightarrow> ?P k' \<and> (gone \<longrightarrow> lg_view W k' ?key = None))"
      by auto
  qed
  have rd: "runs ?P (unix_read N ?key) ?C (\<lambda>v k. ?P k \<and> v = lg_view W k ?key)"
    by (rule runs_weaken [OF read_runs [where P = "settling W V0 ms S", OF acc _ settling_quiet]]) (use at pc in auto)
  have wr: "runs ?P (unix_write N ?key (before (ms ! i))) ?C (\<lambda>_. ?P)"
    by (rule restore_write_runs [OF assms(1,2,4)])
  have tail: "runs (\<lambda>k. ?P k \<and> now = lg_view W k ?key)
     (if \<not> unix_equivalent N ?key now (before (ms ! i)) then io_fail journal_error else io_return ())
     ?C (\<lambda>_. ?R)" for now
    by (auto simp: equivalent_eq [OF acc] pc intro!: runs_if runs_fail runs_return ins)
  have put: "runs ?P (io_bind (unix_write N ?key (before (ms ! i))) (\<lambda>_.
     io_bind (unix_read N ?key) (\<lambda>now.
     if \<not> unix_equivalent N ?key now (before (ms ! i)) then io_fail journal_error
     else io_return ()))) ?C (\<lambda>_. ?R)"
    by (rule runs_bind [OF wr runs_bind [OF rd tail]])
  have judge: "runs (\<lambda>k. ?P k \<and> v = lg_view W k ?key) (io_lift (restore_verdict N j i True v)) ?C
     (\<lambda>overwrite k. ?P k \<and> (\<not> overwrite \<longrightarrow>
        lg_view W k ?key = before (ms ! i) \<or> lg_view W k ?key = None))" for v
    by (rule runs_lift) (use verdict_cases [OF acc, of j i v] core pc in auto)
  have act: "runs (\<lambda>k. ?P k \<and> (\<not> overwrite \<longrightarrow>
        lg_view W k ?key = before (ms ! i) \<or> lg_view W k ?key = None))
     (if \<not> overwrite then io_return () else
      io_bind (unix_write N ?key (before (ms ! i))) (\<lambda>_.
      io_bind (unix_read N ?key) (\<lambda>now.
      if \<not> unix_equivalent N ?key now (before (ms ! i)) then io_fail journal_error
      else io_return ()))) ?C (\<lambda>_. ?R)" for overwrite
    by (rule runs_if, rule runs_return, use ins pc in blast, rule runs_weaken [OF put]) auto
  have rest: "runs (\<lambda>k. ?P k \<and> (gone \<longrightarrow> lg_view W k ?key = None)) (if gone then io_return ()
     else io_bind (unix_read N ?key) (\<lambda>current.
       io_bind (io_lift (restore_verdict N j i True current)) (\<lambda>overwrite.
       if \<not> overwrite then io_return () else
       io_bind (unix_write N ?key (before (ms ! i))) (\<lambda>_.
       io_bind (unix_read N ?key) (\<lambda>now.
       if \<not> unix_equivalent N ?key now (before (ms ! i)) then io_fail journal_error
       else io_return ()))))) ?C (\<lambda>_. ?R)" for gone
    by (rule runs_if, rule runs_return, use ins pc in blast,
        rule runs_weaken [OF runs_bind [OF rd runs_bind [OF judge act]]]) auto
  show ?thesis
    unfolding restore_one_def Let_def by (simp only: core, rule runs_bind [OF van rest])
qed

section \<open>The state on disk\<close>

definition in_hand :: "transaction_id \<Rightarrow> string \<Rightarrow> mutation list \<Rightarrow> journal \<Rightarrow> bool" where
  "in_hand t b ms0 j \<longleftrightarrow>
     well_formed_journal t j \<and> boot_id j = b \<and> network_config_validate (jconfig j) = Inr ()
     \<and> stage ms0 (mutations j)"

definition on_disk :: "journal_codec \<Rightarrow> transaction_id \<Rightarrow> string \<Rightarrow> mutation list \<Rightarrow> 'k machine \<Rightarrow> bool" where
  "on_disk K t b ms0 m \<longleftrightarrow>
     (\<exists>f j. file_at m (journal_file K t) = Some f \<and> openable f \<and> len (f_data f) \<le> max_journal
            \<and> jc_decode K (f_data f) = Some j \<and> in_hand t b ms0 j)"

text \<open>The machine in the middle of the transaction \<open>t\<close> with the plan \<open>ms0\<close>.\<close>

definition open_at ::
  "journal_codec \<Rightarrow> 'k ledger \<Rightarrow> transaction_id \<Rightarrow> string
     \<Rightarrow> (key \<Rightarrow> json option) \<Rightarrow> mutation list \<Rightarrow> key set \<Rightarrow> 'k machine \<Rightarrow> bool" where
  "open_at K W t b V0 ms0 S m \<longleftrightarrow>
     boot m = b \<and> recorded W V0 ms0 \<and> on_disk K t b ms0 m \<and> settling W V0 ms0 S (kernel m)"

definition closed_at ::
  "journal_codec \<Rightarrow> 'k ledger \<Rightarrow> transaction_id \<Rightarrow> string
     \<Rightarrow> (key \<Rightarrow> json option) \<Rightarrow> 'k machine \<Rightarrow> bool" where
  "closed_at K W t b V0 m \<longleftrightarrow>
     boot m = b \<and> file_at m (journal_file K t) = None \<and> original W V0 (kernel m)"

text \<open>
  A machine is recoverable to \<open>V0\<close>: either nothing is recorded and the network is as it was, or
  the journal records every difference from \<open>V0\<close>.
\<close>

definition recoverable ::
  "journal_codec \<Rightarrow> 'k ledger \<Rightarrow> transaction_id \<Rightarrow> string
     \<Rightarrow> (key \<Rightarrow> json option) \<Rightarrow> 'k machine \<Rightarrow> bool" where
  "recoverable K W t b V0 m \<longleftrightarrow>
     closed_at K W t b V0 m \<or> (\<exists>ms0. open_at K W t b V0 ms0 {} m)"

lemma open_recoverable: "open_at K W t b V0 ms0 S m \<Longrightarrow> recoverable K W t b V0 m"
  by (auto simp: recoverable_def open_at_def elim: settling_more)

lemma closed_recoverable: "closed_at K W t b V0 m \<Longrightarrow> recoverable K W t b V0 m"
  by (simp add: recoverable_def)

lemma open_more: "open_at K W t b V0 ms0 S m \<Longrightarrow> T \<subseteq> S \<Longrightarrow> open_at K W t b V0 ms0 T m"
  by (auto simp: open_at_def elim: settling_more)

lemma disk_fates [simp]:
  "on_disk K t b ms0 (m\<lparr>fates := fs\<rparr>) \<longleftrightarrow> on_disk K t b ms0 m"
  "open_at K W t b V0 ms0 S (m\<lparr>fates := fs\<rparr>) \<longleftrightarrow> open_at K W t b V0 ms0 S m"
  "closed_at K W t b V0 (m\<lparr>fates := fs\<rparr>) \<longleftrightarrow> closed_at K W t b V0 m"
  "recoverable K W t b V0 (m\<lparr>fates := fs\<rparr>) \<longleftrightarrow> recoverable K W t b V0 m"
  by (simp_all add: on_disk_def open_at_def closed_at_def recoverable_def)

text \<open>What depends only on the journal file, the boot and the network.\<close>

definition alike :: "journal_codec \<Rightarrow> transaction_id \<Rightarrow> 'k machine \<Rightarrow> 'k machine \<Rightarrow> bool" where
  "alike K t m m' \<longleftrightarrow> same_world m m' \<and> file_at m' (journal_file K t) = file_at m (journal_file K t)"

lemma alike_open: "alike K t m m' \<Longrightarrow> open_at K W t b V0 ms0 S m \<Longrightarrow> open_at K W t b V0 ms0 S m'"
  by (simp add: alike_def open_at_def on_disk_def same_world_def)

lemma alike_closed: "alike K t m m' \<Longrightarrow> closed_at K W t b V0 m \<Longrightarrow> closed_at K W t b V0 m'"
  by (simp add: alike_def closed_at_def same_world_def)

lemma alike_recoverable:
  "alike K t m m' \<Longrightarrow> recoverable K W t b V0 m \<Longrightarrow> recoverable K W t b V0 m'"
  unfolding recoverable_def using alike_open alike_closed by blast

lemma in_hand_transaction: "in_hand t b ms0 j \<Longrightarrow> transaction j = t"
  by (simp add: in_hand_def well_formed_journal_def)

section \<open>Triples of the machine\<close>

lemma on_kernel_runs:
  assumes "runs (\<lambda>k. P k) f (\<lambda>k. C k) R" and "\<And>m k. F (m\<lparr>kernel := k\<rparr>) = F m"
  shows "runs (\<lambda>m. F m \<and> P (kernel m)) (on_kernel f) (\<lambda>m. F m \<and> C (kernel m))
           (\<lambda>x m. F m \<and> R x (kernel m))"
proof (rule runsI)
  fix m r m'
  assume P: "F m \<and> P (kernel m)" and k: "on_kernel f m = (r, m')"
  obtain q k' where f: "f (kernel m) = (q, k')" by (cases "f (kernel m)")
  then have m': "r = q" "m' = m\<lparr>kernel := k'\<rparr>" using k by (simp_all add: on_kernel_def)
  from P runsD [OF assms(1) _ f] show "(F m' \<and> C (kernel m')) \<and> (\<forall>x. r = Done x \<longrightarrow> F m' \<and> R x (kernel m'))"
    by (auto simp: m' assms(2))
qed

text \<open>The part of \<open>open_at\<close> that does not speak of the network.\<close>

definition framed ::
  "journal_codec \<Rightarrow> 'k ledger \<Rightarrow> transaction_id \<Rightarrow> string \<Rightarrow> (key \<Rightarrow> json option) \<Rightarrow> mutation list
     \<Rightarrow> 'k machine \<Rightarrow> bool" where
  "framed K W t b V0 ms0 m \<longleftrightarrow> boot m = b \<and> recorded W V0 ms0 \<and> on_disk K t b ms0 m"

lemma framed_kernel [simp]: "framed K W t b V0 ms0 (m\<lparr>kernel := k\<rparr>) = framed K W t b V0 ms0 m"
  by (simp add: framed_def on_disk_def)

lemma open_framed:
  "open_at K W t b V0 ms0 S m \<longleftrightarrow> framed K W t b V0 ms0 m \<and> settling W V0 ms0 S (kernel m)"
  by (auto simp: open_at_def framed_def)

lemma open_site:
  assumes "runs (settling W V0 ms0 S) f (settling W V0 ms0 Q) (\<lambda>_. settling W V0 ms0 T)"
  shows "runs (open_at K W t b V0 ms0 S) (on_kernel f) (open_at K W t b V0 ms0 Q)
           (\<lambda>_. open_at K W t b V0 ms0 T)"
  unfolding open_framed using on_kernel_runs [OF assms, of "framed K W t b V0 ms0"]
  by simp

lemma open_quiet:
  assumes "quiet W f"
  shows "runs (open_at K W t b V0 ms0 S) (on_kernel f) (open_at K W t b V0 ms0 S)
           (\<lambda>_. open_at K W t b V0 ms0 S)"
  by (rule open_site, rule quiet_runs [OF assms], rule settling_quiet)

section \<open>Restoring from a journal\<close>

lemma keeps_site:
  assumes "dependable N W V0" "recorded W V0 ms0" "stage ms0 (mutations j)" "i < length ms0"
  shows "keeps (open_at K W t b V0 ms0 {}) (on_kernel (restore_one N j i True))"
  by (rule keeps_runs, rule runs_weaken [OF open_site [OF restore_one_runs [OF assms]]])
     (auto elim: open_more)

lemma restore_each_runs:
  assumes "dependable N W V0" "recorded W V0 ms0" "stage ms0 (mutations j)"
    and "set is \<subseteq> {..<length ms0}"
  shows "runs (open_at K W t b V0 ms0 S)
     (restore_each (\<lambda>i. on_kernel (restore_one N j i True)) is ws) (open_at K W t b V0 ms0 {})
     (\<lambda>ws' m. open_at K W t b V0 ms0 {} m
        \<and> (ws' = [] \<longrightarrow> ws = [] \<and> open_at K W t b V0 ms0 (S \<union> (\<lambda>i. mut_key (ms0 ! i)) ` set is) m))"
  using assms(4)
proof (induction "is" arbitrary: S ws)
  case Nil
  then show ?case by (auto intro!: runs_return elim: open_more)
next
  case (Cons i "is")
  let ?O = "open_at K W t b V0 ms0"
  have i: "i < length ms0" using Cons.prems by simp
  have step: "runs (?O S) (io_try (on_kernel (restore_one N j i True))) (?O {})
      (\<lambda>r m. ?O {} m \<and> (\<forall>x. r = Inr x \<longrightarrow> ?O (insert (mut_key (ms0 ! i)) S) m))"
  proof (rule runs_try)
    show "runs (?O S) (on_kernel (restore_one N j i True)) (?O {})
      (\<lambda>x m. ?O {} m \<and> (\<forall>y. Inr x = Inr y \<longrightarrow> ?O (insert (mut_key (ms0 ! i)) S) m))"
      by (rule runs_weaken [OF open_site [OF restore_one_runs [OF assms(1-3) i, where S = S]]])
         (auto elim: open_more)
  qed simp
  have rest: "runs (\<lambda>m. ?O {} m \<and> (\<forall>x. r = Inr x \<longrightarrow> ?O (insert (mut_key (ms0 ! i)) S) m))
     (restore_each (\<lambda>i. on_kernel (restore_one N j i True)) is
        (case r of Inl e \<Rightarrow> ws @ [e] | Inr _ \<Rightarrow> ws)) (?O {})
     (\<lambda>ws' m. ?O {} m \<and> (ws' = [] \<longrightarrow> ws = [] \<and> ?O (S \<union> (\<lambda>i. mut_key (ms0 ! i)) ` set (i # is)) m))"
    for r :: "unit result"
  proof (cases r)
    case (Inl e)
    show ?thesis
      using Cons.prems by (auto simp: Inl intro!: runs_weaken [OF Cons.IH [of "{}"]])
  next
    case (Inr u)
    show ?thesis
      using Cons.prems
      by (auto simp: Inr intro!: runs_weaken [OF Cons.IH [of "insert (mut_key (ms0 ! i)) S"]])
  qed
  show ?case
    unfolding restore_each.simps by (rule runs_bind [OF step rest])
qed

lemma keys_by_index: "(\<lambda>i. mut_key (ms ! i)) ` {0..<length ms} = mut_key ` set ms"
  by (force simp: in_set_conv_nth image_iff)

lemma restore_runs:
  assumes "dependable N W V0" "in_hand t b ms0 j"
  shows "runs (open_at K W t b V0 ms0 {}) (restore K N j) (recoverable K W t b V0)
     (\<lambda>ws m. recoverable K W t b V0 m \<and> (ws = [] \<longrightarrow> closed_at K W t b V0 m))"
proof (rule runs_pre [of _ "recorded W V0 ms0"])
  show "open_at K W t b V0 ms0 {} m \<Longrightarrow> recorded W V0 ms0" for m by (simp add: open_at_def)
  assume rec: "recorded W V0 ms0"
  let ?O = "open_at K W t b V0 ms0 {}"
  let ?A = "open_at K W t b V0 ms0 (mut_key ` set ms0)"
  let ?Rc = "recoverable K W t b V0"
  let ?Cl = "closed_at K W t b V0"
  have st: "stage ms0 (mutations j)" and tj: "transaction j = t" and bj: "boot_id j = b"
    using assms(2) in_hand_transaction by (auto simp: in_hand_def)
  have len: "length (mutations j) = length ms0" by (rule stage_length [OF st])
  have rc: "?O m \<Longrightarrow> ?Rc m" "?Cl m \<Longrightarrow> ?Rc m" for m
    by (rule open_recoverable) (simp_all add: closed_recoverable)
  let ?site = "\<lambda>i. on_kernel (restore_one N j i True)"
  have boot: "runs ?O read_boot_id ?Rc (\<lambda>b' m. ?O m \<and> b' = b)"
    unfolding read_boot_id_def
    by (rule runs_bind [where R = "\<lambda>_. ?O"], rule runs_probe, simp, rule rc(1), assumption,
        rule runs_get, rule conjI, erule rc(1)) (simp add: open_at_def)
  have script: "keeps ?O (script_io N (jconfig j) DisconnectReason (mutations j) on_kernel
       (\<lambda>sh env. on_kernel (sh env)) kernel ?site)"
    unfolding script_io_def
  proof (intro keeps_rules keeps_apply_script)
    show "keeps ?O (?site i)" if "i < length (mutations j)" for i
      using that len by (intro keeps_site [OF assms(1) rec st]) simp
    show "keeps ?O (on_kernel (nt_script N))" "keeps ?O (on_kernel (nt_shell N e))" for e
      using assms(1) by (auto simp: dependable_def intro!: keeps_runs open_quiet accounted_quiet)
  qed
  have first: "runs ?O (io_bind (io_try (script_io N (jconfig j) DisconnectReason (mutations j)
       on_kernel (\<lambda>sh env. on_kernel (sh env)) kernel ?site))
       (\<lambda>r. io_return (case r of Inl e \<Rightarrow> [e] | Inr _ \<Rightarrow> []))) ?Rc (\<lambda>_. ?O)"
    by (rule runs_bind [where R = "\<lambda>_. ?O"],
        rule runs_weaken [OF keeps_try [OF script, unfolded keeps_def]])
       (auto intro: rc(1) runs_return)
  have each: "runs ?O (restore_each ?site (rev [0..<length (mutations j)]) ws) ?Rc
     (\<lambda>ws m. ?O m \<and> (ws = [] \<longrightarrow> ?A m))" for ws
    by (rule runs_weaken [OF restore_each_runs [OF assms(1) rec st]])
       (auto simp: len keys_by_index intro: rc(1))
  have closes: "?A m \<Longrightarrow> ?Cl (m\<lparr>fates := fs, files := del_file (journal_file K t) (files m)\<rparr>)" for m fs
    using settling_all [of W V0 ms0 "mut_key ` set ms0"]
    by (auto simp: open_at_def closed_at_def file_at_def)
  have ao: "?A m \<Longrightarrow> ?Rc m" for m by (rule open_recoverable)
  have delete: "runs ?A (effect journal_error (whole (\<lambda>m.
       m\<lparr>files := del_file (journal_file K (transaction j)) (files m)\<rparr>))) ?Rc (\<lambda>_. ?Cl)"
    by (rule runs_effect) (use closes ao rc(2) [OF closes] in \<open>auto simp: whole_def tj\<close>)
  have sync: "runs ?Cl sync_directory ?Rc (\<lambda>_. ?Cl)"
    unfolding sync_directory_def by (rule runs_probe) (simp_all add: rc)
  have last: "runs (\<lambda>m. ?O m \<and> (ws = [] \<longrightarrow> ?A m))
     (io_bind (if ws = [] then io_bind (effect journal_error (whole (\<lambda>m.
       m\<lparr>files := del_file (journal_file K (transaction j)) (files m)\<rparr>))) (\<lambda>_. sync_directory)
       else io_return ()) (\<lambda>_. io_return ws)) ?Rc (\<lambda>ws m. ?Rc m \<and> (ws = [] \<longrightarrow> ?Cl m))" for ws
  proof (rule runs_bind [where R = "\<lambda>_ m. ?Rc m \<and> (ws = [] \<longrightarrow> ?Cl m)"], rule runs_if)
    show "runs (\<lambda>m. ?O m \<and> (ws = [] \<longrightarrow> ?A m)) (io_bind (effect journal_error (whole (\<lambda>m.
       m\<lparr>files := del_file (journal_file K (transaction j)) (files m)\<rparr>))) (\<lambda>_. sync_directory))
       ?Rc (\<lambda>_ m. ?Rc m \<and> (ws = [] \<longrightarrow> ?Cl m))" if "ws = []"
      by (rule runs_weaken [OF runs_bind [OF delete sync]]) (use that rc(2) in auto)
  qed (auto intro!: runs_return rc(1))
  show "runs ?O (restore K N j) ?Rc (\<lambda>ws m. ?Rc m \<and> (ws = [] \<longrightarrow> ?Cl m))"
    unfolding restore_def Let_def
  proof (rule runs_bind [OF boot])
    fix b'
    show "runs (\<lambda>m. ?O m \<and> b' = b)
     (io_bind (if boot_id j = b'
              then io_bind (io_try (script_io N (jconfig j) DisconnectReason (mutations j)
                       on_kernel (\<lambda>sh env. on_kernel (sh env)) kernel
                       (\<lambda>i. on_kernel (restore_one N j i (boot_id j = b')))))
                     (\<lambda>r. io_return (case r of Inl e \<Rightarrow> [e] | Inr _ \<Rightarrow> []))
              else io_return []) (\<lambda>warnings.
     io_bind (restore_each (\<lambda>i. on_kernel (restore_one N j i (boot_id j = b')))
        (rev [0..<length (mutations j)]) warnings) (\<lambda>warnings.
     io_bind (if warnings = []
              then io_bind (effect journal_error (whole (\<lambda>m.
                       m\<lparr>files := del_file (journal_file K (transaction j)) (files m)\<rparr>)))
                     (\<lambda>_. sync_directory)
              else io_return ()) (\<lambda>_.
     io_return warnings)))) ?Rc (\<lambda>ws m. ?Rc m \<and> (ws = [] \<longrightarrow> ?Cl m))"
      by (rule runs_pre [of _ "boot_id j = b'"], simp add: bj, simp,
          rule runs_bind, rule runs_weaken [OF first], simp, assumption, assumption,
          rule runs_bind [OF each last])
  qed
qed

section \<open>Loading and locking\<close>

lemma lock_keeps:
  assumes "\<And>m m'. alike K t m m' \<Longrightarrow> I m \<Longrightarrow> I m'"
  shows "keeps I journal_lock"
proof -
  have fates: "I m \<Longrightarrow> I (m\<lparr>fates := fs\<rparr>)" for m fs
    by (rule assms [of m]) (simp_all add: alike_def)
  have "keeps I (effect denied (whole (\<lambda>m. if map_of (files m) ''lock'' = None
       then m\<lparr>files := put_file ''lock'' \<lparr>f_meta = fresh_meta, f_data = []\<rparr> (files m)\<rparr> else m)))"
    by (rule keeps_runs, rule runs_effect)
       (auto simp: whole_def alike_def file_at_def elim!: assms [rotated])
  then show ?thesis
    unfolding journal_lock_def privileged_def open_create_def
    by (intro keeps_rules keeps_probe fates) (auto split: option.splits intro: keeps_rules)
qed

lemma load_runs:
  "runs (recoverable K W t b V0) (load K t) (recoverable K W t b V0)
     (\<lambda>found m. case found of
        None \<Rightarrow> closed_at K W t b V0 m
      | Some j \<Rightarrow> \<exists>ms0. in_hand t b ms0 j \<and> open_at K W t b V0 ms0 {} m)"
proof (rule runsI)
  fix m r m'
  assume rc: "recoverable K W t b V0 m" and l: "load K t m = (r, m')"
  have m': "\<exists>fs. m' = m\<lparr>fates := fs\<rparr>"
    and r: "\<And>found. r = Done found \<Longrightarrow> case found of
        None \<Rightarrow> file_at m (journal_file K t) = None
      | Some j \<Rightarrow> \<exists>f. file_at m (journal_file K t) = Some f \<and> jc_decode K (f_data f) = Some j"
    using l
    by (auto simp: load_def probe_def effect_def io_bind_def io_get_def io_return_def io_fail_def
        io_lift_def ok_or_def open_existing_def file_at_def
        split: list.splits fate.splits option.splits sum.splits if_splits) (metis machine.surjective
          machine.update_convs(3))+
  from m' rc have rc': "recoverable K W t b V0 m'" by auto
  moreover have "case found of None \<Rightarrow> closed_at K W t b V0 m'
      | Some j \<Rightarrow> \<exists>ms0. in_hand t b ms0 j \<and> open_at K W t b V0 ms0 {} m'"
    if "r = Done found" for found
  proof (cases found)
    case None
    with r [OF that] m' rc' show ?thesis
      by (auto simp: recoverable_def open_at_def on_disk_def)
  next
    case (Some j)
    with r [OF that] m' rc' show ?thesis
      by (auto simp: recoverable_def closed_at_def open_at_def on_disk_def)
  qed
  ultimately show "recoverable K W t b V0 m' \<and> (\<forall>found. r = Done found \<longrightarrow>
      (case found of None \<Rightarrow> closed_at K W t b V0 m'
      | Some j \<Rightarrow> \<exists>ms0. in_hand t b ms0 j \<and> open_at K W t b V0 ms0 {} m'))"
    by blast
qed

lemma load_restore_runs:
  assumes "dependable N W V0"
  shows "runs (recoverable K W t b V0)
     (io_bind (load K t) (\<lambda>found.
        case found of Some j \<Rightarrow> restore K N j | None \<Rightarrow> io_return []))
     (recoverable K W t b V0)
     (\<lambda>ws m. recoverable K W t b V0 m \<and> (ws = [] \<longrightarrow> closed_at K W t b V0 m))"
proof (rule runs_bind [OF load_runs])
  fix found :: "journal option"
  show "runs (\<lambda>m. case found of None \<Rightarrow> closed_at K W t b V0 m
      | Some j \<Rightarrow> \<exists>ms0. in_hand t b ms0 j \<and> open_at K W t b V0 ms0 {} m)
     (case found of Some j \<Rightarrow> restore K N j | None \<Rightarrow> io_return [])
     (recoverable K W t b V0)
     (\<lambda>ws m. recoverable K W t b V0 m \<and> (ws = [] \<longrightarrow> closed_at K W t b V0 m))"
  proof (cases found)
    case None
    then show ?thesis by (auto intro!: runs_return closed_recoverable)
  next
    case (Some j)
    show ?thesis
      using restore_runs [OF assms, of t b _ j K] unfolding runs_def Some by fastforce
  qed
qed

section \<open>Applying a plan\<close>

text \<open>The machine and the journal in hand in the middle of an application.\<close>

definition working ::
  "journal_codec \<Rightarrow> 'k ledger \<Rightarrow> transaction_id \<Rightarrow> string
     \<Rightarrow> (key \<Rightarrow> json option) \<Rightarrow> mutation list \<Rightarrow> 'k workspace \<Rightarrow> bool" where
  "working K W t b V0 ms0 s \<longleftrightarrow>
     open_at K W t b V0 ms0 {} (fst s) \<and> in_hand t b ms0 (snd s)"

lemma beside_keeps:
  "keeps (open_at K W t b V0 ms0 {}) f \<Longrightarrow> keeps (working K W t b V0 ms0) (beside f)"
  by (rule keepsI) (auto simp: working_def beside_def split: prod.splits dest: keepsD)

lemma beside_runs:
  assumes "runs (open_at K W t b V0 ms0 {}) f (open_at K W t b V0 ms0 {}) (\<lambda>x m. open_at K W t b V0 ms0 {} m \<and> Q x)"
  shows "runs (working K W t b V0 ms0) (beside f) (working K W t b V0 ms0)
           (\<lambda>x s. working K W t b V0 ms0 s \<and> Q x)"
  using assms by (auto simp: runs_def working_def beside_def split: prod.splits)

lemma edit_keeps:
  "(\<And>j. in_hand t b ms0 j \<Longrightarrow> in_hand t b ms0 (f j)) \<Longrightarrow> keeps (working K W t b V0 ms0) (edit f)"
  by (rule keepsI) (simp add: working_def edit_def)

lemma in_hand_pending:
  "in_hand t b ms0 j \<Longrightarrow> i < length ms0 \<Longrightarrow> in_hand t b ms0 (j\<lparr>pending_operation := Some i\<rparr>)"
  "in_hand t b ms0 j \<Longrightarrow> in_hand t b ms0 (j\<lparr>pending_operation := None\<rparr>)"
  by (auto simp: in_hand_def well_formed_journal_def dest: stage_length)

lemma in_hand_applied:
  assumes "in_hand t b ms0 j" "i < length ms0" "v = intended (ms0 ! i)"
  shows "in_hand t b ms0 (set_applied i v j)"
  using assms stage_update [OF _ assms(2,3)]
  by (auto simp: in_hand_def well_formed_journal_def set_applied_def split: option.splits)

lemma save_working:
  assumes "lossless K"
  shows "keeps (working K W t b V0 ms0) (save_current K)"
proof (rule keepsI)
  fix s
  assume w: "working K W t b V0 ms0 s"
  obtain m j where s: "s = (m, j)" by (cases s)
  obtain r m' where sv: "save K j m = (r, m')" by (cases "save K j m")
  have h: "in_hand t b ms0 j" and o: "open_at K W t b V0 ms0 {} m"
    using w by (simp_all add: working_def s)
  note t = in_hand_transaction [OF h]
  have "drafting (pending_file K (transaction j)) m m" by (simp add: drafting_def)
  from runsD(1) [OF save_runs this sv] have sav: "saving K j m m'" .
  have dec: "jc_decode K (jc_encode K j) = Some j"
    using assms h o stage_storable unfolding lossless_def in_hand_def open_at_def by blast
  have "on_disk K t b ms0 m'"
  proof (cases "committed K j m'")
    case True
    with dec h t show ?thesis by (auto simp: on_disk_def committed_def)
  next
    case False
    with sav o show ?thesis by (simp add: on_disk_def saving_def open_at_def t)
  qed
  with sav o h have "working K W t b V0 ms0 (m', j)"
    by (simp add: working_def open_at_def saving_def same_world_def)
  then show "working K W t b V0 ms0 (snd (save_current K s))"
    by (simp add: s save_current_def beside_def sv)
qed

lemma await_runs:
  assumes "accounted N W" "mut_key item \<in> lg_keys W" "\<And>k k'. P k \<Longrightarrow> changes W {} k k' \<Longrightarrow> P k'"
  shows "runs P (await_state N item n) P (\<lambda>v k. P k \<and> v = intended item)"
proof (induction n)
  case 0
  show ?case
    unfolding await_state.simps [of N item 0]
    by (rule runs_bind [OF read_runs [OF assms]])
       (auto simp: equivalent_eq [OF assms(1)] intro!: runs_if runs_return runs_fail)
next
  case (Suc n)
  show ?case
    unfolding await_state.simps [of N item "Suc n"]
    by (rule runs_bind [OF read_runs [OF assms]])
       (auto simp: equivalent_eq [OF assms(1)] intro!: runs_if runs_return runs_fail
          runs_weaken [OF Suc.IH])
qed

lemma apply_one_runs:
  assumes "accounted N W" "recorded W V0 ms" "mut_key item \<in> mut_key ` set ms"
  shows "runs (settling W V0 ms {}) (unix_apply_one N c item) (settling W V0 ms {})
           (\<lambda>v k. settling W V0 ms {} k \<and> v = intended item)"
proof -
  let ?P = "settling W V0 ms {}"
  have key: "mut_key item \<in> lg_keys W \<and> lg_reach W (mut_key item) \<inter> lg_keys W \<subseteq> mut_key ` set ms"
  proof -
    obtain m where m: "m \<in> set ms" "mut_key item = mut_key m" using assms(3) by auto
    from assms(2) have "\<forall>m\<in>set ms. mut_key m \<in> lg_keys W
        \<and> lg_reach W (mut_key m) \<inter> lg_keys W \<subseteq> mut_key ` set ms"
      by (simp add: recorded_def)
    with m show ?thesis by simp
  qed
  have wr: "runs ?P (unix_write N (mut_key item) v) ?P (\<lambda>_. ?P)" for v
    by (rule runsI) (use settling_reach [OF _ accounted_write [OF assms(1) key [THEN conjunct1]] key [THEN conjunct2]] in blast)
  have w: "runs ?P (if \<not> unix_equivalent N (mut_key item) current (intended item)
      then unix_write N (mut_key item) (intended item) else io_return ()) ?P (\<lambda>_. ?P)" for current
    by (rule runs_if, rule wr) (auto intro!: runs_return)
  have tail: "runs ?P
     (io_bind (if \<not> unix_equivalent N (mut_key item) current (intended item)
      then unix_write N (mut_key item) (intended item) else io_return ())
      (\<lambda>_. await_state N item (nt_polls N)))
     ?P (\<lambda>v k. ?P k \<and> v = intended item)" for current
    by (rule runs_bind [OF w await_runs [OF assms(1) key [THEN conjunct1] settling_quiet]])
  show ?thesis
    unfolding unix_apply_one_def
    by (rule runs_bind [OF read_runs [OF assms(1) key [THEN conjunct1] settling_quiet]], assumption, assumption,
        rule runs_if, rule runs_fail, simp, rule runs_weaken [OF tail]) auto
qed

lemma kernel_site:
  assumes "runs (settling W V0 ms0 {}) f (settling W V0 ms0 {})
             (\<lambda>v k. settling W V0 ms0 {} k \<and> Q v)"
  shows "runs (working K W t b V0 ms0) (beside (on_kernel f)) (working K W t b V0 ms0)
           (\<lambda>v s. working K W t b V0 ms0 s \<and> Q v)"
proof (rule beside_runs)
  show "runs (open_at K W t b V0 ms0 {}) (on_kernel f) (open_at K W t b V0 ms0 {})
     (\<lambda>x m. open_at K W t b V0 ms0 {} m \<and> Q x)"
    unfolding open_framed using on_kernel_runs [OF assms, of "framed K W t b V0 ms0"]
    by (simp add: conj_assoc)
qed

lemma apply_site_keeps:
  assumes "accounted N W" "lossless K" "recorded W V0 ms0" "stage ms0 ms" "i < length ms0"
  shows "keeps (working K W t b V0 ms0) (apply_site K N c ms i)"
proof -
  let ?W = "working K W t b V0 ms0"
  note core = stage_core [OF assms(4,5)]
  have one: "runs ?W (beside (on_kernel (unix_apply_one N c (ms ! i)))) ?W
      (\<lambda>v s. ?W s \<and> v = intended (ms0 ! i))"
  proof (rule kernel_site)
    have "mut_key (ms ! i) \<in> mut_key ` set ms0" using core assms(5) by simp
    from apply_one_runs [OF assms(1,3) this, of c] core
    show "runs (settling W V0 ms0 {}) (unix_apply_one N c (ms ! i)) (settling W V0 ms0 {})
        (\<lambda>v k. settling W V0 ms0 {} k \<and> v = intended (ms0 ! i))" by simp
  qed
  have applied: "runs (\<lambda>s. ?W s \<and> v = intended (ms0 ! i)) (edit (set_applied i v)) ?W (\<lambda>_. ?W)" for v
    using in_hand_applied [OF _ assms(5)] by (auto simp: runs_def edit_def working_def)
  have rest: "keeps ?W (io_bind (edit (\<lambda>j. j\<lparr>pending_operation := None\<rparr>)) (\<lambda>_. save_current K))"
    by (intro keeps_rules edit_keeps save_working assms(2) in_hand_pending(2))
  have "keeps ?W (io_bind (beside (on_kernel (unix_apply_one N c (ms ! i)))) (\<lambda>v.
     io_bind (edit (set_applied i v)) (\<lambda>_.
     io_bind (edit (\<lambda>j. j\<lparr>pending_operation := None\<rparr>)) (\<lambda>_. save_current K))))"
    unfolding keeps_def
    by (rule runs_bind [OF one], rule runs_bind [OF applied rest [unfolded keeps_def]])
  then have "keeps ?W (io_bind (save_current K) (\<lambda>_.
     io_bind (beside (on_kernel (unix_apply_one N c (ms ! i)))) (\<lambda>v.
     io_bind (edit (set_applied i v)) (\<lambda>_.
     io_bind (edit (\<lambda>j. j\<lparr>pending_operation := None\<rparr>)) (\<lambda>_. save_current K)))))"
    by (rule keeps_bind [OF save_working [OF assms(2)]])
  moreover have "keeps ?W (edit (\<lambda>j. j\<lparr>pending_operation := Some i\<rparr>))"
    by (rule edit_keeps) (rule in_hand_pending(1) [OF _ assms(5)])
  ultimately show ?thesis
    unfolding apply_site_def by (blast intro: keeps_bind)
qed

lemma verify_site_keeps:
  assumes "accounted N W" "recorded W V0 ms0" "i < length ms0"
  shows "keeps (working K W t b V0 ms0) (verify_site N i)"
proof (rule keepsI)
  let ?W = "working K W t b V0 ms0"
  fix s
  assume w: "?W s"
  define m where "m = mutations (snd s) ! i"
  have st: "stage ms0 (mutations (snd s))" using w by (simp add: working_def in_hand_def)
  have m: "mut_key m = mut_key (ms0 ! i)" "intended m = intended (ms0 ! i)"
    using stage_core [OF st assms(3)] by (simp_all add: m_def)
  have D: "mut_key m \<in> lg_keys W" using recorded_nth [OF assms(2,3)] m by simp
  let ?f = "io_bind (beside (on_kernel (unix_read N (mut_key m)))) (\<lambda>actual.
     if \<not> unix_equivalent N (mut_key m) actual (intended m)
     then io_fail (net_failure
       ''Applied network configuration did not match operating system state'')
     else edit (set_applied i actual))"
  have "keeps ?W (beside (on_kernel (unix_read N (mut_key m))))"
  proof -
    have "runs (settling W V0 ms0 {}) (unix_read N (mut_key m)) (settling W V0 ms0 {})
        (\<lambda>v k. settling W V0 ms0 {} k \<and> True)"
      by (rule runs_weaken [OF read_runs [where P = "settling W V0 ms0 {}", OF assms(1) D settling_quiet]]) auto
    from kernel_site [OF this] show ?thesis by (simp add: keeps_def)
  qed
  moreover have "keeps ?W (if \<not> unix_equivalent N (mut_key m) actual (intended m)
     then io_fail (net_failure
       ''Applied network configuration did not match operating system state'')
     else edit (set_applied i actual))" for actual
    using in_hand_applied [OF _ assms(3)] m
    by (intro keeps_rules edit_keeps) (simp add: equivalent_eq [OF assms(1)])
  ultimately have "keeps ?W ?f" by (rule keeps_bind)
  then have "?W (snd (?f s))" using w by (rule keepsD) (simp add: prod_eq_iff)
  moreover have "verify_site N i s = ?f s"
    by (simp add: verify_site_def io_bind_def [of "io_get _"] io_get_def m_def)
  ultimately show "?W (snd (verify_site N i s))" by simp
qed

section \<open>Planning\<close>

lemma merge_mutations_props:
  assumes "merge_mutations acc items = Inr ms" "distinct (map mut_key acc)"
  shows "distinct (map mut_key ms) \<and> set ms \<subseteq> set acc \<union> set items"
  using assms
proof (induction acc items rule: merge_mutations.induct)
  case (2 acc item rest)
  show ?case
  proof (cases "find (\<lambda>m. mut_key m = mut_key item) acc")
    case None
    then have "mut_key item \<notin> mut_key ` set acc" by (auto simp: find_None_iff)
    with None 2 show ?thesis by auto
  next
    case (Some p)
    with 2 show ?thesis by (auto split: if_splits)
  qed
qed simp

lemma merge_mutations_keys:
  "merge_mutations acc items = Inr ms \<Longrightarrow> mut_key ` set ms = mut_key ` (set acc \<union> set items)"
proof (induction acc items rule: merge_mutations.induct)
  case (2 acc item rest)
  show ?case
  proof (cases "find (\<lambda>m. mut_key m = mut_key item) acc")
    case None
    with 2 show ?thesis by auto
  next
    case (Some p)
    then have "p \<in> set acc" "mut_key p = mut_key item" by (auto simp: find_Some_iff)
    then have "mut_key item \<in> mut_key ` set acc" by (metis image_eqI)
    with Some 2 show ?thesis by (auto split: if_splits)
  qed
qed simp

lemma stage_refl: "\<forall>m\<in>set ms. applied m = None \<Longrightarrow> stage ms ms"
  by (simp add: stage_def)

lemma plan_recorded:
  assumes "accurate_plan W k items" "original W V0 k" "merge_mutations [] items = Inr ms"
  shows "recorded W V0 ms \<and> stage ms ms"
proof -
  note merged = merge_mutations_props [OF assms(3)] merge_mutations_keys [OF assms(3)]
  have sub: "set ms \<subseteq> set items" "distinct (map mut_key ms)" "mut_key ` set ms = mut_key ` set items"
    using merged by simp_all
  have each: "mut_key m \<in> lg_keys W \<and> (before m = V0 (mut_key m) \<or> before m = None)
      \<and> storable (before m) \<and> storable (intended m)
      \<and> lg_reach W (mut_key m) \<inter> lg_keys W \<subseteq> mut_key ` set ms" if "m \<in> set ms" for m
  proof -
    have "m \<in> set items" using sub(1) that by blast
    with assms(1) have a: "mut_key m \<in> lg_keys W" "before m = lg_view W k (mut_key m)"
      "storable (before m) \<and> storable (intended m)"
      "lg_reach W (mut_key m) \<inter> lg_keys W \<subseteq> mut_key ` set items"
      unfolding accurate_plan_def by blast+
    from assms(2) a(1) have "settled W V0 k (mut_key m)" by (simp add: original_def)
    with a sub(3) show ?thesis unfolding settled_def by metis
  qed
  have "recorded W V0 ms" unfolding recorded_def using each sub(2) by simp
  moreover have "stage ms ms"
    using merged assms(1) by (intro stage_refl) (auto simp: accurate_plan_def subset_iff)
  ultimately show ?thesis ..
qed

lemma plan_runs:
  assumes "accounted N W" "c \<in> lg_configs W"
  shows "runs (original W V0) (unix_plan N c) (original W V0)
     (\<lambda>ms k. original W V0 k \<and> network_config_validate c = Inr () \<and> recorded W V0 ms \<and> stage ms ms)"
proof -
  let ?Q = "original W V0"
  let ?good = "\<lambda>items. \<exists>k. ?Q k \<and> accurate_plan W k items"
  have native: "runs ?Q (nt_plan N c) ?Q (\<lambda>items k. ?Q k \<and> ?good items)"
  proof (rule runsI)
    fix k r k'
    assume Q: "?Q k" and p: "nt_plan N c k = (r, k')"
    have "changes W {} k (snd (nt_plan N c k))"
      using accounted_quiet(4) [OF assms] by (simp add: quiet_def)
    then have "?Q k'" using original_quiet [OF Q] p by simp
    with Q p accounted_quiet(5) [OF assms] show "?Q k' \<and> (\<forall>ms. r = Done ms \<longrightarrow> ?Q k' \<and> ?good ms)"
      by blast
  qed
  have script: "runs ?Q (nt_script N) ?Q (\<lambda>_. ?Q)"
    by (rule quiet_runs [OF accounted_quiet(1) [OF assms(1)] original_quiet])
  have "runs ?Q (io_lift (safe_name (if_name (interface c)))) ?Q (\<lambda>_. ?Q)"
    "runs ?Q (io_lift (same_interface ifs c)) ?Q (\<lambda>_. ?Q)"
    "runs ?Q (io_get (nt_index N)) ?Q (\<lambda>_. ?Q)" for ifs
    by (auto intro: runs_lift runs_get)
  note lifts = this
  have last: "runs (\<lambda>k. ?Q k \<and> ?good items) (io_lift (merge_mutations [] items)) ?Q
     (\<lambda>ms k. ?Q k \<and> recorded W V0 ms \<and> stage ms ms)" for items
    by (rule runs_lift) (use plan_recorded [of W _ items V0] in auto)
  have rest: "runs ?Q (io_bind (io_lift (safe_name (if_name (interface c)))) (\<lambda>_.
     io_bind (io_get (nt_index N)) (\<lambda>ifs.
     io_bind (io_lift (same_interface ifs c)) (\<lambda>_.
     io_bind (nt_script N) (\<lambda>_.
     io_bind (nt_plan N c) (\<lambda>items.
     io_lift (merge_mutations [] items)))))))  ?Q (\<lambda>ms k. ?Q k \<and> recorded W V0 ms \<and> stage ms ms)"
    by (intro runs_bind [OF lifts(1)] runs_bind [OF lifts(3)] runs_bind [OF lifts(2)]
        runs_bind [OF script] runs_bind [OF native last])
  show ?thesis
    unfolding unix_plan_def
    by (rule runs_bind [where R = "\<lambda>_ k. ?Q k \<and> network_config_validate c = Inr ()"],
        rule runs_lift, simp, simp, rule runs_pre [of _ "network_config_validate c = Inr ()"], simp,
        rule runs_if, rule runs_fail, simp, rule runs_weaken [OF rest]) auto
qed

section \<open>The whole lifecycle\<close>

lemma apply_and_verify_keeps:
  assumes "accounted N W" "lossless K" "recorded W V0 ms0" "stage ms0 (mutations j)"
  shows "keeps (working K W t b V0 ms0) (apply_and_verify K N reason j)"
proof -
  let ?W = "working K W t b V0 ms0"
  let ?O = "open_at K W t b V0 ms0 {}"
  have len: "length (mutations j) = length ms0" by (rule stage_length [OF assms(4)])
  have quiet: "keeps ?O (on_kernel f)" if "quiet W f" for f :: "('a, 'b) io"
    using open_quiet [OF that] by (rule keeps_runs)
  have read: "keeps ?O (on_kernel (unix_read N (mut_key m)))" if m: "m \<in> set (mutations j)" for m
  proof -
    obtain m0 where "m0 \<in> set ms0" "mut_key m = mut_key m0" using stage_mem [OF assms(4) m] by metis
    then have "mut_key m \<in> lg_keys W" using assms(3) by (auto simp: recorded_def)
    then have "quiet W (unix_read N (mut_key m))" using accounted_key [OF assms(1)] unfolding honest_key_def by blast
    then show ?thesis by (rule keeps_runs [OF open_quiet])
  qed
  have preflight: "keeps ?O (preflight N m)" if "m \<in> set (mutations j)" for m
    unfolding preflight_def by (intro keeps_bind read that keeps_rules)
  have observe: "quiet W (unix_observe N c)" for c
  proof -
    have "quiet W (nt_observe N c)" by (rule accounted_quiet(3) [OF assms(1)])
    then show ?thesis
      by (auto simp: quiet_def unix_observe_def io_bind_def io_lift_def io_get_def split: sum.splits)
  qed
  have sites: "keeps ?W (apply_site K N (jconfig j) (mutations j) i)" if "i < length (mutations j)" for i
    using that len by (intro apply_site_keeps [OF assms]) simp
  have "quiet W (nt_script N)" "quiet W (nt_shell N env)" for env
    using accounted_quiet [OF assms(1)] by blast+
  then have shell: "keeps ?W (beside (on_kernel (nt_script N)))"
    "keeps ?W (beside (on_kernel (nt_shell N env)))" for env
    by (blast intro: beside_keeps keeps_runs open_quiet)+
  have script: "keeps ?W (script_io N (jconfig j) reason (mutations j) (\<lambda>f. beside (on_kernel f))
       (\<lambda>sh env. beside (on_kernel (sh env))) (\<lambda>s. kernel (fst s))
       (apply_site K N (jconfig j) (mutations j)))"
    unfolding script_io_def by (intro keeps_bind keeps_basic keeps_apply_script sites shell)
  have verify: "keeps ?W (io_each (verify_site N) [0..<length (mutations j)])"
    by (rule keeps_each) (use len in \<open>auto intro: verify_site_keeps [OF assms(1,3)]\<close>)
  have observed: "keeps ?W (beside (on_kernel (unix_observe N c)))" for c
    by (rule beside_keeps, rule keeps_runs, rule open_quiet, rule observe)
  show ?thesis
    unfolding apply_and_verify_def
    by (intro keeps_bind beside_keeps [OF keeps_each] preflight script verify observed
        save_working assms(2))
qed

lemma commit_keeps:
  assumes "dependable N W V0" "lossless K" "in_hand t b ms0 j"
  shows "runs (open_at K W t b V0 ms0 {}) (commit K N reason j) (recoverable K W t b V0)
           (\<lambda>_. recoverable K W t b V0)"
proof (rule runs_pre [of _ "recorded W V0 ms0"])
  show "open_at K W t b V0 ms0 {} m \<Longrightarrow> recorded W V0 ms0" for m by (simp add: open_at_def)
  assume rec: "recorded W V0 ms0"
  let ?W = "working K W t b V0 ms0"
  let ?Rc = "\<lambda>s. recoverable K W t b V0 (fst s)"
  have st: "stage ms0 (mutations j)" using assms(3) by (simp add: in_hand_def)
  have wr: "?W s \<Longrightarrow> ?Rc s" for s by (auto simp: working_def intro: open_recoverable)
  have acc: "accounted N W" using assms(1) by (simp add: dependable_def)
  have "keeps ?W (io_try (apply_and_verify K N reason j))"
    by (rule keeps_try) (rule apply_and_verify_keeps [OF acc assms(2) rec st])
  then have tried: "runs ?W (io_try (apply_and_verify K N reason j)) ?Rc (\<lambda>_. ?W)"
    unfolding keeps_def by (rule runs_weaken) (auto intro: wr)
  have undone: "runs (\<lambda>s. ?W s \<and> j' = snd s) (beside (restore K N j')) ?Rc (\<lambda>_. ?Rc)" for j'
  proof (rule runsI)
    fix s r s'
    assume w: "?W s \<and> j' = snd s" and "beside (restore K N j') s = (r, s')"
    then obtain m' where "restore K N j' (fst s) = (r, m')" "s' = (m', snd s)"
      by (auto simp: beside_def split: prod.splits)
    with w restore_runs [OF assms(1), of t b ms0 j' K]
    show "?Rc s' \<and> (\<forall>x. r = Done x \<longrightarrow> ?Rc s')"
      by (auto simp: working_def runs_def)
  qed
  have undo: "runs ?W (io_bind (io_get snd) (\<lambda>j. io_bind (beside (restore K N j)) (\<lambda>warnings.
      io_fail (if warnings = [] then e else journal_error)))) ?Rc
      (\<lambda>_ :: network_observation option. ?Rc)" for e
    by (rule runs_bind [where R = "\<lambda>j' s. ?W s \<and> j' = snd s"], rule runs_get, simp add: wr,
        rule runs_bind [OF undone], rule runs_fail)
  have all: "runs ?W (io_bind (io_try (apply_and_verify K N reason j)) (\<lambda>verified.
        case verified of Inr v \<Rightarrow> io_return (Some v)
        | Inl e \<Rightarrow> io_bind (io_get snd) (\<lambda>j. io_bind (beside (restore K N j)) (\<lambda>warnings.
            io_fail (if warnings = [] then e else journal_error))))) ?Rc (\<lambda>_. ?Rc)"
  proof (rule runs_bind [OF tried])
    fix verified :: "network_observation result"
    show "runs ?W (case verified of Inr v \<Rightarrow> io_return (Some v)
        | Inl e \<Rightarrow> io_bind (io_get snd) (\<lambda>j. io_bind (beside (restore K N j)) (\<lambda>warnings.
            io_fail (if warnings = [] then e else journal_error)))) ?Rc (\<lambda>_. ?Rc)"
      by (cases verified) (auto intro!: runs_return undo wr)
  qed
  show "runs (open_at K W t b V0 ms0 {}) (commit K N reason j) (recoverable K W t b V0)
           (\<lambda>_. recoverable K W t b V0)"
  proof (rule runsI)
    fix m r m'
    assume o: "open_at K W t b V0 ms0 {} m" and c: "commit K N reason j m = (r, m')"
    have "?W (m, j)" using o assms(3) by (simp add: working_def)
    with c runsD(1) [OF all this] show "recoverable K W t b V0 m'
        \<and> (\<forall>x. r = Done x \<longrightarrow> recoverable K W t b V0 m')"
      by (auto simp: commit_def in_workspace_def split: prod.splits)
  qed
qed

lemma begin_keeps:
  assumes "dependable N W V0" "lossless K" "\<And>c. config = Some c \<Longrightarrow> c \<in> lg_configs W"
  shows "runs (closed_at K W t b V0) (begin_transaction K N t reason config)
           (recoverable K W t b V0) (\<lambda>_. recoverable K W t b V0)"
proof -
  let ?A = "closed_at K W t b V0"
  let ?Rc = "recoverable K W t b V0"
  have ar: "?A m \<Longrightarrow> ?Rc m" for m by (rule closed_recoverable)
  have weak: "keeps ?A f \<Longrightarrow> runs ?A f ?Rc (\<lambda>_. ?A)" for f :: "('a machine, 'x) io"
    unfolding keeps_def by (erule runs_weaken) (auto intro: ar)
  have probe: "keeps ?A (probe e)" for e by (rule keeps_probe) simp
  have names: "keeps ?A (io_each (\<lambda>name. io_bind (probe journal_error) (\<lambda>_.
       if json_extension name then io_fail journal_error else io_return ())) names)" for names
    by (intro keeps_rules probe)
  have plan: "runs ?A (on_kernel (unix_plan N c)) ?Rc
      (\<lambda>ms m. ?A m \<and> network_config_validate c = Inr () \<and> recorded W V0 ms \<and> stage ms ms)"
    if "c \<in> lg_configs W" for c
  proof -
    have acc: "accounted N W" using assms(1) by (simp add: dependable_def)
    have "runs (\<lambda>m. (boot m = b \<and> file_at m (journal_file K t) = None) \<and> original W V0 (kernel m))
        (on_kernel (unix_plan N c))
        (\<lambda>m. (boot m = b \<and> file_at m (journal_file K t) = None) \<and> original W V0 (kernel m))
        (\<lambda>ms m. (boot m = b \<and> file_at m (journal_file K t) = None) \<and> original W V0 (kernel m)
          \<and> network_config_validate c = Inr () \<and> recorded W V0 ms \<and> stage ms ms)"
      by (rule on_kernel_runs [OF plan_runs [OF acc that]]) simp
    then show ?thesis
      by (rule runs_weaken) (auto simp: closed_at_def recoverable_def)
  qed
  let ?ready = "\<lambda>c ms m. ?A m \<and> network_config_validate c = Inr () \<and> recorded W V0 ms \<and> stage ms ms"
  have boot: "runs (?ready c ms) read_boot_id ?Rc (\<lambda>b' m. ?ready c ms m \<and> b' = b)" for c ms
    unfolding read_boot_id_def
    by (rule runs_bind [where R = "\<lambda>_. ?ready c ms"], rule runs_probe, simp, simp add: ar,
        rule runs_get) (auto simp: closed_at_def recoverable_def)
  have saved: "runs (\<lambda>m. ?ready c ms m \<and> b' = b) (save K (new_journal t b' c ms)) ?Rc
      (\<lambda>_ m. in_hand t b ms (new_journal t b c ms) \<and> b' = b \<and> open_at K W t b V0 ms {} m)"
    if "\<not> len ms > max_mutations" for c ms b'
  proof (rule runsI)
    fix m r m'
    let ?j = "new_journal t b c ms"
    assume h: "?ready c ms m \<and> b' = b" and s: "save K (new_journal t b' c ms) m = (r, m')"
    have tj: "transaction ?j = t" by (simp add: new_journal_def)
    have hand: "in_hand t b ms ?j"
      using h that by (simp add: in_hand_def well_formed_journal_def new_journal_def)
    have dec: "jc_decode K (jc_encode K ?j) = Some ?j"
      using assms(2) h stage_storable [of ms ms W V0]
      unfolding lossless_def by (simp add: new_journal_def)
    have "drafting (pending_file K (transaction ?j)) m m" by (simp add: drafting_def)
    from runsD [OF save_runs this] s h
    have sav: "saving K ?j m m'" and don: "r = Done () \<Longrightarrow> committed K ?j m'" by auto
    have v: "boot m' = b" "original W V0 (kernel m')"
      using sav h by (simp_all add: saving_def same_world_def closed_at_def)
    have open_it: "open_at K W t b V0 ms {} m'" if "committed K ?j m'"
      using that dec hand h v
      by (auto simp: open_at_def on_disk_def committed_def tj intro: original_settling)
    moreover have "closed_at K W t b V0 m'" if "\<not> committed K ?j m'"
      using that sav v h by (simp add: saving_def closed_at_def tj)
    ultimately show "?Rc m' \<and> (\<forall>x. r = Done x \<longrightarrow>
        in_hand t b ms ?j \<and> b' = b \<and> open_at K W t b V0 ms {} m')"
      using don hand h ar open_recoverable by (metis (full_types) old.unit.exhaust)
  qed
  have fin: "runs (\<lambda>m. in_hand t b ms (new_journal t b c ms) \<and> b' = b \<and> open_at K W t b V0 ms {} m)
      (commit K N reason (new_journal t b' c ms)) ?Rc (\<lambda>_. ?Rc)" for c ms b'
    by (rule runs_pre [of _ "in_hand t b ms (new_journal t b c ms) \<and> b' = b"], simp,
        rule runs_weaken [OF commit_keeps [OF assms(1,2)]]) auto
  have mid: "runs (?ready c ms) (if len ms > max_mutations
       then io_fail (net_failure ''Network transaction exceeds mutation limit'')
       else io_bind read_boot_id (\<lambda>b. io_bind (save K (new_journal t b c ms)) (\<lambda>_.
         commit K N reason (new_journal t b c ms)))) ?Rc (\<lambda>_. ?Rc)" for c ms
    by (rule runs_if, rule runs_fail, simp add: ar,
        rule runs_bind [OF boot runs_bind [OF saved fin]]) simp
  have config: "runs ?A (io_lift (ok_or (net_failure ''Missing negotiated network configuration'') config))
      ?Rc (\<lambda>c m. ?A m \<and> c \<in> lg_configs W)"
    by (rule runs_lift) (use ar assms(3) in \<open>auto simp: ok_or_def split: option.splits\<close>)
  let ?planned = "\<lambda>c. io_bind (on_kernel (unix_plan N c)) (\<lambda>ms.
     if len ms > max_mutations
     then io_fail (net_failure ''Network transaction exceeds mutation limit'')
     else io_bind read_boot_id (\<lambda>b. io_bind (save K (new_journal t b c ms)) (\<lambda>_.
       commit K N reason (new_journal t b c ms))))"
  have fin: "runs (\<lambda>m. ?A m \<and> c \<in> lg_configs W) (?planned c) ?Rc (\<lambda>_. ?Rc)" for c
    by (rule runs_pre [of _ "c \<in> lg_configs W"], simp, rule runs_weaken, rule runs_bind [OF plan mid])
       auto
  show ?thesis
    unfolding begin_transaction_def
    by (intro runs_bind [OF weak [OF probe]] runs_bind [OF weak [OF keeps_basic(4)]]
        runs_bind [OF weak [OF names]] runs_bind [OF config fin])
qed

lemma lifecycle_keeps:
  assumes "dependable N W V0" "lossless K" "\<And>c. li_config input = Some c \<Longrightarrow> c \<in> lg_configs W"
  shows "keeps (recoverable K W t b V0) (lifecycle K N t input)"
proof (rule keeps_runs)
  let ?A = "closed_at K W t b V0"
  let ?Rc = "recoverable K W t b V0"
  have ar: "?A m \<Longrightarrow> ?Rc m" for m by (rule closed_recoverable)
  have lock: "runs ?Rc journal_lock ?Rc (\<lambda>_. ?Rc)"
    using lock_keeps [of K t ?Rc] alike_recoverable unfolding keeps_def by blast
  have priv: "runs ?Rc privileged ?Rc (\<lambda>_. ?Rc)"
    unfolding privileged_def keeps_def [symmetric] by (intro keeps_rules)
  let ?undo = "\<lambda>found. case found of None \<Rightarrow> io_return ()
      | Some j \<Rightarrow> io_bind (restore K N j) (\<lambda>warnings.
          if warnings \<noteq> [] then io_fail journal_error else io_return ())"
  have undo: "runs (\<lambda>m. case found of None \<Rightarrow> ?A m
      | Some j \<Rightarrow> \<exists>ms0. in_hand t b ms0 j \<and> open_at K W t b V0 ms0 {} m)
     (?undo found) ?Rc (\<lambda>_. ?A)" for found
  proof (cases found)
    case None
    then show ?thesis by (auto intro!: runs_return ar)
  next
    case (Some j)
    have one: "runs (open_at K W t b V0 ms0 {}) (io_bind (restore K N j) (\<lambda>warnings.
          if warnings \<noteq> [] then io_fail journal_error else io_return ())) ?Rc (\<lambda>_. ?A)"
      if "in_hand t b ms0 j" for ms0
      by (rule runs_bind [OF restore_runs [OF assms(1) that]])
         (auto intro!: runs_if runs_fail runs_return ar)
    show ?thesis unfolding Some using one by (fastforce simp: runs_def)
  qed
  have rest: "runs ?A (if li_reason input = DisconnectReason then io_return None
      else begin_transaction K N t (li_reason input) (li_config input)) ?Rc (\<lambda>_. ?Rc)"
    by (rule runs_if) (auto intro!: runs_return ar begin_keeps [OF assms])
  show "runs ?Rc (lifecycle K N t input) ?Rc (\<lambda>_. ?Rc)"
    unfolding lifecycle_def
    by (rule runs_bind [OF priv runs_bind [OF lock]], rule runs_if, rule runs_return, simp,
        rule runs_bind [OF load_runs runs_bind [OF undo rest]])
qed

lemma recover_runs:
  assumes "dependable N W V0"
  shows "runs (recoverable K W t b V0) (recover K N t) (recoverable K W t b V0)
     (\<lambda>ws m. recoverable K W t b V0 m \<and> (ws = [] \<longrightarrow> closed_at K W t b V0 m))"
proof -
  let ?Rc = "recoverable K W t b V0"
  have lock: "runs ?Rc journal_lock ?Rc (\<lambda>_. ?Rc)"
    using lock_keeps [of K t ?Rc] alike_recoverable unfolding keeps_def by blast
  have priv: "runs ?Rc privileged ?Rc (\<lambda>_. ?Rc)"
    unfolding privileged_def keeps_def [symmetric] by (intro keeps_rules)
  show ?thesis
    unfolding recover_def
    by (rule runs_bind [OF priv runs_bind [OF lock load_restore_runs [OF assms]]])
qed

end
