(* ===== verification/RecoveryLive.thy ===== *)
theory RecoveryLive
  imports Recovery Contracts
begin

text \<open>
  The histories of one transaction: lifecycles and recoveries in any order, each cut short
  anywhere by a failing or fatal effect of a file or of the operating system, with changes of the
  recorded values from outside in between, within one boot; and that a recovery which is let run
  comes to its end.
\<close>

section \<open>Histories\<close>

text \<open>The keys that the journal on disk records.\<close>

definition journaled :: "journal_codec \<Rightarrow> transaction_id \<Rightarrow> 'k machine \<Rightarrow> key set" where
  "journaled K t m =
     (case file_at m (journal_file K t) of
        Some f \<Rightarrow> (case jc_decode K (f_data f) of Some j \<Rightarrow> mut_key ` set (mutations j) | None \<Rightarrow> {})
      | None \<Rightarrow> {})"

text \<open>
  Each run is a new process: it meets arbitrary fates and any of the environments \<open>E\<close>. Between two
  runs, whatever the journal records may take any value, and any key may disappear.
\<close>

inductive history ::
  "journal_codec \<Rightarrow> 'k ledger \<Rightarrow> 'k native set \<Rightarrow> transaction_id \<Rightarrow> 'k machine \<Rightarrow> 'k machine \<Rightarrow> bool"
  for K :: journal_codec and W :: "'k ledger" and E :: "'k native set" and t :: transaction_id
    and m0 :: "'k machine"
where
  start: "history K W E t m0 m0"
| cycle: "history K W E t m0 m \<Longrightarrow> N \<in> E \<Longrightarrow> (\<And>c. li_config input = Some c \<Longrightarrow> c \<in> lg_configs W)
    \<Longrightarrow> lifecycle K N t input (m\<lparr>fates := fs\<rparr>) = (r, m') \<Longrightarrow> history K W E t m0 m'"
| repair: "history K W E t m0 m \<Longrightarrow> N \<in> E \<Longrightarrow> recover K N t (m\<lparr>fates := fs\<rparr>) = (q, m')
    \<Longrightarrow> history K W E t m0 m'"
| drift: "history K W E t m0 m \<Longrightarrow> changes W (journaled K t m) (kernel m) k'
    \<Longrightarrow> history K W E t m0 (m\<lparr>kernel := k'\<rparr>)"

lemma recover_keeps:
  "dependable N W V0 \<Longrightarrow> keeps (recoverable K W t b V0) (recover K N t)"
  by (rule keeps_runs) (rule runs_weaken [OF recover_runs], auto)

lemma stage_keys: "stage ms0 ms \<Longrightarrow> mut_key ` set ms = mut_key ` set ms0"
proof -
  assume "stage ms0 ms"
  then have "map (fst \<circ> core) ms = map (fst \<circ> core) ms0"
    unfolding stage_def by (metis list.map_comp)
  moreover have "fst \<circ> core = mut_key" by (simp add: core_def fun_eq_iff)
  ultimately show ?thesis by (metis list.set_map)
qed

lemma drift_recoverable:
  assumes "recoverable K W t b V0 m" "changes W (journaled K t m) (kernel m) k'"
  shows "recoverable K W t b V0 (m\<lparr>kernel := k'\<rparr>)"
proof -
  consider "closed_at K W t b V0 m" | ms0 where "open_at K W t b V0 ms0 {} m"
    using assms(1) by (auto simp: recoverable_def)
  then show ?thesis
  proof cases
    case 1
    then have "original W V0 (kernel m)" "changes W {} (kernel m) k'"
      using assms(2) by (auto simp: closed_at_def journaled_def)
    then have "original W V0 k'" by (rule original_quiet)
    with 1 show ?thesis by (simp add: closed_at_def recoverable_def)
  next
    case (2 ms0)
    then obtain f j where f: "file_at m (journal_file K t) = Some f"
      "jc_decode K (f_data f) = Some j" "stage ms0 (mutations j)"
      by (auto simp: open_at_def on_disk_def in_hand_def)
    then have "journaled K t m = mut_key ` set ms0"
      by (simp add: journaled_def stage_keys)
    moreover have "settling W V0 ms0 {} (kernel m)" using 2 by (simp add: open_at_def)
    ultimately have "settling W V0 ms0 {} k'"
      using settling_reach [of W V0 ms0 "{}" "kernel m" "journaled K t m" k'] assms(2) by simp
    with 2 have "open_at K W t b V0 ms0 {} (m\<lparr>kernel := k'\<rparr>)"
      by (simp add: open_at_def on_disk_def)
    then show ?thesis by (rule open_recoverable)
  qed
qed

text \<open>One process under an environment that keeps its account, or one change from outside, and the
  system these steps make of the machine.\<close>

definition journal_turn ::
  "journal_codec \<Rightarrow> 'k ledger \<Rightarrow> (key \<Rightarrow> json option) \<Rightarrow> transaction_id \<Rightarrow> 'k machine \<Rightarrow> 'k machine \<Rightarrow> bool"
where
  "journal_turn K W V0 t m m' \<longleftrightarrow>
     (lossless K \<and> (\<exists>N fs. dependable N W V0
        \<and> ((\<exists>input r. (\<forall>c. li_config input = Some c \<longrightarrow> c \<in> lg_configs W)
               \<and> lifecycle K N t input (m\<lparr>fates := fs\<rparr>) = (r, m'))
           \<or> (\<exists>q. recover K N t (m\<lparr>fates := fs\<rparr>) = (q, m')))))
     \<or> (\<exists>k'. changes W (journaled K t m) (kernel m) k' \<and> m' = m\<lparr>kernel := k'\<rparr>)"

interpretation journal: invariant_system "closed_at K W t b V0" "journal_turn K W V0 t"
  "recoverable K W t b V0" for K W t b V0
proof unfold_locales
  show "recoverable K W t b V0 m" if "closed_at K W t b V0 m" for m
    using that by (rule closed_recoverable)
  fix m m'
  assume m: "recoverable K W t b V0 m" and "journal_turn K W V0 t m m'"
  then consider N fs input r where "lossless K" "dependable N W V0"
      "\<forall>c. li_config input = Some c \<longrightarrow> c \<in> lg_configs W"
      "lifecycle K N t input (m\<lparr>fates := fs\<rparr>) = (r, m')"
    | N fs q where "dependable N W V0" "recover K N t (m\<lparr>fates := fs\<rparr>) = (q, m')"
    | k' where "changes W (journaled K t m) (kernel m) k'" "m' = m\<lparr>kernel := k'\<rparr>"
    unfolding journal_turn_def by blast
  then show "recoverable K W t b V0 m'"
  proof cases
    case 1
    show ?thesis
      using keepsD [OF lifecycle_keeps [OF 1(2,1)] _ 1(4)] 1(3) m by simp
  next
    case 2
    show ?thesis using keepsD [OF recover_keeps [OF 2(1)] _ 2(2)] m by simp
  next
    case 3
    with drift_recoverable [OF m] show ?thesis by simp
  qed
qed

lemma history_turns:
  assumes "\<And>N. N \<in> E \<Longrightarrow> dependable N W V0" "lossless K" and "history K W E t m0 m"
  shows "(journal_turn K W V0 t)\<^sup>*\<^sup>* m0 m"
  using assms(3)
proof induction
  case (cycle m N input fs r m')
  then have "journal_turn K W V0 t m m'" using assms(1,2) unfolding journal_turn_def by blast
  with cycle.IH show ?case by (rule rtranclp.rtrancl_into_rtrancl)
next
  case (repair m N fs q m')
  then have "journal_turn K W V0 t m m'" using assms(1,2) unfolding journal_turn_def by blast
  with repair.IH show ?case by (rule rtranclp.rtrancl_into_rtrancl)
next
  case (drift m k')
  then have "journal_turn K W V0 t m (m\<lparr>kernel := k'\<rparr>)" unfolding journal_turn_def by blast
  with drift.IH show ?case by (rule rtranclp.rtrancl_into_rtrancl)
qed simp

lemma history_recoverable:
  assumes "\<And>N. N \<in> E \<Longrightarrow> dependable N W V0" "lossless K" "closed_at K W t b V0 m0"
    and "history K W E t m0 m"
  shows "recoverable K W t b V0 m"
  using journal.good_reached [OF assms(3) history_turns [OF assms(1,2,4)]] .

section \<open>Operations that end\<close>

definition alive :: "('m, 'a) io \<Rightarrow> bool" where
  "alive f \<longleftrightarrow> (\<forall>m. fst (f m) \<noteq> Crashed)"

named_theorems alive_rules

lemma alive_bind [alive_rules]: "alive f \<Longrightarrow> (\<And>x. alive (g x)) \<Longrightarrow> alive (io_bind f g)"
  unfolding alive_def io_bind_def by (auto split: prod.split outcome.split) (metis fst_conv)+

lemma alive_basic [alive_rules]:
  "alive (io_return x)" "alive (io_fail e)" "alive (io_lift r)" "alive (io_get h)"
  by (auto simp: alive_def io_return_def io_fail_def io_lift_def io_get_def split: sum.splits)

lemma alive_if [alive_rules]: "(b \<Longrightarrow> alive f) \<Longrightarrow> (\<not> b \<Longrightarrow> alive g) \<Longrightarrow> alive (if b then f else g)"
  by simp

lemma alive_option [alive_rules]:
  "alive f \<Longrightarrow> (\<And>x. alive (g x)) \<Longrightarrow> alive (case v of None \<Rightarrow> f | Some x \<Rightarrow> g x)"
  by (cases v) auto

lemma bind_lift: "io_bind (io_lift (Inr x)) g = g x" "io_bind (io_lift (Inl e)) g = io_fail e"
  by (simp_all add: io_bind_def io_lift_def io_fail_def fun_eq_iff)

lemma alive_run_group: "(\<And>i. i \<in> set is \<Longrightarrow> alive (operation i)) \<Longrightarrow> alive (run_group operation is v)"
  by (induction "is" arbitrary: v) (auto intro!: alive_rules)

lemma alive_serve:
  assumes "\<And>i. i < n \<Longrightarrow> alive (operation i)" and "groups_within n gs"
  shows "alive (serve c reason gs operation es v)"
  using assms
proof (induction c reason gs operation es v rule: serve.induct)
  case (4 c reason gs operation line ack es v)
  have g: "set is \<subseteq> {..<n}" if "map_of gs k = Some is" for k "is"
    using map_of_SomeD [OF that] "4.prems"(2) by (auto simp: groups_within_def)
  have "alive (serve_request c reason gs operation line v)"
  proof (cases "map_of gs (request_key line)")
    case (Some "is")
    with g [OF Some] "4.prems"(1) show ?thesis
      by (auto simp: serve_request_def Let_def intro!: alive_run_group alive_rules)
  qed (auto simp: serve_request_def Let_def intro: alive_rules)
  with 4 show ?case by (auto intro!: alive_rules)
qed (auto intro!: alive_rules)

lemma alive_apply_script:
  assumes "\<And>i. i < length ms \<Longrightarrow> alive (operation i)" "alive script" "\<And>e. alive (shell e)"
  shows "alive (unix_apply_script ifs script shell c reason ms operation)"
proof -
  let ?rest = "\<lambda>iv. io_bind script (\<lambda>_.
     io_bind (io_lift (shell_environment c reason iv)) (\<lambda>env.
     io_bind (shell env) (\<lambda>run.
     if \<not> sh_spawned run then io_fail (net_failure ''Cannot launch journaled vpnc lifecycle'')
     else
     io_bind (serve c reason (inv_groups iv) operation (sh_events run)
                (replicate (length ms) False)) (\<lambda>visited.
     if \<not> sh_exited run then io_fail (net_failure ''vpnc lifecycle exceeded deadline'')
     else if \<not> sh_success run then io_fail (net_failure ''vpnc lifecycle failed'')
     else if list_ex (\<lambda>v. \<not> v) visited
     then io_fail (net_failure ''vpnc lifecycle omitted a planned mutation'')
     else io_return ()))))"
  have "alive (execute script shell c reason ms operation)"
  proof (cases "build_inventory c ms")
    case (Inr iv)
    have "alive (?rest iv)"
      by (intro alive_rules assms alive_serve [OF _ build_inventory_within [OF Inr]])
    then show ?thesis
      by (simp add: execute_def Inr bind_lift)
  qed (simp add: execute_def bind_lift alive_rules)
  then show ?thesis
    unfolding unix_apply_script_def by (intro alive_rules)
qed

lemma alive_on_kernel [alive_rules]: "alive f \<Longrightarrow> alive (on_kernel f)"
  by (auto simp: alive_def on_kernel_def split: prod.split) (metis fst_conv)

lemma alive_try_Done: "alive f \<Longrightarrow> \<exists>r m'. io_try f m = (Done r, m')"
  unfolding alive_def io_try_def by (auto split: prod.split outcome.split) (metis fst_conv)

section \<open>A recovery that is let run comes to its end\<close>

text \<open>No operation of the network kills the process; each may fail.\<close>

definition surviving :: "'k native \<Rightarrow> bool" where
  "surviving N \<longleftrightarrow>
     (\<forall>key. alive (unix_read N key)) \<and> (\<forall>key v. alive (unix_write N key v))
     \<and> alive (nt_script N) \<and> (\<forall>env. alive (nt_shell N env))"

lemma vanished_alive: "alive (unix_vanished N key)"
  unfolding unix_vanished_def by (auto intro!: alive_rules split: prod.split)

lemma restore_one_alive: "surviving N \<Longrightarrow> alive (restore_one N j i same_boot)"
  unfolding restore_one_def Let_def surviving_def by (intro alive_rules vanished_alive) auto

text \<open>What the network does leaves the files and the fates alone.\<close>

definition same_files :: "'k machine \<Rightarrow> 'k machine \<Rightarrow> bool" where
  "same_files m m' \<longleftrightarrow> files m' = files m \<and> fates m' = fates m"

lemma same_files_kernel: "keeps (same_files m) (on_kernel f)"
  by (rule keepsI) (simp add: same_files_def on_kernel_def split: prod.splits)

lemma restore_each_alive:
  "(\<And>i. alive (f i)) \<Longrightarrow> \<exists>ws' m'. restore_each f is ws m = (Done ws', m')"
proof (induction "is" arbitrary: ws m)
  case (Cons i "is")
  obtain r m1 where "io_try (f i) m = (Done r, m1)"
    using alive_try_Done [OF Cons.prems] by blast
  with Cons show ?case by (simp add: io_bind_def)
qed (simp add: io_return_def)

lemma keeps_restore_each: "(\<And>i. keeps I (f i)) \<Longrightarrow> keeps I (restore_each f is ws)"
  by (induction "is" arbitrary: ws) (auto intro!: keeps_rules)

lemma probe_calm: "fates m = [] \<Longrightarrow> probe e m = (Done (), m)"
  by (simp add: probe_def effect_def)

lemma lock_answers:
  assumes "euid m = 0" "fates m = []" "case file_at m ''lock'' of None \<Rightarrow> True | Some f \<Rightarrow> openable f"
  shows "\<exists>m'. journal_lock m = (Done (), m') \<and> fates m' = [] \<and> alike K t m m'"
proof -
  have o: "openable \<lparr>f_meta = fresh_meta, f_data = []\<rparr>" by (simp add: openable_def fresh_meta_def)
  show ?thesis
  proof (cases "map_of (files m) ''lock''")
    case None
    with assms o show ?thesis
      by (auto simp: journal_lock_def privileged_def open_create_def effect_def whole_def probe_calm
          io_bind_def io_get_def io_return_def alike_def same_world_def file_at_def)
  next
    case (Some f)
    with assms show ?thesis
      by (auto simp: journal_lock_def privileged_def open_create_def effect_def whole_def probe_calm
          io_bind_def io_get_def io_return_def alike_def same_world_def file_at_def)
  qed
qed

lemma load_answers:
  assumes "recoverable K W t b V0 m" "fates m = []"
  shows "closed_at K W t b V0 m \<and> load K t m = (Done None, m)
     \<or> (\<exists>j ms0. load K t m = (Done (Some j), m) \<and> in_hand t b ms0 j
          \<and> open_at K W t b V0 ms0 {} m)"
proof -
  consider "closed_at K W t b V0 m" | ms0 where "open_at K W t b V0 ms0 {} m"
    using assms(1) by (auto simp: recoverable_def)
  then show ?thesis
  proof cases
    case 1
    then show ?thesis
      using assms(2)
      by (auto simp: load_def probe_calm io_bind_def io_get_def io_return_def closed_at_def file_at_def)
  next
    case (2 ms0)
    then obtain f j where f: "map_of (files m) (journal_file K t) = Some f" "openable f"
      "len (f_data f) \<le> max_journal" "jc_decode K (f_data f) = Some j" "in_hand t b ms0 j"
      by (auto simp: open_at_def on_disk_def file_at_def)
    then have "load K t m = (Done (Some j), m)"
      using assms(2)
      by (simp add: load_def probe_calm io_bind_def io_get_def io_return_def open_existing_def
          io_lift_def in_hand_def)
    with f(5) 2 show ?thesis by blast
  qed
qed

lemma restore_answers:
  assumes "surviving N" "fates m = []"
  shows "\<exists>ws m'. restore K N j m = (Done ws, m') \<and> (ws \<noteq> [] \<longrightarrow> files m' = files m)"
proof -
  let ?site = "\<lambda>i. on_kernel (restore_one N j i (boot_id j = boot m))"
  let ?script = "script_io N (jconfig j) DisconnectReason (mutations j) on_kernel
       (\<lambda>sh env. on_kernel (sh env)) kernel ?site"
  have site: "alive (?site i)" for i
    by (intro alive_on_kernel restore_one_alive assms(1))
  have "alive ?script"
    unfolding script_io_def using assms(1)
    by (intro alive_rules alive_apply_script restore_one_alive) (auto simp: surviving_def)
  then have "\<exists>r m1. io_try ?script m = (Done r, m1)" by (rule alive_try_Done)
  then obtain r m1 where m1: "io_try ?script m = (Done r, m1)" by (elim exE)
  have "keeps (same_files m) (io_try ?script)"
    unfolding script_io_def
    by (intro keeps_try keeps_bind keeps_basic keeps_apply_script same_files_kernel)
  from keepsD [OF this _ m1] have f1: "same_files m m1" by (simp add: same_files_def)
  define first where "first = (if boot_id j = boot m then m1 else m)"
  define ws0 where "ws0 = (if boot_id j = boot m then (case r of Inl e \<Rightarrow> [e] | Inr _ \<Rightarrow> []) else [])"
  have f: "same_files m first" using f1 by (simp add: first_def same_files_def)
  have "\<exists>ws m2. restore_each ?site (rev [0..<length (mutations j)]) ws0 first = (Done ws, m2)"
    by (rule restore_each_alive) (rule site)
  then obtain ws m2 where
    m2: "restore_each ?site (rev [0..<length (mutations j)]) ws0 first = (Done ws, m2)"
    by (elim exE)
  have "keeps (same_files m) (restore_each ?site (rev [0..<length (mutations j)]) ws0)"
    by (intro keeps_restore_each same_files_kernel)
  from keepsD [OF this f m2] have f2: "files m2 = files m" "fates m2 = []"
    using assms(2) by (simp_all add: same_files_def)
  have "restore K N j m = (Done ws, if ws = []
      then m2\<lparr>files := del_file (journal_file K (transaction j)) (files m2)\<rparr> else m2)"
    using m1 m2 f2 assms(2)
    by (auto simp: restore_def Let_def read_boot_id_def probe_calm io_bind_def io_get_def
        io_return_def first_def ws0_def effect_def whole_def sync_directory_def)
  with f2 show ?thesis by auto
qed

end
