(* ===== verification/RecoverySample.thy ===== *)
theory RecoverySample
  imports RecoveryLive "HOL-Library.Countable"
begin

text \<open>
  A concrete environment for the properties of the journal: a lossless codec, an operating system
  that is a store of values, and a connect that dies with the route in place, evaluated step by
  step, with the recovery after it.
\<close>

section \<open>A sample machine\<close>

text \<open>Journals as numbers, and numbers as byte strings of that length: a lossless codec.\<close>

definition prefix_tuple :: "ip_prefix \<Rightarrow> ip_addr \<times> u8" where
  "prefix_tuple p = (address p, prefix p)"

definition tuple_prefix :: "ip_addr \<times> u8 \<Rightarrow> ip_prefix" where
  "tuple_prefix x = (case x of (a, p) \<Rightarrow> \<lparr>address = a, prefix = p\<rparr>)"

definition mutation_tuple where
  "mutation_tuple m =
     (key_kind (mut_key m), key_name (mut_key m), before m, intended m, applied m)"

definition tuple_mutation where
  "tuple_mutation x = (case x of (k, n, b, i, a) \<Rightarrow>
     \<lparr>mut_key = \<lparr>key_kind = k, key_name = n\<rparr>, before = b, intended = i, applied = a\<rparr>)"

definition config_tuple where
  "config_tuple c =
     (if_name (interface c), if_index (interface c), mtu c, map prefix_tuple (addresses c),
      map_option prefix_tuple (ipv4_subnet c), dns_servers c, search_domains c, split_dns c,
      full_tunnel_ipv4 c, full_tunnel_ipv6 c, map prefix_tuple (split_includes c),
      map prefix_tuple (split_excludes c), transport_peer c)"

definition tuple_config where
  "tuple_config x = (case x of (n, i, m, as, sub, dns, sd, spd, f4, f6, inc, exc, peer) \<Rightarrow>
     \<lparr>interface = \<lparr>if_name = n, if_index = i\<rparr>, mtu = m, addresses = map tuple_prefix as,
      ipv4_subnet = map_option tuple_prefix sub, dns_servers = dns, search_domains = sd,
      split_dns = spd, full_tunnel_ipv4 = f4, full_tunnel_ipv6 = f6,
      split_includes = map tuple_prefix inc, split_excludes = map tuple_prefix exc,
      transport_peer = peer\<rparr>)"

definition journal_tuple where
  "journal_tuple j =
     (jversion j, tx_service_instance_id (transaction j), tx_attempt_id (transaction j), boot_id j,
      config_tuple (jconfig j), map mutation_tuple (mutations j), pending_operation j)"

definition tuple_journal where
  "tuple_journal x = (case x of (v, s, a, b, c, ms, p) \<Rightarrow>
     \<lparr>jversion = v, transaction = \<lparr>tx_service_instance_id = s, tx_attempt_id = a\<rparr>, boot_id = b,
      jconfig = tuple_config c, mutations = map tuple_mutation ms, pending_operation = p\<rparr>)"

instance json :: countable by countable_datatype
instance ip_addr :: countable by countable_datatype

lemma tuple_round [simp]:
  "tuple_prefix (prefix_tuple p) = p" "tuple_mutation (mutation_tuple m) = m"
  by (simp_all add: tuple_prefix_def prefix_tuple_def tuple_mutation_def mutation_tuple_def)

lemma tuple_rounds [simp]:
  "tuple_prefix \<circ> prefix_tuple = id" "tuple_mutation \<circ> mutation_tuple = id"
  by (simp_all add: fun_eq_iff)

lemma config_round [simp]: "tuple_config (config_tuple c) = c"
  by (simp add: tuple_config_def config_tuple_def option.map_comp option.map_id0)

lemma journal_round: "tuple_journal (journal_tuple j) = j"
  by (simp add: tuple_journal_def journal_tuple_def)

text \<open>An operating system that is a store of values, one route of which a plan replaces.\<close>

definition sample_key :: key where
  "sample_key = \<lparr>key_kind = ''linux-route'', key_name = ''main|10.0.0.0/8''\<rparr>"

definition sample_plan :: "(key \<Rightarrow> json option) \<Rightarrow> mutation list" where
  "sample_plan k = [\<lparr>mut_key = sample_key, before = k sample_key,
     intended = Some (JString ''tunnel''), applied = None\<rparr>]"

definition sample_line :: string where
  "sample_line = ''route 10.0.0.0/8'' @ [CHR 0x0A]"

text \<open>With \<open>fatal\<close>, the process dies in the middle of installing the route, with the route in place.\<close>

definition store_native :: "bool \<Rightarrow> (key \<Rightarrow> json option) native" where
  "store_native fatal = \<lparr>nt_index = \<lambda>_ _. 7, nt_read = \<lambda>key k. (Done (k key), k),
     nt_write = \<lambda>key v k. (if fatal \<and> v = Some (JString ''tunnel'') then Crashed else Done (), k(key := v)),
     nt_plan = \<lambda>_ k. if k sample_key = None then (Done (sample_plan k), k)
                      else (Fault (net_failure ''taken''), k),
     nt_observe = \<lambda>_. io_fail (net_failure ''unobserved''),
     nt_implicit = \<lambda>_ _ _ _. False, nt_automatic = \<lambda>_ _. False, nt_macos = False,
     nt_script = io_return (),
     nt_shell = \<lambda>_. io_return \<lparr>sh_spawned = True,
                      sh_events = [ShLine sample_line True],
                      sh_exited = True, sh_success = True\<rparr>,
     nt_polls = 500\<rparr>"

lemma store_fields:
  "nt_index (store_native z) = (\<lambda>_ _. 7)" "nt_read (store_native z) = (\<lambda>key k. (Done (k key), k))"
  "nt_write (store_native z) = (\<lambda>key v k. (if z \<and> v = Some (JString ''tunnel'') then Crashed else Done (), k(key := v)))"
  "nt_plan (store_native z) = (\<lambda>_ k. if k sample_key = None then (Done (sample_plan k), k)
                      else (Fault (net_failure ''taken''), k))"
  "nt_observe (store_native z) = (\<lambda>_. io_fail (net_failure ''unobserved''))"
  "\<not> nt_macos (store_native z)" "nt_script (store_native z) = io_return ()"
  "nt_shell (store_native z) = (\<lambda>_. io_return \<lparr>sh_spawned = True,
                      sh_events = [ShLine sample_line True],
                      sh_exited = True, sh_success = True\<rparr>)"
  by (simp_all add: store_native_def)

definition sample_tx :: transaction_id where
  "sample_tx = \<lparr>tx_service_instance_id = 1, tx_attempt_id = 1\<rparr>"

definition sample_net :: network_config where
  "sample_net = \<lparr>interface = \<lparr>if_name = ''tun0'', if_index = 7\<rparr>, mtu = 1400,
      addresses = [\<lparr>address = V4 0x0A000001, prefix = 32\<rparr>], ipv4_subnet = None,
      dns_servers = [], search_domains = [], split_dns = [],
      full_tunnel_ipv4 = False, full_tunnel_ipv6 = False,
      split_includes = [\<lparr>address = V4 0x0A000000, prefix = 8\<rparr>], split_excludes = [],
      transport_peer = V4 0xC0000201\<rparr>"

lemma sample_net_valid: "network_config_validate sample_net = Inr ()"
  by code_simp

definition planned_journal :: journal where
  "planned_journal = new_journal sample_tx ''boot'' sample_net (sample_plan (\<lambda>_. None))"

definition pending_journal :: journal where
  "pending_journal = planned_journal\<lparr>pending_operation := Some 0\<rparr>"

definition sample_codec :: journal_codec where
  "sample_codec = \<lparr>jc_encode = \<lambda>j. if j = planned_journal then [1]
                     else if j = pending_journal then [2]
                     else 0 # replicate (to_nat (journal_tuple j)) 0,
     jc_decode = \<lambda>bytes. if bytes = [1] then Some planned_journal
                     else if bytes = [2] then Some pending_journal
                     else Some (tuple_journal (from_nat (length bytes - 1))),
     jc_uuid = \<lambda>u. ''00000000-0000-0000-0000-00000000000'' @ [if u = 0 then CHR ''0'' else CHR ''1''],
     jc_parse = \<lambda>s. if last s = CHR ''0'' then Some 0 else Some 1\<rparr>"

lemma sample_lossless: "lossless sample_codec"
  by (simp add: lossless_def sample_codec_def journal_round)

definition plain_keys :: "key set" where
  "plain_keys = {key. CHR ''@'' \<notin> set (key_kind key)}"

lemma plain_native_key: "key \<in> plain_keys \<Longrightarrow> native_key ifs key = Inr (key, False)"
  by (simp add: plain_keys_def native_key_def split_once_None [THEN iffD2])

lemma store_sites:
  assumes "key \<in> plain_keys"
  shows "unix_vanished (store_native z) key k = (Done False, k)"
    and "unix_read (store_native z) key k = (Done (k key), k)"
    and "unix_write (store_native z) key v k
           = (if z \<and> v = Some (JString ''tunnel'') then Crashed else Done (), k(key := v))"
  using plain_native_key [OF assms]
  by (simp_all add: unix_vanished_def unix_read_def unix_write_def io_bind_def io_get_def
      io_lift_def io_return_def store_fields)

definition store_ledger :: "(key \<Rightarrow> json option) ledger" where
  "store_ledger =
     \<lparr>lg_view = \<lambda>k. k, lg_reach = \<lambda>key. {key}, lg_keys = plain_keys, lg_configs = UNIV\<rparr>"

lemma ledger_fields [simp]:
  "lg_view store_ledger = (\<lambda>k. k)" "lg_reach store_ledger = (\<lambda>key. {key})"
  "lg_keys store_ledger = plain_keys" "lg_configs store_ledger = UNIV"
  by (simp_all add: store_ledger_def)

lemma store_key: "key \<in> plain_keys \<Longrightarrow> honest_key (store_native z) store_ledger key"
  by (simp add: honest_key_def store_sites quiet_def changes_def)

lemma store_accounted: "accounted (store_native z) store_ledger"
  unfolding accounted_def
proof (intro conjI)
  show "quiet store_ledger (nt_script (store_native z))"
    "\<forall>env. quiet store_ledger (nt_shell (store_native z) env)"
    "\<forall>c. quiet store_ledger (nt_observe (store_native z) c)"
    by (simp_all add: quiet_def store_fields io_return_def io_fail_def)
  have p: "sample_key \<in> plain_keys" by (simp add: sample_key_def plain_keys_def)
  show "\<forall>c\<in>lg_configs store_ledger. quiet store_ledger (nt_plan (store_native z) c)
      \<and> (\<forall>k ms. fst (nt_plan (store_native z) c k) = Done ms \<longrightarrow> accurate_plan store_ledger k ms)"
    using p by (auto simp: quiet_def store_fields accurate_plan_def sample_plan_def storable_def
        split: if_splits)
qed (use store_key store_fields in auto)

lemma store_dependable: "dependable (store_native z) store_ledger V0"
  using store_accounted
  by (auto simp: dependable_def ordered_undo_def store_sites settled_def split: if_splits)

lemma store_surviving: "surviving (store_native False)"
proof -
  have "alive (unix_read (store_native False) key)" "alive (unix_write (store_native False) key v)" for key v
    unfolding unix_read_def unix_write_def store_fields
    by (auto intro!: alive_rules split: prod.split) (simp_all add: alive_def)
  then show ?thesis
    by (simp add: surviving_def store_fields alive_rules)
qed

definition sample_machine :: "(key \<Rightarrow> json option) machine" where
  "sample_machine = \<lparr>kernel = \<lambda>_. None, files = [], fates = [], boot = ''boot'', euid = 0\<rparr>"

lemma sample_closed: "closed_at sample_codec store_ledger sample_tx ''boot'' (\<lambda>_. None) sample_machine"
  by (simp add: closed_at_def sample_machine_def file_at_def original_def settled_def)

definition sample_input :: lifecycle_input where
  "sample_input = \<lparr>li_reason = Connect, li_config = Some sample_net\<rparr>"

text \<open>A connect that dies while it records that the route is in place.\<close>

lemma sample_names:
  "journal_file sample_codec sample_tx
     = ''00000000-0000-0000-0000-000000000001-00000000-0000-0000-0000-000000000001.json''"
  "pending_file sample_codec sample_tx
     = ''00000000-0000-0000-0000-000000000001-00000000-0000-0000-0000-000000000001.pending''"
  by (simp_all add: journal_file_def pending_file_def stem_def sample_codec_def sample_tx_def)

definition journal_of :: "journal \<Rightarrow> jfile" where
  "journal_of j = \<lparr>f_meta = fresh_meta, f_data = jc_encode sample_codec j\<rparr>"

lemma openable_fresh: "f_meta f = fresh_meta \<Longrightarrow> openable f"
  by (simp add: openable_def fresh_meta_def)

lemma effect_calm: "fates m = [] \<Longrightarrow> effect e f m = (Done (), f None m)"
  by (simp add: effect_def)

lemma names_distinct: "journal_file K t \<noteq> ''lock''" "pending_file K t \<noteq> ''lock''"
  by simp_all

lemma codes: "jc_encode sample_codec planned_journal = [1]" "jc_encode sample_codec pending_journal = [2]"
  "jc_decode sample_codec [1] = Some planned_journal" "jc_decode sample_codec [2] = Some pending_journal"
  by (simp_all add: sample_codec_def pending_journal_def planned_journal_def new_journal_def)

lemmas calm = effect_calm whole_def probe_calm io_bind_def io_get_def io_return_def io_fail_def io_lift_def

definition lock_file :: "string \<times> jfile" where
  "lock_file = (''lock'', \<lparr>f_meta = fresh_meta, f_data = []\<rparr>)"

lemma calm_lock:
  assumes "fates m = []" "files m = [] \<or> (\<exists>fs. files m = lock_file # fs)" "euid m = 0"
  shows "journal_lock m = (Done (), if files m = [] then m\<lparr>files := [lock_file]\<rparr> else m)"
  using assms
  by (auto simp: journal_lock_def privileged_def open_create_def calm lock_file_def openable_fresh)

lemma calm_save_new:
  assumes "fates m = []" "files m = [lock_file]" "transaction j = sample_tx"
    "len (jc_encode sample_codec j) \<le> max_journal"
  shows "save sample_codec j m = (Done (), m\<lparr>files := [lock_file, (journal_file sample_codec sample_tx, journal_of j)]\<rparr>)"
  using assms
  by (simp add: save_def Let_def open_create_def calm lock_file_def openable_fresh write_file_def
      rename_file_def del_file_def sync_directory_def journal_of_def)

lemma calm_save_over:
  assumes "fates m = []" "files m = [lock_file, (journal_file sample_codec sample_tx, f)]"
    "transaction j = sample_tx" "len (jc_encode sample_codec j) \<le> max_journal"
  shows "save sample_codec j m = (Done (), m\<lparr>files := [lock_file, (journal_file sample_codec sample_tx, journal_of j)]\<rparr>)"
  using assms
  by (simp add: save_def Let_def open_create_def calm lock_file_def openable_fresh write_file_def
      rename_file_def del_file_def sync_directory_def journal_of_def)

definition crashed_machine :: "(key \<Rightarrow> json option) machine" where
  "crashed_machine = \<lparr>kernel = (\<lambda>_. None)(sample_key \<mapsto> JString ''tunnel''),
     files = [lock_file, (journal_file sample_codec sample_tx, journal_of pending_journal)],
     fates = [], boot = ''boot'', euid = 0\<rparr>"

definition sample_inventory :: inventory where
  "sample_inventory = \<lparr>inv_groups = [(''route 10.0.0.0/8'', [0])], inv_excludes = [''10.0.0.0/8''],
     inv_includes = [], inv_resolver = ''none''\<rparr>"

lemma sample_peer: "peer_prefix sample_net = ''192.0.2.1/32''"
  by code_simp

lemma sample_inventory: "build_inventory sample_net (sample_plan k) = Inr sample_inventory"
  by (simp add: build_inventory_def sample_plan_def sample_key_def classify_def interface_key_def
      automatic_route_def first_interface_def starts_with_def last_piece_def sample_peer
      sample_inventory_def push_group_def Let_def)

lemma sample_environment: "\<exists>env. shell_environment sample_net Connect sample_inventory = Inr env"
  "\<exists>env. shell_environment sample_net DisconnectReason sample_inventory = Inr env"
  by (simp_all add: shell_environment_def sample_inventory_def reason_word_def split_variables_def
      route_variables_def Let_def)

lemma sample_request: "request_key sample_line = ''route 10.0.0.0/8''"
  by code_simp

lemma sample_serve:
  "serve sample_net reason [(''route 10.0.0.0/8'', [0])] operation
     [ShLine sample_line True] [False]
   = io_bind (operation 0) (\<lambda>_. io_return [True])"
  using sample_request
  by (simp add: serve_request_def Let_def starts_with_def fun_eq_iff sample_line_def io_bind_def io_return_def
      split: outcome.splits prod.splits)

lemma key_plain: "sample_key \<in> plain_keys"
  by (simp add: sample_key_def plain_keys_def)

lemma sample_same_interface: "same_interface (\<lambda>_. 7) sample_net = Inr ()"
  by code_simp

lemma sample_safe: "safe_name (if_name (interface sample_net)) = Inr ()"
  by code_simp

lemma calm_plan:
  assumes "k sample_key = None"
  shows "unix_plan (store_native z) sample_net k = (Done (sample_plan k), k)"
  using assms
  by (simp add: unix_plan_def calm store_fields sample_net_valid sample_safe sample_same_interface)
     (simp add: sample_net_def io_lift_def sample_plan_def)

lemma sample_apply:
  assumes "k sample_key = None"
  shows "unix_apply_one (store_native True) c (sample_plan k ! 0) k = (Crashed, k(sample_key \<mapsto> JString ''tunnel''))"
  using assms
  by (simp add: unix_apply_one_def calm store_sites [OF key_plain] sample_plan_def
      unix_equivalent_def store_fields)

lemma start_fields:
  "kernel sample_machine = (\<lambda>_. None)" "files sample_machine = []" "fates sample_machine = []"
  "boot sample_machine = ''boot''" "euid sample_machine = 0"
  by (simp_all add: sample_machine_def)

lemma bind_return: "io_bind (io_return x) g = g x"
  by (simp add: io_bind_def io_return_def fun_eq_iff)

lemma beside_return: "beside (on_kernel (io_return x)) = io_return x"
  by (simp add: beside_def on_kernel_def io_return_def fun_eq_iff)

lemma kernel_return: "on_kernel (io_return x) = io_return x"
  by (simp add: on_kernel_def io_return_def fun_eq_iff)

lemma bind_get: "io_bind (io_get h) g m = g (h m) m"
  by (simp add: io_bind_def io_get_def)

lemma bind_crash: "f m = (Crashed, m') \<Longrightarrow> io_bind f g m = (Crashed, m')"
  by (simp add: io_bind_def)

lemma bind_assoc: "io_bind (io_bind f g) h = io_bind f (\<lambda>x. io_bind (g x) h)"
  by (auto simp: io_bind_def fun_eq_iff split: prod.splits outcome.splits)

lemma sample_crash:
  "fst (lifecycle sample_codec (store_native True) sample_tx sample_input sample_machine) = Crashed"
  "snd (lifecycle sample_codec (store_native True) sample_tx sample_input sample_machine) = crashed_machine"
proof -
  let ?N = "store_native True"
  let ?k = "\<lambda>_ :: key. None :: json option"
  let ?m = "\<lambda>fs. \<lparr>kernel = ?k, files = fs, fates = [], boot = ''boot'', euid = 0\<rparr>"
  let ?J = "journal_file sample_codec sample_tx"
  have len: "len (jc_encode sample_codec planned_journal) \<le> max_journal"
    "len (jc_encode sample_codec pending_journal) \<le> max_journal"
    by (simp_all add: codes max_journal_def)
  have tx: "transaction planned_journal = sample_tx" "transaction pending_journal = sample_tx"
    by (simp_all add: planned_journal_def pending_journal_def new_journal_def)
  have lock: "journal_lock sample_machine = (Done (), ?m [lock_file])"
    using calm_lock [of sample_machine] by (simp add: sample_machine_def)
  have load: "load sample_codec sample_tx (?m [lock_file]) = (Done None, ?m [lock_file])"
    by (simp add: load_def calm lock_file_def)
  have save: "save sample_codec planned_journal (?m [lock_file])
      = (Done (), ?m [lock_file, (?J, journal_of planned_journal)])"
    by (subst calm_save_new) (simp_all add: tx len)
  obtain env where env: "shell_environment sample_net Connect sample_inventory = Inr env"
    using sample_environment(1) by blast
  have muts: "mutations planned_journal = sample_plan ?k" "jconfig planned_journal = sample_net"
    by (simp_all add: planned_journal_def new_journal_def)
  have site: "apply_site sample_codec ?N sample_net (sample_plan ?k) 0
      (?m [lock_file, (?J, journal_of planned_journal)], planned_journal)
      = (Crashed, (crashed_machine, pending_journal))"
  proof -
    have "save sample_codec pending_journal (?m [lock_file, (?J, journal_of planned_journal)])
      = (Done (), ?m [lock_file, (?J, journal_of pending_journal)])"
      by (subst calm_save_over) (simp_all add: tx len)
    then show ?thesis
      by (simp add: apply_site_def edit_def save_current_def beside_def io_bind_def
          pending_journal_def [symmetric] on_kernel_def sample_apply crashed_machine_def)
  qed
  have applying: "apply_and_verify sample_codec ?N Connect planned_journal
      (?m [lock_file, (?J, journal_of planned_journal)], planned_journal)
      = (Crashed, (crashed_machine, pending_journal))"
  proof -
    let ?s = "(?m [lock_file, (?J, journal_of planned_journal)], planned_journal)"
    have "beside (io_each (preflight ?N) (sample_plan ?k)) ?s = (Done (), ?s)"
      by (simp add: sample_plan_def preflight_def calm on_kernel_def store_sites [OF key_plain]
          beside_def)
    moreover have "script_io ?N sample_net Connect (sample_plan ?k) (\<lambda>f. beside (on_kernel f))
       (\<lambda>sh env. beside (on_kernel (sh env))) (\<lambda>s. kernel (fst s))
       (apply_site sample_codec ?N sample_net (sample_plan ?k)) ?s
        = (Crashed, (crashed_machine, pending_journal))"
      using bind_crash [of "apply_site sample_codec ?N sample_net (sample_plan ?k) 0", OF site]
      by (simp add: script_io_def unix_apply_script_def execute_def bind_get bind_lift bind_return
          beside_return store_fields sample_net_valid sample_same_interface sample_inventory env
          sample_serve del: serve.simps)
         (simp add: sample_inventory_def sample_plan_def sample_serve bind_assoc del: serve.simps)
    ultimately show ?thesis
      by (simp add: apply_and_verify_def muts bind_to bind_crash)
  qed
  have scan: "\<not> json_extension ''lock''" by code_simp
  have commit: "commit sample_codec ?N Connect planned_journal
      (?m [lock_file, (?J, journal_of planned_journal)]) = (Crashed, crashed_machine)"
    by (simp add: commit_def in_workspace_def io_bind_def io_try_def applying)
  have size: "\<not> len (sample_plan ?k) > max_mutations"
    by (simp add: sample_plan_def max_mutations_def)
  have begins: "begin_transaction sample_codec ?N sample_tx Connect (Some sample_net) (?m [lock_file])
      = (Crashed, crashed_machine)"
    unfolding begin_transaction_def
    by (simp add: calm lock_file_def scan on_kernel_def calm_plan size read_boot_id_def
        save [unfolded lock_file_def] planned_journal_def [symmetric] commit [unfolded lock_file_def])
  have "lifecycle sample_codec ?N sample_tx sample_input sample_machine = (Crashed, crashed_machine)"
    unfolding lifecycle_def
    by (simp add: privileged_def calm start_fields lock load sample_input_def begins)
  then show "fst (lifecycle sample_codec ?N sample_tx sample_input sample_machine) = Crashed"
    "snd (lifecycle sample_codec ?N sample_tx sample_input sample_machine) = crashed_machine"
    by simp_all
qed

text \<open>The recovery of the crashed machine.\<close>

definition repaired_machine :: "(key \<Rightarrow> json option) machine" where
  "repaired_machine = \<lparr>kernel = \<lambda>_. None, files = [lock_file], fates = [], boot = ''boot'', euid = 0\<rparr>"

lemma sample_repair:
  "recover sample_codec (store_native z) sample_tx crashed_machine = (Done [], repaired_machine)"
proof -
  let ?N = "store_native z"
  let ?J = "journal_file sample_codec sample_tx"
  let ?k = "\<lambda>_ :: key. None :: json option"
  let ?m = "\<lambda>k. \<lparr>kernel = k, files = [lock_file, (?J, journal_of pending_journal)], fates = [], boot = ''boot'', euid = 0\<rparr>"
  have pj: "mutations pending_journal = sample_plan ?k" "jconfig pending_journal = sample_net"
    "transaction pending_journal = sample_tx" "boot_id pending_journal = ''boot''"
    "pending_operation pending_journal = Some 0"
    by (simp_all add: pending_journal_def planned_journal_def new_journal_def)
  have lock: "journal_lock crashed_machine = (Done (), crashed_machine)"
    using calm_lock [of crashed_machine] by (simp add: crashed_machine_def)
  have wf: "well_formed_journal sample_tx pending_journal"
    by (simp add: well_formed_journal_def pj max_mutations_def sample_plan_def)
       (simp add: pending_journal_def planned_journal_def new_journal_def)
  have load: "load sample_codec sample_tx crashed_machine = (Done (Some pending_journal), crashed_machine)"
    by (simp add: load_def calm open_existing_def crashed_machine_def lock_file_def journal_of_def
        openable_fresh codes max_journal_def wf pj sample_net_valid)
  have one: "restore_one ?N pending_journal 0 True ((\<lambda>_. None)(sample_key \<mapsto> JString ''tunnel''))
      = (Done (), ?k)"
    by (simp add: restore_one_def Let_def pj sample_plan_def store_sites [OF key_plain] calm
        restore_verdict_def unix_equivalent_def store_fields owned_value_def fun_eq_iff)
  have two: "restore_one ?N pending_journal 0 True ?k = (Done (), ?k)"
    by (simp add: restore_one_def Let_def pj sample_plan_def store_sites [OF key_plain] calm
        restore_verdict_def unix_equivalent_def store_fields)
  obtain env where env: "shell_environment sample_net DisconnectReason sample_inventory = Inr env"
    using sample_environment(2) by blast
  have site: "on_kernel (restore_one ?N pending_journal 0 True) crashed_machine = (Done (), ?m ?k)"
    by (simp add: on_kernel_def crashed_machine_def one)
  have script: "script_io ?N sample_net DisconnectReason (sample_plan ?k) on_kernel
       (\<lambda>sh env. on_kernel (sh env)) kernel (\<lambda>i. on_kernel (restore_one ?N pending_journal i True))
       crashed_machine = (Done (), ?m ?k)"
    by (simp add: script_io_def unix_apply_script_def execute_def bind_get bind_lift bind_return
          kernel_return store_fields sample_net_valid sample_inventory env del: serve.simps)
       (simp add: sample_inventory_def sample_plan_def sample_serve bind_assoc bind_to [of "on_kernel (restore_one ?N pending_journal 0 True)", OF site]
          bind_return io_return_def del: serve.simps)
  have boot: "read_boot_id crashed_machine = (Done ''boot'', crashed_machine)"
    by (simp add: read_boot_id_def calm crashed_machine_def)
  have again: "restore_each (\<lambda>i. on_kernel (restore_one ?N pending_journal i True))
      (rev [0..<length (sample_plan ?k)]) [] (?m ?k) = (Done [], ?m ?k)"
    by (simp add: sample_plan_def on_kernel_def two io_bind_def io_try_def io_return_def)
  have "restore sample_codec ?N pending_journal crashed_machine = (Done [], repaired_machine)"
    unfolding restore_def Let_def pj
    by (simp add: bind_to [of read_boot_id, OF boot] io_bind_def [of "io_try _"] io_try_def script bind_assoc
        bind_return io_bind_def [of "restore_each _ _ _"] again)
       (simp add: calm sync_directory_def repaired_machine_def del_file_def lock_file_def)
  then show ?thesis
    by (simp add: recover_def privileged_def calm lock load) (simp add: crashed_machine_def)
qed

end
