(* ===== verification/RecoveryProps.thy ===== *)
theory RecoveryProps
  imports RecoverySample
begin

text \<open>
  The properties of the lockstep with the installed script and of the journal, each applied to
  the sample environment.
\<close>

section \<open>The lockstep\<close>

text \<open>C@: whatever the installed script prints and however it ends, the operations that ran are
  pairwise different planned mutations, run one after the other from the state the script was
  started in, and the lifecycle succeeds only when every planned mutation ran; a fault or a crash
  of an operation is the end of the lifecycle.\<close>

theorem lifecycle_runs_each_once:
  assumes "execute script shell c reason ms operation m = (r, m')"
    and "build_inventory c ms = Inr iv" and "script m = (Done (), m0)"
    and "shell_environment c reason iv = Inr env" and "shell env m0 = (Done run, m1)"
  shows "\<exists>os q. distinct os \<and> set os \<subseteq> {..<length ms} \<and> io_each operation os m1 = (q, m')
           \<and> follows q r \<and> (r = Done () \<longrightarrow> q = Done () \<and> set os = {..<length ms})"
proof (cases "sh_spawned run")
  case False
  with assms show ?thesis
    by (intro exI [of _ "[]"]) (auto simp: execute_def io_bind_def io_lift_def io_fail_def
        io_return_def follows_def)
next
  case True
  let ?v = "replicate (length ms) False"
  obtain q m2 where s: "serve c reason (inv_groups iv) operation (sh_events run) ?v m1 = (q, m2)"
    by (cases "serve c reason (inv_groups iv) operation (sh_events run) ?v m1")
  from serve_ran [OF s] build_inventory_within [OF assms(2)]
  obtain os where os: "ran operation ?v os m1 q m2" by auto
  have m': "m' = m2"
    and r: "q = Crashed \<Longrightarrow> r = Crashed" "\<And>e. q = Fault e \<Longrightarrow> r = Fault e"
      "\<And>v. q = Done v \<Longrightarrow> r \<noteq> Crashed \<and> (r = Done () \<longrightarrow> list_all (\<lambda>x. x) v)"
    using assms True s
    by (auto simp: execute_def io_bind_def io_lift_def io_fail_def io_return_def list_ex_iff
        list_all_iff split: outcome.splits if_splits)
  from os obtain p where p: "io_each operation os m1 = (p, m2)" "follows p q"
    "\<And>v'. q = Done v' \<Longrightarrow> p = Done () \<and> marks ?v os v'"
    by (auto simp: ran_def)
  have "distinct os" "set os \<subseteq> {..<length ms}"
    using os by (auto simp: ran_def)
  moreover have "follows p r"
    using p(2) r by (cases p; cases q) (auto simp: follows_def)
  moreover have "p = Done () \<and> set os = {..<length ms}" if d: "r = Done ()"
  proof -
    obtain v where v: "q = Done v" using r d by (cases q) auto
    with p(3) have "p = Done ()" "marks ?v os v" by auto
    moreover have "list_all (\<lambda>x. x) v" using r(3) [OF v] d by simp
    ultimately have "{..<length ms} \<subseteq> set os"
      by (auto simp: marks_def list_all_length)
    with \<open>p = Done ()\<close> \<open>set os \<subseteq> {..<length ms}\<close> show ?thesis by auto
  qed
  ultimately show ?thesis using p(1) m' by blast
qed

theorem lifecycle_runs_each_once_witness:
  "\<exists>(os :: nat list) q. distinct os \<and> set os \<subseteq> {..<1} \<and> io_each (\<lambda>i m. (Done (), m @ [i])) os [] = (q, [0])
     \<and> follows q (Done ()) \<and> q = Done () \<and> set os = {..<1}"
proof -
  let ?run = "\<lparr>sh_spawned = True, sh_events = [ShLine sample_line True], sh_exited = True,
      sh_success = True\<rparr>"
  obtain env where env: "shell_environment sample_net Connect sample_inventory = Inr env"
    using sample_environment(1) by blast
  have "execute (io_return ()) (\<lambda>_. io_return ?run) sample_net Connect (sample_plan (\<lambda>_. None))
      (\<lambda>i m. (Done (), m @ [i])) [] = (Done (), [0])"
    by (simp add: execute_def sample_inventory env bind_lift bind_return del: serve.simps)
       (simp add: sample_inventory_def sample_plan_def sample_serve bind_assoc bind_return
          io_bind_def [of "\<lambda>m. (Done (), m @ [0])"] io_return_def del: serve.simps)
  from lifecycle_runs_each_once [OF this sample_inventory _ env, of "[]" ?run "[]"]
  show ?thesis by (simp add: io_return_def sample_plan_def)
qed

section \<open>The journal\<close>


lemma sample_history:
  "history sample_codec store_ledger (range store_native) sample_tx sample_machine crashed_machine"
proof -
  have "sample_machine = sample_machine\<lparr>fates := []\<rparr>" by (simp add: sample_machine_def)
  then have "lifecycle sample_codec (store_native True) sample_tx sample_input
      (sample_machine\<lparr>fates := []\<rparr>) = (Crashed, crashed_machine)"
    using sample_crash by (metis prod.collapse)
  then show ?thesis by (rule history.cycle [OF history.start, rotated 2]) simp_all
qed






text \<open>What a restore of one key does, by the value it finds.\<close>

definition owned_change ::
  "'k ledger \<Rightarrow> mutation \<Rightarrow> bool \<Rightarrow> 'k \<Rightarrow> 'k \<Rightarrow> bool" where
  "owned_change W mu same_boot k k' \<longleftrightarrow>
     (\<exists>k1. changes W {} k k1 \<and> lg_view W k1 (mut_key mu) = owned_value mu
        \<and> (same_boot \<or> persistent_owned mu) \<and> changes W (lg_reach W (mut_key mu)) k1 k')"

lemma owned_change_quiet:
  assumes "changes W {} k k1 \<or> owned_change W mu same_boot k k1" "changes W {} k1 k2"
  shows "changes W {} k k2 \<or> owned_change W mu same_boot k k2"
  using assms(1)
proof
  assume "changes W {} k k1"
  from changes_trans [OF this assms(2)] show ?thesis ..
next
  assume "owned_change W mu same_boot k k1"
  then obtain k0 where k0: "changes W {} k k0" "lg_view W k0 (mut_key mu) = owned_value mu"
    "same_boot \<or> persistent_owned mu" "changes W (lg_reach W (mut_key mu)) k0 k1"
    by (auto simp: owned_change_def)
  have reach: "changes W (lg_reach W (mut_key mu)) k0 k2"
    by (rule changes_trans [OF k0(4) changes_mono [OF assms(2)]]) simp
  have "owned_change W mu same_boot k k2"
    unfolding owned_change_def by (rule exI [of _ k0]) (use k0 reach in simp)
  then show ?thesis ..
qed

lemma foreign_state_preserved_aux:
  assumes "accounted N W" "mut_key (mutations j ! i) \<in> lg_keys W"
    and "restore_one N j i same_boot k = (r, k')"
  shows "changes W {} k k' \<or> owned_change W (mutations j ! i) same_boot k k'"
proof -
  let ?m = "mutations j ! i"
  let ?key = "mut_key ?m"
  let ?P = "changes W {} k"
  let ?O = "\<lambda>k1. ?P k1 \<and> lg_view W k1 ?key = owned_value ?m \<and> (same_boot \<or> persistent_owned ?m)"
  let ?C = "\<lambda>k'. ?P k' \<or> owned_change W ?m same_boot k k'"
  have van: "runs ?P (unix_vanished N ?key) ?C (\<lambda>_. ?P)"
    by (rule runsI) (auto dest: vanished_same)
  have rd: "runs ?P (unix_read N ?key) ?C (\<lambda>v k1. ?P k1 \<and> v = lg_view W k1 ?key)"
    by (rule runs_weaken [OF read_runs [where P = ?P, OF assms(1,2)]]) (auto intro: changes_trans)
  have keep: "runs ?C (unix_read N ?key) ?C (\<lambda>_. ?C)"
    by (rule runs_weaken [OF read_runs [where P = ?C, OF assms(1,2) owned_change_quiet]]) simp_all
  have wr: "runs ?O (unix_write N ?key (before ?m)) ?C (\<lambda>_. ?C)"
  proof (rule runsI)
    fix k1 r k2
    assume o: "?O k1" and w: "unix_write N ?key (before ?m) k1 = (r, k2)"
    have "owned_change W ?m same_boot k k2"
      unfolding owned_change_def using o accounted_write [OF assms(1,2) w] by (intro exI [of _ k1]) simp
    then show "?C k2 \<and> (\<forall>x. r = Done x \<longrightarrow> ?C k2)" by simp
  qed
  have verdict: "runs (\<lambda>k1. ?P k1 \<and> v = lg_view W k1 ?key)
      (io_lift (restore_verdict N j i same_boot v)) ?C (\<lambda>b k1. ?P k1 \<and> (b \<longrightarrow> ?O k1))" for v
    by (rule runs_lift)
       (auto simp: restore_verdict_def Let_def equivalent_eq [OF assms(1)] split: if_splits)
  have check: "runs ?C (if \<not> unix_equivalent N ?key now (before ?m) then io_fail journal_error
         else io_return ()) ?C (\<lambda>_. ?C)" for now
    by (rule runs_if, rule runs_fail, assumption, rule runs_return, simp)
  have act: "runs (\<lambda>k1. ?P k1 \<and> (overwrite \<longrightarrow> ?O k1))
      (if \<not> overwrite then io_return ()
       else io_bind (unix_write N ?key (before ?m)) (\<lambda>_. io_bind (unix_read N ?key) (\<lambda>now.
         if \<not> unix_equivalent N ?key now (before ?m) then io_fail journal_error
         else io_return ()))) ?C (\<lambda>_. ?C)" for overwrite
    by (rule runs_if, rule runs_return, simp,
        rule runs_weaken [OF runs_bind [OF wr runs_bind [OF keep check]]]) simp_all
  have "runs ?P (restore_one N j i same_boot) ?C (\<lambda>_. ?C)"
    unfolding restore_one_def Let_def
    by (rule runs_bind [OF van], rule runs_if, rule runs_return, simp,
        rule runs_bind [OF rd runs_bind [OF verdict act]])
  from runsD(1) [OF this _ assms(3)] show ?thesis by simp
qed



text \<open>C@: after another boot of the system a restore changes nothing: every recorded difference
  is reported, and the network it finds stays as it is.\<close>

theorem other_boot_preserved:
  assumes "accounted N W" "\<forall>mu\<in>set (mutations j). mut_key mu \<in> lg_keys W \<and> key_kind (mut_key mu) \<noteq> ''win-nrpt''"
    and "boot_id j \<noteq> boot m" "restore K N j m = (r, m')"
  shows "changes W {} (kernel m) (kernel m')"
proof -
  let ?I = "\<lambda>n. changes W {} (kernel m) (kernel n)"
  let ?J = "\<lambda>n. ?I n \<and> boot n = boot m"
  have site: "keeps ?I (on_kernel (restore_one N j i False))" if "i < length (mutations j)" for i
  proof (rule keepsI)
    fix n :: "'a machine"
    assume n: "?I n"
    obtain q k where k: "restore_one N j i False (kernel n) = (q, k)"
      by (cases "restore_one N j i False (kernel n)")
    have key: "mut_key (mutations j ! i) \<in> lg_keys W" "\<not> persistent_owned (mutations j ! i)"
      using assms(2) that by (auto simp: persistent_owned_def)
    from foreign_state_preserved_aux [OF assms(1) key(1) k] key(2) n
    show "?I (snd (on_kernel (restore_one N j i False) n))"
      by (auto simp: on_kernel_def k owned_change_def intro: changes_trans)
  qed
  have each: "keeps ?I (restore_each (\<lambda>i. on_kernel (restore_one N j i False)) is ws)"
    if "set is \<subseteq> {..<length (mutations j)}" for "is" ws
    using that
  proof (induction "is" arbitrary: ws)
    case (Cons i "is")
    then show ?case by (auto intro!: keeps_rules site)
  qed (auto intro: keeps_rules)
  have boot: "runs ?J read_boot_id ?I (\<lambda>b n. ?I n \<and> b = boot m)"
    unfolding read_boot_id_def
    by (rule runs_bind [where R = "\<lambda>_. ?J"], rule runs_probe, simp, simp, rule runs_get) auto
  have tail: "runs (\<lambda>n. ?I n \<and> b = boot m)
     (io_bind (if boot_id j = b
              then io_bind (io_try (script_io N (jconfig j) DisconnectReason (mutations j)
                       on_kernel (\<lambda>sh env. on_kernel (sh env)) kernel
                       (\<lambda>i. on_kernel (restore_one N j i (boot_id j = b)))))
                     (\<lambda>r. io_return (case r of Inl e \<Rightarrow> [e] | Inr _ \<Rightarrow> []))
              else io_return []) (\<lambda>warnings.
     io_bind (restore_each (\<lambda>i. on_kernel (restore_one N j i (boot_id j = b)))
        (rev [0..<length (mutations j)]) warnings) (\<lambda>warnings.
     io_bind (if warnings = []
              then io_bind (effect journal_error (whole (\<lambda>m.
                       m\<lparr>files := del_file (journal_file K (transaction j)) (files m)\<rparr>)))
                     (\<lambda>_. sync_directory)
              else io_return ()) (\<lambda>_.
     io_return warnings)))) ?I (\<lambda>_. ?I)" for b
  proof (rule runs_pre [of _ "boot_id j \<noteq> b"])
    assume b: "boot_id j \<noteq> b"
    have del: "keeps ?I (effect journal_error (whole (\<lambda>m.
        m\<lparr>files := del_file (journal_file K (transaction j)) (files m)\<rparr>)))"
      by (rule keeps_runs, rule runs_effect) (auto simp: whole_def)
    have "keeps ?I (io_bind (io_return []) (\<lambda>warnings.
     io_bind (restore_each (\<lambda>i. on_kernel (restore_one N j i False))
        (rev [0..<length (mutations j)]) warnings) (\<lambda>warnings.
     io_bind (if warnings = []
              then io_bind (effect journal_error (whole (\<lambda>m.
                       m\<lparr>files := del_file (journal_file K (transaction j)) (files m)\<rparr>)))
                     (\<lambda>_. sync_directory)
              else io_return ()) (\<lambda>_.
     io_return warnings))))"
      unfolding sync_directory_def by (intro keeps_rules each del keeps_probe) auto
    with b show ?thesis by (simp add: keeps_def runs_weaken)
  qed (use assms(3) in simp)
  have "runs ?J (restore K N j) ?I (\<lambda>_. ?I)"
    unfolding restore_def Let_def by (rule runs_bind [OF boot tail])
  from runsD(1) [OF this _ assms(4)] show ?thesis by simp
qed

theorem other_boot_preserved_witness:
  "changes store_ledger {} (kernel crashed_machine) (kernel (snd (restore sample_codec (store_native False)
     pending_journal (crashed_machine\<lparr>boot := ''next''\<rparr>))))"
proof -
  have "\<forall>mu\<in>set (mutations pending_journal). mut_key mu \<in> lg_keys store_ledger \<and> key_kind (mut_key mu) \<noteq> ''win-nrpt''"
    by (simp add: pending_journal_def planned_journal_def new_journal_def sample_plan_def key_plain)
       (simp add: sample_key_def)
  moreover have "boot_id pending_journal \<noteq> boot (crashed_machine\<lparr>boot := ''next''\<rparr>)"
    by (simp add: pending_journal_def planned_journal_def new_journal_def)
  ultimately show ?thesis
    using other_boot_preserved [OF store_accounted _ _ surjective_pairing, of pending_journal
        "crashed_machine\<lparr>boot := ''next''\<rparr>" sample_codec False] by simp
qed

text \<open>C29: no transaction begins beside the journal of another one: the lifecycle does not succeed
  and leaves the network alone.\<close>

theorem foreign_journal_refused:
  assumes "name \<in> fst ` set (files m)" "json_extension name" "file_at m (journal_file K t) = None"
    and "li_reason input = Connect \<or> li_reason input = Reconnect"
    and "lifecycle K N t input m = (r, m')"
  shows "kernel m' = kernel m \<and> (\<forall>x. r \<noteq> Done x)"
proof -
  let ?I = "\<lambda>n. kernel n = kernel m"
  let ?J = "\<lambda>n. ?I n \<and> name \<in> fst ` set (files n) \<and> file_at n (journal_file K t) = None"
  have put: "name \<in> fst ` set (put_file n f fs)" if "name \<in> fst ` set fs" for n f and fs :: "(string \<times> jfile) list"
    using that by (induction n f fs rule: put_file.induct) auto
  have probe: "keeps ?J (probe e)" for e by (rule keeps_probe) simp
  have lock: "keeps ?J journal_lock"
  proof -
    have "keeps ?J (effect denied (whole (\<lambda>m. if map_of (files m) ''lock'' = None
       then m\<lparr>files := put_file ''lock'' \<lparr>f_meta = fresh_meta, f_data = []\<rparr> (files m)\<rparr> else m)))"
      by (rule keeps_runs, rule runs_effect) (auto simp: whole_def put file_at_def)
    then show ?thesis
      unfolding journal_lock_def privileged_def open_create_def
      by (intro keeps_rules probe) (auto split: option.splits intro: keeps_rules)
  qed
  have weak: "keeps ?J f \<Longrightarrow> runs ?J f ?I (\<lambda>_. ?J)" for f :: "('a machine, 'x) io"
    unfolding keeps_def by (erule runs_weaken) auto
  have priv: "keeps ?J privileged" unfolding privileged_def by (intro keeps_rules)
  have load: "runs ?J (load K t) ?I (\<lambda>found n. ?J n \<and> found = None)"
    unfolding load_def
    by (rule runs_bind [OF weak [OF probe]], rule runs_bind [where R = "\<lambda>fs n. ?J n \<and> fs = files n"],
        rule runs_get, simp, rule runs_if, rule runs_return, simp, rule runs_False)
       (auto simp: file_at_def)
  have scan: "runs (\<lambda>n. ?I n \<and> name \<in> set names) (io_each (\<lambda>name. io_bind (probe journal_error) (\<lambda>_.
       if json_extension name then io_fail journal_error else io_return ())) names) ?I (\<lambda>_ _. False)" for names
  proof (induction names)
    case (Cons a names)
    have p: "runs (\<lambda>n. ?I n \<and> name \<in> set (a # names)) (probe journal_error) ?I (\<lambda>_ n. ?I n \<and> name \<in> set (a # names))"
      by (rule runs_probe) simp_all
    show ?case
      unfolding io_each.simps
      by (rule runs_bind [where R = "\<lambda>_ n. ?I n \<and> name \<in> set names"], rule runs_bind [OF p], rule runs_if,
          rule runs_fail, simp, rule runs_return, use assms(2) in force, rule Cons.IH)
  qed (simp add: runs_def)
  have begins: "runs ?J (begin_transaction K N t reason config) ?I (\<lambda>_ _. False)" for reason config
    unfolding begin_transaction_def
    by (rule runs_bind [OF weak [OF probe]], rule runs_bind [where R = "\<lambda>names n. ?I n \<and> name \<in> set names"],
        rule runs_get, simp, rule runs_bind [OF scan], rule runs_False) simp
  have undo: "runs (\<lambda>n. ?J n \<and> found = None)
     (case found of None \<Rightarrow> io_return ()
      | Some j \<Rightarrow> io_bind (restore K N j) (\<lambda>warnings.
          if warnings \<noteq> [] then io_fail journal_error else io_return ())) ?I (\<lambda>_. ?J)" for found
    by (rule runs_pre [of _ "found = None"]) (auto intro!: runs_return)
  have fin: "runs ?J (if li_reason input = DisconnectReason then io_return None
      else begin_transaction K N t (li_reason input) (li_config input)) ?I (\<lambda>_ _. False)"
    using assms(4) begins by auto
  have reason: "\<not> (li_reason input = PreInit \<or> li_reason input = AttemptReconnect)"
    using assms(4) by auto
  have "runs ?J (lifecycle K N t input) ?I (\<lambda>_ _. False)"
    unfolding lifecycle_def if_not_P [OF reason]
    by (rule runs_bind [OF weak [OF priv] runs_bind [OF weak [OF lock] runs_bind [OF load
        runs_bind [OF undo fin]]]])
  from runsD [OF this _ assms(5)] assms(1,3) show ?thesis by auto
qed

theorem foreign_journal_refused_witness:
  "kernel (snd (lifecycle sample_codec (store_native False) sample_tx sample_input
     (sample_machine\<lparr>files := [(''other.json'', journal_of planned_journal)]\<rparr>)))
   = kernel sample_machine"
proof -
  let ?m = "sample_machine\<lparr>files := [(''other.json'', journal_of planned_journal)]\<rparr>"
  have "json_extension ''other.json''" by code_simp
  moreover have "file_at ?m (journal_file sample_codec sample_tx) = None"
    by (simp add: file_at_def sample_names)
  ultimately show ?thesis
    using foreign_journal_refused [of "''other.json''" ?m sample_codec sample_tx sample_input
        "store_native False", OF _ _ _ _ surjective_pairing]
    by (simp add: sample_input_def)
qed

text \<open>C30: a save replaces the journal of its transaction in one step: however it ends, the file is
  the old one or the complete new one, and only its own temporary file changes beside it.\<close>

theorem journal_replaced_atomically:
  assumes "save K j m = (r, m')"
  shows "(file_at m' (journal_file K (transaction j)) = file_at m (journal_file K (transaction j))
          \<or> committed K j m')
     \<and> (r = Done () \<longrightarrow> committed K j m')
     \<and> (\<forall>n. n \<noteq> pending_file K (transaction j) \<longrightarrow> n \<noteq> journal_file K (transaction j)
          \<longrightarrow> file_at m' n = file_at m n)
     \<and> kernel m' = kernel m"
proof -
  have "drafting (pending_file K (transaction j)) m m" by (simp add: drafting_def)
  from runsD [OF save_runs this assms] show ?thesis
    by (auto simp: saving_def same_world_def)
qed

theorem journal_replaced_atomically_witness:
  "kernel (snd (save sample_codec pending_journal (crashed_machine\<lparr>fates := [Go, Go, Go, Die 0]\<rparr>)))
     = kernel crashed_machine
   \<and> fst (save sample_codec pending_journal (crashed_machine\<lparr>fates := [Go, Go, Go, Die 0]\<rparr>)) = Crashed"
proof -
  let ?m = "crashed_machine\<lparr>fates := [Go, Go, Go, Die 0]\<rparr>"
  have "fst (save sample_codec pending_journal ?m) = Crashed"
    by (simp add: save_def Let_def open_create_def effect_def probe_def io_bind_def io_get_def
        io_return_def whole_def crashed_machine_def lock_file_def openable_fresh write_file_def
        pending_journal_def planned_journal_def new_journal_def)
  with journal_replaced_atomically [OF surjective_pairing, of sample_codec pending_journal ?m]
  show ?thesis by simp
qed

text \<open>C@: a journal that was saved is the journal that is loaded.\<close>

theorem saved_journal_loads:
  assumes "lossless K" "\<forall>mu\<in>set (mutations j). storable_mutation mu"
    and "well_formed_journal (transaction j) j" "network_config_validate (jconfig j) = Inr ()"
    and "save K j m = (Done (), m')"
  shows "fst (load K (transaction j) (m'\<lparr>fates := []\<rparr>)) = Done (Some j)"
proof -
  have "drafting (pending_file K (transaction j)) m m" by (simp add: drafting_def)
  from runsD(2) [OF save_runs this assms(5)]
  obtain f where "map_of (files m') (journal_file K (transaction j)) = Some f" "openable f"
    "f_data f = jc_encode K j" "len (jc_encode K j) \<le> max_journal"
    by (auto simp: committed_def file_at_def)
  moreover have "jc_decode K (jc_encode K j) = Some j"
    using assms(1,2) by (simp add: lossless_def)
  ultimately show ?thesis
    using assms(3,4)
    by (simp add: load_def probe_calm io_bind_def io_get_def io_return_def open_existing_def io_lift_def)
qed

theorem saved_journal_loads_witness:
  "fst (load sample_codec sample_tx crashed_machine) = Done (Some pending_journal)"
proof -
  have tx: "transaction pending_journal = sample_tx" "jconfig pending_journal = sample_net"
    "mutations pending_journal = sample_plan (\<lambda>_. None)"
    by (simp_all add: pending_journal_def planned_journal_def new_journal_def)
  have m: "crashed_machine\<lparr>files := [lock_file, (journal_file sample_codec sample_tx, journal_of pending_journal)]\<rparr>
      = crashed_machine" "crashed_machine\<lparr>fates := []\<rparr> = crashed_machine"
    by (simp_all add: crashed_machine_def)
  have "save sample_codec pending_journal crashed_machine = (Done (), crashed_machine)"
    by (subst calm_save_over) (simp_all add: crashed_machine_def tx codes max_journal_def)
  moreover have "\<forall>mu\<in>set (mutations pending_journal). storable_mutation mu"
    by (simp add: tx sample_plan_def storable_mutation_def storable_def)
  moreover have "well_formed_journal sample_tx pending_journal"
    by (simp add: well_formed_journal_def tx max_mutations_def sample_plan_def)
       (simp add: pending_journal_def planned_journal_def new_journal_def sample_plan_def)
  ultimately show ?thesis
    using saved_journal_loads [OF sample_lossless, of pending_journal crashed_machine crashed_machine]
    by (simp add: tx m sample_net_valid)
qed

end
