(* ===== verification/LinuxNet.thy ===== *)
theory LinuxNet
  imports UnixLifecycle Routes
begin

text \<open>
  \<open>crates/net/src/unix/linux.rs\<close> (with the command runner of \<open>unix.rs\<close>): the Linux adapter. It
  reads and changes the network through \<open>iproute2\<close>, \<open>resolvectl\<close> and \<open>resolvconf\<close>, whose answers
  are JSON or text. The tools, the file system, the kernel's interface table and \<open>serde_json\<close> are
  the record \<open>linux_os\<close>; everything the adapter computes around them is defined here.
\<close>

section \<open>The operating system\<close>

record tool_output =
  exit_status :: "int option"
  status_text :: string
  stdout :: string
  stderr :: string

record 'k linux_os =
  lo_index :: "'k \<Rightarrow> string \<Rightarrow> u32"
  lo_is_file :: "'k \<Rightarrow> string \<Rightarrow> bool"
  lo_exists :: "'k \<Rightarrow> string \<Rightarrow> bool"
  lo_read_text :: "'k \<Rightarrow> string \<Rightarrow> string option"
  lo_read_link :: "'k \<Rightarrow> string \<Rightarrow> string option"
  lo_exec :: "string \<Rightarrow> string list \<Rightarrow> string option \<Rightarrow> bool \<Rightarrow> ('k, tool_output) io"
  lo_script :: "('k, unit) io"
  lo_parse :: "string \<Rightarrow> json option"
  lo_print :: "json \<Rightarrow> string"

section \<open>Commands\<close>

definition command_limit :: int where
  "command_limit = 1024 * 1024"

definition within_limits :: "string list \<Rightarrow> string option \<Rightarrow> bool" where
  "within_limits args input \<longleftrightarrow>
     \<not> ((case input of Some s \<Rightarrow> len s > command_limit | None \<Rightarrow> False)
        \<or> len args > 2048 \<or> list_ex (\<lambda>s. len s > 65536 \<or> nul \<in> set s) args)"

definition allowlisted :: "string \<Rightarrow> bool \<Rightarrow> bool" where
  "allowlisted program mutate \<longleftrightarrow>
     program \<in> {''/usr/sbin/ip'', ''/sbin/ip'', ''/sbin/ifconfig'', ''/sbin/route'',
                ''/usr/bin/resolvectl'', ''/sbin/resolvconf'', ''/usr/sbin/scutil''}
     \<or> program = ''/ocgui/addrgen'' \<and> mutate \<or> program = ''/usr/sbin/netstat'' \<and> \<not> mutate"

definition run_command ::
  "('k, 'z) linux_os_scheme \<Rightarrow> string \<Rightarrow> string list \<Rightarrow> string option \<Rightarrow> bool \<Rightarrow> ('k, tool_output) io" where
  "run_command L program args input mutate =
     (if \<not> within_limits args input
      then io_fail (net_failure ''Native network command exceeds limits'')
      else if \<not> allowlisted program mutate
      then io_fail (net_failure ''Native network tool is not allowlisted'')
      else io_bind (if mutate then lo_script L else io_return ()) (\<lambda>_.
        lo_exec L program args input mutate))"

definition checked_output :: "string \<Rightarrow> tool_output \<Rightarrow> string result" where
  "checked_output program out =
     (if exit_status out \<noteq> Some 0
      then Inl (net_failure (''Native network tool '' @ program @ '' failed: '' @ status_text out))
      else if \<not> utf8_valid (stdout out)
      then Inl (net_failure ''Native network command returned invalid text'')
      else Inr (stdout out))"

definition run_tool ::
  "('k, 'z) linux_os_scheme \<Rightarrow> string \<Rightarrow> string list \<Rightarrow> ('k, string) io" where
  "run_tool L program args =
     io_bind (run_command L program args None False) (\<lambda>out.
     io_lift (checked_output program out))"

definition change_tool ::
  "('k, 'z) linux_os_scheme \<Rightarrow> string \<Rightarrow> string list \<Rightarrow> string option \<Rightarrow> ('k, unit) io" where
  "change_tool L program args input =
     io_bind (run_command L program args input True) (\<lambda>out.
     io_bind (io_lift (checked_output program out)) (\<lambda>_. io_return ()))"

definition ip_path :: "('k, 'z) linux_os_scheme \<Rightarrow> ('k, string) io" where
  "ip_path L =
     io_bind (io_get (lo_is_file L)) (\<lambda>is_file.
     io_lift (ok_or (net_failure ''Linux transactions require installed iproute2'')
       (find is_file [''/usr/sbin/ip'', ''/sbin/ip''])))"

definition json_run :: "('k, 'z) linux_os_scheme \<Rightarrow> string list \<Rightarrow> ('k, json) io" where
  "json_run L args =
     io_bind (ip_path L) (\<lambda>ip.
     io_bind (run_tool L ip args) (\<lambda>text.
     io_lift (ok_or (net_failure ''Invalid iproute2 JSON state'') (lo_parse L text))))"

section \<open>Routes\<close>

definition is_v6_text :: "string \<Rightarrow> bool" where
  "is_v6_text net \<longleftrightarrow> CHR '':'' \<in> set net"

definition family :: "string \<Rightarrow> string" where
  "family net = (if is_v6_text net then ''-6'' else ''-4'')"

definition canonical :: "ip_prefix \<Rightarrow> string" where
  "canonical p =
     show_ip (case address p of
        V4 a \<Rightarrow> V4 (a AND (if prefix p = 0 then 0 else push_bit (unat (32 - prefix p)) (- 1)))
      | V6 a \<Rightarrow> V6 (a AND (if prefix p = 0 then 0 else push_bit (unat (128 - prefix p)) (- 1))))
     @ ''/'' @ show_nat (unat (prefix p))"

definition linux_route_key :: "string \<Rightarrow> string" where
  "linux_route_key net = ''main|'' @ net"

definition validate_prefix :: "string \<Rightarrow> unit result" where
  "validate_prefix value =
     rbind (ok_or (net_failure ''Invalid native prefix'') (split_once (CHR ''/'') value)) (\<lambda>(a, p).
     rbind (ok_or (net_failure ''Invalid native address'') (parse_ip a)) (\<lambda>ip.
     rbind (ok_or (net_failure ''Invalid native prefix'') (parse_word p)) (\<lambda>n.
     ip_prefix_validate \<lparr>address = ip, prefix = n\<rparr>)))"

definition route_parts :: "string \<Rightarrow> (string \<times> string) result" where
  "route_parts name =
     rbind (ok_or (net_failure ''Invalid route journal key'') (split_once (CHR ''|'') name))
       (\<lambda>(table, net).
     if table \<noteq> ''main'' \<and> table \<noteq> ''local'' then Inl (net_failure ''Unsupported route table'')
     else rbind (validate_prefix net) (\<lambda>_. Inr (table, net)))"

definition kept_attributes :: "string list" where
  "kept_attributes = [''dev'', ''gateway'', ''prefsrc'', ''protocol'', ''scope'', ''type'',
     ''metric'', ''pref'']"

fun keep_attributes ::
  "(string \<times> json) list \<Rightarrow> (string \<times> json) list \<Rightarrow> (string \<times> json) list result" where
  "keep_attributes out [] = Inr out"
| "keep_attributes out ((k, v) # source) =
     (if k = ''dst'' \<or> k = ''table'' \<or> k = ''flags'' \<and> v = JArray []
      then keep_attributes out source
      else if k \<in> set kept_attributes then keep_attributes (object_insert k v out) source
      else Inl (net_failure ''Route attributes cannot be safely journaled by this adapter''))"

definition default_metric :: "string \<Rightarrow> int" where
  "default_metric net = (if is_v6_text net then 1024 else 0)"

definition interface_index :: "(string \<Rightarrow> u32) \<Rightarrow> string \<Rightarrow> json result" where
  "interface_index ifs device =
     rbind (resolve_interface ifs device) (\<lambda>i. Inr (JInt (uint (if_index i))))"

definition canonical_route :: "(string \<Rightarrow> u32) \<Rightarrow> json \<Rightarrow> string \<Rightarrow> json result" where
  "canonical_route ifs value net =
     rbind (ok_or (net_failure ''Invalid route state'') (as_object value)) (\<lambda>source.
     rbind (keep_attributes [] source) (\<lambda>out.
     let out = or_insert ''type'' (JString ''unicast'') out;
         out = or_insert ''protocol'' (JString ''boot'') out;
         out = or_insert ''scope'' (JString ''global'') out;
         out = or_insert ''metric'' (JInt (default_metric net)) out;
         out = (if is_v6_text net then or_insert ''pref'' (JString ''medium'') out else out)
     in case text_entry ''dev'' value of
          Some device \<Rightarrow> rbind (interface_index ifs device) (\<lambda>i.
            Inr (JObject (object_insert ''interface_index'' i out)))
        | None \<Rightarrow> Inr (JObject out)))"

definition sort_values :: "('k, 'z) linux_os_scheme \<Rightarrow> json list \<Rightarrow> json list" where
  "sort_values L values = sort_key (lo_print L) values"

definition route_state :: "('k, 'z) linux_os_scheme \<Rightarrow> string \<Rightarrow> ('k, json) io" where
  "route_state L name =
     io_bind (io_lift (route_parts name)) (\<lambda>(table, net).
     io_bind (json_run L [family net, ''-j'', ''route'', ''show'', ''table'', table, ''exact'',
                          net]) (\<lambda>routes.
     io_bind (io_get (lo_index L)) (\<lambda>ifs.
     io_lift (rbind (ok_or (net_failure ''Invalid route list'') (as_array routes)) (\<lambda>rows.
              rbind (map_result (\<lambda>v. canonical_route ifs v net) rows) (\<lambda>values.
              Inr (JArray (sort_values L values))))))))"

definition intended_route ::
  "(string \<Rightarrow> u32) \<Rightarrow> string \<Rightarrow> string \<Rightarrow> string option \<Rightarrow> int option \<Rightarrow> json result" where
  "intended_route ifs net device via metric =
     (let value = jobject [(''type'', JString ''unicast''), (''protocol'', JString ''boot''),
            (''scope'', JString (if via \<noteq> None \<or> is_v6_text net then ''global'' else ''link'')),
            (''dev'', JString device),
            (''metric'', JInt (case metric of Some n \<Rightarrow> n | None \<Rightarrow> default_metric net))]
      in rbind (interface_index ifs device) (\<lambda>i.
         let value = jset ''interface_index'' i value;
             value = (case via of Some g \<Rightarrow> jset ''gateway'' (JString g) value | None \<Rightarrow> value)
         in Inr (if is_v6_text net then jset ''pref'' (JString ''medium'') value else value)))"

fun min_by :: "('a \<Rightarrow> 'b::linorder) \<Rightarrow> 'a list \<Rightarrow> 'a option" where
  "min_by f [] = None"
| "min_by f (x # xs) =
     (case min_by f xs of None \<Rightarrow> Some x | Some y \<Rightarrow> if f x \<le> f y then Some x else Some y)"

definition entry_u64 :: "string \<Rightarrow> json \<Rightarrow> int option" where
  "entry_u64 k v = (case jget k v of Some x \<Rightarrow> as_u64 x | None \<Rightarrow> None)"

definition covering_length :: "string \<Rightarrow> json \<Rightarrow> int" where
  "covering_length net row =
     (let destination = (case text_entry ''dst'' row of Some d \<Rightarrow> d | None \<Rightarrow> ''default'')
      in if destination = ''default'' then 0
         else case split_once (CHR ''/'') destination of
           Some (_, n) \<Rightarrow> (case parse_uint 256 n of Some k \<Rightarrow> k
                           | None \<Rightarrow> if is_v6_text net then 128 else 32)
         | None \<Rightarrow> if is_v6_text net then 128 else 32)"

definition covering_key :: "string \<Rightarrow> json \<Rightarrow> int \<times> int" where
  "covering_key net row =
     (- covering_length net row,
      case entry_u64 ''metric'' row of Some n \<Rightarrow> n | None \<Rightarrow> 0)"

text \<open>The row of the physical network that a bypass follows: for a host the forwarding decision,
  for a network the longest covering prefix outside the tunnel.\<close>

definition physical_row :: "string \<Rightarrow> string \<Rightarrow> bool \<Rightarrow> json list \<Rightarrow> json result" where
  "physical_row net tunnel host rows =
     (if host then
        (case rows of
           [] \<Rightarrow> Inl (net_failure ''No physical route for VPN transport'')
         | row # _ \<Rightarrow>
             if (case jget ''table'' row of Some v \<Rightarrow> v \<noteq> JString ''main'' \<and> v \<noteq> JInt 254
                 | None \<Rightarrow> False)
             then Inl (net_failure ''Policy-table bypass requires a policy-aware network adapter'')
             else Inr row)
      else ok_or (net_failure ''No physical route covers the complete VPN exclusion'')
        (min_by (covering_key net)
           (filter (\<lambda>row. case text_entry ''dev'' row of Some d \<Rightarrow> d \<noteq> tunnel | None \<Rightarrow> False) rows)))"

definition bypass_route ::
  "(string \<Rightarrow> u32) \<Rightarrow> string \<Rightarrow> string \<Rightarrow> bool \<Rightarrow> json list \<Rightarrow> json result" where
  "bypass_route ifs net tunnel host rows =
     rbind (physical_row net tunnel host rows) (\<lambda>row.
     rbind (ok_or (net_failure ''VPN bypass route has no interface'') (text_entry ''dev'' row)) (\<lambda>dev.
     rbind (safe_name dev) (\<lambda>_.
     if dev = tunnel
     then Inl (net_failure ''Transport bypass resolves through the VPN tunnel'')
     else
     let via = text_entry ''gateway'' row in
     rbind (case via of
              Some g \<Rightarrow> rbind (ok_or (net_failure ''Invalid physical gateway'') (parse_ip g)) (\<lambda>_. Inr ())
            | None \<Rightarrow> Inr ()) (\<lambda>_.
     rbind (intended_route ifs net dev via
              (map_option (\<lambda>n. n mod 2 ^ 32) (entry_u64 ''metric'' row))) (\<lambda>route.
     Inr (case jget ''prefsrc'' row of Some s \<Rightarrow> jset ''prefsrc'' s route | None \<Rightarrow> route))))))"

definition nonempty_array :: "json \<Rightarrow> bool" where
  "nonempty_array v \<longleftrightarrow> (case v of JArray (_ # _) \<Rightarrow> True | _ \<Rightarrow> False)"

definition all_foreign :: "string \<Rightarrow> json \<Rightarrow> bool" where
  "all_foreign tunnel v \<longleftrightarrow>
     (case v of JArray rows \<Rightarrow> rows \<noteq> [] \<and> list_all (\<lambda>r. jindex r ''dev'' \<noteq> JString tunnel) rows
      | _ \<Rightarrow> False)"

definition bypass :: "('k, 'z) linux_os_scheme \<Rightarrow> string \<Rightarrow> string \<Rightarrow> ('k, json) io" where
  "bypass L net tunnel =
     io_bind (route_state L (linux_route_key net)) (\<lambda>existing.
     let host = ends_with (if is_v6_text net then ''/128'' else ''/32'') net in
     if \<not> host \<and> all_foreign tunnel existing then io_return existing
     else
     io_bind (json_run L
       (if host then [family net, ''-j'', ''route'', ''get'', first_piece (CHR ''/'') net]
        else [family net, ''-j'', ''route'', ''show'', ''table'', ''main'', ''match'', net]))
       (\<lambda>result.
     io_bind (io_get (lo_index L)) (\<lambda>ifs.
     io_lift (rbind (ok_or (net_failure ''Invalid physical route lookup'') (as_array result)) (\<lambda>rows.
              rbind (bypass_route ifs net tunnel host rows) (\<lambda>route.
              Inr (if nonempty_array existing then existing else JArray [route])))))))"

section \<open>Interfaces and addresses\<close>

definition link_state :: "('k, 'z) linux_os_scheme \<Rightarrow> string \<Rightarrow> ('k, json) io" where
  "link_state L name =
     io_bind (io_lift (safe_name name)) (\<lambda>_.
     io_bind (json_run L [''-j'', ''address'', ''show'', ''dev'', name]) (\<lambda>v.
     io_lift (ok_or (net_failure ''Tunnel interface is absent'')
       (case v of JArray (x # _) \<Rightarrow> Some x | _ \<Rightarrow> None))))"

definition address_parts :: "string \<Rightarrow> (string \<times> string) result" where
  "address_parts name =
     rbind (ok_or (net_failure ''Invalid address journal key'') (split_once (CHR ''|'') name))
       (\<lambda>(device, net).
     rbind (safe_name device) (\<lambda>_.
     rbind (validate_prefix net) (\<lambda>_. Inr (device, net))))"

definition entry_is :: "string \<Rightarrow> json \<Rightarrow> json \<Rightarrow> bool" where
  "entry_is k x v \<longleftrightarrow> jget k v = Some x"

definition lasting :: "string \<Rightarrow> json \<Rightarrow> bool" where
  "lasting k v \<longleftrightarrow>
     (case jget k v of Some x \<Rightarrow> x = JInt 4294967295 \<or> x = JString ''forever'' | None \<Rightarrow> True)"

definition copied_entries :: "string list \<Rightarrow> json \<Rightarrow> json \<Rightarrow> json" where
  "copied_entries ks v result =
     fold (\<lambda>k r. case jget k v of Some x \<Rightarrow> jset k x r | None \<Rightarrow> r) ks result"

definition unusable_address :: "json \<Rightarrow> bool" where
  "unusable_address v \<longleftrightarrow>
     entry_is ''tentative'' (JBool True) v \<or> entry_is ''dadfailed'' (JBool True) v"

definition address_value :: "string \<Rightarrow> int \<Rightarrow> json \<Rightarrow> json option result" where
  "address_value text_address plen state =
     rbind (ok_or (net_failure ''Invalid interface address state'')
              (as_array (jindex state ''addr_info''))) (\<lambda>entries.
     case filter (\<lambda>v. jindex v ''local'' = JString text_address
                      \<and> jindex v ''prefixlen'' = JInt plen) entries of
       [] \<Rightarrow> Inr None
     | [v] \<Rightarrow>
         if entry_is ''dynamic'' (JBool True) v \<or> \<not> lasting ''valid_life_time'' v
            \<or> \<not> lasting ''preferred_life_time'' v
         then Inl (net_failure ''Expiring interface addresses cannot be safely replaced'')
         else
           let scope = (case text_entry ''scope'' v of Some x \<Rightarrow> x | None \<Rightarrow> ''global'');
               result = jobject [(''local'', JString text_address), (''prefixlen'', JInt plen),
                                 (''scope'', JString scope)];
               result = copied_entries [''peer'', ''broadcast'', ''label'', ''nodad''] v result
           in Inr (Some (if unusable_address v then jset ''unusable'' (JBool True) result
                         else result))
     | _ \<Rightarrow> Inl (net_failure ''Ambiguous interface address state''))"

definition address_state :: "('k, 'z) linux_os_scheme \<Rightarrow> string \<Rightarrow> ('k, json option) io" where
  "address_state L name =
     io_bind (io_lift (address_parts name)) (\<lambda>(device, net).
     io_bind (io_lift (ok_or (net_failure ''Invalid address journal key'')
                        (split_once (CHR ''/'') net))) (\<lambda>(a, b).
     io_bind (io_lift (ok_or (net_failure ''Invalid prefix'') (parse_uint (2 ^ 64) b))) (\<lambda>plen.
     io_bind (link_state L device) (\<lambda>state.
     io_lift (address_value a plen state)))))"

section \<open>The resolver\<close>

definition resolver_verb :: "string \<Rightarrow> string result" where
  "resolver_verb k =
     (if k = ''linux-dns'' then Inr ''dns''
      else if k = ''linux-domains'' then Inr ''domain''
      else if k = ''linux-default-dns'' then Inr ''default-route''
      else Inl (net_failure ''Invalid resolver key''))"

definition check_resolver_word :: "string \<Rightarrow> string \<Rightarrow> unit result" where
  "check_resolver_word k word =
     (if k = ''linux-dns''
      then rbind (ok_or (net_failure ''Unsupported scoped resolver address'') (parse_ip word))
             (\<lambda>_. Inr ())
      else if word \<noteq> ''~.'' then validate_domain (trim_start_matches (CHR ''~'') word)
      else Inr ())"

definition lower :: "string \<Rightarrow> string" where
  "lower s = map to_ascii_lowercase s"

definition bare_domain :: "string \<Rightarrow> string" where
  "bare_domain s = lower (trim_end_matches (CHR ''.'') s)"

definition resolver_words :: "string \<Rightarrow> string \<Rightarrow> json result" where
  "resolver_words k text =
     rbind (ok_or (net_failure ''Invalid per-link resolver response'') (split_once (CHR '':'') text))
       (\<lambda>(_, values).
     let words = split_ascii_whitespace values in
     if k = ''linux-default-dns'' then
       (if words = [''yes''] then Inr (JBool True)
        else if words = [''no''] then Inr (JBool False)
        else Inl (net_failure ''Invalid resolver default-route state''))
     else rbind (check_all (check_resolver_word k) words) (\<lambda>_.
       Inr (JArray (map (\<lambda>w. JString (if k = ''linux-domains'' \<and> w \<noteq> ''~.'' then bare_domain w else w))
                      words))))"

definition resolver_value :: "('k, 'z) linux_os_scheme \<Rightarrow> string \<Rightarrow> string \<Rightarrow> ('k, json) io" where
  "resolver_value L k name =
     io_bind (io_lift (safe_name name)) (\<lambda>_.
     io_bind (io_lift (resolver_verb k)) (\<lambda>verb.
     io_bind (run_tool L ''/usr/bin/resolvectl'' [verb, name]) (\<lambda>text.
     io_lift (resolver_words k text))))"

fun unique_onto :: "string list \<Rightarrow> string list \<Rightarrow> string list" where
  "unique_onto result [] = result"
| "unique_onto result (v # vs) = unique_onto (if v \<in> set result then result else result @ [v]) vs"

definition unique :: "string list \<Rightarrow> string list" where
  "unique vs = unique_onto [] vs"

definition managed_links :: "string list" where
  "managed_links = [''/run/systemd/resolve/stub-resolv.conf'', ''/usr/lib/systemd/resolv.conf'',
     ''/run/systemd/resolve/resolv.conf'', ''../run/systemd/resolve/stub-resolv.conf'',
     ''../run/systemd/resolve/resolv.conf'']"

definition uses_resolved :: "string \<Rightarrow> string option \<Rightarrow> bool" where
  "uses_resolved nss target \<longleftrightarrow>
     (let hosts = (case find (starts_with ''hosts:'') (rust_lines nss) of Some l \<Rightarrow> l | None \<Rightarrow> []);
          words = split_ascii_whitespace hosts
      in ''resolve'' \<in> set words
         \<or> ''dns'' \<in> set words \<and> (case target of Some p \<Rightarrow> p \<in> set managed_links | None \<Rightarrow> False))"

definition unsupported_resolver :: err where
  "unsupported_resolver = net_failure
     ''Active resolver is not supported safely; systemd-resolved or resolvconf is required''"

definition resolver_kind :: "('k, 'z) linux_os_scheme \<Rightarrow> ('k, string) io" where
  "resolver_kind L =
     io_bind (io_get (\<lambda>k. lo_read_text L k ''/etc/nsswitch.conf'')) (\<lambda>nss.
     io_bind (io_lift (ok_or (net_failure ''Cannot determine active Linux resolver'') nss)) (\<lambda>nss.
     io_bind (io_get (\<lambda>k. lo_read_link L k ''/etc/resolv.conf'')) (\<lambda>target.
     io_bind (io_get (lo_is_file L)) (\<lambda>is_file.
     if uses_resolved nss target \<and> is_file ''/usr/bin/resolvectl''
     then io_bind (run_tool L ''/usr/bin/resolvectl'' [''status'']) (\<lambda>_. io_return ''resolved'')
     else
     io_bind (io_get (\<lambda>k. lo_read_link L k ''/sbin/resolvconf'')) (\<lambda>link.
     if is_file ''/sbin/resolvconf''
        \<and> \<not> (case link of Some p \<Rightarrow> last_piece (CHR ''/'') p = ''resolvectl'' | None \<Rightarrow> False)
     then io_return ''resolvconf''
     else io_fail unsupported_resolver)))))"

text \<open>The per-interface record of openresolv, from its listing.\<close>

definition record_body :: "string \<Rightarrow> string \<Rightarrow> json option result" where
  "record_body name output =
     (if trim output = [] then Inr None
      else case rust_lines output of
        [] \<Rightarrow> Inl (net_failure ''resolvconf does not expose an unambiguous per-interface record'')
      | first # rest \<Rightarrow>
          if first \<noteq> ''# resolv.conf from '' @ name
          then Inl (net_failure ''resolvconf does not expose an unambiguous per-interface record'')
          else
            let body = join [CHR 0x0A] rest in
            if list_ex (starts_with ''# resolv.conf from '') (rust_lines body)
            then Inl (net_failure ''Ambiguous resolvconf record'')
            else Inr (Some (JString (trim_end body @ [CHR 0x0A]))))"

definition resolvconf_record :: "('k, 'z) linux_os_scheme \<Rightarrow> string \<Rightarrow> ('k, json option) io" where
  "resolvconf_record L name =
     io_bind (io_lift (safe_name name)) (\<lambda>_.
     io_bind (run_tool L ''/sbin/resolvconf'' [''--version'']) (\<lambda>version.
     if \<not> starts_with ''openresolv '' version
     then io_fail (net_failure ''Transactional resolver records require openresolv'')
     else
     io_bind (run_command L ''/sbin/resolvconf'' [''-f'', ''-l'', name] None False) (\<lambda>result.
     if (exit_status result = Some 1 \<or> exit_status result = Some 2) \<and> stdout result = []
        \<and> stderr result = []
     then io_return None
     else
     io_bind (io_lift (checked_output ''/sbin/resolvconf'' result)) (\<lambda>output.
     io_lift (record_body name output)))))"

section \<open>Reading and writing a key\<close>

definition json_flag_up :: "json \<Rightarrow> json result" where
  "json_flag_up state =
     rbind (ok_or (net_failure ''Invalid interface flags'') (as_array (jindex state ''flags'')))
       (\<lambda>flags. Inr (JBool (JString ''UP'' \<in> set flags)))"

definition addrgen_path :: "string \<Rightarrow> string" where
  "addrgen_path name = ''/proc/sys/net/ipv6/conf/'' @ name @ ''/addr_gen_mode''"

definition linux_read :: "('k, 'z) linux_os_scheme \<Rightarrow> key \<Rightarrow> ('k, json option) io" where
  "linux_read L k =
     (let name = key_name k in
      if key_kind k = ''linux-route''
      then io_bind (route_state L name) (\<lambda>v. io_return (Some v))
      else if key_kind k = ''linux-address'' then address_state L name
      else if key_kind k = ''linux-addrgen''
      then io_bind (io_lift (safe_name name)) (\<lambda>_.
           io_bind (io_get (\<lambda>s. lo_read_text L s (addrgen_path name))) (\<lambda>text.
           io_lift (rbind (ok_or (net_failure ''Cannot read tunnel IPv6 address-generation mode'') text)
             (\<lambda>t. rbind (ok_or (net_failure ''Invalid IPv6 address-generation mode'')
                             (parse_uint 256 (trim t))) (\<lambda>n. Inr (Some (JInt n)))))))
      else if key_kind k = ''linux-mtu''
      then io_bind (link_state L name) (\<lambda>v. io_return (Some (jindex v ''mtu'')))
      else if key_kind k = ''linux-up''
      then io_bind (link_state L name) (\<lambda>v. io_lift (rbind (json_flag_up v) (\<lambda>b. Inr (Some b))))
      else if key_kind k \<in> {''linux-dns'', ''linux-domains'', ''linux-default-dns''}
      then io_bind (resolver_value L (key_kind k) name) (\<lambda>v. io_return (Some v))
      else if key_kind k = ''linux-resolvconf'' then resolvconf_record L name
      else io_fail (net_failure ''Unknown Linux network journal key''))"

definition bad_argument :: "string \<Rightarrow> bool" where
  "bad_argument value \<longleftrightarrow> starts_with ''-'' value \<or> list_ex is_whitespace (chars value)"

fun option_args :: "json \<Rightarrow> (string \<times> string) list \<Rightarrow> string list result" where
  "option_args route [] = Inr []"
| "option_args route ((k, arg) # ks) =
     (case jget k route of
        None \<Rightarrow> option_args route ks
      | Some v \<Rightarrow>
          rbind (case as_str v of Some t \<Rightarrow> Inr t
                 | None \<Rightarrow> (case as_u64 v of Some n \<Rightarrow> Inr (show_nat (nat n))
                            | None \<Rightarrow> Inl (net_failure ''Invalid route journal attribute''))) (\<lambda>value.
          if bad_argument value then Inl (net_failure ''Invalid route journal argument'')
          else rbind (option_args route ks) (\<lambda>args. Inr (arg # value # args))))"

definition route_args ::
  "(string \<Rightarrow> u32) \<Rightarrow> string \<Rightarrow> string \<Rightarrow> string \<Rightarrow> json \<Rightarrow> string list result" where
  "route_args ifs action table net route =
     rbind (case text_entry ''dev'' route of
              Some device \<Rightarrow> rbind (interface_index ifs device) (\<lambda>i.
                if jindex route ''interface_index'' \<noteq> i
                then Inl (net_failure ''Journaled route interface identity changed'') else Inr ())
            | None \<Rightarrow> Inr ()) (\<lambda>_.
     rbind (json_text (jindex route ''type'')) (\<lambda>ty.
     rbind (option_args route [(''gateway'', ''via''), (''dev'', ''dev''), (''prefsrc'', ''src''),
              (''protocol'', ''proto''), (''scope'', ''scope''), (''metric'', ''metric''),
              (''pref'', ''pref'')]) (\<lambda>args.
     Inr ([family net, ''route'', action, ty, net, ''table'', table] @ args))))"

definition route_change ::
  "('k, 'z) linux_os_scheme \<Rightarrow> string \<Rightarrow> string \<Rightarrow> string \<Rightarrow> json \<Rightarrow> ('k, unit) io" where
  "route_change L action table net route =
     io_bind (ip_path L) (\<lambda>ip.
     io_bind (io_get (lo_index L)) (\<lambda>ifs.
     io_bind (io_lift (route_args ifs action table net route)) (\<lambda>args.
     change_tool L ip args None)))"

text \<open>The commands of a route write: what the target adds, then what no target metric keeps.\<close>

definition route_steps :: "json list \<Rightarrow> json list \<Rightarrow> (string \<times> json) list" where
  "route_steps current target =
     map (\<lambda>r. (''replace'', r)) (filter (\<lambda>r. r \<notin> set current) target)
     @ map (\<lambda>r. (''del'', r))
         (filter (\<lambda>r. \<not> list_ex (\<lambda>v. jindex v ''metric'' = jindex r ''metric'') target) current)"

definition write_route :: "('k, 'z) linux_os_scheme \<Rightarrow> string \<Rightarrow> json option \<Rightarrow> ('k, unit) io" where
  "write_route L name value =
     io_bind (io_lift (route_parts name)) (\<lambda>(table, net).
     io_bind (route_state L name) (\<lambda>current.
     io_bind (io_lift (ok_or (net_failure ''Route journal requires an array'')
                        (case value of Some v \<Rightarrow> as_array v | None \<Rightarrow> None))) (\<lambda>target.
     io_bind (io_lift (ok_or (net_failure ''Invalid route state'') (as_array current))) (\<lambda>current.
     io_each (\<lambda>(action, route). route_change L action table net route)
       (route_steps current target)))))"

fun text_args :: "json \<Rightarrow> string list \<Rightarrow> string list result" where
  "text_args value [] = Inr []"
| "text_args value (k # ks) =
     (case jget k value of
        None \<Rightarrow> text_args value ks
      | Some v \<Rightarrow> rbind (json_text v) (\<lambda>t. rbind (text_args value ks) (\<lambda>args. Inr (k # t # args))))"

definition address_args :: "string \<Rightarrow> string \<Rightarrow> json \<Rightarrow> string list result" where
  "address_args device net value =
     rbind (json_text (jindex value ''scope'')) (\<lambda>scope.
     rbind (text_args value [''peer'', ''broadcast'', ''label'']) (\<lambda>args.
     let head = [family net, ''address'', ''replace'', net, ''dev'', device, ''scope'', scope] @ args in
     if is_v6_text net
     then Inr (if entry_is ''nodad'' (JBool True) value then head @ [''nodad''] else head)
     else if jget ''peer'' value = None
     then rbind (json_text (jindex value ''local'')) (\<lambda>l. Inr (head @ [''peer'', l]))
     else Inr head))"

definition write_address :: "('k, 'z) linux_os_scheme \<Rightarrow> string \<Rightarrow> json option \<Rightarrow> ('k, unit) io" where
  "write_address L name value =
     io_bind (io_lift (address_parts name)) (\<lambda>(device, net).
     case value of
       None \<Rightarrow>
         io_bind (address_state L name) (\<lambda>found.
         if found \<noteq> None
         then io_bind (ip_path L) (\<lambda>ip.
                change_tool L ip [family net, ''address'', ''del'', net, ''dev'', device] None)
         else io_return ())
     | Some v \<Rightarrow>
         io_bind (io_lift (address_args device net v)) (\<lambda>args.
         io_bind (ip_path L) (\<lambda>ip. change_tool L ip args None)))"

definition link_args :: "key \<Rightarrow> json \<Rightarrow> string list result" where
  "link_args k v =
     rbind (if key_kind k = ''linux-mtu''
            then (case as_u64 v of
                    Some n \<Rightarrow> if 68 \<le> n \<and> n \<le> 65535 then Inr [''mtu'', show_nat (nat n)]
                              else Inl (net_failure ''Invalid MTU journal value'')
                  | None \<Rightarrow> Inl (net_failure ''Invalid MTU journal value''))
            else rbind (ok_or (net_failure ''Invalid link journal value'') (as_bool v)) (\<lambda>b.
                   Inr [if b then ''up'' else ''down''])) (\<lambda>args.
     Inr ([''link'', ''set'', ''dev'', key_name k] @ args))"

definition resolver_args :: "key \<Rightarrow> json \<Rightarrow> string list result" where
  "resolver_args k v =
     (let verb = (if key_kind k = ''linux-dns'' then ''dns''
                  else if key_kind k = ''linux-domains'' then ''domain'' else ''default-route'') in
      rbind (if key_kind k = ''linux-default-dns''
             then rbind (ok_or (net_failure ''Invalid resolver journal value'') (as_bool v)) (\<lambda>b.
                    Inr [if b then ''yes'' else ''no''])
             else rbind (json_strings v) (\<lambda>values. Inr (if values = [] then [[]] else values)))
        (\<lambda>args. Inr ([verb, key_name k] @ args)))"

definition linux_write :: "('k, 'z) linux_os_scheme \<Rightarrow> key \<Rightarrow> json option \<Rightarrow> ('k, unit) io" where
  "linux_write L k value =
     (let name = key_name k in
      if key_kind k = ''linux-route'' then write_route L name value
      else if key_kind k = ''linux-address'' then write_address L name value
      else if key_kind k = ''linux-addrgen''
      then io_bind (io_lift (safe_name name)) (\<lambda>_.
           io_bind (io_lift (ok_or (net_failure ''Invalid IPv6 address-generation mode'')
             (case value of
                Some v \<Rightarrow> (case as_u64 v of Some n \<Rightarrow> if n \<le> 3 then Some n else None | None \<Rightarrow> None)
              | None \<Rightarrow> None))) (\<lambda>mode.
           change_tool L ''/ocgui/addrgen'' [name, show_nat (nat mode)] None))
      else if key_kind k \<in> {''linux-mtu'', ''linux-up''}
      then io_bind (io_lift (safe_name name)) (\<lambda>_.
           io_bind (io_lift (ok_or (net_failure ''Missing interface journal value'') value)) (\<lambda>v.
           io_bind (io_lift (link_args k v)) (\<lambda>args.
           io_bind (ip_path L) (\<lambda>ip. change_tool L ip args None))))
      else if key_kind k \<in> {''linux-dns'', ''linux-domains'', ''linux-default-dns''}
      then io_bind (io_lift (safe_name name)) (\<lambda>_.
           io_bind (io_lift (ok_or (net_failure ''Missing resolver journal value'') value)) (\<lambda>v.
           io_bind (io_lift (resolver_args k v)) (\<lambda>args.
           change_tool L ''/usr/bin/resolvectl'' args None)))
      else if key_kind k = ''linux-resolvconf''
      then io_bind (io_lift (safe_name name)) (\<lambda>_.
           io_bind (io_lift (transpose_result json_text value)) (\<lambda>input.
           change_tool L ''/sbin/resolvconf'' [if value \<noteq> None then ''-a'' else ''-d'', name] input))
      else io_fail (net_failure ''Unknown Linux network journal key''))"

section \<open>The plan\<close>

definition linux_base :: "('k, 'z) linux_os_scheme \<Rightarrow> 'k native_base" where
  "linux_base L = \<lparr>nt_index = lo_index L, nt_read = linux_read L, nt_write = linux_write L\<rparr>"

definition linux_mutation ::
  "('k, 'z) linux_os_scheme \<Rightarrow> string \<Rightarrow> string \<Rightarrow> json \<Rightarrow> ('k, mutation) io" where
  "linux_mutation L k name value = plan_mutation (linux_base L) k name (Some value)"

definition with_route :: "('k, 'z) linux_os_scheme \<Rightarrow> json \<Rightarrow> json list \<Rightarrow> json list" where
  "with_route L route values =
     sort_values L (filter (\<lambda>v. jindex v ''metric'' \<noteq> jindex route ''metric'') values @ [route])"

definition same_route :: "string \<Rightarrow> mutation \<Rightarrow> bool" where
  "same_route name m \<longleftrightarrow> key_kind (mut_key m) = ''linux-route'' \<and> key_name (mut_key m) = name"

text \<open>\<open>add_route\<close> on the plan so far: the first mutation of the route gets the new metric slot, or a
  new mutation is planned from the state of the system.\<close>

fun extend_route ::
  "('k, 'z) linux_os_scheme \<Rightarrow> string \<Rightarrow> json \<Rightarrow> mutation list \<Rightarrow> mutation list result" where
  "extend_route L name route [] = Inr []"
| "extend_route L name route (m # ms) =
     (if same_route name m
      then rbind (ok_or (net_failure ''Invalid planned route state'')
                   (case intended m of Some v \<Rightarrow> as_array v | None \<Rightarrow> None)) (\<lambda>values.
             Inr (m\<lparr>intended := Some (JArray (with_route L route values))\<rparr> # ms))
      else rbind (extend_route L name route ms) (\<lambda>ms'. Inr (m # ms')))"

definition add_route ::
  "('k, 'z) linux_os_scheme \<Rightarrow> string \<Rightarrow> string \<Rightarrow> json \<Rightarrow> mutation list \<Rightarrow> ('k, mutation list) io" where
  "add_route L table net route plan =
     (let name = table @ ''|'' @ net in
      if list_ex (same_route name) plan then io_lift (extend_route L name route plan)
      else
      io_bind (route_state L name) (\<lambda>state.
      io_bind (io_lift (ok_or (net_failure ''Invalid route state'') (as_array state))) (\<lambda>values.
      io_bind (linux_mutation L ''linux-route'' name (JArray (with_route L route values))) (\<lambda>m.
      io_return (plan @ [m])))))"

definition push_mutation ::
  "('k, 'z) linux_os_scheme \<Rightarrow> string \<Rightarrow> string \<Rightarrow> json \<Rightarrow> mutation list \<Rightarrow> ('k, mutation list) io" where
  "push_mutation L k name value plan =
     io_bind (linux_mutation L k name value) (\<lambda>m. io_return (plan @ [m]))"

text \<open>\<open>for x in xs { plan = f(x, plan)?; }\<close>.\<close>

fun io_fold :: "('x \<Rightarrow> 'a \<Rightarrow> ('m, 'a) io) \<Rightarrow> 'x list \<Rightarrow> 'a \<Rightarrow> ('m, 'a) io" where
  "io_fold f [] acc = io_return acc"
| "io_fold f (x # xs) acc = io_bind (f x acc) (io_fold f xs)"

definition push_bypass ::
  "('k, 'z) linux_os_scheme \<Rightarrow> string \<Rightarrow> string \<Rightarrow> mutation list \<Rightarrow> ('k, mutation list) io" where
  "push_bypass L tunnel net plan =
     io_bind (bypass L net tunnel) (\<lambda>route.
     push_mutation L ''linux-route'' (linux_route_key net) route plan)"

definition plan_bypasses ::
  "('k, 'z) linux_os_scheme \<Rightarrow> network_config \<Rightarrow> ('k, mutation list) io" where
  "plan_bypasses L c =
     (let tunnel = if_name (interface c); peer = peer_prefix c in
     io_bind (if \<not> is_loopback (transport_peer c) then push_bypass L tunnel peer []
              else io_return []) (\<lambda>plan.
     io_bind (io_lift (bypass_routes c)) (\<lambda>routes.
     io_fold (\<lambda>p plan. if canonical p \<noteq> peer then push_bypass L tunnel (canonical p) plan
                       else io_return plan) routes plan)))"

text \<open>One address: its own mutation and the two routes the kernel adds with it.\<close>

definition address_json :: "string \<Rightarrow> ip_prefix \<Rightarrow> json" where
  "address_json device a =
     (let v = jobject [(''local'', JString (show_ip (address a))),
                       (''prefixlen'', JInt (uint (prefix a))), (''scope'', JString ''global'')]
      in if is_ipv4 (address a) then jset ''label'' (JString device) v else v)"

definition keep_nodad :: "mutation \<Rightarrow> mutation" where
  "keep_nodad m =
     (case before m of
        Some v \<Rightarrow> (case jget ''nodad'' v of
                     Some flag \<Rightarrow> m\<lparr>intended := map_option (jset ''nodad'' flag) (intended m)\<rparr>
                   | None \<Rightarrow> m)
      | None \<Rightarrow> m)"

definition with_source :: "ip_addr \<Rightarrow> json \<Rightarrow> json" where
  "with_source a v = (if is_ipv4 a then jset ''prefsrc'' (JString (show_ip a)) v else v)"

definition connected_route :: "(string \<Rightarrow> u32) \<Rightarrow> string \<Rightarrow> ip_prefix \<Rightarrow> json result" where
  "connected_route ifs device a =
     rbind (intended_route ifs (canonical a) device None
              (Some (if is_ipv6 (address a) then 256 else 0))) (\<lambda>r.
     Inr (with_source (address a) (jset ''protocol'' (JString ''kernel'') r)))"

definition host_text :: "ip_addr \<Rightarrow> string" where
  "host_text a = show_ip a @ ''/'' @ (if is_ipv6 a then ''128'' else ''32'')"

definition local_route :: "(string \<Rightarrow> u32) \<Rightarrow> string \<Rightarrow> ip_prefix \<Rightarrow> json result" where
  "local_route ifs device a =
     rbind (intended_route ifs (host_text (address a)) device None (Some 0)) (\<lambda>r.
     Inr (with_source (address a)
       (jset ''scope'' (JString (if is_ipv6 (address a) then ''global'' else ''host''))
         (jset ''type'' (JString ''local'') (jset ''protocol'' (JString ''kernel'') r)))))"

definition plan_address ::
  "('k, 'z) linux_os_scheme \<Rightarrow> string \<Rightarrow> ip_prefix \<Rightarrow> mutation list \<Rightarrow> ('k, mutation list) io" where
  "plan_address L device a plan =
     (if is_ipv4 (address a) \<and> prefix a \<noteq> 32
      then io_fail (net_failure ''vpnc point-to-point IPv4 requires a /32 address'')
      else
      io_bind (linux_mutation L ''linux-address'' (device @ ''|'' @ show_prefix a)
                 (address_json device a)) (\<lambda>m.
      let item = keep_nodad m in
      if before item \<noteq> None \<and> before item \<noteq> intended item
      then io_fail (net_failure
        ''Existing tunnel address has attributes outside the negotiated contract'')
      else
      io_bind (io_get (lo_index L)) (\<lambda>ifs.
      io_bind (io_lift (connected_route ifs device a)) (\<lambda>connected.
      io_bind (add_route L ''main'' (canonical a) connected (plan @ [item])) (\<lambda>plan.
      io_bind (io_get (lo_index L)) (\<lambda>ifs.
      io_bind (io_lift (local_route ifs device a)) (\<lambda>local.
      add_route L ''local'' (host_text (address a)) local plan)))))))"

definition plan_tunnel_route ::
  "('k, 'z) linux_os_scheme \<Rightarrow> network_config \<Rightarrow> ip_prefix \<Rightarrow> mutation list \<Rightarrow> ('k, mutation list) io" where
  "plan_tunnel_route L c p plan =
     (if list_ex (\<lambda>a. canonical a = canonical p) (addresses c) then io_return plan
      else
      io_bind (io_get (lo_index L)) (\<lambda>ifs.
      io_bind (io_lift (intended_route ifs (canonical p) (if_name (interface c)) None None)) (\<lambda>route.
      add_route L ''main'' (canonical p) route plan)))"

definition dns_full :: "network_config \<Rightarrow> bool" where
  "dns_full c \<longleftrightarrow> split_dns c = []
     \<and> (full_tunnel_ipv4 c \<or> full_tunnel_ipv6 c \<or> list_ex (\<lambda>p. prefix p = 0) (split_includes c))"

fun routing_domains :: "string list \<Rightarrow> string list \<Rightarrow> string list" where
  "routing_domains ds [] = ds"
| "routing_domains ds (d # rest) =
     routing_domains (if d \<notin> set ds \<and> (CHR ''~'' # d) \<notin> set ds then ds @ [CHR ''~'' # d] else ds) rest"

definition dns_domains :: "network_config \<Rightarrow> string list" where
  "dns_domains c =
     routing_domains (unique (map bare_domain (search_domains c))) (map bare_domain (split_dns c))
     @ (if dns_full c then [''~.''] else [])"

definition resolvconf_text :: "network_config \<Rightarrow> string" where
  "resolvconf_text c =
     concat (map (\<lambda>s. ''nameserver '' @ show_ip s @ [CHR 0x0A]) (dns_servers c))
     @ (if search_domains c \<noteq> [] then ''search '' @ join '' '' (search_domains c) @ [CHR 0x0A] else [])"

definition plan_dns ::
  "('k, 'z) linux_os_scheme \<Rightarrow> network_config \<Rightarrow> mutation list \<Rightarrow> ('k, mutation list) io" where
  "plan_dns L c plan =
     (let name = if_name (interface c) in
      if dns_servers c = [] then io_return plan
      else
      io_bind (resolver_kind L) (\<lambda>k.
      if k = ''resolved'' then
        io_bind (push_mutation L ''linux-dns'' name
          (JArray (map JString (unique (map show_ip (dns_servers c))))) plan) (\<lambda>plan.
        io_bind (push_mutation L ''linux-domains'' name
          (JArray (map JString (dns_domains c))) plan) (\<lambda>plan.
        push_mutation L ''linux-default-dns'' name (JBool (dns_full c)) plan))
      else if k = ''resolvconf'' then
        (if split_dns c \<noteq> []
         then io_fail (net_failure ''resolvconf cannot represent split DNS routing domains'')
         else push_mutation L ''linux-resolvconf'' name (JString (resolvconf_text c)) plan)
      else io_fail (net_failure ''Unsupported resolver'')))"

definition linux_plan :: "('k, 'z) linux_os_scheme \<Rightarrow> network_config \<Rightarrow> ('k, mutation list) io" where
  "linux_plan L c =
     (let name = if_name (interface c) in
     io_bind (plan_bypasses L c) (\<lambda>plan.
     io_bind (push_mutation L ''linux-mtu'' name (JInt (uint (mtu c))) plan) (\<lambda>plan.
     io_bind (io_get (\<lambda>k. lo_exists L k (addrgen_path name))) (\<lambda>present.
     io_bind (if present then push_mutation L ''linux-addrgen'' name (JInt 1) plan
              else io_return plan) (\<lambda>plan.
     io_bind (push_mutation L ''linux-up'' name (JBool True) plan) (\<lambda>plan.
     io_bind (io_fold (plan_address L name) (addresses c) plan) (\<lambda>plan.
     io_bind (io_lift (tunnel_routes c)) (\<lambda>routes.
     io_bind (io_fold (plan_tunnel_route L c) routes plan) (\<lambda>plan.
     plan_dns L c plan)))))))))"

section \<open>Implicit routes and the observation\<close>

definition owned_destination :: "network_config \<Rightarrow> string \<Rightarrow> string \<Rightarrow> bool" where
  "owned_destination c table destination \<longleftrightarrow>
     list_ex (\<lambda>a. (if table = ''local'' then host_text (address a) else canonical a) = destination)
       (addresses c)"

definition linux_implicit ::
  "network_config \<Rightarrow> key \<Rightarrow> json option \<Rightarrow> json option \<Rightarrow> bool" where
  "linux_implicit c k current was \<longleftrightarrow>
     key_kind k = ''linux-route''
     \<and> (case (route_parts (key_name k), current, was) of
          (Inr (table, destination), Some (JArray now), Some (JArray old)) \<Rightarrow>
            owned_destination c table destination
            \<and> list_all (\<lambda>v. v \<in> set now) old
            \<and> list_all (\<lambda>v. v \<in> set old
                 \<or> jindex v ''protocol'' = JString ''kernel''
                   \<and> jindex v ''dev'' = JString (if_name (interface c))) now
        | _ \<Rightarrow> False)"

definition observed_address :: "json \<Rightarrow> string result" where
  "observed_address v =
     rbind (json_text (jindex v ''local'')) (\<lambda>l.
     rbind (ok_or (net_failure ''Invalid observed address prefix'') (as_u64 (jindex v ''prefixlen'')))
       (\<lambda>n. Inr (l @ ''/'' @ show_nat (nat n))))"

definition observed_route :: "string \<Rightarrow> json \<Rightarrow> string result" where
  "observed_route fam row =
     rbind (json_text (jindex row ''dst'')) (\<lambda>dst.
     Inr (if dst = ''default'' then (if fam = ''-6'' then ''::/0'' else ''0.0.0.0/0'') else dst))"

definition family_routes ::
  "('k, 'z) linux_os_scheme \<Rightarrow> string \<Rightarrow> string \<Rightarrow> ('k, string list) io" where
  "family_routes L name fam =
     io_bind (json_run L [fam, ''-j'', ''route'', ''show'', ''dev'', name]) (\<lambda>rows.
     io_lift (rbind (ok_or (net_failure ''Invalid observed routes'') (as_array rows))
       (map_result (observed_route fam))))"

definition record_lines :: "string \<Rightarrow> string list \<times> string list" where
  "record_lines record =
     (let ls = rust_lines record in
      (concat (map (\<lambda>l. case strip_prefix ''nameserver '' l of Some v \<Rightarrow> [v] | None \<Rightarrow> []) ls),
       concat (map (\<lambda>l. case strip_prefix ''search '' l of Some v \<Rightarrow> split_ascii_whitespace v | None \<Rightarrow> [])
                 ls)))"

definition observed_resolver ::
  "('k, 'z) linux_os_scheme \<Rightarrow> string \<Rightarrow> ('k, string list \<times> string list) io" where
  "observed_resolver L name =
     io_bind (resolver_kind L) (\<lambda>k.
     if k = ''resolved'' then
       io_bind (resolver_value L ''linux-dns'' name) (\<lambda>dns.
       io_bind (io_lift (json_strings dns)) (\<lambda>servers.
       io_bind (resolver_value L ''linux-domains'' name) (\<lambda>dom.
       io_bind (io_lift (json_strings dom)) (\<lambda>domains.
       io_return (servers, filter (\<lambda>s. \<not> starts_with ''~'' s) domains)))))
     else if k = ''resolvconf'' then
       io_bind (resolvconf_record L name) (\<lambda>record.
       io_bind (io_lift (transpose_result json_text record)) (\<lambda>text.
       io_return (record_lines (case text of Some t \<Rightarrow> t | None \<Rightarrow> []))))
     else io_fail (net_failure ''Unsupported resolver observation''))"

definition linux_observe ::
  "('k, 'z) linux_os_scheme \<Rightarrow> network_config \<Rightarrow> ('k, network_observation) io" where
  "linux_observe L c =
     (let name = if_name (interface c) in
     io_bind (link_state L name) (\<lambda>state.
     io_bind (io_lift (ok_or (net_failure ''Invalid interface address observation'')
                        (as_array (jindex state ''addr_info'')))) (\<lambda>entries.
     io_bind (io_lift (map_result observed_address
                        (filter (\<lambda>v. \<not> unusable_address v) entries))) (\<lambda>addrs.
     io_bind (family_routes L name ''-4'') (\<lambda>routes4.
     io_bind (family_routes L name ''-6'') (\<lambda>routes6.
     io_bind (observed_resolver L name) (\<lambda>(servers, domains).
     io_return \<lparr>ob_interface = name, ob_addresses = addrs, ob_dns_servers = servers,
       ob_search_domains = domains, ob_routes = routes4 @ routes6, ob_transport = []\<rparr>)))))))"

text \<open>The Linux adapter as the back end of \<open>unix.rs\<close>; the shell and the poll count stay open.\<close>

definition linux_native ::
  "('k, 'z) linux_os_scheme \<Rightarrow> ((string \<times> string) list \<Rightarrow> ('k, shell_run) io) \<Rightarrow> nat \<Rightarrow> 'k native" where
  "linux_native L shell polls =
     \<lparr>nt_index = lo_index L, nt_read = linux_read L, nt_write = linux_write L,
      nt_plan = linux_plan L, nt_observe = linux_observe L, nt_implicit = linux_implicit,
      nt_automatic = (\<lambda>a b. a = b), nt_macos = False, nt_script = lo_script L,
      nt_shell = shell, nt_polls = polls\<rparr>"

end
