(* ===== verification/LinuxPlan.thy ===== *)
theory LinuxPlan
  imports LinuxNet Contracts "HOL-Library.Multiset"
begin

text \<open>
  The plans of the Linux adapter and the lifecycle: every plan it returns is sorted into groups, each
  planned mutation in exactly one, and the environment of the shell can be made from it.
\<close>

section \<open>What an operation returns\<close>

definition yields :: "('m, 'a) io \<Rightarrow> ('a \<Rightarrow> bool) \<Rightarrow> bool" where
  "yields f Q \<longleftrightarrow> (\<forall>m x m'. f m = (Done x, m') \<longrightarrow> Q x)"

named_theorems yields_rules \<open>what the combinators return\<close>

lemma yieldsD: "yields f Q \<Longrightarrow> f m = (Done x, m') \<Longrightarrow> Q x"
  by (auto simp: yields_def)

lemma yields_any: "yields f (\<lambda>_. True)"
  by (simp add: yields_def)

lemma yields_bind:
  "yields f P \<Longrightarrow> (\<And>x. P x \<Longrightarrow> yields (g x) Q) \<Longrightarrow> yields (io_bind f g) Q"
  by (fastforce simp: yields_def io_bind_def split: prod.splits outcome.splits)

lemma yields_then [yields_rules]: "(\<And>x. yields (g x) Q) \<Longrightarrow> yields (io_bind f g) Q"
  by (rule yields_bind [OF yields_any])

lemma yields_return [yields_rules]: "Q x \<Longrightarrow> yields (io_return x) Q"
  by (simp add: yields_def io_return_def)

lemma yields_fail [yields_rules]: "yields (io_fail e) Q"
  by (simp add: yields_def io_fail_def)

lemma yields_lift [yields_rules]: "(\<And>x. r = Inr x \<Longrightarrow> Q x) \<Longrightarrow> yields (io_lift r) Q"
  by (auto simp: yields_def io_lift_def split: sum.splits)

lemma yields_if [yields_rules]:
  "(b \<Longrightarrow> yields f Q) \<Longrightarrow> (\<not> b \<Longrightarrow> yields g Q) \<Longrightarrow> yields (if b then f else g) Q"
  by simp

lemma yields_fold:
  "(\<And>x acc. x \<in> set xs \<Longrightarrow> Q acc \<Longrightarrow> yields (f x acc) Q) \<Longrightarrow> Q acc \<Longrightarrow> yields (io_fold f xs acc) Q"
proof (induction xs arbitrary: acc)
  case (Cons x xs)
  have "yields (io_fold f xs y) Q" if "Q y" for y
    using Cons.IH [OF Cons.prems(1) that] by simp
  then show ?case
    using Cons.prems by (auto intro: yields_bind [where P = Q])
qed (simp add: yields_return)

section \<open>The keys of a plan\<close>

text \<open>The keys the lifecycle can sort: kinds bound to the interface, and routes of a prefix.\<close>

definition routable :: "string \<Rightarrow> bool" where
  "routable name \<longleftrightarrow> CHR ''/'' \<in> set (last_piece (CHR ''|'') name)"

definition sortable_kind :: "string \<Rightarrow> bool" where
  "sortable_kind k \<longleftrightarrow>
     k = ''linux-resolvconf''
     \<or> (\<exists>base \<in> {''linux-mtu'', ''linux-up'', ''linux-address'', ''linux-addrgen'', ''linux-dns'',
                  ''linux-domains'', ''linux-default-dns''}. \<exists>i. k = base @ ''@'' @ i)"

definition sortable :: "mutation \<Rightarrow> bool" where
  "sortable m \<longleftrightarrow>
     (key_kind (mut_key m) = ''linux-route'' \<and> routable (key_name (mut_key m)))
     \<or> sortable_kind (key_kind (mut_key m))"

lemma digit_not_bar: "n < 10 \<Longrightarrow> char_of (48 + int n) \<noteq> CHR ''|''"
proof
  assume n: "n < 10" and c: "char_of (48 + int n) = CHR ''|''"
  from c have "(of_char (char_of (48 + int n) :: char) :: int) = of_char (CHR ''|'')" by simp
  then show False using n by simp
qed

lemma show_nat_no_bar: "CHR ''|'' \<notin> set (show_nat n)"
proof (induction n rule: show_nat.induct)
  case (1 n)
  then show ?case
    using digit_not_bar [of n] digit_not_bar [of "n mod 10"] by (subst show_nat.simps) (auto simp: zmod_int)
qed

lemma last_piece_Cons: "set (last_piece d s) \<subseteq> set (last_piece d (c # s))"
proof (cases "d \<in> set s")
  case True
  then show ?thesis
    using takeWhile_append1 [of d "rev s" "\<lambda>x. x \<noteq> d" "[c]"] by (simp add: last_piece_def)
next
  case False
  then have "takeWhile (\<lambda>x. x \<noteq> d) (rev s @ [c]) = rev s @ takeWhile (\<lambda>x. x \<noteq> d) [c]"
    by (intro takeWhile_append2) auto
  moreover have "takeWhile (\<lambda>x. x \<noteq> d) (rev s) = rev s"
    using False by (auto simp: takeWhile_eq_all_conv)
  ultimately show ?thesis
    unfolding last_piece_def rev.simps set_rev by (simp only: set_append) blast
qed

lemma last_piece_whole: "d \<notin> set s \<Longrightarrow> last_piece d s = s"
  unfolding last_piece_def by (subst takeWhile_eq_all_conv [THEN iffD2]) auto

lemma routable_Cons [simp]: "routable s \<Longrightarrow> routable (c # s)"
  using last_piece_Cons unfolding routable_def by blast

lemma routable_append [simp]: "routable s \<Longrightarrow> routable (t @ s)"
  by (induction t) simp_all

lemma routable_slash: "CHR ''|'' \<notin> set d \<Longrightarrow> routable (CHR ''/'' # d)"
  by (simp add: routable_def last_piece_whole)

lemma routable_names [simp]:
  "routable (canonical p)" "routable (host_text a)" "routable (peer_prefix c)"
  "routable (linux_route_key (canonical p))" "routable (linux_route_key (peer_prefix c))"
  using show_nat_no_bar
  by (auto simp: canonical_def host_text_def linux_route_key_def peer_prefix_def routable_slash)

lemma linux_mutation_yields:
  assumes "k = ''linux-route'' \<and> routable name \<or> k \<in> {''linux-mtu'', ''linux-up'', ''linux-address'',
      ''linux-addrgen'', ''linux-dns'', ''linux-domains'', ''linux-default-dns'', ''linux-resolvconf''}"
  shows "yields (linux_mutation L k name v) sortable"
  using assms unfolding linux_mutation_def plan_mutation_def Let_def
  by (intro yields_then yields_bind [where P = "\<lambda>k'. k' = k \<and> k \<notin> set bound_kinds
          \<or> k \<in> set bound_kinds \<and> (\<exists>i. k' = k @ ''@'' @ i)"] yields_lift yields_return)
    (auto simp: mutation_kind_def result_simps sortable_def sortable_kind_def bound_kinds_def
      split: if_splits)

abbreviation sorted_plan :: "mutation list \<Rightarrow> bool" where
  "sorted_plan plan \<equiv> list_all sortable plan"

lemma push_mutation_yields:
  assumes "k = ''linux-route'' \<and> routable name \<or> k \<in> {''linux-mtu'', ''linux-up'', ''linux-address'',
      ''linux-addrgen'', ''linux-dns'', ''linux-domains'', ''linux-default-dns'', ''linux-resolvconf''}"
    and "sorted_plan plan"
  shows "yields (push_mutation L k name v plan) sorted_plan"
  unfolding push_mutation_def
  by (rule yields_bind [OF linux_mutation_yields [OF assms(1)]])
    (simp add: yields_return assms(2))

lemma extend_route_sorted:
  "extend_route L name route plan = Inr plan' \<Longrightarrow> sorted_plan plan \<Longrightarrow> sorted_plan plan'"
  by (induction plan arbitrary: plan') (auto simp: result_simps sortable_def split: if_splits)

lemma add_route_yields:
  assumes "routable (table @ ''|'' @ net)" "sorted_plan plan"
  shows "yields (add_route L table net route plan) sorted_plan"
  unfolding add_route_def Let_def
  by (intro yields_if yields_bind [OF linux_mutation_yields] yields_bind [OF yields_any]
        yields_lift yields_return)
    (use assms extend_route_sorted in \<open>auto\<close>)

lemma plan_bypasses_yields: "yields (plan_bypasses L c) sorted_plan"
  unfolding plan_bypasses_def Let_def push_bypass_def
  by (intro yields_bind [where P = sorted_plan] yields_then yields_if yields_fold yields_return
        push_mutation_yields) auto

lemma plan_address_yields:
  assumes "sorted_plan plan"
  shows "yields (plan_address L device a plan) sorted_plan"
proof -
  have "sortable (keep_nodad m)" if "sortable m" for m
    using that by (auto simp: keep_nodad_def sortable_def split: option.splits)
  then show ?thesis
    unfolding plan_address_def Let_def
    by (intro yields_if yields_fail yields_bind [OF linux_mutation_yields] yields_then
          yields_bind [OF add_route_yields] add_route_yields)
      (auto simp: assms)
qed

lemma plan_tunnel_route_yields:
  "sorted_plan plan \<Longrightarrow> yields (plan_tunnel_route L c p plan) sorted_plan"
  unfolding plan_tunnel_route_def
  by (intro yields_if yields_return yields_then add_route_yields) simp_all

lemma plan_dns_yields: "sorted_plan plan \<Longrightarrow> yields (plan_dns L c plan) sorted_plan"
  unfolding plan_dns_def Let_def
  by (intro yields_if yields_return yields_fail yields_then
        yields_bind [OF push_mutation_yields] push_mutation_yields) auto

lemma linux_plan_yields: "yields (linux_plan L c) sorted_plan"
  unfolding linux_plan_def Let_def
  by (intro yields_bind [OF plan_bypasses_yields] yields_bind [OF push_mutation_yields]
        yields_bind [where P = sorted_plan] yields_then yields_if yields_return yields_fold
        push_mutation_yields plan_address_yields plan_tunnel_route_yields plan_dns_yields)
    simp_all

section \<open>The groups\<close>

text \<open>Every mutation so far is in exactly one group, and routes carry a prefix.\<close>

definition grouped :: "nat \<Rightarrow> inventory \<Rightarrow> bool" where
  "grouped n iv \<longleftrightarrow>
     distinct (map fst (inv_groups iv))
     \<and> mset (concat (map snd (inv_groups iv))) = mset [0..<n]
     \<and> list_all (\<lambda>p. CHR ''/'' \<in> set p) (inv_excludes iv @ inv_includes iv)"

lemma push_group_more_fields [simp]:
  "inv_excludes (push_group g i iv) = inv_excludes iv"
  "inv_includes (push_group g i iv) = inv_includes iv"
  by (simp_all add: push_group_def)

lemma push_into:
  "distinct (map fst gs) \<Longrightarrow> map_of gs g \<noteq> None \<Longrightarrow>
     map fst (map (\<lambda>(h, is). if h = g then (h, is @ [i]) else (h, is)) gs) = map fst gs
     \<and> mset (concat (map snd (map (\<lambda>(h, is). if h = g then (h, is @ [i]) else (h, is)) gs)))
       = add_mset i (mset (concat (map snd gs)))"
proof (induction gs)
  case (Cons x gs)
  obtain h "is" where x: "x = (h, is)" by (cases x)
  have same: "map (\<lambda>(k, is). if k = h then (k, is @ [i]) else (k, is)) gs = gs"
    if "h \<notin> fst ` set gs"
    using that by (induction gs) force+
  show ?case
    using Cons x same by (cases "h = g") auto
qed simp

lemma push_group_grouped:
  assumes "grouped n iv"
  shows "grouped (Suc n) (push_group g n iv)"
proof (cases "map_of (inv_groups iv) g")
  case None
  with assms show ?thesis
    by (auto simp: grouped_def push_group_def map_of_eq_None_iff)
next
  case (Some "is")
  with assms push_into [of "inv_groups iv" g n] show ?thesis
    by (simp add: grouped_def push_group_def del: map_map mset_concat)
qed

lemma grouped_fields:
  "grouped n iv \<Longrightarrow> grouped n (iv\<lparr>inv_resolver := x\<rparr>)"
  "grouped n iv \<Longrightarrow> CHR ''/'' \<in> set p \<Longrightarrow> grouped n (iv\<lparr>inv_excludes := inv_excludes iv @ [p]\<rparr>)"
  "grouped n iv \<Longrightarrow> CHR ''/'' \<in> set p \<Longrightarrow> grouped n (iv\<lparr>inv_includes := inv_includes iv @ [p]\<rparr>)"
  by (cases iv; simp add: grouped_def)+

lemma interface_kinds:
  assumes "k \<in> {''linux-mtu'', ''linux-up'', ''linux-address'', ''linux-addrgen''}"
    "key_kind (mut_key m) = k @ ''@'' @ x"
  shows "interface_key m"
  using assms by (auto simp: interface_key_def starts_with_def)

lemma resolved_kinds:
  assumes "k \<in> {''linux-dns'', ''linux-domains'', ''linux-default-dns''}"
  shows "(k @ ''@'' @ x \<noteq> ''linux-route'' \<and> k @ ''@'' @ x \<noteq> ''mac-route''
    \<and> \<not> starts_with ''linux-resolvconf'' (k @ ''@'' @ x))
    \<and> (starts_with ''linux-dns@'' (k @ ''@'' @ x) \<or> starts_with ''linux-domains@'' (k @ ''@'' @ x)
      \<or> starts_with ''linux-default-dns@'' (k @ ''@'' @ x))"
  using assms by (auto simp: starts_with_def)

lemma classify_sortable:
  assumes "sortable m" "grouped n iv"
  shows "\<exists>iv'. classify c first n m iv = Inr iv' \<and> grouped (Suc n) iv'"
proof (cases "interface_key m \<or> automatic_route c first n m")
  case True
  then show ?thesis using push_group_grouped [OF assms(2)] by (simp add: classify_def)
next
  case plain: False
  let ?k = "key_kind (mut_key m)"
  consider "?k = ''linux-route''" "routable (key_name (mut_key m))" | "?k = ''linux-resolvconf''"
    | k x where "k \<in> {''linux-dns'', ''linux-domains'', ''linux-default-dns''}" "?k = k @ ''@'' @ x"
    using assms(1) plain interface_kinds unfolding sortable_def sortable_kind_def by blast
  then show ?thesis
  proof cases
    case 1
    with plain show ?thesis
      using push_group_grouped [OF assms(2)] push_group_grouped [OF grouped_fields(2) [OF assms(2)]]
        push_group_grouped [OF grouped_fields(3) [OF assms(2)]]
      by (simp add: classify_def Let_def routable_def)
  next
    case 2
    with plain show ?thesis
      using push_group_grouped [OF grouped_fields(1) [OF assms(2)]]
      by (simp add: classify_def starts_with_def)
  next
    case 3
    with plain resolved_kinds [OF 3(1), of x] show ?thesis
      using push_group_grouped [OF grouped_fields(1) [OF assms(2)]]
      by (simp only: classify_def Let_def if_False if_True simp_thms 3(2)) blast
  qed
qed

lemma classify_all_sortable:
  "sorted_plan ms \<Longrightarrow> grouped n iv
    \<Longrightarrow> \<exists>iv'. classify_all c first n ms iv = Inr iv' \<and> grouped (n + length ms) iv'"
proof (induction ms arbitrary: n iv)
  case (Cons m ms)
  then obtain x where "classify c first n m iv = Inr x" "grouped (Suc n) x"
    using classify_sortable [of m n iv c first] by auto
  with Cons.IH [of "Suc n" x] Cons.prems show ?case by (auto simp: result_simps)
qed simp

lemma grouped_start:
  "grouped 0 \<lparr>inv_groups = [], inv_excludes = [], inv_includes = [], inv_resolver = x\<rparr>"
  by (simp add: grouped_def)

lemma split_variables_ok:
  assumes "list_all (\<lambda>p. CHR ''/'' \<in> set p) ps"
  shows "\<exists>vars. split_variables suffix ps v6 = Inr vars"
proof -
  have "\<exists>vs. route_variables base (i, p) = Inr vs" if "CHR ''/'' \<in> set p" for base i p
    using that split_once_None [of "CHR ''/''" p]
    by (cases "split_once (CHR ''/'') p") (auto simp: route_variables_def result_simps ok_or_def Let_def)
  then have "\<exists>vs. map_result (route_variables base) (List.enumerate n qs) = Inr vs"
    if "list_all (\<lambda>p. CHR ''/'' \<in> set p) qs" for base n qs
    using that
    by (induction qs arbitrary: n) (fastforce simp: result_simps)+
  then show ?thesis
    using assms by (fastforce simp: split_variables_def Let_def result_simps list_all_iff)
qed

lemma merge_subset: "merge_mutations acc items = Inr ms \<Longrightarrow> set ms \<subseteq> set acc \<union> set items"
  by (induction acc items rule: merge_mutations.induct) (force split: option.splits if_splits)+

lemma merge_distinct:
  "merge_mutations acc items = Inr ms \<Longrightarrow> distinct (map mut_key acc) \<Longrightarrow> distinct (map mut_key ms)"
proof (induction acc items rule: merge_mutations.induct)
  case (2 acc item rest)
  show ?case
  proof (cases "find (\<lambda>m. mut_key m = mut_key item) acc")
    case None
    then have "mut_key item \<notin> mut_key ` set acc" by (auto simp: find_None_iff)
    with 2 None show ?thesis by simp
  qed (use 2 in \<open>simp split: if_splits\<close>)
qed simp

text \<open>
  What \<open>unix.rs\<close> relies on of the adapter of a platform: its plans hold only keys the lifecycle can
  sort. Whatever adapter keeps this, its merged plans fit the lifecycle.
\<close>

locale lifecycle_adapter =
  fixes plan_of :: "network_config \<Rightarrow> ('k, mutation list) io"
  assumes plan_of_sorted: "yields (plan_of c) sorted_plan"
begin

lemma merged_plan:
  assumes "nt_plan N = plan_of"
  shows "yields (unix_plan N c) (\<lambda>ms. sorted_plan ms \<and> distinct (map mut_key ms))"
proof -
  have "yields (io_lift (merge_mutations [] items)) (\<lambda>ms. sorted_plan ms \<and> distinct (map mut_key ms))"
    if "sorted_plan items" for items
    using that merge_subset [of "[]" items] merge_distinct [of "[]" items]
    by (intro yields_lift) (fastforce simp: list_all_iff)
  then show ?thesis
    unfolding unix_plan_def assms
    by (intro yields_bind [where f = "plan_of c", OF plan_of_sorted] yields_then yields_if
        yields_fail) simp_all
qed

lemma plan_fits:
  assumes "nt_plan N = plan_of" and "unix_plan N c k = (Done ms, k')"
  shows "distinct (map mut_key ms)
    \<and> (\<exists>iv. build_inventory c ms = Inr iv
        \<and> mset (concat (map snd (inv_groups iv))) = mset [0..<length ms]
        \<and> (\<forall>reason \<in> {Connect, Reconnect, DisconnectReason}.
             \<exists>env. shell_environment c reason iv = Inr env))"
proof -
  have ms: "sorted_plan ms" "distinct (map mut_key ms)"
    using yieldsD [OF merged_plan [OF assms(1)] assms(2)] by simp_all
  obtain iv where iv: "build_inventory c ms = Inr iv" "grouped (length ms) iv"
    using classify_all_sortable [OF ms(1) grouped_start, of c "first_interface ms" "''none''"]
    by (auto simp: build_inventory_def)
  have "list_all (\<lambda>p. CHR ''/'' \<in> set p) (inv_excludes iv)" "list_all (\<lambda>p. CHR ''/'' \<in> set p) (inv_includes iv)"
    using iv(2) by (simp_all add: grouped_def)
  note vars = split_variables_ok [OF this(1)] split_variables_ok [OF this(2)]
  have "\<exists>env. shell_environment c reason iv = Inr env"
    if "reason \<in> {Connect, Reconnect, DisconnectReason}" for reason
    using that vars [of "''EXC''" False] vars [of "''EXC''" True] vars [of "''INC''" False]
      vars [of "''INC''" True]
    by (auto simp: shell_environment_def reason_word_def result_simps)
  with ms iv show ?thesis by (auto simp: grouped_def)
qed

end

interpretation linux: lifecycle_adapter "linux_plan L" for L
  by unfold_locales (rule linux_plan_yields)

text \<open>C21: every plan of the Linux adapter names each piece of network state once and can be run
  by the lifecycle: each mutation falls into exactly one group of operations the shell may ask for,
  and the environment of the shell can be made for every reason.\<close>

theorem linux_plan_fits_lifecycle:
  assumes "unix_plan (linux_native L shell polls) c k = (Done ms, k')"
  shows "distinct (map mut_key ms)
    \<and> (\<exists>iv. build_inventory c ms = Inr iv
        \<and> mset (concat (map snd (inv_groups iv))) = mset [0..<length ms]
        \<and> (\<forall>reason \<in> {Connect, Reconnect, DisconnectReason}.
             \<exists>env. shell_environment c reason iv = Inr env))"
  by (rule linux.plan_fits [OF _ assms]) (simp add: linux_native_def)

definition sample_tools :: "unit linux_os" where
  "sample_tools =
     \<lparr>lo_index = (\<lambda>_ _. 7), lo_is_file = (\<lambda>_ _. True), lo_exists = (\<lambda>_ _. False),
      lo_read_text = (\<lambda>_ _. None), lo_read_link = (\<lambda>_ _. None),
      lo_exec = (\<lambda>program args input mutate.
        io_return \<lparr>exit_status = Some 0, status_text = [],
          stdout = (if ''get'' \<in> set args then ''get'' else if ''address'' \<in> set args then ''link''
                    else []), stderr = []\<rparr>),
      lo_script = io_return (),
      lo_parse = (\<lambda>s. Some (if s = ''get''
        then JArray [jobject [(''dev'', JString ''eth0''), (''gateway'', JString ''192.0.2.254'')]]
        else if s = ''link''
        then JArray [jobject [(''addr_info'', JArray []), (''mtu'', JInt 1500), (''flags'', JArray [])]]
        else JArray [])),
      lo_print = (\<lambda>_. [])\<rparr>"

definition sample_network :: network_config where
  "sample_network =
     \<lparr>interface = \<lparr>if_name = ''tun0'', if_index = 7\<rparr>, mtu = 1400,
      addresses = [\<lparr>address = V4 0x0A000002, prefix = 32\<rparr>], ipv4_subnet = None, dns_servers = [],
      search_domains = [], split_dns = [], full_tunnel_ipv4 = True, full_tunnel_ipv6 = False,
      split_includes = [], split_excludes = [], transport_peer = V4 0xC6336401\<rparr>"

definition sample_native :: "unit native" where
  "sample_native = linux_native sample_tools
     (\<lambda>_. io_return \<lparr>sh_spawned = True, sh_events = [], sh_exited = True, sh_success = True\<rparr>) 10"

lemma sample_plan_made:
  "\<exists>ms. unix_plan sample_native sample_network () = (Done ms, ()) \<and> length ms = 8"
proof -
  have "case unix_plan sample_native sample_network () of (Done ms, _) \<Rightarrow> length ms = 8 | _ \<Rightarrow> False"
    by code_simp
  then show ?thesis by (auto split: prod.splits outcome.splits)
qed

theorem linux_plan_fits_lifecycle_witness:
  "\<exists>ms. unix_plan sample_native sample_network () = (Done ms, ()) \<and> length ms = 8
     \<and> distinct (map mut_key ms)
     \<and> (\<exists>iv. build_inventory sample_network ms = Inr iv
        \<and> mset (concat (map snd (inv_groups iv))) = mset [0..<8])"
proof -
  obtain ms where ms: "unix_plan sample_native sample_network () = (Done ms, ())" "length ms = 8"
    using sample_plan_made by blast
  then show ?thesis
    using linux_plan_fits_lifecycle [OF ms(1) [unfolded sample_native_def]] by metis
qed

end
