(* ===== verification/LinuxProps.thy ===== *)
theory LinuxProps
  imports LinuxPlan
begin

text \<open>
  Properties of the Linux adapter: route writes never open a gap, bypass routes follow the physical
  network, and the per-link search domains.
\<close>

section \<open>Route writes\<close>

text \<open>The kernel keeps one route per metric of a destination; \<open>replace\<close> fills the slot of a route
  in one step and \<open>del\<close> empties it.\<close>

definition slot_of :: "json \<Rightarrow> json" where
  "slot_of r = jindex r ''metric''"

definition table_of :: "json list \<Rightarrow> json \<rightharpoonup> json" where
  "table_of rs = map_of (map (\<lambda>r. (slot_of r, r)) rs)"

definition kernel_step :: "string \<times> json \<Rightarrow> (json \<rightharpoonup> json) \<Rightarrow> json \<rightharpoonup> json" where
  "kernel_step s t = (case s of (action, r) \<Rightarrow>
     if action = ''replace'' then t(slot_of r \<mapsto> r) else t(slot_of r := None))"

lemma table_of_simps [simp]:
  "table_of [] = Map.empty" "table_of (r # rs) = (table_of rs)(slot_of r \<mapsto> r)"
  by (simp_all add: table_of_def)

lemma table_of_None: "table_of rs s = None \<longleftrightarrow> s \<notin> slot_of ` set rs"
  by (induction rs) auto

lemma table_of_mem: "distinct (map slot_of rs) \<Longrightarrow> r \<in> set rs \<Longrightarrow> table_of rs (slot_of r) = Some r"
  by (induction rs) (auto simp: image_iff)

lemma replaces:
  "distinct (map slot_of rs) \<Longrightarrow> fold kernel_step (map (Pair ''replace'') rs) t = t ++ table_of rs"
proof (induction rs arbitrary: t)
  case (Cons r rs)
  have "slot_of r \<notin> dom (table_of rs)"
    using Cons.prems by (simp add: domIff table_of_None)
  then have swap: "t(slot_of r \<mapsto> r) ++ table_of rs = t ++ table_of (r # rs)"
    by (simp only: map_add_upd_left map_add_upd table_of_simps not_False_eq_True)
  have "kernel_step (''replace'', r) t = t(slot_of r \<mapsto> r)"
    by (simp only: kernel_step_def prod.case if_P refl simp_thms)
  then have "fold kernel_step (map (Pair ''replace'') (r # rs)) t
      = fold kernel_step (map (Pair ''replace'') rs) (t(slot_of r \<mapsto> r))"
    by (simp only: list.map fold_simps)
  also have "\<dots> = t(slot_of r \<mapsto> r) ++ table_of rs"
    using Cons by simp
  finally show ?case unfolding swap .
qed simp

lemma deletes:
  "fold kernel_step (map (Pair ''del'') rs) t = t |` (- slot_of ` set rs)"
  by (induction rs arbitrary: t) (auto simp: kernel_step_def restrict_map_def fun_eq_iff)

lemma route_steps_result:
  assumes "distinct (map slot_of current)" "distinct (map slot_of target)"
  shows "fold kernel_step (route_steps current target) (table_of current) = table_of target"
proof -
  let ?R = "filter (\<lambda>r. r \<notin> set current) target"
  let ?D = "filter (\<lambda>r. \<not> list_ex (\<lambda>v. jindex v ''metric'' = jindex r ''metric'') target) current"
  have dR: "distinct (map slot_of ?R)" using assms(2) by (simp add: distinct_map_filter)
  have D: "slot_of ` set ?D = slot_of ` set current - slot_of ` set target"
    by (auto simp: slot_of_def list_ex_iff image_iff) metis+
  have "fold kernel_step (route_steps current target) (table_of current)
      = (table_of current ++ table_of ?R) |` (- slot_of ` set ?D)"
    using replaces [OF dR] deletes by (simp add: route_steps_def)
  also have "\<dots> = table_of target"
  proof (rule ext)
    fix s
    show "((table_of current ++ table_of ?R) |` (- slot_of ` set ?D)) s = table_of target s"
    proof (cases "s \<in> slot_of ` set target")
      case True
      then obtain t where t: "t \<in> set target" "slot_of t = s" by auto
      have only: "r = t" if "r \<in> set target" "slot_of r = s" for r
        using that t assms(2) by (auto simp: distinct_map dest: inj_onD)
      show ?thesis
      proof (cases "t \<in> set current")
        case True
        have "table_of ?R s = None" using only True by (auto simp: table_of_None)
        moreover have "table_of current s = Some t" using table_of_mem [OF assms(1) True] t(2) by simp
        moreover have "table_of target s = Some t" using table_of_mem [OF assms(2) t(1)] t(2) by simp
        ultimately show ?thesis
          using D t by (auto simp: restrict_map_def map_add_def)
      next
        case False
        then have "table_of ?R s = Some t" using table_of_mem [OF dR, of t] t by simp
        moreover have "table_of target s = Some t" using table_of_mem [OF assms(2) t(1)] t(2) by simp
        ultimately show ?thesis
          using D t by (auto simp: restrict_map_def map_add_def)
      qed
    next
      case False
      then have "table_of target s = None" "table_of ?R s = None" by (auto simp: table_of_None)
      moreover have "s \<in> slot_of ` set ?D \<or> table_of current s = None"
        using False D by (auto simp: table_of_None)
      ultimately show ?thesis by (auto simp: restrict_map_def map_add_def)
    qed
  qed
  finally show ?thesis .
qed

lemma kept_slot:
  assumes "\<And>a r. (a, r) \<in> set steps \<Longrightarrow> a = ''replace'' \<or> slot_of r \<noteq> s" "t s \<noteq> None"
  shows "fold kernel_step steps t s \<noteq> None"
  using assms
proof (induction steps arbitrary: t)
  case (Cons x steps)
  obtain a r where x: "x = (a, r)" by (cases x)
  have "kernel_step x t s \<noteq> None"
    using Cons.prems x by (auto simp: kernel_step_def)
  with Cons show ?case by simp
qed simp


definition sample_route :: "string \<Rightarrow> int \<Rightarrow> json" where
  "sample_route device metric = jobject [(''dev'', JString device), (''metric'', JInt metric)]"


section \<open>Bypass routes\<close>

lemma min_by_Some:
  "min_by f xs = Some x \<Longrightarrow> x \<in> set xs \<and> (\<forall>y\<in>set xs. f x \<le> f y)"
proof (induction xs arbitrary: x)
  case (Cons a xs)
  show ?case
  proof (cases "min_by f xs")
    case None
    then have "xs = []" by (cases xs) (auto split: option.splits if_splits)
    with Cons.prems show ?thesis by simp
  next
    case (Some y)
    with Cons.IH [OF Some] Cons.prems show ?thesis by (auto split: if_splits intro: order_trans)
  qed
qed simp

lemma jset_entry:
  "jget k (jset l x (JObject kvs)) = (if k = l then Some x else jget k (JObject kvs))"
  by (simp add: jset_def)

lemma intended_route_shape:
  assumes "intended_route ifs net device via metric = Inr r"
  shows "(\<exists>kvs. r = JObject kvs) \<and> text_entry ''dev'' r = Some device"
proof -
  obtain kvs where k: "jobject [(''type'', JString ''unicast''), (''protocol'', JString ''boot''),
      (''scope'', JString (if via \<noteq> None \<or> is_v6_text net then ''global'' else ''link'')),
      (''dev'', JString device),
      (''metric'', JInt (case metric of Some n \<Rightarrow> n | None \<Rightarrow> default_metric net))] = JObject kvs"
    "map_of kvs ''dev'' = Some (JString device)"
    by (simp add: jobject_def)
  show ?thesis
    using assms k
    by (auto simp: intended_route_def result_simps Let_def jset_def text_entry_def
        split: if_splits option.splits)
qed

text \<open>C@: a computed bypass never leads into the tunnel, and for a network it uses a row of the
  physical network with the longest prefix among those outside the tunnel.\<close>

theorem bypass_is_physical:
  assumes "bypass_route ifs net tunnel host rows = Inr route"
  shows "\<exists>row\<in>set rows. \<exists>dev. text_entry ''dev'' row = Some dev \<and> dev \<noteq> tunnel
           \<and> text_entry ''dev'' route = Some dev
           \<and> (host \<or> (\<forall>other\<in>set rows. text_entry ''dev'' other \<in> {None, Some tunnel}
                        \<or> covering_length net other \<le> covering_length net row))"
proof -
  obtain row dev where row: "physical_row net tunnel host rows = Inr row"
    and dev: "text_entry ''dev'' row = Some dev" "dev \<noteq> tunnel"
    and base: "\<exists>r. intended_route ifs net dev (text_entry ''gateway'' row)
        (map_option (\<lambda>n. n mod 2 ^ 32) (entry_u64 ''metric'' row)) = Inr r
        \<and> route = (case jget ''prefsrc'' row of Some s \<Rightarrow> jset ''prefsrc'' s r | None \<Rightarrow> r)"
    using assms by (auto simp: bypass_route_def result_simps Let_def split: if_splits)
  from base obtain r where r: "intended_route ifs net dev (text_entry ''gateway'' row)
        (map_option (\<lambda>n. n mod 2 ^ 32) (entry_u64 ''metric'' row)) = Inr r"
      "route = (case jget ''prefsrc'' row of Some s \<Rightarrow> jset ''prefsrc'' s r | None \<Rightarrow> r)" by blast
  have "text_entry ''dev'' route = Some dev"
    using intended_route_shape [OF r(1)] r(2)
    by (auto simp: text_entry_def jset_def split: option.splits)
  moreover have "row \<in> set rows \<and> (host \<or> (\<forall>other\<in>set rows.
      text_entry ''dev'' other \<in> {None, Some tunnel} \<or> covering_length net other \<le> covering_length net row))"
  proof (cases host)
    case True
    with row show ?thesis by (auto simp: physical_row_def split: list.splits if_splits)
  next
    case False
    let ?rows = "filter (\<lambda>row. case text_entry ''dev'' row of Some d \<Rightarrow> d \<noteq> tunnel | None \<Rightarrow> False) rows"
    have m: "min_by (covering_key net) ?rows = Some row"
      using row False by (simp add: physical_row_def result_simps)
    have "covering_length net other \<le> covering_length net row"
      if "other \<in> set rows" "text_entry ''dev'' other \<notin> {None, Some tunnel}" for other
    proof -
      have "other \<in> set ?rows" using that by (auto split: option.splits)
      with min_by_Some [OF m] have "covering_key net row \<le> covering_key net other" by blast
      then show ?thesis by (auto simp: covering_key_def less_eq_prod_def)
    qed
    with min_by_Some [OF m] show ?thesis by auto
  qed
  ultimately show ?thesis using dev by blast
qed

text \<open>The host bypass of the sample: the kernel forwards the transport over \<open>eth0\<close>.\<close>

theorem bypass_is_physical_witness:
  "\<exists>route row. bypass_route (\<lambda>_. 7) ''198.51.100.0/24'' ''tun0'' False
       [jobject [(''dst'', JString ''default''), (''dev'', JString ''eth0'')],
        jobject [(''dst'', JString ''198.51.100.0/24''), (''dev'', JString ''tun0'')]] = Inr route
     \<and> text_entry ''dev'' row = Some ''eth0'' \<and> text_entry ''dev'' route = Some ''eth0''"
proof -
  let ?rows = "[jobject [(''dst'', JString ''default''), (''dev'', JString ''eth0'')],
        jobject [(''dst'', JString ''198.51.100.0/24''), (''dev'', JString ''tun0'')]]"
  have "case bypass_route (\<lambda>_. 7) ''198.51.100.0/24'' ''tun0'' False ?rows of Inr _ \<Rightarrow> True | _ \<Rightarrow> False"
    by code_simp
  then obtain route where r: "bypass_route (\<lambda>_. 7) ''198.51.100.0/24'' ''tun0'' False ?rows = Inr route"
    by (auto split: sum.splits)
  have rows: "set (map (text_entry ''dev'') ?rows) = {Some ''eth0'', Some ''tun0''}"
    by code_simp
  obtain row dev where "row \<in> set ?rows" "text_entry ''dev'' row = Some dev" "dev \<noteq> ''tun0''"
    "text_entry ''dev'' route = Some dev"
    using bypass_is_physical [OF r] by blast
  moreover have "text_entry ''dev'' row \<in> set (map (text_entry ''dev'') ?rows)"
    using \<open>row \<in> set ?rows\<close> by (simp only: set_map imageI)
  ultimately have "text_entry ''dev'' row = Some ''eth0''" "text_entry ''dev'' route = Some ''eth0''"
    unfolding rows by simp_all
  with r show ?thesis by blast
qed

section \<open>The domains of the link\<close>

lemma unique_onto_props:
  "distinct acc \<Longrightarrow> distinct (unique_onto acc xs) \<and> set (unique_onto acc xs) = set acc \<union> set xs"
  by (induction acc xs rule: unique_onto.induct) auto

lemma unique_props: "distinct (unique xs)" "set (unique xs) = set xs"
  using unique_onto_props [of "[]" xs] by (simp_all add: unique_def)

lemma routing_domains_step:
  "distinct ds \<Longrightarrow> distinct (routing_domains ds rest) \<and> set ds \<subseteq> set (routing_domains ds rest)"
proof (induction ds rest rule: routing_domains.induct)
  case (2 ds d rest)
  show ?case
  proof (cases "d \<notin> set ds \<and> CHR ''~'' # d \<notin> set ds")
    case True
    with 2 show ?thesis by simp
  next
    case False
    with 2 show ?thesis by (simp only: routing_domains.simps if_False)
  qed
qed simp

lemma routing_domains_only:
  "set (routing_domains ds rest) \<subseteq> set ds \<union> (#) (CHR ''~'') ` set rest"
proof (induction ds rest rule: routing_domains.induct)
  case (2 ds d rest)
  show ?case
  proof (cases "d \<notin> set ds \<and> CHR ''~'' # d \<notin> set ds")
    case True
    with 2 show ?thesis by (simp only: routing_domains.simps if_True) auto
  next
    case False
    with 2 show ?thesis by (simp only: routing_domains.simps if_False) auto
  qed
qed simp

lemma routing_domains_cover:
  "distinct ds \<Longrightarrow> d \<in> set rest
    \<Longrightarrow> d \<in> set (routing_domains ds rest) \<or> CHR ''~'' # d \<in> set (routing_domains ds rest)"
proof (induction ds rest arbitrary: d rule: routing_domains.induct)
  case (2 ds e rest)
  define ds' where "ds' = (if e \<notin> set ds \<and> CHR ''~'' # e \<notin> set ds then ds @ [CHR ''~'' # e] else ds)"
  have d': "distinct ds'" "e \<in> set ds' \<or> CHR ''~'' # e \<in> set ds'"
    using "2.prems"(1) by (auto simp: ds'_def)
  have "routing_domains ds (e # rest) = routing_domains ds' rest" by (simp add: ds'_def)
  moreover have "set ds' \<subseteq> set (routing_domains ds' rest)"
    using routing_domains_step [OF d'(1)] by blast
  moreover have "d \<in> set rest \<Longrightarrow> d \<in> set (routing_domains ds' rest)
      \<or> CHR ''~'' # d \<in> set (routing_domains ds' rest)"
    using "2.IH" [of d] d'(1) unfolding ds'_def by blast
  ultimately show ?case using "2.prems"(2) d'(2) by (metis set_ConsD subsetD)
qed simp

lemma lower_dot: "to_ascii_lowercase x = CHR ''.'' \<Longrightarrow> x = CHR ''.''"
proof (rule ccontr)
  assume l: "to_ascii_lowercase x = CHR ''.''" and x: "x \<noteq> CHR ''.''"
  then have u: "CHR ''A'' \<le> x" "x \<le> CHR ''Z''" and c: "char_of (of_char x + 32 :: int) = CHR ''.''"
    by (auto simp: to_ascii_lowercase_def is_ascii_upper_def split: if_splits)
  have n: "65 \<le> (of_char x :: nat)" "(of_char x :: nat) \<le> 90"
    using u by (simp_all add: less_eq_char_def)
  have "65 \<le> (of_char x :: int)" "(of_char x :: int) \<le> 90"
    using n unfolding of_nat_of_char [where 'a = int, symmetric] by linarith+
  moreover have "(of_char x + 32 :: int) mod 256 = 46"
    using arg_cong [OF c, of "of_char :: char \<Rightarrow> int"] by simp
  ultimately show False by simp
qed

lemma bare_domain_end: "\<not> ends_with ''.'' (bare_domain s)"
proof -
  let ?d = "dropWhile (\<lambda>c. c = CHR ''.'') (rev s)"
  have b: "rev (bare_domain s) = map to_ascii_lowercase ?d"
    by (simp add: bare_domain_def lower_def trim_end_matches_def rev_map)
  show ?thesis
  proof (cases ?d)
    case Nil
    with b show ?thesis by (simp add: ends_with_def starts_with_def)
  next
    case (Cons x xs)
    then have "x \<noteq> CHR ''.''" using hd_dropWhile [of "\<lambda>c. c = CHR ''.''" "rev s"] by auto
    with b Cons lower_dot [of x] show ?thesis by (auto simp: ends_with_def starts_with_def)
  qed
qed

text \<open>C@: the domains a link gets are distinct; its search suffixes are exactly the search domains
  and every split domain is at least a routing domain; the catch-all is there just when nothing is
  split and the tunnel is full.\<close>

theorem dns_domains_policy:
  "distinct (dns_domains c)
   \<and> (\<forall>s\<in>set (search_domains c). bare_domain s \<in> set (dns_domains c))
   \<and> (\<forall>s\<in>set (split_dns c). bare_domain s \<in> set (dns_domains c)
        \<or> CHR ''~'' # bare_domain s \<in> set (dns_domains c))
   \<and> (\<forall>d\<in>set (dns_domains c). \<not> starts_with ''~'' d \<longrightarrow> d \<in> bare_domain ` set (search_domains c))
   \<and> (''~.'' \<in> set (dns_domains c) \<longleftrightarrow> split_dns c = []
        \<and> (full_tunnel_ipv4 c \<or> full_tunnel_ipv6 c \<or> (\<exists>p\<in>set (split_includes c). prefix p = 0)))"
proof -
  let ?ds = "unique (map bare_domain (search_domains c))"
  let ?rs = "routing_domains ?ds (map bare_domain (split_dns c))"
  note u = unique_props [of "map bare_domain (search_domains c)"]
  have r: "distinct ?rs" "set ?ds \<subseteq> set ?rs"
    using routing_domains_step [OF u(1)] by blast+
  have only: "set ?rs \<subseteq> bare_domain ` set (search_domains c)
      \<union> (\<lambda>s. CHR ''~'' # bare_domain s) ` set (split_dns c)"
    using routing_domains_only [of ?ds "map bare_domain (split_dns c)"] by (simp only: u set_map image_image)
  have cover: "bare_domain s \<in> set ?rs \<or> CHR ''~'' # bare_domain s \<in> set ?rs" if "s \<in> set (split_dns c)" for s
    using routing_domains_cover [OF u(1), of "bare_domain s" "map bare_domain (split_dns c)"] that by simp
  have search: "bare_domain s \<in> set ?rs" if "s \<in> set (search_domains c)" for s
    using r(2) that by (auto simp: u)
  have "ends_with ''.'' ''~.''" "ends_with ''.'' ''.''" by (simp_all add: ends_with_def starts_with_def)
  then have no_root: "''~.'' \<noteq> bare_domain s" "''~.'' \<noteq> CHR ''~'' # bare_domain s" for s
    using bare_domain_end [of s] by (metis, metis list.inject)
  have all: "''~.'' \<notin> set ?rs"
    using only no_root by blast
  have full: "dns_full c \<longleftrightarrow> split_dns c = []
     \<and> (full_tunnel_ipv4 c \<or> full_tunnel_ipv6 c \<or> (\<exists>p\<in>set (split_includes c). prefix p = 0))"
    by (auto simp: dns_full_def list_ex_iff)
  have "d \<in> bare_domain ` set (search_domains c)" if "d \<in> set ?rs" "\<not> starts_with ''~'' d" for d
    using that only by (auto simp: starts_with_def)
  moreover have "starts_with ''~'' ''~.''" by (simp add: starts_with_def)
  ultimately show ?thesis
    unfolding full [symmetric] dns_domains_def using all r(1) search cover by auto
qed

theorem dns_domains_policy_witness:
  "dns_domains (sample_network\<lparr>search_domains := [''Corp.Example.''],
       split_dns := [''corp.example'', ''lab.example'']\<rparr>) = [''corp.example'', ''~lab.example'']
   \<and> (''~.'' \<in> set (dns_domains sample_network) \<longleftrightarrow> split_dns sample_network = [])"
proof -
  have "full_tunnel_ipv4 sample_network" by (simp add: sample_network_def)
  moreover have "dns_domains (sample_network\<lparr>search_domains := [''Corp.Example.''],
       split_dns := [''corp.example'', ''lab.example'']\<rparr>) = [''corp.example'', ''~lab.example'']"
    by code_simp
  ultimately show ?thesis using dns_domains_policy [of sample_network] by blast
qed

end
