(* ===== verification/AddressText.thy ===== *)
theory AddressText
  imports Contracts IpText
begin

text \<open>
  Printed numbers and addresses are read back: \<open>show_nat\<close>, \<open>show_hex\<close> and \<open>show_ip\<close> against the
  parsers of \<open>core::num\<close> and \<open>core::net\<close>, through the cut of the zero groups and the embedded IPv4
  form.
\<close>

section \<open>Numbers\<close>

lemma digits_value_append:
  "digits_value b (xs @ [c]) = digits_value b xs * b + digit_value c"
  by (simp add: digits_value_def)

lemma digit_char:
  assumes "0 \<le> d" "d < 10"
  shows "is_ascii_digit (char_of (48 + d))" "digit_value (char_of (48 + d)) = d"
proof -
  have "d = 0 \<or> d = 1 \<or> d = 2 \<or> d = 3 \<or> d = 4 \<or> d = 5 \<or> d = 6 \<or> d = 7 \<or> d = 8 \<or> d = 9"
    using assms by presburger
  then show "is_ascii_digit (char_of (48 + d))" "digit_value (char_of (48 + d)) = d"
    by (elim disjE; simp; code_simp)+
qed

lemma hex_char:
  assumes "0 \<le> d" "d < 16"
  shows "is_ascii_hexdigit (hex_digit d)" "digit_value (hex_digit d) = d" "hex_digit d \<noteq> CHR ''.''"
    "hex_digit d \<noteq> CHR '':''"
proof -
  have "d = 0 \<or> d = 1 \<or> d = 2 \<or> d = 3 \<or> d = 4 \<or> d = 5 \<or> d = 6 \<or> d = 7 \<or> d = 8 \<or> d = 9
      \<or> d = 10 \<or> d = 11 \<or> d = 12 \<or> d = 13 \<or> d = 14 \<or> d = 15"
    using assms by presburger
  then show "is_ascii_hexdigit (hex_digit d)" "digit_value (hex_digit d) = d" "hex_digit d \<noteq> CHR ''.''"
    "hex_digit d \<noteq> CHR '':''"
    by (elim disjE; simp; code_simp)+
qed

lemma show_nat_digits: "list_all is_ascii_digit (show_nat n)"
proof (induction n rule: show_nat.induct)
  case (1 n)
  then show ?case
    using digit_char(1) [of "int n"] digit_char(1) [of "int n mod 10"]
    by (subst show_nat.simps) (auto simp: zmod_int)
qed

lemma show_nat_value: "digits_value 10 (show_nat n) = int n"
proof (induction n rule: show_nat.induct)
  case (1 n)
  show ?case
  proof (cases "n < 10")
    case True
    then show ?thesis
      using digit_char(2) [of "int n"] by (subst show_nat.simps) (simp add: digits_value_def)
  next
    case False
    then show ?thesis
      using 1 digit_char(2) [of "int n mod 10"]
      by (subst show_nat.simps) (simp add: digits_value_append zmod_int zdiv_int)
  qed
qed

lemma show_nat_length: "n < 10 ^ k \<Longrightarrow> 0 < k \<Longrightarrow> length (show_nat n) \<le> k"
proof (induction n arbitrary: k rule: show_nat.induct)
  case (1 n)
  show ?case
  proof (cases "n < 10")
    case True
    then show ?thesis using 1(3) by (subst show_nat.simps) simp
  next
    case False
    then obtain j where j: "k = Suc j" "0 < j"
      using 1(2,3) by (cases k; cases "k - 1") auto
    then have "n div 10 < 10 ^ j" using 1(2) by (simp add: div_less_iff_less_mult mult.commute)
    then show ?thesis
      using 1(1) [OF False _ j(2)] j False by (subst show_nat.simps) simp
  qed
qed

lemma show_nat_nonempty [simp]: "show_nat n \<noteq> []"
  by (subst show_nat.simps) simp

lemma show_nat_zero: "hd (show_nat n) = CHR ''0'' \<Longrightarrow> length (show_nat n) = 1"
proof (induction n rule: show_nat.induct)
  case (1 n)
  have z: "n = 0" if "n < 10" "hd (show_nat n) = CHR ''0''" for n
  proof -
    have "show_nat n = [char_of (48 + int n)]" using that by (subst show_nat.simps) simp
    then have "digit_value (char_of (48 + int n)) = digit_value (CHR ''0'')" using that by simp
    moreover have "digit_value (CHR ''0'') = 0" by code_simp
    ultimately show ?thesis using digit_char(2) [of "int n"] that by simp
  qed
  show ?case
  proof (cases "n < 10")
    case True
    then show ?thesis by (subst show_nat.simps) simp
  next
    case False
    have h: "hd (show_nat n) = hd (show_nat (n div 10))"
      using False by (subst show_nat.simps) simp
    with 1 False have l: "length (show_nat (n div 10)) = 1" by simp
    then have small: "n div 10 < 10"
      by (subst (asm) show_nat.simps) (auto split: if_splits)
    with z [of "n div 10"] h 1(2) have "n div 10 = 0" by simp
    with False show ?thesis by simp
  qed
qed

lemma parse_show_nat: "int n < bound \<Longrightarrow> parse_uint bound (show_nat n) = Some (int n)"
proof -
  assume n: "int n < bound"
  obtain c cs where c: "show_nat n = c # cs" by (cases "show_nat n") auto
  have "is_ascii_digit c" using show_nat_digits [of n] c by simp
  then have "c \<noteq> CHR ''+''" by (auto simp: is_ascii_digit_def less_eq_char_def)
  then show ?thesis
    using n show_nat_digits [of n] show_nat_value [of n] c by (simp add: parse_uint_def)
qed

interpretation numbers: text_form "\<lambda>w. show_nat (unat w)" parse_word "\<lambda>w :: 'w::len word. True"
  by unfold_locales
    (simp add: parse_word_def parse_show_nat uint_nat [symmetric] uint_bounded del: uint_nat)

section \<open>Hexadecimal groups\<close>

lemma show_hex_digits: "0 \<le> n \<Longrightarrow> list_all is_ascii_hexdigit (show_hex n)"
proof (induction n rule: show_hex.induct)
  case (1 n)
  then show ?case
    using hex_char(1) [of n] hex_char(1) [of "n mod 16"] by (subst show_hex.simps) auto
qed

lemma show_hex_plain: "0 \<le> n \<Longrightarrow> c \<in> set (show_hex n) \<Longrightarrow> c \<noteq> CHR ''.'' \<and> c \<noteq> CHR '':''"
proof (induction n rule: show_hex.induct)
  case (1 n)
  show ?case
  proof (cases "n < 16")
    case True
    then show ?thesis using 1 hex_char(3,4) [of n] by (subst (asm) (2) show_hex.simps) auto
  next
    case False
    have "c \<in> set (show_hex (n div 16)) \<or> c = hex_digit (n mod 16)"
      using 1(3) False by (subst (asm) show_hex.simps) auto
    moreover have "0 \<le> n div 16" using 1(2) by simp
    ultimately show ?thesis using 1 False hex_char(3,4) [of "n mod 16"] by auto
  qed
qed

lemma show_hex_value: "0 \<le> n \<Longrightarrow> digits_value 16 (show_hex n) = n"
proof (induction n rule: show_hex.induct)
  case (1 n)
  show ?case
  proof (cases "n < 16")
    case True
    then show ?thesis
      using 1(2) hex_char(2) [of n] by (subst show_hex.simps) (simp add: digits_value_def)
  next
    case False
    then show ?thesis
      using 1 hex_char(2) [of "n mod 16"] by (subst show_hex.simps) (simp add: digits_value_append)
  qed
qed

lemma show_hex_length: "0 \<le> n \<Longrightarrow> n < 16 ^ k \<Longrightarrow> 0 < k \<Longrightarrow> length (show_hex n) \<le> k"
proof (induction n arbitrary: k rule: show_hex.induct)
  case (1 n)
  show ?case
  proof (cases "n < 16")
    case True
    then show ?thesis using 1(4) by (subst show_hex.simps) simp
  next
    case False
    then obtain j where j: "k = Suc j" "0 < j"
      using 1(2-4) by (cases k; cases "k - 1") auto
    then have "n div 16 < 16 ^ j" using 1(3) by (simp add: div_less_iff_less_mult mult.commute)
    then show ?thesis
      using 1(1) [OF False _ _ j(2)] 1(2) j False by (subst show_hex.simps) simp
  qed
qed

lemma show_hex_nonempty [simp]: "show_hex n \<noteq> []"
  by (subst show_hex.simps) simp

section \<open>Reading one number\<close>

lemma takeWhile_all:
  "list_all p xs \<Longrightarrow> r = [] \<or> \<not> p (hd r) \<Longrightarrow> takeWhile p (xs @ r) = xs"
  by (induction xs) (cases r; auto)+

lemma read_nat:
  assumes "n < 256" and "r = [] \<or> \<not> is_ascii_digit (hd r)"
  shows "read_number 10 3 False 256 (show_nat n @ r) = Some (int n, r)"
proof -
  have "takeWhile is_ascii_digit (show_nat n @ r) = show_nat n"
    by (rule takeWhile_all [OF show_nat_digits assms(2)])
  moreover have "length (show_nat n) \<le> 3" using show_nat_length [of n 3] assms(1) by simp
  moreover have "\<not> (hd (show_nat n) = CHR ''0'' \<and> length (show_nat n) > 1)"
    using show_nat_zero [of n] by auto
  ultimately show ?thesis
    using assms(1) by (auto simp: read_number_def Let_def show_nat_value)
qed

lemma read_hex:
  assumes "0 \<le> n" "n < 65536" and "r = [] \<or> \<not> is_ascii_hexdigit (hd r)"
  shows "read_number 16 4 True 65536 (show_hex n @ r) = Some (n, r)"
proof -
  have "takeWhile is_ascii_hexdigit (show_hex n @ r) = show_hex n"
    by (rule takeWhile_all [OF show_hex_digits [OF assms(1)] assms(3)])
  moreover have "length (show_hex n) \<le> 4" using show_hex_length [of n 4] assms by simp
  ultimately show ?thesis
    using assms by (auto simp: read_number_def Let_def show_hex_value)
qed

section \<open>IPv4\<close>

lemma no_digit [simp]: "\<not> is_ascii_digit (CHR ''.'')" "\<not> is_ascii_hexdigit (CHR '':'')"
  "\<not> is_ascii_digit (CHR '':'')"
  by code_simp+

lemma read_octets_step:
  assumes "n < 256" "r = [] \<or> \<not> is_ascii_digit (hd r)"
  shows "read_octets 0 (Suc k) (show_nat n @ r)
      = map_option (\<lambda>(gs, t). (int n # gs, t)) (read_octets (Suc 0) k r)"
    and "read_octets (Suc i) (Suc k) (CHR ''.'' # show_nat n @ r)
      = map_option (\<lambda>(gs, t). (int n # gs, t)) (read_octets (Suc (Suc i)) k r)"
  using read_nat [OF assms] by (simp_all add: read_separator_def)

lemma read_dotted:
  assumes "a < 256" "b < 256" "c < 256" "d < 256" "r = [] \<or> \<not> is_ascii_digit (hd r)"
  shows "read_ipv4 (join ''.'' (map show_nat [a, b, c, d]) @ r) = Some (map int [a, b, c, d], r)"
proof -
  have four: "(4 :: nat) = Suc (Suc (Suc (Suc 0)))" by simp
  show ?thesis
    unfolding read_ipv4_def four
    using assms by (simp add: read_octets_step del: read_octets.simps(2))
qed

lemma groups_value_Cons:
  "groups_value b (g # gs) = g * b ^ length gs + groups_value b gs"
proof -
  have "foldl (\<lambda>n g. n * b + g) a gs = a * b ^ length gs + foldl (\<lambda>n g. n * b + g) 0 gs" for a
  proof (induction gs arbitrary: a)
    case (Cons h gs)
    from Cons [of "a * b + h"] Cons [of h] show ?case by (simp add: algebra_simps)
  qed simp
  from this [of g] show ?thesis by (simp add: groups_value_def)
qed

lemma groups_value_split:
  "0 < b \<Longrightarrow> groups_value b (map (\<lambda>i. n div b ^ i mod b) (rev [0..<k])) = n mod b ^ k"
proof (induction k)
  case 0
  then show ?case by (simp add: groups_value_def)
next
  case (Suc k)
  then show ?case
    using zmod_zmult2_eq [of b n "b ^ k"]
    by (simp add: groups_value_Cons mult.commute)
qed

lemma uint_piece:
  "uint (ucast (drop_bit i (x :: 'w::len word)) :: 'v::len word) = uint x div 2 ^ i mod 2 ^ LENGTH('v)"
  unfolding unsigned_ucast_eq unsigned_drop_bit_eq unfolding take_bit_eq_mod drop_bit_eq_div uint_idem ..

lemma octets_uint: "groups_value 256 (map int (octets x)) = uint x"
proof -
  have "unat (ucast (drop_bit i x) :: u8) = nat (uint x div 2 ^ i mod 256)" for i
    using uint_piece [where ?'v = 8, of i x] by (simp add: unat_eq_nat_uint)
  then have "map int (octets x) = map (\<lambda>i. uint x div 256 ^ i mod 256) (rev [0..<4])"
    by (simp add: octets_def upt_rec)
  then show ?thesis
    using groups_value_split [of 256 "uint x" 4] uint_lt2p [of x] by simp
qed

lemma octets_value: "of_int (groups_value 256 (map int (octets x))) = x"
  by (simp add: octets_uint)

lemma byte_bound: "unat (w :: u8) < 256"
proof -
  have "uint w < 256" using uint_lt2p [of w] by simp
  then have "nat (uint w) < nat 256" by (simp only: nat_less_eq_zless uint_ge_0)
  then show ?thesis by simp
qed

lemma octets_bound: "n \<in> set (octets x) \<Longrightarrow> n < 256"
  by (auto simp: octets_def byte_bound)

lemma read_show_ipv4:
  assumes "r = [] \<or> \<not> is_ascii_digit (hd r)"
  shows "read_ipv4 (show_ipv4 x @ r) = Some (map int (octets x), r)"
proof -
  obtain a b c d where o: "octets x = [a, b, c, d]" by (simp add: octets_def)
  then have "a < 256" "b < 256" "c < 256" "d < 256" using octets_bound [of _ x] by auto
  then show ?thesis using read_dotted [OF _ _ _ _ assms] o by (simp add: show_ipv4_def)
qed

lemma show_ipv4_length: "length (show_ipv4 x) \<le> 15"
proof -
  obtain a b c d where o: "octets x = [a, b, c, d]" by (simp add: octets_def)
  then have "n < 256 \<Longrightarrow> length (show_nat n) \<le> 3" for n
    using show_nat_length [of n 3] by simp
  moreover have "a < 256" "b < 256" "c < 256" "d < 256" using o octets_bound [of _ x] by auto
  ultimately have "length (show_nat a) \<le> 3" "length (show_nat b) \<le> 3" "length (show_nat c) \<le> 3"
    "length (show_nat d) \<le> 3" by blast+
  with o show ?thesis by (simp add: show_ipv4_def)
qed

lemma parse_show_ipv4: "parse_ipv4 (show_ipv4 x) = Some x"
  using show_ipv4_length [of x] read_show_ipv4 [of "[]" x] octets_value [of x]
  by (simp add: parse_ipv4_def)

section \<open>IPv6\<close>

definition group_ok :: "int \<Rightarrow> bool" where
  "group_ok g \<longleftrightarrow> 0 \<le> g \<and> g < 65536"

lemma segments_ok: "list_all group_ok (segments y)" "length (segments y) = 8"
  by (simp_all add: segments_def group_ok_def uint_lt2p [where 'a = 16, simplified])

lemma segments_value: "of_int (groups_value 65536 (segments y)) = y"
proof -
  have "uint (ucast (drop_bit i y) :: u16) = uint y div 2 ^ i mod 65536" for i
    using uint_piece [where ?'v = 16, of i y] by simp
  then have "segments y = map (\<lambda>i. uint y div 65536 ^ i mod 65536) (rev [0..<8])"
    by (simp add: segments_def upt_rec)
  then show ?thesis
    using groups_value_split [of 65536 "uint y" 8] uint_lt2p [of y] by simp
qed

text \<open>What may follow a group: the end, or a colon.\<close>

definition stops :: "string \<Rightarrow> bool" where
  "stops r \<longleftrightarrow> r = [] \<or> hd r = CHR '':''"

lemma no_ipv4:
  assumes "group_ok g" "stops r"
  shows "read_ipv4 (show_hex g @ r) = None"
proof -
  let ?s = "show_hex g @ r"
  let ?t = "drop (length (takeWhile is_ascii_digit ?s)) ?s"
  have t: "?t = dropWhile is_ascii_digit ?s" by (metis dropWhile_eq_drop)
  have "c \<noteq> CHR ''.''" if "?t = c # cs" for c cs
  proof (cases "dropWhile is_ascii_digit (show_hex g)")
    case Nil
    then have "list_all is_ascii_digit (show_hex g)" by (simp add: dropWhile_eq_Nil_conv list_all_iff)
    then have "?t = dropWhile is_ascii_digit r"
      unfolding t by (simp add: dropWhile_append list_all_iff)
    also have "\<dots> = r" using assms(2) by (cases r) (auto simp: stops_def)
    finally show ?thesis using assms(2) that by (auto simp: stops_def)
  next
    case (Cons d ds)
    then have "?t = d # ds @ r" unfolding t by (simp add: dropWhile_append dropWhile_eq_Nil_conv [symmetric] del: dropWhile_eq_Nil_conv)
    moreover have "d \<in> set (show_hex g)"
      using Cons by (metis list.set_intros(1) set_dropWhileD)
    ultimately show ?thesis
      using show_hex_plain [of g d] assms(1) that by (auto simp: group_ok_def)
  qed
  then have "read_octets (Suc 0) (Suc k) ?t = None" for k
    by (cases ?t) (auto simp: read_separator_def)
  moreover have "read_number 10 3 False 256 ?s = None
      \<or> (\<exists>n. read_number 10 3 False 256 ?s = Some (n, ?t))"
    by (simp add: read_number_def Let_def)
  moreover have four: "(4 :: nat) = Suc (Suc (Suc (Suc 0)))" by simp
  ultimately show ?thesis
    unfolding read_ipv4_def four read_octets.simps(2) [of 0] by (auto simp: read_separator_def)
qed

lemma no_group:
  assumes "r = [] \<or> hd r = CHR '':''"
  shows "read_ipv4 r = None" "read_number 16 4 True 65536 r = None"
proof -
  have four: "(4 :: nat) = Suc (Suc (Suc (Suc 0)))" by simp
  have "takeWhile is_ascii_digit r = []" "takeWhile is_ascii_hexdigit r = []"
    using assms by (cases r; auto)+
  then show "read_ipv4 r = None" "read_number 16 4 True 65536 r = None"
    unfolding read_ipv4_def four by (simp_all add: read_separator_def read_number_def)
qed

text \<open>Where the reading of groups ends: the end of the text or a double colon.\<close>

definition closes :: "string \<Rightarrow> bool" where
  "closes r \<longleftrightarrow> r = [] \<or> (\<exists>t. r = CHR '':'' # CHR '':'' # t)"

lemma closes_stops: "closes r \<Longrightarrow> stops r"
  by (auto simp: closes_def stops_def)

lemma read_groups_closes: "closes r \<Longrightarrow> read_groups i n r = ([], False, r)"
  using no_group [of r] no_group [of "tl r"]
  by (cases n) (auto simp: closes_def read_separator_def)

lemma read_groups_step:
  assumes "group_ok g" "stops r"
  shows "read_groups i (Suc n) ((if i = 0 then [] else '':'') @ show_hex g @ r)
    = (case read_groups (Suc i) n r of (gs, v4, t) \<Rightarrow> (g # gs, v4, t))"
proof -
  have "read_number 16 4 True 65536 (show_hex g @ r) = Some (g, r)"
    using assms by (intro read_hex) (auto simp: group_ok_def stops_def)
  with no_ipv4 [OF assms] show ?thesis by (simp add: read_separator_def)
qed

definition colons :: "int list \<Rightarrow> string" where
  "colons gs = concat (map (\<lambda>g. CHR '':'' # show_hex g) gs)"

lemma colons_simps [simp]:
  "colons [] = []" "colons (g # gs) = CHR '':'' # show_hex g @ colons gs"
  by (simp_all add: colons_def)

lemma join_colons: "join '':'' (map show_hex (g # gs)) = show_hex g @ colons gs"
proof (induction gs arbitrary: g)
  case (Cons h gs)
  from Cons [of h] show ?case by simp
qed simp

lemma stops_colons: "stops r \<Longrightarrow> stops (colons gs @ r)"
  by (cases gs) (auto simp: stops_def)

lemma read_groups_colons:
  assumes "list_all group_ok gs" "0 < i" "stops r" "length gs = n \<or> length gs \<le> n \<and> closes r"
  shows "read_groups i n (colons gs @ r) = (gs, False, r)"
  using assms
proof (induction gs arbitrary: i n)
  case Nil
  then show ?case by (cases n) (auto simp: read_groups_closes simp del: read_groups.simps(2))
next
  case (Cons g gs)
  then obtain k where k: "n = Suc k" by (cases n) auto
  have "read_groups i (Suc k) (colons (g # gs) @ r)
      = (case read_groups (Suc i) k (colons gs @ r) of (gs, v4, t) \<Rightarrow> (g # gs, v4, t))"
    using read_groups_step [of g "colons gs @ r" i k] Cons.prems stops_colons [of r gs] by simp
  with Cons k show ?case by simp
qed

lemma read_groups_join:
  assumes "list_all group_ok gs" "stops r" "length gs = n \<or> length gs \<le> n \<and> closes r"
  shows "read_groups 0 n (join '':'' (map show_hex gs) @ r) = (gs, False, r)"
proof (cases gs)
  case Nil
  with assms show ?thesis by (cases n) (auto simp: read_groups_closes simp del: read_groups.simps(2))
next
  case (Cons g hs)
  with assms(3) obtain k where k: "n = Suc k" by (cases n) auto
  have "read_groups 0 (Suc k) (show_hex g @ colons hs @ r)
      = (case read_groups (Suc 0) k (colons hs @ r) of (gs, v4, t) \<Rightarrow> (g # gs, v4, t))"
    using read_groups_step [of g "colons hs @ r" 0 k] Cons assms stops_colons [of r hs] by simp
  with Cons k assms read_groups_colons [of hs "Suc 0" r k] show ?thesis
    by (simp add: join_colons del: list.map)
qed

text \<open>The run of zeros that is cut out.\<close>

definition zeros_at :: "int list \<Rightarrow> nat \<Rightarrow> nat \<times> nat \<Rightarrow> bool" where
  "zeros_at ss i z \<longleftrightarrow> fst z + snd z \<le> i \<and> (\<forall>k. fst z \<le> k \<and> k < fst z + snd z \<longrightarrow> ss ! k = 0)"

lemma zero_run_zeros:
  "drop i ss = rest \<Longrightarrow> i + length rest = length ss \<Longrightarrow> zeros_at ss i longest \<Longrightarrow> zeros_at ss i cur
    \<Longrightarrow> (snd cur \<noteq> 0 \<longrightarrow> fst cur + snd cur = i)
    \<Longrightarrow> zeros_at ss (length ss) (zero_run i longest cur rest)"
proof (induction rest arbitrary: i longest cur)
  case (Cons s rest)
  have s: "ss ! i = s" "drop (Suc i) ss = rest"
    using Cons.prems(1,2) by (metis nth_via_drop, metis drop_Suc list.sel(3) tl_drop)
  have longer: "zeros_at ss (Suc i) longest" using Cons.prems(3) by (auto simp: zeros_at_def)
  show ?case
  proof (cases "s = 0")
    case True
    define new where "new = (if snd cur = 0 then (i, 1) else (fst cur, snd cur + 1))"
    have n: "zeros_at ss (Suc i) new" "fst new + snd new = Suc i"
      using Cons.prems(4,5) s(1) True by (auto simp: new_def zeros_at_def less_Suc_eq)
    show ?thesis
      using Cons.IH [OF s(2) _ _ n(1), of "if snd new > snd longest then new else longest"]
        Cons.prems(2) n longer True
      by (simp add: new_def [symmetric] Let_def split: if_splits)
  next
    case False
    then show ?thesis
      using Cons.IH [OF s(2) _ longer, of "(0, 0)"] Cons.prems(2) by (simp add: zeros_at_def)
  qed
qed simp

lemma cut_zeros:
  assumes "zero_run 0 (0, 0) (0, 0) ss = (start, n)"
  shows "start + n \<le> length ss"
    and "take start ss @ replicate n 0 @ drop (start + n) ss = ss"
proof -
  have z: "zeros_at ss (length ss) (start, n)"
    using zero_run_zeros [of 0 ss ss "(0, 0)" "(0, 0)"] assms by (simp add: zeros_at_def)
  then show l: "start + n \<le> length ss" by (simp add: zeros_at_def)
  have "take n (drop start ss) = replicate n 0"
    using z l by (intro nth_equalityI) (auto simp: zeros_at_def)
  then show "take start ss @ replicate n 0 @ drop (start + n) ss = ss"
    by (metis append.assoc append_take_drop_id take_add)
qed

lemma read_mapped:
  "read_groups 0 7 (''ffff:'' @ show_ipv4 x)
     = ([65535, groups_value 256 (take 2 (map int (octets x))), groups_value 256 (drop 2 (map int (octets x)))],
        True, [])"
proof -
  have f: "''ffff:'' @ show_ipv4 x = show_hex 65535 @ CHR '':'' # show_ipv4 x"
  proof -
    have "show_hex 65535 = ''ffff''" by code_simp
    then show ?thesis by simp
  qed
  have seven: "(7 :: nat) = Suc (Suc 5)" by simp
  have "read_separator (CHR '':'') (Suc 0) read_ipv4 (CHR '':'' # show_ipv4 x)
      = Some (map int (octets x), [])"
    using read_show_ipv4 [of "[]" x] by (simp add: read_separator_def)
  then have "read_groups (Suc 0) (Suc 5) (CHR '':'' # show_ipv4 x)
      = ([groups_value 256 (take 2 (map int (octets x))), groups_value 256 (drop 2 (map int (octets x)))],
         True, [])"
    unfolding read_groups.simps(2) by simp
  then show ?thesis
    using read_groups_step [of 65535 "CHR '':'' # show_ipv4 x" 0 "Suc 5"]
    unfolding f seven by (simp add: group_ok_def stops_def del: read_groups.simps)
qed

lemma mapped_value:
  assumes "drop_bit 32 y = 0xFFFF"
  shows "of_int (groups_value 65536 (replicate 5 0
      @ [65535, groups_value 256 (take 2 (map int (octets (ucast y)))),
         groups_value 256 (drop 2 (map int (octets (ucast y))))])) = (y :: u128)"
proof -
  obtain a b c d where o: "map int (octets (ucast y)) = [a, b, c, d]" by (simp add: octets_def)
  have low: "((a * 256 + b) * 256 + c) * 256 + d = uint y mod 2 ^ 32"
    using octets_uint [of "ucast y"] uint_piece [where ?'v = 32, of 0 y]
    by (simp add: o groups_value_def)
  have "uint (drop_bit 32 y) = uint y div 2 ^ 32"
    unfolding unsigned_drop_bit_eq unfolding take_bit_eq_mod drop_bit_eq_div uint_idem ..
  then have "uint y div 2 ^ 32 = 65535" using assms by simp
  then have e: "65535 * 2 ^ 32 + uint y mod 2 ^ 32 = uint y"
    by (metis div_mult_mod_eq)
  have "of_int (65535 * 2 ^ 32 + (((a * 256 + b) * 256 + c) * 256 + d)) = y"
    unfolding low e by simp
  then show ?thesis
    by (simp add: o groups_value_def eval_nat_numeral algebra_simps)
qed

lemma parse_show_ipv6: "parse_ipv6 (show_ipv6 y) = Some y"
proof -
  let ?ss = "segments y"
  consider "drop_bit 32 y = 0xFFFF"
    | start n where "drop_bit 32 y \<noteq> 0xFFFF" "zero_run 0 (0, 0) (0, 0) ?ss = (start, n)"
    by (cases "zero_run 0 (0, 0) (0, 0) ?ss") auto
  then show ?thesis
  proof cases
    case 1
    have "read_groups 0 8 (CHR '':'' # CHR '':'' # ''ffff:'' @ show_ipv4 (ucast y)) =
        ([], False, CHR '':'' # CHR '':'' # ''ffff:'' @ show_ipv4 (ucast y))"
      by (rule read_groups_closes) (simp add: closes_def)
    then show ?thesis
      using 1 read_mapped [of "ucast y"] mapped_value [OF 1]
      by (simp add: show_ipv6_def parse_ipv6_def read_ipv6_def del: read_groups.simps)
  next
    case (2 start n)
    note cut = cut_zeros [OF 2(2)]
    show ?thesis
    proof (cases "n > 1")
      case True
      let ?front = "take start ?ss" and ?rear = "drop (start + n) ?ss"
      let ?t = "join '':'' (map show_hex ?rear)"
      have ok: "list_all group_ok ?front" "list_all group_ok ?rear" "length ?front = start"
        "length ?rear = 8 - start - n" "start + n \<le> 8" "length ?front < 8"
        using segments_ok [of y] cut(1) True
        by (auto simp: list_all_iff dest: in_set_takeD in_set_dropD)
      have "read_groups 0 8 (join '':'' (map show_hex ?front) @ CHR '':'' # CHR '':'' # ?t)
          = (?front, False, CHR '':'' # CHR '':'' # ?t)"
        using ok by (intro read_groups_join) (auto simp: closes_def stops_def)
      moreover have "read_groups 0 (8 - (start + 1)) (?t @ []) = (?rear, False, [])"
        using ok True by (intro read_groups_join) (auto simp: closes_def stops_def)
      moreover have "replicate (8 - start - (8 - start - n)) (0 :: int) = replicate n 0"
        using ok by simp
      moreover have "show_ipv6 y = join '':'' (map show_hex ?front) @ CHR '':'' # CHR '':'' # ?t"
        using 2 True by (simp add: show_ipv6_def Let_def)
      ultimately show ?thesis
        using ok cut(2) segments_value [of y]
        by (simp add: parse_ipv6_def read_ipv6_def del: read_groups.simps)
    next
      case False
      have "read_groups 0 8 (join '':'' (map show_hex ?ss) @ []) = (?ss, False, [])"
        using segments_ok [of y] by (intro read_groups_join) (auto simp: stops_def)
      with 2 False segments_ok [of y] segments_value [of y] show ?thesis
        by (simp add: show_ipv6_def Let_def parse_ipv6_def read_ipv6_def del: read_groups.simps)
    qed
  qed
qed

lemma read_number_uses:
  "read_number 10 k z b s = Some (g, r) \<Longrightarrow> \<exists>p. s = p @ r \<and> CHR '':'' \<notin> set p"
proof -
  assume "read_number 10 k z b s = Some (g, r)"
  then have "r = drop (length (takeWhile is_ascii_digit s)) s"
    by (auto simp: read_number_def Let_def split: if_splits)
  moreover have "CHR '':'' \<notin> set (takeWhile is_ascii_digit s)"
    using set_takeWhileD no_digit(3) by metis
  ultimately show ?thesis
    by (metis dropWhile_eq_drop takeWhile_dropWhile_id)
qed

lemma read_octets_uses:
  "read_octets i n s = Some (gs, r) \<Longrightarrow> \<exists>p. s = p @ r \<and> CHR '':'' \<notin> set p"
proof (induction i n s arbitrary: gs r rule: read_octets.induct)
  case (2 i n s)
  then obtain g t gs' where g: "read_separator (CHR ''.'') i (read_number 10 3 False 256) s = Some (g, t)"
    "read_octets (Suc i) n t = Some (gs', r)"
    by (auto split: option.splits)
  obtain q where q: "t = q @ r" "CHR '':'' \<notin> set q" using "2.IH" [OF g(1) refl g(2)] by blast
  have "\<exists>p. s = p @ t \<and> CHR '':'' \<notin> set p"
  proof (cases "i = 0")
    case True
    with g(1) read_number_uses show ?thesis by (auto simp: read_separator_def)
  next
    case False
    then obtain s' where s': "s = CHR ''.'' # s'" "read_number 10 3 False 256 s' = Some (g, t)"
      using g(1) by (auto simp: read_separator_def split: list.splits if_splits)
    obtain p where "s' = p @ t" "CHR '':'' \<notin> set p" using read_number_uses [OF s'(2)] by blast
    then show ?thesis by (intro exI [of _ "CHR ''.'' # p"]) (simp add: s'(1))
  qed
  with q show ?case by (metis Un_iff append.assoc set_append)
qed simp

lemma parse_ipv4_no_colon: "CHR '':'' \<in> set s \<Longrightarrow> parse_ipv4 s = None"
  using read_octets_uses [of 0 4 s]
  by (fastforce simp: parse_ipv4_def read_ipv4_def split: option.splits list.splits)

lemma show_ipv6_colon: "CHR '':'' \<in> set (show_ipv6 y)"
proof -
  obtain a b cs where "segments y = a # b # cs" by (simp add: segments_def)
  then have "CHR '':'' \<in> set (join '':'' (map show_hex (segments y)))" by (simp add: join_colons)
  then show ?thesis
    by (cases "zero_run 0 (0, 0) (0, 0) (segments y)") (auto simp: show_ipv6_def Let_def)
qed

lemma parse_show_ip: "parse_ip (show_ip a) = Some a"
  using parse_ipv4_no_colon [OF show_ipv6_colon]
  by (cases a) (simp_all add: parse_ip_def show_ip_def parse_show_ipv4 parse_show_ipv6)

interpretation addresses: text_form show_ip parse_ip "\<lambda>_. True"
  by unfold_locales (rule parse_show_ip)

lemma show_ip_no_slash: "CHR ''/'' \<notin> set (show_ip a)"
proof -
  have hex: "\<not> is_ascii_hexdigit (CHR ''/'')" "\<not> is_ascii_digit (CHR ''/'')" by code_simp+
  have v4: "CHR ''/'' \<notin> set (show_ipv4 x)" for x
    using show_nat_digits hex by (auto simp: show_ipv4_def octets_def list_all_iff)
  have j: "c \<in> set (join '':'' (map show_hex gs)) \<Longrightarrow> list_all group_ok gs \<Longrightarrow> c \<noteq> CHR ''/''" for c gs
    using show_hex_digits hex
    by (induction gs rule: induct_list012) (auto simp: list_all_iff group_ok_def)
  have "CHR ''/'' \<notin> set (show_ipv6 y)" for y
  proof -
    have "list_all group_ok (take n (segments y))" "list_all group_ok (drop n (segments y))" for n
      using segments_ok(1) [of y] by (auto simp: list_all_iff dest: in_set_takeD in_set_dropD)
    then have "CHR ''/'' \<notin> set (join '':'' (map show_hex (take n (segments y))))"
      "CHR ''/'' \<notin> set (join '':'' (map show_hex (drop n (segments y))))"
      "CHR ''/'' \<notin> set (join '':'' (map show_hex (segments y)))" for n
      using j segments_ok(1) [of y] by blast+
    with v4 show ?thesis
      by (cases "zero_run 0 (0, 0) (0, 0) (segments y)") (simp add: show_ipv6_def Let_def)
  qed
  with v4 show ?thesis by (cases a) (simp_all add: show_ip_def)
qed

interpretation prefixes: separated_form show_ip parse_ip "\<lambda>_. True"
  "\<lambda>w. show_nat (unat w)" parse_word "\<lambda>w :: u8. True" "CHR ''/''"
  by unfold_locales (rule show_ip_no_slash)

lemma show_prefix_parts:
  "split_once (CHR ''/'') (show_prefix p) = Some (show_ip (address p), show_nat (unat (prefix p)))"
  by (simp add: show_prefix_def split_once_append show_ip_no_slash)

lemma show_prefix_iff: "show_prefix p = show_prefix q \<longleftrightarrow> p = q"
  using prefixes.both.print_inj [of "(address p, prefix p)" "(address q, prefix q)"]
  by (cases p; cases q) (simp add: show_prefix_def)

end
