(* ===== verification/LinuxKeys.thy ===== *)
theory LinuxKeys
  imports LinuxProps AddressText RoutePolicy
begin

text \<open>
  The keys of the Linux adapter: the text it makes of a prefix is read back by its own checks, and
  two prefixes have the same text exactly when they are the same network.
\<close>

unbundle bit_operations_syntax

lemma mask_is_shift: "x AND push_bit h (- 1) = push_bit h (drop_bit h (x :: 'w::len word))"
  by (rule bit_word_eqI) (auto simp: bit_simps dest: bit_imp_le_length)

lemma ucast_shift:
  "h \<le> 32 \<Longrightarrow> ucast (push_bit h (drop_bit h (x :: u32))) = push_bit h (drop_bit h (ucast x :: u128))"
  by (rule bit_word_eqI) (auto simp: bit_simps dest: bit_imp_le_length)

lemma canonical_is_normalize:
  assumes "prefix_ok p"
  shows "LinuxNet.canonical p = show_prefix (normalize p)"
proof -
  note n = normalize_facts [OF assms]
  have h: "unat (width p - prefix p) = host_bits p" by (rule prefix_ok_unat(1) [OF assms])
  show ?thesis
  proof (cases "address p")
    case (V4 a)
    let ?m = "if prefix p = 0 then 0 else push_bit (unat (32 - prefix p)) (- 1 :: u32)"
    have b: "host_bits p \<le> 32" using prefix_ok_unat(3) [OF assms] V4 by simp
    have "a AND ?m = push_bit (host_bits p) (drop_bit (host_bits p) a)"
    proof (cases "prefix p = 0")
      case True
      then have "host_bits p = 32" using V4 by (simp add: host_bits_def)
      then show ?thesis using True by (auto intro!: bit_word_eqI simp: bit_simps)
    next
      case False
      with h V4 mask_is_shift [of a "host_bits p"] show ?thesis by (simp add: width_def)
    qed
    then have "bits (V4 (a AND ?m)) = push_bit (host_bits p) (drop_bit (host_bits p) (bits (V4 a)))"
      using ucast_shift [OF b, of a] by (simp only: bits_def ip_addr.case)
    then have "bits (V4 (a AND ?m)) = bits (address (normalize p))"
      by (simp only: n(3) V4)
    then have "V4 (a AND ?m) = address (normalize p)"
      using bits_eq_iff [of "V4 (a AND ?m)" "address (normalize p)"] n(1) V4 by simp
    then show ?thesis using V4 n(2) by (simp add: LinuxNet.canonical_def show_prefix_def)
  next
    case (V6 a)
    let ?m = "if prefix p = 0 then 0 else push_bit (unat (128 - prefix p)) (- 1 :: u128)"
    have "a AND ?m = push_bit (host_bits p) (drop_bit (host_bits p) a)"
    proof (cases "prefix p = 0")
      case True
      then have "host_bits p = 128" using V6 by (simp add: host_bits_def)
      then show ?thesis using True by (auto intro!: bit_word_eqI simp: bit_simps)
    next
      case False
      with h V6 mask_is_shift [of a "host_bits p"] show ?thesis by (simp add: width_def)
    qed
    then have "bits (V6 (a AND ?m)) = push_bit (host_bits p) (drop_bit (host_bits p) (bits (V6 a)))"
      by (simp only: bits_def ip_addr.case)
    then have "bits (V6 (a AND ?m)) = bits (address (normalize p))"
      by (simp only: n(3) V6)
    then have "V6 (a AND ?m) = address (normalize p)"
      using bits_eq_iff [of "V6 (a AND ?m)" "address (normalize p)"] n(1) V6 by simp
    then show ?thesis using V6 n(2) by (simp add: LinuxNet.canonical_def show_prefix_def)
  qed
qed

lemma normalize_eq_iff:
  assumes "prefix_ok p" "prefix_ok q"
  shows "normalize p = normalize q \<longleftrightarrow> prefix p = prefix q \<and> (\<forall>a. covers p a \<longleftrightarrow> covers q a)"
proof
  assume e: "normalize p = normalize q"
  then have "prefix p = prefix q" using normalize_facts(2) assms by metis
  moreover have "covers p a \<longleftrightarrow> covers q a" for a using covers_normalize assms e by metis
  ultimately show "prefix p = prefix q \<and> (\<forall>a. covers p a \<longleftrightarrow> covers q a)" by blast
next
  assume c: "prefix p = prefix q \<and> (\<forall>a. covers p a \<longleftrightarrow> covers q a)"
  then have pq: "covers p (address q)" by (simp add: covers_def)
  then have f: "is_ipv4 (address p) = is_ipv4 (address q)"
    and d: "drop_bit (host_bits p) (bits (address p)) = drop_bit (host_bits p) (bits (address q))"
    by (simp_all add: covers_def)
  have h: "host_bits p = host_bits q" using c f by (simp add: host_bits_def)
  have "bits (address (normalize p)) = bits (address (normalize q))"
    using normalize_facts(3) assms d h by simp
  then have "address (normalize p) = address (normalize q)"
    using bits_eq_iff normalize_facts(1) assms f by metis
  moreover have "prefix (normalize p) = prefix (normalize q)"
    using normalize_facts(2) assms c by simp
  ultimately show "normalize p = normalize q" by simp
qed

lemma validate_show_prefix: "prefix_ok p \<Longrightarrow> validate_prefix (show_prefix p) = Inr ()"
  using addresses.parse_print numbers.parse_print [of "prefix p"]
  by (simp add: validate_prefix_def show_prefix_parts result_simps ok_or_def prefix_ok_def)

text \<open>C31: the route key of a prefix is one the adapter reads back, its text is that of the
  network the route policy computes with, and two prefixes share a key exactly when they are the
  same set of addresses with the same length.\<close>

theorem route_keys_name_networks:
  assumes "prefix_ok p" "prefix_ok q"
  shows "route_parts (linux_route_key (LinuxNet.canonical p)) = Inr (''main'', show_prefix (normalize p))
    \<and> (linux_route_key (LinuxNet.canonical p) = linux_route_key (LinuxNet.canonical q)
       \<longleftrightarrow> prefix p = prefix q \<and> (\<forall>a. covers p a \<longleftrightarrow> covers q a))"
proof -
  have key: "linux_route_key (LinuxNet.canonical p) = ''main'' @ CHR ''|'' # show_prefix (normalize p)"
    by (simp add: linux_route_key_def canonical_is_normalize assms)
  have "split_once (CHR ''|'') (linux_route_key (LinuxNet.canonical p))
      = Some (''main'', show_prefix (normalize p))"
    unfolding key by (rule split_once_append) simp
  then have "route_parts (linux_route_key (LinuxNet.canonical p)) = Inr (''main'', show_prefix (normalize p))"
    using validate_show_prefix [OF prefix_ok_normalize [OF assms(1)]]
    by (simp add: route_parts_def ok_or_def)
  moreover have "linux_route_key (LinuxNet.canonical p) = linux_route_key (LinuxNet.canonical q)
      \<longleftrightarrow> normalize p = normalize q"
    by (simp add: linux_route_key_def canonical_is_normalize assms show_prefix_iff)
  ultimately show ?thesis using normalize_eq_iff [OF assms] by simp
qed

theorem route_keys_name_networks_witness:
  "route_parts (linux_route_key (LinuxNet.canonical \<lparr>address = V4 0xC0A80105, prefix = 24\<rparr>))
     = Inr (''main'', ''192.168.1.0/24'')
   \<and> linux_route_key (LinuxNet.canonical \<lparr>address = V4 0xC0A80105, prefix = 24\<rparr>)
     = linux_route_key (LinuxNet.canonical \<lparr>address = V4 0xC0A80163, prefix = 24\<rparr>)"
proof -
  let ?p = "\<lparr>address = V4 0xC0A80105, prefix = 24\<rparr>" and ?q = "\<lparr>address = V4 0xC0A80163, prefix = 24\<rparr>"
  have ok: "prefix_ok ?p" "prefix_ok ?q" by (simp_all add: prefix_ok_def)
  have n: "show_prefix (normalize ?p) = ''192.168.1.0/24''" by code_simp
  have k: "linux_route_key (LinuxNet.canonical ?p) = linux_route_key (LinuxNet.canonical ?q)" by code_simp
  from route_keys_name_networks [OF ok] n k show ?thesis by metis
qed

end
