(* ===== verification/PrivateFiles.thy ===== *)
theory PrivateFiles
  imports JournalLogic
begin

text \<open>
  \<open>crates/client/src/private_fs.rs\<close>, as built for Unix: the private files of a user. A desk is the
  machine of \<open>Journal\<close> whose file table is indexed by full paths and whose kernel holds the
  directories, the working directory, the pairs of names that hard links make, and whatever else
  the user's session keeps. Each operation on it takes the next fate of the machine.
\<close>

section \<open>The desk\<close>

record dir_meta =
  dm_uid :: nat
  dm_mode :: u32

record 'r home =
  dirs :: "(string \<times> dir_meta) list"
  cwd :: "string list"
  links :: "(string \<times> string) list"
  vault :: 'r

type_synonym 'r desk = "'r home machine"

record os_path =
  is_absolute :: bool
  components :: "string list"

definition joined :: "os_path \<Rightarrow> string \<Rightarrow> os_path" where
  "joined p name = p\<lparr>components := components p @ [name]\<rparr>"

definition path_text :: "string list \<Rightarrow> string" where
  "path_text p = (if p = [] then ''/'' else concat (map ((#) CHR ''/'') p))"

definition full_path :: "os_path \<Rightarrow> 'r desk \<Rightarrow> string list" where
  "full_path p m = (if is_absolute p then components p else cwd (kernel m) @ components p)"

definition present :: "string list \<Rightarrow> 'r desk \<Rightarrow> bool" where
  "present p m \<longleftrightarrow>
     map_of (files m) (path_text p) \<noteq> None \<or> map_of (dirs (kernel m)) (path_text p) \<noteq> None"

definition is_directory :: "string list \<Rightarrow> 'r desk \<Rightarrow> bool" where
  "is_directory p m \<longleftrightarrow> map_of (dirs (kernel m)) (path_text p) \<noteq> None"

section \<open>Paths\<close>

definition private_error :: "string list \<Rightarrow> string \<Rightarrow> err" where
  "private_error p text = \<lparr>code = RuntimeFailure, message = text, details = Some (path_text p)\<rparr>"

text \<open>\<open>path.display()\<close>.\<close>

definition shown :: "os_path \<Rightarrow> string" where
  "shown p = (if is_absolute p then path_text (components p) else join ''/'' (components p))"

definition absolute :: "os_path \<Rightarrow> ('r desk, string list) io" where
  "absolute p =
     io_bind (if is_absolute p then io_return ()
              else probe \<lparr>code = RuntimeFailure, message = ''Cannot locate working directory'',
                             details = Some (shown p)\<rparr>) (\<lambda>_.
     io_bind (io_get (full_path p)) (\<lambda>q.
     if ''..'' \<in> set q
     then io_fail (private_error q ''Parent traversal is not permitted in metadata paths'')
     else io_return q))"

text \<open>\<open>path.ancestors()\<close>: the path itself, its parent, and so on up to the root.\<close>

definition ancestors :: "string list \<Rightarrow> string list list" where
  "ancestors p = map (\<lambda>n. take n p) (rev [0..<Suc (length p)])"

definition check_ancestor :: "string list \<Rightarrow> ('r desk, unit) io" where
  "check_ancestor a =
     io_bind (probe (private_error a ''Cannot inspect metadata path'')) (\<lambda>_.
     io_bind (io_get (\<lambda>m. map_of (files m) (path_text a))) (\<lambda>found.
     case found of
       Some f \<Rightarrow> if fm_symlink (f_meta f)
                 then io_fail (private_error a ''Symlinks and reparse points are not permitted'')
                 else io_return ()
     | None \<Rightarrow> io_return ()))"

definition check_ancestors :: "string list \<Rightarrow> ('r desk, unit) io" where
  "check_ancestors p = io_each check_ancestor (ancestors p)"

text \<open>\<open>path.exists()\<close> and \<open>path.is_dir()\<close>: false when the path cannot be inspected.\<close>

definition asked :: "('r desk \<Rightarrow> bool) \<Rightarrow> ('r desk, bool) io" where
  "asked q =
     io_bind (io_try (probe (new_error RuntimeFailure []))) (\<lambda>r.
     case r of Inl _ \<Rightarrow> io_return False | Inr _ \<Rightarrow> io_get q)"

section \<open>Directories\<close>

definition not_private :: "string list \<Rightarrow> err" where
  "not_private p = private_error p
     ''Metadata must be owned exclusively by this user with private permissions''"

definition create_directory :: "string list \<Rightarrow> ('r desk, unit) io" where
  "create_directory p =
     io_bind (io_get (\<lambda>m. (present p m, p \<noteq> [] \<and> is_directory (butlast p) m))) (\<lambda>(here, fits).
     if \<not> here \<and> \<not> fits then io_fail (private_error p ''Cannot create private directory'')
     else effect (private_error p ''Cannot create private directory'') (whole (\<lambda>m.
            if here then m
            else m\<lparr>kernel := (kernel m)\<lparr>dirs :=
                   (path_text p, \<lparr>dm_uid = euid m, dm_mode = 0x1C0\<rparr>) # dirs (kernel m)\<rparr>\<rparr>)))"

definition verify_directory :: "string list \<Rightarrow> ('r desk, unit) io" where
  "verify_directory p =
     io_bind (probe (private_error p ''Cannot open private directory'')) (\<lambda>_.
     io_bind (io_get (\<lambda>m. (map_of (dirs (kernel m)) (path_text p), euid m))) (\<lambda>(found, user).
     case found of
       None \<Rightarrow> io_fail (private_error p ''Cannot open private directory'')
     | Some d \<Rightarrow>
         io_bind (probe (private_error p ''Cannot inspect private directory'')) (\<lambda>_.
         if dm_uid d \<noteq> user \<or> dm_mode d AND 0x3F \<noteq> 0 then io_fail (not_private p)
         else io_return ())))"

text \<open>\<open>ensure_private_directory\<close> of an absolute path, given leaf first.\<close>

fun make_private :: "string list \<Rightarrow> ('r desk, unit) io" where
  "make_private [] =
     io_bind (check_ancestors []) (\<lambda>_.
     io_bind (asked (present [])) (\<lambda>here.
     io_bind (if here then io_return () else create_directory []) (\<lambda>_.
     verify_directory [])))"
| "make_private (c # up) =
     io_bind (check_ancestors (rev (c # up))) (\<lambda>_.
     io_bind (asked (present (rev (c # up)))) (\<lambda>here.
     io_bind (if here then io_return ()
              else io_bind (asked (present (rev up))) (\<lambda>above.
                   io_bind (if above then io_return () else make_private up) (\<lambda>_.
                   create_directory (rev (c # up))))) (\<lambda>_.
     verify_directory (rev (c # up)))))"

definition ensure_private_directory :: "os_path \<Rightarrow> ('r desk, unit) io" where
  "ensure_private_directory p = io_bind (absolute p) (\<lambda>q. make_private (rev q))"

section \<open>Files\<close>

definition private_file :: "nat \<Rightarrow> jfile \<Rightarrow> bool" where
  "private_file user f \<longleftrightarrow> fm_uid (f_meta f) = user \<and> fm_mode (f_meta f) AND 0x3F = 0
     \<and> fm_regular (f_meta f) \<and> fm_nlink (f_meta f) = 1"

definition created_file :: "nat \<Rightarrow> jfile" where
  "created_file user =
     \<lparr>f_meta = \<lparr>fm_symlink = False, fm_regular = True, fm_uid = user, fm_mode = 0x180,
                fm_nlink = 1\<rparr>, f_data = []\<rparr>"

definition verify_file :: "string list \<Rightarrow> ('r desk, unit option) io" where
  "verify_file p =
     io_bind (probe (private_error p ''Cannot inspect private metadata file'')) (\<lambda>_.
     io_bind (io_get (\<lambda>m. (map_of (files m) (path_text p), euid m))) (\<lambda>(found, user).
     case found of
       Some f \<Rightarrow> if private_file user f then io_return (Some ()) else io_fail (not_private p)
     | None \<Rightarrow> io_fail (not_private p)))"

text \<open>\<open>platform::open\<close>: what the open call of the operating system does with the flags of the
  code, then the check of the file it opened. None is a missing file that is not to be made.\<close>

definition open_private :: "string list \<Rightarrow> bool \<Rightarrow> bool \<Rightarrow> ('r desk, unit option) io" where
  "open_private p create exclusive =
     (let e = private_error p ''Cannot open private metadata file'' in
      io_bind (io_get (\<lambda>m. (map_of (files m) (path_text p), is_directory p m,
                            p \<noteq> [] \<and> is_directory (butlast p) m))) (\<lambda>(found, folder, fits).
      if found = None \<and> \<not> folder
      then if \<not> create then io_bind (probe e) (\<lambda>_. io_return None)
           else if \<not> fits then io_fail e
           else io_bind (effect e (whole (\<lambda>m.
                  m\<lparr>files := put_file (path_text p) (created_file (euid m)) (files m)\<rparr>)))
                  (\<lambda>_. verify_file p)
      else if create \<and> (exclusive \<or> folder) then io_fail e
      else if (case found of Some f \<Rightarrow> fm_symlink (f_meta f) | None \<Rightarrow> False) then io_fail e
      else io_bind (probe e) (\<lambda>_. verify_file p)))"

definition open_private_lock :: "os_path \<Rightarrow> ('r desk, unit) io" where
  "open_private_lock p =
     io_bind (absolute p) (\<lambda>q.
     io_bind (check_ancestors q) (\<lambda>_.
     io_bind (open_private q True False) (\<lambda>opened.
     io_lift (ok_or (private_error q ''Cannot create private lock'') opened))))"

definition open_private_read :: "os_path \<Rightarrow> ('r desk, unit option) io" where
  "open_private_read p =
     io_bind (absolute p) (\<lambda>q.
     io_bind (check_ancestors q) (\<lambda>_.
     open_private q False False))"

section \<open>Replacing a file\<close>

definition destination_exists :: err where
  "destination_exists = new_error Conflict ''Destination already exists''"

text \<open>Dropping a name: the other name of a file that had two is its only one again.\<close>

definition drop_link :: "string \<Rightarrow> (string \<times> jfile) list \<Rightarrow> (string \<times> jfile) list" where
  "drop_link n fs =
     (case map_of fs n of
        Some f \<Rightarrow> put_file n (f\<lparr>f_meta := (f_meta f)\<lparr>fm_nlink := fm_nlink (f_meta f) - 1\<rparr>\<rparr>) fs
      | None \<Rightarrow> fs)"

definition remove_name :: "string \<Rightarrow> 'r desk \<Rightarrow> 'r desk" where
  "remove_name n m =
     m\<lparr>kernel := (kernel m)\<lparr>links := filter (\<lambda>(a, _). a \<noteq> n) (links (kernel m))\<rparr>,
       files := (case map_of (links (kernel m)) n of
                   Some b \<Rightarrow> drop_link b (del_file n (files m))
                 | None \<Rightarrow> del_file n (files m))\<rparr>"

definition link_name :: "string \<Rightarrow> string \<Rightarrow> 'r desk \<Rightarrow> 'r desk" where
  "link_name a b m =
     (case map_of (files m) a of
        None \<Rightarrow> m
      | Some f \<Rightarrow>
          (let f' = f\<lparr>f_meta := (f_meta f)\<lparr>fm_nlink := fm_nlink (f_meta f) + 1\<rparr>\<rparr> in
           m\<lparr>kernel := (kernel m)\<lparr>links := (a, b) # links (kernel m)\<rparr>,
             files := put_file b f' (put_file a f' (files m))\<rparr>))"

definition replace_file :: "string list \<Rightarrow> string list \<Rightarrow> bool \<Rightarrow> ('r desk, unit) io" where
  "replace_file source destination overwrite =
     (if overwrite
      then effect (private_error destination ''Cannot atomically replace metadata'')
             (whole (rename_file (path_text source) (path_text destination)))
      else io_bind (io_get (present destination)) (\<lambda>taken.
           if taken then io_fail destination_exists
           else
           io_bind (effect (private_error destination ''Cannot atomically publish metadata'')
             (whole (link_name (path_text source) (path_text destination)))) (\<lambda>_.
           effect (private_error source ''Cannot remove temporary metadata link'')
             (whole (remove_name (path_text source))))))"

definition sync_folder :: "string list \<Rightarrow> ('r desk, unit) io" where
  "sync_folder p = probe (private_error p ''Cannot durably sync metadata directory'')"

definition publish :: "string list \<Rightarrow> string list \<Rightarrow> u8 list \<Rightarrow> bool \<Rightarrow> ('r desk, unit) io" where
  "publish temporary p bytes overwrite =
     (let e = private_error temporary ''Cannot durably write metadata'' in
      io_bind (effect e (write_file (path_text temporary) bytes)) (\<lambda>_.
      io_bind (probe e) (\<lambda>_.
      io_bind (replace_file temporary p overwrite) (\<lambda>_.
      sync_folder (butlast p)))))"

text \<open>The name of the temporary file, given the text of the identifier drawn for it.\<close>

definition temporary_name :: "string \<Rightarrow> string" where
  "temporary_name fresh = ''.ocvpn-'' @ fresh @ ''.tmp''"

definition atomic_write :: "string \<Rightarrow> os_path \<Rightarrow> u8 list \<Rightarrow> bool \<Rightarrow> ('r desk, unit) io" where
  "atomic_write fresh path bytes overwrite =
     io_bind (absolute path) (\<lambda>p.
     io_bind (check_ancestors p) (\<lambda>_.
     if p = [] then io_fail (private_error p ''Missing parent directory'')
     else
     io_bind (asked (is_directory (butlast p))) (\<lambda>folder.
     if \<not> folder
     then io_fail (private_error (butlast p) ''Destination directory does not exist'')
     else
     io_bind (open_private p False False) (\<lambda>existing.
     if existing \<noteq> None \<and> \<not> overwrite then io_fail destination_exists
     else
     let temporary = butlast p @ [temporary_name fresh] in
     io_bind (open_private temporary True True) (\<lambda>opened.
     io_bind (io_lift (ok_or (private_error temporary ''Cannot create temporary file'') opened)) (\<lambda>_.
     io_bind (io_try (publish temporary p bytes overwrite)) (\<lambda>r.
     case r of
       Inr _ \<Rightarrow> io_return ()
     | Inl e \<Rightarrow>
         io_bind (io_try (effect e (whole (remove_name (path_text temporary))))) (\<lambda>_.
         io_fail e))))))))"

end
