(* ===== verification/Credentials.thy ===== *)
theory Credentials
  imports PrivateFiles
begin

text \<open>
  \<open>crates/client/src/credentials.rs\<close> with \<open>credentials/quiet_linux.rs\<close>, as built for Linux: the
  secrets of a profile in the keyring of the operating system. The crates \<open>keyring\<close> and
  \<open>dbus_secret_service\<close> are the argument \<open>('r, 'i) keyring\<close>, with \<open>'r\<close> the state of the keyring
  and \<open>'i\<close> its items; any of their errors becomes the one error of this module.
\<close>

section \<open>The keyring\<close>

record ('r, 'i) keyring =
  kr_entry :: "string \<Rightarrow> string \<Rightarrow> ('r, unit) io"
  kr_get :: "string \<Rightarrow> string \<Rightarrow> ('r, string option) io"
  kr_set :: "string \<Rightarrow> string \<Rightarrow> string \<Rightarrow> ('r, unit) io"
  kr_delete :: "string \<Rightarrow> string \<Rightarrow> ('r, bool) io"
  ss_connect :: "('r, unit) io"
  ss_search :: "(string \<times> string) list \<Rightarrow> ('r, 'i list \<times> 'i list) io"
  ss_get_secret :: "'i \<Rightarrow> ('r, string) io"
  ss_set_secret :: "'i \<Rightarrow> string \<Rightarrow> string \<Rightarrow> ('r, unit) io"
  ss_collection_locked :: "('r, bool) io"
  ss_create_item :: "string \<Rightarrow> (string \<times> string) list \<Rightarrow> string \<Rightarrow> bool \<Rightarrow> string \<Rightarrow> ('r, unit) io"

definition keyring_service :: string where
  "keyring_service = ''org.openconnectgui.app''"

datatype purpose =
  PasswordPurpose | KeyPassphrase | SecondaryKeyPassphrase | TokenSeed | ProxyCredentials

definition all_purposes :: "purpose list" where
  "all_purposes =
     [PasswordPurpose, KeyPassphrase, SecondaryKeyPassphrase, TokenSeed, ProxyCredentials]"

fun identity :: "purpose \<Rightarrow> string" where
  "identity PasswordPurpose = ''password''"
| "identity KeyPassphrase = ''key_passphrase''"
| "identity SecondaryKeyPassphrase = ''secondary_key_passphrase''"
| "identity TokenSeed = ''token_seed''"
| "identity ProxyCredentials = ''proxy_credentials''"

definition keyring_unavailable :: err where
  "keyring_unavailable = new_error KeyringUnavailable
     ''The OS credential store is locked or unavailable. Unlock or enable it, or use session-only input. HOTP requires a durable saved seed and cannot use session-only storage.''"

text \<open>\<open>result.map_err(|_| e)\<close> on an effect, and an effect on the keyring.\<close>

definition io_map_err :: "err \<Rightarrow> ('m, 'a) io \<Rightarrow> ('m, 'a) io" where
  "io_map_err e f m = (case f m of (Fault _, m') \<Rightarrow> (Fault e, m') | (r, m') \<Rightarrow> (r, m'))"

definition in_vault :: "('r, 'a) io \<Rightarrow> ('r desk, 'a) io" where
  "in_vault f m =
     (case f (vault (kernel m)) of (r, v) \<Rightarrow> (r, m\<lparr>kernel := (kernel m)\<lparr>vault := v\<rparr>\<rparr>))"

definition native :: "('r, 'a) io \<Rightarrow> ('r desk, 'a) io" where
  "native f = io_map_err keyring_unavailable (in_vault f)"

definition serialize_access :: "('r desk, unit) io" where
  "serialize_access = probe keyring_unavailable"

section \<open>Access without a prompt\<close>

definition attributes :: "string \<Rightarrow> (string \<times> string) list" where
  "attributes account =
     [(''service'', keyring_service), (''username'', account), (''target'', ''default'')]"

definition quiet_search :: "('r, 'i) keyring \<Rightarrow> string \<Rightarrow> ('r desk, 'i list) io" where
  "quiet_search R account =
     io_bind (native (ss_connect R)) (\<lambda>_.
     io_bind (native (ss_search R (attributes account))) (\<lambda>(unlocked, locked).
     if locked \<noteq> [] \<or> length unlocked > 1 then io_fail keyring_unavailable
     else io_return unlocked))"

definition quiet_read :: "('r, 'i) keyring \<Rightarrow> string \<Rightarrow> ('r desk, string option) io" where
  "quiet_read R account =
     io_bind (quiet_search R account) (\<lambda>unlocked.
     case unlocked of
       [] \<Rightarrow> io_return None
     | item # _ \<Rightarrow>
         io_bind (native (ss_get_secret R item)) (\<lambda>bytes.
         if \<not> utf8_valid bytes then io_fail keyring_unavailable
         else io_return (Some bytes)))"

definition quiet_write :: "('r, 'i) keyring \<Rightarrow> string \<Rightarrow> string \<Rightarrow> ('r desk, unit) io" where
  "quiet_write R account value =
     io_bind (quiet_search R account) (\<lambda>unlocked.
     case unlocked of
       item # _ \<Rightarrow> native (ss_set_secret R item value ''text/plain'')
     | [] \<Rightarrow>
         io_bind (native (ss_collection_locked R)) (\<lambda>locked.
         if locked then io_fail keyring_unavailable
         else native (ss_create_item R keyring_service (attributes account) value True
                        ''text/plain'')))"

section \<open>One secret\<close>

text \<open>The directories of the user, of the crate \<open>directories\<close>, and the printed form of identifiers,
  of the crate \<open>uuid\<close>.\<close>

record places =
  project_config :: "os_path option"
  project_data :: "os_path option"
  uuid_text :: "uuid \<Rightarrow> string"
  uuid_parse :: "string \<Rightarrow> uuid option"

definition account :: "places \<Rightarrow> uuid \<Rightarrow> purpose \<Rightarrow> string" where
  "account P i p = uuid_text P i @ '':'' @ identity p"

definition lock_profile :: "places \<Rightarrow> uuid \<Rightarrow> ('r desk, unit) io" where
  "lock_profile P i =
     io_bind (io_lift (ok_or keyring_unavailable (project_data P))) (\<lambda>data.
     let directory = joined data ''credentials-locks'' in
     io_bind (io_map_err keyring_unavailable (ensure_private_directory directory)) (\<lambda>_.
     io_bind (io_map_err keyring_unavailable
       (open_private_lock (joined directory (uuid_text P i @ ''.lock'')))) (\<lambda>_.
     probe keyring_unavailable)))"

definition read_locked ::
  "('r, 'i) keyring \<Rightarrow> places \<Rightarrow> uuid \<Rightarrow> purpose \<Rightarrow> bool \<Rightarrow> ('r desk, string option) io" where
  "read_locked R P i p non_interactive =
     io_bind serialize_access (\<lambda>_.
     if non_interactive then quiet_read R (account P i p)
     else
     io_bind (native (kr_entry R keyring_service (account P i p))) (\<lambda>_.
     native (kr_get R keyring_service (account P i p))))"

definition write_locked ::
  "('r, 'i) keyring \<Rightarrow> places \<Rightarrow> uuid \<Rightarrow> purpose \<Rightarrow> string \<Rightarrow> bool \<Rightarrow> ('r desk, unit) io" where
  "write_locked R P i p value non_interactive =
     io_bind serialize_access (\<lambda>_.
     if non_interactive then quiet_write R (account P i p) value
     else
     io_bind (native (kr_entry R keyring_service (account P i p))) (\<lambda>_.
     native (kr_set R keyring_service (account P i p) value)))"

definition delete_locked ::
  "('r, 'i) keyring \<Rightarrow> places \<Rightarrow> uuid \<Rightarrow> purpose \<Rightarrow> ('r desk, unit) io" where
  "delete_locked R P i p =
     io_bind serialize_access (\<lambda>_.
     io_bind (native (kr_entry R keyring_service (account P i p))) (\<lambda>_.
     io_bind (native (kr_delete R keyring_service (account P i p))) (\<lambda>_. io_return ())))"

definition get_blocking ::
  "('r, 'i) keyring \<Rightarrow> places \<Rightarrow> uuid \<Rightarrow> purpose \<Rightarrow> ('r desk, string option) io" where
  "get_blocking R P i p = io_bind (lock_profile P i) (\<lambda>_. read_locked R P i p False)"

definition get_without_ui ::
  "('r, 'i) keyring \<Rightarrow> places \<Rightarrow> uuid \<Rightarrow> purpose \<Rightarrow> ('r desk, string option) io" where
  "get_without_ui R P i p = io_bind (lock_profile P i) (\<lambda>_. read_locked R P i p True)"

definition require_opt_in :: "bool \<Rightarrow> unit result" where
  "require_opt_in opt_in =
     (if opt_in then Inr ()
      else Inl (new_error AuthorizationDenied
        ''Saving credentials requires explicit opt-in. Keep this input in memory for this session instead.''))"

definition save_without_ui ::
  "('r, 'i) keyring \<Rightarrow> places \<Rightarrow> uuid \<Rightarrow> purpose \<Rightarrow> string \<Rightarrow> bool \<Rightarrow> ('r desk, unit) io" where
  "save_without_ui R P i p value opt_in =
     io_bind (io_lift (require_opt_in opt_in)) (\<lambda>_.
     io_bind (lock_profile P i) (\<lambda>_. write_locked R P i p value True))"

definition save_blocking ::
  "('r, 'i) keyring \<Rightarrow> places \<Rightarrow> uuid \<Rightarrow> purpose \<Rightarrow> string \<Rightarrow> bool \<Rightarrow> ('r desk, unit) io" where
  "save_blocking R P i p value opt_in =
     io_bind (io_lift (require_opt_in opt_in)) (\<lambda>_.
     io_bind (lock_profile P i) (\<lambda>_. write_locked R P i p value False))"

definition delete_blocking ::
  "('r, 'i) keyring \<Rightarrow> places \<Rightarrow> uuid \<Rightarrow> purpose \<Rightarrow> ('r desk, unit) io" where
  "delete_blocking R P i p = io_bind (lock_profile P i) (\<lambda>_. delete_locked R P i p)"

definition delete_profile_blocking ::
  "('r, 'i) keyring \<Rightarrow> places \<Rightarrow> uuid \<Rightarrow> ('r desk, unit) io" where
  "delete_profile_blocking R P i =
     io_bind (lock_profile P i) (\<lambda>_. io_each (delete_locked R P i) all_purposes)"

section \<open>The HOTP transaction\<close>

record hotp_transaction =
  ht_profile_id :: uuid
  ht_seed :: string
  ht_non_interactive :: bool

definition hotp_begin ::
  "('r, 'i) keyring \<Rightarrow> places \<Rightarrow> uuid \<Rightarrow> bool \<Rightarrow> ('r desk, hotp_transaction) io" where
  "hotp_begin R P i non_interactive =
     io_bind (lock_profile P i) (\<lambda>_.
     io_bind (read_locked R P i TokenSeed non_interactive) (\<lambda>found.
     io_bind (io_lift (ok_or (new_error AuthenticationRequired
         ''HOTP requires an explicitly saved seed in an unlocked, durable OS credential store. Save the seed with consent before authenticating; session-only counters are unsafe across processes.'')
       (case found of Some s \<Rightarrow> if s = [] then None else Some s | None \<Rightarrow> None))) (\<lambda>seed.
     io_return \<lparr>ht_profile_id = i, ht_seed = seed, ht_non_interactive = non_interactive\<rparr>)))"

definition hotp_commit ::
  "('r, 'i) keyring \<Rightarrow> places \<Rightarrow> hotp_transaction \<Rightarrow> string option \<Rightarrow> ('r desk, unit) io" where
  "hotp_commit R P t new_seed =
     (case new_seed of
        None \<Rightarrow> io_return ()
      | Some seed \<Rightarrow>
          if seed = [] then io_fail (invalid ''The updated HOTP seed cannot be empty.'')
          else write_locked R P (ht_profile_id t) TokenSeed seed (ht_non_interactive t))"

end
