(* ===== verification/ProfileStore.thy ===== *)
theory ProfileStore
  imports Credentials ProfileModel
begin

text \<open>
  \<open>crates/client/src/profiles.rs\<close>: the profiles, settings and certificate pins of a user, in
  three files of one private directory. Every operation takes the metadata lock of the directory
  first and holds it to its end. Reading and writing JSON is the crate \<open>serde_json\<close>: the argument
  \<open>'u store_codec\<close>. The identifiers drawn by \<open>Uuid::new_v4\<close> are arguments.
\<close>

section \<open>Documents\<close>

record 'u store_codec =
  sc_value :: "u8 list \<Rightarrow> json option"
  sc_profiles :: "json \<Rightarrow> 'u profile_document option"
  sc_settings :: "json \<Rightarrow> settings_document option"
  sc_pins :: "json \<Rightarrow> pins_document option"
  sc_export :: "json \<Rightarrow> 'u profile_export option"
  sc_profiles_bytes :: "'u profile_document \<Rightarrow> u8 list option"
  sc_settings_bytes :: "settings_document \<Rightarrow> u8 list option"
  sc_pins_bytes :: "pins_document \<Rightarrow> u8 list option"
  sc_export_bytes :: "'u profile_export \<Rightarrow> u8 list option"

definition store_limit :: int where
  "store_limit = 8 * 1024 * 1024"

text \<open>\<open>file.take(LIMIT + 1).read_to_end\<close>; the second equation is for evaluation.\<close>

definition limited :: "u8 list \<Rightarrow> u8 list" where
  "limited bytes = take (nat store_limit + 1) bytes"

lemma limited_code [code]:
  "limited bytes = (if len bytes \<le> store_limit then bytes else take (nat store_limit + 1) bytes)"
  by (simp add: limited_def store_limit_def)

definition failure_at :: "os_path \<Rightarrow> error_code \<Rightarrow> string \<Rightarrow> err" where
  "failure_at p c msg = \<lparr>code = c, message = msg, details = Some (shown p)\<rparr>"

definition increment :: "u64 \<Rightarrow> u64 result" where
  "increment v = ok_or (new_error Conflict ''Metadata revision exhausted'') (checked_add v 1)"

definition stale :: "u64 \<Rightarrow> u64 \<Rightarrow> unit result" where
  "stale actual expected =
     (if actual \<noteq> expected
      then Inl (new_error Conflict ''Metadata changed; reload before saving'')
      else Inr ())"

definition no_profile :: err where
  "no_profile = new_error NotFound ''Profile does not exist''"

definition select :: "places \<Rightarrow> 'u profile list \<Rightarrow> string \<Rightarrow> 'u profile result" where
  "select P ps selector =
     ok_or no_profile
       (case uuid_parse P selector of
          Some i \<Rightarrow> List.find (\<lambda>p. pf_id p = i) ps
        | None \<Rightarrow> List.find (\<lambda>p. pf_name p = selector) ps)"

fun validate_onto ::
  "'u crates \<Rightarrow> uuid list \<Rightarrow> string list \<Rightarrow> 'u profile list \<Rightarrow> unit result" where
  "validate_onto X ids names [] = Inr ()"
| "validate_onto X ids names (p # ps) =
     rbind (profile_validate X p) (\<lambda>_.
     if pf_id p \<in> set ids \<or> pf_name p \<in> set names
     then Inl (new_error Conflict ''Duplicate profile ID or name'')
     else validate_onto X (pf_id p # ids) (pf_name p # names) ps)"

definition validate_profiles :: "'u crates \<Rightarrow> 'u profile list \<Rightarrow> unit result" where
  "validate_profiles X ps = validate_onto X [] [] ps"

text \<open>\<open>decode\<close>: the size, the schema version and the revision are checked before the document.\<close>

definition check_schema :: "os_path \<Rightarrow> json \<Rightarrow> unit result" where
  "check_schema path v =
     (case (case jget ''schema_version'' v of Some x \<Rightarrow> as_u64 x | None \<Rightarrow> None) of
        Some n \<Rightarrow>
          if n = 1 then Inr ()
          else if n > 1
          then Inl (failure_at path NewerSchema ''Metadata requires a newer application version'')
          else Inl (failure_at path CorruptStorage ''Invalid metadata schema version'')
      | None \<Rightarrow> Inl (failure_at path CorruptStorage ''Invalid metadata schema version''))"

definition check_revision :: "os_path \<Rightarrow> json \<Rightarrow> unit result" where
  "check_revision path v =
     (if (case jget ''revision'' v of
            Some x \<Rightarrow> (case as_u64 x of Some n \<Rightarrow> n = 0 | None \<Rightarrow> True)
          | None \<Rightarrow> False)
      then Inl (failure_at path CorruptStorage ''Invalid metadata revision'')
      else Inr ())"

definition decode ::
  "'u store_codec \<Rightarrow> (json \<Rightarrow> 'd option) \<Rightarrow> u8 list \<Rightarrow> os_path \<Rightarrow> 'd result" where
  "decode K from bytes path =
     (if len bytes > store_limit
      then Inl (failure_at path CorruptStorage ''Metadata exceeds size limit'')
      else
      rbind (ok_or (failure_at path CorruptStorage
               ''Malformed metadata; repair or restore this file'') (sc_value K bytes)) (\<lambda>v.
      rbind (check_schema path v) (\<lambda>_.
      rbind (check_revision path v) (\<lambda>_.
      ok_or (failure_at path CorruptStorage
        ''Invalid metadata document; repair or restore this file'') (from v)))))"

section \<open>Files\<close>

definition take_lock :: "os_path \<Rightarrow> ('r desk, unit) io" where
  "take_lock D =
     io_bind (ensure_private_directory D) (\<lambda>_.
     io_bind (open_private_lock (joined D ''metadata.lock'')) (\<lambda>_.
     probe (failure_at (joined D ''metadata.lock'') RuntimeFailure ''Cannot lock metadata'')))"

definition contents :: "os_path \<Rightarrow> 'r desk \<Rightarrow> u8 list" where
  "contents path m =
     (case map_of (files m) (path_text (full_path path m)) of Some f \<Rightarrow> f_data f | None \<Rightarrow> [])"

definition read_document ::
  "'u store_codec \<Rightarrow> (json \<Rightarrow> 'd option) \<Rightarrow> os_path \<Rightarrow> string \<Rightarrow> ('r desk, 'd option) io" where
  "read_document K from D name =
     (let path = joined D name in
      io_bind (open_private_read path) (\<lambda>opened.
      if opened = None then io_return None
      else
      io_bind (probe (failure_at path RuntimeFailure ''Cannot read metadata'')) (\<lambda>_.
      io_bind (io_get (\<lambda>m. limited (contents path m))) (\<lambda>bytes.
      io_bind (io_lift (decode K from bytes path)) (\<lambda>d. io_return (Some d))))))"

definition write_document ::
  "string \<Rightarrow> ('d \<Rightarrow> u8 list option) \<Rightarrow> os_path \<Rightarrow> string \<Rightarrow> 'd \<Rightarrow> ('r desk, unit) io" where
  "write_document fresh to D name d =
     (let path = joined D name in
      io_bind (io_lift (ok_or (failure_at path InvalidInput ''Cannot encode metadata'') (to d))) (\<lambda>bytes.
      if len bytes > store_limit
      then io_fail (failure_at path InvalidInput ''Metadata exceeds size limit'')
      else atomic_write fresh path bytes True))"

section \<open>Profiles\<close>

definition profiles_unlocked ::
  "'u crates \<Rightarrow> 'u store_codec \<Rightarrow> os_path \<Rightarrow> ('r desk, 'u profile_document) io" where
  "profiles_unlocked X K D =
     io_bind (read_document K (sc_profiles K) D ''profiles.json'') (\<lambda>found.
     let d = (case found of Some d \<Rightarrow> d
              | None \<Rightarrow> \<lparr>pd_schema_version = 1, pd_revision = 0, profiles = []\<rparr>) in
     io_bind (io_lift (map_err (failure_at (joined D ''profiles.json'') CorruptStorage
       ''Invalid stored profiles; repair or restore this file'')
       (validate_profiles X (profiles d)))) (\<lambda>_.
     io_return d))"

definition commit_profiles ::
  "string \<Rightarrow> 'u store_codec \<Rightarrow> os_path \<Rightarrow> 'u profile_document \<Rightarrow> ('r desk, unit) io" where
  "commit_profiles fresh K D d =
     io_bind (io_lift (increment (pd_revision d))) (\<lambda>r.
     write_document fresh (sc_profiles_bytes K) D ''profiles.json'' (d\<lparr>pd_revision := r\<rparr>))"

definition list_profiles ::
  "'u crates \<Rightarrow> 'u store_codec \<Rightarrow> os_path \<Rightarrow> ('r desk, 'u profile_document) io" where
  "list_profiles X K D = io_bind (take_lock D) (\<lambda>_. profiles_unlocked X K D)"

definition resolve ::
  "places \<Rightarrow> 'u crates \<Rightarrow> 'u store_codec \<Rightarrow> os_path \<Rightarrow> string \<Rightarrow> ('r desk, 'u profile) io" where
  "resolve P X K D selector =
     io_bind (list_profiles X K D) (\<lambda>d. io_lift (select P (profiles d) selector))"

definition create_profile ::
  "string \<Rightarrow> 'u crates \<Rightarrow> 'u store_codec \<Rightarrow> os_path \<Rightarrow> 'u profile \<Rightarrow> ('r desk, 'u profile) io" where
  "create_profile fresh X K D profile =
     io_bind (take_lock D) (\<lambda>_.
     io_bind (profiles_unlocked X K D) (\<lambda>d.
     let p = profile\<lparr>pf_revision := 1\<rparr>; d' = d\<lparr>profiles := profiles d @ [p]\<rparr> in
     io_bind (io_lift (profile_validate X p)) (\<lambda>_.
     io_bind (io_lift (validate_profiles X (profiles d'))) (\<lambda>_.
     io_bind (commit_profiles fresh K D d') (\<lambda>_.
     io_return p)))))"

definition update_profile ::
  "string \<Rightarrow> 'u crates \<Rightarrow> 'u store_codec \<Rightarrow> os_path \<Rightarrow> 'u profile \<Rightarrow> ('r desk, 'u profile) io" where
  "update_profile fresh X K D profile =
     io_bind (take_lock D) (\<lambda>_.
     io_bind (profiles_unlocked X K D) (\<lambda>d.
     io_bind (io_lift (profile_validate X profile)) (\<lambda>_.
     io_bind (io_lift (ok_or no_profile
       (position (\<lambda>p. pf_id p = pf_id profile) (profiles d)))) (\<lambda>i.
     io_bind (io_lift (stale (pf_revision (profiles d ! i)) (pf_revision profile))) (\<lambda>_.
     io_bind (io_lift (increment (pf_revision profile))) (\<lambda>r.
     let p = profile\<lparr>pf_revision := r\<rparr>; d' = d\<lparr>profiles := (profiles d)[i := p]\<rparr> in
     io_bind (io_lift (validate_profiles X (profiles d'))) (\<lambda>_.
     io_bind (commit_profiles fresh K D d') (\<lambda>_.
     io_return p))))))))"

definition duplicate_profile ::
  "string \<Rightarrow> uuid \<Rightarrow> places \<Rightarrow> 'u crates \<Rightarrow> 'u store_codec \<Rightarrow> os_path \<Rightarrow> string \<Rightarrow> string
     \<Rightarrow> ('r desk, 'u profile) io" where
  "duplicate_profile fresh new_id P X K D selector name =
     io_bind (take_lock D) (\<lambda>_.
     io_bind (profiles_unlocked X K D) (\<lambda>d.
     io_bind (io_lift (select P (profiles d) selector)) (\<lambda>found.
     let p = found\<lparr>pf_id := new_id, pf_revision := 1, pf_name := name\<rparr>;
         d' = d\<lparr>profiles := profiles d @ [p]\<rparr> in
     io_bind (io_lift (validate_profiles X (profiles d'))) (\<lambda>_.
     io_bind (commit_profiles fresh K D d') (\<lambda>_.
     io_return p)))))"

definition remove_profile ::
  "string \<Rightarrow> ('r, 'i) keyring \<Rightarrow> places \<Rightarrow> 'u crates \<Rightarrow> 'u store_codec \<Rightarrow> os_path
     \<Rightarrow> uuid \<Rightarrow> u64 \<Rightarrow> uuid list \<Rightarrow> ('r desk, unit) io" where
  "remove_profile fresh R P X K D target expected protected =
     io_bind (take_lock D) (\<lambda>_.
     if target \<in> set protected
     then io_fail (new_error Busy ''Cannot remove an active or pending profile'')
     else
     io_bind (profiles_unlocked X K D) (\<lambda>d.
     io_bind (io_lift (ok_or no_profile (position (\<lambda>p. pf_id p = target) (profiles d)))) (\<lambda>i.
     io_bind (io_lift (stale (pf_revision (profiles d ! i)) expected)) (\<lambda>_.
     io_bind (io_lift (increment (pd_revision d))) (\<lambda>_.
     io_bind (delete_profile_blocking R P target) (\<lambda>_.
     commit_profiles fresh K D (d\<lparr>profiles := remove_nth i (profiles d)\<rparr>)))))))"

section \<open>Import and export\<close>

definition import_name :: os_path where
  "import_name = \<lparr>is_absolute = False, components = [''<profile import>'']\<rparr>"

fun conflicts :: "places \<Rightarrow> uuid list \<Rightarrow> string list \<Rightarrow> 'u profile list \<Rightarrow> string list" where
  "conflicts P ids names [] = []"
| "conflicts P ids names (p # ps) =
     (if pf_id p \<in> set ids then [''duplicate ID '' @ uuid_text P (pf_id p)] else [])
     @ (if pf_name p \<in> set names then [''duplicate name '' @ pf_name p] else [])
     @ conflicts P (pf_id p # ids) (pf_name p # names) ps"

definition import_json ::
  "string \<Rightarrow> places \<Rightarrow> 'u crates \<Rightarrow> 'u store_codec \<Rightarrow> os_path \<Rightarrow> u8 list
     \<Rightarrow> ('r desk, 'u profile list) io" where
  "import_json fresh P X K D bytes =
     io_bind (io_lift (decode K (sc_export K) bytes import_name)) (\<lambda>imported.
     io_bind (io_lift (map_result (\<lambda>p. let p' = p\<lparr>pf_revision := 1\<rparr> in
       rbind (profile_validate X p') (\<lambda>_. Inr p')) (pe_profiles imported))) (\<lambda>ps.
     io_bind (take_lock D) (\<lambda>_.
     io_bind (profiles_unlocked X K D) (\<lambda>d.
     let cs = conflicts P (map pf_id (profiles d)) (map pf_name (profiles d)) ps in
     if cs \<noteq> []
     then io_fail \<lparr>code = Conflict, message = ''Import conflicts; no profiles were imported'',
                   details = Some (join ''; '' cs)\<rparr>
     else
     io_bind (commit_profiles fresh K D (d\<lparr>profiles := profiles d @ ps\<rparr>)) (\<lambda>_.
     io_return ps)))))"

definition export_json ::
  "places \<Rightarrow> 'u crates \<Rightarrow> 'u store_codec \<Rightarrow> os_path \<Rightarrow> string option \<Rightarrow> ('r desk, u8 list) io" where
  "export_json P X K D selector =
     io_bind (list_profiles X K D) (\<lambda>d.
     io_bind (io_lift (case selector of
                Some s \<Rightarrow> rbind (select P (profiles d) s) (\<lambda>p. Inr [p])
              | None \<Rightarrow> Inr (profiles d))) (\<lambda>ps.
     io_lift (ok_or (new_error RuntimeFailure ''Cannot encode profile export'')
       (sc_export_bytes K \<lparr>pe_schema_version = 1, pe_profiles = ps\<rparr>))))"

definition export_file ::
  "string \<Rightarrow> places \<Rightarrow> 'u crates \<Rightarrow> 'u store_codec \<Rightarrow> os_path \<Rightarrow> string option \<Rightarrow> os_path \<Rightarrow> bool
     \<Rightarrow> ('r desk, unit) io" where
  "export_file fresh P X K D selector path force =
     io_bind (export_json P X K D selector) (\<lambda>bytes. atomic_write fresh path bytes force)"

section \<open>Settings and pins\<close>

definition read_settings :: "'u store_codec \<Rightarrow> os_path \<Rightarrow> ('r desk, settings_document) io" where
  "read_settings K D =
     io_bind (take_lock D) (\<lambda>_.
     io_bind (read_document K (sc_settings K) D ''settings.json'') (\<lambda>found.
     io_return (case found of Some d \<Rightarrow> d
       | None \<Rightarrow> \<lparr>sd_schema_version = 1, sd_revision = 0, sd_settings = settings_default\<rparr>)))"

definition save_settings ::
  "string \<Rightarrow> 'u crates \<Rightarrow> 'u store_codec \<Rightarrow> os_path \<Rightarrow> settings \<Rightarrow> u64
     \<Rightarrow> ('r desk, settings_document) io" where
  "save_settings fresh X K D s expected =
     io_bind (take_lock D) (\<lambda>_.
     io_bind (read_document K (sc_settings K) D ''settings.json'') (\<lambda>old.
     let revision = (case old of Some d \<Rightarrow> sd_revision d | None \<Rightarrow> 0) in
     io_bind (io_lift (stale revision expected)) (\<lambda>_.
     io_bind (case auto_connect_profile_id s of
                None \<Rightarrow> io_return ()
              | Some chosen \<Rightarrow> io_bind (profiles_unlocked X K D) (\<lambda>d.
                  if \<not> list_ex (\<lambda>p. pf_id p = chosen) (profiles d)
                  then io_fail (new_error NotFound ''Auto-connect profile does not exist'')
                  else io_return ())) (\<lambda>_.
     io_bind (io_lift (increment revision)) (\<lambda>r.
     let d = \<lparr>sd_schema_version = 1, sd_revision = r, sd_settings = s\<rparr> in
     io_bind (write_document fresh (sc_settings_bytes K) D ''settings.json'' d) (\<lambda>_.
     io_return d))))))"

definition pins_path :: "os_path \<Rightarrow> os_path" where
  "pins_path D = joined D ''certificate-pins.json''"

fun check_pins ::
  "'u crates \<Rightarrow> os_path \<Rightarrow> (string \<times> u16) list \<Rightarrow> certificate_pin list \<Rightarrow> unit result" where
  "check_pins X path hosts [] = Inr ()"
| "check_pins X path hosts (c # cs) =
     rbind (map_err (failure_at path CorruptStorage ''Invalid stored certificate pin'')
       (certificate_pin_new X (pin_host c) (pin_port c) (pin_fingerprint c))) (\<lambda>normalized.
     if normalized \<noteq> c \<or> (pin_host c, pin_port c) \<in> set hosts
     then Inl (failure_at path CorruptStorage ''Invalid or duplicate stored certificate pin'')
     else check_pins X path ((pin_host c, pin_port c) # hosts) cs)"

definition pins_unlocked ::
  "'u crates \<Rightarrow> 'u store_codec \<Rightarrow> os_path \<Rightarrow> ('r desk, pins_document) io" where
  "pins_unlocked X K D =
     io_bind (read_document K (sc_pins K) D ''certificate-pins.json'') (\<lambda>found.
     let d = (case found of Some d \<Rightarrow> d
              | None \<Rightarrow> \<lparr>cd_schema_version = 1, cd_revision = 0, pins = []\<rparr>) in
     io_bind (io_lift (check_pins X (pins_path D) [] (pins d))) (\<lambda>_. io_return d))"

definition read_pins ::
  "'u crates \<Rightarrow> 'u store_codec \<Rightarrow> os_path \<Rightarrow> ('r desk, pins_document) io" where
  "read_pins X K D = io_bind (take_lock D) (\<lambda>_. pins_unlocked X K D)"

fun put_pin :: "certificate_pin \<Rightarrow> certificate_pin list \<Rightarrow> certificate_pin list" where
  "put_pin c [] = [c]"
| "put_pin c (x # xs) =
     (if pin_host x = pin_host c \<and> pin_port x = pin_port c then c # xs else x # put_pin c xs)"

definition save_pin ::
  "string \<Rightarrow> 'u crates \<Rightarrow> 'u store_codec \<Rightarrow> os_path \<Rightarrow> certificate_pin \<Rightarrow> u64
     \<Rightarrow> ('r desk, pins_document) io" where
  "save_pin fresh X K D pin expected =
     io_bind (io_lift (certificate_pin_new X (pin_host pin) (pin_port pin) (pin_fingerprint pin))) (\<lambda>c.
     io_bind (take_lock D) (\<lambda>_.
     io_bind (pins_unlocked X K D) (\<lambda>d.
     io_bind (io_lift (stale (cd_revision d) expected)) (\<lambda>_.
     io_bind (io_lift (increment (cd_revision d))) (\<lambda>r.
     let d' = d\<lparr>pins := put_pin c (pins d), cd_revision := r\<rparr> in
     io_bind (write_document fresh (sc_pins_bytes K) D ''certificate-pins.json'' d') (\<lambda>_.
     io_return d'))))))"

end
