(* ===== verification/Cells.thy ===== *)
theory Cells
  imports JournalLogic
begin

text \<open>
  The contract of a file that is replaced as a whole: after an attempt, however it ends, the cell
  holds what it held before or the new value, it holds the new value when the attempt reports
  success, and the rest of the machine is framed. The network journal provides it here, the private
  files of a user in \<open>PrivateLogic\<close>.
\<close>

locale atomic_cell =
  fixes cell :: "'m \<Rightarrow> 'c option" and image :: "'v \<Rightarrow> 'c" and replace :: "'v \<Rightarrow> ('m, unit) io"
    and ready :: "'m \<Rightarrow> bool" and frame :: "'m \<Rightarrow> 'm \<Rightarrow> bool"
  assumes replaces: "ready m \<Longrightarrow>
      runs (\<lambda>s. s = m) (replace v)
        (\<lambda>m'. frame m m' \<and> (cell m' = cell m \<or> cell m' = Some (image v)))
        (\<lambda>_ m'. frame m m' \<and> cell m' = Some (image v))"
begin

lemma replace_outcome:
  assumes "ready m" "replace v m = (r, m')"
  shows "frame m m'" "cell m' = cell m \<or> cell m' = Some (image v)"
    "r = Done x \<Longrightarrow> cell m' = Some (image v)"
  using runsD [OF replaces [OF assms(1)] refl assms(2)] by blast+

lemma replace_runs:
  assumes "\<And>m. P m \<Longrightarrow> ready m"
    and "\<And>m m'. P m \<Longrightarrow> frame m m' \<Longrightarrow> cell m' = cell m \<Longrightarrow> C m'"
    and "\<And>m m'. P m \<Longrightarrow> frame m m' \<Longrightarrow> cell m' = Some (image v) \<Longrightarrow> C m' \<and> R m'"
  shows "runs P (replace v) C (\<lambda>_. R)"
proof (rule runsI)
  fix m r m'
  assume P: "P m" and f: "replace v m = (r, m')"
  note out = replace_outcome [OF assms(1) [OF P] f]
  show "C m' \<and> (\<forall>x. r = Done x \<longrightarrow> R m')"
    using out(2) assms(2) [OF P out(1)] assms(3) [OF P out(1)] out(3) by blast
qed

text \<open>What holds of the old and of the new contents holds at every moment.\<close>

lemma replace_keeps:
  assumes "\<And>m. I m \<Longrightarrow> ready m" and "\<And>m m'. I m \<Longrightarrow> frame m m' \<Longrightarrow> Q (cell m') \<Longrightarrow> I m'"
    and "\<And>m. I m \<Longrightarrow> Q (cell m)" and "Q (Some (image v))"
  shows "keeps I (replace v)"
  unfolding keeps_def by (rule replace_runs) (use assms in auto)

end

text \<open>The journal of a transaction.\<close>

lemma save_replaces:
  "runs (\<lambda>s. s = m) (save K j)
     (\<lambda>m'. saving K j m m' \<and> (file_at m' (journal_file K (transaction j))
          = file_at m (journal_file K (transaction j)) \<or> committed K j m'))
     (\<lambda>_ m'. saving K j m m' \<and> committed K j m')"
  by (rule runs_weaken [OF save_runs]) (auto simp: drafting_def saving_def)

definition journal_cell :: "journal_codec \<Rightarrow> transaction_id \<Rightarrow> 'k machine \<Rightarrow> u8 list option" where
  "journal_cell K t m = map_option f_data (file_at m (journal_file K t))"

lemma journal_cell_outcome:
  "committed K j m \<Longrightarrow> journal_cell K (transaction j) m = Some (jc_encode K j)"
  by (auto simp: committed_def journal_cell_def)

interpretation journal_file: atomic_cell "journal_cell K t" "\<lambda>j. jc_encode K (j\<lparr>transaction := t\<rparr>)"
  "\<lambda>j. save K (j\<lparr>transaction := t\<rparr>)" "\<lambda>_. True" "\<lambda>m m'. same_world m m'"
  for K t
proof
  fix m :: "'a machine" and v :: journal
  let ?j = "v\<lparr>transaction := t\<rparr>"
  show "runs (\<lambda>s. s = m) (save K ?j)
      (\<lambda>m'. same_world m m' \<and> (journal_cell K t m' = journal_cell K t m
          \<or> journal_cell K t m' = Some (jc_encode K ?j)))
      (\<lambda>_ m'. same_world m m' \<and> journal_cell K t m' = Some (jc_encode K ?j))"
    using save_replaces [of m K ?j]
    by (rule runs_weaken) (auto simp: saving_def journal_cell_def committed_def)
qed

end
