(* ===== verification/PrivateLogic.thy ===== *)
theory PrivateLogic
  imports PrivateFiles Cells
begin

text \<open>
  What the operations on private files do to the desk: looking leaves everything as it is, and
  \<open>atomic_write\<close> leaves the destination as it was or with the new contents, whatever fails and
  wherever the process dies.
\<close>

section \<open>Looking\<close>

text \<open>Only fates were used since \<open>m0\<close>.\<close>

definition untouched :: "'r desk \<Rightarrow> 'r desk \<Rightarrow> bool" where
  "untouched m0 m \<longleftrightarrow> same_world m0 m \<and> files m = files m0"

lemma untouched_fates [simp]: "untouched m0 (m\<lparr>fates := fs\<rparr>) \<longleftrightarrow> untouched m0 m"
  by (simp add: untouched_def)

lemma untouched_refl [simp]: "untouched m m"
  by (simp add: untouched_def)

lemma untouched_full_path: "untouched m0 m \<Longrightarrow> full_path p m = full_path p m0"
  by (simp add: untouched_def same_world_def full_path_def)

declare keeps_probe [keeps_rules]

lemma looking [keeps_rules]:
  "keeps (untouched m0) (absolute p)" "keeps (untouched m0) (check_ancestor a)"
  "keeps (untouched m0) (check_ancestors q)" "keeps (untouched m0) (asked c)"
  "keeps (untouched m0) (verify_directory q)" "keeps (untouched m0) (verify_file q)"
  "keeps (untouched m0) (sync_folder q)"
  unfolding absolute_def check_ancestors_def check_ancestor_def asked_def verify_directory_def
    verify_file_def sync_folder_def
  by (intro keeps_rules; simp)+

lemma open_looks [keeps_rules]: "keeps (untouched m0) (open_private q False x)"
  unfolding open_private_def Let_def simp_thms if_True by (intro keeps_rules; simp)

lemma open_read_looks [keeps_rules]: "keeps (untouched m0) (open_private_read p)"
  unfolding open_private_read_def by (intro keeps_rules)

lemma absolute_runs:
  "runs (untouched m0) (absolute p) (untouched m0) (\<lambda>q m. untouched m0 m \<and> q = full_path p m0)"
  unfolding absolute_def
proof (intro runs_bind)
  show "runs (untouched m0) (if is_absolute p then io_return ()
     else probe \<lparr>code = RuntimeFailure, message = ''Cannot locate working directory'', details = Some (shown p)\<rparr>)
     (untouched m0) (\<lambda>_. untouched m0)"
    by (fold keeps_def) (intro keeps_rules; simp)
  show "runs (untouched m0) (io_get (full_path p)) (untouched m0)
      (\<lambda>q m. untouched m0 m \<and> q = full_path p m0)"
    by (rule runs_get) (simp add: untouched_full_path)
  show "runs (\<lambda>m. untouched m0 m \<and> q = full_path p m0)
     (if ''..'' \<in> set q
      then io_fail (private_error q ''Parent traversal is not permitted in metadata paths'')
      else io_return q) (untouched m0) (\<lambda>q m. untouched m0 m \<and> q = full_path p m0)" for q
    by (intro runs_if runs_fail runs_return) simp_all
qed

section \<open>Writing the temporary file\<close>

text \<open>The temporary file is a private one of the user, its contents satisfy \<open>d\<close>, and nothing else
  changed since \<open>m0\<close>, where it was missing.\<close>

definition penned :: "string \<Rightarrow> (u8 list \<Rightarrow> bool) \<Rightarrow> 'r desk \<Rightarrow> 'r desk \<Rightarrow> bool" where
  "penned t d m0 m \<longleftrightarrow> drafting t m0 m \<and> file_at m0 t = None
     \<and> (\<exists>f. file_at m t = Some f \<and> private_file (euid m0) f \<and> d (f_data f))"

lemma penned_fates [simp]: "penned t d m0 (m\<lparr>fates := fs\<rparr>) \<longleftrightarrow> penned t d m0 m"
  by (simp add: penned_def)

lemma untouched_drafting: "untouched m0 m \<Longrightarrow> drafting t m0 m"
  by (simp add: untouched_def drafting_def file_at_def)

lemma created_private: "private_file user (created_file user)"
  by (simp add: private_file_def created_file_def)

lemma verify_runs:
  assumes "\<And>m fs. J m \<Longrightarrow> J (m\<lparr>fates := fs\<rparr>)" and "\<And>m. J m \<Longrightarrow> C m"
  shows "runs J (verify_file q) C (\<lambda>_. J)"
proof -
  have "keeps J (verify_file q)"
    unfolding verify_file_def by (intro keeps_rules; simp add: assms(1))
  then show ?thesis
    unfolding keeps_def by (rule runs_weaken) (use assms(2) in auto)
qed

text \<open>Opening a file that is to be made when missing, for an invariant \<open>J\<close> of what was made.\<close>

lemma open_making:
  assumes I: "\<And>m fs. I m \<Longrightarrow> I (m\<lparr>fates := fs\<rparr>)" "\<And>m. I m \<Longrightarrow> C m"
    and J: "\<And>m fs. J m \<Longrightarrow> J (m\<lparr>fates := fs\<rparr>)" "\<And>m. J m \<Longrightarrow> C m"
    and made: "\<And>m. I m \<Longrightarrow> file_at m (path_text q) = None
      \<Longrightarrow> J (m\<lparr>files := put_file (path_text q) (created_file (euid m)) (files m)\<rparr>)"
    and found: "\<And>m. \<not> exclusive \<Longrightarrow> I m \<Longrightarrow> J m"
  shows "runs I (open_private q True exclusive) C (\<lambda>_. J)"
proof -
  let ?e = "private_error q ''Cannot open private metadata file''"
  let ?s = "\<lambda>m. (map_of (files m) (path_text q), is_directory q m, q \<noteq> [] \<and> is_directory (butlast q) m)"
  let ?make = "\<lambda>m. m\<lparr>files := put_file (path_text q) (created_file (euid m)) (files m)\<rparr>"
  have new: "runs (\<lambda>m. I m \<and> file_at m (path_text q) = None) (effect ?e (whole ?make)) C (\<lambda>_. J)"
  proof (rule runs_effect)
    fix m :: "'a desk" and fs
    assume "I m \<and> file_at m (path_text q) = None"
    then have m: "I (m\<lparr>fates := fs\<rparr>)" "file_at (m\<lparr>fates := fs\<rparr>) (path_text q) = None"
      by (auto intro: I(1))
    show "C (whole ?make None (m\<lparr>fates := fs\<rparr>)) \<and> J (whole ?make None (m\<lparr>fates := fs\<rparr>))"
      using made [OF m] J(2) by (simp add: whole_def)
    show "C (whole ?make (Some n) (m\<lparr>fates := fs\<rparr>))" for n
      using made [OF m] J(2) I(2) [OF m(1)] by (simp add: whole_def)
  qed
  have ver: "runs J (verify_file q) C (\<lambda>_. J)"
    by (rule verify_runs) (fact J)+
  show ?thesis
    unfolding open_private_def Let_def
  proof (rule runs_bind)
    show "runs I (io_get ?s) C (\<lambda>r m. I m \<and> fst r = file_at m (path_text q))"
      by (rule runs_get) (simp add: I file_at_def)
    show "runs (\<lambda>m. I m \<and> fst r = file_at m (path_text q)) (case r of (found, folder, fits) \<Rightarrow>
      if found = None \<and> \<not> folder
      then if \<not> True then io_bind (probe ?e) (\<lambda>_. io_return None)
           else if \<not> fits then io_fail ?e
           else io_bind (effect ?e (whole ?make)) (\<lambda>_. verify_file q)
      else if True \<and> (exclusive \<or> folder) then io_fail ?e
      else if (case found of Some f \<Rightarrow> fm_symlink (f_meta f) | None \<Rightarrow> False) then io_fail ?e
      else io_bind (probe ?e) (\<lambda>_. verify_file q)) C (\<lambda>_. J)" for r
    proof (cases r)
      case (fields f folder fits)
      show ?thesis
        unfolding fields prod.case fst_conv
      proof (intro runs_if)
        assume "f = None \<and> \<not> folder"
        then show "runs (\<lambda>m. I m \<and> f = file_at m (path_text q))
            (io_bind (effect ?e (whole ?make)) (\<lambda>_. verify_file q)) C (\<lambda>_. J)"
          by (intro runs_bind [OF runs_weaken [OF new] ver]) simp_all
      next
        assume "\<not> (True \<and> (exclusive \<or> folder))"
        then have IJ: "I m \<Longrightarrow> J m" for m by (simp add: found)
        have "runs J (probe ?e) C (\<lambda>_. J)"
          by (rule runs_probe) (fact J)+
        from runs_bind [OF this ver]
        show "runs (\<lambda>m. I m \<and> f = file_at m (path_text q))
            (io_bind (probe ?e) (\<lambda>_. verify_file q)) C (\<lambda>_. J)"
          by (rule runs_weaken) (simp_all add: IJ)
      qed (auto intro!: runs_fail simp: I)
    qed
  qed
qed

lemma open_temporary:
  "runs (untouched m0) (open_private q True True) (drafting (path_text q) m0)
     (\<lambda>_. penned (path_text q) (\<lambda>_. True) m0)"
proof (rule open_making)
  fix m
  assume u: "untouched m0 m" and n: "file_at m (path_text q) = None"
  then have "euid m = euid m0" "file_at m0 (path_text q) = None"
    by (simp_all add: untouched_def same_world_def file_at_def)
  with u show "penned (path_text q) (\<lambda>_. True) m0
      (m\<lparr>files := put_file (path_text q) (created_file (euid m)) (files m)\<rparr>)"
    by (simp add: penned_def created_private drafting_put untouched_drafting)
qed (auto simp: untouched_drafting penned_def)

lemma write_penned:
  assumes "penned t d m0 m"
  shows "penned t (\<lambda>c. c = (case short of None \<Rightarrow> bytes | Some n \<Rightarrow> take n bytes)) m0
           (write_file t bytes short m)"
proof -
  obtain f where f: "map_of (files m) t = Some f" "private_file (euid m0) f"
    using assms by (auto simp: penned_def file_at_def)
  have "private_file (euid m0) (f\<lparr>f_data := c\<rparr>)" for c
    using f(2) by (simp add: private_file_def)
  then show ?thesis
    using assms f by (simp add: write_file_def penned_def drafting_put)
qed

section \<open>Publishing it\<close>

text \<open>The state after an attempt to write \<open>bytes\<close> to \<open>n\<close> in \<open>m0\<close> by way of \<open>t\<close>.\<close>

definition holds :: "string \<Rightarrow> u8 list \<Rightarrow> 'r desk \<Rightarrow> bool" where
  "holds n bytes m \<longleftrightarrow>
     (\<exists>f. file_at m n = Some f \<and> private_file (euid m) f \<and> f_data f = bytes)"

definition settled :: "string \<Rightarrow> string \<Rightarrow> u8 list \<Rightarrow> 'r desk \<Rightarrow> 'r desk \<Rightarrow> bool" where
  "settled n t bytes m0 m \<longleftrightarrow> same_world m0 m
     \<and> (\<forall>k. k \<noteq> n \<and> k \<noteq> t \<longrightarrow> file_at m k = file_at m0 k)
     \<and> (file_at m0 t \<noteq> None \<longrightarrow> t \<noteq> n \<longrightarrow> file_at m t = file_at m0 t)
     \<and> (file_at m n = file_at m0 n \<or> holds n bytes m)"

lemma settled_fates [simp]:
  "settled n t bytes m0 (m\<lparr>fates := fs\<rparr>) \<longleftrightarrow> settled n t bytes m0 m"
  "holds n bytes (m\<lparr>fates := fs\<rparr>) \<longleftrightarrow> holds n bytes m"
  by (simp_all add: settled_def holds_def)

lemma untouched_settled: "untouched m0 m \<Longrightarrow> settled n t bytes m0 m"
  by (simp add: untouched_def settled_def file_at_def)

lemma drafting_settled:
  "drafting t m0 m \<Longrightarrow> file_at m0 t = None \<Longrightarrow> n \<noteq> t \<Longrightarrow> settled n t bytes m0 m"
  by (simp add: drafting_def settled_def)

lemma penned_settled: "penned t d m0 m \<Longrightarrow> n \<noteq> t \<Longrightarrow> settled n t bytes m0 m"
  by (auto simp: penned_def intro: drafting_settled)

lemma rename_holds:
  assumes "penned t (\<lambda>c. c = bytes) m0 m" and "n \<noteq> t"
  shows "settled n t bytes m0 (rename_file t n m) \<and> holds n bytes (rename_file t n m)"
proof -
  obtain f where f: "map_of (files m) t = Some f" "private_file (euid m0) f" "f_data f = bytes"
    using assms(1) by (auto simp: penned_def file_at_def)
  have m': "rename_file t n m = m\<lparr>files := put_file n f (del_file t (files m))\<rparr>"
    using f(1) by (simp add: rename_file_def)
  have w: "same_world m0 m" "euid m = euid m0"
    using assms(1) by (simp_all add: penned_def drafting_def same_world_def)
  have "holds n bytes (rename_file t n m)"
    using f w by (simp add: m' holds_def file_at_def)
  moreover have "file_at (rename_file t n m) k = file_at m0 k" if "k \<noteq> n" "k \<noteq> t" for k
    using assms(1) that by (simp add: m' file_at_def penned_def drafting_def)
  ultimately show ?thesis
    using w assms(1) by (simp add: m' settled_def penned_def)
qed

lemma open_temporary_settled:
  assumes "n \<noteq> t" and "t = path_text q"
  shows "runs (untouched m0) (open_private q True True) (settled n t bytes m0)
           (\<lambda>_. penned t (\<lambda>_. True) m0)"
proof (rule runsI)
  fix m r m'
  assume u: "untouched m0 m" and o: "open_private q True True m = (r, m')"
  have "penned t (\<lambda>_. True) m0 m'" if "r = Done x" for x
    using runsD(2) [OF open_temporary u o that] by (simp add: assms(2))
  moreover have "settled n t bytes m0 m'"
  proof (cases "file_at m0 t")
    case None
    with runsD(1) [OF open_temporary u o] assms show ?thesis
      by (auto intro: drafting_settled)
  next
    case (Some f)
    then have "open_private q True True m
        = (Fault (private_error q ''Cannot open private metadata file''), m)"
      using u by (simp add: open_private_def Let_def io_defs untouched_def file_at_def assms(2))
    with u o show ?thesis by (simp add: untouched_settled)
  qed
  ultimately show "settled n t bytes m0 m' \<and> (\<forall>x. r = Done x \<longrightarrow> penned t (\<lambda>_. True) m0 m')"
    by blast
qed

lemma publish_runs:
  assumes "n \<noteq> t" and "n = path_text p" and "t = path_text q"
  shows "runs (penned t (\<lambda>_. True) m0) (publish q p bytes True) (settled n t bytes m0)
           (\<lambda>_ m. settled n t bytes m0 m \<and> holds n bytes m)"
  unfolding publish_def Let_def replace_file_def assms(2,3)
proof (intro runs_bind)
  note ne = assms(1) [unfolded assms(2,3)]
  let ?n = "path_text p" and ?t = "path_text q"
  let ?e = "private_error q ''Cannot durably write metadata''"
  have w: "penned ?t d m0 m \<Longrightarrow> settled ?n ?t bytes m0 m" for d m
    by (rule penned_settled) (use ne in simp_all)
  show "runs (penned ?t (\<lambda>_. True) m0) (effect ?e (write_file ?t bytes))
      (settled ?n ?t bytes m0) (\<lambda>_. penned ?t (\<lambda>c. c = bytes) m0)"
  proof (rule runs_effect)
    fix m :: "'a desk" and fs
    assume "penned ?t (\<lambda>_. True) m0 m"
    then have p: "penned ?t (\<lambda>_. True) m0 (m\<lparr>fates := fs\<rparr>)" by simp
    show "settled ?n ?t bytes m0 (write_file ?t bytes None (m\<lparr>fates := fs\<rparr>))
        \<and> penned ?t (\<lambda>c. c = bytes) m0 (write_file ?t bytes None (m\<lparr>fates := fs\<rparr>))"
      using write_penned [OF p, of bytes None] by (auto intro: w)
    show "settled ?n ?t bytes m0 (write_file ?t bytes (Some n) (m\<lparr>fates := fs\<rparr>))" for n
      by (rule w [OF write_penned [OF p]])
  qed
  show "runs (penned ?t (\<lambda>c. c = bytes) m0) (probe ?e) (settled ?n ?t bytes m0)
      (\<lambda>_. penned ?t (\<lambda>c. c = bytes) m0)"
    by (rule runs_probe) (simp_all add: w)
  show "runs (penned ?t (\<lambda>c. c = bytes) m0)
      (if True then effect (private_error p ''Cannot atomically replace metadata'')
             (whole (rename_file ?t ?n))
      else io_bind (io_get (present p)) (\<lambda>taken.
           if taken then io_fail destination_exists
           else
           io_bind (effect (private_error p ''Cannot atomically publish metadata'')
             (whole (link_name ?t ?n))) (\<lambda>_.
           effect (private_error q ''Cannot remove temporary metadata link'')
             (whole (remove_name ?t)))))
      (settled ?n ?t bytes m0) (\<lambda>_ m. settled ?n ?t bytes m0 m \<and> holds ?n bytes m)"
    unfolding if_True
    by (rule runs_effect) (use ne in \<open>auto simp: whole_def rename_holds intro: w\<close>)
  show "runs (\<lambda>m. settled ?n ?t bytes m0 m \<and> holds ?n bytes m) (sync_folder (butlast p))
      (settled ?n ?t bytes m0) (\<lambda>_ m. settled ?n ?t bytes m0 m \<and> holds ?n bytes m)"
    unfolding sync_folder_def by (rule runs_probe) simp_all
qed

section \<open>The whole of it\<close>

text \<open>The names that hard links are recorded for are names of files.\<close>

definition tidy :: "'r desk \<Rightarrow> bool" where
  "tidy m \<longleftrightarrow> (\<forall>(a, b) \<in> set (links (kernel m)). file_at m a \<noteq> None)"

lemma remove_unlinked:
  assumes "\<forall>(a, b) \<in> set (links (kernel m)). a \<noteq> t"
  shows "remove_name t m = m\<lparr>files := del_file t (files m)\<rparr>"
proof -
  have "filter (\<lambda>(a, _). a \<noteq> t) (links (kernel m)) = links (kernel m)"
    using assms by (auto intro: filter_True)
  moreover have "map_of (links (kernel m)) t = None"
    using assms by (force simp: map_of_eq_None_iff)
  ultimately show ?thesis by (simp add: remove_name_def)
qed

lemma remove_settled:
  assumes "settled n t bytes m0 m" "tidy m0" "file_at m0 t = None" "n \<noteq> t"
  shows "settled n t bytes m0 (remove_name t m)"
proof -
  have "kernel m = kernel m0"
    using assms(1) by (simp add: settled_def same_world_def)
  moreover have "\<forall>(a, b) \<in> set (links (kernel m0)). a \<noteq> t"
    using assms(2,3) by (auto simp: tidy_def)
  ultimately have "remove_name t m = m\<lparr>files := del_file t (files m)\<rparr>"
    by (simp add: remove_unlinked)
  then show ?thesis
    using assms by (auto simp: settled_def holds_def)
qed

text \<open>What is done with the outcome of publishing: a failure removes the temporary file.\<close>

lemma cleanup_runs:
  assumes "tidy m0" and "n \<noteq> t"
  shows "runs (\<lambda>m. file_at m0 t = None \<and> settled n t bytes m0 m \<and> (\<forall>x. r = Inr x \<longrightarrow> holds n bytes m))
     (case r of Inr _ \<Rightarrow> io_return ()
      | Inl e \<Rightarrow> io_bind (io_try (effect e (whole (remove_name t)))) (\<lambda>_. io_fail e))
     (settled n t bytes m0) (\<lambda>_ m. settled n t bytes m0 m \<and> holds n bytes m)"
proof (cases r)
  case (Inl e)
  have rm: "runs (\<lambda>m. file_at m0 t = None \<and> settled n t bytes m0 m)
      (effect e (whole (remove_name t))) (settled n t bytes m0) (\<lambda>_. settled n t bytes m0)"
  proof (rule runs_effect)
    fix m :: "'a desk" and fs
    assume "file_at m0 t = None \<and> settled n t bytes m0 m"
    then have s: "settled n t bytes m0 (m\<lparr>fates := fs\<rparr>)" "file_at m0 t = None" by simp_all
    note c = remove_settled [OF s(1) assms(1) s(2) assms(2)]
    show "settled n t bytes m0 (whole (remove_name t) None (m\<lparr>fates := fs\<rparr>))
        \<and> settled n t bytes m0 (whole (remove_name t) None (m\<lparr>fates := fs\<rparr>))"
      using c by (simp add: whole_def)
    show "settled n t bytes m0 (whole (remove_name t) (Some k) (m\<lparr>fates := fs\<rparr>))" for k
      using c s by (simp add: whole_def)
  qed
  show ?thesis
    unfolding Inl sum.case
    by (rule runs_weaken [OF runs_bind [OF runs_try [OF rm] runs_fail]]) auto
qed (auto intro: runs_return)

lemma path_text_snoc: "path_text (d @ [c]) = concat (map ((#) CHR ''/'') d) @ CHR ''/'' # c"
  by (simp add: path_text_def)

lemma path_text_snoc_eq [simp]: "path_text (d @ [a]) = path_text (d @ [b]) \<longleftrightarrow> a = b"
  by (simp add: path_text_snoc)

definition temporary_of :: "string \<Rightarrow> os_path \<Rightarrow> 'r desk \<Rightarrow> string" where
  "temporary_of fresh p m = path_text (butlast (full_path p m) @ [temporary_name fresh])"

definition name_of :: "os_path \<Rightarrow> 'r desk \<Rightarrow> string" where
  "name_of p m = path_text (full_path p m)"

lemma name_differs:
  assumes "full_path p m \<noteq> []" "last (full_path p m) \<noteq> temporary_name fresh"
  shows "name_of p m \<noteq> temporary_of fresh p m"
proof -
  have "full_path p m = butlast (full_path p m) @ [last (full_path p m)]"
    using assms(1) by simp
  then show ?thesis
    using assms(2) unfolding name_of_def temporary_of_def by (metis path_text_snoc_eq)
qed

lemma atomic_write_runs:
  assumes "tidy m0" and named: "full_path p m0 \<noteq> [] \<Longrightarrow> last (full_path p m0) \<noteq> temporary_name fresh"
  shows "runs (untouched m0) (atomic_write fresh p bytes True)
     (settled (name_of p m0) (temporary_of fresh p m0) bytes m0)
     (\<lambda>_ m. settled (name_of p m0) (temporary_of fresh p m0) bytes m0 m
        \<and> holds (name_of p m0) bytes m)"
proof -
  let ?q = "full_path p m0"
  let ?n = "name_of p m0" and ?t = "temporary_of fresh p m0"
  let ?S = "settled ?n ?t bytes m0"
  let ?R = "\<lambda>_::unit. \<lambda>m. ?S m \<and> holds ?n bytes m"
  have look: "keeps (untouched m0) f \<Longrightarrow> runs (untouched m0) f ?S (\<lambda>_. untouched m0)"
    for f :: "('a desk, 'b) io"
    unfolding keeps_def by (erule runs_weaken) (auto intro: untouched_settled)
  have body: "runs (untouched m0) (io_bind (check_ancestors q) (\<lambda>_.
     if q = [] then io_fail (private_error q ''Missing parent directory'')
     else
     io_bind (asked (is_directory (butlast q))) (\<lambda>folder.
     if \<not> folder
     then io_fail (private_error (butlast q) ''Destination directory does not exist'')
     else
     io_bind (open_private q False False) (\<lambda>existing.
     if existing \<noteq> None \<and> \<not> True then io_fail destination_exists
     else
     let temporary = butlast q @ [temporary_name fresh] in
     io_bind (open_private temporary True True) (\<lambda>opened.
     io_bind (io_lift (ok_or (private_error temporary ''Cannot create temporary file'') opened)) (\<lambda>_.
     io_bind (io_try (publish temporary q bytes True)) (\<lambda>r.
     case r of
       Inr _ \<Rightarrow> io_return ()
     | Inl e \<Rightarrow>
         io_bind (io_try (effect e (whole (remove_name (path_text temporary))))) (\<lambda>_.
         io_fail e)))))))) ?S ?R"
    if q: "q = ?q" for q
  proof (intro runs_bind [OF look] runs_if keeps_rules runs_fail, unfold Let_def)
    assume ne: "q \<noteq> []"
    then have d: "?n \<noteq> ?t" using q named name_differs by blast
    let ?u = "butlast q @ [temporary_name fresh]"
    have t: "?t = path_text ?u" and n: "?n = path_text q"
      by (simp_all add: temporary_of_def name_of_def q)
    let ?clean = "\<lambda>r. case r of Inr _ \<Rightarrow> io_return ()
      | Inl e \<Rightarrow> io_bind (io_try (effect e (whole (remove_name (path_text ?u))))) (\<lambda>_. io_fail e)"
    have clean: "runs (\<lambda>m. file_at m0 ?t = None \<and> ?S m \<and> (\<forall>x. r = Inr x \<longrightarrow> holds ?n bytes m))
         (?clean r) ?S ?R" for r
      unfolding t [symmetric] by (rule cleanup_runs [OF assms(1) d])
    have temp: "runs (untouched m0) (open_private ?u True True) ?S (\<lambda>_. penned ?t (\<lambda>_. True) m0)"
      by (rule open_temporary_settled [OF d t])
    show "runs (untouched m0) (io_bind (open_private ?u True True) (\<lambda>opened.
       io_bind (io_lift (ok_or (private_error ?u ''Cannot create temporary file'') opened)) (\<lambda>_.
       io_bind (io_try (publish ?u q bytes True)) ?clean))) ?S ?R"
    proof (rule runs_bind [OF temp], rule runs_bind [where R = "\<lambda>_. penned ?t (\<lambda>_. True) m0"])
      show "runs (penned ?t (\<lambda>_. True) m0)
          (io_lift (ok_or (private_error ?u ''Cannot create temporary file'') opened)) ?S
          (\<lambda>_. penned ?t (\<lambda>_. True) m0)" for opened :: "unit option"
        by (rule runs_lift) (simp_all add: penned_settled [OF _ d])
      show "runs (penned ?t (\<lambda>_. True) m0) (io_bind (io_try (publish ?u q bytes True)) ?clean) ?S ?R"
      proof (rule runs_bind [OF _ clean])
        let ?R = "\<lambda>r m. file_at m0 ?t = None \<and> ?S m \<and> (\<forall>x. r = Inr x \<longrightarrow> holds ?n bytes m)"
        have "runs (penned ?t (\<lambda>_. True) m0) (publish ?u q bytes True)
            (\<lambda>m. file_at m0 ?t = None \<and> ?S m) (\<lambda>x. ?R (Inr x))"
          by (rule runs_pre [where b = "file_at m0 ?t = None"], simp add: penned_def)
             (rule runs_weaken [OF publish_runs [OF d n t]], auto)
        then have "runs (penned ?t (\<lambda>_. True) m0) (io_try (publish ?u q bytes True))
            (\<lambda>m. file_at m0 ?t = None \<and> ?S m) ?R"
          by (rule runs_try [where R = ?R]) simp
        then show "runs (penned ?t (\<lambda>_. True) m0) (io_try (publish ?u q bytes True)) ?S ?R"
          by (rule runs_weaken) simp_all
      qed
    qed
  qed (auto intro: untouched_settled)
  have "runs (untouched m0) (absolute p) ?S (\<lambda>q m. untouched m0 m \<and> q = ?q)"
    by (rule runs_weaken [OF absolute_runs]) (auto intro: untouched_settled)
  then show ?thesis
    unfolding atomic_write_def
    by (rule runs_bind) (rule runs_pre, erule conjunct2, rule runs_weaken [OF body], assumption, simp_all)
qed

section \<open>Private files as cells\<close>

definition private_cell :: "os_path \<Rightarrow> 'r desk \<Rightarrow> (bool \<times> u8 list) option" where
  "private_cell p m =
     map_option (\<lambda>f. (private_file (euid m) f, f_data f)) (file_at m (name_of p m))"

text \<open>Only the files \<open>n\<close> and \<open>t\<close> may differ, and none of the two is lost.\<close>

definition wrote :: "string \<Rightarrow> string \<Rightarrow> 'r desk \<Rightarrow> 'r desk \<Rightarrow> bool" where
  "wrote n t m m' \<longleftrightarrow> same_world m m'
     \<and> (\<forall>k. k \<noteq> n \<and> k \<noteq> t \<longrightarrow> file_at m' k = file_at m k)
     \<and> (\<forall>k. file_at m k \<noteq> None \<longrightarrow> file_at m' k \<noteq> None)"

definition apart :: "string \<Rightarrow> os_path \<Rightarrow> 'r desk \<Rightarrow> bool" where
  "apart fresh p m \<longleftrightarrow>
     tidy m \<and> (full_path p m \<noteq> [] \<longrightarrow> last (full_path p m) \<noteq> temporary_name fresh)"

lemma settled_wrote:
  assumes "settled n t bytes m m'"
  shows "wrote n t m m'"
proof -
  have "file_at m' k \<noteq> None" if "file_at m k \<noteq> None" for k
  proof -
    consider "k = n" | "k = t" "t \<noteq> n" | "k \<noteq> n" "k \<noteq> t" by blast
    then show ?thesis
      using assms that unfolding settled_def holds_def by cases (metis option.distinct(1))+
  qed
  then show ?thesis
    using assms unfolding settled_def wrote_def by blast
qed

lemma settled_cell:
  assumes "settled (name_of p m) t bytes m m'"
  shows "private_cell p m' = private_cell p m \<or> private_cell p m' = Some (True, bytes)"
    and "holds (name_of p m) bytes m' \<Longrightarrow> private_cell p m' = Some (True, bytes)"
proof -
  have w: "euid m' = euid m" "name_of p m' = name_of p m"
    using assms by (simp_all add: settled_def same_world_def name_of_def full_path_def)
  then show "holds (name_of p m) bytes m' \<Longrightarrow> private_cell p m' = Some (True, bytes)"
    by (auto simp: private_cell_def holds_def)
  then show "private_cell p m' = private_cell p m \<or> private_cell p m' = Some (True, bytes)"
    using assms w by (auto simp: settled_def private_cell_def)
qed

interpretation private_file: atomic_cell "private_cell p" "Pair True"
  "\<lambda>bytes. atomic_write fresh p bytes True" "apart fresh p"
  "\<lambda>m. wrote (name_of p m) (temporary_of fresh p m) m" for fresh p
proof
  fix m :: "'a desk" and bytes
  assume "apart fresh p m"
  then have r: "tidy m" "full_path p m \<noteq> [] \<Longrightarrow> last (full_path p m) \<noteq> temporary_name fresh"
    by (simp_all add: apart_def)
  show "runs (\<lambda>s. s = m) (atomic_write fresh p bytes True)
      (\<lambda>m'. wrote (name_of p m) (temporary_of fresh p m) m m'
         \<and> (private_cell p m' = private_cell p m \<or> private_cell p m' = Some (True, bytes)))
      (\<lambda>_ m'. wrote (name_of p m) (temporary_of fresh p m) m m'
         \<and> private_cell p m' = Some (True, bytes))"
  proof (rule runs_weaken [OF atomic_write_runs [OF r]])
    show "untouched m s" if "s = m" for s
      using that by simp
  next
    fix s
    assume s: "settled (name_of p m) (temporary_of fresh p m) bytes m s"
    show "wrote (name_of p m) (temporary_of fresh p m) m s
        \<and> (private_cell p s = private_cell p m \<or> private_cell p s = Some (True, bytes))"
      using settled_wrote [OF s] settled_cell(1) [OF s] by blast
  next
    fix s
    assume s: "settled (name_of p m) (temporary_of fresh p m) bytes m s \<and> holds (name_of p m) bytes s"
    show "wrote (name_of p m) (temporary_of fresh p m) m s \<and> private_cell p s = Some (True, bytes)"
      using settled_wrote [OF conjunct1 [OF s]] settled_cell(2) [OF conjunct1 [OF s] conjunct2 [OF s]]
      by blast
  qed
qed

lemma wrote_tidy: "wrote n t m m' \<Longrightarrow> tidy m \<Longrightarrow> tidy m'"
  by (auto simp: wrote_def tidy_def same_world_def)

end
