(* ===== verification/ProfileLogic.thy ===== *)
theory ProfileLogic
  imports ProfileStore PrivateLogic
begin

text \<open>
  What the operations of the profile store leave behind. Everything before a write is calm: it
  makes directories and lock files, uses up fates and talks to the keyring, and changes no other
  file. A write goes through the contract of the private cells.
\<close>

section \<open>Calm operations\<close>

definition lock_name :: "string \<Rightarrow> bool" where
  "lock_name n \<longleftrightarrow> n \<noteq> [] \<and> last n = CHR ''k''"

definition calm :: "'r desk \<Rightarrow> 'r desk \<Rightarrow> bool" where
  "calm m0 m \<longleftrightarrow> euid m = euid m0 \<and> cwd (kernel m) = cwd (kernel m0)
     \<and> links (kernel m) = links (kernel m0)
     \<and> (\<forall>k. file_at m k = file_at m0 k \<or> file_at m0 k = None \<and> lock_name k)"

lemma calm_refl [simp]: "calm m m"
  by (simp add: calm_def)

lemma calm_simps [simp]:
  "calm m0 (m\<lparr>fates := fs\<rparr>) \<longleftrightarrow> calm m0 m"
  "calm m0 (m\<lparr>kernel := (kernel m)\<lparr>dirs := ds\<rparr>\<rparr>) \<longleftrightarrow> calm m0 m"
  "calm m0 (m\<lparr>kernel := (kernel m)\<lparr>vault := v\<rparr>\<rparr>) \<longleftrightarrow> calm m0 m"
  "calm m0 (m\<lparr>fates := fs, kernel := (kernel m)\<lparr>dirs := ds\<rparr>\<rparr>) \<longleftrightarrow> calm m0 m"
  by (simp_all add: calm_def file_at_def)

lemma calm_trans: "calm a b \<Longrightarrow> calm b c \<Longrightarrow> calm a c"
  unfolding calm_def by metis

lemma untouched_calm: "calm m0 m \<Longrightarrow> untouched m s \<Longrightarrow> calm m0 s"
  by (simp add: calm_def untouched_def same_world_def file_at_def)

lemma calm_full_path: "calm m0 m \<Longrightarrow> full_path p m = full_path p m0"
  by (simp add: calm_def full_path_def)

lemma calm_tidy: "calm m0 m \<Longrightarrow> tidy m0 \<Longrightarrow> tidy m"
  unfolding calm_def tidy_def by (metis (mono_tags, lifting) case_prodD case_prodI2)

lemma runs_from: "(\<And>m. P m \<Longrightarrow> runs (\<lambda>s. s = m) f C R) \<Longrightarrow> runs P f C R"
  by (auto simp: runs_def)

lemma looks_calm: "(\<And>m. keeps (untouched m) f) \<Longrightarrow> keeps (calm m0) f"
proof (rule keepsI)
  fix m :: "'a desk"
  assume k: "\<And>m. keeps (untouched m) f" and c: "calm m0 m"
  have "untouched m (snd (f m))"
    using keepsD [OF k [of m] untouched_refl] by (metis prod.collapse)
  then show "calm m0 (snd (f m))" by (rule untouched_calm [OF c])
qed

lemmas calm_looks [keeps_rules] = looking [THEN looks_calm] open_looks [THEN looks_calm]
  open_read_looks [THEN looks_calm]

lemma calm_probe [keeps_rules]: "keeps (calm m0) (probe e)"
  by (rule keeps_probe) simp

lemma calm_create_directory [keeps_rules]: "keeps (calm m0) (create_directory p)"
proof -
  have "keeps (calm m0) (effect e (whole (\<lambda>m. if here then m
      else m\<lparr>kernel := (kernel m)\<lparr>dirs := (path_text p, \<lparr>dm_uid = euid m, dm_mode = 0x1C0\<rparr>)
             # dirs (kernel m)\<rparr>\<rparr>)))" for e here
    unfolding keeps_def by (rule runs_effect) (simp_all add: whole_def)
  then show ?thesis
    unfolding create_directory_def by (intro keeps_rules)
qed

lemma calm_make_private [keeps_rules]: "keeps (calm m0) (make_private p)"
  by (induction p) (auto intro!: keeps_rules)

lemma calm_ensure [keeps_rules]: "keeps (calm m0) (ensure_private_directory p)"
  unfolding ensure_private_directory_def by (intro keeps_rules)

lemma last_path_text: "name \<noteq> [] \<Longrightarrow> last (path_text (d @ [name])) = last name"
  by (simp add: path_text_snoc)

lemma lock_path: "lock_name (path_text (d @ [name])) \<longleftrightarrow> name \<noteq> [] \<and> lock_name name"
proof (cases name)
  case Nil
  then show ?thesis by (simp add: lock_name_def path_text_snoc)
qed (simp add: lock_name_def path_text_snoc)

lemma calm_put:
  assumes "calm m0 m" "file_at m n = None" "lock_name n"
  shows "calm m0 (m\<lparr>files := put_file n f (files m)\<rparr>)"
proof -
  have "file_at m0 n = None"
    using assms(1,2) unfolding calm_def by metis
  then show ?thesis
    using assms by (simp add: calm_def)
qed

lemma calm_open_lock:
  assumes "lock_name (path_text q)"
  shows "keeps (calm m0) (open_private q True False)"
  unfolding keeps_def by (rule open_making) (simp_all add: calm_put assms)

lemma absolute_calm:
  "runs (calm m0) (absolute p) (calm m0) (\<lambda>q m. calm m0 m \<and> q = full_path p m0)"
proof (rule runs_from)
  fix m :: "'a desk"
  assume c: "calm m0 m"
  show "runs (\<lambda>s. s = m) (absolute p) (calm m0) (\<lambda>q m. calm m0 m \<and> q = full_path p m0)"
    by (rule runs_weaken [OF absolute_runs [of m p]])
       (auto intro: untouched_calm [OF c] calm_full_path [OF c])
qed

lemma calm_open_private_lock [keeps_rules]:
  assumes "lock_name name"
  shows "keeps (calm m0) (open_private_lock (joined d name))"
proof -
  have "full_path (joined d name) m0 = full_path d m0 @ [name]"
    by (simp add: full_path_def joined_def)
  moreover have "name \<noteq> []"
    using assms by (simp add: lock_name_def)
  ultimately have "lock_name (path_text (full_path (joined d name) m0))"
    using assms by (simp add: lock_path)
  then have o: "keeps (calm m0) (open_private (full_path (joined d name) m0) True False)"
    by (rule calm_open_lock)
  show ?thesis
    unfolding open_private_lock_def keeps_def
  proof (rule runs_bind [OF absolute_calm])
    fix q
    show "runs (\<lambda>m. calm m0 m \<and> q = full_path (joined d name) m0) (io_bind (check_ancestors q) (\<lambda>_.
     io_bind (open_private q True False) (\<lambda>opened.
     io_lift (ok_or (private_error q ''Cannot create private lock'') opened)))) (calm m0) (\<lambda>_. calm m0)"
    proof (rule runs_pre, erule conjunct2)
      assume q: "q = full_path (joined d name) m0"
      have "keeps (calm m0) (io_bind (check_ancestors q) (\<lambda>_.
         io_bind (open_private q True False) (\<lambda>opened.
         io_lift (ok_or (private_error q ''Cannot create private lock'') opened))))"
        unfolding q by (intro keeps_rules o)
      then show "runs (\<lambda>m. calm m0 m \<and> q = full_path (joined d name) m0)
        (io_bind (check_ancestors q) (\<lambda>_.
         io_bind (open_private q True False) (\<lambda>opened.
         io_lift (ok_or (private_error q ''Cannot create private lock'') opened)))) (calm m0) (\<lambda>_. calm m0)"
        unfolding keeps_def by (rule runs_weaken) simp_all
    qed
  qed
qed

lemma calm_take_lock [keeps_rules]: "keeps (calm m0) (take_lock D)"
  unfolding take_lock_def by (intro keeps_rules) (simp add: lock_name_def)

lemma keeps_map_err [keeps_rules]: "keeps I f \<Longrightarrow> keeps I (io_map_err e f)"
  unfolding keeps_def runs_def io_map_err_def
  by (auto split: prod.splits outcome.splits; metis snd_conv)

lemma calm_native [keeps_rules]: "keeps (calm m0) (native f)"
  unfolding native_def
  by (intro keeps_rules keepsI) (auto simp: in_vault_def split: prod.splits)

lemma calm_lock_profile [keeps_rules]: "keeps (calm m0) (lock_profile P i)"
  unfolding lock_profile_def Let_def
  by (intro keeps_rules) (simp add: lock_name_def)

lemma calm_delete_profile [keeps_rules]: "keeps (calm m0) (delete_profile_blocking R P i)"
  unfolding delete_profile_blocking_def delete_locked_def serialize_access_def
  by (intro keeps_rules)

section \<open>Reading\<close>

definition opened_as :: "'r desk \<Rightarrow> string \<Rightarrow> unit option \<Rightarrow> bool" where
  "opened_as m n r \<longleftrightarrow>
     (case r of None \<Rightarrow> file_at m n = None
      | Some _ \<Rightarrow> \<exists>f. file_at m n = Some f \<and> private_file (euid m) f)"

lemma verify_reading:
  "runs (untouched m0) (verify_file q) (untouched m0)
     (\<lambda>r m. untouched m0 m \<and> opened_as m0 (path_text q) r)"
  unfolding verify_file_def
proof (rule runs_bind)
  let ?s = "\<lambda>m. (map_of (files m) (path_text q), euid m)"
  show "runs (untouched m0) (probe (private_error q ''Cannot inspect private metadata file''))
      (untouched m0) (\<lambda>_. untouched m0)"
    by (rule runs_probe) simp_all
  show "runs (untouched m0) (io_bind (io_get ?s) (\<lambda>(found, user). case found of
       Some f \<Rightarrow> if private_file user f then io_return (Some ()) else io_fail (not_private q)
     | None \<Rightarrow> io_fail (not_private q))) (untouched m0)
     (\<lambda>r m. untouched m0 m \<and> opened_as m0 (path_text q) r)"
    by (rule runsI)
       (auto simp: io_defs untouched_def same_world_def opened_as_def file_at_def
          split: option.splits if_splits)
qed

lemma open_reading:
  "runs (untouched m0) (open_private q False x) (untouched m0)
     (\<lambda>r m. untouched m0 m \<and> opened_as m0 (path_text q) r)"
proof -
  let ?e = "private_error q ''Cannot open private metadata file''"
  let ?s = "\<lambda>m. (map_of (files m) (path_text q), is_directory q m, q \<noteq> [] \<and> is_directory (butlast q) m)"
  let ?R = "\<lambda>r m. untouched m0 m \<and> opened_as m0 (path_text q) r"
  have pr: "runs (untouched m0) (probe ?e) (untouched m0) (\<lambda>_. untouched m0)"
    by (rule runs_probe) simp_all
  show ?thesis
    unfolding open_private_def Let_def simp_thms if_True
  proof (rule runs_bind)
    show "runs (untouched m0) (io_get ?s) (untouched m0)
        (\<lambda>r m. untouched m0 m \<and> fst r = file_at m0 (path_text q))"
      by (rule runs_get) (simp add: untouched_def file_at_def)
    show "runs (\<lambda>m. untouched m0 m \<and> fst r = file_at m0 (path_text q)) (case r of (found, folder, fits) \<Rightarrow>
      if found = None \<and> \<not> folder then io_bind (probe ?e) (\<lambda>_. io_return None)
      else if False then io_fail ?e
      else if (case found of Some f \<Rightarrow> fm_symlink (f_meta f) | None \<Rightarrow> False) then io_fail ?e
      else io_bind (probe ?e) (\<lambda>_. verify_file q)) (untouched m0) ?R" for r
    proof (cases r)
      case (fields f folder fits)
      have "runs (untouched m0) (io_bind (probe ?e) (\<lambda>_. verify_file q)) (untouched m0) ?R"
        by (rule runs_bind [OF pr verify_reading])
      moreover have "runs (\<lambda>m. untouched m0 m \<and> f = file_at m0 (path_text q))
          (io_bind (probe ?e) (\<lambda>_. io_return None)) (untouched m0) ?R" if "f = None"
        by (rule runs_pre [where b = "f = file_at m0 (path_text q)"], simp)
           (rule runs_bind [OF runs_weaken [OF pr] runs_return], auto simp: that opened_as_def)
      ultimately show ?thesis
        unfolding fields prod.case fst_conv
        by (intro runs_if) (auto intro: runs_fail elim: runs_weaken)
    qed
  qed
qed

text \<open>What a read of the document would give: None where it fails for good, and Some None for a
  missing file.\<close>

definition document_at ::
  "'u store_codec \<Rightarrow> (json \<Rightarrow> 'd option) \<Rightarrow> os_path \<Rightarrow> string \<Rightarrow> 'r desk \<Rightarrow> 'd option option" where
  "document_at K from D name m =
     (case private_cell (joined D name) m of
        None \<Rightarrow> Some None
      | Some (ok, bytes) \<Rightarrow>
          if \<not> ok then None
          else (case decode K from (limited bytes) (joined D name) of
                  Inr d \<Rightarrow> Some (Some d) | Inl _ \<Rightarrow> None))"

lemma untouched_cell: "untouched m s \<Longrightarrow> private_cell p s = private_cell p m"
  by (simp add: private_cell_def untouched_def same_world_def name_of_def full_path_def file_at_def)

lemma open_private_read_runs:
  "runs (untouched m0) (open_private_read p) (untouched m0)
     (\<lambda>r m. untouched m0 m \<and> opened_as m0 (name_of p m0) r)"
  unfolding open_private_read_def
proof (rule runs_bind [OF absolute_runs])
  fix q
  show "runs (\<lambda>m. untouched m0 m \<and> q = full_path p m0)
     (io_bind (check_ancestors q) (\<lambda>_. open_private q False False)) (untouched m0)
     (\<lambda>r m. untouched m0 m \<and> opened_as m0 (name_of p m0) r)"
  proof (rule runs_pre, erule conjunct2)
    assume q: "q = full_path p m0"
    have "keeps (untouched m0) (check_ancestors q)" by (intro keeps_rules)
    then have "runs (\<lambda>m. untouched m0 m \<and> q = full_path p m0) (check_ancestors q) (untouched m0)
        (\<lambda>_. untouched m0)"
      unfolding keeps_def by (rule runs_weaken) simp_all
    moreover have "runs (untouched m0) (open_private q False False) (untouched m0)
       (\<lambda>r m. untouched m0 m \<and> opened_as m0 (name_of p m0) r)"
      using open_reading [of m0 q False] by (simp add: name_of_def q)
    ultimately show "runs (\<lambda>m. untouched m0 m \<and> q = full_path p m0)
       (io_bind (check_ancestors q) (\<lambda>_. open_private q False False)) (untouched m0)
       (\<lambda>r m. untouched m0 m \<and> opened_as m0 (name_of p m0) r)"
      by (rule runs_bind)
  qed
qed

lemma read_document_runs:
  "runs (untouched m0) (read_document K from D name) (untouched m0)
     (\<lambda>r m. untouched m0 m \<and> document_at K from D name m0 = Some r)"
proof -
  let ?p = "joined D name"
  have read: "runs (untouched m0) (io_get (\<lambda>m. limited (contents ?p m)))
      (untouched m0) (\<lambda>bytes m. untouched m0 m \<and> bytes = limited (contents ?p m0))"
    by (rule runs_get)
       (simp add: contents_def untouched_def same_world_def full_path_def)
  have pr: "runs (untouched m0) (probe e) (untouched m0) (\<lambda>_. untouched m0)" for e
    by (rule runs_probe) simp_all
  have some: "document_at K from D name m0 = Some (Some d)"
    if "opened_as m0 (name_of ?p m0) (Some ())"
      "decode K from (limited (contents ?p m0)) ?p = Inr d" for d
    using that
    by (auto simp: opened_as_def document_at_def private_cell_def contents_def name_of_def file_at_def)
  have none: "document_at K from D name m0 = Some None" if "opened_as m0 (name_of ?p m0) None"
    using that by (simp add: opened_as_def document_at_def private_cell_def)
  show ?thesis
    unfolding read_document_def Let_def
  proof (rule runs_bind [OF open_private_read_runs])
    fix r
    show "runs (\<lambda>m. untouched m0 m \<and> opened_as m0 (name_of ?p m0) r)
      (if r = None then io_return None
       else
       io_bind (probe (failure_at ?p RuntimeFailure ''Cannot read metadata'')) (\<lambda>_.
       io_bind (io_get (\<lambda>m. limited (contents ?p m))) (\<lambda>bytes.
       io_bind (io_lift (decode K from bytes ?p)) (\<lambda>d. io_return (Some d)))))
      (untouched m0) (\<lambda>r m. untouched m0 m \<and> document_at K from D name m0 = Some r)"
    proof (rule runs_pre, erule conjunct2, intro runs_if)
      assume o: "opened_as m0 (name_of ?p m0) r" and "r \<noteq> None"
      then have o: "opened_as m0 (name_of ?p m0) (Some ())" by auto
      have "runs (untouched m0) (io_bind (probe (failure_at ?p RuntimeFailure ''Cannot read metadata'')) (\<lambda>_.
         io_bind (io_get (\<lambda>m. limited (contents ?p m))) (\<lambda>bytes.
         io_bind (io_lift (decode K from bytes ?p)) (\<lambda>d. io_return (Some d)))))
        (untouched m0) (\<lambda>r m. untouched m0 m \<and> document_at K from D name m0 = Some r)"
        by (rule runs_bind [OF pr], rule runs_bind [OF read],
            rule runs_bind [OF runs_lift [where R = "\<lambda>d m. untouched m0 m
              \<and> document_at K from D name m0 = Some (Some d)"]])
           (auto intro: some [OF o] runs_return)
      then show "runs (\<lambda>m. untouched m0 m \<and> opened_as m0 (name_of ?p m0) r)
         (io_bind (probe (failure_at ?p RuntimeFailure ''Cannot read metadata'')) (\<lambda>_.
         io_bind (io_get (\<lambda>m. limited (contents ?p m))) (\<lambda>bytes.
         io_bind (io_lift (decode K from bytes ?p)) (\<lambda>d. io_return (Some d)))))
        (untouched m0) (\<lambda>r m. untouched m0 m \<and> document_at K from D name m0 = Some r)"
        by (rule runs_weaken) simp_all
    qed (auto intro!: runs_return simp: none)
  qed
qed

end
