(* ===== verification/ProfileSpec.thy ===== *)
theory ProfileSpec
  imports ProfileLogic Contracts
begin

text \<open>
  What the profile store promises: the stored document moves by edits, each of which adds
  profiles at revision 1, replaces one by its successor or removes one, and counts the document up
  by one. The refinement of this by the operations is \<open>ProfileProps\<close>.
\<close>

section \<open>Valid lists of profiles\<close>

lemma validate_onto_iff:
  "validate_onto X ids names ps = Inr () \<longleftrightarrow>
     (\<forall>p\<in>set ps. profile_validate X p = Inr ()) \<and> distinct (map pf_id ps) \<and> distinct (map pf_name ps)
     \<and> set ids \<inter> pf_id ` set ps = {} \<and> set names \<inter> pf_name ` set ps = {}"
  by (induction ps arbitrary: ids names) (auto simp: result_simps)

lemma validate_profiles_iff:
  "validate_profiles X ps = Inr () \<longleftrightarrow>
     (\<forall>p\<in>set ps. profile_validate X p = Inr ()) \<and> distinct (map pf_id ps) \<and> distinct (map pf_name ps)"
  by (simp add: validate_profiles_def validate_onto_iff)

lemma conflicts_Nil_iff:
  "conflicts P ids names ps = [] \<longleftrightarrow> distinct (map pf_id ps) \<and> distinct (map pf_name ps)
     \<and> set ids \<inter> pf_id ` set ps = {} \<and> set names \<inter> pf_name ` set ps = {}"
  by (induction ps arbitrary: ids names) auto

lemma validate_append:
  assumes "validate_profiles X ps = Inr ()" and "\<forall>p\<in>set qs. profile_validate X p = Inr ()"
    and "conflicts P (map pf_id ps) (map pf_name ps) qs = []"
  shows "validate_profiles X (ps @ qs) = Inr ()"
  using assms by (auto simp: validate_profiles_iff conflicts_Nil_iff)

lemma validate_remove: "validate_profiles X ps = Inr () \<Longrightarrow> validate_profiles X (remove_nth i ps) = Inr ()"
  using set_remove_nth [of i ps] by (auto simp: validate_profiles_iff distinct_map_remove_nth)

lemma imported_valid:
  assumes "map_result (\<lambda>p. let p' = p\<lparr>pf_revision := 1\<rparr> in
       rbind (profile_validate X p') (\<lambda>_. Inr p')) qs = Inr ps"
  shows "list_all (\<lambda>p. pf_revision p = 1) ps" "\<forall>p\<in>set ps. profile_validate X p = Inr ()"
proof -
  have "pf_revision p = 1 \<and> profile_validate X p = Inr ()" if "p \<in> set ps" for p
    using map_result_set [OF assms that] by (auto simp: Let_def result_simps)
  then show "list_all (\<lambda>p. pf_revision p = 1) ps" "\<forall>p\<in>set ps. profile_validate X p = Inr ()"
    by (simp_all add: list_all_iff)
qed

section \<open>Edits\<close>

inductive change :: "'u profile list \<Rightarrow> 'u profile list \<Rightarrow> bool" where
  added: "list_all (\<lambda>p. pf_revision p = 1) new \<Longrightarrow> change ps (ps @ new)"
| updated: "i < length ps \<Longrightarrow> pf_id p = pf_id (ps ! i)
     \<Longrightarrow> unat (pf_revision p) = Suc (unat (pf_revision (ps ! i))) \<Longrightarrow> change ps (ps[i := p])"
| removed: "i < length ps \<Longrightarrow> change ps (remove_nth i ps)"

inductive edit :: "'u crates \<Rightarrow> 'u profile_document \<Rightarrow> 'u profile_document \<Rightarrow> bool" for X where
  unchanged: "edit X d d"
| saved: "change (profiles d) (profiles d') \<Longrightarrow> validate_profiles X (profiles d') = Inr ()
     \<Longrightarrow> unat (pd_revision d') = Suc (unat (pd_revision d))
     \<Longrightarrow> pd_schema_version d' = pd_schema_version d \<Longrightarrow> edit X d d'"

text \<open>The revision of the document is a token of its contents.\<close>

lemma edits_revision:
  assumes "(edit X)\<^sup>*\<^sup>* d d'"
  shows "d' = d \<or> unat (pd_revision d) < unat (pd_revision d')"
  using assms
proof (induction rule: rtranclp_induct)
  case (step d1 d2)
  then show ?case by (auto elim!: edit.cases)
qed simp

text \<open>The revisions of a profile with a given identifier.\<close>

definition revision_of :: "uuid \<Rightarrow> 'u profile list \<Rightarrow> u64 option" where
  "revision_of i ps = map_option pf_revision (List.find (\<lambda>p. pf_id p = i) ps)"

section \<open>The stored document\<close>

definition empty_document :: "'u profile_document" where
  "empty_document = \<lparr>pd_schema_version = 1, pd_revision = 0, profiles = []\<rparr>"

definition stored_document ::
  "'u crates \<Rightarrow> 'u store_codec \<Rightarrow> os_path \<Rightarrow> 'r desk \<Rightarrow> 'u profile_document option" where
  "stored_document X K D m =
     (case document_at K (sc_profiles K) D ''profiles.json'' m of
        None \<Rightarrow> None
      | Some found \<Rightarrow>
          (let d = (case found of Some d \<Rightarrow> d | None \<Rightarrow> empty_document) in
           if validate_profiles X (profiles d) = Inr () then Some d else None))"

text \<open>What is relied on of the JSON of a document: it is read as it was written, and the two fields
  that are checked before are those of the document.\<close>

definition codec_ok :: "'u store_codec \<Rightarrow> bool" where
  "codec_ok K \<longleftrightarrow>
     (\<forall>d bytes. sc_profiles_bytes K d = Some bytes
        \<longrightarrow> (\<exists>v. sc_value K bytes = Some v \<and> sc_profiles K v = Some d))
     \<and> (\<forall>v d. sc_profiles K v = Some d
        \<longrightarrow> jget ''schema_version'' v = Some (JInt (uint (pd_schema_version d)))
          \<and> jget ''revision'' v = Some (JInt (uint (pd_revision d))))"

lemma as_u64_word [simp]:
  "as_u64 (JInt (uint (w :: u32))) = Some (uint w)" "as_u64 (JInt (uint (w' :: u64))) = Some (uint w')"
  using uint_bounded [of w] uint_bounded [of w'] by (simp_all add: as_u64_def)

lemma decode_iff:
  assumes "codec_ok K"
  shows "decode K (sc_profiles K) bytes path = Inr d \<longleftrightarrow>
     len bytes \<le> store_limit \<and> (\<exists>v. sc_value K bytes = Some v \<and> sc_profiles K v = Some d)
     \<and> pd_schema_version d = 1 \<and> pd_revision d \<noteq> 0"
proof -
  have f: "jget ''schema_version'' v = Some (JInt (uint (pd_schema_version d)))
      \<and> jget ''revision'' v = Some (JInt (uint (pd_revision d)))" if "sc_profiles K v = Some d" for v d
    using assms that by (simp add: codec_ok_def)
  have one: "uint s = 1 \<longleftrightarrow> s = 1" for s :: u32
    by (metis uint_1_eq word_uint_eq_iff)
  have zero: "uint s = 0 \<longleftrightarrow> s = 0" for s :: u64
    by (simp add: uint_0_iff)
  have c: "check_schema path v = Inr () \<longleftrightarrow> pd_schema_version d = 1"
    "check_revision path v = Inr () \<longleftrightarrow> pd_revision d \<noteq> 0" if "sc_profiles K v = Some d" for v d
    using f [OF that] by (simp_all add: check_schema_def check_revision_def one zero)
  show ?thesis
    unfolding decode_def using c by (auto simp: result_simps)
qed

lemma stored_schema:
  assumes "codec_ok K" "stored_document X K D m = Some d"
  shows "pd_schema_version d = 1" "validate_profiles X (profiles d) = Inr ()"
  using assms
  by (auto simp: stored_document_def document_at_def empty_document_def Let_def decode_iff
      split: option.splits if_splits sum.splits)

lemma written_document:
  assumes "codec_ok K" "sc_profiles_bytes K d = Some bytes" "len bytes \<le> store_limit"
    and "pd_schema_version d = 1" "pd_revision d \<noteq> 0" "validate_profiles X (profiles d) = Inr ()"
    and "private_cell (joined D ''profiles.json'') m = Some (True, bytes)"
  shows "stored_document X K D m = Some d"
proof -
  obtain v where "sc_value K bytes = Some v" "sc_profiles K v = Some d"
    using assms(1,2) unfolding codec_ok_def by blast
  then have "decode K (sc_profiles K) bytes (joined D ''profiles.json'') = Inr d"
    using assms by (simp add: decode_iff)
  then show ?thesis
    using assms by (simp add: stored_document_def document_at_def limited_code)
qed

section \<open>Reading and saving it\<close>

lemma private_cell_calm:
  assumes "calm m0 m" "name \<noteq> []" "last name \<noteq> CHR ''k''"
  shows "private_cell (joined D name) m = private_cell (joined D name) m0"
proof -
  have p: "full_path (joined D name) m0 = full_path D m0 @ [name]"
    by (simp add: full_path_def joined_def)
  have "\<not> lock_name (path_text (full_path D m0 @ [name]))"
    using assms(2,3) by (simp only: lock_path) (simp add: lock_name_def)
  then have "file_at m (path_text (full_path D m0 @ [name]))
      = file_at m0 (path_text (full_path D m0 @ [name]))"
    using assms(1) unfolding calm_def by blast
  then show ?thesis
    using assms(1) calm_full_path [OF assms(1)] by (simp add: private_cell_def name_of_def p calm_def)
qed

lemma calm_stored: "calm m0 m \<Longrightarrow> stored_document X K D m = stored_document X K D m0"
  by (simp add: stored_document_def document_at_def private_cell_calm)

lemma profiles_unlocked_runs:
  "runs (calm m0) (profiles_unlocked X K D) (calm m0)
     (\<lambda>d m. calm m0 m \<and> stored_document X K D m0 = Some d)"
proof (rule runs_from)
  fix m :: "'a desk"
  assume c: "calm m0 m"
  let ?d = "\<lambda>found. case found of Some d \<Rightarrow> d
      | None \<Rightarrow> \<lparr>pd_schema_version = 1, pd_revision = 0, profiles = []\<rparr>"
  let ?e = "failure_at (joined D ''profiles.json'') CorruptStorage
       ''Invalid stored profiles; repair or restore this file''"
  have u: "untouched m s \<Longrightarrow> calm m0 s" for s
    by (rule untouched_calm [OF c])
  have rd: "runs (\<lambda>s. s = m) (read_document K (sc_profiles K) D ''profiles.json'') (calm m0)
      (\<lambda>r s. calm m0 s \<and> document_at K (sc_profiles K) D ''profiles.json'' m = Some r)"
    by (rule runs_weaken [OF read_document_runs [of m]]) (auto intro: u)
  have st: "stored_document X K D m0 = Some (?d r)"
    if "document_at K (sc_profiles K) D ''profiles.json'' m = Some r"
      "validate_profiles X (profiles (?d r)) = Inr ()" for r
    unfolding calm_stored [OF c, symmetric] using that
    by (cases r) (simp_all add: stored_document_def empty_document_def)
  show "runs (\<lambda>s. s = m) (profiles_unlocked X K D) (calm m0)
      (\<lambda>d s. calm m0 s \<and> stored_document X K D m0 = Some d)"
    unfolding profiles_unlocked_def Let_def
  proof (rule runs_bind [OF rd])
    fix r
    let ?C = "\<lambda>s. calm m0 s \<and> document_at K (sc_profiles K) D ''profiles.json'' m = Some r"
    have v: "runs ?C (io_lift (map_err ?e (validate_profiles X (profiles (?d r))))) (calm m0)
        (\<lambda>_ s. calm m0 s \<and> stored_document X K D m0 = Some (?d r))"
      by (rule runs_lift) (auto simp: result_simps intro: st)
    show "runs ?C (io_bind (io_lift (map_err ?e (validate_profiles X (profiles (?d r)))))
        (\<lambda>_. io_return (?d r))) (calm m0) (\<lambda>d s. calm m0 s \<and> stored_document X K D m0 = Some d)"
      by (rule runs_bind [OF v runs_return]) simp
  qed
qed

text \<open>Another name in the same directory.\<close>

lemma wrote_other_cell:
  assumes "wrote (name_of (joined D a) m) (temporary_of fresh (joined D a) m) m m'"
    and "b \<noteq> a" "b \<noteq> temporary_name fresh"
  shows "private_cell (joined D b) m' = private_cell (joined D b) m"
proof -
  have p: "full_path (joined D n) m = full_path D m @ [n]" for n
    by (simp add: full_path_def joined_def)
  have w: "same_world m m'"
    using assms(1) by (simp add: wrote_def)
  then have q: "full_path (joined D b) m' = full_path (joined D b) m" "euid m' = euid m"
    by (simp_all add: same_world_def full_path_def)
  have "path_text (full_path D m @ [b]) \<noteq> name_of (joined D a) m"
    "path_text (full_path D m @ [b]) \<noteq> temporary_of fresh (joined D a) m"
    using assms(2,3) by (simp_all add: name_of_def temporary_of_def p)
  then have "file_at m' (path_text (full_path D m @ [b])) = file_at m (path_text (full_path D m @ [b]))"
    using assms(1) by (simp add: wrote_def)
  then show ?thesis
    by (simp add: private_cell_def name_of_def q p)
qed

lemma apart_joined:
  assumes "tidy m" "name \<noteq> temporary_name fresh"
  shows "apart fresh (joined D name) m"
  using assms by (simp add: apart_def full_path_def joined_def)

lemma temporary_differs [simp]:
  "''profiles.json'' \<noteq> temporary_name fresh" "''settings.json'' \<noteq> temporary_name fresh"
  "''certificate-pins.json'' \<noteq> temporary_name fresh"
  by (simp_all add: temporary_name_def)

lemma increment_Suc: "increment r = Inr r' \<Longrightarrow> unat r' = Suc (unat r) \<and> r' \<noteq> 0"
  by (auto simp: increment_def result_simps dest!: checked_add_Some)

end
