(* ===== verification/ProfileProps.thy ===== *)
theory ProfileProps
  imports ProfileSpec
begin

text \<open>
  The operations of the profile store refine the edits of \<open>ProfileSpec\<close>, whatever fails and
  wherever the process dies.
\<close>

section \<open>Composing triples\<close>

lemma runs_bind_lift:
  "(\<And>m. P m \<Longrightarrow> C m) \<Longrightarrow> (\<And>x. r = Inr x \<Longrightarrow> runs P (g x) C R) \<Longrightarrow> runs P (io_bind (io_lift r) g) C R"
  by (cases r) (auto simp: runs_def io_bind_def io_lift_def)

lemma runs_bind_keeps:
  assumes "keeps P f" "\<And>m. P m \<Longrightarrow> C m" "\<And>x. runs P (g x) C R"
  shows "runs P (io_bind f g) C R"
proof (rule runs_bind)
  show "runs P f C (\<lambda>_. P)"
    using assms(1) unfolding keeps_def by (rule runs_weaken) (auto intro: assms(2))
qed (rule assms(3))

lemma runs_returned: "runs P f C (\<lambda>_. Q) \<Longrightarrow> (\<And>m. Q m \<Longrightarrow> C m \<and> R x m)
    \<Longrightarrow> runs P (io_bind f (\<lambda>_. io_return x)) C R"
  by (erule runs_bind) (rule runs_return)

section \<open>One operation\<close>

definition after :: "'u crates \<Rightarrow> 'u store_codec \<Rightarrow> os_path \<Rightarrow> 'u profile_document \<Rightarrow> 'r desk \<Rightarrow> bool" where
  "after X K D d m \<longleftrightarrow> tidy m \<and> stored_document X K D m = Some d"

definition saved_as ::
  "'u crates \<Rightarrow> 'u store_codec \<Rightarrow> os_path \<Rightarrow> 'u profile_document \<Rightarrow> 'u profile list \<Rightarrow> 'r desk \<Rightarrow> bool" where
  "saved_as X K D d ps m \<longleftrightarrow>
     (\<exists>r. increment (pd_revision d) = Inr r \<and> after X K D (d\<lparr>profiles := ps, pd_revision := r\<rparr>) m)"

lemma calm_after: "calm m0 m \<Longrightarrow> after X K D d m0 \<Longrightarrow> after X K D d m"
  by (simp add: after_def calm_stored calm_tidy)

lemma opened_runs:
  assumes "\<And>d. stored_document X K D m0 = Some d \<Longrightarrow> runs (calm m0) (f d) C R"
    and "\<And>m. calm m0 m \<Longrightarrow> C m"
  shows "runs (calm m0) (io_bind (profiles_unlocked X K D) f) C R"
proof (rule runs_bind)
  show "runs (calm m0) (profiles_unlocked X K D) C
      (\<lambda>d m. calm m0 m \<and> stored_document X K D m0 = Some d)"
    by (rule runs_weaken [OF profiles_unlocked_runs]) (auto intro: assms(2))
  show "runs (\<lambda>m. calm m0 m \<and> stored_document X K D m0 = Some d) (f d) C R" for d
    by (rule runs_pre, erule conjunct2, rule runs_weaken [OF assms(1)]) auto
qed

lemma locked_runs:
  assumes "\<And>d. stored_document X K D m0 = Some d \<Longrightarrow> runs (calm m0) (f d) C R"
    and "\<And>m. calm m0 m \<Longrightarrow> C m"
  shows "runs (calm m0) (io_bind (take_lock D) (\<lambda>_. io_bind (profiles_unlocked X K D) f)) C R"
  by (rule runs_bind_keeps [OF _ assms(2) opened_runs [OF assms]]) (intro keeps_rules)

lemma commit_runs:
  assumes K: "codec_ok K" and d: "after X K D d m0" and ps: "validate_profiles X ps = Inr ()"
  shows "runs (\<lambda>m. calm m0 m \<and> G (vault (kernel m))) (commit_profiles fresh K D (d\<lparr>profiles := ps\<rparr>))
     (\<lambda>m. (after X K D d m \<or> saved_as X K D d ps m) \<and> G (vault (kernel m)))
     (\<lambda>_ m. saved_as X K D d ps m \<and> G (vault (kernel m)))"
proof -
  let ?p = "joined D ''profiles.json''"
  let ?P = "\<lambda>m. calm m0 m \<and> G (vault (kernel m))"
  let ?C = "\<lambda>m. (after X K D d m \<or> saved_as X K D d ps m) \<and> G (vault (kernel m))"
  have calm: "?P m \<Longrightarrow> ?C m" for m using calm_after [OF _ d] by blast
  have schema: "pd_schema_version d = 1"
    using d K stored_schema(1) unfolding after_def by blast
  have wr: "runs ?P (atomic_write fresh ?p bytes True) ?C
      (\<lambda>_ m. saved_as X K D d ps m \<and> G (vault (kernel m)))"
    if r: "increment (pd_revision d) = Inr r"
      and b: "sc_profiles_bytes K (d\<lparr>profiles := ps, pd_revision := r\<rparr>) = Some bytes"
        "len bytes \<le> store_limit" for r bytes
  proof (rule private_file.replace_runs)
    fix m :: "'b desk"
    assume p: "?P m"
    then have t: "tidy m" using d calm_tidy unfolding after_def by blast
    then show "apart fresh ?p m" by (rule apart_joined) simp
    fix m'
    assume w: "wrote (name_of ?p m) (temporary_of fresh ?p m) m m'"
    have t': "tidy m'" using wrote_tidy [OF w t] .
    have g: "G (vault (kernel m'))" using p w by (simp add: wrote_def same_world_def)
    show "?C m'" if "private_cell ?p m' = private_cell ?p m"
      using that t' g calm_after [OF conjunct1 [OF p] d]
      by (simp add: after_def stored_document_def document_at_def)
    assume "private_cell ?p m' = Some (True, bytes)"
    then have "stored_document X K D m' = Some (d\<lparr>profiles := ps, pd_revision := r\<rparr>)"
      using written_document [OF K b] schema ps increment_Suc [OF r] by simp
    then show "?C m' \<and> saved_as X K D d ps m' \<and> G (vault (kernel m'))"
      using r t' g by (auto simp: saved_as_def after_def)
  qed
  show ?thesis
    unfolding commit_profiles_def write_document_def Let_def
    by (intro runs_bind_lift runs_if runs_fail calm)
       (auto simp: result_simps intro!: wr)
qed

text \<open>Between the stored document \<open>d\<close> and one edit of it.\<close>

definition evolved :: "'u crates \<Rightarrow> 'u store_codec \<Rightarrow> os_path \<Rightarrow> 'u profile_document \<Rightarrow> 'r desk \<Rightarrow> bool" where
  "evolved X K D d m \<longleftrightarrow> (\<exists>d'. edit X d d' \<and> after X K D d' m)"

lemma after_evolved: "after X K D d m \<Longrightarrow> evolved X K D d m"
  by (auto simp: evolved_def intro: edit.unchanged)

lemma saved_evolved:
  assumes "saved_as X K D d ps m" "change (profiles d) ps" "validate_profiles X ps = Inr ()"
  shows "evolved X K D d m"
proof -
  obtain r where r: "increment (pd_revision d) = Inr r"
    "after X K D (d\<lparr>profiles := ps, pd_revision := r\<rparr>) m"
    using assms(1) by (auto simp: saved_as_def)
  have "edit X d (d\<lparr>profiles := ps, pd_revision := r\<rparr>)"
    by (rule edit.saved) (use assms(2,3) increment_Suc [OF r(1)] in simp_all)
  with r(2) show ?thesis by (auto simp: evolved_def)
qed

lemma commit_evolves:
  assumes "codec_ok K" "after X K D d m0" "validate_profiles X ps = Inr ()" "change (profiles d) ps"
  shows "runs (calm m0) (commit_profiles fresh K D (d\<lparr>profiles := ps\<rparr>)) (evolved X K D d)
           (\<lambda>_. saved_as X K D d ps)"
  by (rule runs_weaken [OF commit_runs [OF assms(1-3), where G = "\<lambda>_. True"]])
     (auto intro: after_evolved saved_evolved assms(3,4))

lemma calm_evolved: "after X K D d m0 \<Longrightarrow> calm m0 m \<Longrightarrow> evolved X K D d m"
  by (blast intro: after_evolved calm_after)

lemma stored_unique: "after X K D d m \<Longrightarrow> stored_document X K D m = Some d' \<Longrightarrow> d' = d"
  by (simp add: after_def)

lemma create_runs:
  assumes K: "codec_ok K" and d: "after X K D d m0"
  shows "runs (calm m0) (create_profile fresh X K D p) (evolved X K D d)
     (\<lambda>p' m. p' = p\<lparr>pf_revision := 1\<rparr> \<and> saved_as X K D d (profiles d @ [p']) m)"
  unfolding create_profile_def Let_def
proof (intro locked_runs runs_bind_lift)
  fix d' v'
  assume "stored_document X K D m0 = Some d'"
    and v: "validate_profiles X (profiles (d'\<lparr>profiles := profiles d' @ [p\<lparr>pf_revision := 1\<rparr>]\<rparr>)) = Inr v'"
  then have d': "d' = d" by (simp add: stored_unique [OF d])
  have "change (profiles d) (profiles d @ [p\<lparr>pf_revision := 1\<rparr>])"
    by (rule change.added) simp
  with v show "runs (calm m0) (io_bind (commit_profiles fresh K D
       (d'\<lparr>profiles := profiles d' @ [p\<lparr>pf_revision := 1\<rparr>]\<rparr>))
       (\<lambda>_. io_return (p\<lparr>pf_revision := 1\<rparr>))) (evolved X K D d)
     (\<lambda>p' m. p' = p\<lparr>pf_revision := 1\<rparr> \<and> saved_as X K D d (profiles d @ [p']) m)"
    unfolding d' by (intro runs_returned [OF commit_evolves [OF K d]])
      (auto intro: saved_evolved)
qed (auto intro: calm_evolved [OF d])

definition replaced ::
  "'u profile_document \<Rightarrow> 'u profile \<Rightarrow> 'u profile \<Rightarrow> 'u profile list \<Rightarrow> bool" where
  "replaced d p p' ps \<longleftrightarrow>
     (\<exists>i r. position (\<lambda>q. pf_id q = pf_id p) (profiles d) = Some i
        \<and> pf_revision (profiles d ! i) = pf_revision p \<and> increment (pf_revision p) = Inr r
        \<and> p' = p\<lparr>pf_revision := r\<rparr> \<and> ps = (profiles d)[i := p'])"

lemma replaced_change: "replaced d p p' ps \<Longrightarrow> change (profiles d) ps"
  by (auto simp: replaced_def dest!: position_Some increment_Suc intro!: change.updated)

lemma update_runs:
  assumes K: "codec_ok K" and d: "after X K D d m0"
  shows "runs (calm m0) (update_profile fresh X K D p) (evolved X K D d)
     (\<lambda>p' m. \<exists>ps. replaced d p p' ps \<and> saved_as X K D d ps m)"
  unfolding update_profile_def Let_def
proof (intro locked_runs runs_bind_lift)
  fix d' i u r v'
  assume "stored_document X K D m0 = Some d'"
    and p: "ok_or no_profile (position (\<lambda>q. pf_id q = pf_id p) (profiles d')) = Inr i"
      "stale (pf_revision (profiles d' ! i)) (pf_revision p) = Inr u"
      "increment (pf_revision p) = Inr r"
    and v: "validate_profiles X
       (profiles (d'\<lparr>profiles := (profiles d')[i := p\<lparr>pf_revision := r\<rparr>]\<rparr>)) = Inr v'"
  then have d': "d' = d" by (simp add: stored_unique [OF d])
  have c: "replaced d p (p\<lparr>pf_revision := r\<rparr>) ((profiles d)[i := p\<lparr>pf_revision := r\<rparr>])"
    using p d' by (auto simp: replaced_def result_simps stale_def split: if_splits)
  with v show "runs (calm m0) (io_bind (commit_profiles fresh K D
       (d'\<lparr>profiles := (profiles d')[i := p\<lparr>pf_revision := r\<rparr>]\<rparr>))
       (\<lambda>_. io_return (p\<lparr>pf_revision := r\<rparr>))) (evolved X K D d)
     (\<lambda>p' m. \<exists>ps. replaced d p p' ps \<and> saved_as X K D d ps m)"
    unfolding d' by (intro runs_returned [OF commit_evolves [OF K d]])
      (auto intro: saved_evolved replaced_change)
qed (auto intro: calm_evolved [OF d])

lemma duplicate_runs:
  assumes K: "codec_ok K" and d: "after X K D d m0"
  shows "runs (calm m0) (duplicate_profile fresh i P X K D selector name) (evolved X K D d)
     (\<lambda>p' m. \<exists>p. select P (profiles d) selector = Inr p
        \<and> p' = p\<lparr>pf_id := i, pf_revision := 1, pf_name := name\<rparr>
        \<and> saved_as X K D d (profiles d @ [p']) m)"
  unfolding duplicate_profile_def Let_def
proof (intro locked_runs runs_bind_lift)
  fix d' v' and p :: "'a profile"
  let ?p = "p\<lparr>pf_id := i, pf_revision := 1, pf_name := name\<rparr>"
  assume "stored_document X K D m0 = Some d'" and s: "select P (profiles d') selector = Inr p"
    and v: "validate_profiles X (profiles (d'\<lparr>profiles := profiles d' @ [?p]\<rparr>)) = Inr v'"
  then have d': "d' = d" by (simp add: stored_unique [OF d])
  have "change (profiles d) (profiles d @ [?p])"
    by (rule change.added) simp
  with v s show "runs (calm m0) (io_bind (commit_profiles fresh K D
       (d'\<lparr>profiles := profiles d' @ [?p]\<rparr>)) (\<lambda>_. io_return ?p)) (evolved X K D d)
     (\<lambda>p' m. \<exists>p. select P (profiles d) selector = Inr p
        \<and> p' = p\<lparr>pf_id := i, pf_revision := 1, pf_name := name\<rparr>
        \<and> saved_as X K D d (profiles d @ [p']) m)"
    unfolding d' by (intro runs_returned [OF commit_evolves [OF K d]])
      (auto intro: saved_evolved)
qed (auto intro: calm_evolved [OF d])

lemma remove_runs:
  assumes K: "codec_ok K" and d: "after X K D d m0"
  shows "runs (calm m0) (remove_profile fresh R P X K D target expected protected) (evolved X K D d)
     (\<lambda>_ m. \<exists>i. position (\<lambda>q. pf_id q = target) (profiles d) = Some i
        \<and> pf_revision (profiles d ! i) = expected \<and> target \<notin> set protected
        \<and> saved_as X K D d (remove_nth i (profiles d)) m)"
  unfolding remove_profile_def
proof (rule runs_bind_keeps, intro keeps_rules, erule calm_evolved [OF d],
    intro runs_if opened_runs runs_bind_lift)
  fix d' i u r
  assume n: "target \<notin> set protected" and "stored_document X K D m0 = Some d'"
    and p: "ok_or no_profile (position (\<lambda>q. pf_id q = target) (profiles d')) = Inr i"
      "stale (pf_revision (profiles d' ! i)) expected = Inr u"
  then have d': "d' = d" by (simp add: stored_unique [OF d])
  have c: "change (profiles d) (remove_nth i (profiles d))"
    using p(1) d' by (auto simp: result_simps dest!: position_Some intro: change.removed)
  have "validate_profiles X (profiles d) = Inr ()"
    using d K stored_schema(2) unfolding after_def by blast
  then have "runs (calm m0) (commit_profiles fresh K D (d\<lparr>profiles := remove_nth i (profiles d)\<rparr>))
      (evolved X K D d) (\<lambda>_. saved_as X K D d (remove_nth i (profiles d)))"
    by (intro commit_evolves [OF K d] validate_remove c)
  then show "runs (calm m0) (io_bind (delete_profile_blocking R P target)
       (\<lambda>_. commit_profiles fresh K D (d'\<lparr>profiles := remove_nth i (profiles d')\<rparr>)))
     (evolved X K D d)
     (\<lambda>_ m. \<exists>i. position (\<lambda>q. pf_id q = target) (profiles d) = Some i
        \<and> pf_revision (profiles d ! i) = expected \<and> target \<notin> set protected
        \<and> saved_as X K D d (remove_nth i (profiles d)) m)"
    unfolding d' using p n d'
    by (intro runs_bind_keeps [OF calm_delete_profile] calm_evolved [OF d])
       (auto elim!: runs_weaken simp: result_simps stale_def split: if_splits)
qed (auto intro!: runs_fail intro: calm_evolved [OF d])

text \<open>The profiles of an import file, each at revision 1.\<close>

definition importable ::
  "places \<Rightarrow> 'u crates \<Rightarrow> 'u store_codec \<Rightarrow> u8 list \<Rightarrow> 'u profile list \<Rightarrow> 'u profile list \<Rightarrow> bool" where
  "importable P X K bytes old ps \<longleftrightarrow>
     (\<exists>e. decode K (sc_export K) bytes import_name = Inr e
        \<and> map_result (\<lambda>p. let p' = p\<lparr>pf_revision := 1\<rparr> in
            rbind (profile_validate X p') (\<lambda>_. Inr p')) (pe_profiles e) = Inr ps)
     \<and> conflicts P (map pf_id old) (map pf_name old) ps = []"

lemma importable_change:
  assumes "importable P X K bytes (profiles d) ps" "validate_profiles X (profiles d) = Inr ()"
  shows "change (profiles d) (profiles d @ ps)" "validate_profiles X (profiles d @ ps) = Inr ()"
proof -
  obtain e :: "'a profile_export" where m: "map_result (\<lambda>p. let p' = p\<lparr>pf_revision := 1\<rparr> in
       rbind (profile_validate X p') (\<lambda>_. Inr p')) (pe_profiles e) = Inr ps"
    and c: "conflicts P (map pf_id (profiles d)) (map pf_name (profiles d)) ps = []"
    using assms(1) unfolding importable_def by blast
  show "change (profiles d) (profiles d @ ps)"
    by (rule change.added [OF imported_valid(1) [OF m]])
  show "validate_profiles X (profiles d @ ps) = Inr ()"
    by (rule validate_append [OF assms(2) imported_valid(2) [OF m] c])
qed

lemma import_runs:
  assumes K: "codec_ok K" and d: "after X K D d m0"
  shows "runs (calm m0) (import_json fresh P X K D bytes)
     (\<lambda>m. after X K D d m \<or> (\<exists>ps. importable P X K bytes (profiles d) ps
        \<and> saved_as X K D d (profiles d @ ps) m))
     (\<lambda>ps m. importable P X K bytes (profiles d) ps \<and> saved_as X K D d (profiles d @ ps) m)"
  (is "runs _ _ ?C ?R")
  unfolding import_json_def Let_def
proof (intro runs_bind_lift locked_runs runs_if)
  fix e ps d'
  assume "decode K (sc_export K) bytes import_name = Inr e"
    and "map_result (\<lambda>p. rbind (profile_validate X (p\<lparr>pf_revision := 1\<rparr>))
       (\<lambda>_. Inr (p\<lparr>pf_revision := 1\<rparr>))) (pe_profiles e) = Inr ps"
    and "stored_document X K D m0 = Some d'"
    and "\<not> conflicts P (map pf_id (profiles d')) (map pf_name (profiles d')) ps \<noteq> []"
  then have d': "d' = d" and i: "importable P X K bytes (profiles d) ps"
    using stored_unique [OF d] by (auto simp: importable_def Let_def)
  have "validate_profiles X (profiles d) = Inr ()"
    using d K stored_schema(2) unfolding after_def by blast
  from commit_runs [OF K d importable_change(2) [OF i this], where G = "\<lambda>_. True"]
  have "runs (calm m0) (commit_profiles fresh K D (d\<lparr>profiles := profiles d @ ps\<rparr>)) ?C
      (\<lambda>_. saved_as X K D d (profiles d @ ps))"
    by (rule runs_weaken) (use i in auto)
  then show "runs (calm m0) (io_bind (commit_profiles fresh K D (d'\<lparr>profiles := profiles d' @ ps\<rparr>))
       (\<lambda>_. io_return ps)) ?C ?R"
    unfolding d' by (rule runs_returned) (use i in auto)
qed (auto intro!: runs_fail intro: calm_after [OF _ d])

lemma import_evolves:
  assumes "codec_ok K" "after X K D d m0"
  shows "runs (calm m0) (import_json fresh P X K D bytes) (evolved X K D d) (\<lambda>_ _. True)"
proof (rule runs_weaken [OF import_runs [OF assms]])
  fix m
  assume "after X K D d m \<or> (\<exists>ps. importable P X K bytes (profiles d) ps
      \<and> saved_as X K D d (profiles d @ ps) m)"
  moreover have "validate_profiles X (profiles d) = Inr ()"
    using assms stored_schema(2) unfolding after_def by blast
  ultimately show "evolved X K D d m"
    by (auto intro: after_evolved saved_evolved importable_change)
qed auto

section \<open>The other files\<close>

lemma write_other:
  assumes d: "after X K D d m0" and n: "name \<noteq> ''profiles.json''" "name \<noteq> temporary_name fresh"
  shows "runs (calm m0) (write_document fresh to D name v) (after X K D d) (\<lambda>_. after X K D d)"
proof -
  let ?p = "joined D name"
  have "runs (calm m0) (atomic_write fresh ?p bytes True) (after X K D d) (\<lambda>_. after X K D d)" for bytes
  proof (rule private_file.replace_runs)
    fix m :: "'b desk"
    assume c: "calm m0 m"
    then have t: "tidy m" using d calm_tidy unfolding after_def by blast
    then show "apart fresh ?p m" using n(2) by (rule apart_joined)
    fix m'
    assume w: "wrote (name_of ?p m) (temporary_of fresh ?p m) m m'"
    have "private_cell (joined D ''profiles.json'') m' = private_cell (joined D ''profiles.json'') m"
      by (rule wrote_other_cell [OF w n(1) [symmetric]]) simp
    then show a: "after X K D d m'"
      using calm_after [OF c d] wrote_tidy [OF w t]
      by (simp add: after_def stored_document_def document_at_def)
    then show "after X K D d m' \<and> after X K D d m'" by simp
  qed
  then show ?thesis
    unfolding write_document_def Let_def
    by (intro runs_bind_lift runs_if runs_fail) (auto intro: calm_after [OF _ d])
qed

lemma calm_read_document [keeps_rules]: "keeps (calm m0) (read_document K from D name)"
  by (rule looks_calm, rule keeps_runs [OF read_document_runs])

lemma calm_profiles_unlocked [keeps_rules]: "keeps (calm m0) (profiles_unlocked X K D)"
  by (rule keeps_runs [OF profiles_unlocked_runs])

lemma save_settings_runs:
  assumes d: "after X K D d m0"
  shows "runs (calm m0) (save_settings fresh X K D s expected) (after X K D d) (\<lambda>_. after X K D d)"
proof -
  have w: "runs (calm m0) (write_document fresh to D ''settings.json'' v) (after X K D d) (\<lambda>_. after X K D d)"
    for to :: "settings_document \<Rightarrow> u8 list option" and v
    by (rule write_other [OF d]) simp_all
  show ?thesis
    unfolding save_settings_def Let_def
    by (rule runs_bind_lift | rule runs_returned [OF w] | rule runs_bind_keeps
        | (erule calm_after [OF _ d]) | intro keeps_rules | simp)+
qed

lemma save_pin_runs:
  assumes d: "after X K D d m0"
  shows "runs (calm m0) (save_pin fresh X K D pin expected) (after X K D d) (\<lambda>_. after X K D d)"
proof -
  have w: "runs (calm m0) (write_document fresh to D ''certificate-pins.json'' v) (after X K D d) (\<lambda>_. after X K D d)"
    for to :: "pins_document \<Rightarrow> u8 list option" and v
    by (rule write_other [OF d]) simp_all
  show ?thesis
    unfolding save_pin_def pins_unlocked_def Let_def
    by (rule runs_bind_lift | rule runs_returned [OF w] | rule runs_bind_keeps
        | (erule calm_after [OF _ d]) | intro keeps_rules | simp)+
qed

section \<open>All operations\<close>

datatype 'u store_op =
    ListOp
  | ResolveOp string
  | CreateOp string "'u profile"
  | UpdateOp string "'u profile"
  | DuplicateOp string uuid string string
  | RemoveOp string uuid u64 "uuid list"
  | ImportOp string "u8 list"
  | ExportOp "string option"
  | ReadSettingsOp
  | SaveSettingsOp string settings u64
  | ReadPinsOp
  | SavePinOp string certificate_pin u64

fun run_op ::
  "('r, 'i) keyring \<Rightarrow> places \<Rightarrow> 'u crates \<Rightarrow> 'u store_codec \<Rightarrow> os_path \<Rightarrow> 'u store_op
     \<Rightarrow> ('r desk, unit) io" where
  "run_op R P X K D ListOp = io_bind (list_profiles X K D) (\<lambda>_. io_return ())"
| "run_op R P X K D (ResolveOp s) = io_bind (resolve P X K D s) (\<lambda>_. io_return ())"
| "run_op R P X K D (CreateOp t p) = io_bind (create_profile t X K D p) (\<lambda>_. io_return ())"
| "run_op R P X K D (UpdateOp t p) = io_bind (update_profile t X K D p) (\<lambda>_. io_return ())"
| "run_op R P X K D (DuplicateOp t i s n) =
     io_bind (duplicate_profile t i P X K D s n) (\<lambda>_. io_return ())"
| "run_op R P X K D (RemoveOp t i e ps) = remove_profile t R P X K D i e ps"
| "run_op R P X K D (ImportOp t bytes) = io_bind (import_json t P X K D bytes) (\<lambda>_. io_return ())"
| "run_op R P X K D (ExportOp s) = io_bind (export_json P X K D s) (\<lambda>_. io_return ())"
| "run_op R P X K D ReadSettingsOp = io_bind (read_settings K D) (\<lambda>_. io_return ())"
| "run_op R P X K D (SaveSettingsOp t s e) = io_bind (save_settings t X K D s e) (\<lambda>_. io_return ())"
| "run_op R P X K D ReadPinsOp = io_bind (read_pins X K D) (\<lambda>_. io_return ())"
| "run_op R P X K D (SavePinOp t c e) = io_bind (save_pin t X K D c e) (\<lambda>_. io_return ())"

text \<open>One operation of any process, which ends as it may, or new luck for the next.\<close>

inductive store_step ::
  "('r, 'i) keyring \<Rightarrow> places \<Rightarrow> 'u crates \<Rightarrow> 'u store_codec \<Rightarrow> os_path \<Rightarrow> 'r desk \<Rightarrow> 'r desk \<Rightarrow> bool"
  for R P X K D where
  operation: "run_op R P X K D op m = (r, m') \<Longrightarrow> store_step R P X K D m m'"
| resumed: "store_step R P X K D m (m\<lparr>fates := fs\<rparr>)"

lemma quiet_op:
  assumes "keeps (calm m0) f" "after X K D d m0"
  shows "runs (calm m0) (io_bind f (\<lambda>_. io_return ())) (evolved X K D d) (\<lambda>_ _. True)"
  using assms by (intro runs_bind_keeps runs_return) (auto intro: calm_evolved)

lemma writing_op:
  assumes "runs (calm m0) f (evolved X K D d) R"
  shows "runs (calm m0) (io_bind f (\<lambda>_. io_return ())) (evolved X K D d) (\<lambda>_ _. True)"
proof (rule runs_bind)
  show "runs (calm m0) f (evolved X K D d) (\<lambda>_. evolved X K D d)"
    using assms by (auto simp: runs_def)
qed (auto intro: runs_return)

lemma op_evolves:
  assumes K: "codec_ok K" and d: "after X K D d m0"
  shows "runs (calm m0) (run_op R P X K D op) (evolved X K D d) (\<lambda>_ _. True)"
proof (cases op)
  case (RemoveOp t i e ps)
  then show ?thesis
    using remove_runs [OF assms, of t R P i e ps] by (auto elim: runs_weaken)
next
  case (CreateOp t p)
  then show ?thesis using writing_op [OF create_runs [OF assms]] by simp
next
  case (UpdateOp t p)
  then show ?thesis using writing_op [OF update_runs [OF assms]] by simp
next
  case (DuplicateOp t i sel n)
  then show ?thesis using writing_op [OF duplicate_runs [OF assms]] by simp
next
  case (ImportOp t bytes)
  then show ?thesis using writing_op [OF import_evolves [OF assms]] by simp
next
  case (SaveSettingsOp t s e)
  have "runs (calm m0) (save_settings t X K D s e) (evolved X K D d) (\<lambda>_ _. True)"
    by (rule runs_weaken [OF save_settings_runs [OF d]]) (auto intro: after_evolved)
  then show ?thesis unfolding SaveSettingsOp run_op.simps by (rule writing_op)
next
  case (SavePinOp t c e)
  have "runs (calm m0) (save_pin t X K D c e) (evolved X K D d) (\<lambda>_ _. True)"
    by (rule runs_weaken [OF save_pin_runs [OF d]]) (auto intro: after_evolved)
  then show ?thesis unfolding SavePinOp run_op.simps by (rule writing_op)
qed (use d in \<open>auto intro!: quiet_op keeps_rules
    simp: list_profiles_def resolve_def export_json_def read_settings_def read_pins_def
      pins_unlocked_def Let_def\<close>)

lemma fates_after [simp]: "after X K D d (m\<lparr>fates := fs\<rparr>) \<longleftrightarrow> after X K D d m"
  by (simp add: after_def tidy_def stored_document_def document_at_def private_cell_def name_of_def
      full_path_def)

interpretation store: refined_system
  "\<lambda>m. codec_ok K \<and> (\<exists>d. after X K D d m)" "store_step R P X K D"
  "\<lambda>m. codec_ok K \<and> (\<exists>d. after X K D d m)" "stored_document X K D"
  "\<lambda>a b. \<exists>d d'. a = Some d \<and> b = Some d' \<and> edit X d d'"
  for R P X K D
proof
  fix s s' :: "'a desk"
  assume g: "codec_ok K \<and> (\<exists>d. after X K D d s)" and s: "store_step R P X K D s s'"
  then obtain d where d: "codec_ok K" "after X K D d s" by blast
  have "evolved X K D d s'"
    using s
  proof cases
    case (operation op r)
    show ?thesis using runsD(1) [OF op_evolves [OF d] calm_refl operation] .
  qed (use d in \<open>auto intro: after_evolved\<close>)
  then obtain d' where "edit X d d'" "after X K D d' s'" by (auto simp: evolved_def)
  then show "codec_ok K \<and> (\<exists>d. after X K D d s')"
    "\<exists>d d'. stored_document X K D s = Some d \<and> stored_document X K D s' = Some d' \<and> edit X d d'"
    using d by (auto simp: after_def)
qed

lemma edits_of_views:
  assumes "(\<lambda>a b. \<exists>d d'. a = Some d \<and> b = Some d' \<and> edit X d d')\<^sup>*\<^sup>* v w" "v = Some d"
  shows "\<exists>d'. w = Some d' \<and> (edit X)\<^sup>*\<^sup>* d d'"
  using assms by (induction rule: rtranclp_induct) (auto intro: rtranclp.rtrancl_into_rtrancl)

end
