(* ===== verification/StoreClaims.thy ===== *)
theory StoreClaims
  imports ProfileProps
begin

text \<open>
  The properties of the profile store, with a user and a store on which they are evaluated.
\<close>

section \<open>A sample store\<close>

text \<open>The JSON of the documents of a table, each with its bytes.\<close>

definition document_value :: "u8 list \<times> 'u profile_document \<Rightarrow> json" where
  "document_value e =
     JObject [(''key'', JArray (map (\<lambda>w. JInt (uint w)) (fst e))),
              (''revision'', JInt (uint (pd_revision (snd e)))),
              (''schema_version'', JInt (uint (pd_schema_version (snd e))))]"

definition table_codec :: "(u8 list \<times> 'u profile_document) list \<Rightarrow> 'u store_codec" where
  "table_codec T =
     \<lparr>sc_value = (\<lambda>b. map_option document_value (List.find (\<lambda>e. fst e = b) T)),
      sc_profiles = (\<lambda>v. map_option snd (List.find (\<lambda>e. document_value e = v) T)),
      sc_settings = (\<lambda>_. None), sc_pins = (\<lambda>_. None),
      sc_export = (\<lambda>v. map_option (\<lambda>e. \<lparr>pe_schema_version = 1, pe_profiles = profiles (snd e)\<rparr>)
                       (List.find (\<lambda>e. document_value e = v) T)),
      sc_profiles_bytes = (\<lambda>d. map_option fst (List.find (\<lambda>e. snd e = d) T)),
      sc_settings_bytes = (\<lambda>_. None), sc_pins_bytes = (\<lambda>_. None),
      sc_export_bytes = (\<lambda>_. Some [])\<rparr>"

lemma document_value_key: "document_value e = document_value e' \<Longrightarrow> fst e = fst e'"
proof -
  assume "document_value e = document_value e'"
  then have "map (\<lambda>w. JInt (uint w)) (fst e) = map (\<lambda>w. JInt (uint w)) (fst e')"
    by (simp add: document_value_def)
  moreover have "inj (\<lambda>w :: u8. JInt (uint w))"
    by (rule injI) (simp add: word_uint_eq_iff)
  ultimately show "fst e = fst e'" by (metis map_injective)
qed

lemma find_distinct:
  assumes "distinct (map fst T)" "e \<in> set T" "p e" "\<And>e'. p e' \<Longrightarrow> fst e' = fst e"
  shows "List.find p T = Some e"
  using assms
proof (induction T)
  case (Cons x T)
  show ?case
  proof (cases "p x")
    case True
    then have "fst x = fst e" by (rule Cons.prems(4))
    have "e \<notin> set T"
    proof
      assume "e \<in> set T"
      then have "fst e \<in> fst ` set T" by (rule imageI)
      with \<open>fst x = fst e\<close> Cons.prems(1) show False by simp
    qed
    then have "x = e" using Cons.prems(2) by simp
    with True show ?thesis by simp
  next
    case False
    then have "e \<in> set T" using Cons.prems(2,3) by auto
    with Cons.prems(1) have "List.find p T = Some e"
      by (intro Cons.IH Cons.prems(3,4)) simp_all
    with False show ?thesis by simp
  qed
qed simp

lemma table_codec_ok:
  assumes "distinct (map fst T)"
  shows "codec_ok (table_codec T)"
proof -
  have "\<exists>v. sc_value (table_codec T) b = Some v \<and> sc_profiles (table_codec T) v = Some d"
    if "sc_profiles_bytes (table_codec T) d = Some b" for d b
  proof -
    obtain e where e: "e \<in> set T" "snd e = d" "fst e = b"
      using \<open>sc_profiles_bytes (table_codec T) d = Some b\<close>
      by (auto simp: table_codec_def find_Some_iff) (metis fst_conv nth_mem snd_conv)
    have "List.find (\<lambda>e. fst e = b) T = Some e"
      by (rule find_distinct [OF assms e(1)]) (simp_all add: e)
    moreover have "List.find (\<lambda>e'. document_value e' = document_value e) T = Some e"
      by (rule find_distinct [OF assms e(1)]) (auto dest: document_value_key)
    ultimately show ?thesis using e by (cases e) (simp add: table_codec_def)
  qed
  moreover have "jget ''schema_version'' v = Some (JInt (uint (pd_schema_version d)))
      \<and> jget ''revision'' v = Some (JInt (uint (pd_revision d)))"
    if "sc_profiles (table_codec T) v = Some d" for v d
  proof -
    obtain e where "List.find (\<lambda>e. document_value e = v) T = Some e" "snd e = d"
      using \<open>sc_profiles (table_codec T) v = Some d\<close> by (auto simp: table_codec_def)
    then have "document_value e = v" "snd e = d" by (auto simp: find_Some_iff)
    then show ?thesis by (auto simp: document_value_def)
  qed
  ultimately show ?thesis by (auto simp: codec_ok_def)
qed

definition sample_crates :: "unit crates" where
  "sample_crates =
     \<lparr>url_parse = (\<lambda>_. Some ()), url_as_str = (\<lambda>_. ''https://vpn''), url_scheme = (\<lambda>_. ''https''),
      url_host = (\<lambda>_. Some ''vpn''), url_cannot_be_a_base = (\<lambda>_. False), url_username = (\<lambda>_. []),
      url_password = (\<lambda>_. None), url_fragment = (\<lambda>_. None), url_query = (\<lambda>_. None),
      url_path = (\<lambda>_. ''/''), url_port = (\<lambda>_. None), host_parse = Some,
      base64_decode32 = (\<lambda>_. None)\<rparr>"

text \<open>The keyring is the list of its secrets by account.\<close>

definition sample_keyring :: "((string \<times> string) list, string) keyring" where
  "sample_keyring =
     \<lparr>kr_entry = (\<lambda>_ _. io_return ()), kr_get = (\<lambda>_ a. io_get (\<lambda>v. map_of v a)),
      kr_set = (\<lambda>_ a s v. (Done (), (a, s) # v)),
      kr_delete = (\<lambda>_ a v. (Done (map_of v a \<noteq> None), filter (\<lambda>(b, _). b \<noteq> a) v)),
      ss_connect = io_return (), ss_search = (\<lambda>_. io_return ([], [])),
      ss_get_secret = (\<lambda>_. io_return []), ss_set_secret = (\<lambda>_ _ _. io_return ()),
      ss_collection_locked = io_return False, ss_create_item = (\<lambda>_ _ _ _ _. io_return ())\<rparr>"

definition sample_id :: "uuid \<Rightarrow> string" where
  "sample_id i = (if i = 7 then ''7'' else if i = 8 then ''8'' else ''-'')"

definition sample_places :: places where
  "sample_places =
     \<lparr>project_config = Some \<lparr>is_absolute = True, components = [''c'']\<rparr>,
      project_data = Some \<lparr>is_absolute = True, components = [''d'']\<rparr>,
      uuid_text = sample_id,
      uuid_parse = (\<lambda>s. if s = ''7'' then Some 7 else if s = ''8'' then Some 8 else None)\<rparr>"

definition sample_folder :: os_path where
  "sample_folder = \<lparr>is_absolute = True, components = [''c'']\<rparr>"

definition first_profile :: "unit profile" where
  "first_profile = profile_new 7 ''work'' () ''anyconnect''"

definition second_profile :: "unit profile" where
  "second_profile = profile_new 8 ''home'' () ''gp''"

definition sample_document :: "u64 \<Rightarrow> unit profile list \<Rightarrow> unit profile_document" where
  "sample_document r ps = \<lparr>pd_schema_version = 1, pd_revision = r, profiles = ps\<rparr>"

text \<open>The documents of the examples: the first, and what an operation makes of it.\<close>

definition sample_table :: "(u8 list \<times> unit profile_document) list" where
  "sample_table =
     [([1], sample_document 1 [first_profile]),
      ([2], sample_document 2 [first_profile\<lparr>pf_revision := 2\<rparr>]),
      ([3], sample_document 2 [first_profile, second_profile]),
      ([4], sample_document 2 []),
      ([5], sample_document 1 [second_profile])]"

abbreviation sample_codec :: "unit store_codec" where
  "sample_codec \<equiv> table_codec sample_table"

definition private_folder :: dir_meta where
  "private_folder = \<lparr>dm_uid = 1000, dm_mode = 0x1C0\<rparr>"

definition sample_desk :: "(string \<times> string) list desk" where
  "sample_desk =
     \<lparr>kernel = \<lparr>dirs = [(''/c'', private_folder), (''/d/credentials-locks'', private_folder)],
                cwd = [], links = [], vault = [(''7:password'', ''secret'')]\<rparr>,
      files = [(''/c/profiles.json'', \<lparr>f_meta = f_meta (created_file 1000), f_data = [1]\<rparr>)],
      fates = [], boot = ''b'', euid = 1000\<rparr>"

lemma sample_after:
  "after sample_crates sample_codec sample_folder (sample_document 1 [first_profile]) sample_desk"
proof -
  have "stored_document sample_crates sample_codec sample_folder sample_desk
      = Some (sample_document 1 [first_profile])"
    by code_simp
  then show ?thesis by (simp add: after_def tidy_def sample_desk_def)
qed

lemma sample_codec_ok: "codec_ok sample_codec"
  by (rule table_codec_ok) (simp add: sample_table_def)

text \<open>Runs without failures, among files that are no symbolic links.\<close>

lemma io_applied:
  "io_bind f g m = (case f m of (Done x, m') \<Rightarrow> g x m' | (Fault e, m') \<Rightarrow> (Fault e, m')
     | (Crashed, m') \<Rightarrow> (Crashed, m'))"
  "io_return x m = (Done x, m)" "io_fail e m = (Fault e, m)" "io_get h m = (Done (h m), m)"
  by (simp_all add: io_defs split: prod.splits outcome.splits)

definition lucky :: "'r desk \<Rightarrow> bool" where
  "lucky m \<longleftrightarrow> fates m = [] \<and> list_all (\<lambda>(n, f). \<not> fm_symlink (f_meta f)) (files m)"

lemma lucky_fates [simp]: "lucky m \<Longrightarrow> fates m = []"
  by (simp add: lucky_def)

lemma lucky_probe: "fates m = [] \<Longrightarrow> probe e m = (Done (), m)"
  by (simp add: probe_def effect_def)

lemma lucky_effect: "fates m = [] \<Longrightarrow> effect e f m = (Done (), f None m)"
  by (simp add: effect_def)

lemma lucky_absolute:
  "is_absolute p \<Longrightarrow> ''..'' \<notin> set (components p) \<Longrightarrow> absolute p m = (Done (components p), m)"
  by (simp add: absolute_def io_applied full_path_def)

lemma lucky_file: "lucky m \<Longrightarrow> map_of (files m) n = Some f \<Longrightarrow> \<not> fm_symlink (f_meta f)"
  by (auto simp: lucky_def list_all_iff dest!: map_of_SomeD)

lemma lucky_ancestors: "lucky m \<Longrightarrow> check_ancestors p m = (Done (), m)"
proof -
  assume l: "lucky m"
  then have "check_ancestor a m = (Done (), m)" for a
    using lucky_file [OF l] by (auto simp: check_ancestor_def io_applied lucky_probe split: option.split)
  then have "io_each check_ancestor as m = (Done (), m)" for as
    by (induction as) (simp_all add: io_applied)
  then show ?thesis by (simp add: check_ancestors_def)
qed

lemma lucky_asked: "lucky m \<Longrightarrow> asked q m = (Done (q m), m)"
  by (simp add: asked_def io_applied io_try_def lucky_probe)

lemma lucky_private:
  assumes "lucky m" "map_of (dirs (kernel m)) (path_text (rev p)) = Some \<lparr>dm_uid = euid m, dm_mode = 0x1C0\<rparr>"
  shows "make_private p m = (Done (), m)"
  using assms by (cases p) (simp_all add: io_applied lucky_ancestors lucky_asked lucky_probe
      present_def verify_directory_def)

lemma lucky_ensure:
  assumes "lucky m" "is_absolute p" "''..'' \<notin> set (components p)"
    "map_of (dirs (kernel m)) (path_text (components p)) = Some \<lparr>dm_uid = euid m, dm_mode = 0x1C0\<rparr>"
  shows "ensure_private_directory p m = (Done (), m)"
  using assms by (simp add: ensure_private_directory_def io_applied lucky_absolute lucky_private)

lemma lucky_verify:
  assumes "lucky m" "map_of (files m) (path_text q) = Some f" "private_file (euid m) f"
  shows "verify_file q m = (Done (Some ()), m)"
  using assms by (simp add: verify_file_def io_applied lucky_probe)

lemma lucky_open:
  assumes "lucky m" "map_of (files m) (path_text q) = Some f" "private_file (euid m) f"
    "\<not> is_directory q m" "\<not> (create \<and> exclusive)"
  shows "open_private q create exclusive m = (Done (Some ()), m)"
  using assms lucky_file [OF assms(1,2)]
  by (simp add: open_private_def io_applied lucky_probe lucky_verify Let_def)

lemma lucky_create:
  assumes "lucky m" "map_of (files m) (path_text q) = None" "\<not> is_directory q m"
    "q \<noteq> []" "is_directory (butlast q) m"
  shows "open_private q True exclusive m
     = (Done (Some ()), m\<lparr>files := put_file (path_text q) (created_file (euid m)) (files m)\<rparr>)"
proof -
  have l: "lucky (m\<lparr>files := put_file n (created_file (euid m)) (files m)\<rparr>)" for n
  proof -
    have "list_all P (put_file n x fs)" if "list_all P fs" "P (n, x)" for P and x :: jfile and fs
      using that by (induction n x fs rule: put_file.induct) auto
    then show ?thesis
      using assms(1) by (simp add: lucky_def created_file_def)
  qed
  then show ?thesis
    using assms
    by (simp add: open_private_def io_applied lucky_effect Let_def whole_def lucky_verify
        created_private)
qed

lemma publish_fates: "fates (write_file n b s m) = fates m" "fates (rename_file a c m) = fates m"
  by (simp_all add: write_file_def rename_file_def split: option.split)

lemma lucky_write:
  assumes "lucky m" "is_absolute p" "''..'' \<notin> set (components p)" "components p \<noteq> []"
    "is_directory (butlast (components p)) m"
    "map_of (files m) (path_text (components p)) = Some f" "private_file (euid m) f"
    "\<not> is_directory (components p) m"
    "map_of (files m) (path_text (butlast (components p) @ [temporary_name fresh])) = None"
    "\<not> is_directory (butlast (components p) @ [temporary_name fresh]) m"
  shows "fst (atomic_write fresh p bytes True m) = Done ()"
  using assms
  by (simp add: atomic_write_def io_applied lucky_absolute lucky_ancestors lucky_asked lucky_open
      lucky_create io_lift_def Let_def publish_def replace_file_def io_try_def lucky_effect lucky_probe
      publish_fates whole_def sync_folder_def)

lemmas lucky_runs = lucky_probe lucky_effect lucky_absolute lucky_ancestors lucky_asked lucky_ensure
  lucky_open lucky_create

lemma sample_valid:
  "profile_validate sample_crates first_profile = Inr ()"
  "validate_profiles sample_crates [first_profile] = Inr ()"
  "validate_profiles sample_crates [first_profile\<lparr>pf_revision := 2\<rparr>] = Inr ()"
  "profile_validate sample_crates second_profile = Inr ()"
  "validate_profiles sample_crates [first_profile, second_profile] = Inr ()"
  by code_simp+

lemma sample_decode:
  "decode sample_codec (sc_profiles sample_codec) [1] p = Inr (sample_document 1 [first_profile])"
  "decode sample_codec (sc_profiles sample_codec) [3] p = Inr (sample_document 2 [first_profile, second_profile])"
  "decode sample_codec (sc_export sample_codec) [5] p = Inr \<lparr>pe_schema_version = 1, pe_profiles = [second_profile]\<rparr>"
  by code_simp+

lemma sample_encode:
  "sc_profiles_bytes sample_codec (sample_document 2 [first_profile\<lparr>pf_revision := 2\<rparr>]) = Some [2]"
  "sc_profiles_bytes sample_codec (sample_document 2 [first_profile, second_profile]) = Some [3]"
  "sc_profiles_bytes sample_codec (sample_document 2 []) = Some [4]"
  by code_simp+

lemma sample_document_simps:
  "profiles (sample_document r ps) = ps" "pd_revision (sample_document r ps) = r"
  "pd_schema_version (sample_document r ps) = 1"
  "(sample_document r ps)\<lparr>profiles := qs\<rparr> = sample_document r qs"
  "(sample_document r ps)\<lparr>pd_revision := s\<rparr> = sample_document s ps"
  "pf_id first_profile = 7" "pf_revision first_profile = 1"
  "pf_id second_profile = 8" "pf_revision second_profile = 1"
  by (simp_all add: sample_document_def first_profile_def second_profile_def profile_new_def)

definition locked_desk :: "(string \<times> string) list desk" where
  "locked_desk = sample_desk\<lparr>files := files sample_desk @ [(''/c/metadata.lock'', created_file 1000)]\<rparr>"

lemma sample_lucky: "lucky sample_desk" "lucky locked_desk"
  by (simp_all add: lucky_def sample_desk_def locked_desk_def created_file_def)

lemma sample_fields:
  "dirs (kernel sample_desk) = [(''/c'', private_folder), (''/d/credentials-locks'', private_folder)]"
  "files sample_desk = [(''/c/profiles.json'', \<lparr>f_meta = f_meta (created_file 1000), f_data = [1]\<rparr>)]"
  "kernel locked_desk = kernel sample_desk" "euid sample_desk = 1000" "euid locked_desk = 1000"
  "files locked_desk = files sample_desk @ [(''/c/metadata.lock'', created_file 1000)]"
  "is_absolute sample_folder" "components sample_folder = [''c'']"
  "components (joined p n) = components p @ [n]" "is_absolute (joined p n) = is_absolute p"
  by (simp_all add: sample_desk_def locked_desk_def sample_folder_def joined_def)

lemma sample_lock: "take_lock sample_folder sample_desk = (Done (), locked_desk)"
  using sample_lucky
  by (simp add: take_lock_def open_private_lock_def io_applied lucky_runs sample_fields io_lift_def
      path_text_def private_folder_def is_directory_def)
     (simp add: locked_desk_def sample_fields lucky_probe)

lemma sample_private: "private_file u \<lparr>f_meta = f_meta (created_file u), f_data = b\<rparr>"
  by (simp add: private_file_def created_file_def)

lemma sample_read:
  "read_document sample_codec from sample_folder ''profiles.json'' locked_desk
     = (case decode sample_codec from [1] (joined sample_folder ''profiles.json'') of
          Inl e \<Rightarrow> Fault e | Inr d \<Rightarrow> Done (Some d), locked_desk)"
  using sample_lucky
  by (simp add: read_document_def open_private_read_def io_applied lucky_runs sample_fields io_lift_def
      path_text_def is_directory_def sample_private contents_def limited_code store_limit_def
      full_path_def Let_def split: sum.split)

lemma sample_write:
  "fst (atomic_write ''t'' (joined sample_folder ''profiles.json'') bytes True locked_desk) = Done ()"
  by (rule lucky_write [of _ _ "\<lparr>f_meta = f_meta (created_file 1000), f_data = [1]\<rparr>"])
     (simp_all add: sample_lucky sample_fields sample_private is_directory_def path_text_def
       private_folder_def temporary_name_def)

lemma sample_open: "profiles_unlocked sample_crates sample_codec sample_folder locked_desk
    = (Done (sample_document 1 [first_profile]), locked_desk)"
  by (simp add: profiles_unlocked_def io_applied sample_read sample_decode sample_valid io_lift_def
      sample_document_simps)

lemma increment_one: "increment 1 = Inr 2"
  by (simp add: increment_def checked_add_def)

lemma bind_fst: "fst (io_bind (io_lift (Inr x)) g m) = fst (g x m)"
  by (simp add: io_applied io_lift_def)

lemma sample_commit:
  assumes "sc_profiles_bytes sample_codec (sample_document 2 ps) = Some [b]"
  shows "fst (commit_profiles ''t'' sample_codec sample_folder (sample_document 1 ps) locked_desk) = Done ()"
  unfolding commit_profiles_def write_document_def Let_def sample_document_simps increment_one
    bind_fst assms ok_or_simps
  by (simp add: store_limit_def sample_write)

lemma bind_Done: "fst (f m) = Done x \<Longrightarrow> fst (io_bind f (\<lambda>_. io_return y) m) = Done y"
  by (cases "f m") (simp add: io_applied)

lemma bind_lifted: "io_bind (io_lift (Inr x)) g m = g x m"
  by (simp add: io_applied io_lift_def)

lemmas sample_run = bind_to [where f = "take_lock sample_folder", OF sample_lock]
  bind_to [where f = "profiles_unlocked sample_crates sample_codec sample_folder", OF sample_open]
  bind_lifted sample_valid
  sample_document_simps Let_def ok_or_simps

lemma sample_commit_return:
  assumes "sc_profiles_bytes sample_codec (sample_document 2 ps) = Some [b]"
  shows "fst (io_bind (commit_profiles ''t'' sample_codec sample_folder (sample_document 1 ps))
           (\<lambda>_. io_return y) locked_desk) = Done y"
  by (rule bind_Done) (rule sample_commit [OF assms])

lemma sample_update:
  "fst (update_profile ''t'' sample_crates sample_codec sample_folder first_profile sample_desk)
     = Done (first_profile\<lparr>pf_revision := 2\<rparr>)"
  using sample_commit_return [OF sample_encode(1)]
  by (simp add: update_profile_def sample_run stale_def increment_one)

lemma sample_create:
  "fst (create_profile ''t'' sample_crates sample_codec sample_folder second_profile sample_desk)
     = Done second_profile"
proof -
  have e: "second_profile\<lparr>pf_revision := 1\<rparr> = second_profile"
    by (simp add: second_profile_def profile_new_def)
  show ?thesis
    using sample_commit_return [OF sample_encode(2)]
    by (simp add: create_profile_def sample_run e)
qed

section \<open>The store as a whole\<close>

text \<open>C35: whatever operations the processes of a user run on a profile directory, each failing or
dying wherever it may, the stored document stays readable and valid and moves only by edits: adding
profiles at revision 1, replacing one profile by its successor with the same identifier, or removing
one, each counting the revision of the document up by one. So a revision names one content for
ever.\<close>

theorem profile_store_refines:
  assumes "codec_ok K" "after X K D d m" "(store_step R P X K D)\<^sup>*\<^sup>* m m'"
  shows "\<exists>d'. after X K D d' m' \<and> (ProfileSpec.edit X)\<^sup>*\<^sup>* d d'
    \<and> (d' = d \<or> unat (pd_revision d) < unat (pd_revision d'))"
proof -
  have g: "codec_ok K \<and> (\<exists>d. after X K D d m)" using assms by blast
  have "stored_document X K D m = Some d" using assms(2) by (simp add: after_def)
  then obtain d' where d': "stored_document X K D m' = Some d'" "(ProfileSpec.edit X)\<^sup>*\<^sup>* d d'"
    using edits_of_views [OF store.runs_refine [OF assms(3) g]] by blast
  moreover have "after X K D d' m'"
    using store.good_run [OF assms(3) g] d'(1) by (auto simp: after_def)
  ultimately show ?thesis using edits_revision by blast
qed

theorem profile_store_refines_witness:
  "\<exists>m' d'. m' = snd (update_profile ''t'' sample_crates sample_codec sample_folder first_profile sample_desk)
     \<and> after sample_crates sample_codec sample_folder d' m'
     \<and> (ProfileSpec.edit sample_crates)\<^sup>*\<^sup>* (sample_document 1 [first_profile]) d'"
proof -
  let ?m = "snd (update_profile ''t'' sample_crates sample_codec sample_folder first_profile sample_desk)"
  have "run_op sample_keyring sample_places sample_crates sample_codec sample_folder
      (UpdateOp ''t'' first_profile) sample_desk = (Done (), ?m)"
    using sample_update
    by (cases "update_profile ''t'' sample_crates sample_codec sample_folder first_profile sample_desk")
       (simp add: io_applied)
  then have "(store_step sample_keyring sample_places sample_crates sample_codec sample_folder)\<^sup>*\<^sup>*
      sample_desk ?m"
    by (intro r_into_rtranclp store_step.operation)
  from profile_store_refines [OF sample_codec_ok sample_after this] show ?thesis by blast
qed

section \<open>Updates\<close>

text \<open>C@: an update that reports success was made against the stored revision of its profile: it
replaces exactly that profile by the given one with the next revision, and leaves every other profile
as it was, so no update is lost.\<close>

theorem update_replaces_current:
  assumes "codec_ok K" "after X K D d m" "update_profile fresh X K D p m = (Done p', m')"
  shows "\<exists>i s. i < length (profiles d) \<and> pf_id (profiles d ! i) = pf_id p
    \<and> pf_revision (profiles d ! i) = pf_revision p
    \<and> unat (pf_revision p') = Suc (unat (pf_revision p)) \<and> p' = p\<lparr>pf_revision := pf_revision p'\<rparr>
    \<and> unat s = Suc (unat (pd_revision d))
    \<and> stored_document X K D m' = Some (d\<lparr>profiles := (profiles d)[i := p'], pd_revision := s\<rparr>)"
proof -
  obtain ps where r: "replaced d p p' ps" and s: "saved_as X K D d ps m'"
    using runsD(2) [OF update_runs [OF assms(1,2)] calm_refl assms(3) refl] by blast
  obtain i v where i: "position (\<lambda>q. pf_id q = pf_id p) (profiles d) = Some i"
    "pf_revision (profiles d ! i) = pf_revision p" "increment (pf_revision p) = Inr v"
    "p' = p\<lparr>pf_revision := v\<rparr>" "ps = (profiles d)[i := p']"
    using r by (auto simp: replaced_def)
  obtain w where w: "increment (pd_revision d) = Inr w"
    "stored_document X K D m' = Some (d\<lparr>profiles := ps, pd_revision := w\<rparr>)"
    using s by (auto simp: saved_as_def after_def)
  show ?thesis
    using position_Some [OF i(1)] i increment_Suc [OF i(3)] increment_Suc [OF w(1)] w(2)
    by (intro exI [of _ i] exI [of _ w]) simp
qed

theorem update_replaces_current_witness:
  "\<exists>m' i s. i < length [first_profile]
     \<and> update_profile ''t'' sample_crates sample_codec sample_folder first_profile sample_desk
         = (Done (first_profile\<lparr>pf_revision := 2\<rparr>), m')
     \<and> stored_document sample_crates sample_codec sample_folder m'
         = Some (sample_document s [first_profile\<lparr>pf_revision := 2\<rparr>])"
proof -
  obtain m' where u: "update_profile ''t'' sample_crates sample_codec sample_folder first_profile
      sample_desk = (Done (first_profile\<lparr>pf_revision := 2\<rparr>), m')"
    using sample_update
    by (cases "update_profile ''t'' sample_crates sample_codec sample_folder first_profile sample_desk") simp
  show ?thesis
    using update_replaces_current [OF sample_codec_ok sample_after u] u
    by (auto simp: sample_document_simps)
qed

lemma update_refused:
  assumes d: "after X K D d m0"
    and p: "\<forall>q\<in>set (profiles d). pf_id q = pf_id p \<longrightarrow> pf_revision q \<noteq> pf_revision p"
  shows "runs (calm m0) (update_profile fresh X K D p) (calm m0) (\<lambda>_ _. False)"
  unfolding update_profile_def Let_def
proof (intro locked_runs runs_bind_lift)
  fix d' i u
  assume "stored_document X K D m0 = Some d'"
    and "ok_or no_profile (position (\<lambda>q. pf_id q = pf_id p) (profiles d')) = Inr i"
      "stale (pf_revision (profiles d' ! i)) (pf_revision p) = Inr u"
  then have False
    using p stored_unique [OF d] position_Some
    by (fastforce simp: result_simps stale_def split: if_splits)
  then show "runs (calm m0) f (calm m0) (\<lambda>_ _. False)" for f ..
qed auto

text \<open>C37: an update made against a revision that is not the stored one, or for a profile that is not
stored, is never reported as done, and the stored document is the one before, however the operation
ends.\<close>

theorem stale_update_refused:
  assumes "after X K D d m"
    and "\<forall>q\<in>set (profiles d). pf_id q = pf_id p \<longrightarrow> pf_revision q \<noteq> pf_revision p"
    and "update_profile fresh X K D p m = (r, m')"
  shows "stored_document X K D m' = Some d \<and> r \<noteq> Done p'"
proof -
  have "calm m m'" and "r = Done p' \<Longrightarrow> False"
    using runsD [OF update_refused [OF assms(1,2)] calm_refl assms(3)] by blast+
  then show ?thesis
    using calm_after [OF _ assms(1)] by (auto simp: after_def)
qed

theorem stale_update_refused_witness:
  "\<exists>r m'. update_profile ''t'' sample_crates sample_codec sample_folder
       (first_profile\<lparr>pf_revision := 3\<rparr>) sample_desk = (r, m')
     \<and> stored_document sample_crates sample_codec sample_folder m'
         = Some (sample_document 1 [first_profile])"
proof -
  have "\<forall>q\<in>set (profiles (sample_document 1 [first_profile])).
      pf_id q = pf_id (first_profile\<lparr>pf_revision := 3\<rparr>) \<longrightarrow> pf_revision q \<noteq> pf_revision (first_profile\<lparr>pf_revision := 3\<rparr>)"
    by (simp add: sample_document_simps)
  from stale_update_refused [OF sample_after this] show ?thesis by (metis prod.collapse)
qed

section \<open>Removal\<close>

text \<open>What is relied on of the keyring, seen through \<open>view\<close>: opening an entry changes nothing, and a
deletion touches no other account, leaves its own as it was or gone, and gone when it succeeds.\<close>

definition keyring_ok :: "('r, 'i) keyring \<Rightarrow> ('r \<Rightarrow> string \<Rightarrow> string option) \<Rightarrow> bool" where
  "keyring_ok R view \<longleftrightarrow>
     (\<forall>a v. view (snd (kr_entry R keyring_service a v)) = view v)
     \<and> (\<forall>a b v. let v' = snd (kr_delete R keyring_service a v) in
          view v' b = view v b \<or> a = b \<and> view v' b = None)
     \<and> (\<forall>a v x. fst (kr_delete R keyring_service a v) = Done x
          \<longrightarrow> view (snd (kr_delete R keyring_service a v)) a = None)"

definition erased :: "('r \<Rightarrow> string \<Rightarrow> string option) \<Rightarrow> places \<Rightarrow> uuid \<Rightarrow> purpose set \<Rightarrow> 'r \<Rightarrow> bool" where
  "erased view P i ps v \<longleftrightarrow> (\<forall>p\<in>ps. view v (account P i p) = None)"

lemma native_runs:
  assumes "\<And>v r v'. I v \<Longrightarrow> f v = (r, v') \<Longrightarrow> I v' \<and> (\<forall>x. r = Done x \<longrightarrow> J v')"
  shows "runs (\<lambda>m. calm m0 m \<and> I (vault (kernel m))) (native f)
     (\<lambda>m. calm m0 m \<and> I (vault (kernel m))) (\<lambda>_ m. calm m0 m \<and> J (vault (kernel m)))"
proof (rule runsI)
  fix m r m'
  assume p: "calm m0 m \<and> I (vault (kernel m))" and n: "native f m = (r, m')"
  obtain q v where f: "f (vault (kernel m)) = (q, v)" by (cases "f (vault (kernel m))")
  have m': "m' = m\<lparr>kernel := (kernel m)\<lparr>vault := v\<rparr>\<rparr>" and r: "\<And>x. r = Done x \<Longrightarrow> q = Done x"
    using n f by (cases q; simp add: native_def io_map_err_def in_vault_def)+
  show "(calm m0 m' \<and> I (vault (kernel m'))) \<and> (\<forall>x. r = Done x \<longrightarrow> calm m0 m' \<and> J (vault (kernel m')))"
    using assms [OF conjunct2 [OF p] f] p r by (auto simp: m')
qed

lemma delete_locked_runs:
  assumes R: "keyring_ok R view"
  shows "runs (\<lambda>m. calm m0 m \<and> erased view P i ps (vault (kernel m))) (delete_locked R P i p) (calm m0)
     (\<lambda>_ m. calm m0 m \<and> erased view P i (insert p ps) (vault (kernel m)))"
proof -
  let ?E = "\<lambda>ps m. calm m0 m \<and> erased view P i ps (vault (kernel m))"
  have "runs (?E ps) serialize_access (?E ps) (\<lambda>_. ?E ps)"
    unfolding serialize_access_def by (rule runs_probe) simp_all
  moreover have "runs (?E ps) (native (kr_entry R keyring_service (account P i p))) (?E ps) (\<lambda>_. ?E ps)"
    by (rule native_runs) (use R in \<open>auto simp: keyring_ok_def erased_def dest!: arg_cong [of _ _ snd]\<close>)
  moreover have "runs (?E ps) (native (kr_delete R keyring_service (account P i p))) (?E ps)
      (\<lambda>_. ?E (insert p ps))"
  proof (rule native_runs)
    fix v r v'
    assume e: "erased view P i ps v" and k: "kr_delete R keyring_service (account P i p) v = (r, v')"
    have "view v' b = view v b \<or> account P i p = b \<and> view v' b = None" for b
      using R k unfolding keyring_ok_def Let_def by (metis snd_conv)
    moreover have "r = Done x \<Longrightarrow> view v' (account P i p) = None" for x
      using R k unfolding keyring_ok_def by (metis fst_conv snd_conv)
    ultimately show "erased view P i ps v' \<and> (\<forall>x. r = Done x \<longrightarrow> erased view P i (insert p ps) v')"
      using e unfolding erased_def by (metis insert_iff)
  qed
  ultimately have "runs (?E ps) (delete_locked R P i p)
      (\<lambda>m. ?E ps m \<or> ?E (insert p ps) m) (\<lambda>_. ?E (insert p ps))"
    unfolding delete_locked_def
    by (intro runs_bind [where R = "\<lambda>_. ?E ps"] runs_bind [where R = "\<lambda>_. ?E (insert p ps)"] runs_return)
       (auto elim: runs_weaken)
  then show ?thesis by (rule runs_weaken) auto
qed

lemma delete_all_runs:
  assumes "keyring_ok R view"
  shows "runs (\<lambda>m. calm m0 m \<and> erased view P i qs (vault (kernel m)))
     (io_each (delete_locked R P i) ps) (calm m0)
     (\<lambda>_ m. calm m0 m \<and> erased view P i (set ps \<union> qs) (vault (kernel m)))"
proof (induction ps arbitrary: qs)
  case (Cons p ps)
  have "runs (\<lambda>m. calm m0 m \<and> erased view P i (insert p qs) (vault (kernel m)))
     (io_each (delete_locked R P i) ps) (calm m0)
     (\<lambda>_ m. calm m0 m \<and> erased view P i (set (p # ps) \<union> qs) (vault (kernel m)))"
    using Cons.IH [of "insert p qs"] by simp
  then show ?case
    unfolding io_each.simps by (rule runs_bind [OF delete_locked_runs [OF assms]])
qed (auto intro: runs_return)

lemma removal_runs:
  assumes R: "keyring_ok R view" and K: "codec_ok K" and d: "after X K D d m0"
  shows "runs (calm m0) (remove_profile fresh R P X K D target expected protected)
     (\<lambda>m. after X K D d m \<or> erased view P target (set all_purposes) (vault (kernel m)))
     (\<lambda>_ m. erased view P target (set all_purposes) (vault (kernel m)))"
  unfolding remove_profile_def
proof (rule runs_bind_keeps, intro keeps_rules, erule disjI1 [OF calm_after [OF _ d]],
    intro runs_if opened_runs runs_bind_lift)
  let ?E = "\<lambda>m. erased view P target (set all_purposes) (vault (kernel m))"
  fix d' i
  assume "stored_document X K D m0 = Some d'"
  then have d': "d' = d" by (simp add: stored_unique [OF d])
  have "validate_profiles X (profiles d) = Inr ()"
    using d K stored_schema(2) unfolding after_def by blast
  note commit = commit_runs [OF K d validate_remove [OF this],
      where G = "erased view P target (set all_purposes)"]
  have lock: "runs (calm m0) (lock_profile P target) (calm m0)
      (\<lambda>_ m. calm m0 m \<and> erased view P target {} (vault (kernel m)))"
    using calm_lock_profile [of m0 P target] unfolding keeps_def
    by (rule runs_weaken) (simp_all add: erased_def)
  have "runs (calm m0) (delete_profile_blocking R P target) (calm m0) (\<lambda>_ m. calm m0 m \<and> ?E m)"
    unfolding delete_profile_blocking_def
    using runs_bind [OF lock delete_all_runs [OF R]] by simp
  then have "runs (calm m0) (delete_profile_blocking R P target)
      (\<lambda>m. after X K D d m \<or> ?E m) (\<lambda>_ m. calm m0 m \<and> ?E m)"
    by (rule runs_weaken) (auto intro: calm_after [OF _ d])
  then show "runs (calm m0) (io_bind (delete_profile_blocking R P target)
       (\<lambda>_. commit_profiles fresh K D (d'\<lparr>profiles := remove_nth i (profiles d')\<rparr>)))
     (\<lambda>m. after X K D d m \<or> ?E m) (\<lambda>_. ?E)"
    unfolding d' by (rule runs_bind) (rule runs_weaken [OF commit], auto)
qed (auto intro!: runs_fail intro: calm_after [OF _ d])

text \<open>C36: removing a profile deletes its credentials first: at whatever point a removal fails or the
process dies, a profile that is no longer stored has no credential left in the keyring, under any of
its five purposes.\<close>

theorem removal_leaves_no_credentials:
  assumes "keyring_ok R view" "codec_ok K" "after X K D d m" "target \<in> pf_id ` set (profiles d)"
    and "remove_profile fresh R P X K D target expected protected m = (r, m')"
    and "\<forall>d'. stored_document X K D m' = Some d' \<longrightarrow> target \<notin> pf_id ` set (profiles d')"
    and "p \<in> set all_purposes"
  shows "view (vault (kernel m')) (account P target p) = None"
proof -
  have "after X K D d m' \<or> erased view P target (set all_purposes) (vault (kernel m'))"
    using runsD(1) [OF removal_runs [OF assms(1-3)] calm_refl assms(5)] .
  then show ?thesis
    using assms(4,6,7) by (auto simp: after_def erased_def)
qed

definition keyed_desk :: "(string \<times> string) list \<Rightarrow> (string \<times> string) list desk" where
  "keyed_desk v = locked_desk\<lparr>kernel := (kernel locked_desk)\<lparr>vault := v\<rparr>,
     files := files locked_desk @ [(''/d/credentials-locks/7.lock'', created_file 1000)]\<rparr>"

lemma keyed_fields:
  "lucky (keyed_desk v)" "euid (keyed_desk v) = 1000" "kernel (keyed_desk v) = (kernel locked_desk)\<lparr>vault := v\<rparr>"
  "files (keyed_desk v) = files locked_desk @ [(''/d/credentials-locks/7.lock'', created_file 1000)]"
  "fates (keyed_desk v) = []"
  by (simp_all add: lucky_def keyed_desk_def locked_desk_def sample_desk_def created_file_def)

lemma sample_account: "account sample_places 7 p = ''7:'' @ identity p"
  by (simp add: account_def sample_places_def sample_id_def)

lemma sample_keys: "lock_profile sample_places 7 locked_desk = (Done (), keyed_desk [(''7:password'', ''secret'')])"
proof -
  have "vault (kernel sample_desk) = [(''7:password'', ''secret'')]"
    by (simp add: sample_desk_def)
  then have k: "keyed_desk [(''7:password'', ''secret'')]
      = locked_desk\<lparr>files := files locked_desk @ [(''/d/credentials-locks/7.lock'', created_file 1000)]\<rparr>"
    by (simp add: keyed_desk_def sample_fields)
  show ?thesis
    using sample_lucky keyed_fields(5) [of "[(''7:password'', ''secret'')]"] unfolding k
    by (simp add: lock_profile_def Let_def open_private_lock_def io_applied lucky_runs sample_fields
        io_lift_def path_text_def private_folder_def is_directory_def sample_places_def
        sample_id_def joined_def io_map_err_def)
qed

lemma sample_delete:
  "delete_locked sample_keyring sample_places 7 p (keyed_desk v)
     = (Done (), keyed_desk (filter (\<lambda>(b, _). b \<noteq> ''7:'' @ identity p) v))"
  using keyed_fields(1,5) [of v]
  by (simp add: delete_locked_def serialize_access_def io_applied lucky_probe native_def io_map_err_def
      in_vault_def sample_keyring_def sample_account keyed_fields(3))
     (simp add: keyed_desk_def)

lemma sample_erase: "delete_profile_blocking sample_keyring sample_places 7 locked_desk = (Done (), keyed_desk [])"
  unfolding delete_profile_blocking_def all_purposes_def
  by (simp add: sample_keys io_applied sample_delete)

lemma keyed_write:
  "fst (atomic_write ''t'' (joined sample_folder ''profiles.json'') bytes True (keyed_desk v)) = Done ()"
  by (rule lucky_write [of _ _ "\<lparr>f_meta = f_meta (created_file 1000), f_data = [1]\<rparr>"])
     (simp_all add: keyed_fields sample_fields sample_private is_directory_def path_text_def
       private_folder_def temporary_name_def)

lemma sample_remove:
  "fst (remove_profile ''t'' sample_keyring sample_places sample_crates sample_codec sample_folder 7 1 []
     sample_desk) = Done ()"
proof -
  have "fst (commit_profiles ''t'' sample_codec sample_folder (sample_document 1 []) (keyed_desk [])) = Done ()"
    unfolding commit_profiles_def write_document_def Let_def sample_document_simps increment_one
      bind_fst sample_encode ok_or_simps
    by (simp add: store_limit_def keyed_write)
  then show ?thesis
    by (simp add: remove_profile_def sample_run stale_def increment_one remove_nth_def
        bind_to [where f = "delete_profile_blocking sample_keyring sample_places 7", OF sample_erase])
qed

lemma sample_keyring_ok: "keyring_ok sample_keyring (\<lambda>v. map_of v)"
proof -
  have f: "map_of (filter (\<lambda>(b, _). b \<noteq> a) v) = (map_of v)(a := None)" for a and v :: "(string \<times> string) list"
    using map_of_del_file [of a] by (induction v) (auto simp: fun_eq_iff)
  show ?thesis
    by (auto simp: keyring_ok_def sample_keyring_def io_return_def f Let_def)
qed

theorem removal_leaves_no_credentials_witness:
  "\<exists>m'. remove_profile ''t'' sample_keyring sample_places sample_crates sample_codec sample_folder 7 1 []
       sample_desk = (Done (), m')
     \<and> map_of (vault (kernel sample_desk)) ''7:password'' = Some ''secret''
     \<and> map_of (vault (kernel m')) (account sample_places 7 PasswordPurpose) = None"
proof -
  obtain m' where r: "remove_profile ''t'' sample_keyring sample_places sample_crates sample_codec
      sample_folder 7 1 [] sample_desk = (Done (), m')"
    using sample_remove by (cases "remove_profile ''t'' sample_keyring sample_places sample_crates
      sample_codec sample_folder 7 1 [] sample_desk") simp
  have "\<exists>s. stored_document sample_crates sample_codec sample_folder m' = Some (sample_document s [])"
    using runsD(2) [OF remove_runs [OF sample_codec_ok sample_after] calm_refl r refl]
    by (auto simp: saved_as_def after_def sample_document_simps remove_nth_def)
  then have "\<forall>d'. stored_document sample_crates sample_codec sample_folder m' = Some d'
      \<longrightarrow> 7 \<notin> pf_id ` set (profiles d')"
    by (auto simp: sample_document_simps)
  then have "map_of (vault (kernel m')) (account sample_places 7 PasswordPurpose) = None"
    by (intro removal_leaves_no_credentials [OF sample_keyring_ok sample_codec_ok sample_after _ r])
       (simp_all add: sample_document_simps all_purposes_def)
  with r show ?thesis by (simp add: sample_desk_def)
qed

section \<open>Import, creation and export\<close>

text \<open>C@: an import is all or nothing: however it ends, the stored document is the one before, or it
has every profile of the import file added at its end, each at revision 1, none of them sharing an
identifier or a name with a stored profile or with each other; and it is the second when the import
reports success.\<close>

theorem import_all_or_nothing:
  assumes "codec_ok K" "after X K D d m" "import_json fresh P X K D bytes m = (r, m')"
  shows "(stored_document X K D m' = Some d \<and> (\<forall>ps. r \<noteq> Done ps))
    \<or> (\<exists>ps s. importable P X K bytes (profiles d) ps \<and> (\<forall>qs. r = Done qs \<longrightarrow> qs = ps)
         \<and> validate_profiles X (profiles d @ ps) = Inr () \<and> unat s = Suc (unat (pd_revision d))
         \<and> stored_document X K D m' = Some (d\<lparr>profiles := profiles d @ ps, pd_revision := s\<rparr>))"
proof -
  have v: "validate_profiles X (profiles d) = Inr ()"
    using assms(1,2) stored_schema(2) unfolding after_def by blast
  have saved: "\<exists>s. unat s = Suc (unat (pd_revision d))
      \<and> stored_document X K D m' = Some (d\<lparr>profiles := ps, pd_revision := s\<rparr>)"
    if "saved_as X K D d ps m'" for ps
    using that increment_Suc by (auto simp: saved_as_def after_def)
  note out = runsD [OF import_runs [OF assms(1,2)] calm_refl assms(3)]
  show ?thesis
  proof (cases "\<exists>qs. r = Done qs")
    case True
    then obtain qs where q: "r = Done qs" by blast
    from out(2) [OF q] show ?thesis
      using saved importable_change(2) [OF _ v] q by blast
  next
    case False
    with out(1) show ?thesis
      using saved importable_change(2) [OF _ v] by (auto simp: after_def)
  qed
qed

lemma sample_import:
  "fst (import_json ''t'' sample_places sample_crates sample_codec sample_folder [5] sample_desk)
     = Done [second_profile]"
proof -
  have e: "second_profile\<lparr>pf_revision := 1\<rparr> = second_profile"
    by (simp add: second_profile_def profile_new_def)
  have n: "pf_name first_profile = ''work''" "pf_name second_profile = ''home''"
    by (simp_all add: first_profile_def second_profile_def profile_new_def)
  show ?thesis
    using sample_commit_return [OF sample_encode(2)]
    by (simp add: import_json_def sample_run sample_decode e n)
qed

theorem import_all_or_nothing_witness:
  "\<exists>m' s. import_json ''t'' sample_places sample_crates sample_codec sample_folder [5] sample_desk
        = (Done [second_profile], m')
     \<and> stored_document sample_crates sample_codec sample_folder m'
        = Some (sample_document s [first_profile, second_profile])"
proof -
  obtain m' where i: "import_json ''t'' sample_places sample_crates sample_codec sample_folder [5]
      sample_desk = (Done [second_profile], m')"
    using sample_import
    by (cases "import_json ''t'' sample_places sample_crates sample_codec sample_folder [5] sample_desk") simp
  show ?thesis
    using import_all_or_nothing [OF sample_codec_ok sample_after i] i
    by (auto simp: sample_document_simps)
qed

lemma resolve_runs:
  assumes "after X K D d m0"
  shows "runs (calm m0) (resolve P X K D selector) (calm m0)
     (\<lambda>p m. select P (profiles d) selector = Inr p)"
proof -
  have "runs (calm m0) (list_profiles X K D) (calm m0) (\<lambda>d' m. calm m0 m \<and> d' = d)"
    unfolding list_profiles_def
    by (rule runs_bind_keeps [OF calm_take_lock _ runs_weaken [OF profiles_unlocked_runs]])
       (auto dest: stored_unique [OF assms])
  then show ?thesis
    unfolding resolve_def by (rule runs_bind) (rule runs_lift, auto)
qed

text \<open>C@: a created profile is found again: after a creation reported as done, a later resolution of
its identifier that returns a profile returns the created one, and a resolution of its name does when
the name does not read as an identifier.\<close>

theorem created_profile_resolves:
  assumes "codec_ok K" "after X K D d m" "create_profile fresh X K D p m = (Done p', m1)"
    and "uuid_parse P selector = Some (pf_id p) \<or> uuid_parse P selector = None \<and> selector = pf_name p"
    and "resolve P X K D selector (m1\<lparr>fates := fs\<rparr>) = (Done q, m2)"
  shows "q = p' \<and> p' = p\<lparr>pf_revision := 1\<rparr>"
proof -
  have p': "p' = p\<lparr>pf_revision := 1\<rparr>" and s: "saved_as X K D d (profiles d @ [p']) m1"
    using runsD(2) [OF create_runs [OF assms(1,2)] calm_refl assms(3) refl] by blast+
  obtain r where a: "after X K D (d\<lparr>profiles := profiles d @ [p'], pd_revision := r\<rparr>) m1"
    using s by (auto simp: saved_as_def)
  have v: "validate_profiles X (profiles d @ [p']) = Inr ()"
    using a stored_schema(2) [OF assms(1)] by (fastforce simp: after_def)
  have f: "select P (profiles d @ [p']) selector = Inr q"
    using runsD(2) [OF resolve_runs calm_refl assms(5) refl] a by fastforce
  have "List.find Q (ds @ [x]) = Some x" if "\<forall>y\<in>set ds. \<not> Q y" "Q x" for Q x and ds :: "'a profile list"
    using that by (induction ds) auto
  moreover have "\<forall>y\<in>set (profiles d). pf_id y \<noteq> pf_id p' \<and> pf_name y \<noteq> pf_name p'"
    using v by (auto simp: validate_profiles_iff image_iff)
  ultimately show ?thesis
    using f assms(4) p' by (auto simp: select_def)
qed

lemma lucky_written:
  assumes "lucky m" "is_absolute p" "''..'' \<notin> set (components p)" "components p \<noteq> []"
    "is_directory (butlast (components p)) m"
    "map_of (files m) (path_text (components p)) = Some f" "private_file (euid m) f"
    "\<not> is_directory (components p) m"
    "map_of (files m) (path_text (butlast (components p) @ [temporary_name fresh])) = None"
    "\<not> is_directory (butlast (components p) @ [temporary_name fresh]) m"
  shows "snd (atomic_write fresh p bytes True m)
    = m\<lparr>files := put_file (path_text (components p)) ((created_file (euid m))\<lparr>f_data := bytes\<rparr>)
        (del_file (path_text (butlast (components p) @ [temporary_name fresh]))
          (put_file (path_text (butlast (components p) @ [temporary_name fresh]))
            ((created_file (euid m))\<lparr>f_data := bytes\<rparr>)
            (put_file (path_text (butlast (components p) @ [temporary_name fresh]))
              (created_file (euid m)) (files m))))\<rparr>"
  using assms
  by (simp add: atomic_write_def io_applied lucky_absolute lucky_ancestors lucky_asked lucky_open
      lucky_create io_lift_def Let_def publish_def replace_file_def io_try_def lucky_effect lucky_probe
      publish_fates whole_def sync_folder_def write_file_def rename_file_def)

definition created_desk :: "(string \<times> string) list desk" where
  "created_desk = locked_desk\<lparr>files :=
     [(''/c/profiles.json'', (created_file 1000)\<lparr>f_data := [3]\<rparr>), (''/c/metadata.lock'', created_file 1000)]\<rparr>"

lemma sample_created:
  "atomic_write ''t'' (joined sample_folder ''profiles.json'') [3] True locked_desk = (Done (), created_desk)"
proof -
  have "snd (atomic_write ''t'' (joined sample_folder ''profiles.json'') [3] True locked_desk) = created_desk"
    by (subst lucky_written [of _ _ "\<lparr>f_meta = f_meta (created_file 1000), f_data = [1]\<rparr>"])
       (simp_all add: sample_lucky sample_fields sample_private is_directory_def path_text_def
         private_folder_def temporary_name_def created_desk_def del_file_def)
  with sample_write [of "[3]"] show ?thesis by (metis prod.collapse)
qed

lemma sample_create_state:
  "create_profile ''t'' sample_crates sample_codec sample_folder second_profile sample_desk
     = (Done second_profile, created_desk)"
proof -
  have e: "second_profile\<lparr>pf_revision := 1\<rparr> = second_profile"
    by (simp add: second_profile_def profile_new_def)
  have "commit_profiles ''t'' sample_codec sample_folder (sample_document 1 [first_profile, second_profile])
      locked_desk = (Done (), created_desk)"
    unfolding commit_profiles_def write_document_def Let_def sample_document_simps increment_one
      bind_lifted sample_encode ok_or_simps
    by (simp add: store_limit_def sample_created)
  then show ?thesis
    by (simp add: create_profile_def io_applied sample_lock sample_open io_lift_def sample_valid
        sample_document_simps Let_def e)
qed

lemma created_fields:
  "lucky created_desk" "lucky (created_desk\<lparr>fates := []\<rparr>)" "kernel created_desk = kernel sample_desk"
  "euid created_desk = 1000" "fates created_desk = []"
  "files created_desk = [(''/c/profiles.json'', (created_file 1000)\<lparr>f_data := [3]\<rparr>), (''/c/metadata.lock'', created_file 1000)]"
  by (simp_all add: created_desk_def lucky_def created_file_def locked_desk_def sample_desk_def)

lemma created_file_private: "private_file u ((created_file u)\<lparr>f_data := b\<rparr>)" "private_file u (created_file u)"
  by (simp_all add: created_file_def private_file_def)

lemma sample_resolve:
  "fst (resolve sample_places sample_crates sample_codec sample_folder ''home'' (created_desk\<lparr>fates := []\<rparr>))
     = Done second_profile"
proof -
  have s: "created_desk\<lparr>fates := []\<rparr> = created_desk"
    by (simp add: created_desk_def locked_desk_def sample_desk_def)
  have n: "pf_name first_profile = ''work''" "pf_name second_profile = ''home''"
    by (simp_all add: first_profile_def second_profile_def profile_new_def)
  have "take_lock sample_folder created_desk = (Done (), created_desk)"
    using created_fields(1)
    by (simp add: take_lock_def open_private_lock_def io_applied lucky_runs sample_fields io_lift_def
        path_text_def private_folder_def is_directory_def created_fields created_file_private)
  moreover have "read_document sample_codec (sc_profiles sample_codec) sample_folder ''profiles.json''
      created_desk = (Done (Some (sample_document 2 [first_profile, second_profile])), created_desk)"
    using created_fields(1)
    by (simp add: read_document_def open_private_read_def io_applied lucky_runs sample_fields io_lift_def
        path_text_def is_directory_def created_file_private contents_def limited_code store_limit_def
        full_path_def Let_def created_fields sample_decode)
  ultimately show ?thesis
    unfolding s
    by (simp add: resolve_def list_profiles_def io_applied profiles_unlocked_def sample_decode io_lift_def
        sample_valid sample_document_simps select_def sample_places_def n)
qed

theorem created_profile_resolves_witness:
  "\<exists>m2. create_profile ''t'' sample_crates sample_codec sample_folder second_profile sample_desk
       = (Done second_profile, created_desk)
     \<and> resolve sample_places sample_crates sample_codec sample_folder ''home'' (created_desk\<lparr>fates := []\<rparr>)
          = (Done second_profile, m2)"
proof -
  obtain q m2 where r: "resolve sample_places sample_crates sample_codec sample_folder ''home''
      (created_desk\<lparr>fates := []\<rparr>) = (Done q, m2)"
    using sample_resolve by (cases "resolve sample_places sample_crates sample_codec sample_folder ''home''
      (created_desk\<lparr>fates := []\<rparr>)") simp
  have "uuid_parse sample_places ''home'' = Some (pf_id second_profile)
      \<or> uuid_parse sample_places ''home'' = None \<and> ''home'' = pf_name second_profile"
    by (simp add: sample_places_def second_profile_def profile_new_def)
  from created_profile_resolves [OF sample_codec_ok sample_after sample_create_state this r]
  show ?thesis using r sample_create_state by blast
qed

lemma guarded_write:
  assumes "file_at m0 (name_of p m0) \<noteq> None"
  shows "runs (untouched m0) (atomic_write fresh p bytes False) (untouched m0) (\<lambda>_ _. False)"
  unfolding atomic_write_def
proof (rule runs_bind [OF absolute_runs], rule runs_pre, erule conjunct2)
  fix q
  assume q: "q = full_path p m0"
  have o: "runs (untouched m0) (open_private q False False) (untouched m0)
      (\<lambda>r m. untouched m0 m \<and> r \<noteq> None)"
    by (rule runs_weaken [OF open_reading [of m0 q False]])
       (use assms in \<open>auto simp: opened_as_def name_of_def q split: option.splits\<close>)
  have "runs (untouched m0) (io_bind (check_ancestors q) (\<lambda>_.
     if q = [] then io_fail (private_error q ''Missing parent directory'')
     else
     io_bind (asked (is_directory (butlast q))) (\<lambda>folder.
     if \<not> folder
     then io_fail (private_error (butlast q) ''Destination directory does not exist'')
     else
     io_bind (open_private q False False) (\<lambda>existing.
     if existing \<noteq> None \<and> \<not> False then io_fail destination_exists else g existing)))) (untouched m0)
     (\<lambda>_ _. False)" for g :: "unit option \<Rightarrow> ('a desk, unit) io"
    by (intro runs_bind_keeps keeps_rules runs_if runs_fail runs_bind [OF o])
       (auto intro: runs_False)
  then show "runs (\<lambda>m. untouched m0 m \<and> q = full_path p m0) (io_bind (check_ancestors q) (\<lambda>_.
     if q = [] then io_fail (private_error q ''Missing parent directory'')
     else
     io_bind (asked (is_directory (butlast q))) (\<lambda>folder.
     if \<not> folder
     then io_fail (private_error (butlast q) ''Destination directory does not exist'')
     else
     io_bind (open_private q False False) (\<lambda>existing.
     if existing \<noteq> None \<and> \<not> False then io_fail destination_exists
     else
     let temporary = butlast q @ [temporary_name fresh] in
     io_bind (open_private temporary True True) (\<lambda>opened.
     io_bind (io_lift (ok_or (private_error temporary ''Cannot create temporary file'') opened)) (\<lambda>_.
     io_bind (io_try (publish temporary q bytes False)) (\<lambda>r.
     case r of
       Inr _ \<Rightarrow> io_return ()
     | Inl e \<Rightarrow>
         io_bind (io_try (effect e (whole (remove_name (path_text temporary))))) (\<lambda>_.
         io_fail e)))))))) (untouched m0) (\<lambda>_ _. False)"
    by (rule runs_weaken) simp_all
qed

text \<open>C@: an export without force never replaces a file: when something is stored under the chosen
name, the export does not report success and what is stored there stays.\<close>

theorem export_never_overwrites:
  assumes "file_at m (name_of path m) = Some f"
    and "export_file fresh P X K D selector path False m = (r, m')"
  shows "file_at m' (name_of path m) = Some f \<and> r \<noteq> Done x"
proof -
  let ?n = "name_of path m"
  have kept: "file_at s ?n = Some f \<and> name_of path s = ?n" if "calm m s" for s
    using that assms(1) calm_full_path [OF that] unfolding calm_def name_of_def
    by (metis option.distinct(1))
  have e: "keeps (calm m) (export_json P X K D selector)"
    unfolding export_json_def list_profiles_def by (intro keeps_rules)
  have w: "runs (calm m) (atomic_write fresh path bytes False) (\<lambda>s. file_at s ?n = Some f) (\<lambda>_ _. False)"
    for bytes
  proof (rule runs_from)
    fix s
    assume c: "calm m s"
    have "runs (untouched s) (atomic_write fresh path bytes False) (untouched s) (\<lambda>_ _. False)"
      by (rule guarded_write) (use kept [OF c] in simp)
    then show "runs (\<lambda>t. t = s) (atomic_write fresh path bytes False) (\<lambda>t. file_at t ?n = Some f) (\<lambda>_ _. False)"
      by (rule runs_weaken) (use kept [OF c] in \<open>auto simp: untouched_def file_at_def\<close>)
  qed
  have "runs (calm m) (export_file fresh P X K D selector path False) (\<lambda>s. file_at s ?n = Some f) (\<lambda>_ _. False)"
    unfolding export_file_def by (rule runs_bind_keeps [OF e _ w]) (erule kept [THEN conjunct1])
  from runsD [OF this calm_refl assms(2)] show ?thesis by blast
qed

theorem export_never_overwrites_witness:
  "let out = export_file ''t'' sample_places sample_crates sample_codec sample_folder None
        (joined sample_folder ''profiles.json'') False sample_desk in
     map_option f_data (file_at (snd out) ''/c/profiles.json'') = Some [1] \<and> fst out \<noteq> Done ()"
proof -
  have n: "name_of (joined sample_folder ''profiles.json'') sample_desk = ''/c/profiles.json''"
    by (simp add: name_of_def full_path_def sample_fields path_text_def)
  then have f: "file_at sample_desk (name_of (joined sample_folder ''profiles.json'') sample_desk)
      = Some \<lparr>f_meta = f_meta (created_file 1000), f_data = [1]\<rparr>"
    by (simp add: file_at_def sample_fields)
  show ?thesis
    using export_never_overwrites [OF f prod.collapse [symmetric], where fresh = "''t''" and P = sample_places
      and X = sample_crates and K = sample_codec and D = sample_folder and selector = None and x = "()"]
    unfolding n Let_def by simp
qed

end
