(* ===== verification/EngineAuth.thy ===== *)
theory EngineAuth
  imports BrowserModel Effects
begin

text \<open>
  \<open>crates/engine/src/auth.rs\<close>, the shared part: the state of one authentication, the control that
  other threads hold, and the wait of the worker for an interaction. The OpenConnect library is the
  argument \<open>('n, 'u) openconnect\<close>, with \<open>'n\<close> its state; it calls back into the worker in any order it
  likes. An outcome \<open>Crashed\<close> is a panic.
\<close>

section \<open>Text of the library\<close>

text \<open>A C string as the bytes before its terminator, None for a null pointer.\<close>

type_synonym c_text = "string option"

definition protocol_violation :: "string \<Rightarrow> err" where
  "protocol_violation msg = new_error ProtocolViolation msg"

definition text_bounded :: "int \<Rightarrow> c_text \<Rightarrow> string result" where
  "text_bounded limit p =
     (case p of
        None \<Rightarrow> Inl (protocol_violation ''Missing native authentication data'')
      | Some s \<Rightarrow>
          if len s > limit
          then Inl (protocol_violation ''Native authentication data exceeds its size limit'')
          else if \<not> utf8_valid s
          then Inl (protocol_violation ''Native authentication data is not UTF-8'')
          else Inr s)"

definition native_text :: "c_text \<Rightarrow> string result" where
  "native_text p = text_bounded 65536 p"

definition optional_text :: "c_text \<Rightarrow> string option result" where
  "optional_text p = (case p of None \<Rightarrow> Inr None | Some _ \<Rightarrow> rbind (native_text p) (\<lambda>s. Inr (Some s)))"

text \<open>The buffer passed to the library: the bytes and a terminator.\<close>

definition cstring :: "string \<Rightarrow> string result" where
  "cstring v =
     (if len v > 65536 \<or> nul \<in> set v
      then Inl (invalid ''Native input is too long or contains a NUL'')
      else Inr (v @ [nul]))"

definition check_code :: "int \<Rightarrow> string \<Rightarrow> unit result" where
  "check_code c operation =
     (if c < 0 then Inl (new_error RuntimeFailure (''OpenConnect could not '' @ operation))
      else Inr ())"

section \<open>The library\<close>

datatype native_call =
    SetProtocol string | ParseUrl string | SetSystemTrust int | SetCafile string
  | HasPkcs11Support | SetClientCert string "string option" | SetMcaCert string "string option"
  | SetUseragent string | SetReportedOs string | SetSni string | SetGpBrowserMode int
  | SetKeyPassword string | SetMcaKeyPassword string | SetHttpProxy string
  | SetReqmtu u16 | DisableDtls | DisableIpv6
  | HasStokenSupport | HasOathSupport | HasYubioathSupport
  | SetTokenCallbacks | SetTokenMode int "string option"
  | VpninfoNew | DuplicateCmdHandle | ObtainCookie
  | SetOptionValue nat string | SetGroupSelection nat
  | GpAuthPhase | GpExternalAllowed | GpRetryEmbedded
  | LoadChanged string "string list" "string list"
  | GetPort | CheckPeerCertHash string

datatype text_query = DnsName | Hostname | ConnectUrl | PeerCertHash | PeerCertDetails | Cookie

record ('n, 'u) openconnect =
  oc_call :: "native_call \<Rightarrow> 'n \<Rightarrow> int \<times> 'n"
  oc_text :: "text_query \<Rightarrow> 'n \<Rightarrow> c_text"
  oc_expiration :: "'n \<Rightarrow> int"
  oc_again :: int
  url_set_path :: "string \<Rightarrow> 'u \<Rightarrow> 'u"

section \<open>What the threads share\<close>

datatype browser_answer = BrPage browser_page | BrOpened | BrCancel | BrFailed err

datatype 'u auth_event =
    EvPrompt auth_prompt | EvCertificate certificate_prompt | EvBrowser "'u browser_request"
  | EvBrowserFinished uuid | EvAuthenticated "'u auth_handoff" | EvFailed err | EvCancelled

datatype auth_response =
    RForm auth_reply | RCertificate uuid certificate_decision | RBrowser uuid browser_answer
  | RCancel

datatype 'u auth_pending =
    PForm auth_prompt | PCertificate uuid | PBrowser uuid 'u native_browser_kind

text \<open>\<open>Shared\<close> with the two channels. The response channel holds eight; \<open>sh_signals\<close> counts the
  cancellation bytes written to the command pipe while its handle was open; \<open>sh_listening\<close> is
  the receiver of the events.\<close>

record 'u auth_shared =
  sh_cancelled :: bool
  sh_pending :: "'u auth_pending option"
  sh_queue :: "auth_response list"
  sh_finished :: bool
  sh_command :: bool
  sh_signals :: nat
  sh_listening :: bool

definition auth_cancelled :: err where
  "auth_cancelled = new_error Cancelled ''Authentication cancelled''"

definition auth_stale :: err where
  "auth_stale = new_error Conflict ''Authentication prompt is no longer current''"

section \<open>The control\<close>

definition send_response :: "auth_response \<Rightarrow> 'u auth_shared \<Rightarrow> unit result \<times> 'u auth_shared" where
  "send_response r s =
     (if sh_finished s then (Inl auth_stale, s)
      else if length (sh_queue s) \<ge> 8
      then (Inl (new_error Busy ''Authentication response queue is full''), s)
      else (Inr (), s\<lparr>sh_queue := sh_queue s @ [r]\<rparr>))"

definition browser_reply_fits ::
  "'u crates \<Rightarrow> 'u \<Rightarrow> native_browser_kind \<Rightarrow> browser_answer \<Rightarrow> unit result" where
  "browser_reply_fits X origin k r =
     (case r of
        BrPage page \<Rightarrow>
          if k = Webview then browser_page_validate X page origin
          else Inl (invalid ''Unexpected native browser response kind'')
      | BrOpened \<Rightarrow>
          if k = External then Inr ()
          else Inl (invalid ''Unexpected native browser response kind'')
      | BrCancel \<Rightarrow> Inr ()
      | BrFailed _ \<Rightarrow> Inr ())"

definition browser_reply ::
  "'u crates \<Rightarrow> uuid \<Rightarrow> browser_answer \<Rightarrow> 'u auth_shared \<Rightarrow> unit result \<times> 'u auth_shared" where
  "browser_reply X transaction r s =
     (if sh_cancelled s then (Inl auth_cancelled, s)
      else case sh_pending s of
        Some (PBrowser i origin k) \<Rightarrow>
          if i \<noteq> transaction then (Inl auth_stale, s)
          else (case browser_reply_fits X origin k r of
             Inl e \<Rightarrow> (Inl e, s)
           | Inr _ \<Rightarrow> send_response (RBrowser transaction r) s)
      | _ \<Rightarrow> (Inl auth_stale, s))"

definition form_reply :: "auth_reply \<Rightarrow> 'u auth_shared \<Rightarrow> unit result \<times> 'u auth_shared" where
  "form_reply r s =
     (if sh_cancelled s then (Inl auth_cancelled, s)
      else case sh_pending s of
        Some (PForm prompt) \<Rightarrow>
          (case validate_reply prompt r of
             Inl e \<Rightarrow> (Inl e, s)
           | Inr _ \<Rightarrow>
               (case send_response (RForm r) s of
                  (Inl e, s) \<Rightarrow> (Inl e, s)
                | (Inr _, s) \<Rightarrow> (Inr (), s\<lparr>sh_pending := None\<rparr>)))
      | _ \<Rightarrow> (Inl auth_stale, s))"

definition certificate_reply ::
  "uuid \<Rightarrow> certificate_decision \<Rightarrow> 'u auth_shared \<Rightarrow> unit result \<times> 'u auth_shared" where
  "certificate_reply prompt d s =
     (if sh_cancelled s then (Inl auth_cancelled, s)
      else if sh_pending s \<noteq> Some (PCertificate prompt) then (Inl auth_stale, s)
      else (case send_response (RCertificate prompt d) s of
              (Inl e, s) \<Rightarrow> (Inl e, s)
            | (Inr _, s) \<Rightarrow> (Inr (), s\<lparr>sh_pending := None\<rparr>)))"

definition cancel_auth :: "'u auth_shared \<Rightarrow> 'u auth_shared" where
  "cancel_auth s =
     (let s = (if sh_cancelled s then s
               else let s = snd (send_response RCancel (s\<lparr>sh_cancelled := True\<rparr>))
                    in if sh_command s then s\<lparr>sh_signals := sh_signals s + 1\<rparr> else s)
      in s\<lparr>sh_pending := None\<rparr>)"

text \<open>What other threads do with the control, and the drop of the task that listens.\<close>

datatype control_act =
    ActReply auth_reply | ActCertificate uuid certificate_decision | ActBrowser uuid browser_answer
  | ActCancel | ActDrop

fun control_step :: "'u crates \<Rightarrow> control_act \<Rightarrow> 'u auth_shared \<Rightarrow> unit result \<times> 'u auth_shared" where
  "control_step X (ActReply r) s = form_reply r s"
| "control_step X (ActCertificate i d) s = certificate_reply i d s"
| "control_step X (ActBrowser i r) s = browser_reply X i r s"
| "control_step X ActCancel s = (Inr (), cancel_auth s)"
| "control_step X ActDrop s = (Inr (), (cancel_auth s)\<lparr>sh_listening := False\<rparr>)"

section \<open>The worker\<close>

record 'n token_store =
  ts_lock :: "('n, string option) io"
  ts_unlock :: "string option \<Rightarrow> ('n, unit) io"

record 'n auth_secrets =
  password :: "string option"
  key_passphrase :: "string option"
  secondary_key_passphrase :: "string option"
  token_seed :: "string option"
  as_proxy_credentials :: "string option"
  token_callbacks :: "'n token_store option"

text \<open>\<open>calls\<close> is the trace of the calls of the library with what they returned, and \<open>sent\<close> that of the events.
  The schedule is what the other threads do while the worker runs: they act whenever it looks
  at what is shared or waits, and \<open>Lapse\<close> is the deadline of a wait.\<close>

datatype turn = Acts "control_act list" | Lapse

record ('n, 'u) auth =
  lib :: 'n
  calls :: "(native_call \<times> int) list"
  shared :: "'u auth_shared"
  schedule :: "turn list"
  sent :: "'u auth_event list"
  w_attempt :: uuid
  w_profile :: "'u profile"
  w_pins :: "certificate_pin list"
  accepted :: "certificate_pin list"
  secrets :: "'n auth_secrets"
  failure_of :: "err option"
  password_used :: bool
  group_selected :: "string option"
  empty_forms :: nat
  gp_embedded_phases :: u8

definition on_shared :: "('u auth_shared \<Rightarrow> 'u auth_shared) \<Rightarrow> ('n, 'u) auth \<Rightarrow> ('n, 'u) auth" where
  "on_shared f m = m\<lparr>shared := f (shared m)\<rparr>"

definition act_all :: "'u crates \<Rightarrow> control_act list \<Rightarrow> 'u auth_shared \<Rightarrow> 'u auth_shared" where
  "act_all X acts s = fold (\<lambda>a s. snd (control_step X a s)) acts s"

definition others :: "'u crates \<Rightarrow> ('n, 'u) auth \<Rightarrow> ('n, 'u) auth" where
  "others X m =
     (case schedule m of
        Acts acts # ts \<Rightarrow> m\<lparr>schedule := ts, shared := act_all X acts (shared m)\<rparr>
      | _ \<Rightarrow> m)"

definition io_modify :: "('m \<Rightarrow> 'm) \<Rightarrow> ('m, unit) io" where
  "io_modify f m = (Done (), f m)"

definition io_panic :: "('m, 'a) io" where
  "io_panic m = (Crashed, m)"

definition unless_cancelled :: "'u crates \<Rightarrow> (('n, 'u) auth, unit) io" where
  "unless_cancelled X =
     io_bind (io_modify (others X)) (\<lambda>_.
     io_bind (io_get (\<lambda>m. sh_cancelled (shared m))) (\<lambda>c.
     if c then io_fail auth_cancelled else io_return ()))"

definition set_pending :: "'u auth_pending option \<Rightarrow> (('n, 'u) auth, unit) io" where
  "set_pending p = io_modify (on_shared (\<lambda>s. s\<lparr>sh_pending := p\<rparr>))"

definition send_event :: "'u auth_event \<Rightarrow> (('n, 'u) auth, unit) io" where
  "send_event e =
     io_bind (io_get (\<lambda>m. sh_listening (shared m))) (\<lambda>l.
     if l then io_modify (\<lambda>m. m\<lparr>sent := sent m @ [e]\<rparr>) else io_fail auth_cancelled)"

definition call :: "('n, 'u) openconnect \<Rightarrow> native_call \<Rightarrow> (('n, 'u) auth, int) io" where
  "call N c m =
     (case oc_call N c (lib m) of (r, n) \<Rightarrow> (Done r, m\<lparr>lib := n, calls := calls m @ [(c, r)]\<rparr>))"

definition query :: "('n, 'u) openconnect \<Rightarrow> text_query \<Rightarrow> (('n, 'u) auth, c_text) io" where
  "query N q = io_get (\<lambda>m. oc_text N q (lib m))"

section \<open>Waiting\<close>

definition pop_response :: "('n, 'u) auth \<Rightarrow> (auth_response \<times> ('n, 'u) auth) option" where
  "pop_response m =
     (case sh_queue (shared m) of
        [] \<Rightarrow> None
      | r # q \<Rightarrow> Some (r, on_shared (\<lambda>s. s\<lparr>sh_queue := q\<rparr>) m))"

text \<open>\<open>recv_timeout\<close>: None when the deadline passes first.\<close>

fun receive_during ::
  "'u crates \<Rightarrow> turn list \<Rightarrow> ('n, 'u) auth \<Rightarrow> auth_response option \<times> ('n, 'u) auth" where
  "receive_during X ts m =
     (case pop_response m of
        Some (r, m) \<Rightarrow> (Some r, m\<lparr>schedule := ts\<rparr>)
      | None \<Rightarrow>
          (case ts of
             [] \<Rightarrow> (None, m\<lparr>schedule := []\<rparr>)
           | Lapse # ts \<Rightarrow> (None, m\<lparr>schedule := ts\<rparr>)
           | Acts acts # ts \<Rightarrow> receive_during X ts (on_shared (act_all X acts) m)))"

declare receive_during.simps [simp del]

definition receive :: "'u crates \<Rightarrow> ('n, 'u) auth \<Rightarrow> auth_response option \<times> ('n, 'u) auth" where
  "receive X m = receive_during X (schedule m) m"

definition interaction_expired :: err where
  "interaction_expired = new_error AuthenticationRequired
     ''Authentication interaction expired or its owner closed''"

definition browser_current :: "uuid \<Rightarrow> ('n, 'u) auth \<Rightarrow> bool" where
  "browser_current i m =
     (case sh_pending (shared m) of Some (PBrowser j _ _) \<Rightarrow> i = j | _ \<Rightarrow> False)"

text \<open>Responses still to come, at most.\<close>

fun turn_size :: "turn \<Rightarrow> nat" where
  "turn_size (Acts acts) = length acts"
| "turn_size Lapse = 0"

definition responses_left :: "('n, 'u) auth \<Rightarrow> nat" where
  "responses_left m = length (sh_queue (shared m)) + sum_list (map turn_size (schedule m))"

lemma send_response_queue: "length (sh_queue (snd (send_response r s))) \<le> length (sh_queue s) + 1"
  by (simp add: send_response_def)

lemma cancel_auth_queue: "length (sh_queue (cancel_auth s)) \<le> length (sh_queue s) + 1"
  using send_response_queue [of RCancel "s\<lparr>sh_cancelled := True\<rparr>"]
  by (simp add: cancel_auth_def Let_def)

lemma control_step_queue:
  "length (sh_queue (snd (control_step X a s))) \<le> length (sh_queue s) + 1"
  using send_response_queue cancel_auth_queue
  by (cases a)
     (auto simp: form_reply_def certificate_reply_def browser_reply_def send_response_def
       split: option.splits auth_pending.splits sum.splits if_splits)

lemma act_all_queue: "length (sh_queue (act_all X acts s)) \<le> length (sh_queue s) + length acts"
proof (induction acts arbitrary: s)
  case (Cons a acts)
  have "length (sh_queue (act_all X acts (snd (control_step X a s))))
      \<le> length (sh_queue (snd (control_step X a s))) + length acts"
    by (rule Cons.IH)
  then show ?case
    using control_step_queue [of X a s] by (simp add: act_all_def)
qed (simp add: act_all_def)

lemma others_left: "responses_left (others X m) \<le> responses_left m"
  using act_all_queue [of X]
  by (auto simp: others_def responses_left_def split: list.splits turn.splits)

lemma receive_during_left:
  "receive_during X ts m = (Some r, m') \<Longrightarrow>
     Suc (responses_left m') \<le> length (sh_queue (shared m)) + sum_list (map turn_size ts)"
proof (induction ts arbitrary: m)
  case Nil
  then show ?case
    by (subst (asm) receive_during.simps)
       (auto simp: pop_response_def responses_left_def on_shared_def split: list.splits)
next
  case (Cons t ts)
  show ?case
  proof (cases "pop_response m")
    case None
    then obtain acts where t: "t = Acts acts"
      and r: "receive_during X ts (on_shared (act_all X acts) m) = (Some r, m')"
      using Cons.prems by (subst (asm) receive_during.simps) (auto split: turn.splits)
    from Cons.IH [OF r] show ?thesis
      using t act_all_queue [of X acts "shared m"] by (simp add: on_shared_def)
  next
    case (Some p)
    then show ?thesis
      using Cons.prems
      by (subst (asm) receive_during.simps)
         (auto simp: pop_response_def responses_left_def on_shared_def split: list.splits)
  qed
qed

lemma receive_left: "receive X m = (Some r, m') \<Longrightarrow> responses_left m' < responses_left m"
  using receive_during_left [of X "schedule m" m r m'] by (simp add: receive_def responses_left_def)

lemma wait_progress:
  assumes "(Some r, m') = receive X (others X m)"
  shows "responses_left (others X (others X m')) < responses_left m"
  using receive_left [OF assms [symmetric]] others_left [of X m] others_left [of X m']
    others_left [of X "others X m'"] by simp

function wait_for :: "'u crates \<Rightarrow> ('n, 'u) auth \<Rightarrow> auth_response outcome \<times> ('n, 'u) auth" where
  "wait_for X m =
     (let m = others X m in
      if sh_cancelled (shared m) then (Fault auth_cancelled, m)
      else case receive X m of
        (None, m) \<Rightarrow> (Fault interaction_expired, m)
      | (Some r, m) \<Rightarrow>
          if r = RCancel then (Fault auth_cancelled, m)
          else let m = others X m in
          if sh_cancelled (shared m) then (Fault auth_cancelled, m)
          else (case r of
             RBrowser i _ \<Rightarrow>
               let m = others X m in
               if browser_current i m then (Done r, m) else wait_for X m
           | _ \<Rightarrow> (Done r, m)))"
  by pat_completeness auto

termination
  by (relation "measure (\<lambda>(X, m). responses_left m)") (auto dest: wait_progress)

declare wait_for.simps [simp del]

end
