(* ===== verification/EngineForm.thy ===== *)
theory EngineForm
  imports EngineAuth AddressText
begin

text \<open>
  \<open>crates/engine/src/auth.rs\<close>, the form callback: reading the form of the server, choosing the
  group first, answering what the profile answers, asking for the rest, and applying the answers.
\<close>

section \<open>The form of the library\<close>

text \<open>The options are a linked list in the memory of the library: a table of addresses, of which 0 is
  the null pointer. The choices of a selection are an array of pointers.\<close>

record native_choice =
  nc_name :: c_text
  nc_label :: c_text

record native_option =
  no_next :: nat
  no_type :: int
  no_flags :: u32
  no_name :: c_text
  no_label :: c_text
  no_nr_choices :: int
  no_choices :: "(nat \<Rightarrow> native_choice option) option"

record native_form =
  nf_auth_id :: c_text
  nf_banner :: c_text
  nf_message :: c_text
  nf_error :: c_text
  nf_opts :: nat
  nf_option :: "nat \<Rightarrow> native_option"
  nf_group :: nat

section \<open>Identifiers of choices\<close>

text \<open>The search for a free identifier ends because only finitely many are reserved.\<close>

definition numbered :: "string \<Rightarrow> nat \<Rightarrow> string" where
  "numbered base n = base @ ''#'' @ show_nat n"

lemma numbered_inject: "numbered b m = numbered b n \<longleftrightarrow> m = n"
proof
  assume "numbered b m = numbered b n"
  then have "digits_value 10 (show_nat m) = digits_value 10 (show_nat n)" by (simp add: numbered_def)
  then show "m = n" by (simp add: show_nat_value)
qed simp

lemma numbered_finite: "finite {k. n \<le> k \<and> numbered b k \<in> set rs}"
proof (rule finite_imageD)
  show "finite (numbered b ` {k. n \<le> k \<and> numbered b k \<in> set rs})"
    by (rule finite_subset [OF _ finite_set [of rs]]) auto
qed (simp add: inj_on_def numbered_inject)

function first_free :: "string list \<Rightarrow> string \<Rightarrow> nat \<Rightarrow> string" where
  "first_free reserved base n =
     (if numbered base n \<in> set reserved then first_free reserved base (n + 1)
      else numbered base n)"
  by pat_completeness auto

termination
proof (relation "measure (\<lambda>(rs, b, n). card {k. n \<le> k \<and> numbered b k \<in> set rs})")
  fix rs :: "string list" and b :: string and n :: nat
  assume "numbered b n \<in> set rs"
  then have "n \<in> {k. n \<le> k \<and> numbered b k \<in> set rs}" by simp
  moreover have "{k. n + 1 \<le> k \<and> numbered b k \<in> set rs} \<subseteq> {k. n \<le> k \<and> numbered b k \<in> set rs} - {n}"
    by auto
  ultimately have "{k. n + 1 \<le> k \<and> numbered b k \<in> set rs} \<subset> {k. n \<le> k \<and> numbered b k \<in> set rs}"
    by blast
  then show "((rs, b, n + 1), rs, b, n) \<in> measure (\<lambda>(rs, b, n). card {k. n \<le> k \<and> numbered b k \<in> set rs})"
    by (simp add: psubset_card_mono numbered_finite)
qed simp

declare first_free.simps [simp del]

definition free_id :: "string list \<Rightarrow> string \<Rightarrow> string" where
  "free_id reserved base = (if base \<in> set reserved then first_free reserved base 1 else base)"

text \<open>The loop of \<open>choice_ids\<close> over the choices left; \<open>native\<close> are the identifiers of all.\<close>

fun rename_choices ::
  "string list \<Rightarrow> string list \<Rightarrow> auth_choice list \<Rightarrow> auth_choice list" where
  "rename_choices native reserved [] = []"
| "rename_choices native reserved (c # cs) =
     (if length (filter ((=) (ch_id c)) native) = 1
      then c # rename_choices native reserved cs
      else let i = free_id reserved (ch_id c @ ''#'' @ ch_label c)
           in c\<lparr>ch_id := i\<rparr> # rename_choices native (i # reserved) cs)"

text \<open>The choices with their public identifiers, and the native ones.\<close>

definition choice_ids :: "auth_choice list \<Rightarrow> auth_choice list \<times> string list" where
  "choice_ids cs = (let native = map ch_id cs in (rename_choices native native cs, native))"

definition saved_choice :: "auth_field \<Rightarrow> string list \<Rightarrow> string \<Rightarrow> string result" where
  "saved_choice field native saved =
     (case filter (\<lambda>(c, v). v = saved \<or> ch_label c = saved) (zip (choices field) native) of
        [] \<Rightarrow> Inl (new_error AuthenticationRequired
                ''The saved gateway or group is no longer available'')
      | [(c, _)] \<Rightarrow> Inr (ch_id c)
      | _ \<Rightarrow> Inl (new_error AuthenticationRequired
                ''The saved gateway or group is ambiguous; select it explicitly''))"

section \<open>Reading the form\<close>

record collected =
  cl_fields :: "auth_field list"
  cl_options :: "nat list"
  cl_bindings :: "(string \<times> string list) list"
  cl_generated :: bool

definition no_options :: collected where
  "no_options = \<lparr>cl_fields = [], cl_options = [], cl_bindings = [], cl_generated = False\<rparr>"

definition field_kind :: "int \<Rightarrow> auth_field_kind result" where
  "field_kind t =
     (if t = 1 then Inr TextField
      else if t = 2 then Inr PasswordField
      else if t = 3 then Inr SelectField
      else if t = 5 then Inr TokenField
      else Inl (new_error UnsupportedAuthentication ''Unknown native authentication field kind''))"

definition read_choice :: "native_choice option \<Rightarrow> auth_choice result" where
  "read_choice p =
     rbind (ok_or (protocol_violation ''Missing authentication choice'') p) (\<lambda>c.
     rbind (native_text (nc_name c)) (\<lambda>i.
     rbind (optional_text (nc_label c)) (\<lambda>l.
     Inr \<lparr>ch_id = i, ch_label = (case l of Some s \<Rightarrow> s | None \<Rightarrow> [])\<rparr>)))"

definition read_choices :: "native_option \<Rightarrow> auth_choice list result" where
  "read_choices opt =
     (case no_choices opt of
        Some array \<Rightarrow>
          if no_nr_choices opt < 1 \<or> no_nr_choices opt > 256
          then Inl (protocol_violation ''Invalid authentication choices'')
          else map_result (\<lambda>i. read_choice (array i)) [0..<nat (no_nr_choices opt)]
      | None \<Rightarrow> Inl (protocol_violation ''Invalid authentication choices''))"

text \<open>A shown option: its flags do not hide it and its type is not the hidden one.\<close>

definition shown_option :: "native_option \<Rightarrow> bool" where
  "shown_option opt \<longleftrightarrow> no_flags opt AND 1 = 0 \<and> no_type opt \<noteq> 4"

definition read_option ::
  "'u profile \<Rightarrow> nat \<Rightarrow> native_option \<Rightarrow> collected \<Rightarrow> collected result" where
  "read_option p ptr opt c =
     (if \<not> shown_option opt then Inr c
      else if no_type opt \<in> {6, 7} then Inr (c\<lparr>cl_generated := True\<rparr>)
      else rbind (field_kind (no_type opt)) (\<lambda>k.
      if k = TokenField \<and> token_mode p \<noteq> NoToken then Inr (c\<lparr>cl_generated := True\<rparr>)
      else rbind (native_text (no_name opt)) (\<lambda>name.
      if list_ex (\<lambda>f. fd_name f = name) (cl_fields c)
      then Inl (protocol_violation ''Duplicate authentication field name'')
      else rbind (if k = SelectField then rbind (read_choices opt) (\<lambda>cs. Inr (Some (choice_ids cs)))
                  else Inr None) (\<lambda>selection.
      rbind (optional_text (no_label opt)) (\<lambda>label.
      Inr (c\<lparr>cl_fields := cl_fields c @
               [\<lparr>fd_name = name, fd_label = (case label of Some s \<Rightarrow> s | None \<Rightarrow> []), kind = k,
                 required = True, numeric = (no_flags opt AND 2 \<noteq> 0),
                 choices = (case selection of Some (cs, _) \<Rightarrow> cs | None \<Rightarrow> [])\<rparr>],
             cl_options := cl_options c @ [ptr],
             cl_bindings := (case selection of
                Some (_, native) \<Rightarrow> (name, native) # cl_bindings c | None \<Rightarrow> cl_bindings c)\<rparr>))))))"

function read_options ::
  "'u profile \<Rightarrow> native_form \<Rightarrow> nat \<Rightarrow> nat list \<Rightarrow> collected \<Rightarrow> collected result" where
  "read_options p form ptr seen c =
     (if ptr = 0 then Inr c
      else if length seen \<ge> 256 \<or> ptr \<in> set seen
      then Inl (protocol_violation ''Authentication form is too large or cyclic'')
      else let opt = nf_option form ptr in
      rbind (read_option p ptr opt c) (\<lambda>c.
      read_options p form (no_next opt) (ptr # seen) c))"
  by pat_completeness auto

termination
  by (relation "measure (\<lambda>(p, form, ptr, seen, c). 256 - length seen)") auto

declare read_options.simps [simp del]

definition read_prompt :: "uuid \<Rightarrow> uuid \<Rightarrow> native_form \<Rightarrow> auth_prompt result" where
  "read_prompt new_id attempt form =
     rbind (native_text (nf_auth_id form)) (\<lambda>i.
     rbind (optional_text (nf_banner form)) (\<lambda>b.
     rbind (optional_text (nf_message form)) (\<lambda>t.
     rbind (optional_text (nf_error form)) (\<lambda>e.
     Inr \<lparr>ap_prompt_id = new_id, ap_attempt_id = attempt, auth_id = i, banner = b, ap_message = t,
          ap_error = e, ap_fields = []\<rparr>))))"

section \<open>Automatic answers\<close>

type_synonym bindings = "(string \<times> string list) list"

text \<open>\<open>bindings[&name]\<close> and the index into it.\<close>

definition binding :: "bindings \<Rightarrow> string \<Rightarrow> ('m, string list) io" where
  "binding bs name = (case map_of bs name of Some ids \<Rightarrow> io_return ids | None \<Rightarrow> io_panic)"

definition index_io :: "'a list \<Rightarrow> nat \<Rightarrow> ('m, 'a) io" where
  "index_io xs i = (if i < length xs then io_return (xs ! i) else io_panic)"

definition wants_username :: "native_option \<Rightarrow> auth_field \<Rightarrow> bool" where
  "wants_username opt f \<longleftrightarrow>
     (let lower = map to_ascii_lowercase (fd_name f) in
      kind f = TextField \<and> (starts_with ''user'' lower \<or> starts_with ''uname'' lower)
      \<and> \<not> contains_str ''secondary'' lower \<and> no_flags opt AND 0x8000 = 0)"

definition automatic_answer ::
  "'u profile \<Rightarrow> native_form \<Rightarrow> string option \<Rightarrow> bindings \<Rightarrow> auth_field \<times> nat
     \<Rightarrow> ('m, string option) io" where
  "automatic_answer p form selected bs x =
     (case x of (f, ptr) \<Rightarrow>
      let lower = map to_ascii_lowercase (fd_name f) in
      if wants_username (nf_option form ptr) f then io_return (username p)
      else if kind f = TextField \<and> pf_protocol p = ''array'' \<and> fd_name f = ''method''
      then io_return (auth_group p)
      else if kind f = SelectField then
        (let group = (ptr = nf_group form);
             saved = (if group then selected
                      else if contains_str ''gateway'' lower
                        \<or> pf_protocol p = ''gp'' \<and> fd_name f = ''_portal''
                      then gateway p else None)
         in case saved of
              None \<Rightarrow> io_return None
            | Some s \<Rightarrow>
                if group
                then io_lift (rbind (ok_or auth_stale (List.find (\<lambda>c. ch_id c = s) (choices f)))
                                (\<lambda>c. Inr (Some (ch_id c))))
                else io_bind (binding bs (fd_name f)) (\<lambda>native.
                     io_lift (rbind (saved_choice f native s) (\<lambda>i. Inr (Some i)))))
      else io_return None)"

fun automatic_answers ::
  "'u profile \<Rightarrow> native_form \<Rightarrow> string option \<Rightarrow> bindings \<Rightarrow> (auth_field \<times> nat) list
     \<Rightarrow> ('m, (string \<times> string) list) io" where
  "automatic_answers p form selected bs [] = io_return []"
| "automatic_answers p form selected bs (x # xs) =
     io_bind (automatic_answer p form selected bs x) (\<lambda>a.
     io_bind (automatic_answers p form selected bs xs) (\<lambda>rest.
     io_return (case a of Some v \<Rightarrow> (fd_name (fst x), v) # rest | None \<Rightarrow> rest)))"

definition initial_password :: "'u profile \<Rightarrow> string \<Rightarrow> auth_field \<Rightarrow> bool" where
  "initial_password p form_id f \<longleftrightarrow>
     eq_ignore_ascii_case (fd_name f) ''password'' \<or> eq_ignore_ascii_case (fd_name f) ''passwd''
     \<or> pf_protocol p = ''fortinet'' \<and> form_id = ''_login'' \<and> fd_name f = ''credential''
     \<or> pf_protocol p = ''array'' \<and> form_id = ''form'' \<and> fd_name f = ''pwd''"

definition saved_password ::
  "'u profile \<Rightarrow> string \<Rightarrow> auth_field list \<Rightarrow> bool \<Rightarrow> string option \<Rightarrow> (string \<times> string) list" where
  "saved_password p form_id fields' used stored =
     (case filter (\<lambda>f. kind f = PasswordField) fields' of
        [f] \<Rightarrow>
          if \<not> used \<and> form_id \<noteq> ''_challenge'' \<and> initial_password p form_id f
          then (case stored of Some s \<Rightarrow> [(fd_name f, s)] | None \<Rightarrow> []) else []
      | _ \<Rightarrow> [])"

section \<open>The callback\<close>

definition spend_password :: "('n, 'u) auth \<Rightarrow> ('n, 'u) auth" where
  "spend_password m = m\<lparr>password_used := True, secrets := (secrets m)\<lparr>password := None\<rparr>\<rparr>"

definition previous_failure :: err where
  "previous_failure = new_error AuthenticationRejected ''A previous authentication callback failed''"

text \<open>The choice of the group: either the value is set and the form starts again, or only the group
  is asked for, or there is nothing to do.\<close>

datatype group_step = Reselect | Continue "auth_field list" "nat list"

definition choose_group ::
  "('n, 'u) openconnect \<Rightarrow> native_form \<Rightarrow> collected \<Rightarrow> (('n, 'u) auth, group_step) io" where
  "choose_group N form c =
     (let fs = cl_fields c; opts = cl_options c in
      case position ((=) (nf_group form)) opts of
        None \<Rightarrow> io_return (Continue fs opts)
      | Some index \<Rightarrow>
          io_bind (io_get (\<lambda>m. (group_selected m,
              case auth_group (w_profile m) of Some g \<Rightarrow> Some g | None \<Rightarrow> gateway (w_profile m))))
            (\<lambda>(selected, desired).
          if selected \<noteq> None then io_return (Continue fs opts)
          else case desired of
            None \<Rightarrow> io_return (Continue [fs ! index] [opts ! index])
          | Some d \<Rightarrow>
              io_bind (binding (cl_bindings c) (fd_name (fs ! index))) (\<lambda>native.
              io_bind (io_lift (saved_choice (fs ! index) native d)) (\<lambda>i.
              io_bind (io_lift (ok_or auth_stale
                (position (\<lambda>x. ch_id x = i) (choices (fs ! index))))) (\<lambda>selection.
              io_bind (index_io native selection) (\<lambda>v.
              io_bind (io_lift (cstring v)) (\<lambda>value.
              io_bind (call N (SetOptionValue (opts ! index) value)) (\<lambda>r.
              io_bind (io_lift (check_code r ''select authentication group'')) (\<lambda>_.
              io_bind (call N (SetGroupSelection selection)) (\<lambda>_.
              io_bind (io_modify (\<lambda>m. m\<lparr>group_selected := Some i\<rparr>)) (\<lambda>_.
              io_return Reselect)))))))))))"

text \<open>\<open>answers.extend(automatic)\<close>.\<close>

definition extend :: "(string \<times> string) list \<Rightarrow> (string \<times> string) list \<Rightarrow> (string \<times> string) list" where
  "extend as bs = filter (\<lambda>(k, _). k \<notin> fst ` set bs) as @ bs"

definition obtain_reply ::
  "'u crates \<Rightarrow> auth_prompt \<Rightarrow> bool \<Rightarrow> (string \<times> string) list \<Rightarrow> (('n, 'u) auth, auth_reply) io" where
  "obtain_reply X prompt generated automatic =
     (if length automatic = length (ap_fields prompt) then
        io_bind (if ap_fields prompt = [] \<and> \<not> generated
                 then io_bind (io_modify (\<lambda>m. m\<lparr>empty_forms := empty_forms m + 1\<rparr>)) (\<lambda>_.
                      io_bind (io_get empty_forms) (\<lambda>n.
                      if n > 2
                      then io_fail (new_error AuthenticationRequired
                             ''Server repeatedly returned an empty authentication form'')
                      else io_return ()))
                 else io_modify (\<lambda>m. m\<lparr>empty_forms := 0\<rparr>)) (\<lambda>_.
        io_return \<lparr>rp_prompt_id = ap_prompt_id prompt, rp_attempt_id = ap_attempt_id prompt,
                   answers = Some automatic\<rparr>)
      else
        io_bind (io_modify (\<lambda>m. m\<lparr>empty_forms := 0\<rparr>)) (\<lambda>_.
        let shown = prompt\<lparr>ap_fields := filter (\<lambda>f. fd_name f \<notin> fst ` set automatic) (ap_fields prompt)\<rparr> in
        io_bind (set_pending (Some (PForm shown))) (\<lambda>_.
        io_bind (send_event (EvPrompt shown)) (\<lambda>_.
        io_bind (wait_for X) (\<lambda>r.
        case r of
          RForm reply \<Rightarrow>
            io_bind (io_lift (validate_reply shown reply)) (\<lambda>_.
            io_return (case answers reply of
                Some as \<Rightarrow> reply\<lparr>answers := Some (extend as automatic)\<rparr> | None \<Rightarrow> reply))
        | _ \<Rightarrow> io_fail auth_stale)))))"

fun apply_answers ::
  "('n, 'u) openconnect \<Rightarrow> native_form \<Rightarrow> bindings \<Rightarrow> (string \<times> string) list
     \<Rightarrow> (auth_field \<times> nat) list \<Rightarrow> (('n, 'u) auth, int) io" where
  "apply_answers N form bs as [] = io_return 0"
| "apply_answers N form bs as ((f, ptr) # xs) =
     io_bind (io_lift (ok_or (invalid ''Missing authentication answer'') (map_of as (fd_name f)))) (\<lambda>answer.
     io_bind (if kind f = SelectField
              then io_lift (rbind (ok_or auth_stale (position (\<lambda>c. ch_id c = answer) (choices f)))
                              (\<lambda>i. Inr (Some i)))
              else io_return None) (\<lambda>selection.
     io_bind (case selection of
                Some i \<Rightarrow> io_bind (binding bs (fd_name f)) (\<lambda>native. index_io native i)
              | None \<Rightarrow> io_return answer) (\<lambda>v.
     io_bind (io_lift (cstring v)) (\<lambda>value.
     io_bind (call N (SetOptionValue ptr value)) (\<lambda>r.
     io_bind (io_lift (check_code r ''apply authentication answer'')) (\<lambda>_.
     io_bind (if ptr = nf_group form
              then io_bind (io_lift (ok_or auth_stale selection)) (\<lambda>i.
                   io_bind (call N (SetGroupSelection i)) (\<lambda>_. io_return ()))
              else io_return ()) (\<lambda>_.
     io_bind (io_get group_selected) (\<lambda>selected.
     if ptr = nf_group form \<and> selected \<noteq> Some answer
     then io_bind (io_modify (\<lambda>m. m\<lparr>group_selected := Some answer\<rparr>)) (\<lambda>_. io_return 2)
     else
     io_bind (if kind f = PasswordField then io_modify spend_password else io_return ()) (\<lambda>_.
     apply_answers N form bs as xs)))))))))"

definition answer_form ::
  "'u crates \<Rightarrow> ('n, 'u) openconnect \<Rightarrow> native_form \<Rightarrow> auth_prompt \<Rightarrow> collected
     \<Rightarrow> auth_field list \<Rightarrow> nat list \<Rightarrow> (('n, 'u) auth, int) io" where
  "answer_form X N form head c fs opts =
     (let prompt = head\<lparr>ap_fields := fs\<rparr> in
      io_bind (io_get (\<lambda>m. (w_profile m, group_selected m, password_used m, password (secrets m))))
        (\<lambda>(p, selected, used, stored).
      io_bind (automatic_answers p form selected (cl_bindings c) (zip fs opts)) (\<lambda>known.
      let automatic = known @ saved_password p (auth_id head) fs used stored in
      io_bind (obtain_reply X prompt (cl_generated c) automatic) (\<lambda>reply.
      io_bind (io_lift (validate_reply prompt reply)) (\<lambda>_.
      case answers reply of
        None \<Rightarrow> io_fail auth_cancelled
      | Some as \<Rightarrow> apply_answers N form (cl_bindings c) as (zip fs opts))))))"

definition form_callback ::
  "'u crates \<Rightarrow> ('n, 'u) openconnect \<Rightarrow> uuid \<Rightarrow> native_form option \<Rightarrow> (('n, 'u) auth, int) io" where
  "form_callback X N new_id p =
     io_bind (io_get failure_of) (\<lambda>failed.
     if failed \<noteq> None then io_fail previous_failure
     else
     io_bind (unless_cancelled X) (\<lambda>_.
     io_bind (io_lift (ok_or (protocol_violation ''Missing native authentication form'') p)) (\<lambda>form.
     io_bind (io_get w_attempt) (\<lambda>attempt.
     io_bind (io_lift (read_prompt new_id attempt form)) (\<lambda>head.
     io_bind (if ap_error head \<noteq> None then io_modify spend_password else io_return ()) (\<lambda>_.
     io_bind (io_get w_profile) (\<lambda>profile.
     io_bind (io_lift (read_options profile form (nf_opts form) [] no_options)) (\<lambda>c.
     io_bind (choose_group N form c) (\<lambda>step.
     case step of
       Reselect \<Rightarrow> io_return 2
     | Continue fs opts \<Rightarrow> answer_form X N form head c fs opts)))))))))"

end
