(* ===== verification/EngineSession.thy ===== *)
theory EngineSession
  imports EngineForm
begin

text \<open>
  \<open>crates/engine/src/auth.rs\<close> with \<open>engine/src/browser.rs\<close>: the certificate and browser callbacks,
  the callbacks of the token storage, the configuration of the library from a profile, and the whole
  authentication, in which the library calls back any number of times in any order.
\<close>

section \<open>Certificates\<close>

text \<open>The first of the pins whose digest the library finds to be that of the peer.\<close>

fun any_pin_matches ::
  "('n, 'u) openconnect \<Rightarrow> certificate_pin list \<Rightarrow> (('n, 'u) auth, bool) io" where
  "any_pin_matches N [] = io_return False"
| "any_pin_matches N (pin # ps) =
     io_bind (io_lift (cstring (pin_fingerprint pin))) (\<lambda>hash.
     io_bind (call N (CheckPeerCertHash hash)) (\<lambda>r.
     if r = 0 then io_return True else any_pin_matches N ps))"

definition in_scope :: "certificate_pin \<Rightarrow> certificate_pin \<Rightarrow> bool" where
  "in_scope scope p \<longleftrightarrow> pin_host p = pin_host scope \<and> pin_port p = pin_port scope"

definition ask_certificate ::
  "'u crates \<Rightarrow> certificate_pin \<Rightarrow> certificate_prompt \<Rightarrow> (('n, 'u) auth, int) io" where
  "ask_certificate X scope prompt =
     io_bind (set_pending (Some (PCertificate (cp_prompt_id prompt)))) (\<lambda>_.
     io_bind (send_event (EvCertificate prompt)) (\<lambda>_.
     io_bind (wait_for X) (\<lambda>r.
     case r of
       RCertificate i decision \<Rightarrow>
         if i \<noteq> cp_prompt_id prompt then io_fail auth_stale
         else if decision = RejectCertificate
         then io_fail (new_error CertificateRejected ''Peer certificate was rejected'')
         else
         io_bind (io_get (\<lambda>m. length (accepted m))) (\<lambda>n.
         if n \<ge> 256
         then io_fail (new_error CertificateRejected
                ''Too many distinct authentication certificate peers'')
         else io_bind (io_modify (\<lambda>m. m\<lparr>accepted := accepted m @ [scope]\<rparr>)) (\<lambda>_. io_return 0))
     | _ \<Rightarrow> io_fail auth_stale)))"

text \<open>The peer as a pin: its host, port and digest.\<close>

definition peer_scope :: "'u crates \<Rightarrow> ('n, 'u) openconnect \<Rightarrow> (('n, 'u) auth, certificate_pin) io" where
  "peer_scope X N =
     io_bind (query N DnsName) (\<lambda>d.
     io_bind (io_lift (native_text d)) (\<lambda>host.
     io_bind (call N GetPort) (\<lambda>q.
     if q < 0 \<or> q > 65535
     then io_fail (new_error CertificateRejected ''Invalid certificate peer port'')
     else
     io_bind (query N PeerCertHash) (\<lambda>h.
     io_bind (io_lift (native_text h)) (\<lambda>fingerprint.
     io_lift (certificate_pin_new X host (of_int q) fingerprint))))))"

definition certificate_texts :: "bool \<Rightarrow> c_text \<Rightarrow> c_text \<Rightarrow> (string \<times> string) result" where
  "certificate_texts changed reason info =
     rbind (if changed then Inr ''The certificate differs from the saved host pin''
            else rbind (optional_text reason) (\<lambda>r.
                 Inr (case r of Some s \<Rightarrow> s | None \<Rightarrow> ''Certificate approval required''))) (\<lambda>why.
     rbind (optional_text info) (\<lambda>d.
     Inr (why, case d of Some s \<Rightarrow> s | None \<Rightarrow> [])))"

definition judge_certificate ::
  "'u crates \<Rightarrow> ('n, 'u) openconnect \<Rightarrow> uuid \<Rightarrow> c_text \<Rightarrow> certificate_pin \<Rightarrow> (('n, 'u) auth, int) io" where
  "judge_certificate X N new_id reason scope =
     io_bind (io_get (\<lambda>m. filter (in_scope scope) (accepted m))) (\<lambda>mine.
     io_bind (any_pin_matches N mine) (\<lambda>seen.
     if seen then io_return 0
     else
     io_bind (io_get (\<lambda>m. filter (in_scope scope) (w_pins m))) (\<lambda>saved.
     io_bind (any_pin_matches N saved) (\<lambda>pinned.
     if pinned then io_return 0
     else if reason = None \<and> saved = [] then io_return 0
     else
     io_bind (query N PeerCertDetails) (\<lambda>t.
     io_bind (io_get w_attempt) (\<lambda>attempt.
     io_bind (io_lift (certificate_texts (saved \<noteq> []) reason t)) (\<lambda>(why, details).
     ask_certificate X scope
       \<lparr>cp_prompt_id = new_id, cp_attempt_id = attempt, cp_host = pin_host scope,
        cp_port = pin_port scope, cp_reason = why, cp_details = details,
        cp_fingerprint = pin_fingerprint scope, changed_pin = (saved \<noteq> [])\<rparr>)))))))"

definition certificate_callback ::
  "'u crates \<Rightarrow> ('n, 'u) openconnect \<Rightarrow> uuid \<Rightarrow> c_text \<Rightarrow> (('n, 'u) auth, int) io" where
  "certificate_callback X N new_id reason =
     io_bind (unless_cancelled X) (\<lambda>_.
     io_bind (peer_scope X N) (\<lambda>scope.
     judge_certificate X N new_id reason scope))"

section \<open>Browsers\<close>

definition browser_cstring :: "string \<Rightarrow> string result" where
  "browser_cstring v =
     (if len v > max_browser_bytes \<or> nul \<in> set v
      then Inl (invalid ''Invalid bounded native browser string'')
      else Inr (v @ [nul]))"

definition flat_pairs :: "('a \<times> 'a) list \<Rightarrow> 'a list" where
  "flat_pairs xs = concat (map (\<lambda>(a, b). [a, b]) xs)"

definition submit_page ::
  "'u crates \<Rightarrow> ('n, 'u) openconnect \<Rightarrow> browser_page \<Rightarrow> 'u \<Rightarrow> (('n, 'u) auth, int) io" where
  "submit_page X N page origin =
     io_bind (io_lift (browser_page_validate X page origin)) (\<lambda>_.
     io_bind (io_lift (browser_cstring (pg_uri page))) (\<lambda>uri.
     io_bind (io_lift (map_result browser_cstring (flat_pairs (cookies page)))) (\<lambda>cs.
     io_bind (io_lift (map_result browser_cstring (flat_pairs (headers page)))) (\<lambda>hs.
     call N (LoadChanged uri cs hs)))))"

text \<open>The mode, phase and retry of GlobalProtect: None to try again with an embedded browser.\<close>

definition unsupported :: "string \<Rightarrow> err" where
  "unsupported msg = new_error UnsupportedAuthentication msg"

definition gp_mode ::
  "('n, 'u) openconnect
     \<Rightarrow> (('n, 'u) auth, (browser_mode \<times> browser_phase \<times> bool option) option) io" where
  "gp_mode N =
     io_bind (io_get w_profile) (\<lambda>p.
     let mobile = (case reported_os p of Some os \<Rightarrow> os \<in> {''apple-ios'', ''android''} | None \<Rightarrow> False) in
     if mobile \<and> browser_mode p = SystemBrowser
     then io_fail (unsupported ''External GP browser negotiation has no documented mapping for this reported OS; use embedded/manual mode or a desktop reported OS'')
     else
     let mode = (if mobile \<and> browser_mode p = AutoBrowser then EmbeddedBrowser else browser_mode p) in
     io_bind (call N GpAuthPhase) (\<lambda>phase.
     if phase \<noteq> 1 \<and> phase \<noteq> 2
     then io_fail (protocol_violation ''Native GP browser phase is unavailable'')
     else
     let b = (of_int phase :: u8) in
     io_bind (call N GpExternalAllowed) (\<lambda>x.
     let external = (if x = 1 then Some True else if x = 0 then Some False else None) in
     io_bind (io_get gp_embedded_phases) (\<lambda>phases.
     if mode = AutoBrowser \<and> external = Some False \<and> phases AND b = 0 then
       io_bind (call N GpRetryEmbedded) (\<lambda>r.
       if r \<noteq> 0
       then io_fail (unsupported ''The server cannot retry browser negotiation; reconnect explicitly using embedded authentication'')
       else io_bind (io_modify (\<lambda>m. m\<lparr>gp_embedded_phases := gp_embedded_phases m OR b\<rparr>)) (\<lambda>_.
            io_return None))
     else
     let mode = (if mode = AutoBrowser \<and> (phases AND b \<noteq> 0 \<or> external = None)
                 then EmbeddedBrowser else mode) in
     if mode = SystemBrowser \<and> external \<noteq> Some True
     then io_fail (unsupported ''This GP server does not advertise external completion; select embedded or manual authentication'')
     else io_return (Some (mode, if phase = 1 then Portal else Gateway, external))))))"

text \<open>The pins of the profile, with those accepted in this attempt in their place.\<close>

definition merge_pin :: "certificate_pin list \<Rightarrow> certificate_pin \<Rightarrow> certificate_pin list" where
  "merge_pin ps a =
     (case position (in_scope a) ps of Some i \<Rightarrow> ps[i := a] | None \<Rightarrow> ps @ [a])"

lemma wait_for_left: "wait_for X m = (Done r, m') \<Longrightarrow> responses_left m' < responses_left m"
proof (induction X m rule: wait_for.induct)
  case (1 X m)
  show ?case
  proof (cases "receive X (others X m)")
    case (Pair ro m2)
    show ?thesis
    proof (cases ro)
      case None
      with 1(2) Pair show ?thesis
        by (subst (asm) wait_for.simps) (auto simp: Let_def split: if_splits)
    next
      case (Some q)
      have less: "responses_left m2 < responses_left (others X m)" and o: "responses_left (others X m) \<le> responses_left m"
        using receive_left [of X "others X m" q m2] others_left [of X m] Pair Some by simp_all
      have o2: "responses_left (others X m2) \<le> responses_left m2"
        and o3: "responses_left (others X (others X m2)) \<le> responses_left (others X m2)"
        by (rule others_left)+
      show ?thesis
      proof (cases q)
        case (RBrowser i b)
        show ?thesis
        proof (cases "browser_current i (others X (others X m2))")
          case True
          with 1(2) Pair Some RBrowser show ?thesis
            using less o o2 o3
            by (subst (asm) wait_for.simps) (auto simp: Let_def split: if_splits)
        next
          case False
          with 1(2) Pair Some RBrowser have w: "wait_for X (others X (others X m2)) = (Done r, m')"
            and c: "\<not> sh_cancelled (shared (others X m))" "\<not> sh_cancelled (shared (others X m2))"
            by (subst (asm) wait_for.simps, auto simp: Let_def split: if_splits)+
          have "responses_left m' < responses_left (others X (others X m2))"
            by (rule 1(1) [OF refl c(1) Pair [symmetric] Some _ refl c(2) RBrowser refl False w])
              (use RBrowser in simp)
          then show ?thesis using less o o2 o3 by simp
        qed
      qed (use 1(2) Pair Some less o o2 in
        \<open>(subst (asm) wait_for.simps, auto simp: Let_def split: if_splits)+\<close>)
    qed
  qed
qed

lemma submit_page_left:
  "submit_page X N page origin m = (Done c, m') \<Longrightarrow> responses_left m' = responses_left m"
  by (auto simp: submit_page_def io_defs call_def responses_left_def split: sum.splits prod.splits)

function await_browser ::
  "'u crates \<Rightarrow> ('n, 'u) openconnect \<Rightarrow> uuid \<Rightarrow> 'u \<Rightarrow> native_browser_kind \<Rightarrow> ('n, 'u) auth
     \<Rightarrow> int outcome \<times> ('n, 'u) auth" where
  "await_browser X N transaction origin k m =
     (case wait_for X m of
        (Fault e, m) \<Rightarrow> (Fault e, m)
      | (Crashed, m) \<Rightarrow> (Crashed, m)
      | (Done (RBrowser i r), m) \<Rightarrow>
          if i \<noteq> transaction then await_browser X N transaction origin k m
          else (case r of
             BrCancel \<Rightarrow> (Fault auth_cancelled, m)
           | BrFailed e \<Rightarrow> (Fault e, m)
           | BrOpened \<Rightarrow>
               if k = External then io_bind (set_pending None) (\<lambda>_. io_return 0) m
               else (Fault (invalid ''Unexpected browser completion''), m)
           | BrPage page \<Rightarrow>
               if k = Webview then
                 (case submit_page X N page origin m of
                    (Fault e, m) \<Rightarrow> (Fault e, m)
                  | (Crashed, m) \<Rightarrow> (Crashed, m)
                  | (Done c, m) \<Rightarrow>
                      if c = oc_again N then await_browser X N transaction origin k m
                      else if c \<noteq> 0
                      then (Fault (new_error AuthenticationRejected
                              ''Native browser completion was rejected''), m)
                      else io_bind (set_pending None) (\<lambda>_.
                           io_bind (send_event (EvBrowserFinished transaction)) (\<lambda>_. io_return 0)) m)
               else (Fault (invalid ''Unexpected browser completion''), m))
      | (Done _, m) \<Rightarrow> (Fault auth_stale, m))"
  by pat_completeness auto

termination
  by (relation "measure (\<lambda>(X, N, t, o', k, m). responses_left m)")
     (auto dest!: wait_for_left [OF sym] submit_page_left [OF sym])

declare await_browser.simps [simp del]

end
