(* ===== verification/EngineRun.thy ===== *)
theory EngineRun
  imports EngineSession
begin

text \<open>
  \<open>crates/engine/src/auth.rs\<close>, from beginning to end: the configuration of the library from a
  profile, every callback behind the wrapper that contains its errors and panics, and the worker
  thread, which ends with one event. What the library does in between is a list: changes of its own
  state and callbacks, as many and in whatever order.
\<close>

section \<open>The browser callback\<close>

definition browser_callback ::
  "'u crates \<Rightarrow> ('n, 'u) openconnect \<Rightarrow> uuid \<Rightarrow> c_text \<Rightarrow> native_browser_kind
     \<Rightarrow> (('n, 'u) auth, int) io" where
  "browser_callback X N new_id uri k =
     io_bind (io_get failure_of) (\<lambda>failed.
     if failed \<noteq> None then io_fail previous_failure
     else
     io_bind (unless_cancelled X) (\<lambda>_.
     io_bind (io_get w_profile) (\<lambda>p.
     io_bind (if pf_protocol p = ''gp'' then gp_mode N
              else io_return (Some (browser_mode p, Authentication, None))) (\<lambda>choice.
     case choice of
       None \<Rightarrow> io_return (oc_again N)
     | Some (mode, phase, external) \<Rightarrow>
         if k = Webview \<and> mode = SystemBrowser \<and> pf_protocol p \<noteq> ''gp''
         then io_fail (unsupported ''The server requires embedded or manual browser authentication'')
         else
         io_bind (query N ConnectUrl) (\<lambda>u.
         io_bind (io_lift (native_text u)) (\<lambda>url.
         io_bind (io_lift (https_origin X url)) (\<lambda>origin.
         io_bind (io_get (\<lambda>m. (w_attempt m, foldl merge_pin (w_pins m) (accepted m)))) (\<lambda>(attempt, ps).
         io_bind (io_lift (text_bounded max_browser_bytes uri)) (\<lambda>target.
         let request = \<lparr>br_attempt_id = attempt, br_transaction_id = new_id,
               br_protocol = pf_protocol p, expected_origin = origin, br_phase = phase, br_kind = k,
               br_mode = mode, br_uri = target, external_allowed = external,
               tls = \<lparr>tls_ca_file = ca_file p, tls_pins = ps\<rparr>\<rparr> in
         io_bind (io_lift (browser_request_validate X request)) (\<lambda>_.
         io_bind (set_pending (Some (PBrowser new_id origin k))) (\<lambda>_.
         io_bind (send_event (EvBrowser request)) (\<lambda>_.
         await_browser X N new_id origin k))))))))))))"

section \<open>Token storage\<close>

definition in_lib :: "('n, 'a) io \<Rightarrow> (('n, 'u) auth, 'a) io" where
  "in_lib f m = (case f (lib m) of (r, n) \<Rightarrow> (r, m\<lparr>lib := n\<rparr>))"

definition token_storage :: "(('n, 'u) auth, 'n token_store) io" where
  "token_storage =
     io_bind (io_get (\<lambda>m. token_callbacks (secrets m))) (\<lambda>t.
     io_lift (ok_or (new_error KeyringUnavailable ''Token storage is unavailable'') t))"

definition token_lock :: "('n, 'u) openconnect \<Rightarrow> (('n, 'u) auth, int) io" where
  "token_lock N =
     io_bind token_storage (\<lambda>t.
     io_bind (in_lib (ts_lock t)) (\<lambda>found.
     case found of
       None \<Rightarrow> io_return 0
     | Some seed \<Rightarrow>
         io_bind (io_try
           (io_bind (io_lift (cstring seed)) (\<lambda>s.
            io_bind (call N (SetTokenMode 3 (Some s))) (\<lambda>r.
            io_lift (check_code r ''refresh HOTP counter''))))) (\<lambda>refreshed.
         case refreshed of
           Inr _ \<Rightarrow> io_return 0
         | Inl e \<Rightarrow> io_bind (io_try (in_lib (ts_unlock t None))) (\<lambda>_. io_fail e))))"

definition token_unlock :: "c_text \<Rightarrow> (('n, 'u) auth, int) io" where
  "token_unlock token =
     io_bind token_storage (\<lambda>t.
     case optional_text token of
       Inr new_seed \<Rightarrow> io_bind (in_lib (ts_unlock t new_seed)) (\<lambda>_. io_return 0)
     | Inl e \<Rightarrow> io_bind (io_try (in_lib (ts_unlock t None))) (\<lambda>_. io_fail e))"

section \<open>Callbacks of the library\<close>

datatype native_callback =
    CbForm uuid "native_form option" | CbCertificate uuid c_text
  | CbWebview uuid c_text | CbExternal uuid c_text
  | CbTokenLock | CbTokenUnlock c_text

definition note_failure :: "err \<Rightarrow> ('n, 'u) auth \<Rightarrow> ('n, 'u) auth" where
  "note_failure e m = (if failure_of m = None then m\<lparr>failure_of := Some e\<rparr> else m)"

definition contained :: "(('n, 'u) auth, int) io \<Rightarrow> ('n, 'u) auth \<Rightarrow> int \<times> ('n, 'u) auth" where
  "contained f m =
     (case f m of
        (Done c, m) \<Rightarrow> (c, m)
      | (Fault e, m) \<Rightarrow> (-1, note_failure e m)
      | (Crashed, m) \<Rightarrow>
          (-1, note_failure (new_error RuntimeFailure ''Native authentication callback panicked'') m))"

fun callback_body ::
  "'u crates \<Rightarrow> ('n, 'u) openconnect \<Rightarrow> native_callback \<Rightarrow> (('n, 'u) auth, int) io" where
  "callback_body X N (CbForm i form) = form_callback X N i form"
| "callback_body X N (CbCertificate i reason) = certificate_callback X N i reason"
| "callback_body X N (CbWebview i uri) = browser_callback X N i uri Webview"
| "callback_body X N (CbExternal i uri) = browser_callback X N i uri External"
| "callback_body X N CbTokenLock = token_lock N"
| "callback_body X N (CbTokenUnlock token) = token_unlock token"

definition run_callback ::
  "'u crates \<Rightarrow> ('n, 'u) openconnect \<Rightarrow> native_callback \<Rightarrow> ('n, 'u) auth \<Rightarrow> ('n, 'u) auth" where
  "run_callback X N c m = snd (contained (callback_body X N c) m)"

text \<open>One act of the library while it obtains the cookie: it moves on by itself, or calls back.\<close>

datatype 'n library_act = Moves "'n \<Rightarrow> 'n" | Calls native_callback

fun library_step ::
  "'u crates \<Rightarrow> ('n, 'u) openconnect \<Rightarrow> 'n library_act \<Rightarrow> ('n, 'u) auth \<Rightarrow> ('n, 'u) auth" where
  "library_step X N (Moves f) m = m\<lparr>lib := f (lib m)\<rparr>"
| "library_step X N (Calls c) m = run_callback X N c m"

definition library_acts ::
  "'u crates \<Rightarrow> ('n, 'u) openconnect \<Rightarrow> 'n library_act list \<Rightarrow> ('n, 'u) auth \<Rightarrow> ('n, 'u) auth" where
  "library_acts X N acts m = fold (library_step X N) acts m"

section \<open>Configuration\<close>

definition set_text ::
  "('n, 'u) openconnect \<Rightarrow> (string \<Rightarrow> native_call) \<Rightarrow> string \<Rightarrow> string \<Rightarrow> (('n, 'u) auth, unit) io" where
  "set_text N c value operation =
     io_bind (io_lift (cstring value)) (\<lambda>v.
     io_bind (call N (c v)) (\<lambda>r.
     io_lift (check_code r operation)))"

definition set_optional ::
  "('n, 'u) openconnect \<Rightarrow> (string \<Rightarrow> native_call) \<Rightarrow> string option \<Rightarrow> string
     \<Rightarrow> (('n, 'u) auth, unit) io" where
  "set_optional N c value operation =
     (case value of Some v \<Rightarrow> set_text N c v operation | None \<Rightarrow> io_return ())"

definition checked_call :: "('n, 'u) openconnect \<Rightarrow> native_call \<Rightarrow> string \<Rightarrow> (('n, 'u) auth, unit) io" where
  "checked_call N c operation = io_bind (call N c) (\<lambda>r. io_lift (check_code r operation))"

definition known_port :: "'u crates \<Rightarrow> 'u \<Rightarrow> u16" where
  "known_port X url = (case url_port X url of Some p \<Rightarrow> p | None \<Rightarrow> 443)"

definition is_strict :: "'u crates \<Rightarrow> 'u \<Rightarrow> string \<Rightarrow> certificate_pin list \<Rightarrow> bool" where
  "is_strict X url host ps \<longleftrightarrow> list_ex (\<lambda>p. pin_host p = host \<and> pin_port p = known_port X url) ps"

definition set_certificate ::
  "('n, 'u) openconnect \<Rightarrow> (string \<Rightarrow> string option \<Rightarrow> native_call) \<Rightarrow> string option \<Rightarrow> string option
     \<Rightarrow> (('n, 'u) auth, unit) io" where
  "set_certificate N c cert key =
     (case cert of
        None \<Rightarrow> if key \<noteq> None then io_fail (invalid ''A private key requires a certificate'')
                else io_return ()
      | Some crt \<Rightarrow>
          io_bind (if list_ex (starts_with ''pkcs11:'') (some_values [Some crt, key])
                   then io_bind (call N HasPkcs11Support) (\<lambda>r.
                        if r = 0 then io_fail (unsupported ''This native build lacks PKCS#11 support'')
                        else io_return ())
                   else io_return ()) (\<lambda>_.
          io_bind (io_lift (cstring crt)) (\<lambda>cb.
          io_bind (io_lift (transpose_result cstring key)) (\<lambda>kb.
          checked_call N (c cb kb) ''configure client certificate''))))"

text \<open>\<open>value.find("://")\<close>.\<close>

fun find_str :: "string \<Rightarrow> string \<Rightarrow> nat option" where
  "find_str p [] = (if p = [] then Some 0 else None)"
| "find_str p (c # cs) =
     (if starts_with p (c # cs) then Some 0 else map_option Suc (find_str p cs))"

definition bad_proxy_part :: "string \<Rightarrow> bool" where
  "bad_proxy_part s \<longleftrightarrow>
     list_ex (\<lambda>c. c \<in> {CHR ''@'', CHR ''/'', CHR ''?'', CHR ''#'', CHR 0x5C}) s \<or> has_control s"

definition proxy_value ::
  "(string \<Rightarrow> (string \<times> string) option) \<Rightarrow> string \<Rightarrow> string option \<Rightarrow> string result" where
  "proxy_value J proxy_text credentials =
     (case credentials of
        None \<Rightarrow> Inr proxy_text
      | Some c \<Rightarrow>
          rbind (ok_or (invalid ''Invalid stored proxy credentials'') (J c)) (\<lambda>(user, pass).
          if bad_proxy_part user \<or> bad_proxy_part pass
          then Inl (invalid ''Invalid encoded proxy credentials'')
          else rbind (ok_or (invalid ''Invalid proxy URL'') (find_str ''://'' proxy_text)) (\<lambda>i.
          Inr (take (i + 3) proxy_text @ user @ '':'' @ pass @ ''@'' @ drop (i + 3) proxy_text))))"

definition set_proxy ::
  "'u crates \<Rightarrow> ('n, 'u) openconnect \<Rightarrow> (string \<Rightarrow> (string \<times> string) option)
     \<Rightarrow> 'u option \<Rightarrow> string option \<Rightarrow> (('n, 'u) auth, unit) io" where
  "set_proxy X N J proxy' credentials =
     (case proxy' of
        Some u \<Rightarrow>
          io_bind (io_lift (proxy_value J (url_as_str X u) credentials)) (\<lambda>v.
          set_text N SetHttpProxy v ''configure proxy'')
      | None \<Rightarrow>
          if credentials \<noteq> None
          then io_fail (invalid ''Proxy credentials require a proxy endpoint'')
          else io_return ())"

fun token_number :: "token_mode \<Rightarrow> int" where
  "token_number NoToken = 0"
| "token_number Stoken = 1"
| "token_number Totp = 2"
| "token_number Hotp = 3"
| "token_number Yubioath = 4"
| "token_number Oidc = 5"

definition token_supported ::
  "('n, 'u) openconnect \<Rightarrow> token_mode \<Rightarrow> (('n, 'u) auth, bool) io" where
  "token_supported N t =
     (case t of
        Stoken \<Rightarrow> io_bind (call N HasStokenSupport) (\<lambda>r. io_return (r > 0))
      | Totp \<Rightarrow> io_bind (call N HasOathSupport) (\<lambda>r. io_return (r > 0))
      | Hotp \<Rightarrow> io_bind (call N HasOathSupport) (\<lambda>r. io_return (r \<ge> 2))
      | Yubioath \<Rightarrow> io_bind (call N HasYubioathSupport) (\<lambda>r. io_return (r > 0))
      | _ \<Rightarrow> io_return True)"

definition file_reference :: "string option \<Rightarrow> bool" where
  "file_reference seed \<longleftrightarrow>
     (case seed of None \<Rightarrow> True | Some v \<Rightarrow> v = [] \<or> starts_with ''@'' v \<or> starts_with ''/'' v)"

definition set_token ::
  "('n, 'u) openconnect \<Rightarrow> token_mode \<Rightarrow> 'n auth_secrets \<Rightarrow> (('n, 'u) auth, unit) io" where
  "set_token N t secret =
     (if t = Oidc \<and> file_reference (token_seed secret)
      then io_fail (new_error AuthenticationRequired
             ''OIDC requires an inline bearer token supplied privately, not a file reference'')
      else
      io_bind (token_supported N t) (\<lambda>supported.
      if \<not> supported
      then io_fail (unsupported ''The selected token mode is unavailable in this native build'')
      else
      io_bind (if t = Hotp
               then if token_callbacks secret = None
                    then io_fail (new_error KeyringUnavailable ''HOTP requires locked counter storage'')
                    else checked_call N SetTokenCallbacks ''configure token storage''
               else io_return ()) (\<lambda>_.
      if token_number t = 0 then io_return ()
      else
      io_bind (io_lift (transpose_result cstring (token_seed secret))) (\<lambda>seed.
      checked_call N (SetTokenMode (token_number t) seed) ''configure token''))))"

definition target_url :: "'u crates \<Rightarrow> ('n, 'u) openconnect \<Rightarrow> 'u profile \<Rightarrow> 'u" where
  "target_url X N p =
     (if pf_protocol p = ''gp'' \<and> url_path X (server p) = ''/''
      then url_set_path N (if direct_gateway p then ''/gateway'' else ''/portal'') (server p)
      else server p)"

text \<open>The part of \<open>configure\<close> after the trust of the server.\<close>

definition configure_options ::
  "'u crates \<Rightarrow> ('n, 'u) openconnect \<Rightarrow> (string \<Rightarrow> (string \<times> string) option) \<Rightarrow> 'u profile
     \<Rightarrow> 'n auth_secrets \<Rightarrow> (('n, 'u) auth, unit) io" where
  "configure_options X N J p secret =
     io_bind (set_certificate N SetClientCert (client_certificate p) (client_key p)) (\<lambda>_.
     io_bind (set_certificate N SetMcaCert (secondary_certificate p) (secondary_key p)) (\<lambda>_.
     io_bind (set_optional N SetUseragent (user_agent p) ''set user agent'') (\<lambda>_.
     io_bind (set_optional N SetReportedOs (reported_os p) ''set reported OS'') (\<lambda>_.
     io_bind (set_optional N SetSni (sni p) ''set SNI'') (\<lambda>_.
     io_bind (if pf_protocol p = ''gp''
              then checked_call N (SetGpBrowserMode (if browser_mode p \<noteq> EmbeddedBrowser then 1 else 0))
                     ''configure GP browser negotiation''
              else io_return ()) (\<lambda>_.
     io_bind (set_optional N SetKeyPassword (key_passphrase secret) ''set key passphrase'') (\<lambda>_.
     io_bind (set_optional N SetMcaKeyPassword (secondary_key_passphrase secret)
                ''set key passphrase'') (\<lambda>_.
     io_bind (set_proxy X N J (proxy p) (as_proxy_credentials secret)) (\<lambda>_.
     io_bind (case pf_mtu p of Some v \<Rightarrow> io_bind (call N (SetReqmtu v)) (\<lambda>_. io_return ())
              | None \<Rightarrow> io_return ()) (\<lambda>_.
     io_bind (if disable_dtls p then checked_call N DisableDtls ''disable DTLS''
              else io_return ()) (\<lambda>_.
     io_bind (if disable_ipv6 p then checked_call N DisableIpv6 ''disable IPv6''
              else io_return ()) (\<lambda>_.
     set_token N (token_mode p) secret))))))))))))"

definition configure ::
  "'u crates \<Rightarrow> ('n, 'u) openconnect \<Rightarrow> (string \<Rightarrow> (string \<times> string) option)
     \<Rightarrow> (('n, 'u) auth, unit) io" where
  "configure X N J =
     io_bind (io_get (\<lambda>m. (w_profile m, w_pins m, secrets m))) (\<lambda>(p, ps, secret).
     io_bind (set_text N SetProtocol (pf_protocol p) ''select protocol'') (\<lambda>_.
     let url = target_url X N p in
     io_bind (set_text N ParseUrl (url_as_str X url) ''parse server URL'') (\<lambda>_.
     io_bind (io_lift (ok_or (invalid ''VPN server host is required'') (url_host X url))) (\<lambda>host.
     let strict = is_strict X url host ps in
     io_bind (call N (SetSystemTrust (if strict then 0 else 1))) (\<lambda>_.
     io_bind (if strict then io_return ()
              else set_optional N SetCafile (ca_file p) ''configure CA file'') (\<lambda>_.
     configure_options X N J p secret))))))"

section \<open>The worker thread\<close>

definition handoff ::
  "'u crates \<Rightarrow> ('n, 'u) openconnect \<Rightarrow> (('n, 'u) auth, 'u auth_handoff) io" where
  "handoff X N =
     io_bind (query N ConnectUrl) (\<lambda>u.
     io_bind (io_lift (native_text u)) (\<lambda>url.
     io_bind (io_lift (ok_or (protocol_violation ''Invalid negotiated connection URL'')
                         (url_parse X url))) (\<lambda>target.
     io_bind (query N DnsName) (\<lambda>d. io_bind (io_lift (native_text d)) (\<lambda>dns.
     io_bind (query N Hostname) (\<lambda>h. io_bind (io_lift (native_text h)) (\<lambda>peer.
     io_bind (query N PeerCertHash) (\<lambda>f. io_bind (io_lift (native_text f)) (\<lambda>fingerprint.
     io_bind (query N Cookie) (\<lambda>c. io_bind (io_lift (native_text c)) (\<lambda>secret.
     io_get (\<lambda>m.
       let p = w_profile m; expiry = oc_expiration N (lib m) in
       \<lparr>ho_protocol = pf_protocol p, connect_url = target, dns_name = dns,
        peer_address = parse_ip (trim_end_matches (CHR '']'') (trim_start_matches (CHR ''['') peer)),
        peer_fingerprint = fingerprint, cookie = secret,
        proxy_credentials = as_proxy_credentials (secrets m),
        expires_at = (if expiry > 0 then Some expiry else None),
        tunnel_options =
          \<lparr>to_proxy = proxy p, to_sni = sni p, to_user_agent = user_agent p,
           to_reported_os = reported_os p, to_mtu = pf_mtu p, to_disable_dtls = disable_dtls p,
           to_disable_ipv6 = disable_ipv6 p,
           to_reconnect_timeout_secs = reconnect_timeout_secs p\<rparr>\<rparr>))))))))))))"

definition obtain_cookie ::
  "'u crates \<Rightarrow> ('n, 'u) openconnect \<Rightarrow> 'n library_act list \<Rightarrow> (('n, 'u) auth, int) io" where
  "obtain_cookie X N acts =
     io_bind (io_modify (library_acts X N acts)) (\<lambda>_. call N ObtainCookie)"

definition take_failure :: "(('n, 'u) auth, err option) io" where
  "take_failure = io_bind (io_get failure_of) (\<lambda>e.
     io_bind (io_modify (\<lambda>m. m\<lparr>failure_of := None\<rparr>)) (\<lambda>_. io_return e))"

definition run_worker ::
  "'u crates \<Rightarrow> ('n, 'u) openconnect \<Rightarrow> (string \<Rightarrow> (string \<times> string) option) \<Rightarrow> protocol_info list
     \<Rightarrow> uuid \<Rightarrow> int \<Rightarrow> 'n library_act list \<Rightarrow> (('n, 'u) auth, 'u auth_handoff) io" where
  "run_worker X N J available fresh now acts =
     io_bind (call N VpninfoNew) (\<lambda>v.
     if v = 0
     then io_fail (new_error EngineUnavailable ''Cannot allocate OpenConnect session'')
     else
     io_bind (call N DuplicateCmdHandle) (\<lambda>handle.
     if handle = -1
     then io_fail (new_error RuntimeFailure ''Cannot create native cancellation endpoint'')
     else
     io_bind (io_modify (on_shared (\<lambda>s. s\<lparr>sh_command := True\<rparr>))) (\<lambda>_.
     io_bind (unless_cancelled X) (\<lambda>_.
     io_bind (configure X N J) (\<lambda>_.
     io_bind (obtain_cookie X N acts) (\<lambda>c.
     io_bind (unless_cancelled X) (\<lambda>_.
     io_bind take_failure (\<lambda>failed.
     case failed of
       Some e \<Rightarrow> io_fail e
     | None \<Rightarrow>
         if c \<noteq> 0
         then io_fail (new_error AuthenticationRejected
                ''OpenConnect authentication failed; verify credentials, server policy and connectivity'')
         else
         io_bind (handoff X N) (\<lambda>h.
         io_bind (io_lift (handoff_validate X fresh available now h)) (\<lambda>_.
         io_return h))))))))))"

definition final_event :: "bool \<Rightarrow> 'u auth_handoff outcome \<Rightarrow> 'u auth_event" where
  "final_event is_cancelled r =
     (if is_cancelled then EvCancelled
      else case r of
        Done h \<Rightarrow> EvAuthenticated h
      | Fault e \<Rightarrow> if code e = Cancelled then EvCancelled else EvFailed e
      | Crashed \<Rightarrow> EvFailed (new_error RuntimeFailure ''Authentication worker panicked''))"

text \<open>The end of the thread: nothing is pending, the command handle is closed, one event is sent, and
  the receiver of the responses is gone.\<close>

definition worker_thread ::
  "'u crates \<Rightarrow> ('n, 'u) openconnect \<Rightarrow> (string \<Rightarrow> (string \<times> string) option) \<Rightarrow> protocol_info list
     \<Rightarrow> uuid \<Rightarrow> int \<Rightarrow> 'n library_act list \<Rightarrow> ('n, 'u) auth \<Rightarrow> ('n, 'u) auth" where
  "worker_thread X N J available fresh now acts m =
     (case run_worker X N J available fresh now acts m of
        (r, m) \<Rightarrow>
          let m = others X (on_shared (\<lambda>s. s\<lparr>sh_pending := None, sh_command := False\<rparr>) m);
              e = final_event (sh_cancelled (shared m)) r;
              m = (if sh_listening (shared m) then m\<lparr>sent := sent m @ [e]\<rparr> else m)
          in on_shared (\<lambda>s. s\<lparr>sh_finished := True\<rparr>) m)"

text \<open>\<open>Engine::authenticate\<close>: the checks before the thread is started, and its first state.\<close>

definition fresh_shared :: "'u auth_shared" where
  "fresh_shared = \<lparr>sh_cancelled = False, sh_pending = None, sh_queue = [], sh_finished = False,
     sh_command = False, sh_signals = 0, sh_listening = True\<rparr>"

definition authenticate ::
  "'u crates \<Rightarrow> protocol_info list \<Rightarrow> uuid \<Rightarrow> 'u profile \<Rightarrow> certificate_pin list \<Rightarrow> 'n auth_secrets
     \<Rightarrow> 'n \<Rightarrow> turn list \<Rightarrow> ('n, 'u) auth result" where
  "authenticate X available attempt p ps secret n ts =
     rbind (validate_for_connect X p available) (\<lambda>_.
     if attempt = 0 then Inl (invalid ''Authentication attempt ID is required'')
     else rbind (map_result (\<lambda>c. certificate_pin_new X (pin_host c) (pin_port c) (pin_fingerprint c)) ps)
       (\<lambda>ps.
     Inr \<lparr>lib = n, calls = [], shared = fresh_shared, schedule = ts, sent = [], w_attempt = attempt,
          w_profile = p, w_pins = ps, accepted = [], secrets = secret, failure_of = None,
          password_used = False, group_selected = None, empty_forms = 0, gp_embedded_phases = 0\<rparr>))"

end
