(* ===== verification/EngineSample.thy ===== *)
theory EngineSample
  imports EngineRun
begin

text \<open>
  A library and a user on which the properties of the authentication are evaluated: the library
  accepts every setting, matches no digest, and obtains a cookie.
\<close>

definition sample_fingerprint :: string where
  "sample_fingerprint = replicate 40 (CHR ''a'')"

definition sample_library :: "(unit, string) openconnect" where
  "sample_library =
     \<lparr>oc_call = (\<lambda>c n. (case c of ObtainCookie \<Rightarrow> 0 | GetPort \<Rightarrow> 443 | _ \<Rightarrow> 1, n)),
      oc_text = (\<lambda>q n. Some (case q of
          DnsName \<Rightarrow> ''vpn.example'' | Hostname \<Rightarrow> ''192.0.2.1'' | ConnectUrl \<Rightarrow> ''https://vpn.example/''
        | PeerCertHash \<Rightarrow> sample_fingerprint | PeerCertDetails \<Rightarrow> ''details'' | Cookie \<Rightarrow> ''token'')),
      oc_expiration = (\<lambda>n. 0), oc_again = -11, url_set_path = (\<lambda>p u. u @ p)\<rparr>"

definition sample_pin :: certificate_pin where
  "sample_pin = \<lparr>pin_host = ''vpn.example'', pin_port = 443,
     pin_fingerprint = replicate 40 (CHR ''b'')\<rparr>"

definition sample_secrets :: "unit auth_secrets" where
  "sample_secrets = \<lparr>password = Some ''secret'', key_passphrase = None,
     secondary_key_passphrase = None, token_seed = None, as_proxy_credentials = None,
     token_callbacks = None\<rparr>"

definition sample_auth :: "turn list \<Rightarrow> (unit, string) auth" where
  "sample_auth ts =
     \<lparr>lib = (), calls = [], shared = fresh_shared, schedule = ts, sent = [], w_attempt = 3,
      w_profile = sample_profile, w_pins = [sample_pin], accepted = [], secrets = sample_secrets,
      failure_of = None, password_used = False, group_selected = None, empty_forms = 0,
      gp_embedded_phases = 0\<rparr>"

definition sample_configured :: "(unit, string) auth" where
  "sample_configured = snd (configure sample_crates sample_library (\<lambda>_. None) (sample_auth []))"

lemma sample_configure:
  "fst (configure sample_crates sample_library (\<lambda>_. None) (sample_auth [])) = Done ()"
  by code_simp

lemma sample_certificate:
  "fst (certificate_callback sample_crates sample_library 9 None
     (sample_auth [Acts [], Acts [ActCertificate 9 AcceptAttempt]])) = Done 0"
  by code_simp

text \<open>A form for a user name and a password.\<close>

definition sample_option :: "nat \<Rightarrow> int \<Rightarrow> string \<Rightarrow> native_option" where
  "sample_option next_ptr t name =
     \<lparr>no_next = next_ptr, no_type = t, no_flags = 0, no_name = Some name, no_label = None,
      no_nr_choices = 0, no_choices = None\<rparr>"

definition sample_form :: native_form where
  "sample_form =
     \<lparr>nf_auth_id = Some ''main'', nf_banner = None, nf_message = Some ''Sign in'', nf_error = None,
      nf_opts = 1,
      nf_option = (\<lambda>n. if n = 1 then sample_option 2 1 ''username''
                      else if n = 2 then sample_option 0 2 ''password''
                      else sample_option 0 3 ''group''),
      nf_group = 3\<rparr>"

definition sample_reply :: auth_reply where
  "sample_reply = \<lparr>rp_prompt_id = 5, rp_attempt_id = 3, answers = Some [(''username'', ''joe'')]\<rparr>"

definition sample_signing :: "(unit, string) auth" where
  "sample_signing = sample_auth [Acts [], Acts [ActReply sample_reply]]"

lemma sample_form_answered:
  "fst (form_callback sample_crates sample_library 5 (Some sample_form) sample_signing) = Done 0
   \<and> calls (snd (form_callback sample_crates sample_library 5 (Some sample_form) sample_signing))
       = [(SetOptionValue 1 (''joe'' @ [nul]), 1), (SetOptionValue 2 (''secret'' @ [nul]), 1)]"
  by code_simp

end
