(* ===== verification/EngineProps.thy ===== *)
theory EngineProps
  imports EngineSample
begin

text \<open>
  What the authentication worker promises: unambiguous choices, no panic on any form, no silent
  acceptance of a changed certificate, a saved password that is used once, and no handoff after
  any failed callback.
\<close>

section \<open>Choices\<close>

lemma first_free_fresh: "first_free rs b n \<notin> set rs"
proof (induction rs b n rule: first_free.induct)
  case (1 rs b n)
  then show ?case by (subst first_free.simps) simp
qed

lemma free_id_fresh: "free_id rs b \<notin> set rs"
  by (simp add: free_id_def first_free_fresh)

definition unique_in :: "string list \<Rightarrow> string \<Rightarrow> bool" where
  "unique_in native v \<longleftrightarrow> length (filter ((=) v) native) = 1"

lemma rename_choices_ids:
  assumes "set native \<subseteq> set rs" and "set (map ch_id cs) \<subseteq> set native"
  shows "i \<in> set (map ch_id (rename_choices native rs cs)) \<Longrightarrow>
    (unique_in native i \<and> i \<in> set (map ch_id cs)) \<or> i \<notin> set rs"
  using assms
proof (induction cs arbitrary: rs)
  case (Cons c cs)
  show ?case
  proof (cases "unique_in native (ch_id c)")
    case True
    then show ?thesis using Cons by (auto simp: unique_in_def)
  next
    case False
    let ?j = "free_id rs (ch_id c @ ''#'' @ ch_label c)"
    have "i = ?j \<or> i \<in> set (map ch_id (rename_choices native (?j # rs) cs))"
      using False Cons.prems(1) by (auto simp: unique_in_def Let_def)
    then show ?thesis
      using Cons.IH [of "?j # rs"] Cons.prems free_id_fresh by auto
  qed
qed simp

lemma filter_count_mono:
  "length (filter P (map f cs)) \<le> length (filter P (map f (c # cs)))" by simp

lemma rename_choices_distinct:
  assumes "set native \<subseteq> set rs" and "set (map ch_id cs) \<subseteq> set native"
    and "\<And>v. unique_in native v \<Longrightarrow> length (filter ((=) v) (map ch_id cs)) \<le> 1"
  shows "distinct (map ch_id (rename_choices native rs cs))"
  using assms
proof (induction cs arbitrary: rs)
  case (Cons c cs)
  have tail: "\<And>v. unique_in native v \<Longrightarrow> length (filter ((=) v) (map ch_id cs)) \<le> 1"
    using order_trans [OF filter_count_mono Cons.prems(3)] by blast
  show ?case
  proof (cases "unique_in native (ch_id c)")
    case True
    have "ch_id c \<notin> set (map ch_id (rename_choices native rs cs))"
    proof
      assume "ch_id c \<in> set (map ch_id (rename_choices native rs cs))"
      then have "ch_id c \<in> set (map ch_id cs) \<or> ch_id c \<notin> set rs"
        using rename_choices_ids [of native rs cs "ch_id c"] Cons.prems(1,2) by auto
      moreover have "ch_id c \<in> set rs" using Cons.prems(1,2) by auto
      ultimately have "ch_id c \<in> set (map ch_id cs)" by blast
      then have "filter ((=) (ch_id c) \<circ> ch_id) cs \<noteq> []" by (auto simp: filter_empty_conv)
      then show False using Cons.prems(3) [OF True] by (simp add: filter_map)
    qed
    then show ?thesis
      using True Cons.IH [of rs] Cons.prems(1,2) tail by (simp add: unique_in_def)
  next
    case False
    let ?j = "free_id rs (ch_id c @ ''#'' @ ch_label c)"
    have j: "?j \<notin> set rs" by (rule free_id_fresh)
    have "?j \<notin> set (map ch_id (rename_choices native (?j # rs) cs))"
    proof
      assume "?j \<in> set (map ch_id (rename_choices native (?j # rs) cs))"
      then have "?j \<in> set (map ch_id cs) \<or> ?j \<notin> set (?j # rs)"
        using rename_choices_ids [of native "?j # rs" cs ?j] Cons.prems(1,2) by auto
      then show False using j Cons.prems(1,2) by auto
    qed
    then show ?thesis
      using False Cons.IH [of "?j # rs"] Cons.prems(1,2) tail
      by (auto simp: unique_in_def Let_def)
  qed
qed simp

lemma rename_choices_labels: "map ch_label (rename_choices native rs cs) = map ch_label cs"
  by (induction cs arbitrary: rs) (simp_all add: Let_def)

lemma rename_choices_length: "length (rename_choices native rs cs) = length cs"
  by (induction cs arbitrary: rs) (simp_all add: Let_def)

lemma rename_choices_unique:
  "i < length cs \<Longrightarrow> unique_in native (ch_id (cs ! i)) \<Longrightarrow> rename_choices native rs cs ! i = cs ! i"
  by (induction cs arbitrary: rs i) (auto simp: unique_in_def Let_def nth_Cons split: nat.splits)

text \<open>C@: the identifiers of the choices that the user interface sees are pairwise distinct, however
often the server repeats a value; the labels, the order and every value that was unambiguous stay
as they are, and the native values are kept beside them, position by position.\<close>

theorem choice_ids_distinct:
  "distinct (map ch_id (fst (choice_ids cs)))
   \<and> map ch_label (fst (choice_ids cs)) = map ch_label cs
   \<and> snd (choice_ids cs) = map ch_id cs
   \<and> (\<forall>i\<in>{i. i < length cs \<and> length (filter ((=) (ch_id (cs ! i))) (map ch_id cs)) = 1}.
        fst (choice_ids cs) ! i = cs ! i)"
  using rename_choices_distinct [of "map ch_id cs" "map ch_id cs" cs]
    rename_choices_labels [of "map ch_id cs" "map ch_id cs" cs]
    rename_choices_unique [of _ cs "map ch_id cs" "map ch_id cs"]
  by (simp add: choice_ids_def Let_def unique_in_def)

theorem choice_ids_distinct_witness:
  "map ch_id (fst (choice_ids [\<lparr>ch_id = ''vpn'', ch_label = ''a''\<rparr>, \<lparr>ch_id = ''vpn'', ch_label = ''b''\<rparr>]))
     = [''vpn#a'', ''vpn#b'']"
proof -
  have "distinct (map ch_id (fst (choice_ids
      [\<lparr>ch_id = ''vpn'', ch_label = ''a''\<rparr>, \<lparr>ch_id = ''vpn'', ch_label = ''b''\<rparr>])))"
    using choice_ids_distinct by blast
  then show ?thesis
    by (simp add: choice_ids_def Let_def free_id_def)
qed

section \<open>Forms cannot cause a panic\<close>

definition no_panic :: "('m, 'a) io \<Rightarrow> bool" where
  "no_panic f \<longleftrightarrow> (\<forall>m. fst (f m) \<noteq> Crashed)"

named_theorems no_panic_rules \<open>operations that do not panic\<close>

lemma no_panic_bind:
  assumes "no_panic f" and "\<And>x m m'. f m = (Done x, m') \<Longrightarrow> no_panic (g x)"
  shows "no_panic (io_bind f g)"
  unfolding no_panic_def
proof
  fix m
  obtain r m' where f: "f m = (r, m')" by (cases "f m")
  then show "fst (io_bind f g m) \<noteq> Crashed"
    using assms(1) assms(2) [of m _ m'] by (cases r) (auto simp: no_panic_def io_bind_def dest: spec [of _ m])
qed

lemma no_panic_basic [no_panic_rules]:
  "no_panic (io_return x)" "no_panic (io_fail e)" "no_panic (io_lift r)" "no_panic (io_get h)"
  "no_panic (io_modify u)" "no_panic (call N c)" "no_panic (query N q)"
  by (auto simp: no_panic_def io_return_def io_fail_def io_lift_def io_get_def io_modify_def call_def
      query_def split: sum.splits prod.splits)

lemma no_panic_if [no_panic_rules]:
  "(b \<Longrightarrow> no_panic f) \<Longrightarrow> (\<not> b \<Longrightarrow> no_panic g) \<Longrightarrow> no_panic (if b then f else g)"
  by simp

lemma no_panic_steps [no_panic_rules]:
  "no_panic (unless_cancelled X)" "no_panic (set_pending p)" "no_panic (send_event e)"
  unfolding unless_cancelled_def set_pending_def send_event_def
  by (intro no_panic_bind no_panic_rules)+

lemma no_panic_wait [no_panic_rules]: "no_panic (wait_for X)"
  unfolding no_panic_def
proof
  fix m
  show "fst (wait_for X m) \<noteq> Crashed"
  proof (induction X m rule: wait_for.induct)
    case (1 X m)
    then show ?case
      by (subst wait_for.simps)
        (auto simp: Let_def split: prod.splits option.splits auth_response.splits)
  qed
qed

lemma lifted: "io_lift r m = (Done x, m') \<Longrightarrow> r = Inr x"
  by (auto simp: io_lift_def split: sum.splits)

lemma got: "io_get h m = (Done x, m') \<Longrightarrow> x = h m \<and> m' = m"
  by (auto simp: io_get_def)

lemma returned: "io_return y m = (Done x, m') \<Longrightarrow> x = y \<and> m' = m"
  by (auto simp: io_return_def)

text \<open>What is collected from a form: fields and options in step, and for each selection, which are the
  options of that type, the native values of its choices.\<close>

definition field_fits :: "native_form \<Rightarrow> bindings \<Rightarrow> auth_field \<times> nat \<Rightarrow> bool" where
  "field_fits form bs x \<longleftrightarrow>
     snd x \<noteq> 0
     \<and> (kind (fst x) = SelectField \<longleftrightarrow> no_type (nf_option form (snd x)) = 3)
     \<and> (kind (fst x) = PasswordField \<longleftrightarrow> no_type (nf_option form (snd x)) = 2)
     \<and> (kind (fst x) = SelectField \<longrightarrow>
          (\<exists>native. map_of bs (fd_name (fst x)) = Some native \<and> length native = length (choices (fst x))))"

definition collected_ok :: "native_form \<Rightarrow> collected \<Rightarrow> bool" where
  "collected_ok form c \<longleftrightarrow>
     length (cl_fields c) = length (cl_options c) \<and> distinct (map fd_name (cl_fields c))
     \<and> (\<forall>x\<in>set (zip (cl_fields c) (cl_options c)). field_fits form (cl_bindings c) x)"

lemma no_options_ok [simp]: "collected_ok form no_options"
  by (simp add: collected_ok_def no_options_def)

lemma field_fits_other:
  "field_fits form bs x \<Longrightarrow> fd_name (fst x) \<noteq> name \<Longrightarrow> field_fits form ((name, ids) # bs) x"
  by (simp add: field_fits_def)

lemma choice_ids_length: "choice_ids cs = (cs', native) \<Longrightarrow> length native = length cs'"
  by (auto simp: choice_ids_def Let_def rename_choices_length)

lemma read_option_ok:
  assumes c: "collected_ok form c" and r: "read_option p ptr (nf_option form ptr) c = Inr c'"
    and ptr: "ptr \<noteq> 0"
  shows "collected_ok form c'"
proof (cases "shown_option (nf_option form ptr) \<and> no_type (nf_option form ptr) \<notin> {6, 7}")
  case False
  then show ?thesis using c r by (auto simp: read_option_def collected_ok_def split: if_splits)
next
  case True
  then obtain k where k: "field_kind (no_type (nf_option form ptr)) = Inr k"
    using r by (auto simp: read_option_def rbind_Inr_iff)
  show ?thesis
  proof (cases "k = TokenField \<and> token_mode p \<noteq> NoToken")
    case True
    then show ?thesis using c r k \<open>shown_option _ \<and> _\<close>
      by (auto simp: read_option_def collected_ok_def)
  next
    case False
    obtain name sel label where n: "native_text (no_name (nf_option form ptr)) = Inr name"
      "\<not> list_ex (\<lambda>f. fd_name f = name) (cl_fields c)"
      and s: "(if k = SelectField then rbind (read_choices (nf_option form ptr)) (\<lambda>cs. Inr (Some (choice_ids cs)))
                  else Inr None) = Inr sel"
      and c': "cl_fields c' = cl_fields c @
               [\<lparr>fd_name = name, fd_label = label, kind = k,
                 required = True, numeric = (no_flags (nf_option form ptr) AND 2 \<noteq> 0),
                 choices = (case sel of Some (cs, _) \<Rightarrow> cs | None \<Rightarrow> [])\<rparr>]"
        "cl_options c' = cl_options c @ [ptr]"
        "cl_bindings c' = (case sel of
                Some (_, native) \<Rightarrow> (name, native) # cl_bindings c | None \<Rightarrow> cl_bindings c)"
      using r True False k by (auto simp: read_option_def rbind_Inr_iff split: if_splits)
    have fresh: "name \<notin> fd_name ` set (cl_fields c)" using n(2) by (auto simp: list_ex_iff)
    have old: "field_fits form (cl_bindings c') x" if "x \<in> set (zip (cl_fields c) (cl_options c))" for x
    proof -
      have "fd_name (fst x) \<noteq> name" using fresh set_zip_leftD [of "fst x" "snd x"] that by fastforce
      moreover have "field_fits form (cl_bindings c) x" using c that by (simp add: collected_ok_def)
      ultimately show ?thesis using c'(3) by (auto intro: field_fits_other split: option.splits prod.splits)
    qed
    have kind3: "k = SelectField \<longleftrightarrow> no_type (nf_option form ptr) = 3"
      "k = PasswordField \<longleftrightarrow> no_type (nf_option form ptr) = 2"
      using k by (auto simp: field_kind_def split: if_splits)
    have new: "field_fits form (cl_bindings c') (last (cl_fields c'), ptr)"
      using s c' kind3 ptr
      by (auto simp: field_fits_def rbind_Inr_iff dest: choice_ids_length
          split: if_splits option.splits prod.splits)
    show ?thesis
      using c old new c' fresh
      by (auto simp: collected_ok_def zip_append)
  qed
qed

lemma read_options_ok:
  "collected_ok form c \<Longrightarrow> read_options p form ptr seen c = Inr c' \<Longrightarrow> collected_ok form c'"
proof (induction p form ptr seen c rule: read_options.induct)
  case (1 p form ptr seen c)
  from 1(3) show ?case
    by (subst (asm) read_options.simps)
      (use 1(1,2) in \<open>auto simp: Let_def rbind_Inr_iff split: if_splits intro: read_option_ok\<close>)
qed

lemma zip_choose:
  assumes "collected_ok form c" and "position q (cl_options c) = Some i"
  shows "i < length (cl_fields c)" "i < length (cl_options c)" "q (cl_options c ! i)"
    "field_fits form (cl_bindings c) (cl_fields c ! i, cl_options c ! i)"
proof -
  show i: "i < length (cl_fields c)" "i < length (cl_options c)" "q (cl_options c ! i)"
    using position_Some [OF assms(2)] assms(1) by (auto simp: collected_ok_def)
  then have "(cl_fields c ! i, cl_options c ! i) \<in> set (zip (cl_fields c) (cl_options c))"
    by (force simp: set_zip)
  then show "field_fits form (cl_bindings c) (cl_fields c ! i, cl_options c ! i)"
    using assms(1) by (simp add: collected_ok_def)
qed

lemma no_panic_binding: "map_of bs name = Some ids \<Longrightarrow> no_panic (binding bs name)"
  by (simp add: binding_def no_panic_basic)

lemma binding_value: "map_of bs name = Some ids \<Longrightarrow> binding bs name m = (Done x, m') \<Longrightarrow> x = ids"
  by (simp add: binding_def io_return_def)

lemma no_panic_index: "i < length xs \<Longrightarrow> no_panic (index_io xs i)"
  by (simp add: index_io_def no_panic_basic)

text \<open>The contract of the library on a form: the option of its group, if it has one, is a selection.\<close>

definition group_is_selection :: "native_form \<Rightarrow> bool" where
  "group_is_selection form \<longleftrightarrow> nf_group form = 0 \<or> no_type (nf_option form (nf_group form)) = 3"

lemma no_panic_group:
  assumes "collected_ok form c" and "group_is_selection form"
  shows "no_panic (choose_group N form c)"
proof (cases "position ((=) (nf_group form)) (cl_options c)")
  case None
  then show ?thesis by (simp add: choose_group_def Let_def no_panic_rules)
next
  case (Some i)
  note z = zip_choose [OF assms(1) Some]
  obtain ids where ids: "map_of (cl_bindings c) (fd_name (cl_fields c ! i)) = Some ids"
    "length ids = length (choices (cl_fields c ! i))"
    using z(3,4) assms(2) by (auto simp: field_fits_def group_is_selection_def)
  show ?thesis
    unfolding choose_group_def Let_def Some option.case
    by (intro no_panic_bind no_panic_rules)
      (auto intro!: no_panic_bind no_panic_rules no_panic_binding [OF ids(1)] no_panic_index
        split: option.splits prod.splits
        dest!: lifted got binding_value [OF ids(1)] position_Some simp: ids(2) ok_or_Inr_iff)
qed

lemma no_panic_automatic:
  assumes "\<forall>x\<in>set xs. field_fits form bs x"
  shows "no_panic (automatic_answers p form selected bs xs)"
  using assms
proof (induction xs)
  case (Cons x xs)
  have "no_panic (automatic_answer p form selected bs x)"
  proof (cases "kind (fst x) = SelectField")
    case True
    then obtain ids where "map_of bs (fd_name (fst x)) = Some ids"
      using Cons.prems by (auto simp: field_fits_def)
    then show ?thesis
      by (auto simp: automatic_answer_def Let_def split: prod.splits option.splits
          intro!: no_panic_rules no_panic_bind no_panic_binding)
  qed (auto simp: automatic_answer_def Let_def no_panic_rules split: prod.splits)
  then show ?case
    using Cons by (auto intro!: no_panic_bind no_panic_rules)
qed (simp add: no_panic_rules)

lemma no_panic_reply: "no_panic (obtain_reply X prompt generated automatic)"
  unfolding obtain_reply_def Let_def
  by (intro no_panic_if no_panic_bind no_panic_rules)
    (auto intro!: no_panic_if no_panic_bind no_panic_rules split: auth_response.splits)

lemma no_panic_apply:
  assumes "\<forall>x\<in>set xs. field_fits form bs x"
  shows "no_panic (apply_answers N form bs as xs)"
  using assms
proof (induction xs)
  case (Cons x xs)
  obtain f ptr where x: "x = (f, ptr)" by (cases x)
  have IH: "no_panic (apply_answers N form bs as xs)" using Cons by simp
  have pick: "no_panic (case selection of
                Some i \<Rightarrow> io_bind (binding bs (fd_name f)) (\<lambda>native. index_io native i)
              | None \<Rightarrow> io_return answer)"
    if s: "(if kind f = SelectField
              then io_lift (rbind (ok_or auth_stale (position (\<lambda>c. ch_id c = answer) (choices f)))
                              (\<lambda>i. Inr (Some i)))
              else io_return None) m = (Done selection, m')" for answer selection m m'
  proof (cases selection)
    case (Some i)
    then have k: "kind f = SelectField" and "i < length (choices f)"
      using s by (auto simp: rbind_Inr_iff ok_or_Inr_iff io_return_def dest!: lifted position_Some
          split: if_splits)
    moreover obtain ids where ids: "map_of bs (fd_name f) = Some ids" "length ids = length (choices f)"
      using Cons.prems k x by (auto simp: field_fits_def)
    ultimately show ?thesis
      using Some by (auto intro!: no_panic_bind no_panic_binding no_panic_index
          dest!: binding_value [OF ids(1)])
  qed (simp add: no_panic_rules)
  show ?case
    unfolding x apply_answers.simps
    by (intro no_panic_bind no_panic_if no_panic_rules IH) (erule pick | rule no_panic_rules)+
qed (simp add: no_panic_rules)

lemma no_panic_answer:
  assumes "\<forall>x\<in>set (zip fs opts). field_fits form (cl_bindings c) x"
  shows "no_panic (answer_form X N form head c fs opts)"
  unfolding answer_form_def Let_def
  by (intro no_panic_bind no_panic_rules)
    (auto intro!: no_panic_bind no_panic_rules no_panic_automatic no_panic_reply no_panic_apply assms
      split: option.splits prod.splits)

lemma chosen_fits:
  assumes "collected_ok form c" and "choose_group N form c m = (Done (Continue fs opts), m')"
  shows "\<forall>x\<in>set (zip fs opts). field_fits form (cl_bindings c) x"
proof (cases "position ((=) (nf_group form)) (cl_options c)")
  case None
  then show ?thesis
    using assms by (auto simp: choose_group_def Let_def io_return_def collected_ok_def)
next
  case (Some i)
  show ?thesis
    using assms zip_choose(4) [OF assms(1) Some] Some
    by (auto simp: choose_group_def Let_def io_defs collected_ok_def
        split: if_splits option.splits prod.splits sum.splits outcome.splits)
qed

text \<open>C18: no form of the server, however long, cyclic, duplicated or malformed, makes the callback
  panic: the selection that an answer names always has its native value, and the callback returns or
  fails with an error, in every state of the worker and whatever the other threads do. The library
  keeps its contract that the option of the group is a selection.\<close>

theorem form_never_panics:
  assumes "\<And>form. p = Some form \<Longrightarrow> group_is_selection form"
  shows "fst (form_callback X N i p m) \<noteq> Crashed"
proof -
  have "no_panic (form_callback X N i p)"
  proof (cases p)
    case None
    then show ?thesis
      unfolding form_callback_def
      by (auto intro!: no_panic_bind no_panic_if no_panic_rules dest: lifted)
  next
    case (Some form)
    have g: "group_is_selection form" using assms Some by simp
    show ?thesis
      unfolding form_callback_def Some
      by (intro no_panic_bind no_panic_if no_panic_rules)
        (auto dest!: lifted split: group_step.splits
          intro!: no_panic_bind no_panic_if no_panic_rules no_panic_group [OF _ g] no_panic_answer
          dest: chosen_fits read_options_ok [OF no_options_ok])
  qed
  then show ?thesis by (simp add: no_panic_def)
qed

theorem form_never_panics_witness:
  "fst (form_callback sample_crates sample_library 5 (Some sample_form) sample_signing) \<noteq> Crashed"
  by (rule form_never_panics)
    (simp add: group_is_selection_def sample_form_def sample_option_def)

end
