(* ===== verification/EngineTrust.thy ===== *)
theory EngineTrust
  imports EngineProps
begin

text \<open>
  What the authentication worker trusts: which calls of the library configure the trust of a
  pinned server, and when the certificate of a peer is accepted.
\<close>

section \<open>Traces\<close>

text \<open>Every call an operation makes satisfies \<open>P\<close>.\<close>

definition traces :: "(native_call \<Rightarrow> bool) \<Rightarrow> (('n, 'u) auth, 'a) io \<Rightarrow> bool" where
  "traces P f \<longleftrightarrow>
     (\<forall>m. \<exists>new. calls (snd (f m)) = calls m @ new \<and> (\<forall>c\<in>set new. P (fst c)))"

named_theorems traces_rules \<open>calls that operations make\<close>

lemma tracesD:
  assumes "traces P f" and "f m = (r, m')"
  obtains new where "calls m' = calls m @ new" and "\<forall>c\<in>set new. P (fst c)"
  using assms unfolding traces_def by (metis snd_conv)

lemma traces_bind [traces_rules]:
  assumes f: "traces P f" and g: "\<And>x. traces P (g x)"
  shows "traces P (io_bind f g)"
  unfolding traces_def
proof
  fix m
  obtain r m1 where fm: "f m = (r, m1)" by (cases "f m")
  obtain n1 where n1: "calls m1 = calls m @ n1" "\<forall>c\<in>set n1. P (fst c)"
    by (rule tracesD [OF f fm])
  show "\<exists>new. calls (snd (io_bind f g m)) = calls m @ new \<and> (\<forall>c\<in>set new. P (fst c))"
  proof (cases r)
    case (Done x)
    obtain n2 where "calls (snd (g x m1)) = calls m1 @ n2" "\<forall>c\<in>set n2. P (fst c)"
      by (rule tracesD [OF g surjective_pairing])
    then show ?thesis using n1 fm Done by (intro exI [of _ "n1 @ n2"]) (auto simp: io_bind_def)
  qed (use n1 fm in \<open>auto simp: io_bind_def\<close>)
qed

lemma traces_basic [traces_rules]:
  "traces P (io_return x)" "traces P (io_fail e)" "traces P (io_lift r)" "traces P (io_get h)"
  "traces P (query N q)"
  by (auto simp: traces_def io_return_def io_fail_def io_lift_def io_get_def query_def
      split: sum.splits)

lemma traces_call [traces_rules]: "P c \<Longrightarrow> traces P (call N c)"
  by (auto simp: traces_def call_def split: prod.splits)

lemma traces_modify: "(\<And>m. calls (u m) = calls m) \<Longrightarrow> traces P (io_modify u)"
  by (auto simp: traces_def io_modify_def)

lemma traces_if [traces_rules]:
  "(b \<Longrightarrow> traces P f) \<Longrightarrow> (\<not> b \<Longrightarrow> traces P g) \<Longrightarrow> traces P (if b then f else g)"
  by simp

lemma traces_option [traces_rules]:
  "traces P f \<Longrightarrow> (\<And>x. traces P (g x)) \<Longrightarrow> traces P (case v of None \<Rightarrow> f | Some x \<Rightarrow> g x)"
  by (cases v) auto

section \<open>The trust of a pinned server\<close>

definition no_trust_call :: "native_call \<Rightarrow> bool" where
  "no_trust_call c \<longleftrightarrow> (\<forall>b f. c \<noteq> SetSystemTrust b \<and> c \<noteq> SetCafile f)"

lemma traces_set_text [traces_rules]:
  "(\<And>v. P (c v)) \<Longrightarrow> traces P (set_text N c value operation)"
  "(\<And>v. P (c v)) \<Longrightarrow> traces P (set_optional N c v' operation)"
  "P d \<Longrightarrow> traces P (checked_call N d operation)"
  unfolding set_text_def set_optional_def checked_call_def
  by (intro traces_rules | simp split: option.splits)+

lemma traces_certificate [traces_rules]:
  "(\<And>a b. P (c a b)) \<Longrightarrow> P HasPkcs11Support \<Longrightarrow> traces P (set_certificate N c cert key)"
  unfolding set_certificate_def by (intro traces_rules) simp_all

lemma traces_token [traces_rules]: "traces no_trust_call (set_token N t secret)"
  unfolding set_token_def token_supported_def
  by (intro traces_rules) (auto simp: no_trust_call_def split: token_mode.splits intro!: traces_rules)

lemma traces_proxy [traces_rules]: "traces no_trust_call (set_proxy X N J u c)"
  unfolding set_proxy_def by (intro traces_rules) (simp add: no_trust_call_def)

lemma set_text_Done:
  assumes "set_text N c v operation m = (Done x, m')"
  shows "\<exists>r. calls m' = calls m @ [(c (v @ [nul]), r)]"
proof -
  obtain b m1 r m2 where "io_lift (cstring v) m = (Done b, m1)" "call N (c b) m1 = (Done r, m2)"
    and e: "io_lift (check_code r operation) m2 = (Done x, m')"
    using assms by (auto simp: set_text_def io_bind_Done)
  moreover have "m' = m2" using e by (auto simp: io_lift_def split: sum.splits)
  ultimately show ?thesis
    by (auto simp: io_lift_def cstring_def call_def split: sum.splits if_splits prod.splits)
qed

text \<open>C12: a server with a saved pin is trusted for that pin alone: the configuration turns the trust
of the system off exactly for the servers that have one, host and port, and then never sets a CA
file; for the others the system is trusted, and the CA file of the profile is added.\<close>

theorem pinned_server_trusts_pin_only:
  assumes "configure X N J m = (Done (), m')"
  shows "\<exists>new. calls m' = calls m @ new
    \<and> (\<exists>host. url_host X (target_url X N (w_profile m)) = Some host
      \<and> {b. \<exists>r. (SetSystemTrust b, r) \<in> set new}
          = {if is_strict X (target_url X N (w_profile m)) host (w_pins m) then 0 else 1}
      \<and> {f. \<exists>r. (SetCafile f, r) \<in> set new}
          = (if is_strict X (target_url X N (w_profile m)) host (w_pins m) then {}
             else case ca_file (w_profile m) of Some f \<Rightarrow> {f @ [nul]} | None \<Rightarrow> {}))"
proof -
  let ?p = "w_profile m" and ?s = "secrets m"
  let ?url = "target_url X N ?p"
  let ?strict = "\<lambda>host. is_strict X ?url host (w_pins m)"
  let ?ca = "\<lambda>host. if ?strict host then io_return ()
      else set_optional N SetCafile (ca_file ?p) ''configure CA file''"
  have rest: "traces no_trust_call (configure_options X N J ?p ?s)"
    unfolding configure_options_def by (intro traces_rules; simp add: no_trust_call_def)
  obtain m1 m2 m3 m4 m5 host x1 x2 x4 x5 where
    s1: "set_text N SetProtocol (pf_protocol ?p) ''select protocol'' m = (Done x1, m1)"
    and s2: "set_text N ParseUrl (url_as_str X ?url) ''parse server URL'' m1 = (Done x2, m2)"
    and s3: "io_lift (ok_or (invalid ''VPN server host is required'') (url_host X ?url)) m2 = (Done host, m3)"
    and s4: "call N (SetSystemTrust (if ?strict host then 0 else 1)) m3 = (Done x4, m4)"
    and s5: "?ca host m4 = (Done x5, m5)"
    and s6: "configure_options X N J ?p ?s m5 = (Done (), m')"
    using assms by (auto simp: configure_def Let_def io_bind_Done dest!: got)
  have host: "url_host X ?url = Some host" "m3 = m2"
    using s3 by (auto simp: io_lift_def ok_or_def split: option.splits sum.splits)
  have texts: "traces no_trust_call (set_text N SetProtocol v operation)"
    "traces no_trust_call (set_text N ParseUrl v operation)" for v operation
    by (intro traces_rules, simp add: no_trust_call_def)+
  obtain n1 where n1: "calls m1 = calls m @ n1" "\<forall>c\<in>set n1. no_trust_call (fst c)"
    by (rule tracesD [OF texts(1) s1])
  obtain n2 where n2: "calls m2 = calls m1 @ n2" "\<forall>c\<in>set n2. no_trust_call (fst c)"
    by (rule tracesD [OF texts(2) s2])
  have n4: "calls m4 = calls m3 @ [(SetSystemTrust (if ?strict host then 0 else 1), x4)]"
    using s4 by (auto simp: call_def split: prod.splits)
  obtain n5 where n5: "calls m5 = calls m4 @ n5"
    "{f. \<exists>r. (SetCafile f, r) \<in> set n5} = (if ?strict host then {}
             else case ca_file ?p of Some f \<Rightarrow> {f @ [nul]} | None \<Rightarrow> {})"
    "\<forall>b r. (SetSystemTrust b, r) \<notin> set n5"
  proof (cases "?strict host \<or> ca_file ?p = None")
    case True
    then show ?thesis using s5 that [of "[]"]
      by (auto simp: set_optional_def io_return_def split: if_splits)
  next
    case False
    then obtain f where f: "ca_file ?p = Some f" by auto
    with False s5 have "set_text N SetCafile f ''configure CA file'' m4 = (Done x5, m5)"
      by (simp add: set_optional_def)
    then obtain r where "calls m5 = calls m4 @ [(SetCafile (f @ [nul]), r)]"
      using set_text_Done by blast
    then show ?thesis using that [of "[(SetCafile (f @ [nul]), r)]"] False f by auto
  qed
  obtain n6 where n6: "calls m' = calls m5 @ n6" "\<forall>c\<in>set n6. no_trust_call (fst c)"
    by (rule tracesD [OF rest s6])
  have "calls m' = calls m @ (n1 @ n2 @ [(SetSystemTrust (if ?strict host then 0 else 1), x4)] @ n5 @ n6)"
    using n1(1) n2(1) n4 n5(1) n6(1) host(2) by simp
  moreover have "{b. \<exists>r. (SetSystemTrust b, r) \<in> set (n1 @ n2 @ [(SetSystemTrust (if ?strict host then 0 else 1), x4)] @ n5 @ n6)}
      = {if ?strict host then 0 else 1}"
    using n1(2) n2(2) n5(3) n6(2) by (fastforce simp: no_trust_call_def)
  moreover have "{f. \<exists>r. (SetCafile f, r) \<in> set (n1 @ n2 @ [(SetSystemTrust (if ?strict host then 0 else 1), x4)] @ n5 @ n6)}
      = {f. \<exists>r. (SetCafile f, r) \<in> set n5}"
    using n1(2) n2(2) n6(2) by (fastforce simp: no_trust_call_def)
  ultimately show ?thesis using host(1) n5(2) by blast
qed

theorem pinned_server_trusts_pin_only_witness:
  "{b. \<exists>r. (SetSystemTrust b, r) \<in> set (calls sample_configured)} = {0}"
proof -
  let ?c = "configure sample_crates sample_library (\<lambda>_. None)"
  have "?c (sample_auth []) = (Done (), sample_configured)"
    using sample_configure by (cases "?c (sample_auth [])") (simp add: sample_configured_def)
  from pinned_server_trusts_pin_only [OF this] obtain host where
    h: "url_host sample_crates (target_url sample_crates sample_library (w_profile (sample_auth []))) = Some host"
    and t: "{b. \<exists>r. (SetSystemTrust b, r) \<in> set (calls sample_configured)} = {if is_strict sample_crates
        (target_url sample_crates sample_library (w_profile (sample_auth []))) host (w_pins (sample_auth [])) then 0 else 1}"
    by (auto simp: sample_auth_def)
  have "host = ''vpn.example''"
    using h by (simp add: sample_auth_def target_url_def sample_profile_def profile_new_def sample_crates_def)
  then show ?thesis
    using t by (simp add: is_strict_def sample_auth_def sample_pin_def known_port_def sample_crates_def)
qed

end
