(* ===== verification/EngineConsent.thy ===== *)
theory EngineConsent
  imports EngineTrust
begin

text \<open>
  Who decides about a certificate: the callback accepts a peer for a pin, because there is nothing to
  object to, or because someone answered this very prompt.
\<close>

section \<open>Where responses come from\<close>

fun act_reply :: "control_act \<Rightarrow> auth_response" where
  "act_reply (ActReply r) = RForm r"
| "act_reply (ActCertificate i d) = RCertificate i d"
| "act_reply (ActBrowser i r) = RBrowser i r"
| "act_reply ActCancel = RCancel"
| "act_reply ActDrop = RCancel"

fun turn_replies :: "turn \<Rightarrow> auth_response set" where
  "turn_replies (Acts acts) = act_reply ` set acts"
| "turn_replies Lapse = {}"

text \<open>The responses that are queued or that other threads are yet to give.\<close>

definition replies :: "('n, 'u) auth \<Rightarrow> auth_response set" where
  "replies m = set (sh_queue (shared m)) \<union> (\<Union>t\<in>set (schedule m). turn_replies t)"

lemma send_response_replies:
  "set (sh_queue (snd (send_response r s))) \<subseteq> insert r (set (sh_queue s))"
  by (auto simp: send_response_def)

lemma control_step_replies:
  "set (sh_queue (snd (control_step X a s))) \<subseteq> insert (act_reply a) (set (sh_queue s))"
  by (cases a)
    (auto simp: form_reply_def certificate_reply_def browser_reply_def cancel_auth_def Let_def
      send_response_def split: option.splits auth_pending.splits sum.splits if_splits)

lemma act_all_replies:
  "set (sh_queue (act_all X acts s)) \<subseteq> act_reply ` set acts \<union> set (sh_queue s)"
proof (induction acts arbitrary: s)
  case (Cons a acts)
  then show ?case
    using Cons.IH [of "snd (control_step X a s)"] control_step_replies [of X a s]
    by (auto simp: act_all_def)
qed (simp add: act_all_def)

lemma others_replies: "replies (others X m) \<subseteq> replies m"
proof (cases "schedule m")
  case (Cons t ts)
  show ?thesis
  proof (cases t)
    case (Acts acts)
    then show ?thesis
      using act_all_replies [of X acts "shared m"] Cons by (auto simp: others_def replies_def)
  qed (simp add: others_def Cons)
qed (simp add: others_def)

lemma receive_during_replies:
  "receive_during X ts m = (Some r, m') \<Longrightarrow>
     r \<in> set (sh_queue (shared m)) \<union> (\<Union>t\<in>set ts. turn_replies t)
     \<and> replies m' \<subseteq> set (sh_queue (shared m)) \<union> (\<Union>t\<in>set ts. turn_replies t)"
proof (induction ts arbitrary: m)
  case Nil
  then show ?case
    by (subst (asm) receive_during.simps)
      (auto simp: pop_response_def replies_def on_shared_def split: list.splits)
next
  case (Cons t ts)
  show ?case
  proof (cases "pop_response m")
    case None
    then obtain acts where t: "t = Acts acts"
      and r: "receive_during X ts (on_shared (act_all X acts) m) = (Some r, m')"
      using Cons.prems by (subst (asm) receive_during.simps) (auto split: turn.splits)
    show ?thesis
      using Cons.IH [OF r] t act_all_replies [of X acts "shared m"] by (auto simp: on_shared_def)
  next
    case (Some p)
    then show ?thesis
      using Cons.prems
      by (subst (asm) receive_during.simps)
        (auto simp: pop_response_def replies_def on_shared_def split: list.splits)
  qed
qed

lemma receive_replies:
  "receive X m = (Some r, m') \<Longrightarrow> r \<in> replies m \<and> replies m' \<subseteq> replies m"
  using receive_during_replies [of X "schedule m" m r m'] by (simp add: receive_def replies_def)

lemma wait_for_reply: "wait_for X m = (Done r, m') \<Longrightarrow> r \<in> replies m"
proof (induction X m rule: wait_for.induct)
  case (1 X m)
  show ?case
  proof (cases "receive X (others X m)")
    case (Pair ro m2)
    show ?thesis
    proof (cases ro)
      case None
      with 1(2) Pair show ?thesis
        by (subst (asm) wait_for.simps) (auto simp: Let_def split: if_splits)
    next
      case (Some q)
      have q: "q \<in> replies m" "replies m2 \<subseteq> replies m"
        using receive_replies [of X "others X m" q m2] others_replies [of X m] Pair Some by auto
      show ?thesis
      proof (cases "r = q")
        case False
        with 1(2) Pair Some obtain i b where b: "q = RBrowser i b"
          and c: "\<not> sh_cancelled (shared (others X m))" "\<not> sh_cancelled (shared (others X m2))"
          and n: "\<not> browser_current i (others X (others X m2))"
          and w: "wait_for X (others X (others X m2)) = (Done r, m')"
          by (subst (asm) wait_for.simps)
            (auto simp: Let_def split: if_splits auth_response.splits)
        have "r \<in> replies (others X (others X m2))"
          by (rule 1(1) [OF refl c(1) Pair [symmetric] Some _ refl c(2) b refl n w])
            (use b in simp)
        then show ?thesis using others_replies q(2) by blast
      qed (use q in simp)
    qed
  qed
qed

section \<open>What waiting and checking leave alone\<close>

definition core ::
  "('n, 'u) auth \<Rightarrow> (native_call \<times> int) list \<times> 'u auth_event list \<times> certificate_pin list
     \<times> certificate_pin list \<times> uuid" where
  "core m = (calls m, sent m, accepted m, w_pins m, w_attempt m)"

text \<open>Only what the threads share, and the turns that pass.\<close>

definition kept where
  "kept m = (lib m, calls m, sent m, w_attempt m, w_profile m, w_pins m, accepted m, secrets m,
     failure_of m, password_used m, group_selected m, empty_forms m, gp_embedded_phases m)"

definition stirred :: "('n, 'u) auth \<Rightarrow> ('n, 'u) auth \<Rightarrow> bool" where
  "stirred m m' \<longleftrightarrow> kept m' = kept m"

lemma stirred_shared [simp]: "stirred m (on_shared f n) = stirred m n"
  by (simp add: stirred_def kept_def on_shared_def)

lemma stirred_schedule [simp]: "stirred m (n\<lparr>schedule := ts\<rparr>) = stirred m n"
  by (simp add: stirred_def kept_def)

lemma stirred_shared_update [simp]: "stirred m (n\<lparr>shared := s\<rparr>) = stirred m n"
  by (simp add: stirred_def kept_def)

lemma stirred_refl [simp]: "stirred m m"
  by (simp add: stirred_def)

lemma stirred_others [simp]: "stirred m (others X n) = stirred m n"
proof (cases "schedule n")
  case (Cons t ts)
  then show ?thesis by (cases t; simp add: others_def)
qed (simp add: others_def)

lemma pop_response_stirred: "pop_response m = Some (r, m') \<Longrightarrow> stirred n m' = stirred n m"
  by (auto simp: pop_response_def split: list.splits)

lemma stirred_receive: "stirred n (snd (receive_during X ts m)) = stirred n m"
proof (induction ts arbitrary: m)
  case Nil
  then show ?case
    by (cases "pop_response m")
      (simp_all add: receive_during.simps pop_response_stirred split: prod.splits)
next
  case (Cons t ts)
  show ?case
  proof (cases "pop_response m")
    case None
    then show ?thesis
      using Cons.IH by (subst receive_during.simps) (simp split: turn.splits)
  next
    case (Some p)
    then show ?thesis
      by (cases p) (simp add: receive_during.simps pop_response_stirred)
  qed
qed

lemma receive_stirred: "receive X m = (r, m') \<Longrightarrow> stirred n m' = stirred n m"
  using stirred_receive [of n X "schedule m" m] by (simp add: receive_def)

lemma wait_for_stirred: "stirred n (snd (wait_for X m)) = stirred n m"
proof (induction X m rule: wait_for.induct)
  case (1 X m)
  obtain ro m1 where r: "receive X (others X m) = (ro, m1)" by (cases "receive X (others X m)")
  have s: "stirred n m1 = stirred n m" using receive_stirred [OF r] by simp
  show ?case
  proof (cases "sh_cancelled (shared (others X m))")
    case True
    then show ?thesis by (subst wait_for.simps) (simp add: Let_def)
  next
    case False
    show ?thesis
    proof (cases ro)
      case None
      then show ?thesis using False r s by (subst wait_for.simps) (simp add: Let_def)
    next
      case (Some q)
      show ?thesis
      proof (cases "q = RCancel \<or> sh_cancelled (shared (others X m1))")
        case True
        then show ?thesis using False r s Some by (subst wait_for.simps) (auto simp: Let_def)
      next
        case go: False
        show ?thesis
        proof (cases q)
          case (RBrowser i b)
          show ?thesis
          proof (cases "browser_current i (others X (others X m1))")
            case True
            then show ?thesis using False go r s Some RBrowser by (subst wait_for.simps) (simp add: Let_def)
          next
            case old: False
            have "stirred n (snd (wait_for X (others X (others X m1)))) = stirred n (others X (others X m1))"
              by (rule 1 [OF refl False r [symmetric] Some _ refl _ RBrowser refl old]) (use go in auto)
            moreover have "wait_for X m = wait_for X (others X (others X m1))"
              using False go r Some RBrowser old by (subst wait_for.simps) (simp add: Let_def)
            ultimately show ?thesis using s by simp
          qed
        qed (use False go r s Some in \<open>subst wait_for.simps, simp add: Let_def\<close>)+
      qed
    qed
  qed
qed

lemma stirred_wait: "stirred m (snd (wait_for X m))"
  by (simp add: wait_for_stirred)

lemma core_stirred: "stirred m m' \<Longrightarrow> core m' = core m"
  by (simp add: stirred_def kept_def core_def)

lemma core_others [simp]: "core (others X m) = core m"
  by (rule core_stirred) simp

lemma wait_for_core: "core (snd (wait_for X m)) = core m"
  by (rule core_stirred) (rule stirred_wait)

lemma any_pin_matches_step:
  assumes "any_pin_matches N (p # ps) m = (Done b, m')"
  obtains r m2 where "call N (CheckPeerCertHash (pin_fingerprint p @ [nul])) m = (Done r, m2)"
    "if r = 0 then b \<and> m' = m2 else any_pin_matches N ps m2 = (Done b, m')"
proof -
  obtain h r m1 m2 where h: "io_lift (cstring (pin_fingerprint p)) m = (Done h, m1)"
    and r: "call N (CheckPeerCertHash h) m1 = (Done r, m2)"
    and k: "(if r = 0 then io_return True else any_pin_matches N ps) m2 = (Done b, m')"
    using assms by (auto simp: io_bind_Done)
  have "m1 = m" "h = pin_fingerprint p @ [nul]"
    using h by (auto simp: io_lift_def cstring_def split: sum.splits if_splits)
  then show thesis using that [of r m2] r k by (auto simp: io_return_def split: if_splits)
qed

lemma any_pin_matches_Done:
  assumes "any_pin_matches N ps m = (Done b, m')"
  shows "\<exists>new. core m' = (calls m @ new, sent m, accepted m, w_pins m, w_attempt m)
    \<and> (b \<longrightarrow> (\<exists>p\<in>set ps. (CheckPeerCertHash (pin_fingerprint p @ [nul]), 0) \<in> set new))"
  using assms
proof (induction ps arbitrary: m)
  case Nil
  then show ?case by (auto simp: io_return_def core_def)
next
  case (Cons p ps)
  obtain r m2 where r: "call N (CheckPeerCertHash (pin_fingerprint p @ [nul])) m = (Done r, m2)"
    and rest: "if r = 0 then b \<and> m' = m2 else any_pin_matches N ps m2 = (Done b, m')"
    by (rule any_pin_matches_step [OF Cons.prems])
  let ?c = "CheckPeerCertHash (pin_fingerprint p @ [nul])"
  have m2: "core m2 = (calls m @ [(?c, r)], sent m, accepted m, w_pins m, w_attempt m)"
    using r by (auto simp: call_def core_def split: prod.splits)
  show ?case
  proof (cases "r = 0")
    case True
    then show ?thesis using rest m2 by (auto simp: core_def)
  next
    case False
    then obtain new where "core m' = (calls m2 @ new, sent m2, accepted m2, w_pins m2, w_attempt m2)"
      "b \<longrightarrow> (\<exists>p\<in>set ps. (CheckPeerCertHash (pin_fingerprint p @ [nul]), 0) \<in> set new)"
      using Cons.IH [of m2] rest by auto
    then show ?thesis
      using m2 by (intro exI [of _ "(?c, r) # new"]) (auto simp: core_def)
  qed
qed

lemma any_pin_matches_replies: "any_pin_matches N ps m = (Done b, m') \<Longrightarrow> replies m' = replies m"
proof (induction ps arbitrary: m)
  case (Cons p ps)
  obtain r m2 where r: "call N (CheckPeerCertHash (pin_fingerprint p @ [nul])) m = (Done r, m2)"
    and k: "if r = 0 then b \<and> m' = m2 else any_pin_matches N ps m2 = (Done b, m')"
    by (rule any_pin_matches_step [OF Cons.prems])
  have "replies m2 = replies m" using r by (auto simp: call_def replies_def split: prod.splits)
  then show ?case using k Cons.IH [of m2] by (auto split: if_splits)
qed (simp add: io_return_def)

lemma ask_certificate_Done:
  assumes "ask_certificate X scope prompt m = (Done c, m')"
  shows "c = 0 \<and> core m' = (calls m, sent m @ [EvCertificate prompt], accepted m @ [scope], w_pins m, w_attempt m)
    \<and> (\<exists>d. RCertificate (cp_prompt_id prompt) d \<in> replies m \<and> d \<noteq> RejectCertificate)"
proof -
  obtain m1 m2 m3 r where p: "set_pending (Some (PCertificate (cp_prompt_id prompt))) m = (Done (), m1)"
    and e: "send_event (EvCertificate prompt) m1 = (Done (), m2)"
    and w: "wait_for X m2 = (Done r, m3)"
    and k: "(case r of
       RCertificate i decision \<Rightarrow>
         if i \<noteq> cp_prompt_id prompt then io_fail auth_stale
         else if decision = RejectCertificate
         then io_fail (new_error CertificateRejected ''Peer certificate was rejected'')
         else
         io_bind (io_get (\<lambda>m. length (accepted m))) (\<lambda>n.
         if n \<ge> 256
         then io_fail (new_error CertificateRejected
                ''Too many distinct authentication certificate peers'')
         else io_bind (io_modify (\<lambda>m. m\<lparr>accepted := accepted m @ [scope]\<rparr>)) (\<lambda>_. io_return 0))
     | _ \<Rightarrow> io_fail auth_stale) m3 = (Done c, m')"
    using assms unfolding ask_certificate_def by (auto simp: io_bind_Done)
  obtain i d where r: "r = RCertificate i d" using k by (cases r) (auto simp: io_fail_def)
  have i: "i = cp_prompt_id prompt" "d \<noteq> RejectCertificate"
    and c: "c = 0" "core m' = (calls m3, sent m3, accepted m3 @ [scope], w_pins m3, w_attempt m3)"
    using k unfolding r by (auto simp: io_defs io_modify_def core_def split: if_splits)
  have m2: "core m2 = (calls m, sent m @ [EvCertificate prompt], accepted m, w_pins m, w_attempt m)"
    "replies m2 = replies m"
    using p e by (auto simp: set_pending_def send_event_def io_defs io_modify_def on_shared_def core_def
        replies_def split: if_splits)
  have "core m3 = core m2" using wait_for_core [of X m2] w by simp
  moreover have "RCertificate i d \<in> replies m" using wait_for_reply [OF w] m2(2) r by simp
  ultimately show ?thesis using c m2 i by (auto simp: core_def)
qed

lemma peer_scope_Done:
  assumes "peer_scope X N m = (Done scope, m')"
  shows "\<exists>q l. core m' = (calls m @ [(GetPort, q)], sent m, accepted m, w_pins m, w_attempt m)
    \<and> replies m' = replies m \<and> native_text (oc_text N PeerCertHash l) = Inr (pin_fingerprint scope)"
proof -
  obtain host q m1 where "io_lift (native_text (oc_text N DnsName (lib m))) m = (Done host, m)"
    and q: "call N GetPort m = (Done q, m1)"
    and r: "(if q < 0 \<or> q > 65535
     then io_fail (new_error CertificateRejected ''Invalid certificate peer port'')
     else
     io_bind (query N PeerCertHash) (\<lambda>h.
     io_bind (io_lift (native_text h)) (\<lambda>fingerprint.
     io_lift (certificate_pin_new X host (of_int q) fingerprint)))) m1 = (Done scope, m')"
    using assms by (auto simp: peer_scope_def io_bind_Done query_def io_get_def io_lift_def split: sum.splits)
  obtain fp where fp: "native_text (oc_text N PeerCertHash (lib m1)) = Inr fp"
    and s: "certificate_pin_new X host (of_int q) fp = Inr scope" and m': "m' = m1"
    using r by (auto simp: io_bind_Done query_def io_get_def io_lift_def io_fail_def
        split: sum.splits if_splits)
  have "pin_fingerprint scope = fp"
    using s by (auto simp: certificate_pin_new_def result_simps split: if_splits)
  then show ?thesis
    using q fp m' by (auto simp: call_def core_def replies_def split: prod.splits)
qed

lemma judge_certificate_Done:
  assumes "judge_certificate X N i reason scope m = (Done c, m')"
  shows "c = 0 \<and> (\<exists>new. calls m' = calls m @ new
    \<and> ((\<exists>p\<in>set (accepted m @ w_pins m). in_scope scope p
           \<and> (CheckPeerCertHash (pin_fingerprint p @ [nul]), 0) \<in> set new)
         \<and> sent m' = sent m \<and> accepted m' = accepted m
       \<or> reason = None \<and> filter (in_scope scope) (w_pins m) = []
         \<and> sent m' = sent m \<and> accepted m' = accepted m
       \<or> (\<exists>prompt d. sent m' = sent m @ [EvCertificate prompt] \<and> cp_prompt_id prompt = i
            \<and> cp_fingerprint prompt = pin_fingerprint scope
            \<and> (changed_pin prompt = (filter (in_scope scope) (w_pins m) \<noteq> []))
            \<and> RCertificate i d \<in> replies m \<and> d \<noteq> RejectCertificate
            \<and> accepted m' = accepted m @ [scope])))"
proof -
  let ?saved = "filter (in_scope scope) (w_pins m)"
  obtain seen m1 where a: "any_pin_matches N (filter (in_scope scope) (accepted m)) m = (Done seen, m1)"
    and r: "(if seen then io_return 0
     else
     io_bind (io_get (\<lambda>m. filter (in_scope scope) (w_pins m))) (\<lambda>saved.
     io_bind (any_pin_matches N saved) (\<lambda>pinned.
     if pinned then io_return 0
     else if reason = None \<and> saved = [] then io_return 0
     else
     io_bind (query N PeerCertDetails) (\<lambda>t.
     io_bind (io_get w_attempt) (\<lambda>attempt.
     io_bind (io_lift (certificate_texts (saved \<noteq> []) reason t)) (\<lambda>(why, details).
     ask_certificate X scope
       \<lparr>cp_prompt_id = i, cp_attempt_id = attempt, cp_host = pin_host scope,
        cp_port = pin_port scope, cp_reason = why, cp_details = details,
        cp_fingerprint = pin_fingerprint scope, changed_pin = (saved \<noteq> [])\<rparr>)))))) m1 = (Done c, m')"
    using assms unfolding judge_certificate_def by (auto simp only: io_bind_Done dest!: got)
  obtain n1 where m1: "core m1 = (calls m @ n1, sent m, accepted m, w_pins m, w_attempt m)"
    and n1: "seen \<longrightarrow> (\<exists>p\<in>set (filter (in_scope scope) (accepted m)).
        (CheckPeerCertHash (pin_fingerprint p @ [nul]), 0) \<in> set n1)"
    using any_pin_matches_Done [OF a] by blast
  have q1: "replies m1 = replies m" by (rule any_pin_matches_replies [OF a])
  show ?thesis
  proof (cases seen)
    case True
    then show ?thesis
      using r m1 n1 by (intro conjI exI [of _ n1]) (auto simp: io_return_def core_def)
  next
    case False
    have w: "w_pins m1 = w_pins m" using m1 by (simp add: core_def)
    obtain pinned m2 where p: "any_pin_matches N ?saved m1 = (Done pinned, m2)"
      and r2: "(if pinned then io_return 0
     else if reason = None \<and> ?saved = [] then io_return 0
     else
     io_bind (query N PeerCertDetails) (\<lambda>t.
     io_bind (io_get w_attempt) (\<lambda>attempt.
     io_bind (io_lift (certificate_texts (?saved \<noteq> []) reason t)) (\<lambda>(why, details).
     ask_certificate X scope
       \<lparr>cp_prompt_id = i, cp_attempt_id = attempt, cp_host = pin_host scope,
        cp_port = pin_port scope, cp_reason = why, cp_details = details,
        cp_fingerprint = pin_fingerprint scope, changed_pin = (?saved \<noteq> [])\<rparr>)))) m2 = (Done c, m')"
      using r False w by (auto simp only: io_bind_Done if_False dest!: got)
    obtain n2 where m2: "core m2 = (calls m1 @ n2, sent m1, accepted m1, w_pins m1, w_attempt m1)"
      and n2: "pinned \<longrightarrow> (\<exists>p\<in>set ?saved. (CheckPeerCertHash (pin_fingerprint p @ [nul]), 0) \<in> set n2)"
      using any_pin_matches_Done [OF p] by blast
    have q2: "replies m2 = replies m" using any_pin_matches_replies [OF p] q1 by simp
    show ?thesis
    proof (cases "pinned \<or> reason = None \<and> ?saved = []")
      case True
      then show ?thesis
        using r2 m1 m2 n2
        by (intro conjI exI [of _ "n1 @ n2"]) (auto simp: io_return_def core_def split: if_splits)
    next
      case no: False
      obtain attempt why info where k: "ask_certificate X scope
       \<lparr>cp_prompt_id = i, cp_attempt_id = attempt, cp_host = pin_host scope,
        cp_port = pin_port scope, cp_reason = why, cp_details = info,
        cp_fingerprint = pin_fingerprint scope, changed_pin = (?saved \<noteq> [])\<rparr> m2 = (Done c, m')"
        using r2 no by (auto simp: io_bind_Done query_def io_get_def io_lift_def split: sum.splits)
      show ?thesis
        using ask_certificate_Done [OF k] m1 m2 q2
        by (intro conjI exI [of _ "n1 @ n2"]) (auto simp: core_def)
    qed
  qed
qed



end
