(* ===== verification/EngineOnce.thy ===== *)
theory EngineOnce
  imports EngineConsent
begin

text \<open>
  What the worker cannot go back on: a saved password that was used is gone, and a callback that
  failed keeps the attempt from succeeding.
\<close>

section \<open>What only grows\<close>

definition spent :: "('n, 'u) auth \<Rightarrow> bool" where
  "spent m \<longleftrightarrow> password_used m \<and> password (secrets m) = None"

definition later :: "('n, 'u) auth \<Rightarrow> ('n, 'u) auth \<Rightarrow> bool" where
  "later m m' \<longleftrightarrow>
     (failure_of m \<noteq> None \<longrightarrow> failure_of m' \<noteq> None) \<and> (spent m \<longrightarrow> spent m')"

lemma later_refl [simp]: "later m m"
  by (simp add: later_def)

lemma later_trans: "later m m1 \<Longrightarrow> later m1 m2 \<Longrightarrow> later m m2"
  by (auto simp: later_def)

lemma later_stirred: "stirred m m' \<Longrightarrow> later m m'"
  by (simp add: stirred_def kept_def later_def spent_def)

definition advances :: "(('n, 'u) auth, 'a) io \<Rightarrow> bool" where
  "advances f \<longleftrightarrow> (\<forall>m. later m (snd (f m)))"

named_theorems advances_rules \<open>operations after which what was spent or failed stays so\<close>

lemma advancesD: "advances f \<Longrightarrow> f m = (r, m') \<Longrightarrow> later m m'"
  by (metis advances_def snd_conv)

lemma advances_bind [advances_rules]:
  assumes "advances f" and "\<And>x. advances (g x)"
  shows "advances (io_bind f g)"
  unfolding advances_def
proof
  fix m
  obtain r m1 where f: "f m = (r, m1)" by (cases "f m")
  then show "later m (snd (io_bind f g m))"
    using assms advancesD [OF assms(1) f]
    by (cases r) (auto simp: io_bind_def advances_def intro: later_trans)
qed

lemma advances_basic [advances_rules]:
  "advances (io_return x)" "advances (io_fail e)" "advances (io_lift r)" "advances (io_get h)"
  "advances (query N q)" "advances (binding bs name)" "advances (index_io xs i)" "advances io_panic"
  by (auto simp: advances_def io_return_def io_fail_def io_lift_def io_get_def query_def binding_def
      index_io_def io_panic_def split: sum.splits option.splits)

lemma advances_call [advances_rules]: "advances (call N c)" "advances (in_lib f)"
  by (auto simp: advances_def call_def in_lib_def later_def spent_def split: prod.splits)

lemma advances_modify [advances_rules]: "(\<And>m. later m (u m)) \<Longrightarrow> advances (io_modify u)"
  by (simp add: advances_def io_modify_def)

lemma advances_if [advances_rules]:
  "(b \<Longrightarrow> advances f) \<Longrightarrow> (\<not> b \<Longrightarrow> advances g) \<Longrightarrow> advances (if b then f else g)"
  by simp

lemma advances_option [advances_rules]:
  "advances f \<Longrightarrow> (\<And>x. advances (g x)) \<Longrightarrow> advances (case v of None \<Rightarrow> f | Some x \<Rightarrow> g x)"
  by (cases v) auto

lemma advances_pair [advances_rules]:
  "(\<And>a b. advances (g a b)) \<Longrightarrow> advances (case v of (a, b) \<Rightarrow> g a b)"
  by (cases v) auto

lemma advances_try [advances_rules]: "advances f \<Longrightarrow> advances (io_try f)"
  unfolding advances_def [of "io_try f"]
  by (auto simp: io_try_def split: prod.splits outcome.splits dest: advancesD)

lemma later_others [simp]: "later m (others X n) = later m n"
  using stirred_others [of n X n] by (auto simp: stirred_def kept_def later_def spent_def)

lemma later_shared [simp]: "later m (on_shared f n) = later m n"
  by (simp add: later_def spent_def on_shared_def)

lemma later_fields [simp]:
  "later m (n\<lparr>sent := s\<rparr>) = later m n" "later m (n\<lparr>accepted := a\<rparr>) = later m n"
  "later m (n\<lparr>group_selected := g\<rparr>) = later m n" "later m (n\<lparr>empty_forms := k\<rparr>) = later m n"
  "later m (n\<lparr>gp_embedded_phases := b\<rparr>) = later m n" "later m (n\<lparr>lib := l\<rparr>) = later m n"
  by (simp_all add: later_def spent_def)

lemma later_spend [simp]: "later m (spend_password m)" "spent (spend_password m)"
  by (simp_all add: later_def spent_def spend_password_def)

lemma advances_steps [advances_rules]:
  "advances (unless_cancelled X)" "advances (set_pending p)" "advances (send_event e)"
  unfolding unless_cancelled_def set_pending_def send_event_def
  by (intro advances_rules; simp)+

lemma advances_wait [advances_rules]: "advances (wait_for X)"
  by (simp add: advances_def later_stirred [OF stirred_wait])

section \<open>Every callback\<close>

lemma advances_group: "advances (choose_group N form c)"
  unfolding choose_group_def Let_def by (intro advances_rules; simp)

lemma advances_automatic: "advances (automatic_answers p form selected bs xs)"
proof (induction xs)
  case (Cons x xs)
  have "advances (automatic_answer p form selected bs x)"
    unfolding automatic_answer_def Let_def by (intro advances_rules)
  then show ?case using Cons by (auto intro!: advances_rules)
qed (simp add: advances_rules)

lemma advances_reply: "advances (obtain_reply X prompt generated automatic)"
  unfolding obtain_reply_def Let_def
  by (intro advances_rules; auto intro!: advances_rules split: auth_response.splits)

lemma advances_apply: "advances (apply_answers N form bs as xs)"
proof (induction xs)
  case (Cons x xs)
  obtain f ptr where x: "x = (f, ptr)" by (cases x)
  show ?case
    unfolding x apply_answers.simps by (intro advances_rules Cons; simp)
qed (simp add: advances_rules)

lemma advances_form: "advances (form_callback X N i p)"
  unfolding form_callback_def answer_form_def Let_def
  by (intro advances_rules; auto intro!: advances_rules advances_group advances_automatic
      advances_reply advances_apply split: group_step.splits)

lemma advances_pins: "advances (any_pin_matches N ps)"
  by (induction ps) (auto intro!: advances_rules)

lemma advances_certificate: "advances (certificate_callback X N i reason)"
  unfolding certificate_callback_def peer_scope_def judge_certificate_def ask_certificate_def
  by (intro advances_rules advances_pins; auto intro!: advances_rules split: auth_response.splits)

lemma advances_page: "advances (submit_page X N page origin)"
  unfolding submit_page_def by (intro advances_rules)

lemma advances_mode: "advances (gp_mode N)"
  unfolding gp_mode_def Let_def by (intro advances_rules; simp)

lemma advances_await: "advances (await_browser X N t origin k)"
  unfolding advances_def
proof
  fix m
  show "later m (snd (await_browser X N t origin k m))"
  proof (induction X N t origin k m rule: await_browser.induct)
    case (1 X N t origin k m)
    obtain w m1 where w: "wait_for X m = (w, m1)" by (cases "wait_for X m")
    have m1: "later m m1" by (rule advancesD [OF advances_wait w])
    have ends: "later m (snd (f m2))" if "later m m2" "advances f" for f :: "(_, int) io" and m2
      using that by (auto simp: advances_def intro: later_trans)
    have last: "advances (io_bind (set_pending None) (\<lambda>_. io_return 0) :: (_, int) io)"
      "advances (io_bind (set_pending None) (\<lambda>_. io_bind (send_event (EvBrowserFinished t)) (\<lambda>_. io_return 0)) :: (_, int) io)"
      by (intro advances_rules)+
    show ?case
    proof (cases "\<exists>i r. w = Done (RBrowser i r)")
      case False
      then show ?thesis
        using w m1 by (subst await_browser.simps) (auto split: outcome.splits auth_response.splits)
    next
      case True
      then obtain i r where r: "w = Done (RBrowser i r)" by blast
      show ?thesis
      proof (cases "i = t")
        case False
        have "later m1 (snd (await_browser X N t origin k m1))"
          by (rule 1(1) [OF w [symmetric] r refl False])
        then show ?thesis
          using False w r m1 by (subst await_browser.simps) (auto intro: later_trans)
      next
        case i: True
        show ?thesis
        proof (cases "\<exists>page. r = BrPage page \<and> k = Webview")
          case False
          then show ?thesis
            using i w r m1 ends [OF m1 last(1)]
            by (subst await_browser.simps) (auto split: browser_answer.splits)
        next
          case True
          then obtain page where page: "r = BrPage page" "k = Webview" by blast
          obtain s m2 where s: "submit_page X N page origin m1 = (s, m2)"
            by (cases "submit_page X N page origin m1")
          have m2: "later m m2" using advancesD [OF advances_page s] m1 by (rule later_trans [rotated])
          show ?thesis
          proof (cases "s = Done (oc_again N)")
            case True
            have "later m2 (snd (await_browser X N t origin k m2))"
              by (rule 1(2) [OF w [symmetric] r refl _ page s [symmetric] True refl]) (use i in auto)
            then show ?thesis
              using True i w r page s m2
              by (subst await_browser.simps) (auto intro: later_trans)
          next
            case False
            then show ?thesis
              using i w r page s m2 ends [OF m2 last(2)]
              by (subst await_browser.simps) (auto split: outcome.splits)
          qed
        qed
      qed
    qed
  qed
qed

lemma advances_browser: "advances (browser_callback X N i uri k)"
  unfolding browser_callback_def Let_def
  by (intro advances_rules advances_mode advances_await)

lemma advances_token: "advances (token_lock N)" "advances (token_unlock v)"
  unfolding token_lock_def token_unlock_def token_storage_def
  by (auto intro!: advances_rules split: sum.splits)

lemma advances_callback: "advances (callback_body X N c)"
  by (cases c) (simp_all add: advances_form advances_certificate advances_browser advances_token)

lemma later_noted: "later m m' \<Longrightarrow> later m (note_failure e m')"
  by (auto simp: later_def spent_def note_failure_def)

lemma later_run_callback: "later m (run_callback X N c m)"
proof -
  obtain r m' where r: "callback_body X N c m = (r, m')" by (cases "callback_body X N c m")
  show ?thesis
    using advancesD [OF advances_callback r] r
    by (cases r) (auto simp: run_callback_def contained_def intro: later_noted)
qed

lemma later_library_acts: "later m (library_acts X N acts m)"
proof (induction acts arbitrary: m)
  case (Cons a acts)
  have "later m (library_step X N a m)"
    by (cases a) (simp_all add: later_run_callback)
  then show ?case
    using Cons.IH [of "library_step X N a m"] by (auto simp: library_acts_def intro: later_trans)
qed (simp add: library_acts_def)

section \<open>The saved password\<close>

text \<open>A call that fills an option of the form in.\<close>

definition fills_password :: "native_form \<Rightarrow> native_call \<times> int \<Rightarrow> bool" where
  "fills_password form c \<longleftrightarrow>
     (case fst c of SetOptionValue ptr v \<Rightarrow> no_type (nf_option form ptr) = 2 | _ \<Rightarrow> False)"

text \<open>An operation that, when it returns, has filled no password in or has spent the saved one.\<close>

definition spends :: "native_form \<Rightarrow> (('n, 'u) auth, 'a) io \<Rightarrow> bool" where
  "spends form f \<longleftrightarrow> advances f \<and>
     (\<forall>m x m'. f m = (Done x, m') \<longrightarrow>
        (\<exists>new. calls m' = calls m @ new \<and> (spent m' \<or> (\<forall>c\<in>set new. \<not> fills_password form c))))"

lemma spendsD:
  assumes "spends form f" and "f m = (Done x, m')"
  shows "later m m' \<and>
    (\<exists>new. calls m' = calls m @ new \<and> (spent m' \<or> (\<forall>c\<in>set new. \<not> fills_password form c)))"
  using assms advancesD [of f m "Done x" m'] unfolding spends_def by blast

lemma spends_bind:
  assumes f: "spends form f" and g: "\<And>x m m'. f m = (Done x, m') \<Longrightarrow> spends form (g x)"
  shows "spends form (io_bind f g)"
  unfolding spends_def
proof (intro conjI allI impI)
  show "advances (io_bind f g)"
    unfolding advances_def
  proof
    fix m
    obtain r m1 where fm: "f m = (r, m1)" by (cases "f m")
    have l: "later m m1" using f fm by (auto simp: spends_def dest: advancesD)
    show "later m (snd (io_bind f g m))"
    proof (cases r)
      case (Done x)
      have "later m1 (snd (g x m1))" using g fm Done by (auto simp: spends_def advances_def)
      then show ?thesis using l fm Done by (auto simp: io_bind_def intro: later_trans)
    qed (use l fm in \<open>auto simp: io_bind_def\<close>)
  qed
next
  fix m x m' assume "io_bind f g m = (Done x, m')"
  then obtain y m1 where f1: "f m = (Done y, m1)" and g1: "g y m1 = (Done x, m')"
    by (auto simp: io_bind_Done)
  obtain n1 where n1: "calls m1 = calls m @ n1" "spent m1 \<or> (\<forall>c\<in>set n1. \<not> fills_password form c)"
    using spendsD [OF f f1] by blast
  obtain n2 where n2: "calls m' = calls m1 @ n2" "spent m' \<or> (\<forall>c\<in>set n2. \<not> fills_password form c)"
    and l: "later m1 m'"
    using spendsD [OF g [OF f1] g1] by blast
  show "\<exists>new. calls m' = calls m @ new \<and> (spent m' \<or> (\<forall>c\<in>set new. \<not> fills_password form c))"
    using n1 n2 l by (intro exI [of _ "n1 @ n2"]) (auto simp: later_def)
qed

lemma spends_quiet: "advances f \<Longrightarrow> traces (\<lambda>c. \<not> fills_password form (c, 0)) f \<Longrightarrow> spends form f"
  unfolding spends_def
proof (intro conjI allI impI)
  fix m x m'
  assume "traces (\<lambda>c. \<not> fills_password form (c, 0)) f" "f m = (Done x, m')"
  then obtain new where "calls m' = calls m @ new" "\<forall>c\<in>set new. \<not> fills_password form (fst c, 0)"
    by (rule tracesD)
  then show "\<exists>new. calls m' = calls m @ new \<and> (spent m' \<or> (\<forall>c\<in>set new. \<not> fills_password form c))"
    by (auto simp: fills_password_def)
qed

lemma traces_stirred: "(\<And>m. stirred m (snd (f m))) \<Longrightarrow> traces P f"
  by (auto simp: traces_def stirred_def kept_def)

lemma traces_steps [traces_rules]:
  "traces P (unless_cancelled X)" "traces P (set_pending p)" "traces P (send_event e)"
  "traces P (wait_for X)" "traces P (binding bs name)" "traces P (index_io xs i)"
  unfolding unless_cancelled_def set_pending_def send_event_def binding_def index_io_def io_panic_def
  by (intro traces_rules traces_stirred traces_modify;
      auto simp: stirred_wait traces_def io_return_def io_modify_def on_shared_def
        stirred_others [unfolded stirred_def kept_def] split: option.splits)+

lemma traces_select [traces_rules]:
  "traces P f \<Longrightarrow> (\<And>x. traces P (g x)) \<Longrightarrow> traces P (case v of Some x \<Rightarrow> g x | None \<Rightarrow> f)"
  by (cases v) auto

lemma traces_apply: "traces (\<lambda>_. True) (apply_answers N form bs as xs)"
proof (induction xs)
  case (Cons x xs)
  obtain f ptr where x: "x = (f, ptr)" by (cases x)
  show ?case
    unfolding x apply_answers.simps
    by (intro traces_rules traces_modify Cons; simp add: spend_password_def)
qed (simp add: traces_basic)

lemma spends_steps:
  "spends form (io_return x)" "spends form (io_fail e1)" "spends form (io_lift r)"
  "spends form (io_get h)" "spends form (query N q)" "spends form (binding bs name)"
  "spends form (index_io xs i)" "spends form (unless_cancelled X)" "spends form (set_pending p)"
  "spends form (send_event e)" "spends form (wait_for X)"
  by (intro spends_quiet advances_basic advances_steps advances_wait traces_basic traces_steps)+

lemma spends_call: "\<not> fills_password form (c, 0) \<Longrightarrow> spends form (call N c)"
  by (intro spends_quiet advances_call traces_call)

lemma spends_modify: "(\<And>m. later m (u m)) \<Longrightarrow> (\<And>m. calls (u m) = calls m) \<Longrightarrow> spends form (io_modify u)"
  by (intro spends_quiet advances_modify traces_modify)

lemma spends_if: "(b \<Longrightarrow> spends form f) \<Longrightarrow> (\<not> b \<Longrightarrow> spends form g) \<Longrightarrow> spends form (if b then f else g)"
  by simp

lemma spends_option:
  "spends form f \<Longrightarrow> (\<And>x. spends form (g x)) \<Longrightarrow> spends form (case v of Some x \<Rightarrow> g x | None \<Rightarrow> f)"
  by (cases v) auto

lemma spends_pair: "(\<And>a b. spends form (g a b)) \<Longrightarrow> spends form (case v of (a, b) \<Rightarrow> g a b)"
  by (cases v) auto

lemmas spends_rules = spends_bind spends_steps spends_call spends_modify spends_if spends_option spends_pair

lemma spends_apply:
  assumes "group_is_selection form" and "\<forall>x\<in>set xs. field_fits form bs x"
  shows "spends form (apply_answers N form bs as xs)"
  using assms(2)
proof (induction xs)
  case Nil
  then show ?case by (simp add: spends_quiet advances_basic traces_basic)
next
  case (Cons x xs)
  obtain f ptr where x: "x = (f, ptr)" by (cases x)
  have IH: "spends form (apply_answers N form bs as xs)" using Cons by simp
  have k: "kind f = PasswordField \<longleftrightarrow> no_type (nf_option form ptr) = 2"
    using Cons.prems x by (simp add: field_fits_def)
  show ?case
  proof (cases "kind f = PasswordField")
    case False
    then show ?thesis
      unfolding x apply_answers.simps
      by (intro spends_rules IH) (simp_all add: fills_password_def k [symmetric])
  next
    case True
    show ?thesis
      unfolding spends_def
    proof (intro conjI allI impI)
      show "advances (apply_answers N form bs as (x # xs))" by (rule advances_apply)
    next
      fix m r m' assume d: "apply_answers N form bs as (x # xs) m = (Done r, m')"
      have "ptr \<noteq> nf_group form"
        using assms(1) True k Cons.prems x by (auto simp: group_is_selection_def field_fits_def)
      then obtain m1 where "apply_answers N form bs as xs (spend_password m1) = (Done r, m')"
        using d True x by (auto simp: io_bind_Done io_modify_def)
      then have "later (spend_password m1) m'" by (rule advancesD [OF advances_apply])
      then have "spent m'" by (simp add: later_def)
      moreover obtain new where "calls m' = calls m @ new" by (rule tracesD [OF traces_apply d])
      ultimately show "\<exists>new. calls m' = calls m @ new
          \<and> (spent m' \<or> (\<forall>c\<in>set new. \<not> fills_password form c))" by blast
    qed
  qed
qed

lemma spends_group:
  assumes "collected_ok form c" and "group_is_selection form"
  shows "spends form (choose_group N form c)"
proof (cases "position ((=) (nf_group form)) (cl_options c)")
  case (Some i)
  note z = zip_choose [OF assms(1) Some]
  show ?thesis
    unfolding choose_group_def Let_def Some option.case
    using z(3,4) assms(2)
    by (intro spends_rules) (auto simp: fills_password_def group_is_selection_def field_fits_def)
qed (simp add: choose_group_def Let_def spends_steps)

lemma spends_automatic: "spends form (automatic_answers p frm selected bs xs)"
proof (induction xs)
  case (Cons x xs)
  have "spends form (automatic_answer p frm selected bs x)"
    unfolding automatic_answer_def Let_def by (intro spends_rules)
  then show ?case using Cons by (auto intro!: spends_rules)
qed (simp add: spends_steps)

lemma spends_reply: "spends form (obtain_reply X prompt generated automatic)"
  unfolding obtain_reply_def Let_def
  by (intro spends_rules; auto intro!: spends_rules split: auth_response.splits)

lemma spends_answer:
  assumes "\<forall>x\<in>set (zip fs opts). field_fits form (cl_bindings c) x" and "group_is_selection form"
  shows "spends form (answer_form X N form head c fs opts)"
  unfolding answer_form_def Let_def
  by (intro spends_rules spends_automatic spends_reply spends_apply assms)

lemma form_callback_spends:
  assumes g: "group_is_selection form"
  shows "spends form (form_callback X N i (Some form))"
proof -
  have start: "spends form (if ap_error head \<noteq> None then io_modify spend_password else io_return ())" for head
    by (intro spends_rules) (simp_all add: spend_password_def later_def spent_def)
  show ?thesis
    unfolding form_callback_def
    by (intro spends_bind spends_if spends_steps start)
      (auto dest!: lifted split: group_step.splits
        simp: ok_or_def intro!: spends_bind spends_if spends_steps start spends_group [OF _ g] spends_answer g
        dest: chosen_fits read_options_ok [OF no_options_ok])
qed

text \<open>C14: once a password field of a form has been filled in, the saved password is gone from the
worker, whatever the library and the other threads do after, or the attempt has failed and no later
form is answered at all. So a server that asks twice is never given the saved password twice.\<close>

theorem saved_password_used_once:
  assumes "group_is_selection form"
    and "calls (run_callback X N (CbForm i (Some form)) m) = calls m @ new"
    and "(SetOptionValue ptr v, r) \<in> set new" and "no_type (nf_option form ptr) = 2"
    and "m' = library_acts X N acts (run_callback X N (CbForm i (Some form)) m)"
  shows "password (secrets m') = None
    \<or> failure_of m' \<noteq> None \<and> (\<forall>j q. calls (run_callback X N (CbForm j q) m') = calls m')"
proof -
  let ?m1 = "run_callback X N (CbForm i (Some form)) m"
  obtain o1 n where n: "form_callback X N i (Some form) m = (o1, n)"
    by (cases "form_callback X N i (Some form) m")
  have "spent ?m1 \<or> failure_of ?m1 \<noteq> None"
  proof (cases o1)
    case (Done x)
    then have "?m1 = n" using n by (simp add: run_callback_def contained_def)
    moreover have "fills_password form (SetOptionValue ptr v, r)" using assms(4) by (simp add: fills_password_def)
    ultimately show ?thesis
      using spendsD [OF form_callback_spends [OF assms(1)] n [unfolded Done]] assms(2,3) by auto
  qed (use n in \<open>auto simp: run_callback_def contained_def note_failure_def\<close>)
  then have "spent m' \<or> failure_of m' \<noteq> None"
    using later_library_acts [of ?m1 X N acts] assms(5) by (auto simp: later_def)
  moreover have "calls (run_callback X N (CbForm j q) m') = calls m'" if "failure_of m' \<noteq> None" for j q
    using that by (simp add: run_callback_def contained_def form_callback_def io_defs note_failure_def)
  ultimately show ?thesis by (auto simp: spent_def)
qed

lemma sample_form_run:
  "calls (run_callback sample_crates sample_library (CbForm 5 (Some sample_form)) sample_signing)
      = calls sample_signing @ [(SetOptionValue 1 (''joe'' @ [nul]), 1), (SetOptionValue 2 (''secret'' @ [nul]), 1)]"
  using sample_form_answered
  by (cases "form_callback sample_crates sample_library 5 (Some sample_form) sample_signing")
    (simp add: run_callback_def contained_def sample_signing_def sample_auth_def)

lemma sample_form_unfailed:
  "failure_of (library_acts sample_crates sample_library [Moves id]
      (run_callback sample_crates sample_library (CbForm 5 (Some sample_form)) sample_signing)) = None"
  by code_simp

theorem saved_password_used_once_witness:
  "password (secrets (library_acts sample_crates sample_library [Moves id]
      (run_callback sample_crates sample_library (CbForm 5 (Some sample_form)) sample_signing))) = None"
proof -
  have "group_is_selection sample_form"
    by (simp add: group_is_selection_def sample_form_def sample_option_def)
  moreover have "(SetOptionValue 2 (''secret'' @ [nul]), 1)
      \<in> set [(SetOptionValue 1 (''joe'' @ [nul]), 1), (SetOptionValue 2 (''secret'' @ [nul]), 1)]" by simp
  moreover have "no_type (nf_option sample_form 2) = 2"
    by (simp add: sample_form_def sample_option_def)
  ultimately show ?thesis
    using saved_password_used_once [OF _ sample_form_run _ _ refl, of 2 "''secret'' @ [nul]" 1 "[Moves id]"]
      sample_form_unfailed by blast
qed

section \<open>A clean attempt\<close>

lemma library_acts_append:
  "library_acts X N (as @ bs) m = library_acts X N bs (library_acts X N as m)"
  by (simp add: library_acts_def)

lemma callback_returned:
  assumes "failure_of (library_acts X N acts m) = None" and "acts = as @ Calls c # bs"
  shows "\<exists>r m'. callback_body X N c (library_acts X N as m) = (Done r, m')"
proof -
  let ?m = "library_acts X N as m"
  obtain r m' where r: "callback_body X N c ?m = (r, m')" by (cases "callback_body X N c ?m")
  have "library_acts X N (as @ Calls c # bs) m = library_acts X N bs (run_callback X N c ?m)"
    by (simp add: library_acts_append) (simp add: library_acts_def)
  then have "failure_of (run_callback X N c ?m) = None"
    using later_library_acts [of "run_callback X N c ?m" X N bs] assms by (auto simp: later_def)
  then show ?thesis
    using r by (cases r) (auto simp: run_callback_def contained_def note_failure_def split: if_splits)
qed

lemma lift_passed: "io_lift r m = (Done x, m') \<Longrightarrow> r = Inr x \<and> m = m'"
  by (auto simp: io_lift_def split: sum.splits)


definition sample_attempt :: "(unit, string) auth" where
  "sample_attempt = sample_auth [Acts [], Acts [], Acts [ActReply sample_reply], Acts [], Acts []]"

definition sample_available :: "protocol_info list" where
  "sample_available =
     [\<lparr>pi_id = ''anyconnect'', pi_label = ''Cisco'', pi_description = ''d'', pi_flags = 0\<rparr>]"

definition sample_acts :: "unit library_act list" where
  "sample_acts = [Calls (CbForm 5 (Some sample_form)), Moves id]"

definition sample_run where
  "sample_run = run_worker sample_crates sample_library (\<lambda>_. None) sample_available 3 0
     sample_acts sample_attempt"

lemma sample_run_done: "case fst sample_run of Done h \<Rightarrow> True | _ \<Rightarrow> False"
  by code_simp


end
