(* ===== verification/GlobalProtect.thy ===== *)
theory GlobalProtect
  imports ErrorModel RustStrings
begin

text \<open>
  \<open>crates/client/src/globalprotect.rs\<close>: decoding what the GlobalProtect sign-in of a browser leaves
  behind. Reading XML is the crate \<open>quick_xml\<close> and base64 the crate \<open>base64\<close>: the argument
  \<open>gp_codec\<close>, which for a text and a number gives the event that the reader returns when it is asked
  for that many times before. Nothing is assumed of it, not even that a text ever ends.
\<close>

section \<open>Events\<close>

text \<open>A tag, with whether the input up to the position of the reader ends with \<open>/>\<close>, and the values
  of its attributes, None for one that is malformed.\<close>

record xml_tag =
  xt_name :: string
  xt_closed :: bool
  xt_attributes_raw :: string
  xt_attributes :: "string option list"

datatype xml_event =
    XStart xml_tag | XEnd string | XText string | XCData string | XRef string
  | XComment string | XDeclaration | XEof | XError

text \<open>A reference is malformed, names no character (None), or names one.\<close>

record gp_codec =
  xr_event :: "string \<Rightarrow> nat \<Rightarrow> xml_event"
  xr_char_ref :: "string \<Rightarrow> int option option"
  base64_decode :: "string \<Rightarrow> string option"

section \<open>Completions\<close>

record gp_completion =
  gc_username :: string
  gc_cookie_name :: string
  gc_cookie :: string

definition max_input :: int where
  "max_input = 1024 * 1024"

definition max_depth :: nat where
  "max_depth = 64"

definition max_events :: int where
  "max_events = 32768"

definition gp_fields :: "string list" where
  "gp_fields = [''saml-auth-status'', ''saml-username'', ''prelogin-cookie'', ''portal-userauthcookie'']"

definition malformed :: err where
  "malformed = new_error InvalidInput ''Invalid or excessive GlobalProtect completion data''"

definition unsupported_cas :: err where
  "unsupported_cas = new_error UnsupportedAuthentication
     ''GlobalProtect CAS token completion is not supported by the pinned OpenConnect SSO detector; use embedded authentication''"

definition not_successful :: err where
  "not_successful = new_error AuthenticationRejected
     ''GlobalProtect did not report successful SAML authentication''"

definition decode_callback :: "gp_codec \<Rightarrow> string \<Rightarrow> string result" where
  "decode_callback G input =
     (if len input > max_input then Inl malformed
      else rbind (ok_or malformed (strip_prefix ''globalprotectcallback:'' input)) (\<lambda>rest.
      let payload = trim_start_matches (CHR ''/'') rest in
      if starts_with ''cas-as'' payload then Inl unsupported_cas
      else if payload = [] then Inl malformed
      else rbind (ok_or malformed (base64_decode G payload)) (\<lambda>decoded.
      if utf8_valid decoded then Inr decoded else Inl malformed)))"

section \<open>Markup\<close>

definition xml_char :: "int \<Rightarrow> bool" where
  "xml_char c \<longleftrightarrow> c = 9 \<or> c = 10 \<or> c = 13 \<or> 0x20 \<le> c \<and> c \<le> 0xd7ff
     \<or> 0xe000 \<le> c \<and> c \<le> 0xfffd \<or> 0x10000 \<le> c \<and> c \<le> 0x10ffff"

definition html_void :: "string \<Rightarrow> bool" where
  "html_void name \<longleftrightarrow> list_ex (eq_ignore_ascii_case name)
     [''area'', ''base'', ''br'', ''col'', ''embed'', ''hr'', ''img'', ''input'', ''link'', ''meta'',
      ''param'', ''source'', ''track'', ''wbr'']"

definition predefined :: "string \<Rightarrow> int option" where
  "predefined name =
     map_of [(''amp'', 38), (''lt'', 60), (''gt'', 62), (''apos'', 39), (''quot'', 34)] name"

definition resolve :: "gp_codec \<Rightarrow> string \<Rightarrow> int result" where
  "resolve G reference =
     (case xr_char_ref G reference of
        None \<Rightarrow> Inl malformed
      | Some (Some c) \<Rightarrow> if xml_char c then Inr c else Inl malformed
      | Some None \<Rightarrow> ok_or malformed (predefined reference))"

text \<open>The loop of \<open>validate_attribute\<close> over the references of a value.\<close>

function check_references :: "gp_codec \<Rightarrow> string \<Rightarrow> unit result" where
  "check_references G rest =
     (case split_once (CHR ''&'') rest of
        None \<Rightarrow> Inr ()
      | Some (_, after) \<Rightarrow>
          (case split_once (CHR '';'') after of
             None \<Rightarrow> Inl malformed
           | Some (reference, rest') \<Rightarrow>
               rbind (resolve G reference) (\<lambda>_. check_references G rest')))"
  by pat_completeness auto

termination
  by (relation "measure (\<lambda>(G, rest). length rest)") (auto dest!: split_once_Some sym [of "Some _"])

declare check_references.simps [simp del]

definition validate_attribute :: "gp_codec \<Rightarrow> string option \<Rightarrow> unit result" where
  "validate_attribute G attribute =
     rbind (ok_or malformed attribute) (\<lambda>value.
     if \<not> utf8_valid value \<or> CHR ''<'' \<in> set value then Inl malformed
     else check_references G value)"

section \<open>One fragment\<close>

text \<open>The locals of \<open>parse_fragment\<close>: how much of the text has been read, the open elements, the
  field being read and the element whose content is ignored.\<close>

record gp_frame =
  fr_text :: string
  fr_next :: nat
  fr_outer :: nat
  fr_stack :: "string list"
  fr_active :: "nat option"
  fr_suppressed :: "nat option"

type_synonym gp_values = "string option list"

definition new_frame :: "string \<Rightarrow> nat \<Rightarrow> gp_frame" where
  "new_frame input outer = \<lparr>fr_text = input, fr_next = 0, fr_outer = outer, fr_stack = [],
     fr_active = None, fr_suppressed = None\<rparr>"

text \<open>For evaluation: the comparison stops at the first difference.\<close>

fun same_letters :: "string \<Rightarrow> string \<Rightarrow> bool" where
  "same_letters [] t = (t = [])"
| "same_letters (c # cs) t =
     (case t of
        [] \<Rightarrow> False
      | d # ds \<Rightarrow> if to_ascii_lowercase c = to_ascii_lowercase d then same_letters cs ds else False)"

lemma same_letters_code [code]: "eq_ignore_ascii_case s t = same_letters s t"
proof (induction s arbitrary: t)
  case (Cons c cs)
  then show ?case by (cases t) (auto simp: eq_ignore_ascii_case_def)
qed (auto simp: eq_ignore_ascii_case_def)

definition ignored_element :: "string \<Rightarrow> bool" where
  "ignored_element name \<longleftrightarrow>
     list_ex (eq_ignore_ascii_case name) [''script'', ''style'', ''template'', ''textarea'']"

definition open_element :: "xml_tag \<Rightarrow> gp_frame \<Rightarrow> gp_values \<Rightarrow> (gp_frame \<times> gp_values) result" where
  "open_element t f values =
     (let name = xt_name t in
      if fr_suppressed f \<noteq> None then Inr (f, values)
      else if ignored_element name
      then Inr (if xt_closed t then f else f\<lparr>fr_suppressed := Some (length (fr_stack f) + 1)\<rparr>, values)
      else if name = ''cas-as'' \<or> name = ''token'' then Inl unsupported_cas
      else case position ((=) name) gp_fields of
        None \<Rightarrow> Inr (f, values)
      | Some i \<Rightarrow>
          if values ! i \<noteq> None \<or> xt_attributes_raw t \<noteq> [] then Inl malformed
          else Inr (if xt_closed t then f else f\<lparr>fr_active := Some i\<rparr>, values[i := Some []]))"

definition start_tag :: "gp_codec \<Rightarrow> xml_tag \<Rightarrow> gp_frame \<Rightarrow> gp_values \<Rightarrow> (gp_frame \<times> gp_values) result" where
  "start_tag G t f values =
     (if fr_outer f + length (fr_stack f) + 1 > max_depth \<or> fr_active f \<noteq> None then Inl malformed
      else rbind (check_all (validate_attribute G) (xt_attributes t)) (\<lambda>_.
      rbind (open_element t f values) (\<lambda>(f, values).
      Inr (if \<not> xt_closed t \<and> \<not> html_void (xt_name t)
           then f\<lparr>fr_stack := xt_name t # fr_stack f\<rparr> else f, values))))"

definition end_tag :: "string \<Rightarrow> gp_frame \<Rightarrow> gp_frame result" where
  "end_tag name f =
     (case fr_stack f of
        [] \<Rightarrow> Inl malformed
      | opened # rest \<Rightarrow>
          if opened \<noteq> name then Inl malformed
          else Inr (f\<lparr>fr_stack := rest, fr_active := None,
                      fr_suppressed := (if fr_suppressed f = Some (length rest + 1) then None
                                        else fr_suppressed f)\<rparr>))"

definition push_str :: "gp_frame \<Rightarrow> string \<Rightarrow> gp_values \<Rightarrow> gp_values result" where
  "push_str f s values =
     (case fr_active f of
        None \<Rightarrow> Inr values
      | Some i \<Rightarrow>
          if \<not> utf8_valid s then Inl malformed
          else rbind (ok_or malformed (values ! i)) (\<lambda>v. Inr (values[i := Some (v @ s)])))"

definition push_char :: "gp_frame \<Rightarrow> int \<Rightarrow> gp_values \<Rightarrow> gp_values result" where
  "push_char f c values =
     (case fr_active f of
        None \<Rightarrow> Inr values
      | Some i \<Rightarrow> rbind (ok_or malformed (values ! i)) (\<lambda>v. Inr (values[i := Some (v @ utf8 c)])))"

text \<open>What the event of a fragment does: the loop goes on in it, parses the text of a comment first, or
  the fragment has ended.\<close>

datatype fragment_step = Within gp_frame gp_values | Inside gp_frame string | Ended

definition fragment_event ::
  "gp_codec \<Rightarrow> xml_event \<Rightarrow> gp_frame \<Rightarrow> gp_values \<Rightarrow> fragment_step result" where
  "fragment_event G e f values =
     (case e of
        XStart t \<Rightarrow> rbind (start_tag G t f values) (\<lambda>(f, values). Inr (Within f values))
      | XEnd name \<Rightarrow> rbind (end_tag name f) (\<lambda>f. Inr (Within f values))
      | XText s \<Rightarrow> rbind (push_str f s values) (\<lambda>values. Inr (Within f values))
      | XCData s \<Rightarrow> rbind (push_str f s values) (\<lambda>values. Inr (Within f values))
      | XRef s \<Rightarrow> rbind (resolve G s) (\<lambda>c. rbind (push_char f c values) (\<lambda>values. Inr (Within f values)))
      | XComment s \<Rightarrow>
          if fr_active f \<noteq> None then Inl malformed
          else if fr_suppressed f \<noteq> None then Inr (Within f values)
          else if \<not> utf8_valid s then Inl malformed
          else if CHR ''<'' \<in> set s then Inr (Inside f s) else Inr (Within f values)
      | XDeclaration \<Rightarrow> Inl malformed
      | XEof \<Rightarrow> if fr_stack f \<noteq> [] then Inl malformed else Inr Ended
      | XError \<Rightarrow> Inl malformed)"

section \<open>The parser\<close>

text \<open>\<open>parse_fragment\<close> calls itself for the text of a comment; the list holds the locals of the calls
  that have not returned. It ends because every turn of every call counts an event.\<close>

function parse_fragments ::
  "gp_codec \<Rightarrow> gp_frame list \<Rightarrow> gp_values \<Rightarrow> int \<Rightarrow> (gp_values \<times> int) result" where
  "parse_fragments G [] values events = Inr (values, events)"
| "parse_fragments G (f # fs) values events =
     (let events = events + 1 in
      if events > max_events then Inl malformed
      else
      case fragment_event G (xr_event G (fr_text f) (fr_next f)) (f\<lparr>fr_next := fr_next f + 1\<rparr>) values of
        Inl e \<Rightarrow> Inl e
      | Inr (Within f values) \<Rightarrow> parse_fragments G (f # fs) values events
      | Inr (Inside f s) \<Rightarrow>
          parse_fragments G (new_frame s (fr_outer f + length (fr_stack f) + 1) # f # fs) values events
      | Inr Ended \<Rightarrow> parse_fragments G fs values events)"
  by pat_completeness auto

termination
  by (relation "measure (\<lambda>(G, fs, values, events). nat (max_events - events))") auto

declare parse_fragments.simps [simp del]

definition trim_start :: "string \<Rightarrow> string" where
  "trim_start s = concat (map utf8 (dropWhile is_whitespace (chars s)))"

definition blank :: "string \<Rightarrow> bool" where
  "blank s \<longleftrightarrow> trim s = []"

definition completion_of :: "gp_values \<Rightarrow> gp_completion option result" where
  "completion_of values =
     (if list_all (\<lambda>v. v = None) values then Inr None
      else if values ! 0 \<noteq> Some ''1'' then Inl not_successful
      else rbind (ok_or malformed (case values ! 1 of Some s \<Rightarrow> if blank s then None else Some s | None \<Rightarrow> None))
        (\<lambda>username.
      rbind (case (values ! 2, values ! 3) of
               (Some c, None) \<Rightarrow> Inr (''prelogin-cookie'', c)
             | (None, Some c) \<Rightarrow> Inr (''portal-userauthcookie'', c)
             | _ \<Rightarrow> Inl malformed) (\<lambda>(name, secret).
      if blank secret \<or> has_control username \<or> has_control secret then Inl malformed
      else Inr (Some \<lparr>gc_username = username, gc_cookie_name = name, gc_cookie = secret\<rparr>))))"

definition parse_completion_if_present :: "gp_codec \<Rightarrow> string \<Rightarrow> gp_completion option result" where
  "parse_completion_if_present G input =
     (if input = [] \<or> len input > max_input \<or> \<not> list_all xml_char (chars input) then Inl malformed
      else if starts_with ''cas-as'' (trim_start input) then Inl unsupported_cas
      else
      rbind (parse_fragments G [new_frame input 0] [None, None, None, None] 0) (\<lambda>(values, _).
      completion_of values))"

definition parse_completion :: "gp_codec \<Rightarrow> string \<Rightarrow> gp_completion result" where
  "parse_completion G input =
     rbind (parse_completion_if_present G input) (\<lambda>c. ok_or not_successful c)"

end
