(* ===== verification/BrowserFlow.thy ===== *)
theory BrowserFlow
  imports GlobalProtect ProfileStore EngineAuth
begin

text \<open>
  \<open>crates/client/src/browser.rs\<close>: one transaction of a browser, between the native authentication,
  whose control of \<open>EngineAuth\<close> it answers through, and the browsers, callbacks and windows that it
  hears from. What it hears is a list of events in any order. Launching browsers and windows,
  sockets and clocks are inputs of the events.
\<close>

section \<open>Messages\<close>

datatype 'u browser_client_message =
    ClCallback string
  | ClReady uuid
  | ClPage uuid browser_page
  | ClCertificate uuid uuid 'u "u8 list list"
  | ClClosed uuid
  | ClFailed uuid err

datatype notice = NPrompt browser_prompt | NFailed err

section \<open>The transaction\<close>

record consumed =
  cs_digest :: "u8 list"
  cs_expires :: u64

text \<open>What the transaction is given: the crates, the checks of the engine on a certificate chain, the
  place of the ledger if there is one, and the request.\<close>

record 'u flow_context =
  fc_crates :: "'u crates"
  fc_codec :: gp_codec
  fc_digest :: "string \<Rightarrow> u8 list"
  fc_read :: "u8 list \<Rightarrow> consumed list option"
  fc_bytes :: "consumed list \<Rightarrow> u8 list option"
  fc_verify :: "'u \<Rightarrow> u8 list list \<Rightarrow> browser_tls_policy \<Rightarrow> bool result"
  fc_directory :: "os_path option"
  fc_request :: "'u browser_request"

text \<open>\<open>Flow\<close> and the locals of \<open>run\<close>. The notices are a channel of 16; \<open>fl_shown\<close> is the trace of the
  prompts sent, \<open>fl_replies\<close> that of the answers given to the native authentication.\<close>

record ('r, 'u) flow =
  fl_pending :: "gp_completion option"
  fl_submitted :: bool
  fl_opened :: bool
  fl_child :: bool
  fl_embedded :: bool
  fl_launching :: bool
  fl_bootstrapped :: bool
  fl_notices :: "notice list"
  fl_listening :: bool
  fl_shown :: "browser_prompt list"
  fl_replies :: "(browser_answer \<times> unit result) list"
  fl_native :: "'u auth_shared"
  fl_desk :: "'r desk"

definition flow_stale :: err where
  "flow_stale = new_error Conflict ''Browser transaction is no longer current''"

definition flow_unavailable :: err where
  "flow_unavailable = new_error AuthenticationRequired
     ''Browser authentication is unavailable; retry with an installed desktop/display, system browser, or manual mode''"

definition flow_cancelled :: err where
  "flow_cancelled = new_error Cancelled ''Browser authentication was cancelled''"

definition pin_limit :: err where
  "pin_limit = new_error UnsupportedAuthentication
     ''Embedded SSO cannot enforce explicit certificate pins before sending credentials. Choose system/manual mode explicitly, or provision the organization CA and remove the conflicting pin. Native VPN pins remain strict.''"

definition send_notice :: "notice \<Rightarrow> ('r, 'u) flow \<Rightarrow> unit result \<times> ('r, 'u) flow" where
  "send_notice n m =
     (if \<not> fl_listening m \<or> length (fl_notices m) \<ge> 16
      then (Inl (new_error Busy ''Browser prompt consumer is not responding''), m)
      else (Inr (), m\<lparr>fl_notices := fl_notices m @ [n],
              fl_shown := fl_shown m @ (case n of NPrompt p \<Rightarrow> [p] | NFailed _ \<Rightarrow> [])\<rparr>))"

definition in_flow ::
  "(('r, 'u) flow \<Rightarrow> 'a result \<times> ('r, 'u) flow) \<Rightarrow> (('r, 'u) flow, 'a) io" where
  "in_flow f m = (case f m of (Inl e, m) \<Rightarrow> (Fault e, m) | (Inr x, m) \<Rightarrow> (Done x, m))"

definition in_desk :: "('r desk, 'a) io \<Rightarrow> (('r, 'u) flow, 'a) io" where
  "in_desk f m = (case f (fl_desk m) of (r, d) \<Rightarrow> (r, m\<lparr>fl_desk := d\<rparr>))"

definition show_prompt ::
  "'u flow_context \<Rightarrow> browser_stage \<Rightarrow> string option \<Rightarrow> (('r, 'u) flow, unit) io" where
  "show_prompt C s who =
     (let q = fc_request C in
      in_flow (send_notice (NPrompt
        \<lparr>bp_attempt_id = br_attempt_id q, bp_transaction_id = br_transaction_id q,
         bp_expected_origin = url_as_str (fc_crates C) (expected_origin q), bp_phase = br_phase q,
         bp_mode = br_mode q, stage = s, account = who\<rparr>)))"

definition native_reply :: "'u flow_context \<Rightarrow> browser_answer \<Rightarrow> (('r, 'u) flow, unit) io" where
  "native_reply C r =
     in_flow (\<lambda>m. case browser_reply (fc_crates C) (br_transaction_id (fc_request C)) r (fl_native m) of
       (res, s) \<Rightarrow> (res, m\<lparr>fl_native := s, fl_replies := fl_replies m @ [(r, res)]\<rparr>))"

definition native_cancel :: "('r, 'u) flow \<Rightarrow> ('r, 'u) flow" where
  "native_cancel m = m\<lparr>fl_native := cancel_auth (fl_native m)\<rparr>"

definition flow_opened :: "'u flow_context \<Rightarrow> (('r, 'u) flow, unit) io" where
  "flow_opened C =
     io_bind (io_get fl_opened) (\<lambda>before.
     io_bind (if \<not> before \<and> br_kind (fc_request C) = External then native_reply C BrOpened
              else io_return ()) (\<lambda>_.
     io_bind (io_modify (\<lambda>m. m\<lparr>fl_opened := True\<rparr>)) (\<lambda>_.
     show_prompt C (if br_mode (fc_request C) = ManualBrowser then ManualInput else Waiting) None)))"

section \<open>The replay ledger\<close>

text \<open>\<open>file.take(65537).read_to_end\<close>; the second equation is for evaluation.\<close>

definition capped :: "u8 list \<Rightarrow> u8 list" where
  "capped bytes = take 65537 bytes"

lemma capped_code [code]: "capped bytes = (if len bytes \<le> 65536 then bytes else take 65537 bytes)"
  by (simp add: capped_def)

definition ledger_entry :: "'u flow_context \<Rightarrow> string \<Rightarrow> u64 \<Rightarrow> consumed" where
  "ledger_entry C secret now =
     \<lparr>cs_digest = fc_digest C secret,
      cs_expires = (case checked_add now 86400 of Some t \<Rightarrow> t | None \<Rightarrow> - 1)\<rparr>"

definition claim_completion_at ::
  "'u flow_context \<Rightarrow> string \<Rightarrow> os_path \<Rightarrow> string \<Rightarrow> u64 \<Rightarrow> ('r desk, unit) io" where
  "claim_completion_at C fresh path secret now =
     io_bind (open_private_read path) (\<lambda>opened.
     io_bind (if opened = None then io_return []
              else
              io_bind (probe flow_unavailable) (\<lambda>_.
              io_bind (io_get (\<lambda>m. capped (contents path m))) (\<lambda>bytes.
              if len bytes > 65536
              then io_fail (new_error CorruptStorage ''Browser replay ledger exceeds its limit'')
              else io_lift (ok_or (new_error CorruptStorage
                     ''Browser replay ledger is invalid; authentication was not submitted'')
                   (fc_read C bytes))))) (\<lambda>found.
     let records = filter (\<lambda>r. cs_expires r > now) found; digest = fc_digest C secret in
     if list_ex (\<lambda>r. cs_digest r = digest) records
     then io_fail (new_error AuthenticationRejected
            ''Browser completion was already consumed; start a fresh authentication'')
     else if length records \<ge> 256
     then io_fail (new_error Busy
            ''Browser replay ledger is full; retry after previous transactions expire'')
     else
     io_bind (io_lift (ok_or flow_unavailable (fc_bytes C (records @ [ledger_entry C secret now])))) (\<lambda>bytes.
     atomic_write fresh path bytes True)))"

definition claim_completion ::
  "'u flow_context \<Rightarrow> string \<Rightarrow> u64 option \<Rightarrow> string \<Rightarrow> ('r desk, unit) io" where
  "claim_completion C fresh clock secret =
     io_bind (io_lift (ok_or flow_unavailable (fc_directory C))) (\<lambda>D.
     io_bind (io_map_err (new_error AuthorizationDenied ''Browser IPC ownership could not be verified'')
       (ensure_private_directory D)) (\<lambda>_.
     io_bind (io_lift (ok_or flow_unavailable clock)) (\<lambda>now.
     claim_completion_at C fresh (joined D ''consumed-callbacks.json'') secret now)))"

section \<open>Completions\<close>

fun header_fields :: "(string \<times> string) list \<Rightarrow> gp_values \<Rightarrow> gp_values result" where
  "header_fields [] values = Inr values"
| "header_fields ((name, value) # hs) values =
     (case position (\<lambda>candidate. eq_ignore_ascii_case candidate name) gp_fields of
        None \<Rightarrow> header_fields hs values
      | Some i \<Rightarrow>
          if values ! i \<noteq> None then Inl (invalid ''Duplicate browser completion field'')
          else header_fields hs (values[i := Some value]))"

definition page_completion :: "gp_codec \<Rightarrow> browser_page \<Rightarrow> gp_completion option result" where
  "page_completion G page =
     rbind (header_fields (headers page) [None, None, None, None]) (\<lambda>values.
     if list_ex (\<lambda>v. v \<noteq> None) values then
       if values ! 0 \<noteq> Some ''1'' then Inl not_successful
       else rbind (ok_or (invalid ''Missing browser completion account'')
              (case values ! 1 of Some s \<Rightarrow> if blank s then None else Some s | None \<Rightarrow> None)) (\<lambda>username.
       rbind (case (values ! 2, values ! 3) of
                (Some c, None) \<Rightarrow> Inr (''prelogin-cookie'', c)
              | (None, Some c) \<Rightarrow> Inr (''portal-userauthcookie'', c)
              | _ \<Rightarrow> Inl (invalid ''Missing or conflicting browser completion credential'')) (\<lambda>(name, secret).
       if blank secret \<or> has_control username \<or> has_control secret
       then Inl (invalid ''Invalid browser completion field'')
       else Inr (Some \<lparr>gc_username = username, gc_cookie_name = name, gc_cookie = secret\<rparr>)))
     else case document page of
       None \<Rightarrow> Inr None
     | Some d \<Rightarrow> parse_completion_if_present G d)"

text \<open>The clock and the name drawn for a temporary file, when a completion is claimed.\<close>

type_synonym stamp = "u64 option \<times> string"

definition confirmation :: "'u flow_context \<Rightarrow> stamp \<Rightarrow> gp_completion \<Rightarrow> (('r, 'u) flow, unit) io" where
  "confirmation C st c =
     (if len (gc_username c) > 4096 then io_fail (invalid ''Browser account name exceeds the limit'')
      else
      io_bind (if br_mode (fc_request C) \<noteq> EmbeddedBrowser
               then in_desk (claim_completion C (snd st) (fst st) (gc_cookie c))
               else io_return ()) (\<lambda>_.
      io_bind (show_prompt C ConfirmAccount (Some (gc_username c))) (\<lambda>_.
      io_modify (\<lambda>m. m\<lparr>fl_pending := Some c\<rparr>))))"

definition flow_callback :: "'u flow_context \<Rightarrow> stamp \<Rightarrow> string \<Rightarrow> (('r, 'u) flow, unit) io" where
  "flow_callback C st uri =
     (let q = fc_request C in
      io_bind (io_get (\<lambda>m. fl_pending m \<noteq> None \<or> fl_submitted m)) (\<lambda>taken.
      if br_protocol q \<noteq> ''gp'' \<or> br_kind q \<noteq> Webview \<or> br_mode q = EmbeddedBrowser \<or> taken
      then io_fail flow_stale
      else
      io_bind (io_lift (decode_callback (fc_codec C) uri)) (\<lambda>decoded.
      io_bind (io_lift (parse_completion (fc_codec C) decoded)) (\<lambda>c.
      confirmation C st c))))"

definition completion_page :: "'u flow_context \<Rightarrow> gp_completion \<Rightarrow> browser_page" where
  "completion_page C c =
     \<lparr>pg_uri = url_as_str (fc_crates C) (expected_origin (fc_request C)), cookies = [],
      headers = [(''saml-auth-status'', ''1''), (''saml-username'', gc_username c),
                 (gc_cookie_name c, gc_cookie c)],
      document = None\<rparr>"

definition flow_confirm :: "'u flow_context \<Rightarrow> bool \<Rightarrow> (('r, 'u) flow, unit) io" where
  "flow_confirm C agreed =
     io_bind (io_get fl_pending) (\<lambda>p.
     io_bind (io_modify (\<lambda>m. m\<lparr>fl_pending := None\<rparr>)) (\<lambda>_.
     io_bind (io_lift (ok_or flow_stale p)) (\<lambda>c.
     if \<not> agreed then io_bind (io_modify native_cancel) (\<lambda>_. io_fail flow_cancelled)
     else
     io_bind (native_reply C (BrPage (completion_page C c))) (\<lambda>_.
     io_bind (io_modify (\<lambda>m. m\<lparr>fl_submitted := True\<rparr>)) (\<lambda>_.
     show_prompt C Waiting None)))))"

definition flow_page :: "'u flow_context \<Rightarrow> stamp \<Rightarrow> browser_page \<Rightarrow> (('r, 'u) flow, unit) io" where
  "flow_page C st page =
     (let q = fc_request C in
      io_bind (io_lift (browser_page_validate (fc_crates C) page (expected_origin q))) (\<lambda>_.
      io_bind (io_get (\<lambda>m. fl_pending m \<noteq> None \<or> fl_submitted m)) (\<lambda>taken.
      if br_kind q = External \<or> taken then io_return ()
      else if br_protocol q = ''gp'' then
        io_bind (io_lift (page_completion (fc_codec C) page)) (\<lambda>found.
        case found of Some c \<Rightarrow> confirmation C st c | None \<Rightarrow> io_return ())
      else native_reply C (BrPage (page\<lparr>document := None\<rparr>)))))"

end
