(* ===== verification/BrowserRun.thy ===== *)
theory BrowserRun
  imports BrowserFlow
begin

text \<open>
  \<open>crates/client/src/browser.rs\<close>: the loop of \<open>run\<close> over everything a transaction hears, what it
  checks before, and the thread around it. An event whose branch of the \<open>select\<close> is disabled
  changes nothing.
\<close>

section \<open>Events\<close>

text \<open>\<open>FlOthers\<close> are the other threads: they use the control of the authentication, and the consumer
  takes notices from the channel or closes it.\<close>

datatype 'u flow_event =
    FlStop
  | FlDeadline
  | FlBootstrap "unit result"
  | FlLaunch "unit result"
  | FlTick "bool result"
  | FlCallback stamp string
  | FlConfirm bool
  | FlCommandsClosed
  | FlPeerCallback stamp string
  | FlPeerEmbedded bool "unit result"
  | FlIncoming stamp "'u browser_client_message result" "unit result"
  | FlIncomingClosed
  | FlOthers "control_act list" nat bool

definition certificate_refused :: err where
  "certificate_refused = new_error CertificateRejected
     ''Embedded browser certificate is not trusted. Provision the organization CA or explicitly choose system/manual authentication; an unenforceable browser pin was not accepted.''"

text \<open>A message of the authentication window; \<open>reply\<close> is how sending an answer to it goes.\<close>

definition window_message ::
  "'u flow_context \<Rightarrow> stamp \<Rightarrow> 'u browser_client_message \<Rightarrow> unit result \<Rightarrow> (('r, 'u) flow, unit) io" where
  "window_message C st msg reply =
     (let q = fc_request C; me = br_transaction_id q in
      io_bind (io_get fl_opened) (\<lambda>is_open.
      case msg of
        ClReady i \<Rightarrow> if i = me then flow_opened C else io_fail flow_stale
      | ClPage i page \<Rightarrow> if i = me \<and> is_open then flow_page C st page else io_fail flow_stale
      | ClCertificate i challenge origin chain \<Rightarrow>
          if i \<noteq> me then io_fail flow_stale
          else if challenge = 0 then io_fail flow_stale
          else
          io_bind (io_lift (https_origin (fc_crates C) (url_as_str (fc_crates C) origin))) (\<lambda>o'.
          if o' \<noteq> origin then io_fail flow_stale
          else
          io_bind (io_lift (fc_verify C origin chain (tls q))) (\<lambda>trusted.
          io_bind (io_lift reply) (\<lambda>_.
          if trusted \<and> tls_pins (tls q) = [] then io_return () else io_fail certificate_refused)))
      | ClClosed i \<Rightarrow> if i = me then io_fail flow_cancelled else io_fail flow_stale
      | ClFailed i e \<Rightarrow>
          if i = me
          then io_fail (new_error (code e)
                 ''Native authentication window failed; retry with system/manual mode or repair the desktop installation'')
          else io_fail flow_stale
      | ClCallback uri \<Rightarrow> io_fail flow_stale))"

definition others_act :: "'u flow_context \<Rightarrow> control_act list \<Rightarrow> nat \<Rightarrow> bool \<Rightarrow> ('r, 'u) flow \<Rightarrow> ('r, 'u) flow" where
  "others_act C acts taken closed m =
     m\<lparr>fl_native := act_all (fc_crates C) acts (fl_native m),
       fl_notices := drop taken (fl_notices m),
       fl_listening := (fl_listening m \<and> \<not> closed)\<rparr>"

text \<open>True to go on, False to end without an error.\<close>

definition flow_step :: "'u flow_context \<Rightarrow> 'u flow_event \<Rightarrow> (('r, 'u) flow, bool) io" where
  "flow_step C e =
     (case e of
        FlStop \<Rightarrow> io_return False
      | FlDeadline \<Rightarrow> io_fail (new_error AuthenticationRequired
          ''Browser authentication timed out; start a fresh attempt'')
      | FlBootstrap r \<Rightarrow>
          io_bind (io_get fl_bootstrapped) (\<lambda>b.
          if b then io_return True
          else io_bind (io_lift r) (\<lambda>_.
               io_bind (io_modify (\<lambda>m. m\<lparr>fl_bootstrapped := True\<rparr>)) (\<lambda>_. io_return True)))
      | FlLaunch r \<Rightarrow>
          io_bind (io_get fl_launching) (\<lambda>b.
          if \<not> b then io_return True
          else io_bind (io_lift r) (\<lambda>_.
               io_bind (io_modify (\<lambda>m. m\<lparr>fl_launching := False\<rparr>)) (\<lambda>_.
               io_bind (flow_opened C) (\<lambda>_. io_return True))))
      | FlTick r \<Rightarrow>
          io_bind (io_get (\<lambda>m. (fl_child m, fl_embedded m))) (\<lambda>(child, embedded).
          if \<not> child then io_return True
          else io_bind (io_lift r) (\<lambda>exited.
               if exited \<and> \<not> embedded then io_fail flow_unavailable else io_return True))
      | FlCallback st uri \<Rightarrow> io_bind (io_try (flow_callback C st uri)) (\<lambda>_. io_return True)
      | FlConfirm agreed \<Rightarrow>
          io_bind (io_try (flow_confirm C agreed)) (\<lambda>r.
          case r of
            Inl e \<Rightarrow> if code e = Cancelled then io_fail flow_cancelled else io_return True
          | Inr _ \<Rightarrow> io_return True)
      | FlCommandsClosed \<Rightarrow> io_return False
      | FlPeerCallback st uri \<Rightarrow> io_bind (io_try (flow_callback C st uri)) (\<lambda>_. io_return True)
      | FlPeerEmbedded differs opening \<Rightarrow>
          io_bind (io_get (\<lambda>m. \<not> fl_child m \<or> fl_embedded m)) (\<lambda>refused.
          if refused \<or> differs then io_return True
          else io_bind (io_lift opening) (\<lambda>_.
               io_bind (io_modify (\<lambda>m. m\<lparr>fl_embedded := True\<rparr>)) (\<lambda>_. io_return True)))
      | FlIncoming st msg reply \<Rightarrow>
          io_bind (io_get fl_embedded) (\<lambda>b.
          if \<not> b then io_return True
          else io_bind (io_lift msg) (\<lambda>received.
               io_bind (window_message C st received reply) (\<lambda>_. io_return True)))
      | FlIncomingClosed \<Rightarrow>
          io_bind (io_get fl_embedded) (\<lambda>b.
          if b then io_fail flow_unavailable else io_return True)
      | FlOthers acts taken closed \<Rightarrow>
          io_bind (io_modify (others_act C acts taken closed)) (\<lambda>_. io_return True))"

text \<open>True when the events have not ended the transaction.\<close>

fun flow_loop :: "'u flow_context \<Rightarrow> 'u flow_event list \<Rightarrow> (('r, 'u) flow, bool) io" where
  "flow_loop C [] = io_return True"
| "flow_loop C (e # es) = io_bind (flow_step C e) (\<lambda>on. if on then flow_loop C es else io_return False)"

section \<open>The transaction\<close>

definition resolve_mode :: "'u browser_request \<Rightarrow> browser_mode" where
  "resolve_mode q =
     (if br_mode q = AutoBrowser then
        if br_kind q = External \<or> br_protocol q = ''gp'' \<and> external_allowed q = Some True
        then SystemBrowser else EmbeddedBrowser
      else br_mode q)"

definition no_callback :: err where
  "no_callback = new_error AuthenticationRequired
     ''GlobalProtect callback association is absent or belongs to another application. Register it with explicit consent, or choose manual/embedded authentication. System browsers use their own CA trust.''"

text \<open>What the operating system says when it is asked, in the order of \<open>run\<close>.\<close>

record flow_start =
  st_bound :: "unit result"
  st_callback :: "bool result"
  st_bootstrap :: "string result"
  st_spawned :: "unit result"

definition resolved_context :: "'u flow_context \<Rightarrow> 'u flow_context" where
  "resolved_context C = C\<lparr>fc_request := (fc_request C)\<lparr>br_mode := resolve_mode (fc_request C)\<rparr>\<rparr>"

definition fresh_flow :: "'u auth_shared \<Rightarrow> 'r desk \<Rightarrow> ('r, 'u) flow" where
  "fresh_flow s d =
     \<lparr>fl_pending = None, fl_submitted = False, fl_opened = False, fl_child = False,
      fl_embedded = False, fl_launching = False, fl_bootstrapped = False, fl_notices = [],
      fl_listening = True, fl_shown = [], fl_replies = [], fl_native = s, fl_desk = d\<rparr>"

definition flow_begin :: "'u flow_context \<Rightarrow> flow_start \<Rightarrow> (('r, 'u) flow, 'u flow_context) io" where
  "flow_begin C S =
     io_bind (io_lift (st_bound S)) (\<lambda>_.
     let C = resolved_context C; q = fc_request C in
     if br_mode q = EmbeddedBrowser \<and> tls_pins (tls q) \<noteq> [] then io_fail pin_limit
     else
     io_bind (if br_mode q = SystemBrowser \<and> br_protocol q = ''gp''
              then io_bind (io_lift (st_callback S)) (\<lambda>b. if b then io_return () else io_fail no_callback)
              else io_return ()) (\<lambda>_.
     io_bind (io_lift (st_bootstrap S)) (\<lambda>url.
     let C = C\<lparr>fc_request := q\<lparr>br_uri := url\<rparr>\<rparr> in
     io_bind (show_prompt C Opening None) (\<lambda>_.
     io_bind (if br_mode q = EmbeddedBrowser then io_lift (st_spawned S) else io_return ()) (\<lambda>_.
     io_bind (io_modify (\<lambda>m. m\<lparr>fl_child := (br_mode q = EmbeddedBrowser),
                               fl_launching := (br_mode q = SystemBrowser)\<rparr>)) (\<lambda>_.
     io_bind (if br_mode q = ManualBrowser then flow_opened C else io_return ()) (\<lambda>_.
     io_return C)))))))"

definition flow_run :: "'u flow_context \<Rightarrow> flow_start \<Rightarrow> 'u flow_event list \<Rightarrow> (('r, 'u) flow, bool) io" where
  "flow_run C S es = io_bind (flow_begin C S) (\<lambda>C. flow_loop C es)"

text \<open>The thread: an error nobody asked for is shown, and ends the authentication. \<open>stopped\<close> is
  whether the transaction was told to stop. Nothing runs after the death of the process.\<close>

definition flow_thread ::
  "'u flow_context \<Rightarrow> flow_start \<Rightarrow> bool \<Rightarrow> 'u flow_event list \<Rightarrow> (('r, 'u) flow, bool) io" where
  "flow_thread C S stopped es m =
     (case flow_run C S es m of
        (Fault e, m) \<Rightarrow>
          let m = (if \<not> stopped \<or> code e = RecoveryRequired then snd (send_notice (NFailed e) m) else m)
          in (Fault e, if \<not> stopped then native_cancel (snd (native_reply C (BrFailed e) m)) else m)
      | (r, m) \<Rightarrow> (r, m))"

definition task_start ::
  "'u flow_context \<Rightarrow> flow_start \<Rightarrow> bool \<Rightarrow> 'u flow_event list \<Rightarrow> (('r, 'u) flow, bool) io" where
  "task_start C S stopped es =
     io_bind (io_lift (browser_request_validate (fc_crates C) (fc_request C))) (\<lambda>_.
     flow_thread C S stopped es)"

text \<open>A transaction that ends in an error nobody asked for leaves the authentication cancelled, so that
  its worker does not wait for it.\<close>

lemma cancel_auth_cancelled: "sh_cancelled (cancel_auth s) \<and> sh_pending (cancel_auth s) = None"
  by (auto simp: cancel_auth_def Let_def send_response_def)

lemma failed_flow_cancels:
  "flow_thread C S False es m = (Fault e, m') \<Longrightarrow> sh_cancelled (fl_native m')"
  by (auto simp: flow_thread_def Let_def native_cancel_def cancel_auth_cancelled
      split: prod.splits outcome.splits)

end
