(* ===== verification/GlobalProtectProps.thy ===== *)
theory GlobalProtectProps
  imports GlobalProtect
begin

text \<open>
  What a decoded completion is: text without control characters, whatever the reader makes of
  the page.
\<close>

section \<open>Text\<close>

lemma utf8_valid_append: "utf8_valid a \<Longrightarrow> utf8_valid (a @ b) = utf8_valid b"
proof (induction a rule: utf8_valid.induct)
  case (2 c cs)
  let ?b = "of_char c :: int"
  consider "?b < 128" | "\<not> ?b < 128" "194 \<le> ?b \<and> ?b \<le> 223"
    | "\<not> ?b < 128" "\<not> (194 \<le> ?b \<and> ?b \<le> 223)" "224 \<le> ?b \<and> ?b \<le> 239"
    | "\<not> ?b < 128" "\<not> (194 \<le> ?b \<and> ?b \<le> 223)" "\<not> (224 \<le> ?b \<and> ?b \<le> 239)" "240 \<le> ?b \<and> ?b \<le> 244"
    using 2(5) by (auto simp: Let_def split: if_splits)
  then show ?case
  proof cases
    case 1
    then show ?thesis using 2(1) [OF refl] 2(5) by (simp add: Let_def)
  next
    case b: 2
    then obtain x r where "cs = x # r" using 2(5) by (cases cs) (auto simp: Let_def)
    then show ?thesis using b 2(2) [OF refl] 2(5) by (simp add: Let_def)
  next
    case b: 3
    then obtain x y r where "cs = x # y # r"
      using 2(5) by (cases cs; cases "tl cs") (auto simp: Let_def)
    then show ?thesis using b 2(3) [OF refl] 2(5) by (simp add: Let_def)
  next
    case b: 4
    then obtain x y z r where "cs = x # y # z # r"
      using 2(5) by (cases cs; cases "tl cs"; cases "tl (tl cs)") (auto simp: Let_def)
    then show ?thesis using b 2(4) [OF refl] 2(5) by (simp add: Let_def)
  qed
qed simp

lemma of_char_char_of: "0 \<le> n \<Longrightarrow> n < 256 \<Longrightarrow> (of_char (char_of n :: char) :: int) = n"
  by (simp add: of_char_of)

lemma div_mod_64: "(c :: int) div 64 mod 64 + 64 * (c div 4096) = c div 64"
  by (simp add: zdiv_zmult2_eq [of 64 c 64, simplified] mult.commute)

lemma utf8_xml_char: "xml_char c \<Longrightarrow> utf8_valid (utf8 c)"
proof -
  assume c: "xml_char c"
  then have b: "0 \<le> c" "c \<le> 0x10ffff" "\<not> (0xd800 \<le> c \<and> c \<le> 0xdfff)"
    by (auto simp: xml_char_def)
  have m: "0 \<le> n mod 64" "n mod 64 < 64" for n :: int by simp_all
  consider "c < 128" | "128 \<le> c" "c < 2048" | "2048 \<le> c" "c < 65536" | "65536 \<le> c" by linarith
  then show ?thesis
  proof cases
    case 1
    then show ?thesis using b by (simp add: utf8_def of_char_char_of)
  next
    case 2
    then have "2 \<le> c div 64" "c div 64 < 32" by auto
    then show ?thesis using 2 m [of c] by (simp add: utf8_def of_char_char_of byte_in_def)
  next
    case 3
    then have d: "0 \<le> c div 4096" "c div 4096 < 16" by auto
    have e: "c div 4096 = 0 \<Longrightarrow> 32 \<le> c div 64 mod 64" using 3 div_mod_64 [of c] by linarith
    have f: "c div 4096 = 13 \<Longrightarrow> c div 64 mod 64 < 32" using 3 b div_mod_64 [of c] by linarith
    show ?thesis
      using 3 d e f m [of c] m [of "c div 64"]
      by (auto simp: utf8_def of_char_char_of byte_in_def)
  next
    case 4
    then have d: "0 \<le> c div 262144" "c div 262144 < 5" using b by auto
    have k: "c div 4096 mod 64 + 64 * (c div 262144) = c div 4096"
      by (simp add: zdiv_zmult2_eq [of 64 "c" 4096, simplified])
    have e: "c div 262144 = 0 \<Longrightarrow> 16 \<le> c div 4096 mod 64" using 4 k by linarith
    have f: "c div 262144 = 4 \<Longrightarrow> c div 4096 mod 64 < 16" using 4 b k by linarith
    show ?thesis
      using 4 d e f m [of c] m [of "c div 64"] m [of "c div 4096"]
      by (auto simp: utf8_def of_char_char_of byte_in_def)
  qed
qed

section \<open>Fields\<close>

definition values_ok :: "gp_values \<Rightarrow> bool" where
  "values_ok vs \<longleftrightarrow> length vs = 4 \<and> (\<forall>s. Some s \<in> set vs \<longrightarrow> utf8_valid s)"

lemma values_ok_update:
  "values_ok vs \<Longrightarrow> utf8_valid s \<Longrightarrow> values_ok (vs[i := Some s])"
  using set_update_subset_insert [of vs i "Some s"] by (auto simp: values_ok_def)

lemma values_ok_nth: "values_ok vs \<Longrightarrow> i < 4 \<Longrightarrow> vs ! i = Some s \<Longrightarrow> utf8_valid s"
  by (metis nth_mem values_ok_def)

definition frame_ok :: "gp_frame \<Rightarrow> bool" where
  "frame_ok f \<longleftrightarrow> (case fr_active f of None \<Rightarrow> True | Some i \<Rightarrow> i < 4)"

lemma field_index: "position ((=) name) gp_fields = Some i \<Longrightarrow> i < 4"
  using position_Some [of "(=) name" gp_fields i] by (simp add: gp_fields_def)

lemma start_tag_ok:
  assumes "values_ok vs" "frame_ok f" "start_tag G t f vs = Inr (f', vs')"
  shows "values_ok vs' \<and> frame_ok f'"
  using assms values_ok_update [of vs "[]"] field_index
  by (auto simp: start_tag_def open_element_def Let_def frame_ok_def rbind_Inr_iff
      split: if_splits option.splits)

lemma push_str_ok:
  assumes "values_ok vs" "frame_ok f" "push_str f s vs = Inr vs'"
  shows "values_ok vs'"
  using assms
  by (auto simp: push_str_def frame_ok_def rbind_Inr_iff ok_or_Inr_iff utf8_valid_append
      intro!: values_ok_update dest: values_ok_nth split: option.splits if_splits)

lemma push_char_ok:
  assumes "values_ok vs" "frame_ok f" "xml_char c" "push_char f c vs = Inr vs'"
  shows "values_ok vs'"
  using assms
  by (auto simp: push_char_def frame_ok_def rbind_Inr_iff ok_or_Inr_iff utf8_valid_append utf8_xml_char
      intro!: values_ok_update dest: values_ok_nth split: option.splits if_splits)

lemma resolve_ok: "resolve G s = Inr c \<Longrightarrow> xml_char c"
  by (auto simp: resolve_def predefined_def ok_or_Inr_iff xml_char_def split: option.splits if_splits)

definition step_ok :: "fragment_step \<Rightarrow> gp_values \<Rightarrow> bool" where
  "step_ok s vs \<longleftrightarrow> (case s of Within f vs' \<Rightarrow> frame_ok f \<and> values_ok vs' | Inside f t \<Rightarrow> frame_ok f | Ended \<Rightarrow> True)"

lemma fragment_event_ok:
  assumes "values_ok vs" "frame_ok f" "fragment_event G e f vs = Inr step"
  shows "step_ok step vs"
proof (cases e)
  case (XStart t)
  then show ?thesis
    using assms start_tag_ok [OF assms(1,2)] by (auto simp: fragment_event_def rbind_Inr_iff step_ok_def)
next
  case (XEnd n)
  then show ?thesis
    using assms by (auto simp: fragment_event_def rbind_Inr_iff step_ok_def end_tag_def frame_ok_def
        split: list.splits if_splits)
next
  case (XRef s)
  then show ?thesis
    using assms push_char_ok [OF assms(1,2)]
    by (auto simp: fragment_event_def rbind_Inr_iff step_ok_def dest: resolve_ok)
next
  case (XText s)
  then show ?thesis
    using assms push_str_ok [OF assms(1,2)] by (auto simp: fragment_event_def rbind_Inr_iff step_ok_def)
next
  case (XCData s)
  then show ?thesis
    using assms push_str_ok [OF assms(1,2)] by (auto simp: fragment_event_def rbind_Inr_iff step_ok_def)
qed (use assms in \<open>auto simp: fragment_event_def step_ok_def split: if_splits\<close>)

lemma parse_fragments_ok:
  "values_ok vs \<Longrightarrow> list_all frame_ok fs \<Longrightarrow> parse_fragments G fs vs n = Inr (vs', n') \<Longrightarrow>
     values_ok vs' \<and> (n \<le> max_events \<longrightarrow> n' \<le> max_events)"
proof (induction G fs vs n rule: parse_fragments.induct)
  case (1 G vs n)
  then show ?case by (simp add: parse_fragments.simps)
next
  case (2 G f fs vs n)
  let ?f = "f\<lparr>fr_next := fr_next f + 1\<rparr>"
  have n: "\<not> n + 1 > max_events"
    using 2(6) by (subst (asm) parse_fragments.simps) (auto simp: Let_def split: if_splits)
  obtain step where s: "fragment_event G (xr_event G (fr_text f) (fr_next f)) ?f vs = Inr step"
    and r: "(case step of
           Within f values \<Rightarrow> parse_fragments G (f # fs) values (n + 1)
         | Inside f s \<Rightarrow>
             parse_fragments G (new_frame s (fr_outer f + length (fr_stack f) + 1) # f # fs) vs (n + 1)
         | Ended \<Rightarrow> parse_fragments G fs vs (n + 1)) = Inr (vs', n')"
  proof (cases "fragment_event G (xr_event G (fr_text f) (fr_next f)) ?f vs")
    case (Inl e)
    then show ?thesis using 2(6) n by (subst (asm) parse_fragments.simps) (simp add: Let_def)
  next
    case (Inr step)
    show ?thesis
      by (rule that [OF Inr]) (use 2(6) n Inr in \<open>subst (asm) parse_fragments.simps, simp add: Let_def\<close>)
  qed
  have "frame_ok ?f" using 2(5) by (simp add: frame_ok_def)
  then have ok: "step_ok step vs" using fragment_event_ok [OF 2(4) _ s] by simp
  have new: "frame_ok (new_frame t k)" for t k by (simp add: frame_ok_def new_frame_def)
  show ?case
  proof (cases step)
    case (Within g ws)
    then show ?thesis using 2(1) [OF refl n s [unfolded Within]] r ok 2(5) n by (auto simp: step_ok_def)
  next
    case (Inside g t)
    then show ?thesis using 2(2) [OF refl n s [unfolded Inside]] r ok 2(4,5) n new by (auto simp: step_ok_def)
  next
    case Ended
    then show ?thesis using 2(3) [OF refl n s [unfolded Ended]] r 2(4,5) n by (auto simp: step_ok_def)
  qed
qed

text \<open>C17: whatever page or callback a browser hands over, and whatever the XML reader makes of it, the
parser ends within the event limit, and a completion it accepts is text that may become a header: the account and
the credential are valid UTF-8, not blank and without control characters, so no line can be
injected, and the credential goes under one of the two names GlobalProtect has.\<close>

theorem completion_is_text:
  assumes "parse_completion_if_present G input = Inr (Some c)"
  shows "list_all (\<lambda>s. utf8_valid s \<and> \<not> has_control s \<and> \<not> blank s) [gc_username c, gc_cookie c]
    \<and> gc_cookie_name c \<in> {''prelogin-cookie'', ''portal-userauthcookie''}
    \<and> (\<exists>values n. parse_fragments G [new_frame input 0] [None, None, None, None] 0 = Inr (values, n)
        \<and> n \<le> max_events \<and> values ! 0 = Some ''1'')"
proof -
  obtain vs n where p: "parse_fragments G [new_frame input 0] [None, None, None, None] 0 = Inr (vs, n)"
    and c: "completion_of vs = Inr (Some c)"
    using assms by (auto simp: parse_completion_if_present_def rbind_Inr_iff split: if_splits)
  have ok: "values_ok vs" "n \<le> max_events"
    using parse_fragments_ok [OF _ _ p] by (auto simp: values_ok_def frame_ok_def new_frame_def max_events_def)
  then show ?thesis
    using c p values_ok_nth [OF ok(1), of 1] values_ok_nth [OF ok(1), of 2] values_ok_nth [OF ok(1), of 3]
    by (auto simp: completion_of_def rbind_Inr_iff ok_or_Inr_iff split: option.splits if_splits)
qed

text \<open>A page with the three fields inside a comment, as GlobalProtect sends them.\<close>

definition sample_tag :: "string \<Rightarrow> xml_tag" where
  "sample_tag name = \<lparr>xt_name = name, xt_closed = False, xt_attributes_raw = [], xt_attributes = []\<rparr>"

definition sample_inner :: "xml_event list" where
  "sample_inner =
     concat (map (\<lambda>(name, v). [XStart (sample_tag name), XText v, XEnd name])
       [(''saml-auth-status'', ''1''), (''saml-username'', ''joe''), (''prelogin-cookie'', ''secret'')])"

definition sample_gp :: gp_codec where
  "sample_gp =
     \<lparr>xr_event = (\<lambda>s n.
        let es = (if s = ''page'' then [XStart (sample_tag ''html''), XComment ''<saml>'', XEnd ''html'']
                  else sample_inner)
        in if n < length es then es ! n else XEof),
      xr_char_ref = (\<lambda>_. None), base64_decode = Some\<rparr>"

definition sample_completion :: gp_completion where
  "sample_completion = \<lparr>gc_username = ''joe'', gc_cookie_name = ''prelogin-cookie'', gc_cookie = ''secret''\<rparr>"

lemma sample_parse: "parse_completion_if_present sample_gp ''page'' = Inr (Some sample_completion)"
  by code_simp

theorem completion_is_text_witness:
  "utf8_valid (gc_username sample_completion) \<and> \<not> has_control (gc_cookie sample_completion)"
  using completion_is_text [OF sample_parse] by simp

end
