(* ===== verification/BrowserSample.thy ===== *)
theory BrowserSample
  imports BrowserRun GlobalProtectProps
begin

text \<open>
  A GlobalProtect sign-in by a callback, on which the properties of the browser transaction are
  evaluated: the user pastes the callback, is asked about the account, and agrees.
\<close>

definition gp_request :: "string browser_request" where
  "gp_request =
     \<lparr>br_attempt_id = 3, br_transaction_id = 4, br_protocol = ''gp'',
      expected_origin = ''https://a/'', br_phase = Gateway, br_kind = Webview,
      br_mode = ManualBrowser, br_uri = ''https://a/'', external_allowed = None,
      tls = \<lparr>tls_ca_file = None, tls_pins = []\<rparr>\<rparr>"

definition sample_entry :: consumed where
  "sample_entry = \<lparr>cs_digest = [7], cs_expires = 86500\<rparr>"

definition gp_context :: "string flow_context" where
  "gp_context =
     \<lparr>fc_crates = sample_crates, fc_codec = sample_gp, fc_digest = (\<lambda>s. [7]),
      fc_read = (\<lambda>bytes. if bytes = [1] then Some [sample_entry] else None),
      fc_bytes = (\<lambda>rs. if rs = [sample_entry] then Some [1] else None),
      fc_verify = (\<lambda>_ _ _. Inr True),
      fc_directory = Some \<lparr>is_absolute = True, components = [''c'']\<rparr>, fc_request = gp_request\<rparr>"

definition gp_desk :: "unit desk" where
  "gp_desk =
     \<lparr>kernel = \<lparr>dirs = [(''/c'', \<lparr>dm_uid = 1000, dm_mode = 0x1C0\<rparr>)], cwd = [], links = [], vault = ()\<rparr>,
      files = [], fates = [], boot = ''b'', euid = 1000\<rparr>"

definition gp_claimed :: "unit desk" where
  "gp_claimed = snd (claim_completion gp_context ''f'' (Some 100) ''secret'' gp_desk)"

lemma gp_claim: "fst (claim_completion gp_context ''f'' (Some 100) ''secret'' gp_desk) = Done ()"
  by code_simp

section \<open>The transaction\<close>

definition gp_start :: flow_start where
  "gp_start = \<lparr>st_bound = Inr (), st_callback = Inr True, st_bootstrap = Inr ''https://b/'', st_spawned = Inr ()\<rparr>"

definition gp_native :: "string auth_shared" where
  "gp_native = \<lparr>sh_cancelled = False, sh_pending = Some (PBrowser 4 ''https://a/'' Webview),
     sh_queue = [], sh_finished = False, sh_command = True, sh_signals = 0, sh_listening = True\<rparr>"

definition gp_events :: "string flow_event list" where
  "gp_events = [FlCallback (Some 100, ''f'') ''globalprotectcallback:page'', FlConfirm True]"

definition gp_end :: "(unit, string) flow" where
  "gp_end = snd (flow_run gp_context gp_start gp_events (fresh_flow gp_native gp_desk))"


end
