(* ===== verification/BrowserProps.thy ===== *)
theory BrowserProps
  imports BrowserSample
begin

text \<open>
  What a browser transaction promises: a credential goes to the native authentication at most once, and only after
  the user confirmed the account it is for.
\<close>

section \<open>The abstract transaction\<close>

text \<open>What matters of a transaction: the completion that waits for a confirmation, whether one was
  submitted, the pages the native authentication accepted, and the confirmations asked for.\<close>

type_synonym flow_view = "gp_completion option \<times> bool \<times> browser_page list \<times> browser_prompt list"

definition accepted_pages :: "('r, 'u) flow \<Rightarrow> browser_page list" where
  "accepted_pages m =
     concat (map (\<lambda>(r, res). case r of BrPage p \<Rightarrow> if res = Inr () then [p] else [] | _ \<Rightarrow> []) (fl_replies m))"

definition asked_accounts :: "('r, 'u) flow \<Rightarrow> browser_prompt list" where
  "asked_accounts m = filter (\<lambda>p. stage p = ConfirmAccount) (fl_shown m)"

definition flow_view :: "('r, 'u) flow \<Rightarrow> flow_view" where
  "flow_view m = (fl_pending m, fl_submitted m, accepted_pages m, asked_accounts m)"

inductive flow_moves :: "'u flow_context \<Rightarrow> bool \<Rightarrow> flow_view \<Rightarrow> flow_view \<Rightarrow> bool"
  for C :: "'u flow_context" and confirmed :: bool where
  Stay: "flow_moves C confirmed v v"
| Ask: "stage p = ConfirmAccount \<Longrightarrow> account p = Some (gc_username c) \<Longrightarrow>
    flow_moves C confirmed (None, False, ps, qs) (Some c, False, ps, qs @ [p])"
| Withdraw: "flow_moves C confirmed (w, s, ps, qs) (None, s, ps, qs)"
| Submit: "confirmed \<Longrightarrow>
    flow_moves C confirmed (Some c, s, ps, qs) (None, True, ps @ [completion_page C c], qs)"

section \<open>Operations that leave it alone\<close>

definition quiet :: "(('r, 'u) flow, 'a) io \<Rightarrow> bool" where
  "quiet f \<longleftrightarrow> (\<forall>m. flow_view (snd (f m)) = flow_view m)"

named_theorems quiet_rules \<open>operations that leave the abstract transaction alone\<close>

lemma quietD: "quiet f \<Longrightarrow> f m = (r, m') \<Longrightarrow> flow_view m' = flow_view m"
  by (metis quiet_def snd_conv)

lemma quiet_bind [quiet_rules]:
  assumes "quiet f" and "\<And>x. quiet (g x)"
  shows "quiet (io_bind f g)"
  unfolding quiet_def
proof
  fix m
  obtain r m1 where f: "f m = (r, m1)" by (cases "f m")
  then show "flow_view (snd (io_bind f g m)) = flow_view m"
    using quietD [OF assms(1) f] assms(2) by (cases r) (auto simp: io_bind_def quiet_def)
qed

lemma quiet_basic [quiet_rules]:
  "quiet (io_return x)" "quiet (io_fail e)" "quiet (io_lift r)" "quiet (io_get h)" "quiet (in_desk d)"
  by (auto simp: quiet_def io_return_def io_fail_def io_lift_def io_get_def in_desk_def flow_view_def
      accepted_pages_def asked_accounts_def split: sum.splits prod.splits)

lemma quiet_modify [quiet_rules]: "(\<And>m. flow_view (u m) = flow_view m) \<Longrightarrow> quiet (io_modify u)"
  by (simp add: quiet_def io_modify_def)

lemma quiet_try [quiet_rules]: "quiet f \<Longrightarrow> quiet (io_try f)"
  unfolding quiet_def [of "io_try f"]
  by (auto simp: io_try_def split: prod.splits outcome.splits dest: quietD)

lemma quiet_if [quiet_rules]:
  "(b \<Longrightarrow> quiet f) \<Longrightarrow> (\<not> b \<Longrightarrow> quiet g) \<Longrightarrow> quiet (if b then f else g)"
  by simp

lemma quiet_pair [quiet_rules]: "(\<And>a b. quiet (g a b)) \<Longrightarrow> quiet (case v of (a, b) \<Rightarrow> g a b)"
  by (cases v) auto

lemma flow_view_simps [simp]:
  "flow_view (m\<lparr>fl_opened := b\<rparr>) = flow_view m" "flow_view (m\<lparr>fl_child := b\<rparr>) = flow_view m"
  "flow_view (m\<lparr>fl_embedded := b\<rparr>) = flow_view m" "flow_view (m\<lparr>fl_launching := b\<rparr>) = flow_view m"
  "flow_view (m\<lparr>fl_bootstrapped := b\<rparr>) = flow_view m" "flow_view (others_act C acts n b m) = flow_view m"
  "flow_view (native_cancel m) = flow_view m"
  by (simp_all add: flow_view_def accepted_pages_def asked_accounts_def others_act_def native_cancel_def)

lemma quiet_prompt [quiet_rules]: "s \<noteq> ConfirmAccount \<Longrightarrow> quiet (show_prompt C s who)"
  by (auto simp: quiet_def show_prompt_def Let_def in_flow_def send_notice_def flow_view_def
      accepted_pages_def asked_accounts_def)

lemma native_reply_view:
  "native_reply C r m = (o', m') \<Longrightarrow> flow_view m' =
     (fl_pending m, fl_submitted m,
      accepted_pages m @ (case r of BrPage p \<Rightarrow> if o' = Done () then [p] else [] | _ \<Rightarrow> []), asked_accounts m)"
  by (auto simp: native_reply_def in_flow_def flow_view_def accepted_pages_def asked_accounts_def
      split: prod.splits sum.splits browser_answer.splits)

lemma quiet_reply [quiet_rules]: "(\<And>p. r \<noteq> BrPage p) \<Longrightarrow> quiet (native_reply C r)"
  unfolding quiet_def
proof
  fix m :: "('a, 'b) flow"
  assume r: "\<And>p. r \<noteq> BrPage p"
  show "flow_view (snd (native_reply C r m)) = flow_view m"
    using native_reply_view [of C r m "fst (native_reply C r m)" "snd (native_reply C r m)"] r
    by (cases r) (auto simp: flow_view_def)
qed

lemma quiet_opened [quiet_rules]: "quiet (flow_opened C)"
  unfolding flow_opened_def by (intro quiet_rules) simp_all

section \<open>Operations that move it\<close>

lemma show_prompt_Done:
  assumes "show_prompt C ConfirmAccount (Some who) m = (Done (), m')"
  shows "\<exists>p. stage p = ConfirmAccount \<and> account p = Some who
    \<and> flow_view m' = (fl_pending m, fl_submitted m, accepted_pages m, asked_accounts m @ [p])"
  using assms
  by (auto simp: show_prompt_def Let_def in_flow_def send_notice_def flow_view_def accepted_pages_def
      asked_accounts_def split: if_splits)

lemma confirmation_moves:
  assumes "fl_pending m = None" "\<not> fl_submitted m" and c: "confirmation C st c m = (r, m')"
  shows "flow_moves C b (flow_view m) (flow_view m')"
proof -
  let ?claim = "if br_mode (fc_request C) \<noteq> EmbeddedBrowser
     then in_desk (claim_completion C (snd st) (fst st) (gc_cookie c)) else io_return ()"
  have q: "quiet ?claim" by (intro quiet_rules)
  consider "len (gc_username c) > 4096" | "\<not> len (gc_username c) > 4096" by blast
  then show ?thesis
  proof cases
    case 1
    then show ?thesis using c by (simp add: confirmation_def io_fail_def Stay)
  next
    case 2
    obtain r1 m1 where k: "?claim m = (r1, m1)" by (cases "?claim m")
    note v1 = quietD [OF q k]
    show ?thesis
    proof (cases r1)
      case (Done u)
      obtain r2 m2 where p: "show_prompt C ConfirmAccount (Some (gc_username c)) m1 = (r2, m2)"
        by (cases "show_prompt C ConfirmAccount (Some (gc_username c)) m1")
      have e: "(r, m') = io_bind (show_prompt C ConfirmAccount (Some (gc_username c)))
          (\<lambda>_. io_modify (\<lambda>m. m\<lparr>fl_pending := Some c\<rparr>)) m1"
        using c 2 k Done by (simp add: confirmation_def io_bind_def)
      show ?thesis
      proof (cases r2)
        case (Done u)
        then obtain w where w: "stage w = ConfirmAccount" "account w = Some (gc_username c)"
          "flow_view m2 = (fl_pending m1, fl_submitted m1, accepted_pages m1, asked_accounts m1 @ [w])"
          using show_prompt_Done [of C "gc_username c" m1 m2] p by auto
        have "m' = m2\<lparr>fl_pending := Some c\<rparr>" using e p Done by (simp add: io_bind_def io_modify_def)
        then have "flow_view m' = (Some c, False, accepted_pages m, asked_accounts m @ [w])"
          using w(3) v1 assms(1,2) by (auto simp: flow_view_def accepted_pages_def asked_accounts_def)
        then show ?thesis
          using Ask [OF w(1,2), of C b "accepted_pages m" "asked_accounts m"] assms(1,2)
          by (simp add: flow_view_def)
      next
        case (Fault x)
        then have "m2 = m1" "m' = m2" using e p
          by (auto simp: show_prompt_def Let_def in_flow_def send_notice_def io_bind_def split: if_splits)
        then show ?thesis using v1 by (simp add: Stay)
      next
        case Crashed
        then show ?thesis using p
          by (auto simp: show_prompt_def Let_def in_flow_def send_notice_def split: if_splits)
      qed
    qed (use c 2 k v1 in \<open>auto simp: confirmation_def io_bind_def Stay\<close>)
  qed
qed

text \<open>An operation that only looks before it asks for a confirmation.\<close>

lemma callback_moves: "flow_moves C b (flow_view m) (flow_view (snd (flow_callback C st uri m)))"
proof -
  have "flow_moves C b (flow_view m) (flow_view m')"
    if "\<not> (fl_pending m \<noteq> None \<or> fl_submitted m)" "confirmation C st c m = (r, m')" for c r m'
    using that confirmation_moves [of m C st c] by simp
  then show ?thesis
    by (auto simp: flow_callback_def Let_def io_defs Stay split: sum.splits intro: surjective_pairing)
qed

lemma page_moves:
  assumes "br_protocol (fc_request C) = ''gp''"
  shows "flow_moves C b (flow_view m) (flow_view (snd (flow_page C st page m)))"
proof -
  have "flow_moves C b (flow_view m) (flow_view m')"
    if "\<not> (fl_pending m \<noteq> None \<or> fl_submitted m)" "confirmation C st c m = (r, m')" for c r m'
    using that confirmation_moves [of m C st c] by simp
  then show ?thesis
    using assms
    by (auto simp: flow_page_def Let_def io_defs Stay split: sum.splits option.splits
        intro: surjective_pairing)
qed

lemma confirm_moves: "flow_moves C agreed (flow_view m) (flow_view (snd (flow_confirm C agreed m)))"
proof (cases "fl_pending m")
  case None
  then have "flow_view (snd (flow_confirm C agreed m)) = flow_view m"
    by (simp add: flow_confirm_def io_defs io_modify_def flow_view_def accepted_pages_def asked_accounts_def)
  then show ?thesis by (simp add: Stay)
next
  case (Some c)
  let ?n = "m\<lparr>fl_pending := None\<rparr>"
  have n: "flow_view ?n = (None, fl_submitted m, accepted_pages m, asked_accounts m)"
    by (simp add: flow_view_def accepted_pages_def asked_accounts_def)
  show ?thesis
  proof (cases agreed)
    case False
    then have "flow_view (snd (flow_confirm C agreed m)) = flow_view ?n"
      using Some by (simp add: flow_confirm_def io_defs io_modify_def)
    then show ?thesis
      using Withdraw [of C agreed "fl_pending m" "fl_submitted m"] n by (simp add: flow_view_def)
  next
    case True
    obtain r m1 where r: "native_reply C (BrPage (completion_page C c)) ?n = (r, m1)"
      by (cases "native_reply C (BrPage (completion_page C c)) ?n")
    note v = native_reply_view [OF r]
    show ?thesis
    proof (cases "r = Done ()")
      case ok: True
      have "snd (flow_confirm C agreed m) = snd (show_prompt C Waiting None (m1\<lparr>fl_submitted := True\<rparr>))"
        using Some True r ok by (simp add: flow_confirm_def io_bind_def io_get_def io_modify_def io_lift_def)
      then have "flow_view (snd (flow_confirm C agreed m)) = flow_view (m1\<lparr>fl_submitted := True\<rparr>)"
        by (simp only:) (rule quietD [OF quiet_prompt surjective_pairing], simp)
      also have "\<dots> = (None, True, accepted_pages m @ [completion_page C c], asked_accounts m)"
        using v ok by (auto simp: flow_view_def accepted_pages_def asked_accounts_def)
      finally show ?thesis
        using Submit [of agreed C c "fl_submitted m"] True Some by (simp add: flow_view_def)
    next
      case no: False
      have "snd (flow_confirm C agreed m) = m1"
        using Some True r no by (cases r) (simp_all add: flow_confirm_def io_bind_def io_get_def io_modify_def io_lift_def)
      then have "flow_view (snd (flow_confirm C agreed m)) = flow_view ?n"
        using v no n by (simp add: flow_view_def accepted_pages_def asked_accounts_def)
      then show ?thesis
        using Withdraw [of C agreed "fl_pending m" "fl_submitted m"] n by (simp add: flow_view_def)
    qed
  qed
qed

section \<open>The whole transaction\<close>

lemma moves_bind:
  assumes "flow_moves C b (flow_view m) (flow_view (snd (f m)))" and "\<And>x. quiet (g x)"
  shows "flow_moves C b (flow_view m) (flow_view (snd (io_bind f g m)))"
proof -
  obtain r m1 where "f m = (r, m1)" by (cases "f m")
  then show ?thesis using assms by (cases r) (auto simp: io_bind_def quiet_def)
qed

lemma moves_try:
  "flow_moves C b (flow_view m) (flow_view (snd (f m)))
    \<Longrightarrow> flow_moves C b (flow_view m) (flow_view (snd (io_try f m)))"
  by (auto simp: io_try_def split: prod.splits outcome.splits)

lemma moves_quiet: "quiet f \<Longrightarrow> flow_moves C b (flow_view m) (flow_view (snd (f m)))"
  by (simp add: quiet_def Stay)

lemma moves_read:
  "(\<And>x. flow_moves C b (flow_view m) (flow_view (snd (g x m))))
    \<Longrightarrow> flow_moves C b (flow_view m) (flow_view (snd (io_bind (io_get h) g m)))"
  "(\<And>x. flow_moves C b (flow_view m) (flow_view (snd (g x m))))
    \<Longrightarrow> flow_moves C b (flow_view m) (flow_view (snd (io_bind (io_lift r) g m)))"
  by (auto simp: io_bind_def io_get_def io_lift_def Stay split: sum.splits)

lemma window_moves:
  assumes "br_protocol (fc_request C) = ''gp''"
  shows "flow_moves C b (flow_view m) (flow_view (snd (window_message C st msg reply m)))"
  unfolding window_message_def Let_def
proof (rule moves_read)
  fix is_open :: bool
  show "flow_moves C b (flow_view m) (flow_view (snd ((case msg of
        ClReady i \<Rightarrow> if i = br_transaction_id (fc_request C) then flow_opened C else io_fail flow_stale
      | ClPage i page \<Rightarrow> if i = br_transaction_id (fc_request C) \<and> is_open
          then flow_page C st page else io_fail flow_stale
      | ClCertificate i challenge origin chain \<Rightarrow>
          if i \<noteq> br_transaction_id (fc_request C) then io_fail flow_stale
          else if challenge = 0 then io_fail flow_stale
          else
          io_bind (io_lift (https_origin (fc_crates C) (url_as_str (fc_crates C) origin))) (\<lambda>o'.
          if o' \<noteq> origin then io_fail flow_stale
          else
          io_bind (io_lift (fc_verify C origin chain (tls (fc_request C)))) (\<lambda>trusted.
          io_bind (io_lift reply) (\<lambda>_.
          if trusted \<and> tls_pins (tls (fc_request C)) = [] then io_return () else io_fail certificate_refused)))
      | ClClosed i \<Rightarrow> if i = br_transaction_id (fc_request C) then io_fail flow_cancelled else io_fail flow_stale
      | ClFailed i e \<Rightarrow>
          if i = br_transaction_id (fc_request C)
          then io_fail (new_error (code e)
                 ''Native authentication window failed; retry with system/manual mode or repair the desktop installation'')
          else io_fail flow_stale
      | ClCallback uri \<Rightarrow> io_fail flow_stale) m)))"
  proof (cases msg)
    case (ClPage i page)
    then show ?thesis
      using page_moves [OF assms, of b m st page] by (auto simp: io_fail_def Stay)
  qed (simp_all only: browser_client_message.case, (rule moves_quiet, intro quiet_rules)+)
qed

lemma flow_step_moves:
  assumes "br_protocol (fc_request C) = ''gp''"
  shows "flow_moves C (e = FlConfirm True) (flow_view m) (flow_view (snd (flow_step C e m)))"
proof -
  have calls: "flow_moves C b (flow_view m) (flow_view (snd
      (io_bind (io_try (flow_callback C st uri)) (\<lambda>_. io_return True) m)))" for b st uri
    by (intro moves_bind moves_try callback_moves quiet_rules)
  show ?thesis
  proof (cases e)
    case (FlCallback st uri)
    then show ?thesis using calls by (simp add: flow_step_def)
  next
    case (FlPeerCallback st uri)
    then show ?thesis using calls by (simp add: flow_step_def)
  next
    case (FlConfirm agreed)
    have "quiet (case r of Inl e \<Rightarrow> if code e = Cancelled then io_fail flow_cancelled else io_return True
        | Inr (_ :: unit) \<Rightarrow> io_return True)" for r :: "unit result"
      by (cases r) (auto intro!: quiet_rules)
    moreover have "flow_moves C agreed (flow_view m) (flow_view (snd (io_try (flow_confirm C agreed) m)))"
      by (rule moves_try) (rule confirm_moves)
    ultimately have "flow_moves C agreed (flow_view m) (flow_view (snd (flow_step C e m)))"
      unfolding FlConfirm flow_step_def flow_event.case by (intro moves_bind)
    then show ?thesis using FlConfirm by (cases agreed) simp_all
  next
    case (FlIncoming st msg reply)
    have "flow_moves C b (flow_view m) (flow_view (snd ((if \<not> x then io_return True
          else io_bind (io_lift msg) (\<lambda>received.
               io_bind (window_message C st received reply) (\<lambda>_. io_return True))) m)))" for b x
    proof (cases x)
      case True
      then show ?thesis
        by (simp, intro moves_read moves_bind window_moves [OF assms] quiet_rules)
    qed (simp add: io_return_def Stay)
    then show ?thesis unfolding FlIncoming flow_step_def flow_event.case by (rule moves_read)
  qed (simp_all add: flow_step_def, (rule moves_quiet, intro quiet_rules; simp)+)
qed

text \<open>What holds of the abstract transaction after any of its moves.\<close>

definition flow_ok :: "'u flow_context \<Rightarrow> bool \<Rightarrow> flow_view \<Rightarrow> bool" where
  "flow_ok C confirmed v \<longleftrightarrow>
     (case v of (waiting, submitted, pages, questions) \<Rightarrow>
        (\<forall>c. waiting = Some c \<longrightarrow> questions \<noteq> [] \<and> account (last questions) = Some (gc_username c))
        \<and> (waiting \<noteq> None \<longrightarrow> \<not> submitted)
        \<and> (if submitted
           then confirmed \<and> (\<exists>c. pages = [completion_page C c] \<and> questions \<noteq> []
                  \<and> account (last questions) = Some (gc_username c))
           else pages = []))"

lemma flow_moves_ok:
  "flow_moves C b v v' \<Longrightarrow> flow_ok C a v \<Longrightarrow> flow_ok C (a \<or> b) v'"
  by (induction rule: flow_moves.induct) (auto simp: flow_ok_def split: if_splits)

lemma flow_loop_ok:
  assumes "br_protocol (fc_request C) = ''gp''" and "flow_ok C a (flow_view m)"
  shows "flow_ok C (a \<or> FlConfirm True \<in> set es) (flow_view (snd (flow_loop C es m)))"
  using assms(2)
proof (induction es arbitrary: a m)
  case (Cons e es)
  obtain r m1 where s: "flow_step C e m = (r, m1)" by (cases "flow_step C e m")
  have one: "flow_ok C (a \<or> e = FlConfirm True) (flow_view m1)"
    using flow_moves_ok [OF flow_step_moves [OF assms(1), of e m] Cons.prems] s by simp
  have weak: "flow_ok C (a \<or> FlConfirm True \<in> set (e # es)) (flow_view m1)"
    using one by (auto simp: flow_ok_def split: if_splits prod.splits)
  have more: "flow_ok C (a \<or> FlConfirm True \<in> set (e # es)) (flow_view (snd (flow_loop C es m1)))"
    using Cons.IH [OF one] by (simp add: disj_ac eq_commute)
  show ?case
    using s weak more by (cases r) (auto simp: io_bind_def io_return_def)
qed (simp add: io_return_def)

lemma quiet_begin: "quiet (flow_begin C S)"
  unfolding flow_begin_def Let_def by (intro quiet_rules) simp_all

lemma flow_begin_context:
  "flow_begin C S m = (Done C', m') \<Longrightarrow>
     br_protocol (fc_request C') = br_protocol (fc_request C) \<and> completion_page C' c = completion_page C c"
  by (auto simp: flow_begin_def Let_def io_bind_Done resolved_context_def completion_page_def io_return_def
      io_fail_def split: if_splits)

text \<open>C15: whatever the browsers, windows and callbacks of a GlobalProtect transaction send, in whatever
order and however often, the native authentication accepts at most one page from it. That page is built
from one completion, the user was asked to confirm exactly the account of this completion, that
question was the last one asked, and the user agreed; without an agreement nothing is
submitted.\<close>

theorem account_is_confirmed:
  assumes "br_protocol (fc_request C) = ''gp''"
    and "snd (flow_run C S es (fresh_flow s d)) = m"
  shows "accepted_pages m = []
    \<or> (\<exists>c. accepted_pages m = [completion_page C c] \<and> FlConfirm True \<in> set es
        \<and> asked_accounts m \<noteq> [] \<and> account (last (asked_accounts m)) = Some (gc_username c))"
proof -
  let ?m = "fresh_flow s d"
  have ok: "flow_ok C' False (flow_view ?m)" for C' :: "'a flow_context"
    by (simp add: flow_ok_def flow_view_def fresh_flow_def accepted_pages_def)
  obtain r m1 where b: "flow_begin C S ?m = (r, m1)" by (cases "flow_begin C S ?m")
  have v: "flow_view m1 = flow_view ?m" by (rule quietD [OF quiet_begin b])
  show ?thesis
  proof (cases r)
    case (Done C')
    have g: "br_protocol (fc_request C') = ''gp''" "completion_page C' c = completion_page C c" for c
      using flow_begin_context [OF b [unfolded Done]] assms(1) by auto
    have "flow_ok C' (FlConfirm True \<in> set es) (flow_view m)"
      using flow_loop_ok [OF g(1), of False m1 es] ok [of C'] v assms(2) b Done
      by (simp add: flow_run_def io_bind_def)
    then show ?thesis
      using g(2) by (auto simp: flow_ok_def flow_view_def split: if_splits)
  qed (use assms(2) b v in \<open>auto simp: flow_run_def io_bind_def flow_view_def fresh_flow_def accepted_pages_def\<close>)
qed

lemma gp_submitted: "fl_submitted gp_end \<and> accepted_pages gp_end \<noteq> []"
  by code_simp

theorem account_is_confirmed_witness:
  "\<exists>c. accepted_pages gp_end = [completion_page gp_context c]
     \<and> account (last (asked_accounts gp_end)) = Some (gc_username c)"
proof -
  have "br_protocol (fc_request gp_context) = ''gp''" by (simp add: gp_context_def gp_request_def)
  from account_is_confirmed [OF this, of gp_start gp_events gp_native gp_desk gp_end] show ?thesis
    using gp_submitted by (auto simp: gp_end_def)
qed

end
