(* ===== verification/BrowserLedger.thy ===== *)
theory BrowserLedger
  imports BrowserSample ProfileProps
begin

text \<open>
  The replay ledger of \<open>crates/client/src/browser.rs\<close>: a completion that was claimed is remembered on disk,
  through every failure, crash and restart and whatever else is claimed, until it expires.
\<close>

section \<open>The ledger of a desk\<close>

definition ledger :: "'u flow_context \<Rightarrow> os_path \<Rightarrow> 'r desk \<Rightarrow> consumed list option" where
  "ledger C path m =
     (case private_cell path m of
        None \<Rightarrow> Some []
      | Some (ok, bytes) \<Rightarrow>
          if ok \<and> len (capped bytes) \<le> 65536 then fc_read C (capped bytes) else None)"

text \<open>What is relied on of the JSON of the ledger: up to 256 records fit its limit and are read as they
  were written.\<close>

definition ledger_codec_ok :: "'u flow_context \<Rightarrow> bool" where
  "ledger_codec_ok C \<longleftrightarrow>
     (\<forall>rs bytes. length rs \<le> 256 \<longrightarrow> fc_bytes C rs = Some bytes
        \<longrightarrow> len bytes \<le> 65536 \<and> fc_read C bytes = Some rs)"

definition claimable ::
  "'u flow_context \<Rightarrow> os_path \<Rightarrow> 'r desk \<Rightarrow> string \<Rightarrow> u64 \<Rightarrow> u8 list \<Rightarrow> bool" where
  "claimable C path m secret now bytes \<longleftrightarrow>
     (\<exists>records. ledger C path m = Some records
        \<and> (let live = filter (\<lambda>r. cs_expires r > now) records in
           fc_digest C secret \<notin> cs_digest ` set live \<and> length live < 256
           \<and> fc_bytes C (live @ [ledger_entry C secret now]) = Some bytes))"

lemma untouched_wrote: "untouched m s \<Longrightarrow> wrote n t m s"
  using settled_wrote [OF untouched_settled] .

definition claimed_or_not ::
  "'u flow_context \<Rightarrow> string \<Rightarrow> os_path \<Rightarrow> string \<Rightarrow> u64 \<Rightarrow> 'r desk \<Rightarrow> 'r desk \<Rightarrow> bool" where
  "claimed_or_not C fresh path secret now m s \<longleftrightarrow>
     wrote (name_of path m) (temporary_of fresh path m) m s
     \<and> (private_cell path s = private_cell path m
        \<or> (\<exists>bytes. claimable C path m secret now bytes \<and> private_cell path s = Some (True, bytes)))"

lemma untouched_claim: "untouched m s \<Longrightarrow> claimed_or_not C fresh path secret now m s"
  by (simp add: claimed_or_not_def untouched_wrote untouched_cell)

lemma claim_completion_at_runs:
  fixes m :: "'r desk" and C :: "'u flow_context"
  assumes a: "apart fresh path m"
  shows "runs (\<lambda>s. s = m) (claim_completion_at C fresh path secret now)
     (claimed_or_not C fresh path secret now m)
     (\<lambda>_ s. wrote (name_of path m) (temporary_of fresh path m) m s
        \<and> (\<exists>bytes. claimable C path m secret now bytes \<and> private_cell path s = Some (True, bytes)))"
    (is "runs _ _ ?C ?R")
proof -
  have tidy: "tidy m" "full_path path m \<noteq> [] \<Longrightarrow> last (full_path path m) \<noteq> temporary_name fresh"
    using a by (simp_all add: apart_def)
  have look: "runs P f (untouched m) Q \<Longrightarrow> runs P f ?C Q" for P Q and f :: "('r desk, 'b) io"
    by (erule runs_weaken) (auto intro: untouched_claim)
  have read: "runs (untouched m) (io_get (\<lambda>m. capped (contents path m)))
      (untouched m) (\<lambda>bytes s. untouched m s \<and> bytes = capped (contents path m))"
    by (rule runs_get) (simp add: contents_def untouched_def same_world_def full_path_def)
  have pr: "runs (untouched m) (probe e) (untouched m) (\<lambda>_. untouched m)" for e
    by (rule runs_probe) simp_all
  have some: "ledger C path m = Some records"
    if "opened_as m (name_of path m) (Some ())" "len (capped (contents path m)) \<le> 65536"
      "fc_read C (capped (contents path m)) = Some records" for records
    using that
    by (auto simp: opened_as_def ledger_def private_cell_def contents_def name_of_def file_at_def)
  have none: "ledger C path m = Some []" if "opened_as m (name_of path m) None"
    using that by (simp add: opened_as_def ledger_def private_cell_def)
  let ?read = "\<lambda>opened. if opened = None then io_return []
              else
              io_bind (probe flow_unavailable) (\<lambda>_.
              io_bind (io_get (\<lambda>m. capped (contents path m))) (\<lambda>bytes.
              if len bytes > 65536
              then io_fail (new_error CorruptStorage ''Browser replay ledger exceeds its limit'')
              else io_lift (ok_or (new_error CorruptStorage
                     ''Browser replay ledger is invalid; authentication was not submitted'')
                   (fc_read C bytes))))"
  have found: "runs (\<lambda>s. untouched m s \<and> opened_as m (name_of path m) opened) (?read opened) (untouched m)
      (\<lambda>records s. untouched m s \<and> ledger C path m = Some records)" for opened
  proof (cases opened)
    case None
    then show ?thesis by (auto intro!: runs_return simp: none)
  next
    case (Some u)
    have "runs (\<lambda>s. untouched m s \<and> opened_as m (name_of path m) (Some ()))
      (io_bind (probe flow_unavailable) (\<lambda>_.
              io_bind (io_get (\<lambda>m. capped (contents path m))) (\<lambda>bytes.
              if len bytes > 65536
              then io_fail (new_error CorruptStorage ''Browser replay ledger exceeds its limit'')
              else io_lift (ok_or (new_error CorruptStorage
                     ''Browser replay ledger is invalid; authentication was not submitted'')
                   (fc_read C bytes))))) (untouched m)
      (\<lambda>records s. untouched m s \<and> ledger C path m = Some records)"
    proof (rule runs_pre, erule conjunct2)
      assume o: "opened_as m (name_of path m) (Some ())"
      have "runs (untouched m) (io_bind (probe flow_unavailable) (\<lambda>_.
              io_bind (io_get (\<lambda>m. capped (contents path m))) (\<lambda>bytes.
              if len bytes > 65536
              then io_fail (new_error CorruptStorage ''Browser replay ledger exceeds its limit'')
              else io_lift (ok_or (new_error CorruptStorage
                     ''Browser replay ledger is invalid; authentication was not submitted'')
                   (fc_read C bytes))))) (untouched m)
        (\<lambda>records s. untouched m s \<and> ledger C path m = Some records)"
        by (rule runs_bind [OF pr], rule runs_bind [OF read], rule runs_if)
          (auto intro!: runs_fail runs_lift intro: some [OF o] simp: ok_or_Inr_iff)
      then show "runs (\<lambda>s. untouched m s \<and> opened_as m (name_of path m) (Some ()))
        (io_bind (probe flow_unavailable) (\<lambda>_.
              io_bind (io_get (\<lambda>m. capped (contents path m))) (\<lambda>bytes.
              if len bytes > 65536
              then io_fail (new_error CorruptStorage ''Browser replay ledger exceeds its limit'')
              else io_lift (ok_or (new_error CorruptStorage
                     ''Browser replay ledger is invalid; authentication was not submitted'')
                   (fc_read C bytes))))) (untouched m)
        (\<lambda>records s. untouched m s \<and> ledger C path m = Some records)"
        by (rule runs_weaken) simp_all
    qed
    then show ?thesis using Some by simp
  qed
  have stores: "runs (untouched m) (atomic_write fresh path bytes True) ?C ?R"
    if "claimable C path m secret now bytes" for bytes
    by (rule runs_weaken [OF atomic_write_runs [OF tidy]])
      (use that in \<open>auto simp: claimed_or_not_def dest: settled_wrote settled_cell\<close>)
  have opens: "runs (\<lambda>s. s = m) (open_private_read path) (untouched m)
      (\<lambda>r s. untouched m s \<and> opened_as m (name_of path m) r)"
    by (rule runs_weaken [OF open_private_read_runs [of m path]]) simp_all
  show ?thesis
    unfolding claim_completion_at_def Let_def
  proof (rule runs_bind [OF look [OF opens]])
    fix opened
    let ?rest = "\<lambda>found. if list_ex (\<lambda>r. cs_digest r = fc_digest C secret) (filter (\<lambda>r. cs_expires r > now) found)
     then io_fail (new_error AuthenticationRejected
            ''Browser completion was already consumed; start a fresh authentication'')
     else if length (filter (\<lambda>r. cs_expires r > now) found) \<ge> 256
     then io_fail (new_error Busy
            ''Browser replay ledger is full; retry after previous transactions expire'')
     else
     io_bind (io_lift (ok_or flow_unavailable
       (fc_bytes C (filter (\<lambda>r. cs_expires r > now) found @ [ledger_entry C secret now])))) (\<lambda>bytes.
     atomic_write fresh path bytes True)"
    show "runs (\<lambda>s. untouched m s \<and> opened_as m (name_of path m) opened)
        (io_bind (?read opened) ?rest) ?C ?R"
    proof (rule runs_bind [OF look [OF found]])
      fix records
      show "runs (\<lambda>s. untouched m s \<and> ledger C path m = Some records) (?rest records) ?C ?R"
      proof (rule runs_pre, erule conjunct2, intro runs_if)
        assume l: "ledger C path m = Some records"
          and d: "\<not> list_ex (\<lambda>r. cs_digest r = fc_digest C secret) (filter (\<lambda>r. cs_expires r > now) records)"
          and n: "\<not> length (filter (\<lambda>r. cs_expires r > now) records) \<ge> 256"
        have ok: "claimable C path m secret now bytes"
          if "fc_bytes C (filter (\<lambda>r. cs_expires r > now) records @ [ledger_entry C secret now]) = Some bytes" for bytes
          using that l d n by (auto simp: claimable_def Let_def list_ex_iff)
        show "runs (\<lambda>s. untouched m s \<and> ledger C path m = Some records)
          (io_bind (io_lift (ok_or flow_unavailable
             (fc_bytes C (filter (\<lambda>r. cs_expires r > now) records @ [ledger_entry C secret now])))) (\<lambda>bytes.
           atomic_write fresh path bytes True)) ?C ?R"
        proof (rule runs_bind [OF runs_lift [where R = "\<lambda>bytes s. untouched m s \<and> claimable C path m secret now bytes"]])
          show "runs (\<lambda>s. untouched m s \<and> claimable C path m secret now bytes)
              (atomic_write fresh path bytes True) ?C ?R" for bytes
            by (rule runs_pre, erule conjunct2) (rule runs_weaken [OF stores]; simp)
        qed (auto simp: ok_or_Inr_iff intro: ok untouched_claim)
      qed (auto intro!: runs_fail intro: untouched_claim)
    qed
  qed
qed

section \<open>Remembering\<close>

definition ledger_path :: "os_path \<Rightarrow> os_path" where
  "ledger_path D = joined D ''consumed-callbacks.json''"

text \<open>The ledger holds the credential until a time.\<close>

definition remembers :: "'u flow_context \<Rightarrow> os_path \<Rightarrow> string \<Rightarrow> u64 \<Rightarrow> 'r desk \<Rightarrow> bool" where
  "remembers C D secret t m \<longleftrightarrow> tidy m
     \<and> (\<exists>records. ledger C (ledger_path D) m = Some records
        \<and> (\<exists>r\<in>set records. cs_digest r = fc_digest C secret \<and> t \<le> cs_expires r))"

lemma ledger_written:
  assumes "ledger_codec_ok C" "length rs \<le> 256" "fc_bytes C rs = Some bytes"
    and "private_cell p m = Some (True, bytes)"
  shows "ledger C p m = Some rs"
proof -
  have "len bytes \<le> 65536" "fc_read C bytes = Some rs"
    using assms(1,2,3) unfolding ledger_codec_ok_def by blast+
  then show ?thesis using assms(4) by (simp add: ledger_def capped_code)
qed

lemma claimable_ledger:
  assumes "ledger_codec_ok C" "claimable C p m secret now bytes"
    and "private_cell p s = Some (True, bytes)"
  shows "\<exists>records. ledger C p m = Some records \<and> fc_digest C secret \<notin> cs_digest ` {r \<in> set records. cs_expires r > now}
    \<and> ledger C p s = Some (filter (\<lambda>r. cs_expires r > now) records @ [ledger_entry C secret now])"
proof -
  obtain records where r: "ledger C p m = Some records"
    "fc_digest C secret \<notin> cs_digest ` set (filter (\<lambda>r. cs_expires r > now) records)"
    "length (filter (\<lambda>r. cs_expires r > now) records) < 256"
    "fc_bytes C (filter (\<lambda>r. cs_expires r > now) records @ [ledger_entry C secret now]) = Some bytes"
    using assms(2) by (auto simp: claimable_def Let_def)
  have "ledger C p s = Some (filter (\<lambda>r. cs_expires r > now) records @ [ledger_entry C secret now])"
    by (rule ledger_written [OF assms(1) _ r(4) assms(3)]) (use r(3) in simp)
  then show ?thesis using r(1,2) by auto
qed

lemma apart_ledger: "tidy m \<Longrightarrow> apart fresh (ledger_path D) m"
  unfolding ledger_path_def by (rule apart_joined) (simp_all add: temporary_name_def)

lemma calm_ledger: "calm m0 m \<Longrightarrow> ledger C (ledger_path D) m = ledger C (ledger_path D) m0"
  by (simp add: ledger_def ledger_path_def private_cell_calm)

text \<open>\<open>claim_completion\<close> with its directory and its clock.\<close>

lemma claim_completion_runs:
  fixes m :: "'r desk" and C :: "'u flow_context"
  assumes t: "tidy m" and D: "fc_directory C = Some D"
  shows "runs (\<lambda>s. s = m) (claim_completion C fresh clock secret)
     (\<lambda>s. \<exists>m1 now. calm m m1 \<and> (s = m1 \<or> clock = Some now \<and> claimed_or_not C fresh (ledger_path D) secret now m1 s))
     (\<lambda>_ s. \<exists>m1 now bytes. calm m m1 \<and> clock = Some now
        \<and> wrote (name_of (ledger_path D) m1) (temporary_of fresh (ledger_path D) m1) m1 s
        \<and> claimable C (ledger_path D) m1 secret now bytes
        \<and> private_cell (ledger_path D) s = Some (True, bytes))"
    (is "runs _ _ ?C ?R")
proof -
  have ens: "runs (\<lambda>s. s = m) (io_map_err (new_error AuthorizationDenied ''Browser IPC ownership could not be verified'')
       (ensure_private_directory D)) (calm m) (\<lambda>_. calm m)"
    using keeps_map_err [OF calm_ensure [of m D], of "new_error AuthorizationDenied ''Browser IPC ownership could not be verified''"]
    unfolding keeps_def by (rule runs_weaken) simp_all
  have ens': "runs (\<lambda>s. s = m) (io_map_err (new_error AuthorizationDenied ''Browser IPC ownership could not be verified'')
       (ensure_private_directory D)) ?C (\<lambda>_. calm m)"
    by (rule runs_weaken [OF ens]) auto
  have claim: "runs (calm m) (claim_completion_at C fresh (ledger_path D) secret now) ?C ?R"
    if "clock = Some now" for now
  proof (rule runs_from)
    fix m1 assume c: "calm m m1"
    have a: "apart fresh (ledger_path D) m1" by (rule apart_ledger [OF calm_tidy [OF c t]])
    show "runs (\<lambda>s. s = m1) (claim_completion_at C fresh (ledger_path D) secret now) ?C ?R"
      by (rule runs_weaken [OF claim_completion_at_runs [OF a]]) (use c that in auto)
  qed
  have get: "runs (\<lambda>s. s = m) (io_lift (ok_or flow_unavailable (fc_directory C))) ?C (\<lambda>E s. s = m \<and> E = D)"
    using D by (intro runs_lift) (auto intro: exI [of _ m])
  show ?thesis
    unfolding claim_completion_def
  proof (rule runs_bind [OF get])
    fix E
    show "runs (\<lambda>s. s = m \<and> E = D)
       (io_bind (io_map_err (new_error AuthorizationDenied ''Browser IPC ownership could not be verified'')
          (ensure_private_directory E)) (\<lambda>_.
        io_bind (io_lift (ok_or flow_unavailable clock)) (\<lambda>now.
        claim_completion_at C fresh (joined E ''consumed-callbacks.json'') secret now))) ?C ?R"
    proof (rule runs_pre, erule conjunct2)
      assume E: "E = D"
      have "runs (\<lambda>s. s = m)
         (io_bind (io_map_err (new_error AuthorizationDenied ''Browser IPC ownership could not be verified'')
            (ensure_private_directory D)) (\<lambda>_.
          io_bind (io_lift (ok_or flow_unavailable clock)) (\<lambda>now.
          claim_completion_at C fresh (joined D ''consumed-callbacks.json'') secret now))) ?C ?R"
      proof (rule runs_bind [OF ens'])
        show "runs (calm m) (io_bind (io_lift (ok_or flow_unavailable clock)) (\<lambda>now.
            claim_completion_at C fresh (joined D ''consumed-callbacks.json'') secret now)) ?C ?R" for u :: unit
        proof (cases clock)
          case None
          then show ?thesis by (auto simp: runs_def io_bind_def io_lift_def)
        next
          case (Some now)
          then show ?thesis using claim [OF Some] by (simp add: runs_def io_bind_def io_lift_def ledger_path_def)
        qed
      qed
      then show "runs (\<lambda>s. s = m \<and> E = D)
         (io_bind (io_map_err (new_error AuthorizationDenied ''Browser IPC ownership could not be verified'')
            (ensure_private_directory E)) (\<lambda>_.
          io_bind (io_lift (ok_or flow_unavailable clock)) (\<lambda>now.
          claim_completion_at C fresh (joined E ''consumed-callbacks.json'') secret now))) ?C ?R"
        unfolding E by (rule runs_weaken) simp_all
    qed
  qed
qed

lemma remembers_calm: "calm m s \<Longrightarrow> remembers C D secret t m \<Longrightarrow> remembers C D secret t s"
  by (auto simp: remembers_def calm_ledger calm_tidy)

lemma remembers_claimed:
  assumes K: "ledger_codec_ok C" and c: "claimed_or_not C fresh (ledger_path D) other now m s"
    and r: "remembers C D secret t m" and n: "now < t"
  shows "remembers C D secret t s"
proof -
  have tidy: "tidy s" using c r wrote_tidy by (auto simp: claimed_or_not_def remembers_def)
  from c consider "private_cell (ledger_path D) s = private_cell (ledger_path D) m"
    | bytes where "claimable C (ledger_path D) m other now bytes"
        "private_cell (ledger_path D) s = Some (True, bytes)"
    by (auto simp: claimed_or_not_def)
  then show ?thesis
  proof cases
    case 1
    then have "ledger C (ledger_path D) s = ledger C (ledger_path D) m" by (simp add: ledger_def)
    then show ?thesis using r tidy by (simp add: remembers_def)
  next
    case 2
    obtain records e where e: "ledger C (ledger_path D) m = Some records" "e \<in> set records"
      "cs_digest e = fc_digest C secret" "t \<le> cs_expires e"
      using r by (auto simp: remembers_def)
    have "now < cs_expires e" using n e(4) by (rule less_le_trans)
    then show ?thesis
      using claimable_ledger [OF K 2] e tidy by (auto simp: remembers_def)
  qed
qed

text \<open>Claims one after another, of one process or of many, some of them failed or cut short.\<close>

definition claim_all ::
  "'u flow_context \<Rightarrow> (string \<times> u64 option \<times> string) list \<Rightarrow> 'r desk \<Rightarrow> 'r desk" where
  "claim_all C cs m = fold (\<lambda>(fresh, clock, secret) m. snd (claim_completion C fresh clock secret m)) cs m"

definition all_before :: "(string \<times> u64 option \<times> string) list \<Rightarrow> u64 \<Rightarrow> bool" where
  "all_before cs t \<longleftrightarrow> list_all (\<lambda>(fresh, clock, secret). case clock of Some now \<Rightarrow> now < t | None \<Rightarrow> True) cs"

lemma remembers_step:
  assumes K: "ledger_codec_ok C" and D: "fc_directory C = Some D"
    and r: "remembers C D secret t m" and n: "\<And>now. clock = Some now \<Longrightarrow> now < t"
  shows "remembers C D secret t (snd (claim_completion C fresh clock other m))"
proof -
  have "tidy m" using r by (simp add: remembers_def)
  from runsD(1) [OF claim_completion_runs [OF this D] refl surjective_pairing]
  obtain m1 now where c: "calm m m1"
    and s: "snd (claim_completion C fresh clock other m) = m1
      \<or> clock = Some now \<and> claimed_or_not C fresh (ledger_path D) other now m1
          (snd (claim_completion C fresh clock other m))"
    by blast
  have "remembers C D secret t m1" using remembers_calm [OF c r] .
  then show ?thesis using s remembers_claimed [OF K] n by metis
qed

lemma remembers_all:
  assumes "ledger_codec_ok C" "fc_directory C = Some D"
  shows "remembers C D secret t m \<Longrightarrow> all_before cs t \<Longrightarrow> remembers C D secret t (claim_all C cs m)"
proof (induction cs arbitrary: m)
  case (Cons c cs)
  obtain fresh clock other where c: "c = (fresh, clock, other)" by (cases c)
  have "remembers C D secret t (snd (claim_completion C fresh clock other m))"
    using remembers_step [OF assms Cons.prems(1), of clock fresh other] Cons.prems(2) c
    by (cases clock) (auto simp: all_before_def)
  then show ?case
    using Cons c by (simp add: claim_all_def all_before_def)
qed (simp add: claim_all_def)

text \<open>C16: a completion that was claimed cannot be claimed again before it expires, a day later:
not by this process and not by another, whatever else is claimed in between, and
however many of those claims failed half-way or were cut short by a crash. The ledger keeps digests
only, and the file system keeps what it acknowledged.\<close>

theorem completion_consumed_once:
  assumes "ledger_codec_ok C" "fc_directory C = Some D" "tidy m"
    and "claim_completion C fresh (Some now) secret m = (Done (), m1)"
    and "all_before cs (cs_expires (ledger_entry C secret now))"
    and "later < cs_expires (ledger_entry C secret now)"
  shows "fst (claim_completion C fresh' (Some later) secret (claim_all C cs m1)) \<noteq> Done ()"
proof
  let ?t = "cs_expires (ledger_entry C secret now)" and ?m = "claim_all C cs m1"
  assume again: "fst (claim_completion C fresh' (Some later) secret ?m) = Done ()"
  obtain m0 bytes where c: "calm m m0"
    and w: "wrote (name_of (ledger_path D) m0) (temporary_of fresh (ledger_path D) m0) m0 m1"
      "claimable C (ledger_path D) m0 secret now bytes" "private_cell (ledger_path D) m1 = Some (True, bytes)"
    using runsD(2) [OF claim_completion_runs [OF assms(3,2)] refl assms(4) refl] by auto
  have "tidy m1" using wrote_tidy [OF w(1)] calm_tidy [OF c assms(3)] by blast
  then have "remembers C D secret ?t m1"
    using claimable_ledger [OF assms(1) w(2,3)] by (auto simp: remembers_def ledger_entry_def)
  then have r: "remembers C D secret ?t ?m" by (rule remembers_all [OF assms(1,2) _ assms(5)])
  then have t: "tidy ?m" by (simp add: remembers_def)
  obtain s where s: "claim_completion C fresh' (Some later) secret ?m = (Done (), s)"
    using again by (cases "claim_completion C fresh' (Some later) secret ?m") auto
  obtain m2 bytes2 where c2: "calm ?m m2" and k: "claimable C (ledger_path D) m2 secret later bytes2"
    using runsD(2) [OF claim_completion_runs [OF t assms(2)] refl s refl] by auto
  have "remembers C D secret ?t m2" by (rule remembers_calm [OF c2 r])
  then obtain records e where e: "ledger C (ledger_path D) m2 = Some records" "e \<in> set records"
      "cs_digest e = fc_digest C secret" "?t \<le> cs_expires e"
    by (auto simp: remembers_def)
  have "later < cs_expires e" using assms(6) e(4) by (rule less_le_trans)
  then have "fc_digest C secret \<in> cs_digest ` {x \<in> set records. later < cs_expires x}"
    using e(2,3) by (intro image_eqI [of _ _ e]) simp_all
  then show False using k e(1) by (auto simp: claimable_def Let_def)
qed

lemma gp_ledger_ok: "ledger_codec_ok gp_context"
  by (simp add: ledger_codec_ok_def gp_context_def)

theorem completion_consumed_once_witness:
  "fst (claim_completion gp_context ''g'' (Some 200) ''secret'' gp_claimed) \<noteq> Done ()"
proof -
  have c: "claim_completion gp_context ''f'' (Some 100) ''secret'' gp_desk = (Done (), gp_claimed)"
    using gp_claim by (metis gp_claimed_def prod.collapse)
  have t: "tidy gp_desk" by (simp add: tidy_def gp_desk_def)
  have d: "fc_directory gp_context = Some \<lparr>is_absolute = True, components = [''c'']\<rparr>"
    by (simp add: gp_context_def)
  have e: "cs_expires (ledger_entry gp_context ''secret'' 100) = 86500" by code_simp
  show ?thesis
    using completion_consumed_once [OF gp_ledger_ok d t c, of "[]" 200 "''g''"]
    by (simp add: all_before_def claim_all_def e)
qed

end
