(* ===== verification/ClientDaemon.thy ===== *)
theory ClientDaemon
  imports Ipc Effects
begin

text \<open>
  The client's side of the control protocol: \<open>crates/client/src/daemon.rs\<close>, and the checks of
  \<open>crates/service/src/unix.rs\<close> it makes before it speaks. A connection is the bytes that are still
  to arrive on it, with what happens after the last of them, and the faults its writes meet; the
  process has the endpoints it will find when it dials, the identifiers it will draw and the
  requests it has written. A wait that no more bytes end is ended by the deadline of the code,
  or, where the code sets none, never.
\<close>

lemma io_ends:
  "io_return x m = (Done y, m') \<longleftrightarrow> y = x \<and> m' = m"
  "io_lift r m = (Done y, m') \<longleftrightarrow> r = Inr y \<and> m' = m"
  "io_get f m = (Done y, m') \<longleftrightarrow> y = f m \<and> m' = m"
  "io_fail e m \<noteq> (Done y, m')"
  by (auto simp: io_defs split: sum.splits)

section \<open>Errors\<close>

definition unavailable :: err where
  "unavailable = new_error ServiceUnavailable
     ''Tunnel service is unavailable. Install or repair the service, then retry; connection state is unknown.''"

datatype io_kind = PermissionDenied | OtherIo

definition transport_error :: "io_kind \<Rightarrow> err" where
  "transport_error e =
     (if e = PermissionDenied
      then new_error AuthorizationDenied
        ''The tunnel service endpoint could not be authenticated. Repair the installation; no credentials were sent.''
      else unavailable)"

definition incompatible :: err where
  "incompatible = new_error ProtocolViolation
     ''The tunnel service returned an incompatible response. Repair or update the installation.''"

section \<open>The endpoint\<close>

text \<open>What \<open>symlink_metadata\<close> says of a path, and what dialing finds: the parent of the endpoint, the
  ancestors of its canonical path, the endpoint itself, and the stream with the user of its peer;
  \<open>None\<close> is a connection that is never made.\<close>

datatype node_kind = DirNode | SocketNode | OtherNode

record node_meta =
  nm_kind :: node_kind
  nm_uid :: u32
  nm_mode :: u32

datatype write_fault = AtHeader | AtPayload | AtFlush | Blocks

record wire =
  wi_in :: "u8 list"
  wi_open :: bool
  wi_faults :: "write_fault option list"

record dial =
  dl_parent :: "io_kind + node_meta"
  dl_ancestors :: "io_kind + (io_kind + node_meta) list"
  dl_endpoint :: "io_kind + node_meta"
  dl_stream :: "(io_kind + (io_kind + u32) \<times> wire) option"

definition validate_ancestor :: "io_kind + node_meta \<Rightarrow> io_kind + unit" where
  "validate_ancestor found =
     rbind found (\<lambda>m.
     if nm_kind m \<noteq> DirNode \<or> nm_uid m \<noteq> 0 \<or> nm_mode m AND 0x12 \<noteq> 0
     then Inl PermissionDenied else Inr ())"

definition validate_control_directory :: "dial \<Rightarrow> io_kind + unit" where
  "validate_control_directory d =
     rbind (dl_parent d) (\<lambda>m.
     if nm_kind m \<noteq> DirNode \<or> nm_uid m \<noteq> 0 \<or> nm_mode m AND 0xfff \<noteq> 0x1ed
     then Inl PermissionDenied
     else rbind (dl_ancestors d) (check_all validate_ancestor))"

definition validate_control_endpoint :: "dial \<Rightarrow> io_kind + unit" where
  "validate_control_endpoint d =
     rbind (validate_control_directory d) (\<lambda>_.
     rbind (dl_endpoint d) (\<lambda>m.
     if nm_kind m \<noteq> SocketNode \<or> nm_uid m \<noteq> 0 \<or> nm_mode m AND 0xfff \<noteq> 0x1b6
     then Inl PermissionDenied else Inr ()))"

text \<open>\<open>None\<close>: still waiting.\<close>

definition connect_control :: "dial \<Rightarrow> (io_kind + wire) option" where
  "connect_control d =
     (case validate_control_endpoint d of
        Inl e \<Rightarrow> Some (Inl e)
      | Inr _ \<Rightarrow>
          (case dl_stream d of
             None \<Rightarrow> None
           | Some r \<Rightarrow> Some (rbind r (\<lambda>(peer, w).
               rbind peer (\<lambda>user. if user \<noteq> 0 then Inl PermissionDenied else Inr w)))))"

section \<open>Frames on a wire\<close>

record 'u ipc_codec =
  ic_hello_bytes :: "hello \<Rightarrow> u8 list list option"
  ic_request_bytes :: "'u request \<Rightarrow> u8 list list option"
  ic_hello :: "u8 list \<Rightarrow> hello option"
  ic_response :: "u8 list \<Rightarrow> response option"
  ic_event :: "u8 list \<Rightarrow> event option"

text \<open>The bytes end before a frame that could still be completed.\<close>

definition frame_short :: "u8 list \<Rightarrow> bool" where
  "frame_short s =
     (case read_u32 s of
        None \<Rightarrow> True
      | Some (n, rest) \<Rightarrow> n \<noteq> 0 \<and> uint n \<le> max_frame_bytes \<and> len rest < uint n)"

definition read_wire :: "(u8 list \<Rightarrow> 'a option) \<Rightarrow> wire \<Rightarrow> ('a \<times> wire) result option" where
  "read_wire decode w =
     (if wi_open w \<and> frame_short (wi_in w) then None
      else Some (rbind (read_frame decode (wi_in w)) (\<lambda>(v, rest). Inr (v, w\<lparr>wi_in := rest\<rparr>))))"

definition write_wire :: "('a \<Rightarrow> u8 list list option) \<Rightarrow> 'a \<Rightarrow> wire \<Rightarrow> wire result option" where
  "write_wire encode v w =
     (case write_frame encode v of
        Inl e \<Rightarrow> Some (Inl e)
      | Inr _ \<Rightarrow>
          (case wi_faults w of
             Some AtHeader # _ \<Rightarrow> Some (Inl (protocol_error ''Cannot write IPC header''))
           | Some AtPayload # _ \<Rightarrow> Some (Inl (protocol_error ''Cannot write IPC payload''))
           | Some AtFlush # _ \<Rightarrow> Some (Inl (protocol_error ''Cannot flush IPC payload''))
           | Some Blocks # _ \<Rightarrow> None
           | None # fs \<Rightarrow> Some (Inr (w\<lparr>wi_faults := fs\<rparr>))
           | [] \<Rightarrow> Some (Inr w)))"

text \<open>A wait that the deadline ends.\<close>

definition in_time :: "'a result option \<Rightarrow> 'a result" where
  "in_time r = (case r of None \<Rightarrow> Inl unavailable | Some r \<Rightarrow> r)"

section \<open>Requests\<close>

record 'u client =
  cl_dials :: "dial list"
  cl_ids :: "uuid list"
  cl_asked :: "'u ipc_method list"

type_synonym connection = "wire option"

definition nil_uuid :: uuid where
  "nil_uuid = 0"

definition hello_exchange :: "'u ipc_codec \<Rightarrow> wire \<Rightarrow> wire result" where
  "hello_exchange K w =
     rbind (in_time (write_wire (ic_hello_bytes K) \<lparr>hello_version = version\<rparr> w)) (\<lambda>w.
     rbind (in_time (read_wire (ic_hello K) w)) (\<lambda>(h, w).
     rbind (hello_validate h) (\<lambda>_. Inr w)))"

definition dial_control :: "'u ipc_codec \<Rightarrow> dial \<Rightarrow> wire result" where
  "dial_control K d =
     (case connect_control d of
        None \<Rightarrow> Inl unavailable
      | Some (Inl e) \<Rightarrow> Inl (transport_error e)
      | Some (Inr w) \<Rightarrow> hello_exchange K w)"

definition open_connection :: "'u ipc_codec \<Rightarrow> (('u, 'z) client_scheme, connection) io" where
  "open_connection K m =
     (case cl_dials m of
        [] \<Rightarrow> (Fault unavailable, m)
      | d # ds \<Rightarrow> io_lift (rbind (dial_control K d) (\<lambda>w. Inr (Some w))) (m\<lparr>cl_dials := ds\<rparr>))"

definition draw_id :: "(('u, 'z) client_scheme, uuid) io" where
  "draw_id m =
     (case cl_ids m of [] \<Rightarrow> (Done nil_uuid, m) | i # js \<Rightarrow> (Done i, m\<lparr>cl_ids := js\<rparr>))"

definition log_request :: "'u ipc_codec \<Rightarrow> 'u request \<Rightarrow> (('u, 'z) client_scheme, unit) io" where
  "log_request K q m =
     (Done (), case write_frame (ic_request_bytes K) q of
                 Inl _ \<Rightarrow> m
               | Inr _ \<Rightarrow> m\<lparr>cl_asked := cl_asked m @ [rq_method q]\<rparr>)"

text \<open>The stream is taken for the exchange and given back only when the answer is to this request.\<close>

definition exchange :: "'u ipc_codec \<Rightarrow> 'u request \<Rightarrow> wire \<Rightarrow> payload result \<times> connection" where
  "exchange K q w =
     (case rbind (in_time (write_wire (ic_request_bytes K) q w)) (\<lambda>w.
             in_time (read_wire (ic_response K) w)) of
        Inl e \<Rightarrow> (Inl e, None)
      | Inr (r, w) \<Rightarrow>
          if rs_request_id r \<noteq> rq_request_id q then (Inl incompatible, None)
          else (rs_result r, Some w))"

definition call_daemon ::
  "'u ipc_codec \<Rightarrow> 'u ipc_method \<Rightarrow> connection
     \<Rightarrow> (('u, 'z) client_scheme, payload result \<times> connection) io" where
  "call_daemon K q c =
     (case c of
        None \<Rightarrow> io_return (Inl unavailable, None)
      | Some w \<Rightarrow>
          io_bind draw_id (\<lambda>i.
          let request = \<lparr>rq_request_id = i, rq_method = q\<rparr> in
          io_bind (log_request K request) (\<lambda>_. io_return (exchange K request w))))"

text \<open>A call on a connection that is not used again afterwards.\<close>

definition call_once ::
  "'u ipc_codec \<Rightarrow> 'u ipc_method \<Rightarrow> connection \<Rightarrow> (('u, 'z) client_scheme, payload) io" where
  "call_once K q c = io_bind (call_daemon K q c) (\<lambda>(r, _). io_lift r)"

definition snapshot_of :: "payload result \<Rightarrow> snapshot result" where
  "snapshot_of r = rbind r (\<lambda>p. case p of PSnapshot s \<Rightarrow> Inr s | _ \<Rightarrow> Inl incompatible)"

definition call_snapshot ::
  "'u ipc_codec \<Rightarrow> connection \<Rightarrow> (('u, 'z) client_scheme, snapshot result \<times> connection) io" where
  "call_snapshot K c =
     io_bind (call_daemon K MSnapshot c) (\<lambda>(r, c). io_return (snapshot_of r, c))"

definition daemon_snapshot :: "'u ipc_codec \<Rightarrow> (('u, 'z) client_scheme, snapshot) io" where
  "daemon_snapshot K =
     io_bind (open_connection K) (\<lambda>c. io_bind (call_snapshot K c) (\<lambda>(r, _). io_lift r))"

definition daemon_disconnect :: "'u ipc_codec \<Rightarrow> (('u, 'z) client_scheme, unit) io" where
  "daemon_disconnect K =
     io_bind (open_connection K) (\<lambda>c.
     io_bind (call_once K MDisconnect c) (\<lambda>p.
     if p = PAccepted then io_return () else io_fail incompatible))"

section \<open>Events\<close>

record events =
  es_stream :: connection
  es_last :: "(uuid \<times> u64) option"
  es_initial :: "event option"
  es_backlog :: "log_record list"
  es_log_stream :: bool

definition snapshot_event :: "snapshot \<Rightarrow> event" where
  "snapshot_event s =
     \<lparr>ev_instance = service_instance_id s, ev_sequence = sequence s, ev_payload = ESnapshot s\<rparr>"

definition subscribe_events ::
  "'u ipc_codec \<Rightarrow> connection \<Rightarrow> (('u, 'z) client_scheme, events) io" where
  "subscribe_events K c =
     io_bind (call_daemon K MSubscribe c) (\<lambda>(r, c).
     io_bind (io_lift r) (\<lambda>p.
     case p of
       PSnapshot s \<Rightarrow>
         io_return \<lparr>es_stream = c, es_last = None, es_initial = Some (snapshot_event s),
                    es_backlog = [], es_log_stream = False\<rparr>
     | _ \<Rightarrow> io_fail incompatible))"

definition follow_logs ::
  "'u ipc_codec \<Rightarrow> connection \<Rightarrow> (('u, 'z) client_scheme, events) io" where
  "follow_logs K c =
     io_bind (call_daemon K (MLogs True) c) (\<lambda>(r, c).
     io_bind (io_lift r) (\<lambda>p.
     case p of
       PLogs backlog \<Rightarrow>
         io_return \<lparr>es_stream = c, es_last = None, es_initial = None,
                    es_backlog = backlog, es_log_stream = True\<rparr>
     | _ \<Rightarrow> io_fail incompatible))"

definition take_backlog :: "events \<Rightarrow> log_record list \<times> events" where
  "take_backlog es = (es_backlog es, es\<lparr>es_backlog := []\<rparr>)"

text \<open>The next event of the wire; \<open>None\<close> while it is waited for, the stream being held by the wait.\<close>

definition fetch_event :: "'u ipc_codec \<Rightarrow> events \<Rightarrow> event result option \<times> events" where
  "fetch_event K es =
     (case es_initial es of
        Some e \<Rightarrow> (Some (Inr e), es\<lparr>es_initial := None\<rparr>)
      | None \<Rightarrow>
          (case es_stream es of
             None \<Rightarrow> (Some (Inl unavailable), es)
           | Some w \<Rightarrow>
               (case read_wire (ic_event K) w of
                  None \<Rightarrow> (None, es\<lparr>es_stream := None\<rparr>)
                | Some (Inl e) \<Rightarrow> (Some (Inl e), es\<lparr>es_stream := None\<rparr>)
                | Some (Inr (e, w)) \<Rightarrow> (Some (Inr e), es\<lparr>es_stream := Some w\<rparr>))))"

definition check_event :: "event \<Rightarrow> unit result" where
  "check_event e =
     (if ev_instance e = nil_uuid then Inl incompatible
      else case ev_payload e of
        ESnapshot s \<Rightarrow>
          if service_instance_id s \<noteq> ev_instance e \<or> sequence s \<noteq> ev_sequence e
          then Inl incompatible else Inr ()
      | ELog _ \<Rightarrow> Inr ())"

datatype event_step = Deliver | Skip | Gap

definition follows :: "uuid \<times> u64 \<Rightarrow> event \<Rightarrow> bool" where
  "follows p e \<longleftrightarrow> fst p = ev_instance e \<and> checked_add (snd p) 1 = Some (ev_sequence e)"

definition repeated :: "uuid \<times> u64 \<Rightarrow> event \<Rightarrow> bool" where
  "repeated p e \<longleftrightarrow> fst p = ev_instance e \<and> ev_sequence e \<le> snd p"

definition is_log :: "event \<Rightarrow> bool" where
  "is_log e = (case ev_payload e of ELog _ \<Rightarrow> True | ESnapshot _ \<Rightarrow> False)"

definition place_event :: "event \<Rightarrow> events \<Rightarrow> event_step \<times> events" where
  "place_event e es =
     (if (case es_last es of Some p \<Rightarrow> repeated p e | None \<Rightarrow> False) then (Skip, es)
      else if (case es_last es of Some p \<Rightarrow> \<not> follows p e | None \<Rightarrow> False) then (Gap, es)
      else
        let es = es\<lparr>es_last := Some (ev_instance e, ev_sequence e)\<rparr> in
        (if is_log e \<noteq> es_log_stream es then Skip else Deliver, es))"

definition lost_events :: err where
  "lost_events = new_error ServiceUnavailable
     ''Log stream lost events; reconnect to reload recent records''"

definition reload_event ::
  "'u ipc_codec \<Rightarrow> events \<Rightarrow> (('u, 'z) client_scheme, event result \<times> events) io" where
  "reload_event K es =
     (if es_log_stream es then io_return (Inl lost_events, es)
      else io_bind (io_try (daemon_snapshot K)) (\<lambda>r.
        case r of
          Inl e \<Rightarrow> io_return (Inl e, es)
        | Inr s \<Rightarrow> io_return (Inr (snapshot_event s),
            es\<lparr>es_last := Some (service_instance_id s, sequence s)\<rparr>)))"

definition unread :: "events \<Rightarrow> nat" where
  "unread es = (case es_initial es of Some _ \<Rightarrow> 1 | None \<Rightarrow> 0)
     + (case es_stream es of Some w \<Rightarrow> length (wi_in w) | None \<Rightarrow> 0)"

lemma read_frame_shorter: "read_frame decode s = Inr (v, rest) \<Longrightarrow> length rest < length s"
  by (auto simp: read_frame_iff_aux)

lemma fetch_event_unread: "fetch_event K es = (Some (Inr e), es') \<Longrightarrow> unread es' < unread es"
  by (auto simp: fetch_event_def unread_def read_wire_def rbind_Inr_iff read_frame_shorter
      split: option.splits sum.splits if_splits)

lemma place_event_unread: "unread (snd (place_event e es)) = unread es"
  by (simp add: place_event_def unread_def Let_def)

text \<open>\<open>Events::next\<close>; the result is None while it waits.\<close>

function next_event ::
  "'u ipc_codec \<Rightarrow> events \<Rightarrow> (('u, 'z) client_scheme, event result option \<times> events) io" where
  "next_event K es m =
     (case fetch_event K es of
        (None, es) \<Rightarrow> io_return (None, es) m
      | (Some (Inl e), es) \<Rightarrow> io_return (Some (Inl e), es) m
      | (Some (Inr e), es) \<Rightarrow>
          (case check_event e of
             Inl x \<Rightarrow> io_return (Some (Inl x), es) m
           | Inr _ \<Rightarrow>
               (case place_event e es of
                  (Deliver, es) \<Rightarrow> io_return (Some (Inr e), es) m
                | (Skip, es) \<Rightarrow> next_event K es m
                | (Gap, es) \<Rightarrow> io_bind (reload_event K es) (\<lambda>(r, es). io_return (Some r, es)) m)))"
  by pat_completeness auto
termination
proof (relation "measure (\<lambda>(K, es, m). unread es)", goal_cases)
  case (2 K es m x es1 x2 e u step es2)
  have "unread es1 < unread es"
    by (rule fetch_event_unread [of K _ e]) (use 2 in simp)
  moreover have "unread es2 = unread es1"
    using place_event_unread [of e es1] 2(5) [symmetric] by simp
  ultimately show ?case by simp
qed simp

declare next_event.simps [simp del]

end
