(* ===== verification/ClientEvents.thy ===== *)
theory ClientEvents
  imports ClientDaemon
begin

text \<open>
  What a client learns over its connections: requests are only written to an endpoint that root
  protects and serves, an answer is only taken for the request it names, and the records of a
  followed log are delivered in order without a silent gap.
\<close>

section \<open>The endpoint\<close>

definition root_protected :: "dial \<Rightarrow> bool" where
  "root_protected d \<longleftrightarrow>
     (\<exists>p ancestors s. dl_parent d = Inr p \<and> nm_kind p = DirNode \<and> nm_uid p = 0
        \<and> nm_mode p AND 0xfff = 0x1ed
        \<and> dl_ancestors d = Inr ancestors
        \<and> list_all (\<lambda>a. case a of Inl _ \<Rightarrow> False
             | Inr m \<Rightarrow> nm_kind m = DirNode \<and> nm_uid m = 0 \<and> nm_mode m AND 0x12 = 0) ancestors
        \<and> dl_endpoint d = Inr s \<and> nm_kind s = SocketNode \<and> nm_uid s = 0
        \<and> nm_mode s AND 0xfff = 0x1b6)"

lemma validate_ancestor_Inr:
  "validate_ancestor a = Inr u \<longleftrightarrow>
     (case a of Inl _ \<Rightarrow> False
      | Inr m \<Rightarrow> nm_kind m = DirNode \<and> nm_uid m = 0 \<and> nm_mode m AND 0x12 = 0)"
  by (cases a) (simp_all add: validate_ancestor_def)

lemma check_all_Inr: "check_all f xs = Inr u \<longleftrightarrow> list_all (\<lambda>x. f x = Inr ()) xs"
  by (induction xs) (auto simp: rbind_Inr_iff)

lemma validate_endpoint_Inr: "validate_control_endpoint d = Inr u \<longleftrightarrow> root_protected d"
proof -
  have "validate_control_directory d = Inr v \<longleftrightarrow>
     (\<exists>p ancestors. dl_parent d = Inr p \<and> nm_kind p = DirNode \<and> nm_uid p = 0
        \<and> nm_mode p AND 0xfff = 0x1ed \<and> dl_ancestors d = Inr ancestors
        \<and> list_all (\<lambda>a. case a of Inl _ \<Rightarrow> False
             | Inr m \<Rightarrow> nm_kind m = DirNode \<and> nm_uid m = 0 \<and> nm_mode m AND 0x12 = 0) ancestors)" for v
    by (auto simp: validate_control_directory_def rbind_Inr_iff check_all_Inr validate_ancestor_Inr)
  then show ?thesis
    by (auto simp: validate_control_endpoint_def rbind_Inr_iff root_protected_def)
qed

lemma dial_control_Inr:
  "dial_control K d = Inr w \<Longrightarrow>
   root_protected d \<and> (\<exists>v. dl_stream d = Some (Inr (Inr 0, v)) \<and> hello_exchange K v = Inr w)"
  by (auto simp: dial_control_def connect_control_def validate_endpoint_Inr rbind_Inr_iff
      split: option.splits sum.splits if_splits)

section \<open>Order of events\<close>

text \<open>The events that arrive on a wire, those of them that are not repeated, and a run without a
  gap: every event has the sequence number after the one before it, of the same service.\<close>

function wire_events :: "(u8 list \<Rightarrow> event option) \<Rightarrow> u8 list \<Rightarrow> event list" where
  "wire_events decode s =
     (case read_frame decode s of Inl _ \<Rightarrow> [] | Inr (e, rest) \<Rightarrow> e # wire_events decode rest)"
  by pat_completeness auto
termination
  by (relation "measure (\<lambda>(d, s). length s)") (auto simp: read_frame_shorter)

declare wire_events.simps [simp del]

definition event_place :: "event \<Rightarrow> uuid \<times> u64" where
  "event_place e = (ev_instance e, ev_sequence e)"

fun unrepeated :: "(uuid \<times> u64) option \<Rightarrow> event list \<Rightarrow> event list" where
  "unrepeated p [] = []"
| "unrepeated p (e # es) =
     (if (case p of Some q \<Rightarrow> repeated q e | None \<Rightarrow> False) then unrepeated p es
      else e # unrepeated (Some (event_place e)) es)"

fun gapless :: "(uuid \<times> u64) option \<Rightarrow> event list \<Rightarrow> bool" where
  "gapless p [] \<longleftrightarrow> True"
| "gapless p (e # es) \<longleftrightarrow>
     (case p of Some q \<Rightarrow> follows q e | None \<Rightarrow> True) \<and> gapless (Some (event_place e)) es"

fun end_place :: "(uuid \<times> u64) option \<Rightarrow> event list \<Rightarrow> (uuid \<times> u64) option" where
  "end_place p [] = p"
| "end_place p (e # es) = end_place (Some (event_place e)) es"

lemma unrepeated_append:
  "unrepeated p (xs @ ys) = unrepeated p xs @ unrepeated (end_place p (unrepeated p xs)) ys"
  by (induction xs arbitrary: p) auto

lemma gapless_append: "gapless p (xs @ ys) \<longleftrightarrow> gapless p xs \<and> gapless (end_place p xs) ys"
  by (induction xs arbitrary: p) auto

text \<open>A log stream between two calls.\<close>

definition log_stream_at :: "wire \<Rightarrow> (uuid \<times> u64) option \<Rightarrow> events \<Rightarrow> bool" where
  "log_stream_at w p es \<longleftrightarrow>
     es_log_stream es \<and> es_initial es = None \<and> es_stream es = Some w \<and> es_last es = p"

definition log_run ::
  "'u ipc_codec \<Rightarrow> wire \<Rightarrow> (uuid \<times> u64) option \<Rightarrow> event list \<Rightarrow> events \<Rightarrow> bool" where
  "log_run K w p shown_logs es \<longleftrightarrow>
     (\<exists>w' evs. wire_events (ic_event K) (wi_in w) = evs @ wire_events (ic_event K) (wi_in w')
        \<and> gapless p (unrepeated p evs) \<and> filter is_log (unrepeated p evs) = shown_logs
        \<and> log_stream_at w' (end_place p (unrepeated p evs)) es)"

lemma log_run_append:
  assumes "log_run K w p xs es1" "\<And>w1 q. log_stream_at w1 q es1 \<Longrightarrow> log_run K w1 q ys es2"
  shows "log_run K w p (xs @ ys) es2"
proof -
  obtain w1 evs where 1: "wire_events (ic_event K) (wi_in w) = evs @ wire_events (ic_event K) (wi_in w1)"
    "gapless p (unrepeated p evs)" "filter is_log (unrepeated p evs) = xs"
    "log_stream_at w1 (end_place p (unrepeated p evs)) es1"
    using assms(1) by (auto simp: log_run_def)
  obtain w2 evs2 where 2:
    "wire_events (ic_event K) (wi_in w1) = evs2 @ wire_events (ic_event K) (wi_in w2)"
    "gapless (end_place p (unrepeated p evs)) (unrepeated (end_place p (unrepeated p evs)) evs2)"
    "filter is_log (unrepeated (end_place p (unrepeated p evs)) evs2) = ys"
    "log_stream_at w2 (end_place (end_place p (unrepeated p evs))
       (unrepeated (end_place p (unrepeated p evs)) evs2)) es2"
    using assms(2) [OF 1(4)] by (auto simp: log_run_def)
  have e: "end_place p (xs @ ys) = end_place (end_place p xs) ys" for p xs ys
    by (induction xs arbitrary: p) auto
  show ?thesis
    unfolding log_run_def
    by (rule exI [of _ w2], rule exI [of _ "evs @ evs2"])
       (use 1 2 in \<open>simp add: unrepeated_append gapless_append e\<close>)
qed

lemma log_run_one:
  assumes "fetch_event K es = (Some (Inr e), es1)" "log_stream_at w p es"
    "place_event e es1 = (step, es2)" "step \<noteq> Gap"
  shows "log_run K w p (if step = Deliver then [e] else []) es2"
proof -
  obtain rest where r': "read_frame (ic_event K) (wi_in w) = Inr (e, rest)"
    and 1: "log_stream_at (w\<lparr>wi_in := rest\<rparr>) p es1"
    using assms(1,2)
    by (auto simp: fetch_event_def log_stream_at_def read_wire_def rbind_Inr_iff
        split: option.splits sum.splits if_splits)
  define w1 where "w1 = w\<lparr>wi_in := rest\<rparr>"
  have r: "read_frame (ic_event K) (wi_in w) = Inr (e, wi_in w1)" and 1: "log_stream_at w1 p es1"
    using r' 1 by (simp_all add: w1_def)
  have "wire_events (ic_event K) (wi_in w) = [e] @ wire_events (ic_event K) (wi_in w1)"
    by (subst wire_events.simps) (simp add: r)
  then show ?thesis
    unfolding log_run_def using assms(3,4) 1
    by (intro exI [of _ w1] exI [of _ "[e]"])
       (auto simp: place_event_def log_stream_at_def event_place_def Let_def
          split: option.splits if_splits)
qed

lemma next_event_logs:
  "next_event K es m = (Done (Some (Inr e), es'), m') \<Longrightarrow> log_stream_at w p es
    \<Longrightarrow> log_run K w p [e] es' \<and> m' = m"
proof (induction K es m arbitrary: w p rule: next_event.induct)
  case (1 K es m)
  obtain f es1 where f: "fetch_event K es = (f, es1)" by (cases "fetch_event K es")
  from 1(2) obtain d where d: "f = Some (Inr d)"
    by (cases f) (auto simp: f next_event.simps [of K es m] io_defs split: sum.splits)
  from 1(2) have c: "check_event d = Inr ()"
    by (cases "check_event d") (auto simp: f d next_event.simps [of K es m] io_defs)
  obtain step es2 where s: "place_event d es1 = (step, es2)" by (cases "place_event d es1")
  have log: "es_log_stream es2"
    using 1(3) f s by (auto simp: log_stream_at_def place_event_def fetch_event_def Let_def
        split: option.splits sum.splits if_splits)
  show ?case
  proof (cases step)
    case Deliver
    then show ?thesis
      using 1(2) log_run_one [OF f [unfolded d] 1(3) s]
      by (auto simp: f d c s next_event.simps [of K es m] io_defs)
  next
    case Skip
    have n: "next_event K es2 m = (Done (Some (Inr e), es'), m')"
      using 1(2) by (simp add: f d c s Skip next_event.simps [of K es m])
    have run: "log_run K w p [] es2"
      using log_run_one [OF f [unfolded d] 1(3) s] Skip by simp
    have IH: "log_run K w1 q [e] es' \<and> m' = m" if "log_stream_at w1 q es2" for w1 q
      by (rule 1(1) [OF f [symmetric] d refl c s [symmetric] Skip n that])
    obtain w1 q where "log_stream_at w1 q es2" using run by (auto simp: log_run_def)
    then show ?thesis using log_run_append [OF run, of "[e]" es'] IH by auto
  next
    case Gap
    then show ?thesis
      using 1(2) log by (simp add: f d c s next_event.simps [of K es m] io_defs reload_event_def)
  qed
qed

text \<open>What the first \<open>n\<close> calls deliver, as long as they succeed.\<close>

fun delivered :: "'u ipc_codec \<Rightarrow> nat \<Rightarrow> events \<Rightarrow> 'u client \<Rightarrow> event list" where
  "delivered K 0 es m = []"
| "delivered K (Suc n) es m =
     (case next_event K es m of
        (Done (Some (Inr e), es), m) \<Rightarrow> e # delivered K n es m
      | _ \<Rightarrow> [])"

lemma delivered_log_run:
  "log_stream_at w p es \<Longrightarrow> \<exists>es'. log_run K w p (delivered K n es m) es'"
proof (induction n arbitrary: w p es m)
  case 0
  then show ?case
    by (intro exI [of _ es]) (auto simp: log_run_def intro!: exI [of _ w] exI [of _ "[]"])
next
  case (Suc n)
  show ?case
  proof (cases "\<exists>e es' m'. next_event K es m = (Done (Some (Inr e), es'), m')")
    case True
    then obtain e es1 m1 where n: "next_event K es m = (Done (Some (Inr e), es1), m1)" by blast
    have r: "log_run K w p [e] es1" using next_event_logs [OF n Suc.prems] by simp
    obtain w1 q where 1: "log_stream_at w1 q es1" using r by (auto simp: log_run_def)
    obtain es2 where 2: "log_run K w1 q (delivered K n es1 m1) es2" using Suc.IH [OF 1] by blast
    have same: "w' = w1 \<and> q' = q" if "log_stream_at w' q' es1" for w' q'
      using that 1 by (auto simp: log_stream_at_def)
    have "log_run K w p ([e] @ delivered K n es1 m1) es2"
      using log_run_append [OF r] 2 same by metis
    then show ?thesis by (auto simp: n)
  next
    case False
    then have "delivered K (Suc n) es m = []"
      by (auto split: prod.splits outcome.splits option.splits sum.splits)
    then show ?thesis
      using Suc.prems
      by (intro exI [of _ es]) (auto simp: log_run_def intro!: exI [of _ w] exI [of _ "[]"])
  qed
qed

section \<open>Properties\<close>


text \<open>C@: a result other than an error of the exchange itself is the result of a response that
  carries the identifier drawn for this request; otherwise the stream is gone, and every later call
  on the connection fails without writing anything.\<close>

theorem answer_is_to_request:
  assumes "cl_ids m = i # js" "call_daemon K q (Some w) m = (Done (r, c), m')"
  shows "(case c of
      Some w' \<Rightarrow> (\<exists>w1 rs. write_wire (ic_request_bytes K) \<lparr>rq_request_id = i, rq_method = q\<rparr> w
           = Some (Inr w1) \<and> read_wire (ic_response K) w1 = Some (Inr (rs, w'))
           \<and> rs_request_id rs = i \<and> rs_result rs = r)
    | None \<Rightarrow> (\<exists>e. r = Inl e) \<and> call_daemon K q' c m' = (Done (Inl unavailable, None), m'))"
  using assms
  by (auto simp: call_daemon_def draw_id_def log_request_def io_defs exchange_def in_time_def Let_def
      rbind_def split: option.splits sum.splits if_splits)

text \<open>C19: the records a followed log delivers, over any number of calls, are exactly the log events
  of a prefix of what arrives on the wire, in order, each once; that prefix has no gap, so a lost
  event is always reported as an error and never passed over.\<close>

theorem followed_log_has_no_gap:
  assumes "follow_logs K c m = (Done es, m')"
  shows "case es_stream es of
      None \<Rightarrow> delivered K n es m' = []
    | Some w \<Rightarrow> (\<exists>evs rest. wire_events (ic_event K) (wi_in w) = evs @ rest
         \<and> gapless None (unrepeated None evs)
         \<and> delivered K n es m' = filter is_log (unrepeated None evs))"
proof -
  obtain p c1 m1 where "(case p of
       PLogs backlog \<Rightarrow> io_return \<lparr>es_stream = c1, es_last = None, es_initial = None,
         es_backlog = backlog, es_log_stream = True\<rparr>
     | _ \<Rightarrow> io_fail incompatible) m1 = (Done es, m')"
    using assms by (auto simp: follow_logs_def io_bind_Done io_ends)
  then have es: "es_log_stream es" "es_initial es = None" "es_last es = None"
    by (cases p; auto simp: io_ends)+
  show ?thesis
  proof (cases "es_stream es")
    case None
    then have "delivered K n es m' = []"
      using es by (cases n) (auto simp: next_event.simps [of K es] fetch_event_def io_defs)
    then show ?thesis using None by simp
  next
    case (Some w)
    then obtain es' where "log_run K w None (delivered K n es m') es'"
      using delivered_log_run [of w None es K n m'] es by (auto simp: log_stream_at_def)
    then show ?thesis using Some by (auto simp: log_run_def)
  qed
qed

section \<open>A sample\<close>

text \<open>A codec with one byte per message: an event is its sequence number, a log record when it is
  even.\<close>

definition sample_snapshot :: "u64 \<Rightarrow> snapshot" where
  "sample_snapshot n =
     \<lparr>service_instance_id = 1, sequence = n, sn_state = Disconnected, profile_id = None,
      profile_name = None, attempt_id = None, session_id = None, started_at = None, network = None,
      traffic = no_traffic, last_error = None\<rparr>"

definition sample_event :: "u64 \<Rightarrow> event" where
  "sample_event n =
     \<lparr>ev_instance = 1, ev_sequence = n,
      ev_payload = (if n AND 1 = 0 then ELog \<lparr>lr_timestamp = 0, lr_level = LogInfo, lr_message = []\<rparr>
                    else ESnapshot (sample_snapshot n))\<rparr>"

definition sample_ipc :: "string ipc_codec" where
  "sample_ipc =
     \<lparr>ic_hello_bytes = (\<lambda>h. Some [[1]]), ic_request_bytes = (\<lambda>q. Some [[2]]),
      ic_hello = (\<lambda>b. if b = [1] then Some \<lparr>hello_version = 1\<rparr> else None),
      ic_response = (\<lambda>b. if b = [3] then Some \<lparr>rs_request_id = 7, rs_result = Inr (PLogs [])\<rparr> else None),
      ic_event = (\<lambda>b. case b of [n] \<Rightarrow> Some (sample_event (ucast n)) | _ \<Rightarrow> None)\<rparr>"

definition sample_bytes :: "u8 list \<Rightarrow> wire" where
  "sample_bytes ns = \<lparr>wi_in = concat (map (\<lambda>n. [0, 0, 0, 1, n]) ns), wi_open = True, wi_faults = []\<rparr>"

definition sample_dial :: "u8 list \<Rightarrow> dial" where
  "sample_dial ns =
     \<lparr>dl_parent = Inr \<lparr>nm_kind = DirNode, nm_uid = 0, nm_mode = 0x1ed\<rparr>,
      dl_ancestors = Inr [Inr \<lparr>nm_kind = DirNode, nm_uid = 0, nm_mode = 0x1ed\<rparr>],
      dl_endpoint = Inr \<lparr>nm_kind = SocketNode, nm_uid = 0, nm_mode = 0x1b6\<rparr>,
      dl_stream = Some (Inr (Inr 0, sample_bytes ns))\<rparr>"

definition sample_client :: "u8 list \<Rightarrow> string client" where
  "sample_client ns = \<lparr>cl_dials = [sample_dial ns], cl_ids = [7], cl_asked = []\<rparr>"

definition logs_at :: "u8 list \<Rightarrow> events" where
  "logs_at ns = \<lparr>es_stream = Some (sample_bytes ns), es_last = None, es_initial = None,
     es_backlog = [], es_log_stream = True\<rparr>"

lemma sample_opened:
  "open_connection sample_ipc (sample_client [1, 9])
     = (Done (Some (sample_bytes [9])), (sample_client [1, 9])\<lparr>cl_dials := []\<rparr>)"
  by code_simp

lemma sample_followed:
  "follow_logs sample_ipc (Some (sample_bytes [3, 10, 11, 11, 12, 14])) (sample_client [])
     = (Done (logs_at [10, 11, 11, 12, 14]), (sample_client [])\<lparr>cl_ids := [], cl_asked := [MLogs True]\<rparr>)"
  by code_simp

lemma sample_delivered:
  "delivered sample_ipc 3 (logs_at [10, 11, 11, 12, 14]) (sample_client [])
     = [sample_event 10, sample_event 12]"
  by code_simp


lemma sample_called:
  "call_daemon sample_ipc (MLogs True) (Some (sample_bytes [3, 10])) (sample_client [])
     = (Done (Inr (PLogs []), Some (sample_bytes [10])),
        (sample_client [])\<lparr>cl_ids := [], cl_asked := [MLogs True]\<rparr>)"
  by code_simp

theorem answer_is_to_request_witness:
  "\<exists>w1 rs. write_wire (ic_request_bytes sample_ipc) \<lparr>rq_request_id = 7, rq_method = MLogs True\<rparr>
        (sample_bytes [3, 10]) = Some (Inr w1)
     \<and> read_wire (ic_response sample_ipc) w1 = Some (Inr (rs, sample_bytes [10]))
     \<and> rs_request_id rs = 7 \<and> rs_result rs = Inr (PLogs [])"
proof -
  have "cl_ids (sample_client []) = [7]" by (simp add: sample_client_def)
  from answer_is_to_request [OF this sample_called] show ?thesis by simp
qed

theorem followed_log_has_no_gap_witness:
  "\<exists>evs rest. wire_events (ic_event sample_ipc) (wi_in (sample_bytes [10, 11, 11, 12, 14])) = evs @ rest
     \<and> gapless None (unrepeated None evs)
     \<and> delivered sample_ipc 3 (logs_at [10, 11, 11, 12, 14])
          ((sample_client [])\<lparr>cl_ids := [], cl_asked := [MLogs True]\<rparr>)
        = filter is_log (unrepeated None evs)"
  using followed_log_has_no_gap [OF sample_followed, of 3] by (simp add: logs_at_def)

end
