(* ===== verification/ClientInstall.thy ===== *)
theory ClientInstall
  imports ClientDaemon ProfileStore
begin

text \<open>
  \<open>crates/client/src/installation.rs\<close> as built for Linux: the front ends run the installer of the
  package to register the service and the start at login, and ask the service whether it answers.
  The processes they start end as the list \<open>fe_children\<close> of the machine says, one for each start;
  the trust of the files they are started from is an answer of the operating system.
\<close>

section \<open>The machine of a front end\<close>

record registration =
  rg_registered :: bool
  rg_approval_required :: bool
  rg_login_registered :: bool

record service_status =
  svc_packaged :: bool
  svc_registered :: bool
  svc_running :: bool
  svc_approval_required :: bool
  svc_login_registered :: bool

record doctor_report =
  dr_capabilities :: "capabilities option"
  dr_engine_error :: "err option"
  dr_service :: "service_status option"
  dr_service_error :: "err option"
  dr_driver_ready :: bool
  dr_driver_error :: "err option"

datatype service_action = InstallService | UninstallService | RepairService

record child =
  ch_trusted :: "unit result"
  ch_pkexec :: "unit result"
  ch_spawned :: bool
  ch_in_time :: bool
  ch_read :: bool
  ch_out :: "u8 list"
  ch_err :: "u8 list"
  ch_success :: bool
  ch_code :: "int option"

datatype lock_try = TryLocked | TryBlocked bool | TryFailed

text \<open>\<open>fe_tries\<close> are the answers of \<open>try_lock_exclusive\<close>, with whether the deadline is still ahead;
  a lock nobody else wants is free. \<open>fe_ran\<close> is the trace of the actions of the installer.\<close>

record ('r, 'u) front = "'u client" +
  fe_desk :: "'r desk"
  fe_children :: "child list"
  fe_tries :: "lock_try list"
  fe_ran :: "(string \<times> registration result) list"

type_synonym ('r, 'u, 'z, 'a) front_io = "(('r, 'u, 'z) front_scheme, 'a) io"

definition on_desk :: "('r desk, 'a) io \<Rightarrow> ('r, 'u, 'z, 'a) front_io" where
  "on_desk f m = (case f (fe_desk m) of (r, d) \<Rightarrow> (r, m\<lparr>fe_desk := d\<rparr>))"

section \<open>The installer\<close>

datatype file_presence = FileFound | FileMissing | FileUnreadable

text \<open>Where the installer is, and how \<open>serde_json\<close> reads what it prints.\<close>

record installer =
  in_path :: "unit result"
  in_present :: file_presence
  in_trusted :: "unit result"
  in_registration :: "u8 list \<Rightarrow> registration option"
  in_error :: "u8 list \<Rightarrow> err option"

definition management_failed :: err where
  "management_failed = new_error ServiceUnavailable
     ''Native service management failed; install or repair the native package and check the OS service manager''"

definition management_late :: err where
  "management_late = new_error ServiceUnavailable
     ''Native management did not finish in time. Its outcome is unknown; check OS service status before retrying.''"

definition child_result :: "installer \<Rightarrow> child \<Rightarrow> registration result" where
  "child_result I c =
     (if \<not> ch_in_time c then Inl management_late
      else if \<not> ch_read c \<or> len (ch_out c) > 65536 \<or> len (ch_err c) > 65536 then Inl management_failed
      else if \<not> ch_success c then
        (case in_error I (ch_err c) of
           Some e \<Rightarrow> Inl e
         | None \<Rightarrow> Inl (new_error
             (if ch_code c = Some 126 \<or> ch_code c = Some 127 then AuthorizationDenied
              else ServiceUnavailable)
             ''OS authorization was denied or native service management failed; check service status before retrying''))
      else ok_or management_failed (in_registration I (ch_out c)))"

definition next_child :: "('r, 'u, 'z, child) front_io" where
  "next_child m =
     (case fe_children m of
        [] \<Rightarrow> (Fault management_failed, m)
      | c # cs \<Rightarrow> (Done c, m\<lparr>fe_children := cs\<rparr>))"

definition ran_action :: "string \<Rightarrow> registration result \<Rightarrow> ('r, 'u, 'z, unit) front_io" where
  "ran_action action r m = (Done (), m\<lparr>fe_ran := fe_ran m @ [(action, r)]\<rparr>)"

definition invoke :: "installer \<Rightarrow> string \<Rightarrow> bool \<Rightarrow> ('r, 'u, 'z, registration) front_io" where
  "invoke I action elevate =
     io_bind next_child (\<lambda>c.
     io_bind (io_lift (ch_trusted c)) (\<lambda>_.
     io_bind (io_lift (if elevate then ch_pkexec c else Inr ())) (\<lambda>_.
     if \<not> ch_spawned c then io_fail management_failed
     else
       io_bind (ran_action action (child_result I c)) (\<lambda>_.
       io_lift (child_result I c)))))"

definition no_registration :: registration where
  "no_registration = \<lparr>rg_registered = False, rg_approval_required = False, rg_login_registered = False\<rparr>"

definition installation_status ::
  "'u ipc_codec \<Rightarrow> installer \<Rightarrow> ('r, 'u, 'z, service_status) front_io" where
  "installation_status K I =
     io_bind (io_lift (in_path I)) (\<lambda>_.
     io_bind (io_lift (case in_present I of
                FileFound \<Rightarrow> rbind (in_trusted I) (\<lambda>_. Inr True)
              | FileMissing \<Rightarrow> Inr False
              | FileUnreadable \<Rightarrow> Inl management_failed)) (\<lambda>packaged.
     io_bind (if packaged then invoke I ''status'' False else io_return no_registration) (\<lambda>r.
     io_bind (io_try (open_connection K)) (\<lambda>opened.
     io_bind (io_lift (case opened of
                Inr _ \<Rightarrow> Inr True
              | Inl e \<Rightarrow> if code e = ServiceUnavailable then Inr False else Inl e)) (\<lambda>running.
     io_return
       \<lparr>svc_packaged = packaged, svc_registered = rg_registered r, svc_running = running,
        svc_approval_required = rg_approval_required r,
        svc_login_registered = rg_login_registered r\<rparr>)))))"

fun action_name :: "service_action \<Rightarrow> string" where
  "action_name InstallService = ''install''"
| "action_name UninstallService = ''uninstall''"
| "action_name RepairService = ''repair''"

definition manage_service ::
  "'u ipc_codec \<Rightarrow> installer \<Rightarrow> service_action \<Rightarrow> ('r, 'u, 'z, service_status) front_io" where
  "manage_service K I action =
     io_bind (io_lift (in_path I)) (\<lambda>_.
     io_bind (invoke I (action_name action) True) (\<lambda>_.
     io_bind (installation_status K I) (\<lambda>seen.
     if action = UninstallService \<and> svc_registered seen \<and> \<not> svc_approval_required seen
     then io_fail management_failed
     else if action \<noteq> UninstallService \<and> \<not> svc_approval_required seen
        \<and> (\<not> svc_registered seen \<or> \<not> svc_running seen)
     then io_fail management_failed
     else io_return seen)))"

definition login_action :: "bool \<Rightarrow> string" where
  "login_action enabled = (if enabled then ''login-enable'' else ''login-disable'')"

definition set_login_enabled :: "installer \<Rightarrow> bool \<Rightarrow> ('r, 'u, 'z, unit) front_io" where
  "set_login_enabled I enabled =
     io_bind (io_lift (in_path I)) (\<lambda>_.
     io_bind (invoke I (login_action enabled) False) (\<lambda>r.
     if rg_login_registered r \<noteq> enabled then io_fail management_failed else io_return ()))"

definition open_approval_settings :: "installer \<Rightarrow> ('r, 'u, 'z, unit) front_io" where
  "open_approval_settings I =
     io_bind (io_lift (in_path I)) (\<lambda>_.
     io_bind (invoke I ''open-approval'' False) (\<lambda>_. io_return ()))"

text \<open>\<open>/dev/net/tun\<close>: whether it is a character device, and its device number.\<close>

definition driver_ready :: "(bool \<times> nat \<times> nat) option \<Rightarrow> unit result" where
  "driver_ready found =
     (case found of
        None \<Rightarrow> Inl (new_error ServiceUnavailable
          ''Linux TUN device is unavailable; enable the kernel tun module and expose /dev/net/tun to the service'')
      | Some (character, device) \<Rightarrow>
          if \<not> character \<or> device \<noteq> (10, 200) then Inl management_failed else Inr ())"

definition ok_part :: "'a result \<Rightarrow> 'a option" where
  "ok_part r = (case r of Inl _ \<Rightarrow> None | Inr x \<Rightarrow> Some x)"

definition err_part :: "'a result \<Rightarrow> err option" where
  "err_part r = (case r of Inl e \<Rightarrow> Some e | Inr _ \<Rightarrow> None)"

definition doctor ::
  "'u ipc_codec \<Rightarrow> installer \<Rightarrow> capabilities result \<Rightarrow> (bool \<times> nat \<times> nat) option
     \<Rightarrow> ('r, 'u, 'z, doctor_report) front_io" where
  "doctor K I found tun =
     io_bind (io_try (installation_status K I)) (\<lambda>s.
     io_return
       \<lparr>dr_capabilities = ok_part found, dr_engine_error = err_part found,
        dr_service = ok_part s, dr_service_error = err_part s,
        dr_driver_ready = (driver_ready tun = Inr ()), dr_driver_error = err_part (driver_ready tun)\<rparr>)"

end
