(* ===== verification/Configuration.thy ===== *)
theory Configuration
  imports ClientInstall
begin

text \<open>
  \<open>crates/client/src/configuration.rs\<close>: changes that involve both the files of the user and the
  system. A profile is reserved and removed under one lock of the user, so that a profile in use is
  not removed; settings and the registration to start at login are changed under another, and a
  failure to save the settings undoes the registration.
\<close>

definition configuration_failed :: err where
  "configuration_failed = new_error RuntimeFailure ''User configuration transaction failed''"

definition lock_busy :: err where
  "lock_busy = new_error Busy
     ''Another interface is changing this configuration; retry when it finishes''"

fun try_locks :: "lock_try list \<Rightarrow> unit result \<times> lock_try list" where
  "try_locks [] = (Inr (), [])"
| "try_locks (TryLocked # ts) = (Inr (), ts)"
| "try_locks (TryBlocked early # ts) = (if early then try_locks ts else (Inl lock_busy, ts))"
| "try_locks (TryFailed # ts) = (Inl configuration_failed, ts)"

definition open_operation_lock :: "places \<Rightarrow> string \<Rightarrow> ('r desk, unit) io" where
  "open_operation_lock P name =
     io_bind (io_lift (ok_or configuration_failed (project_data P))) (\<lambda>data.
     let root = joined data ''operation-locks'' in
     io_bind (ensure_private_directory root) (\<lambda>_. open_private_lock (joined root name)))"

definition operation_lock :: "places \<Rightarrow> string \<Rightarrow> ('r, 'u, 'z, unit) front_io" where
  "operation_lock P name =
     io_bind (on_desk (open_operation_lock P name)) (\<lambda>_ m.
     case try_locks (fe_tries m) of
       (Inl e, ts) \<Rightarrow> (Fault e, m\<lparr>fe_tries := ts\<rparr>)
     | (Inr _, ts) \<Rightarrow> (Done (), m\<lparr>fe_tries := ts\<rparr>))"

text \<open>\<open>ProfileStore::open\<close>: \<open>chosen\<close> is the variable \<open>OCVPN_CONFIG_DIR\<close>.\<close>

definition open_store :: "os_path option \<Rightarrow> places \<Rightarrow> ('r desk, os_path) io" where
  "open_store chosen P =
     io_bind (io_lift (case chosen of
                Some D \<Rightarrow> Inr D
              | None \<Rightarrow> ok_or (new_error RuntimeFailure ''Cannot locate user configuration directory'')
                          (project_config P))) (\<lambda>D.
     io_bind (ensure_private_directory D) (\<lambda>_. io_return D))"

text \<open>What the operations of the user's configuration are given.\<close>

record ('r, 'i, 'u) user_env =
  ue_chosen :: "os_path option"
  ue_places :: places
  ue_crates :: "'u crates"
  ue_codec :: "'u store_codec"
  ue_ipc :: "'u ipc_codec"
  ue_ring :: "('r, 'i) keyring"
  ue_installer :: installer

definition resolve_id :: "('r, 'i, 'u) user_env \<Rightarrow> uuid \<Rightarrow> ('r desk, 'u profile) io" where
  "resolve_id U i =
     io_bind (open_store (ue_chosen U) (ue_places U)) (\<lambda>D.
     ProfileStore.resolve (ue_places U) (ue_crates U) (ue_codec U) D (uuid_text (ue_places U) i))"

definition reserve_profile ::
  "('r, 'i, 'u) user_env \<Rightarrow> 'u profile \<Rightarrow> ('r, 'u, 'z, unit) front_io" where
  "reserve_profile U p =
     io_bind (operation_lock (ue_places U) ''profile-use.lock'') (\<lambda>_.
     io_bind (on_desk (resolve_id U (pf_id p))) (\<lambda>found.
     if found \<noteq> p
     then io_fail (new_error Conflict
       ''Profile changed before connection reservation. Reload it and retry.'')
     else io_return ()))"

definition session_active :: "connection_state \<Rightarrow> bool" where
  "session_active s \<longleftrightarrow>
     s \<in> {Authenticating, Connecting, Connected, Reconnecting, Disconnecting}"

definition protected_profiles :: "snapshot \<Rightarrow> uuid list" where
  "protected_profiles s =
     (if session_active (sn_state s)
      then (case profile_id s of Some i \<Rightarrow> [i] | None \<Rightarrow> [])
      else [])"

definition remove_user_profile ::
  "string \<Rightarrow> ('r, 'i, 'u) user_env \<Rightarrow> uuid \<Rightarrow> u64 \<Rightarrow> ('r, 'u, 'z, unit) front_io" where
  "remove_user_profile fresh U i expected =
     io_bind (operation_lock (ue_places U) ''profile-use.lock'') (\<lambda>_.
     io_bind (daemon_snapshot (ue_ipc U)) (\<lambda>s.
     on_desk (io_bind (open_store (ue_chosen U) (ue_places U)) (\<lambda>D.
       remove_profile fresh (ue_ring U) (ue_places U) (ue_crates U) (ue_codec U) D i expected
         (protected_profiles s)))))"

definition read_user_settings :: "('r, 'i, 'u) user_env \<Rightarrow> ('r desk, settings_document) io" where
  "read_user_settings U =
     io_bind (open_store (ue_chosen U) (ue_places U)) (\<lambda>D. read_settings (ue_codec U) D)"

definition store_user_settings ::
  "string \<Rightarrow> ('r, 'i, 'u) user_env \<Rightarrow> settings \<Rightarrow> u64 \<Rightarrow> ('r desk, settings_document) io" where
  "store_user_settings fresh U s expected =
     io_bind (open_store (ue_chosen U) (ue_places U)) (\<lambda>D.
     ProfileStore.save_settings fresh (ue_crates U) (ue_codec U) D s expected)"

definition unchecked_login :: err where
  "unchecked_login = new_error RecoveryRequired
     ''Settings were not saved and login registration could not be checked; review Login Items before retrying''"

definition foreign_login :: err where
  "foreign_login = new_error RecoveryRequired
     ''Concurrent login registration change preserved; reload settings and review Login Items''"

definition unrestored_login :: err where
  "unrestored_login = new_error RecoveryRequired
     ''Settings were not saved and login registration could not be restored; review Login Items''"

definition restore_login ::
  "('r, 'i, 'u) user_env \<Rightarrow> bool \<Rightarrow> bool \<Rightarrow> ('r, 'u, 'z, unit) front_io" where
  "restore_login U desired previous =
     io_bind (io_map_err unchecked_login (installation_status (ue_ipc U) (ue_installer U))) (\<lambda>now.
     if svc_login_registered now \<noteq> desired then io_fail foreign_login
     else io_map_err unrestored_login (set_login_enabled (ue_installer U) previous))"

text \<open>The registration is changed first, and goes back when the settings are not saved: \<open>previous\<close> is
  what the installer said before.\<close>

definition change_login ::
  "('r, 'i, 'u) user_env \<Rightarrow> bool \<Rightarrow> bool \<Rightarrow> ('r, 'u, 'z, bool option) front_io" where
  "change_login U changed desired =
     (if \<not> changed then io_return None
      else
      io_bind (installation_status (ue_ipc U) (ue_installer U)) (\<lambda>now.
      io_bind (set_login_enabled (ue_installer U) desired) (\<lambda>_.
      io_return (Some (svc_login_registered now)))))"

definition save_or_restore ::
  "string \<Rightarrow> ('r, 'i, 'u) user_env \<Rightarrow> settings \<Rightarrow> u64 \<Rightarrow> bool option
     \<Rightarrow> ('r, 'u, 'z, settings_document) front_io" where
  "save_or_restore fresh U s expected previous =
     io_bind (io_try (on_desk (store_user_settings fresh U s expected))) (\<lambda>saved.
     io_bind (case saved of
                Inl _ \<Rightarrow> (case previous of
                    Some p \<Rightarrow> restore_login U (start_at_login s) p
                  | None \<Rightarrow> io_return ())
              | Inr _ \<Rightarrow> io_return ()) (\<lambda>_.
     io_lift saved))"

definition save_user_settings ::
  "string \<Rightarrow> ('r, 'i, 'u) user_env \<Rightarrow> settings \<Rightarrow> u64 \<Rightarrow> ('r, 'u, 'z, settings_document) front_io" where
  "save_user_settings fresh U s expected =
     io_bind (operation_lock (ue_places U) ''login-settings.lock'') (\<lambda>_.
     io_bind (on_desk (read_user_settings U)) (\<lambda>d.
     if sd_revision d \<noteq> expected
     then io_fail (new_error Conflict ''Settings changed; reload before saving'')
     else
     io_bind (case auto_connect_profile_id s of
                None \<Rightarrow> io_return ()
              | Some i \<Rightarrow> io_bind (on_desk (resolve_id U i)) (\<lambda>_. io_return ())) (\<lambda>_.
     io_bind (change_login U (start_at_login s \<noteq> start_at_login (sd_settings d)) (start_at_login s))
       (save_or_restore fresh U s expected))))"

end
