(* ===== verification/Outcomes.thy ===== *)
theory Outcomes
  imports Effects
begin

text \<open>
  Triples whose postcondition speaks of how the operation ended as well: with a value, with which
  error, or cut short. A handler that must undo its work on some errors is specified this way.
\<close>

definition ends :: "('m \<Rightarrow> bool) \<Rightarrow> ('m, 'a) io \<Rightarrow> ('a outcome \<Rightarrow> 'm \<Rightarrow> bool) \<Rightarrow> bool" where
  "ends P f Q \<longleftrightarrow> (\<forall>m. P m \<longrightarrow> Q (fst (f m)) (snd (f m)))"

named_theorems ends_rules \<open>triples with the outcome\<close>

lemma endsI: "(\<And>m r m'. P m \<Longrightarrow> f m = (r, m') \<Longrightarrow> Q r m') \<Longrightarrow> ends P f Q"
  unfolding ends_def by (metis prod.collapse)

lemma endsD: "ends P f Q \<Longrightarrow> P m \<Longrightarrow> f m = (r, m') \<Longrightarrow> Q r m'"
  by (force simp: ends_def)

lemma ends_weaken:
  "ends P f Q \<Longrightarrow> (\<And>m. P' m \<Longrightarrow> P m) \<Longrightarrow> (\<And>r m. Q r m \<Longrightarrow> Q' r m) \<Longrightarrow> ends P' f Q'"
  by (simp add: ends_def)

lemma ends_pre: "(\<And>m. P m \<Longrightarrow> ends (\<lambda>m'. m' = m) f Q) \<Longrightarrow> ends P f Q"
  by (simp add: ends_def)

lemma ends_bind:
  assumes "ends P f (\<lambda>r m. case r of Done x \<Rightarrow> R x m | Fault e \<Rightarrow> Q (Fault e) m | Crashed \<Rightarrow> Q Crashed m)"
    and "\<And>x. ends (R x) (g x) Q"
  shows "ends P (io_bind f g) Q"
proof (rule endsI)
  fix m r m'
  assume P: "P m" and b: "io_bind f g m = (r, m')"
  obtain q m1 where f: "f m = (q, m1)" by (cases "f m")
  have q: "case q of Done x \<Rightarrow> R x m1 | Fault e \<Rightarrow> Q (Fault e) m1 | Crashed \<Rightarrow> Q Crashed m1"
    by (rule endsD [OF assms(1) P f])
  show "Q r m'"
  proof (cases q)
    case (Done x)
    then show ?thesis using q b f endsD [OF assms(2)] by (simp add: io_bind_def)
  qed (use q b f in \<open>simp_all add: io_bind_def\<close>)
qed

lemma ends_return: "(\<And>m. P m \<Longrightarrow> Q (Done x) m) \<Longrightarrow> ends P (io_return x) Q"
  by (simp add: ends_def io_return_def)

lemma ends_fail: "(\<And>m. P m \<Longrightarrow> Q (Fault e) m) \<Longrightarrow> ends P (io_fail e) Q"
  by (simp add: ends_def io_fail_def)

lemma ends_get: "(\<And>m. P m \<Longrightarrow> Q (Done (h m)) m) \<Longrightarrow> ends P (io_get h) Q"
  by (simp add: ends_def io_get_def)

lemma ends_lift:
  "(\<And>m x. P m \<Longrightarrow> r = Inr x \<Longrightarrow> Q (Done x) m) \<Longrightarrow> (\<And>m e. P m \<Longrightarrow> r = Inl e \<Longrightarrow> Q (Fault e) m)
    \<Longrightarrow> ends P (io_lift r) Q"
  by (auto simp: ends_def io_lift_def split: sum.splits)

lemma ends_try:
  assumes "ends P f (\<lambda>r m. case r of Done x \<Rightarrow> Q (Done (Inr x)) m | Fault e \<Rightarrow> Q (Done (Inl e)) m
      | Crashed \<Rightarrow> Q Crashed m)"
  shows "ends P (io_try f) Q"
proof (rule endsI)
  fix m r m'
  assume P: "P m" and t: "io_try f m = (r, m')"
  obtain q m1 where f: "f m = (q, m1)" by (cases "f m")
  show "Q r m'" using endsD [OF assms P f] t f by (cases q) (auto simp: io_try_def)
qed

lemma ends_if:
  "(b \<Longrightarrow> ends P f Q) \<Longrightarrow> (\<not> b \<Longrightarrow> ends P g Q) \<Longrightarrow> ends P (if b then f else g) Q"
  by simp

lemma ends_option:
  "(v = None \<Longrightarrow> ends P f Q) \<Longrightarrow> (\<And>x. v = Some x \<Longrightarrow> ends P (g x) Q)
    \<Longrightarrow> ends P (case v of None \<Rightarrow> f | Some x \<Rightarrow> g x) Q"
  by (cases v) auto

lemma ends_sum:
  "(\<And>e. v = Inl e \<Longrightarrow> ends P (f e) Q) \<Longrightarrow> (\<And>x. v = Inr x \<Longrightarrow> ends P (g x) Q)
    \<Longrightarrow> ends P (case v of Inl e \<Rightarrow> f e | Inr x \<Rightarrow> g x) Q"
  by (cases v) auto

lemma ends_pair: "ends P (g (fst v) (snd v)) Q \<Longrightarrow> ends P (case v of (a, b) \<Rightarrow> g a b) Q"
  by (cases v) simp

text \<open>An operation that keeps a view of the state, however it ends, and one in a sequence with it.\<close>

definition unmoved :: "('m \<Rightarrow> 'v) \<Rightarrow> ('m, 'a) io \<Rightarrow> bool" where
  "unmoved v f \<longleftrightarrow> (\<forall>m. v (snd (f m)) = v m)"

named_theorems unmoved_rules \<open>operations that keep a view\<close>

lemma unmovedI: "(\<And>m. v (snd (f m)) = v m) \<Longrightarrow> unmoved v f"
  by (simp add: unmoved_def)

lemma unmovedD: "unmoved v f \<Longrightarrow> f m = (r, m') \<Longrightarrow> v m' = v m"
  unfolding unmoved_def by (metis snd_conv)

lemma unmoved_bind [unmoved_rules]: "unmoved v f \<Longrightarrow> (\<And>x. unmoved v (g x)) \<Longrightarrow> unmoved v (io_bind f g)"
  by (auto simp: unmoved_def io_bind_def split: prod.splits outcome.splits) (metis snd_conv)+

lemma unmoved_basic [unmoved_rules]:
  "unmoved v (io_return x)" "unmoved v (io_fail e)" "unmoved v (io_lift r)" "unmoved v (io_get h)"
  by (auto simp: unmoved_def io_defs split: sum.splits)

lemma unmoved_try [unmoved_rules]: "unmoved v f \<Longrightarrow> unmoved v (io_try f)"
  by (auto simp: unmoved_def io_try_def split: prod.splits outcome.splits) (metis snd_conv)+

lemma unmoved_if [unmoved_rules]: "(b \<Longrightarrow> unmoved v f) \<Longrightarrow> (\<not> b \<Longrightarrow> unmoved v g) \<Longrightarrow> unmoved v (if b then f else g)"
  by simp

lemma unmoved_option [unmoved_rules]:
  "unmoved v f \<Longrightarrow> (\<And>x. unmoved v (g x)) \<Longrightarrow> unmoved v (case s of None \<Rightarrow> f | Some x \<Rightarrow> g x)"
  by (cases s) simp_all

lemma unmoved_sum [unmoved_rules]:
  "(\<And>e. unmoved v (f e)) \<Longrightarrow> (\<And>x. unmoved v (g x)) \<Longrightarrow> unmoved v (case s of Inl e \<Rightarrow> f e | Inr x \<Rightarrow> g x)"
  by (cases s) simp_all

lemma unmoved_pair [unmoved_rules]: "(\<And>a b. unmoved v (g a b)) \<Longrightarrow> unmoved v (case s of (a, b) \<Rightarrow> g a b)"
  by (cases s) simp

lemma unmoved_ends:
  assumes "unmoved v f" "\<And>r m. v m = c \<Longrightarrow> Q r m"
  shows "ends (\<lambda>m. v m = c) f Q"
proof (rule endsI)
  fix m r m'
  assume "v m = c" "f m = (r, m')"
  then have "v m' = c" using unmovedD [OF assms(1)] by metis
  then show "Q r m'" by (rule assms(2))
qed

lemma unmoved_then:
  assumes "unmoved v f" "\<And>m e. v m = c \<Longrightarrow> Q (Fault e) m" "\<And>m. v m = c \<Longrightarrow> Q Crashed m"
    and "\<And>x. ends (\<lambda>m. v m = c) (g x) Q"
  shows "ends (\<lambda>m. v m = c) (io_bind f g) Q"
  by (rule ends_bind [where R = "\<lambda>_ m. v m = c"], rule unmoved_ends [OF assms(1)])
     (use assms(2-) in \<open>auto split: outcome.splits\<close>)

end
