(* ===== verification/ConfigurationProps.thy ===== *)
theory ConfigurationProps
  imports Configuration Outcomes StoreClaims ClientEvents
begin

text \<open>
  The two promises of \<open>configuration.rs\<close>: a profile in use is not removed, and what was registered to
  start at login follows the settings that were saved.
\<close>

section \<open>What is not touched\<close>

lemma unmoved_desk [unmoved_rules]: "unmoved fe_ran (on_desk f)" "unmoved cl_asked (on_desk f)"
  by (auto simp: unmoved_def on_desk_def split: prod.splits)

lemma unmoved_lock [unmoved_rules]: "unmoved fe_ran (operation_lock P name)"
  unfolding operation_lock_def
  by (intro unmoved_rules) (auto simp: unmoved_def split: sum.splits prod.splits)

lemma unmoved_open [unmoved_rules]: "unmoved fe_ran (open_connection K)"
  by (auto simp: unmoved_def open_connection_def io_lift_def split: list.splits sum.splits)

section \<open>The registration to start at login\<close>

text \<open>The changes of the registration that the installer confirmed, in order.\<close>

definition confirmed_login :: "(string \<times> registration result) list \<Rightarrow> bool list" where
  "confirmed_login acts =
     concat (map (\<lambda>(action, r). case r of
         Inl _ \<Rightarrow> []
       | Inr g \<Rightarrow> if action = login_action (rg_login_registered g) then [rg_login_registered g] else []) acts)"

abbreviation login_log :: "('r, 'u, 'z) front_scheme \<Rightarrow> bool list" where
  "login_log m \<equiv> confirmed_login (fe_ran m)"

lemma unmoved_log: "unmoved fe_ran f \<Longrightarrow> unmoved login_log f"
  by (auto simp: unmoved_def)

lemma confirmed_append [simp]: "confirmed_login (xs @ ys) = confirmed_login xs @ confirmed_login ys"
  by (simp add: confirmed_login_def)

lemma confirmed_one [simp]:
  "confirmed_login [(action, Inl e)] = []"
  "confirmed_login [(action, Inr g)] =
     (if action = login_action (rg_login_registered g) then [rg_login_registered g] else [])"
  by (simp_all add: confirmed_login_def)

lemma login_action_eq [simp]:
  "login_action b = login_action c \<longleftrightarrow> b = c" "''status'' \<noteq> login_action b"
  by (auto simp: login_action_def)

lemma invoke_ends:
  "ends (\<lambda>m. login_log m = c) (invoke I action elevate) (\<lambda>r m. case r of
     Done g \<Rightarrow> login_log m = c @ confirmed_login [(action, Inr g)]
   | Fault e \<Rightarrow> login_log m = c
   | Crashed \<Rightarrow> True)"
  by (auto simp: ends_def invoke_def next_child_def ran_action_def io_defs
      simp del: confirmed_one(2) split: list.splits sum.splits if_splits)

lemma status_quiet: "unmoved login_log (installation_status K I)"
proof -
  have "unmoved login_log (invoke I ''status'' False)"
    by (auto simp: unmoved_def invoke_def next_child_def ran_action_def io_defs
        split: list.splits sum.splits)
  then show ?thesis
    unfolding installation_status_def
    by (intro unmoved_rules unmoved_log [OF unmoved_open])
qed

lemma set_login_ends:
  "ends (\<lambda>m. login_log m = c) (set_login_enabled I b) (\<lambda>r m. case r of
     Done _ \<Rightarrow> login_log m = c @ [b] | Fault e \<Rightarrow> login_log m = c | Crashed \<Rightarrow> True)"
  unfolding set_login_enabled_def
proof (rule unmoved_then [OF unmoved_basic(3)])
  fix u
  show "ends (\<lambda>m. login_log m = c)
     (io_bind (invoke I (login_action b) False)
       (\<lambda>r. if rg_login_registered r \<noteq> b then io_fail management_failed else io_return ()))
     (\<lambda>r m. case r of Done _ \<Rightarrow> login_log m = c @ [b] | Fault e \<Rightarrow> login_log m = c | Crashed \<Rightarrow> True)"
    by (rule ends_bind [where R = "\<lambda>g m. login_log m = c @ confirmed_login [(login_action b, Inr g)]"],
        rule ends_weaken [OF invoke_ends])
       (auto simp: ends_def io_defs split: outcome.splits)
qed (simp_all add: ends_def)

lemma ends_map_err:
  assumes "ends P f (\<lambda>r m. case r of Done x \<Rightarrow> Q (Done x) m | Fault _ \<Rightarrow> Q (Fault e) m
      | Crashed \<Rightarrow> Q Crashed m)"
  shows "ends P (io_map_err e f) Q"
proof (rule endsI)
  fix m r m'
  assume P: "P m" and t: "io_map_err e f m = (r, m')"
  obtain q m1 where f: "f m = (q, m1)" by (cases "f m")
  show "Q r m'" using endsD [OF assms P f] t f by (cases q) (auto simp: io_map_err_def)
qed

lemma restore_ends:
  "ends (\<lambda>m. login_log m = c) (restore_login U b b') (\<lambda>r m. case r of
     Done _ \<Rightarrow> login_log m = c @ [b'] | Fault e \<Rightarrow> code e = RecoveryRequired | Crashed \<Rightarrow> True)"
  unfolding restore_login_def
  by (rule ends_bind [where R = "\<lambda>_ m. login_log m = c"], rule ends_map_err,
      rule unmoved_ends [OF status_quiet])
     (auto simp: foreign_login_def unrestored_login_def unchecked_login_def new_error_def
        split: outcome.splits intro!: ends_if ends_fail ends_map_err ends_weaken [OF set_login_ends])

lemma stored_settings:
  assumes "on_desk (store_user_settings fresh U s expected) m = (Done d, m')"
  shows "sd_settings d = s"
  using assms
  by (auto simp: on_desk_def store_user_settings_def ProfileStore.save_settings_def io_bind_Done
      io_ends Let_def split: prod.splits if_splits)

lemma ends_done:
  assumes "\<And>m x m'. f m = (Done x, m') \<Longrightarrow> A x" "ends P f Q"
  shows "ends P f (\<lambda>r m. Q r m \<and> (\<forall>x. r = Done x \<longrightarrow> A x))"
  using assms by (auto simp: ends_def) (metis prod.collapse)

text \<open>The last stage: the settings are saved, or the registration goes back.\<close>

lemma save_or_restore_ends:
  "ends (\<lambda>m. login_log m = c) (save_or_restore fresh U s expected previous)
     (\<lambda>r m. case r of
        Done d \<Rightarrow> sd_settings d = s \<and> login_log m = c
      | Fault e \<Rightarrow> code e = RecoveryRequired
          \<or> login_log m = c @ (case previous of None \<Rightarrow> [] | Some p \<Rightarrow> [p])
      | Crashed \<Rightarrow> True)" (is "ends ?P _ ?Q")
  unfolding save_or_restore_def
proof (rule ends_bind [where R = "\<lambda>saved m. login_log m = c
      \<and> (case saved of Inl _ \<Rightarrow> True | Inr d \<Rightarrow> sd_settings d = s)"])
  show "ends ?P (io_try (on_desk (store_user_settings fresh U s expected)))
     (\<lambda>r m. case r of
        Done saved \<Rightarrow> login_log m = c \<and> (case saved of Inl _ \<Rightarrow> True | Inr d \<Rightarrow> sd_settings d = s)
      | Fault e \<Rightarrow> ?Q (Fault e) m | Crashed \<Rightarrow> ?Q Crashed m)"
    by (rule ends_try, rule ends_weaken [OF ends_done [OF stored_settings
          unmoved_ends [OF unmoved_log [OF unmoved_desk(1)], where Q = "\<lambda>r m. login_log m = c"]]])
       (auto split: outcome.splits)
next
  fix saved
  show "ends (\<lambda>m. login_log m = c \<and> (case saved of Inl _ \<Rightarrow> True | Inr d \<Rightarrow> sd_settings d = s))
     (io_bind (case saved of
                Inl _ \<Rightarrow> (case previous of
                    Some p \<Rightarrow> restore_login U (start_at_login s) p
                  | None \<Rightarrow> io_return ())
              | Inr _ \<Rightarrow> io_return ()) (\<lambda>_. io_lift saved)) ?Q"
  proof (cases "\<exists>e p. saved = Inl e \<and> previous = Some p")
    case True
    then obtain e p where "saved = Inl e" "previous = Some p" by blast
    then show ?thesis
      by (auto intro!: ends_bind [where R = "\<lambda>_ m. login_log m = c @ [p]"]
          ends_weaken [OF restore_ends] ends_lift split: outcome.splits)
  next
    case False
    then show ?thesis
      by (cases saved; cases previous) (auto simp: ends_def io_defs)
  qed
qed

text \<open>What the file and the installer said on the way.\<close>

definition read_before :: "('r, 'i, 'u) user_env \<Rightarrow> settings_document \<Rightarrow> 'z itself \<Rightarrow> bool" where
  "read_before U d TYPE('z) \<longleftrightarrow>
     (\<exists>(m1 :: ('r, 'u, 'z) front_scheme) m2. on_desk (read_user_settings U) m1 = (Done d, m2))"

definition reported :: "('r, 'i, 'u) user_env \<Rightarrow> bool \<Rightarrow> 'z itself \<Rightarrow> bool" where
  "reported U b TYPE('z) \<longleftrightarrow>
     (\<exists>(m1 :: ('r, 'u, 'z) front_scheme) m2 now.
        installation_status (ue_ipc U) (ue_installer U) m1 = (Done now, m2)
        \<and> svc_login_registered now = b)"

definition settled ::
  "('r, 'i, 'u) user_env \<Rightarrow> settings \<Rightarrow> u64 \<Rightarrow> bool list \<Rightarrow> settings_document outcome
     \<Rightarrow> ('r, 'u, 'z) front_scheme \<Rightarrow> bool" where
  "settled U s expected c r m \<longleftrightarrow>
     (case r of
        Done d \<Rightarrow> sd_settings d = s \<and> (\<exists>d0. read_before U d0 TYPE('z) \<and> sd_revision d0 = expected
          \<and> login_log m = c @ (if start_at_login s \<noteq> start_at_login (sd_settings d0)
                               then [start_at_login s] else []))
      | Fault e \<Rightarrow> code e = RecoveryRequired \<or> login_log m = c
          \<or> (\<exists>b. reported U b TYPE('z) \<and> login_log m = c @ [start_at_login s, b])
      | Crashed \<Rightarrow> True)"

lemma settled_calm:
  "login_log m = c \<Longrightarrow> settled U s expected c (Fault e) m"
  "login_log m = c \<Longrightarrow> settled U s expected c Crashed m"
  by (simp_all add: settled_def)

definition changed_login ::
  "('r, 'i, 'u) user_env \<Rightarrow> bool \<Rightarrow> bool \<Rightarrow> bool list \<Rightarrow> bool option outcome
     \<Rightarrow> ('r, 'u, 'z) front_scheme \<Rightarrow> bool" where
  "changed_login U changed desired c r m \<longleftrightarrow>
     (case r of
        Done None \<Rightarrow> \<not> changed \<and> login_log m = c
      | Done (Some b) \<Rightarrow> changed \<and> reported U b TYPE('z) \<and> login_log m = c @ [desired]
      | Fault _ \<Rightarrow> login_log m = c
      | Crashed \<Rightarrow> True)"

lemma reportedI:
  fixes U :: "('r, 'i, 'u) user_env" and m :: "('r, 'u, 'z) front_scheme"
  assumes "installation_status (ue_ipc U) (ue_installer U) m = (Done now, m')"
  shows "reported U (svc_login_registered now) TYPE('z)"
  using assms unfolding reported_def by blast

lemma status_reports:
  fixes U :: "('r, 'i, 'u) user_env"
  shows "ends (\<lambda>m. login_log m = c) (installation_status (ue_ipc U) (ue_installer U))
     (\<lambda>r (m :: ('r, 'u, 'z) front_scheme). login_log m = c
        \<and> (\<forall>now. r = Done now \<longrightarrow> reported U (svc_login_registered now) TYPE('z)))"
  by (rule ends_done [where A = "\<lambda>now. reported U (svc_login_registered now) TYPE('z)"
          and Q = "\<lambda>r m. login_log m = c"])
     (rule reportedI, assumption, rule unmoved_ends [OF status_quiet])

lemma change_login_ends:
  fixes U :: "('r, 'i, 'u) user_env"
  shows "ends (\<lambda>m. login_log m = c) (change_login U changed desired)
     (changed_login U changed desired c :: _ \<Rightarrow> ('r, 'u, 'z) front_scheme \<Rightarrow> bool)"
proof (cases changed)
  case True
  have set: "ends (\<lambda>m. login_log m = c \<and> reported U (svc_login_registered now) TYPE('z))
      (io_bind (set_login_enabled (ue_installer U) desired) (\<lambda>_.
       io_return (Some (svc_login_registered now))))
      (changed_login U changed desired c :: _ \<Rightarrow> ('r, 'u, 'z) front_scheme \<Rightarrow> bool)" for now
  proof (cases "reported U (svc_login_registered now) TYPE('z)")
    case r: True
    show ?thesis
      by (rule ends_bind [where R = "\<lambda>_ m. login_log m = c @ [desired]"],
          rule ends_weaken [OF set_login_ends])
         (auto simp: changed_login_def True r intro!: ends_return split: outcome.splits)
  qed (simp add: ends_def)
  have "ends (\<lambda>m. login_log m = c)
      (io_bind (installation_status (ue_ipc U) (ue_installer U)) (\<lambda>now.
       io_bind (set_login_enabled (ue_installer U) desired) (\<lambda>_.
       io_return (Some (svc_login_registered now)))))
      (changed_login U changed desired c :: _ \<Rightarrow> ('r, 'u, 'z) front_scheme \<Rightarrow> bool)"
    by (rule ends_bind [OF ends_weaken [OF status_reports] set])
       (auto simp: changed_login_def split: outcome.splits)
  then show ?thesis by (simp add: change_login_def True)
qed (auto simp: change_login_def changed_login_def ends_def io_defs)

lemma saved_settled:
  fixes U :: "('r, 'i, 'u) user_env"
  assumes d: "read_before U d TYPE('z)" "sd_revision d = expected"
    and changed: "changed \<longleftrightarrow> start_at_login s \<noteq> start_at_login (sd_settings d)"
  shows "ends (changed_login U changed (start_at_login s) c (Done previous))
     (save_or_restore fresh U s expected previous)
     (settled U s expected c :: _ \<Rightarrow> ('r, 'u, 'z) front_scheme \<Rightarrow> bool)"
proof (cases previous)
  case None
  show ?thesis
  proof (cases changed)
    case False
    with None show ?thesis
      by (intro ends_weaken [OF save_or_restore_ends [of c]])
         (use d changed in \<open>auto simp: changed_login_def settled_def split: outcome.splits\<close>)
  qed (simp add: None ends_def changed_login_def)
next
  case (Some b)
  show ?thesis
  proof (cases "changed \<and> reported U b TYPE('z)")
    case True
    with Some show ?thesis
      by (intro ends_weaken [OF save_or_restore_ends [of "c @ [start_at_login s]"]])
         (use d changed in \<open>auto simp: changed_login_def settled_def split: outcome.splits\<close>)
  qed (auto simp: Some ends_def changed_login_def)
qed

lemma save_user_settings_ends:
  fixes U :: "('r, 'i, 'u) user_env"
  shows "ends (\<lambda>m. login_log m = c) (save_user_settings fresh U s expected)
     (settled U s expected c :: _ \<Rightarrow> ('r, 'u, 'z) front_scheme \<Rightarrow> bool)"
  (is "ends ?P _ ?Q")
  unfolding save_user_settings_def
proof (rule unmoved_then [OF unmoved_log [OF unmoved_lock] settled_calm], assumption, assumption)
  have rest: "ends ?P
      (io_bind (change_login U (start_at_login s \<noteq> start_at_login (sd_settings d)) (start_at_login s))
        (save_or_restore fresh U s expected)) ?Q"
    if d: "read_before U d TYPE('z)" "sd_revision d = expected" for d
  proof (rule ends_bind [OF _ saved_settled [OF d refl]], rule ends_weaken [OF change_login_ends])
    fix r and m :: "('r, 'u, 'z) front_scheme"
    assume "changed_login U (start_at_login s \<noteq> start_at_login (sd_settings d)) (start_at_login s) c r m"
    then show "case r of
        Done p \<Rightarrow> changed_login U (start_at_login s \<noteq> start_at_login (sd_settings d))
          (start_at_login s) c (Done p) m
      | Fault e \<Rightarrow> settled U s expected c (Fault e) m
      | Crashed \<Rightarrow> settled U s expected c Crashed m"
      by (cases r) (simp_all add: changed_login_def settled_def)
  qed
  fix u
  have read: "ends ?P (on_desk (read_user_settings U))
      (\<lambda>r (m :: ('r, 'u, 'z) front_scheme). login_log m = c \<and> (\<forall>d. r = Done d \<longrightarrow> read_before U d TYPE('z)))"
    by (rule ends_done) (auto simp: read_before_def intro: unmoved_ends [OF unmoved_log [OF unmoved_desk(1)]])
  have resolved: "unmoved login_log (case chosen of None \<Rightarrow> io_return ()
      | Some i \<Rightarrow> io_bind (on_desk (resolve_id U i)) (\<lambda>_. io_return ()))" for chosen
    by (intro unmoved_rules unmoved_log [OF unmoved_desk(1)])
  show "ends ?P
     (io_bind (on_desk (read_user_settings U)) (\<lambda>d.
     if sd_revision d \<noteq> expected
     then io_fail (new_error Conflict ''Settings changed; reload before saving'')
     else
     io_bind (case auto_connect_profile_id s of
                None \<Rightarrow> io_return ()
              | Some i \<Rightarrow> io_bind (on_desk (resolve_id U i)) (\<lambda>_. io_return ())) (\<lambda>_.
     io_bind (change_login U (start_at_login s \<noteq> start_at_login (sd_settings d)) (start_at_login s))
       (save_or_restore fresh U s expected)))) ?Q"
  proof (rule ends_bind [OF ends_weaken [OF read], where R = "\<lambda>d m. login_log m = c \<and> read_before U d TYPE('z)"])
    fix d
    show "ends (\<lambda>m. login_log m = c \<and> read_before U d TYPE('z))
       (if sd_revision d \<noteq> expected
        then io_fail (new_error Conflict ''Settings changed; reload before saving'')
        else
        io_bind (case auto_connect_profile_id s of
                   None \<Rightarrow> io_return ()
                 | Some i \<Rightarrow> io_bind (on_desk (resolve_id U i)) (\<lambda>_. io_return ())) (\<lambda>_.
        io_bind (change_login U (start_at_login s \<noteq> start_at_login (sd_settings d)) (start_at_login s))
          (save_or_restore fresh U s expected))) ?Q"
    proof (cases "read_before U d TYPE('z)")
      case r: True
      show ?thesis
      proof (rule ends_weaken [of ?P], rule ends_if)
        assume "\<not> sd_revision d \<noteq> expected"
        then have e: "sd_revision d = expected" by simp
        show "ends ?P (io_bind (case auto_connect_profile_id s of
                   None \<Rightarrow> io_return ()
                 | Some i \<Rightarrow> io_bind (on_desk (resolve_id U i)) (\<lambda>_. io_return ())) (\<lambda>_.
            io_bind (change_login U (start_at_login s \<noteq> start_at_login (sd_settings d)) (start_at_login s))
              (save_or_restore fresh U s expected))) ?Q"
          by (rule unmoved_then [OF resolved settled_calm rest [OF r e]])
      qed (simp_all add: ends_def io_fail_def settled_def)
    qed (simp add: ends_def)
  qed (auto simp: settled_calm split: outcome.splits)
qed

section \<open>Removal\<close>

definition desk_calm :: "'r desk \<Rightarrow> ('r, 'u, 'z) front_scheme \<Rightarrow> bool" where
  "desk_calm d m \<longleftrightarrow> calm d (fe_desk m)"

lemma keeps_on_desk: "keeps (calm d) f \<Longrightarrow> keeps (desk_calm d) (on_desk f)"
  by (auto simp: keeps_def runs_def on_desk_def desk_calm_def split: prod.splits)

lemma calm_operation_lock: "keeps (desk_calm d) (operation_lock P name)" if "lock_name name"
  unfolding operation_lock_def open_operation_lock_def Let_def
  by (intro keeps_rules keeps_on_desk that keepsI)
     (auto simp: desk_calm_def split: sum.splits prod.splits)

lemma calm_open_store: "keeps (calm d) (open_store chosen P)"
  unfolding open_store_def by (intro keeps_rules)

lemma calm_remove_protected:
  "i \<in> set protected \<Longrightarrow> keeps (calm d) (remove_profile fresh R P X K D i expected protected)"
  unfolding remove_profile_def by (simp, intro keeps_rules)

lemma desk_snapshot: "keeps (desk_calm d) (daemon_snapshot K)"
  unfolding daemon_snapshot_def call_snapshot_def call_daemon_def
  by (rule keepsI)
     (auto simp: io_bind_def open_connection_def io_lift_def draw_id_def log_request_def desk_calm_def
        io_return_def Let_def
       split: option.splits list.splits sum.splits prod.splits outcome.splits)

lemma remove_user_profile_ends:
  "ends (\<lambda>m'. m' = m) (remove_user_profile fresh U i expected) (\<lambda>r m'.
     (\<exists>s m1 m2. operation_lock (ue_places U) ''profile-use.lock'' m = (Done (), m1)
        \<and> daemon_snapshot (ue_ipc U) m1 = (Done s, m2)
        \<and> \<not> (session_active (sn_state s) \<and> profile_id s = Some i))
     \<or> r \<noteq> Done () \<and> desk_calm (fe_desk m) m')" (is "ends _ _ ?Q")
  unfolding remove_user_profile_def
proof (rule ends_bind [where R = "\<lambda>_ m1. operation_lock (ue_places U) ''profile-use.lock'' m = (Done (), m1)
      \<and> desk_calm (fe_desk m) m1"])
  have l: "desk_calm (fe_desk m) m1" if "operation_lock (ue_places U) ''profile-use.lock'' m = (r, m1)" for r m1
    by (rule keepsD [OF calm_operation_lock _ that]) (simp_all add: lock_name_def desk_calm_def)
  show "ends (\<lambda>m'. m' = m) (operation_lock (ue_places U) ''profile-use.lock'')
     (\<lambda>r m1. case r of
        Done _ \<Rightarrow> operation_lock (ue_places U) ''profile-use.lock'' m = (Done (), m1)
          \<and> desk_calm (fe_desk m) m1
      | Fault e \<Rightarrow> ?Q (Fault e) m1 | Crashed \<Rightarrow> ?Q Crashed m1)"
    by (rule endsI) (auto dest: l split: outcome.splits)
  fix u
  show "ends (\<lambda>m1. operation_lock (ue_places U) ''profile-use.lock'' m = (Done (), m1)
      \<and> desk_calm (fe_desk m) m1)
     (io_bind (daemon_snapshot (ue_ipc U)) (\<lambda>s.
      on_desk (io_bind (open_store (ue_chosen U) (ue_places U)) (\<lambda>D.
        remove_profile fresh (ue_ring U) (ue_places U) (ue_crates U) (ue_codec U) D i expected
          (protected_profiles s))))) ?Q"
  proof (rule ends_bind [where R = "\<lambda>s m2. desk_calm (fe_desk m) m2
        \<and> (\<exists>m1. operation_lock (ue_places U) ''profile-use.lock'' m = (Done (), m1)
              \<and> daemon_snapshot (ue_ipc U) m1 = (Done s, m2))"])
    show "ends (\<lambda>m1. operation_lock (ue_places U) ''profile-use.lock'' m = (Done (), m1)
        \<and> desk_calm (fe_desk m) m1) (daemon_snapshot (ue_ipc U))
       (\<lambda>r m2. case r of
          Done s \<Rightarrow> desk_calm (fe_desk m) m2
            \<and> (\<exists>m1. operation_lock (ue_places U) ''profile-use.lock'' m = (Done (), m1)
                  \<and> daemon_snapshot (ue_ipc U) m1 = (Done s, m2))
        | Fault e \<Rightarrow> ?Q (Fault e) m2 | Crashed \<Rightarrow> ?Q Crashed m2)"
      by (rule endsI) (auto dest: keepsD [OF desk_snapshot] split: outcome.splits)
    fix s
    show "ends (\<lambda>m2. desk_calm (fe_desk m) m2
        \<and> (\<exists>m1. operation_lock (ue_places U) ''profile-use.lock'' m = (Done (), m1)
              \<and> daemon_snapshot (ue_ipc U) m1 = (Done s, m2)))
       (on_desk (io_bind (open_store (ue_chosen U) (ue_places U)) (\<lambda>D.
        remove_profile fresh (ue_ring U) (ue_places U) (ue_crates U) (ue_codec U) D i expected
          (protected_profiles s)))) ?Q"
    proof (cases "session_active (sn_state s) \<and> profile_id s = Some i")
      case True
      then have p: "i \<in> set (protected_profiles s)" by (simp add: protected_profiles_def)
      have k: "keeps (desk_calm (fe_desk m)) (on_desk (io_bind (open_store (ue_chosen U) (ue_places U)) (\<lambda>D.
          remove_profile fresh (ue_ring U) (ue_places U) (ue_crates U) (ue_codec U) D i expected
            (protected_profiles s))))"
        by (intro keeps_on_desk keeps_rules calm_open_store calm_remove_protected p)
      have "fst (remove_profile fresh (ue_ring U) (ue_places U) (ue_crates U) (ue_codec U) D i expected
          (protected_profiles s) d) \<noteq> Done ()" for D d
        using p by (auto simp: remove_profile_def io_bind_def io_fail_def split: prod.splits outcome.splits)
      then show ?thesis
        by (intro endsI disjI2 conjI) (auto simp: on_desk_def io_bind_def dest: keepsD [OF k]
            split: prod.splits outcome.splits, metis fst_conv)
    qed (auto intro!: endsI)
  qed
qed

section \<open>Properties\<close>


text \<open>C40: a profile is only removed when the daemon, asked while the lock of reservations is held, says
  that no session of it is under way; without that answer the removal fails and the files of the
  user are as they were.\<close>

theorem used_profile_is_kept:
  assumes "remove_user_profile fresh U i expected m = (r, m')"
  shows "(\<exists>s m1 m2. operation_lock (ue_places U) ''profile-use.lock'' m = (Done (), m1)
        \<and> daemon_snapshot (ue_ipc U) m1 = (Done s, m2)
        \<and> \<not> (session_active (sn_state s) \<and> profile_id s = Some i))
     \<or> r \<noteq> Done () \<and> calm (fe_desk m) (fe_desk m')"
  using endsD [OF remove_user_profile_ends refl assms] by (simp add: desk_calm_def)

section \<open>A sample\<close>

text \<open>A user whose settings cannot be encoded, an installer that does what it is told, and a daemon
  with a session of the first profile.\<close>

definition busy_snapshot :: snapshot where
  "busy_snapshot =
     \<lparr>service_instance_id = 1, sequence = 1, sn_state = Connected, profile_id = Some 7,
      profile_name = None, attempt_id = None, session_id = None, started_at = None, network = None,
      traffic = no_traffic, last_error = None\<rparr>"

definition busy_ipc :: "unit ipc_codec" where
  "busy_ipc =
     \<lparr>ic_hello_bytes = (\<lambda>h. Some [[1]]), ic_request_bytes = (\<lambda>q. Some [[2]]),
      ic_hello = (\<lambda>b. if b = [1] then Some \<lparr>hello_version = 1\<rparr> else None),
      ic_response = (\<lambda>b. Some \<lparr>rs_request_id = 7, rs_result = Inr (PSnapshot busy_snapshot)\<rparr>),
      ic_event = (\<lambda>b. None)\<rparr>"

definition sample_installer :: installer where
  "sample_installer =
     \<lparr>in_path = Inr (), in_present = FileFound, in_trusted = Inr (),
      in_registration = (\<lambda>b. Some \<lparr>rg_registered = True, rg_approval_required = False,
         rg_login_registered = (b = [1])\<rparr>),
      in_error = (\<lambda>_. None)\<rparr>"

definition sample_user :: "((string \<times> string) list, string, unit) user_env" where
  "sample_user =
     \<lparr>ue_chosen = None, ue_places = sample_places, ue_crates = sample_crates,
      ue_codec = sample_codec, ue_ipc = busy_ipc, ue_ring = sample_keyring,
      ue_installer = sample_installer\<rparr>"

definition sample_child :: "u8 \<Rightarrow> child" where
  "sample_child b =
     \<lparr>ch_trusted = Inr (), ch_pkexec = Inr (), ch_spawned = True, ch_in_time = True, ch_read = True,
      ch_out = [b], ch_err = [], ch_success = True, ch_code = Some 0\<rparr>"

definition sample_front :: "((string \<times> string) list, unit) front" where
  "sample_front =
     \<lparr>cl_dials = [sample_dial [1, 3]], cl_ids = [7], cl_asked = [],
      fe_desk = sample_desk\<lparr>kernel := (kernel sample_desk)\<lparr>
        dirs := (''/d/operation-locks'', private_folder) # dirs (kernel sample_desk)\<rparr>\<rparr>,
      fe_children = map sample_child [0, 1, 1, 0], fe_tries = [TryBlocked True, TryLocked], fe_ran = []\<rparr>"

definition login_settings :: settings where
  "login_settings = settings_default\<lparr>start_at_login := True\<rparr>"

lemma login_restored:
  "(case save_user_settings ''x'' sample_user login_settings 0 sample_front of (r, m) \<Rightarrow>
      (case r of Fault e \<Rightarrow> code e = InvalidInput | _ \<Rightarrow> False) \<and> login_log m = [True, False])"
  by code_simp

lemma removal_refused:
  "fst (remove_user_profile ''x'' sample_user 7 1 sample_front)
     = Fault (new_error Busy ''Cannot remove an active or pending profile'')"
  by code_simp


lemma daemon_busy:
  "(case operation_lock (ue_places sample_user) ''profile-use.lock'' sample_front of (r, m1) \<Rightarrow>
      fst (daemon_snapshot (ue_ipc sample_user) m1)) = Done busy_snapshot"
  by code_simp

theorem used_profile_is_kept_witness:
  "calm (fe_desk sample_front) (fe_desk (snd (remove_user_profile ''x'' sample_user 7 1 sample_front)))"
proof -
  obtain r m where run: "remove_user_profile ''x'' sample_user 7 1 sample_front = (r, m)"
    by (cases "remove_user_profile ''x'' sample_user 7 1 sample_front")
  have "session_active (sn_state busy_snapshot)" "profile_id busy_snapshot = Some 7"
    by (simp_all add: busy_snapshot_def session_active_def)
  with used_profile_is_kept [OF run] daemon_busy run show ?thesis by auto
qed

end
