(* ===== verification/ClientAuth.thy ===== *)
theory ClientAuth
  imports Configuration Outcomes BrowserRun EngineRun
begin

text \<open>
  \<open>crates/client/src/auth.rs\<close>: the sign-in of a front end. It prepares the secrets of an
  authentication from the input of the user and the keyring, keeps the certificates the user is asked
  about and the one browser that runs, passes replies to the engine (the control of \<open>EngineAuth\<close>) and
  turns the engine's events into its own. What the engine, the browser and other threads do while
  the session waits for its next event is the input of one wait. No thread panics while it holds a
  lock, so the locks always open.
\<close>

section \<open>The token store\<close>

record 'r hotp_store =
  hs_profile :: uuid
  hs_quiet :: bool
  hs_transaction :: "hotp_transaction option"
  hs_desk :: "'r desk"

definition on_store :: "('r desk, 'a) io \<Rightarrow> ('r hotp_store, 'a) io" where
  "on_store f m = (case f (hs_desk m) of (r, d) \<Rightarrow> (r, m\<lparr>hs_desk := d\<rparr>))"

definition hotp_lock :: "('r, 'i) keyring \<Rightarrow> places \<Rightarrow> ('r hotp_store, string option) io" where
  "hotp_lock R P =
     io_bind (io_get hs_transaction) (\<lambda>slot.
     if slot \<noteq> None
     then io_fail (new_error Conflict ''A token generation transaction is already active'')
     else
     io_bind (io_get (\<lambda>m. (hs_profile m, hs_quiet m))) (\<lambda>(i, q).
     io_bind (on_store (hotp_begin R P i q)) (\<lambda>t.
     io_bind (io_modify (\<lambda>m. m\<lparr>hs_transaction := Some t\<rparr>)) (\<lambda>_.
     io_return (Some (ht_seed t))))))"

definition hotp_unlock ::
  "('r, 'i) keyring \<Rightarrow> places \<Rightarrow> string option \<Rightarrow> ('r hotp_store, unit) io" where
  "hotp_unlock R P new_seed =
     io_bind (io_get hs_transaction) (\<lambda>slot.
     io_bind (io_modify (\<lambda>m. m\<lparr>hs_transaction := None\<rparr>)) (\<lambda>_.
     case slot of
       Some t \<Rightarrow> on_store (hotp_commit R P t new_seed)
     | None \<Rightarrow>
         if new_seed = None then io_return ()
         else io_fail (new_error Conflict ''Token generation has no durable transaction'')))"

definition hotp_callbacks :: "('r, 'i) keyring \<Rightarrow> places \<Rightarrow> 'r hotp_store token_store" where
  "hotp_callbacks R P = \<lparr>ts_lock = hotp_lock R P, ts_unlock = hotp_unlock R P\<rparr>"

section \<open>Preparation\<close>

record auth_inputs =
  ai_password :: "string option"
  ai_key_passphrase :: "string option"
  ai_secondary_key_passphrase :: "string option"
  ai_token_seed :: "string option"
  ai_proxy_credentials :: "string option"
  ai_non_interactive :: bool

definition locked_store :: err where
  "locked_store = new_error AuthenticationRequired
     ''Auto/noninteractive authentication cannot access the locked credential store. Unlock it or connect interactively with session-only input.''"

text \<open>The closure \<open>saved\<close>: the secret, and what it adds to the notices.\<close>

definition saved_secret ::
  "('r, 'i, 'u) user_env \<Rightarrow> bool \<Rightarrow> uuid \<Rightarrow> purpose \<Rightarrow> ('r desk, string option \<times> err list) io" where
  "saved_secret U non_interactive i purpose =
     io_bind (io_try (if non_interactive
                      then get_without_ui (ue_ring U) (ue_places U) i purpose
                      else get_blocking (ue_ring U) (ue_places U) i purpose)) (\<lambda>r.
     case r of
       Inr v \<Rightarrow> io_return (v, [])
     | Inl e \<Rightarrow>
         if \<not> non_interactive \<and> code e = KeyringUnavailable then io_return (None, [e])
         else if code e = KeyringUnavailable then io_fail locked_store
         else io_fail e)"

definition filled_in ::
  "('r, 'i, 'u) user_env \<Rightarrow> bool \<Rightarrow> uuid \<Rightarrow> purpose \<Rightarrow> bool \<Rightarrow> string option
     \<Rightarrow> ('r desk, string option \<times> err list) io" where
  "filled_in U non_interactive i purpose wanted given =
     (if given = None \<and> wanted then saved_secret U non_interactive i purpose
      else io_return (given, []))"

record ('n, 'u) prepared =
  pp_pins :: "certificate_pin list"
  pp_secrets :: "'n auth_secrets"
  pp_notices :: "err list"
  pp_save_password :: "string option"

definition prepare_secrets ::
  "('r, 'i, 'u) user_env \<Rightarrow> 'u profile \<Rightarrow> auth_inputs \<Rightarrow> (uuid \<Rightarrow> bool \<Rightarrow> 'n token_store)
     \<Rightarrow> ('r desk, 'n auth_secrets \<times> err list) io" where
  "prepare_secrets U p i hotp =
     (let me = pf_id p; q = ai_non_interactive i in
      io_bind (filled_in U q me PasswordPurpose (remember_password p) (ai_password i)) (\<lambda>(pw, n1).
      io_bind (filled_in U q me KeyPassphrase (client_certificate p \<noteq> None) (ai_key_passphrase i)) (\<lambda>(kp, n2).
      io_bind (filled_in U q me SecondaryKeyPassphrase (secondary_certificate p \<noteq> None)
                 (ai_secondary_key_passphrase i)) (\<lambda>(sp, n3).
      io_bind (filled_in U q me TokenSeed (token_mode p \<noteq> NoToken) (ai_token_seed i)) (\<lambda>(ts, n4).
      io_bind (filled_in U q me ProxyCredentials (proxy p \<noteq> None) (ai_proxy_credentials i)) (\<lambda>(px, n5).
      io_return
        (\<lparr>password = pw, key_passphrase = kp, secondary_key_passphrase = sp, token_seed = ts,
          as_proxy_credentials = px,
          token_callbacks = (if token_mode p = Hotp then Some (hotp me q) else None)\<rparr>,
         n1 @ n2 @ n3 @ n4 @ n5)))))))"

definition prepare ::
  "('r, 'i, 'u) user_env \<Rightarrow> capabilities \<Rightarrow> 'u profile \<Rightarrow> auth_inputs \<Rightarrow> (uuid \<Rightarrow> bool \<Rightarrow> 'n token_store)
     \<Rightarrow> ('r desk, ('n, 'u) prepared) io" where
  "prepare U C p i hotp =
     io_bind (open_store (ue_chosen U) (ue_places U)) (\<lambda>D.
     io_bind (io_lift (validate_for_connect (ue_crates U) p (protocols C))) (\<lambda>_.
     io_bind (read_pins (ue_crates U) (ue_codec U) D) (\<lambda>d.
     io_bind (prepare_secrets U p i hotp) (\<lambda>(secret, notices).
     io_return
       \<lparr>pp_pins = pins d, pp_secrets = secret, pp_notices = notices,
        pp_save_password = (if remember_password p then ai_password i else None)\<rparr>))))"

section \<open>The session\<close>

text \<open>The session with the control it shares with the front end. \<open>ss_browser\<close> is the transaction of the
  browser that runs, as the control knows it; \<open>ss_task\<close> is whether the session holds the task.\<close>

record ('r, 'u) sign_in =
  si_native :: "'u auth_shared"
  si_desk :: "'r desk"
  si_certificates :: "(uuid \<times> certificate_prompt) list"
  si_cancelled :: bool
  si_browser :: "uuid option"
  si_browser_stopped :: bool
  si_task :: "uuid option"
  si_notices :: "err list"
  si_save_password :: "string option"
  si_terminal :: bool
  si_profile :: uuid
  si_non_interactive :: bool

type_synonym ('r, 'u, 'a) sign_in_io = "(('r, 'u) sign_in, 'a) io"

definition begin_session ::
  "('n, 'u) prepared \<Rightarrow> 'u profile \<Rightarrow> auth_inputs \<Rightarrow> 'u auth_shared \<Rightarrow> 'r desk \<Rightarrow> ('r, 'u) sign_in" where
  "begin_session pp p i shared0 d =
     \<lparr>si_native = shared0, si_desk = d, si_certificates = [], si_cancelled = False, si_browser = None,
      si_browser_stopped = False, si_task = None, si_notices = pp_notices pp,
      si_save_password = pp_save_password pp, si_terminal = False, si_profile = pf_id p,
      si_non_interactive = ai_non_interactive i\<rparr>"

definition with_native :: "('u auth_shared \<Rightarrow> unit result \<times> 'u auth_shared) \<Rightarrow> ('r, 'u, unit) sign_in_io" where
  "with_native f m = (case f (si_native m) of (r, s) \<Rightarrow> io_lift r (m\<lparr>si_native := s\<rparr>))"

definition on_user_desk :: "('r desk, 'a) io \<Rightarrow> ('r, 'u, 'a) sign_in_io" where
  "on_user_desk f m = (case f (si_desk m) of (r, d) \<Rightarrow> (r, m\<lparr>si_desk := d\<rparr>))"

section \<open>The control\<close>

text \<open>\<open>held\<close>: the certificates are locked by a reply that is being worked on.\<close>

definition cancel_session :: "bool \<Rightarrow> ('r, 'u) sign_in \<Rightarrow> ('r, 'u) sign_in" where
  "cancel_session held m =
     m\<lparr>si_cancelled := True, si_native := cancel_auth (si_native m),
       si_certificates := (if held then si_certificates m else []),
       si_browser_stopped := (si_browser_stopped m \<or> si_browser m \<noteq> None)\<rparr>"

definition session_reply :: "auth_reply \<Rightarrow> ('r, 'u, unit) sign_in_io" where
  "session_reply r = with_native (form_reply r)"

definition browser_control :: "uuid \<Rightarrow> ('r, 'u, unit) sign_in_io" where
  "browser_control i =
     io_bind (io_get si_browser) (\<lambda>b.
     if b = Some i then io_return ()
     else io_fail (new_error Conflict ''Browser transaction is no longer current''))"

definition drop_certificate :: "uuid \<Rightarrow> ('r, 'u) sign_in \<Rightarrow> ('r, 'u) sign_in" where
  "drop_certificate i m =
     m\<lparr>si_certificates := filter (\<lambda>(j, _). j \<noteq> i) (si_certificates m)\<rparr>"

definition save_accepted_pin ::
  "string \<Rightarrow> ('r, 'i, 'u) user_env \<Rightarrow> os_path \<Rightarrow> certificate_prompt \<Rightarrow> ('r desk, unit) io" where
  "save_accepted_pin fresh U D p =
     io_bind (read_pins (ue_crates U) (ue_codec U) D) (\<lambda>d.
     io_bind (io_lift (certificate_pin_new (ue_crates U) (cp_host p) (cp_port p) (cp_fingerprint p))) (\<lambda>c.
     io_bind (save_pin fresh (ue_crates U) (ue_codec U) D c (cd_revision d)) (\<lambda>_. io_return ())))"

definition session_certificate_reply ::
  "string \<Rightarrow> ('r, 'i, 'u) user_env \<Rightarrow> os_path \<Rightarrow> uuid \<Rightarrow> certificate_decision
     \<Rightarrow> ('r, 'u, unit) sign_in_io" where
  "session_certificate_reply fresh U D i d =
     io_bind (io_get (\<lambda>m. (si_cancelled m, map_of (si_certificates m) i))) (\<lambda>(cancelled, found).
     if cancelled then io_fail (new_error Conflict ''Authentication was cancelled'')
     else
     io_bind (io_lift (ok_or (new_error Conflict ''Certificate prompt is no longer current'') found)) (\<lambda>p.
     io_bind (with_native (certificate_reply i d)) (\<lambda>_.
     io_bind (if d = PinCertificate then io_try (on_user_desk (save_accepted_pin fresh U D p))
              else io_return (Inr ())) (\<lambda>saved.
     case saved of
       Inl e \<Rightarrow> io_bind (io_modify (\<lambda>m. drop_certificate i (cancel_session True m))) (\<lambda>_. io_fail e)
     | Inr _ \<Rightarrow> io_modify (drop_certificate i)))))"

section \<open>Events\<close>

datatype 'u client_event =
    CPrompt auth_prompt | CCertificate certificate_prompt | CBrowser browser_prompt
  | CBrowserFinished uuid | CAuthenticated "'u auth_handoff" | CFailed err | CCancelled

text \<open>What happens during one call of \<open>recv_timeout\<close>: what other threads do to the control before it
  looks and while it waits, the notices of the browser, the event of the engine (None at the end of
  the wait), how closing the browser goes, and the browser that is started.\<close>

datatype session_act =
    SCancel | SReply auth_reply | SCertificate string os_path uuid certificate_decision
  | SNative control_act

record 'u wait =
  wt_before :: "session_act list"
  wt_during :: "session_act list"
  wt_notice :: "notice option"
  wt_event :: "'u auth_event option result"
  wt_late :: "notice list"
  wt_close :: "unit result"
  wt_start :: "uuid result"

fun act_on_session ::
  "('r, 'i, 'u) user_env \<Rightarrow> session_act \<Rightarrow> ('r, 'u) sign_in \<Rightarrow> ('r, 'u) sign_in" where
  "act_on_session U SCancel m = cancel_session False m"
| "act_on_session U (SReply r) m = snd (session_reply r m)"
| "act_on_session U (SCertificate fresh D i d) m = snd (session_certificate_reply fresh U D i d m)"
| "act_on_session U (SNative a) m =
     m\<lparr>si_native := snd (control_step (ue_crates U) a (si_native m))\<rparr>"

definition session_acts ::
  "('r, 'i, 'u) user_env \<Rightarrow> session_act list \<Rightarrow> ('r, 'u, unit) sign_in_io" where
  "session_acts U acts = io_modify (fold (act_on_session U) acts)"

text \<open>\<open>finish\<close>: the password is dropped and nothing is received any more.\<close>

definition finish :: "('r, 'u) sign_in \<Rightarrow> ('r, 'u) sign_in" where
  "finish m = m\<lparr>si_save_password := None, si_terminal := True\<rparr>"

definition close_browser :: "'u wait \<Rightarrow> ('r, 'u, unit) sign_in_io" where
  "close_browser w =
     io_bind (io_get si_task) (\<lambda>task.
     let r = (if task = None then Inr () else wt_close w) in
     io_bind (io_modify (\<lambda>m. m\<lparr>si_task := None, si_browser := None\<rparr>)) (\<lambda>_.
     case r of
       Inl e \<Rightarrow> io_bind (io_modify (\<lambda>m. finish (cancel_session False m))) (\<lambda>_. io_fail e)
     | Inr _ \<Rightarrow> io_return ()))"

definition ends_session :: "'u auth_event option \<Rightarrow> bool" where
  "ends_session e =
     (case e of
        Some (EvAuthenticated _) \<Rightarrow> True | Some (EvFailed _) \<Rightarrow> True | Some EvCancelled \<Rightarrow> True
      | _ \<Rightarrow> False)"

definition asks_user :: "'u auth_event option \<Rightarrow> bool" where
  "asks_user e =
     (case e of
        Some (EvPrompt _) \<Rightarrow> True | Some (EvCertificate _) \<Rightarrow> True | Some (EvBrowser _) \<Rightarrow> True
      | _ \<Rightarrow> False)"

fun late_failure :: "notice list \<Rightarrow> 'u auth_event option \<Rightarrow> 'u auth_event option" where
  "late_failure [] e = e"
| "late_failure (NFailed x # ns) e = late_failure ns (Some (EvFailed x))"
| "late_failure (NPrompt _ # ns) e = late_failure ns e"

definition interaction_required :: err where
  "interaction_required = new_error AuthenticationRequired
     ''Authentication requires interaction. Retry interactively; no browser or prompt was opened.''"

definition start_browser :: "'u wait \<Rightarrow> ('r, 'u, 'u client_event option) sign_in_io" where
  "start_browser w =
     io_bind (close_browser w) (\<lambda>_.
     case wt_start w of
       Inr i \<Rightarrow>
         io_bind (io_modify (\<lambda>m. m\<lparr>si_browser := Some i, si_task := Some i,
           si_browser_stopped := False\<rparr>)) (\<lambda>_. io_return None)
     | Inl e \<Rightarrow>
         io_bind (io_modify (cancel_session False)) (\<lambda>_. io_return (Some (CFailed e))))"

definition pass_event ::
  "'u wait \<Rightarrow> 'u auth_event option \<Rightarrow> ('r, 'u, 'u client_event option) sign_in_io" where
  "pass_event w e =
     (case e of
        Some (EvBrowser _) \<Rightarrow> start_browser w
      | Some (EvBrowserFinished i) \<Rightarrow>
          io_bind (close_browser w) (\<lambda>_. io_return (Some (CBrowserFinished i)))
      | Some (EvPrompt p) \<Rightarrow> io_return (Some (CPrompt p))
      | Some (EvCertificate p) \<Rightarrow> io_return (Some (CCertificate p))
      | Some (EvAuthenticated h) \<Rightarrow> io_return (Some (CAuthenticated h))
      | Some (EvFailed x) \<Rightarrow> io_return (Some (CFailed x))
      | Some EvCancelled \<Rightarrow> io_return (Some CCancelled)
      | None \<Rightarrow> io_return None)"

definition save_session_password :: "('r, 'i, 'u) user_env \<Rightarrow> ('r, 'u, unit) sign_in_io" where
  "save_session_password U =
     io_bind (io_get (\<lambda>m. (si_save_password m, si_profile m, si_non_interactive m))) (\<lambda>(pw, i, q).
     io_bind (io_modify (\<lambda>m. m\<lparr>si_save_password := None\<rparr>)) (\<lambda>_.
     case pw of
       None \<Rightarrow> io_return ()
     | Some secret \<Rightarrow>
         io_bind (io_try (on_user_desk
           (if q then save_without_ui (ue_ring U) (ue_places U) i PasswordPurpose secret True
            else save_blocking (ue_ring U) (ue_places U) i PasswordPurpose secret True))) (\<lambda>saved.
         case saved of
           Inl e \<Rightarrow> io_modify (\<lambda>m. m\<lparr>si_notices := si_notices m @ [e]\<rparr>)
         | Inr _ \<Rightarrow> io_return ())))"

definition settle_event ::
  "('r, 'i, 'u) user_env \<Rightarrow> 'u wait \<Rightarrow> 'u client_event option \<Rightarrow> ('r, 'u, unit) sign_in_io" where
  "settle_event U w e =
     (case e of
        Some (CCertificate p) \<Rightarrow>
          io_modify (\<lambda>m. m\<lparr>si_certificates :=
            (cp_prompt_id p, p) # filter (\<lambda>(j, _). j \<noteq> cp_prompt_id p) (si_certificates m)\<rparr>)
      | Some (CAuthenticated _) \<Rightarrow>
          io_bind (save_session_password U) (\<lambda>_.
          io_bind (io_modify (\<lambda>m. m\<lparr>si_terminal := True\<rparr>)) (\<lambda>_. close_browser w))
      | Some (CFailed _) \<Rightarrow> io_bind (io_modify finish) (\<lambda>_. close_browser w)
      | Some CCancelled \<Rightarrow> io_bind (io_modify finish) (\<lambda>_. close_browser w)
      | _ \<Rightarrow> io_return ())"

text \<open>The part after the engine's event is there.\<close>

definition receive_event ::
  "('r, 'i, 'u) user_env \<Rightarrow> 'u wait \<Rightarrow> 'u auth_event option \<Rightarrow> ('r, 'u, 'u client_event option) sign_in_io" where
  "receive_event U w e =
     io_bind (io_get (\<lambda>m. (si_cancelled m, si_non_interactive m))) (\<lambda>(cancelled, alone).
     if cancelled
     then io_bind (io_modify finish) (\<lambda>_.
          io_bind (close_browser w) (\<lambda>_. io_return (Some CCancelled)))
     else if alone \<and> asks_user e
     then io_bind (io_modify (\<lambda>m. finish (cancel_session False m))) (\<lambda>_.
          io_return (Some (CFailed interaction_required)))
     else
     io_bind (pass_event w e) (\<lambda>c.
     io_bind (settle_event U w c) (\<lambda>_. io_return c)))"

definition session_recv ::
  "('r, 'i, 'u) user_env \<Rightarrow> 'u wait \<Rightarrow> ('r, 'u, 'u client_event option) sign_in_io" where
  "session_recv U w =
     io_bind (session_acts U (wt_before w)) (\<lambda>_.
     io_bind (io_get (\<lambda>m. (si_terminal m, si_cancelled m, si_task m))) (\<lambda>(terminal, cancelled, task).
     if terminal then io_return None
     else if cancelled
     then io_bind (close_browser w) (\<lambda>_.
          io_bind (io_modify finish) (\<lambda>_. io_return (Some CCancelled)))
     else
     case (if task = None then None else wt_notice w) of
       Some (NPrompt p) \<Rightarrow> io_return (Some (CBrowser p))
     | Some (NFailed e) \<Rightarrow>
         io_bind (io_modify (cancel_session False)) (\<lambda>_.
         io_bind (close_browser w) (\<lambda>_.
         io_bind (io_modify finish) (\<lambda>_. io_return (Some (CFailed e)))))
     | None \<Rightarrow>
         io_bind (session_acts U (wt_during w)) (\<lambda>_.
         io_bind (io_lift (wt_event w)) (\<lambda>e.
         receive_event U w
           (if ends_session e \<and> task \<noteq> None then late_failure (wt_late w) e else e)))))"

definition drop_session :: "'u wait \<Rightarrow> ('r, 'u) sign_in \<Rightarrow> ('r, 'u) sign_in" where
  "drop_session w m = snd (close_browser w (cancel_session False m))"

end
