(* ===== verification/ClientAuthProps.thy ===== *)
theory ClientAuthProps
  imports ClientAuth ConfigurationProps
begin

text \<open>
  What a sign-in promises to its front end: the database of accepted certificates only changes for a
  certificate the engine has just accepted, the sign-in ends once, its handoff is the engine's, and
  a sign-in without interaction asks for nothing.
\<close>

section \<open>Certificates\<close>

lemma with_native_ends:
  "ends (\<lambda>m'. m' = m) (with_native f) (\<lambda>r m'. m' = m\<lparr>si_native := snd (f (si_native m))\<rparr>
     \<and> r = (case fst (f (si_native m)) of Inl e \<Rightarrow> Fault e | Inr u \<Rightarrow> Done u))"
  by (auto simp: ends_def with_native_def io_lift_def split: prod.splits sum.splits)

lemma cancel_auth_stops [simp]: "sh_cancelled (cancel_auth s)"
  by (auto simp: cancel_auth_def Let_def send_response_def)

lemma drop_cancel [simp]:
  "si_desk (drop_certificate i m) = si_desk m" "si_cancelled (drop_certificate i m) = si_cancelled m"
  "si_native (drop_certificate i m) = si_native m"
  "si_desk (cancel_session h m) = si_desk m" "si_cancelled (cancel_session h m)"
  "si_native (cancel_session h m) = cancel_auth (si_native m)"
  by (simp_all add: drop_certificate_def cancel_session_def)

text \<open>C38: a reply to a certificate changes the files of the user only by saving the pin of the very
  certificate it answers, after the engine has taken the answer of a prompt that was still current;
  when the pin cannot be saved, the authentication is cancelled, so that the acceptance is of no
  use.\<close>

theorem saved_pin_was_accepted:
  assumes "session_certificate_reply fresh U D i d m = (r, m')"
  shows "si_desk m' = si_desk m
    \<or> d = PinCertificate \<and> \<not> si_cancelled m
       \<and> (\<exists>p. map_of (si_certificates m) i = Some p
             \<and> si_desk m' = snd (save_accepted_pin fresh U D p (si_desk m)))
       \<and> fst (certificate_reply i d (si_native m)) = Inr ()
       \<and> (case r of Done _ \<Rightarrow> True | Fault _ \<Rightarrow> si_cancelled m' \<and> sh_cancelled (si_native m')
          | Crashed \<Rightarrow> True)"
proof (cases "\<exists>p s. \<not> si_cancelled m \<and> map_of (si_certificates m) i = Some p
      \<and> certificate_reply i d (si_native m) = (Inr (), s) \<and> d = PinCertificate")
  case True
  then obtain p s where 1: "\<not> si_cancelled m" "map_of (si_certificates m) i = Some p"
    "certificate_reply i d (si_native m) = (Inr (), s)" "d = PinCertificate" by blast
  obtain q k where 2: "save_accepted_pin fresh U D p (si_desk m) = (q, k)"
    by (cases "save_accepted_pin fresh U D p (si_desk m)")
  from assms 1 2 show ?thesis
    by (cases q) (auto simp: session_certificate_reply_def io_defs with_native_def on_user_desk_def
        ok_or_def io_modify_def)
next
  case False
  obtain q s where c: "certificate_reply i d (si_native m) = (q, s)"
    by (cases "certificate_reply i d (si_native m)")
  have "si_desk m' = si_desk m"
    using assms False c
    by (cases q; cases "map_of (si_certificates m) i"; cases "si_cancelled m"; cases d)
       (auto simp: session_certificate_reply_def io_defs with_native_def ok_or_def io_modify_def)
  then show ?thesis ..
qed

section \<open>The end of a sign-in\<close>

fun session_run :: "('r, 'i, 'u) user_env \<Rightarrow> 'u wait list \<Rightarrow> ('r, 'u) sign_in \<Rightarrow> 'u client_event list" where
  "session_run U [] m = []"
| "session_run U (w # ws) m =
     (case session_recv U w m of
        (Done (Some e), m) \<Rightarrow> e # session_run U ws m
      | (Done None, m) \<Rightarrow> session_run U ws m
      | _ \<Rightarrow> [])"

definition ends_sign_in :: "'u client_event \<Rightarrow> bool" where
  "ends_sign_in e =
     (case e of CAuthenticated _ \<Rightarrow> True | CFailed _ \<Rightarrow> True | CCancelled \<Rightarrow> True | _ \<Rightarrow> False)"

definition asks_for_input :: "'u client_event \<Rightarrow> bool" where
  "asks_for_input e =
     (case e of CPrompt _ \<Rightarrow> True | CCertificate _ \<Rightarrow> True | CBrowser _ \<Rightarrow> True | _ \<Rightarrow> False)"

text \<open>What the replies of other threads and the writing of the password leave alone.\<close>

definition course :: "('r, 'u) sign_in \<Rightarrow> bool \<times> uuid option \<times> bool" where
  "course m = (si_non_interactive m, si_task m, si_terminal m)"

lemma unmoved_snd: "unmoved v f \<Longrightarrow> v (snd (f m)) = v m"
  by (simp add: unmoved_def)

lemma unmoved_modify: "(\<And>m. v (f m) = v m) \<Longrightarrow> unmoved v (io_modify f)"
  by (simp add: unmoved_def io_modify_def)

lemma course_quiet [unmoved_rules]:
  "unmoved course (with_native f)" "unmoved course (on_user_desk g)"
  "unmoved course (io_modify (\<lambda>m. m\<lparr>si_save_password := pw\<rparr>))"
  "unmoved course (io_modify (\<lambda>m. m\<lparr>si_notices := si_notices m @ [x]\<rparr>))"
  "unmoved course (io_modify (drop_certificate i))"
  "unmoved course (io_modify (\<lambda>m. drop_certificate i (cancel_session h m)))"
  "unmoved course (io_modify (\<lambda>m. m\<lparr>si_certificates := c m\<rparr>))"
  by (auto simp: unmoved_def course_def with_native_def on_user_desk_def io_lift_def io_modify_def
      drop_certificate_def cancel_session_def split: prod.splits sum.splits)

lemma course_certificate: "unmoved course (session_certificate_reply fresh U D i d)"
  unfolding session_certificate_reply_def by (intro unmoved_rules)

lemma course_password: "unmoved course (save_session_password U)"
  unfolding save_session_password_def by (intro unmoved_rules)

lemma course_act: "course (act_on_session U a m) = course m"
proof (cases a)
  case (SReply r)
  then show ?thesis by (simp add: session_reply_def unmoved_snd [OF course_quiet(1)])
next
  case (SCertificate fresh D i d)
  then show ?thesis by (simp add: unmoved_snd [OF course_certificate])
qed (simp_all add: course_def cancel_session_def)

lemma course_acts: "unmoved course (session_acts U acts)"
proof -
  have "course (fold (act_on_session U) acts m) = course m" for m
    by (induction acts arbitrary: m) (simp_all add: course_act)
  then show ?thesis unfolding session_acts_def by (rule unmoved_modify)
qed

text \<open>The state of a sign-in between two calls: it goes on as it was begun, without interaction or
  with it, and in the first case no browser runs.\<close>

definition steady :: "bool \<Rightarrow> ('r, 'u) sign_in \<Rightarrow> bool" where
  "steady q m \<longleftrightarrow> si_non_interactive m = q \<and> (q \<longrightarrow> si_task m = None)"

lemma steady_course: "course m = course m0 \<Longrightarrow> steady q m = steady q m0"
  "course m = course m0 \<Longrightarrow> si_terminal m = si_terminal m0"
  by (simp_all add: course_def steady_def)

lemma unmoved_steady:
  assumes "unmoved course f" "\<And>r m. steady q m \<Longrightarrow> (t \<longrightarrow> si_terminal m) \<Longrightarrow> Q r m"
  shows "ends (\<lambda>m. steady q m \<and> (t \<longrightarrow> si_terminal m)) f Q"
  by (rule endsI) (use assms(2) steady_course unmovedD [OF assms(1)] in blast)

lemma close_ends:
  "ends (\<lambda>m. steady q m \<and> (t \<longrightarrow> si_terminal m)) (close_browser w)
     (\<lambda>r m. steady q m \<and> (t \<longrightarrow> si_terminal m))"
  by (auto simp: ends_def close_browser_def io_defs io_modify_def Let_def steady_def finish_def
      cancel_session_def split: sum.splits if_splits)

lemma pass_event_simps [simp]:
  "pass_event w (Some (EvBrowser b)) = start_browser w"
  "pass_event w (Some (EvBrowserFinished i)) =
     io_bind (close_browser w) (\<lambda>_. io_return (Some (CBrowserFinished i)))"
  "pass_event w (Some (EvPrompt p)) = io_return (Some (CPrompt p))"
  "pass_event w (Some (EvCertificate c)) = io_return (Some (CCertificate c))"
  "pass_event w (Some (EvAuthenticated h)) = io_return (Some (CAuthenticated h))"
  "pass_event w (Some (EvFailed x)) = io_return (Some (CFailed x))"
  "pass_event w (Some EvCancelled) = io_return (Some CCancelled)"
  "pass_event w None = io_return None"
  by (simp_all add: pass_event_def)

text \<open>An event that fits what the engine said and how the sign-in was begun.\<close>

definition fits_event :: "bool \<Rightarrow> 'u auth_event option \<Rightarrow> 'u client_event \<Rightarrow> bool" where
  "fits_event q e c \<longleftrightarrow> (q \<longrightarrow> \<not> asks_for_input c)
     \<and> (case c of CAuthenticated h \<Rightarrow> e = Some (EvAuthenticated h) | _ \<Rightarrow> True)"

definition heard ::
  "bool \<Rightarrow> 'u auth_event option \<Rightarrow> 'u client_event option outcome \<Rightarrow> ('r, 'u) sign_in \<Rightarrow> bool" where
  "heard q e r m \<longleftrightarrow> steady q m \<and> (\<forall>c. r = Done (Some c) \<longrightarrow> fits_event q e c)"

lemma heard_return: "(\<And>c. x = Some c \<Longrightarrow> fits_event q e c) \<Longrightarrow> ends (steady q) (io_return x) (heard q e)"
  by (auto simp: ends_def io_return_def heard_def)

lemma close_steady: "ends (steady q) (close_browser w) (\<lambda>r. steady q)"
  using close_ends [of q False w] by simp

lemma heard_close: "ends (steady q) f (heard q e) \<Longrightarrow> ends (steady q) (io_bind (close_browser w) (\<lambda>_. f)) (heard q e)"
  by (rule ends_bind [OF ends_weaken [OF close_steady]]) (auto simp: heard_def split: outcome.splits)

lemma heard_browser:
  "\<not> q \<Longrightarrow> ends (steady q) (case wt_start w of
       Inr i \<Rightarrow> io_bind (io_modify (\<lambda>m. m\<lparr>si_browser := Some i, si_task := Some i,
           si_browser_stopped := False\<rparr>)) (\<lambda>_. io_return None)
     | Inl x \<Rightarrow> io_bind (io_modify (cancel_session False)) (\<lambda>_. io_return (Some (CFailed x)))) (heard q e)"
  by (auto simp: ends_def io_defs io_modify_def steady_def heard_def fits_event_def cancel_session_def
      split: sum.splits)

lemma pass_event_ends:
  assumes "\<not> (q \<and> asks_user e)"
  shows "ends (steady q) (pass_event w e) (heard q e)"
proof (cases e)
  case (Some x)
  show ?thesis
  proof (cases x)
    case (EvBrowser b)
    then have "\<not> q" using assms Some by (simp add: asks_user_def)
    then show ?thesis
      unfolding Some EvBrowser pass_event_simps start_browser_def by (intro heard_close heard_browser)
  next
    case (EvBrowserFinished i)
    show ?thesis
      unfolding Some EvBrowserFinished pass_event_simps
      by (intro heard_close heard_return) (auto simp: fits_event_def asks_for_input_def)
  qed (use assms Some in \<open>auto simp: asks_user_def asks_for_input_def fits_event_def intro!: heard_return\<close>)
qed (auto intro!: heard_return)

lemma settle_event_simps [simp]:
  "settle_event U w (Some (CAuthenticated h)) =
     io_bind (save_session_password U) (\<lambda>_.
     io_bind (io_modify (\<lambda>m. m\<lparr>si_terminal := True\<rparr>)) (\<lambda>_. close_browser w))"
  "settle_event U w (Some (CFailed x)) = io_bind (io_modify finish) (\<lambda>_. close_browser w)"
  "settle_event U w (Some CCancelled) = io_bind (io_modify finish) (\<lambda>_. close_browser w)"
  by (simp_all add: settle_event_def)

lemma settle_other:
  "\<not> ends_sign_in c \<Longrightarrow> ends (steady q) (settle_event U w (Some c)) (\<lambda>r. steady q)"
  by (cases c) (auto simp: settle_event_def ends_sign_in_def ends_def io_defs io_modify_def steady_def)

lemma ended_close:
  assumes "\<And>m. steady q (g m) = steady q m" "\<And>m. si_terminal (g m)"
  shows "ends (steady q) (io_bind (io_modify g) (\<lambda>_. close_browser w)) (\<lambda>r m. steady q m \<and> si_terminal m)"
proof (rule ends_bind)
  show "ends (steady q) (io_modify g) (\<lambda>r m. case r of
      Done _ \<Rightarrow> steady q m \<and> (True \<longrightarrow> si_terminal m)
    | Fault e \<Rightarrow> steady q m \<and> si_terminal m | Crashed \<Rightarrow> steady q m \<and> si_terminal m)"
    using assms by (simp add: ends_def io_modify_def)
qed (rule ends_weaken [OF close_ends [of q True w]], simp_all)

lemma settle_ends:
  assumes "ends_sign_in c"
  shows "ends (steady q) (settle_event U w (Some c)) (\<lambda>r m. steady q m \<and> (r = Done () \<longrightarrow> si_terminal m))"
proof -
  have p: "ends (steady q) (save_session_password U) (\<lambda>r. steady q)"
    using unmoved_steady [OF course_password, where t = False and Q = "\<lambda>r. steady q"] by simp
  have f: "ends (steady q) (io_bind (io_modify g) (\<lambda>_. close_browser w))
      (\<lambda>r m. steady q m \<and> (r = Done () \<longrightarrow> si_terminal m))"
    if "\<And>m. steady q (g m) = steady q m" "\<And>m. si_terminal (g m)" for g
    by (rule ends_weaken [OF ended_close [OF that]]) simp_all
  show ?thesis
  proof (cases c)
    case (CAuthenticated h)
    show ?thesis
      unfolding CAuthenticated settle_event_simps
      by (rule ends_bind [OF ends_weaken [OF p] f]) (auto simp: steady_def split: outcome.splits)
  qed (use assms f [of finish] in \<open>auto simp: ends_sign_in_def steady_def finish_def\<close>)
qed

definition received ::
  "bool \<Rightarrow> 'u auth_event option \<Rightarrow> 'u client_event option outcome \<Rightarrow> ('r, 'u) sign_in \<Rightarrow> bool" where
  "received q e r m \<longleftrightarrow> heard q e r m \<and> (\<forall>c. r = Done (Some c) \<longrightarrow> ends_sign_in c \<longrightarrow> si_terminal m)"

lemma received_bad: "steady q m \<Longrightarrow> received q e (Fault x) m" "steady q m \<Longrightarrow> received q e Crashed m"
  "steady q m \<Longrightarrow> received q e (Done None) m"
  by (simp_all add: received_def heard_def)

lemma received_end:
  "steady q m \<Longrightarrow> si_terminal m \<Longrightarrow> received q e (Done (Some CCancelled)) m"
  "steady q m \<Longrightarrow> si_terminal m \<Longrightarrow> received q e (Done (Some (CFailed x))) m"
  by (simp_all add: received_def heard_def fits_event_def asks_for_input_def)

lemma finish_simps [simp]: "steady q (finish m) = steady q m" "si_terminal (finish m)"
  "steady q (cancel_session h m) = steady q m"
  by (simp_all add: steady_def finish_def cancel_session_def)

lemma ended_end:
  "ends (steady q) (io_bind (io_modify finish) (\<lambda>_.
     io_bind (close_browser w) (\<lambda>_. io_return (Some CCancelled)))) (received q e)"
proof (rule ends_bind [where R = "\<lambda>_ m. steady q m \<and> (True \<longrightarrow> si_terminal m)"])
  show "ends (\<lambda>m. steady q m \<and> (True \<longrightarrow> si_terminal m))
     (io_bind (close_browser w) (\<lambda>_. io_return (Some CCancelled))) (received q e)"
    by (rule ends_bind [OF ends_weaken [OF close_ends [of q True w]],
          where R = "\<lambda>_ m. steady q m \<and> si_terminal m"])
       (auto simp: received_bad ends_def io_return_def received_end split: outcome.splits)
qed (simp add: ends_def io_modify_def)

lemma receive_event_ends: "ends (steady q) (receive_event U w e) (received q e)"
  unfolding receive_event_def
proof (rule ends_bind [where R = "\<lambda>x m. steady q m \<and> snd x = q"])
  show "ends (steady q) (io_get (\<lambda>m. (si_cancelled m, si_non_interactive m)))
     (\<lambda>r m. case r of Done x \<Rightarrow> steady q m \<and> snd x = q
       | Fault x \<Rightarrow> received q e (Fault x) m | Crashed \<Rightarrow> received q e Crashed m)"
    by (simp add: ends_def io_get_def steady_def)
  fix x :: "bool \<times> bool"
  obtain cancelled alone where x: "x = (cancelled, alone)" by (cases x)
  have r: "ends (steady q) (io_bind (pass_event w e) (\<lambda>c.
       io_bind (settle_event U w c) (\<lambda>_. io_return c))) (received q e)" if "\<not> (q \<and> asks_user e)"
  proof (rule ends_bind [where R = "\<lambda>c m. steady q m \<and> (\<forall>x. c = Some x \<longrightarrow> fits_event q e x)"])
    show "ends (steady q) (pass_event w e) (\<lambda>r m. case r of
        Done c \<Rightarrow> steady q m \<and> (\<forall>x. c = Some x \<longrightarrow> fits_event q e x)
      | Fault x \<Rightarrow> received q e (Fault x) m | Crashed \<Rightarrow> received q e Crashed m)"
      by (rule ends_weaken [OF pass_event_ends [OF that]])
         (auto simp: heard_def received_bad split: outcome.splits)
    fix c
    show "ends (\<lambda>m. steady q m \<and> (\<forall>x. c = Some x \<longrightarrow> fits_event q e x))
       (io_bind (settle_event U w c) (\<lambda>_. io_return c)) (received q e)"
    proof (cases c)
      case (Some y)
      show ?thesis
      proof (cases "fits_event q e y")
        case fits: True
        have o: "ends (steady q) (settle_event U w (Some y))
           (\<lambda>r m. steady q m \<and> (r = Done () \<longrightarrow> ends_sign_in y \<longrightarrow> si_terminal m))"
          by (cases "ends_sign_in y")
             (auto intro: ends_weaken [OF settle_ends] ends_weaken [OF settle_other])
        show ?thesis
          unfolding Some
          by (rule ends_bind [OF ends_weaken [OF o], where R = "\<lambda>_ m. steady q m \<and> (ends_sign_in y \<longrightarrow> si_terminal m)"])
             (use fits in \<open>auto simp: received_bad received_def heard_def ends_def io_return_def split: outcome.splits\<close>)
      qed (simp add: Some ends_def)
    qed (auto simp: settle_event_def ends_def io_defs received_bad)
  qed
  show "ends (\<lambda>m. steady q m \<and> snd x = q)
     (case x of (cancelled, alone) \<Rightarrow>
        if cancelled
        then io_bind (io_modify finish) (\<lambda>_.
             io_bind (close_browser w) (\<lambda>_. io_return (Some CCancelled)))
        else if alone \<and> asks_user e
        then io_bind (io_modify (\<lambda>m. finish (cancel_session False m))) (\<lambda>_.
             io_return (Some (CFailed interaction_required)))
        else io_bind (pass_event w e) (\<lambda>c. io_bind (settle_event U w c) (\<lambda>_. io_return c)))
     (received q e)"
  proof (cases cancelled)
    case True
    then show ?thesis
      unfolding x by (auto intro!: ends_weaken [OF ended_end])
  next
    case False
    show ?thesis
    proof (cases "alone = q")
      case same: True
      have a: "ends (steady q) (io_bind (io_modify (\<lambda>m. finish (cancel_session False m))) (\<lambda>_.
          io_return (Some (CFailed interaction_required)))) (received q e)"
        by (auto simp: ends_def io_defs io_modify_def received_end)
      show ?thesis
        by (cases "q \<and> asks_user e") (use False same a r in \<open>auto simp: x\<close>)
    qed (simp add: x ends_def)
  qed
qed

definition came :: "bool \<Rightarrow> 'u wait \<Rightarrow> 'u client_event option outcome \<Rightarrow> ('r, 'u) sign_in \<Rightarrow> bool" where
  "came q w r m \<longleftrightarrow> steady q m \<and> (\<forall>c. r = Done (Some c) \<longrightarrow> (q \<longrightarrow> \<not> asks_for_input c)
     \<and> (\<forall>h. c = CAuthenticated h \<longrightarrow> wt_event w = Inr (Some (EvAuthenticated h)))
     \<and> (ends_sign_in c \<longrightarrow> si_terminal m))"

lemma came_plain: "steady q m \<Longrightarrow> came q w (Fault x) m" "steady q m \<Longrightarrow> came q w Crashed m"
  "steady q m \<Longrightarrow> came q w (Done None) m"
  "steady q m \<Longrightarrow> si_terminal m \<Longrightarrow> came q w (Done (Some CCancelled)) m"
  "steady q m \<Longrightarrow> si_terminal m \<Longrightarrow> came q w (Done (Some (CFailed x))) m"
  by (simp_all add: came_def asks_for_input_def)

lemma late_failure_authenticated:
  "late_failure ns e = Some (EvAuthenticated h) \<Longrightarrow> e = Some (EvAuthenticated h)"
  by (induction ns e rule: late_failure.induct) simp_all

lemma received_came:
  assumes "received q e r m" "\<And>h. e = Some (EvAuthenticated h) \<Longrightarrow> wt_event w = Inr (Some (EvAuthenticated h))"
  shows "came q w r m"
  using assms by (auto simp: received_def heard_def came_def fits_event_def split: client_event.splits)

lemma close_then:
  assumes "c = CCancelled \<or> (\<exists>x. c = CFailed x)"
  shows "ends (steady q) (io_bind (close_browser w) (\<lambda>_. io_bind (io_modify finish) (\<lambda>_. io_return (Some c))))
     (came q w)"
  by (rule ends_bind [OF ends_weaken [OF close_steady], where R = "\<lambda>_. steady q"])
     (use assms in \<open>auto simp: came_plain ends_def io_defs io_modify_def split: outcome.splits\<close>)

lemma steady_acts: "ends (steady q) (session_acts U acts) (\<lambda>r m. steady q m \<and> r = Done ())"
proof (rule endsI)
  fix m r m'
  assume a: "steady q m" "session_acts U acts m = (r, m')"
  then have "steady q m'" using steady_course(1) [OF unmovedD [OF course_acts]] by blast
  then show "steady q m' \<and> r = Done ()" using a by (simp add: session_acts_def io_modify_def)
qed

lemma bind_lift_Inr: "io_bind (io_lift (Inr a)) f = f a"
  by (simp add: fun_eq_iff io_defs)

lemma session_recv_ends: "ends (steady q) (session_recv U w) (came q w)"
  unfolding session_recv_def
proof (rule ends_bind [OF ends_weaken [OF steady_acts], where R = "\<lambda>_. steady q"])
  fix u
  have e: "ends (steady q) (receive_event U w (if ends_session e \<and> b then late_failure (wt_late w) e else e))
     (came q w)" if "wt_event w = Inr e" for e b
    by (rule ends_weaken [OF receive_event_ends])
       (use that in \<open>auto intro!: received_came dest: late_failure_authenticated split: if_splits\<close>)
  have d: "ends (steady q) (io_bind (session_acts U (wt_during w)) (\<lambda>_.
      io_bind (io_lift (wt_event w)) (\<lambda>e.
      receive_event U w (if ends_session e \<and> b then late_failure (wt_late w) e else e)))) (came q w)" for b
  proof (rule ends_bind [OF ends_weaken [OF steady_acts], where R = "\<lambda>_. steady q"])
    fix u
    show "ends (steady q) (io_bind (io_lift (wt_event w)) (\<lambda>e.
        receive_event U w (if ends_session e \<and> b then late_failure (wt_late w) e else e))) (came q w)"
    proof (cases "wt_event w")
      case (Inr a)
      then show ?thesis using e [OF Inr] by (simp add: bind_lift_Inr)
    qed (auto simp: ends_def io_defs came_plain)
  qed (auto simp: came_plain)
  show "ends (steady q) (io_bind (io_get (\<lambda>m. (si_terminal m, si_cancelled m, si_task m))) (\<lambda>(terminal, cancelled, task).
     if terminal then io_return None
     else if cancelled
     then io_bind (close_browser w) (\<lambda>_.
          io_bind (io_modify finish) (\<lambda>_. io_return (Some CCancelled)))
     else
     case (if task = None then None else wt_notice w) of
       Some (NPrompt p) \<Rightarrow> io_return (Some (CBrowser p))
     | Some (NFailed e) \<Rightarrow>
         io_bind (io_modify (cancel_session False)) (\<lambda>_.
         io_bind (close_browser w) (\<lambda>_.
         io_bind (io_modify finish) (\<lambda>_. io_return (Some (CFailed e)))))
     | None \<Rightarrow>
         io_bind (session_acts U (wt_during w)) (\<lambda>_.
         io_bind (io_lift (wt_event w)) (\<lambda>e.
         receive_event U w
           (if ends_session e \<and> task \<noteq> None then late_failure (wt_late w) e else e))))) (came q w)"
  proof (rule ends_bind [where R = "\<lambda>x m. steady q m \<and> snd (snd x) = si_task m"])
    fix x :: "bool \<times> bool \<times> uuid option"
    obtain terminal cancelled task where x: "x = (terminal, cancelled, task)" by (cases x)
    have n: "ends (\<lambda>m. steady q m \<and> task = si_task m) (io_return (Some (CBrowser p))) (came q w)"
      if "task \<noteq> None" for p
      using that by (auto simp: ends_def io_return_def came_def steady_def ends_sign_in_def)
    have c: "ends (steady q) (io_bind (close_browser w) (\<lambda>_.
          io_bind (io_modify finish) (\<lambda>_. io_return (Some CCancelled)))) (came q w)"
      by (rule close_then) simp
    have f: "ends (steady q) (io_bind (io_modify (cancel_session False)) (\<lambda>_.
         io_bind (close_browser w) (\<lambda>_.
         io_bind (io_modify finish) (\<lambda>_. io_return (Some (CFailed e)))))) (came q w)" for e
      by (rule ends_bind [where R = "\<lambda>_. steady q"], simp add: ends_def io_modify_def, rule close_then) simp
    show "ends (\<lambda>m. steady q m \<and> snd (snd x) = si_task m) (case x of (terminal, cancelled, task) \<Rightarrow>
       if terminal then io_return None
       else if cancelled
       then io_bind (close_browser w) (\<lambda>_.
            io_bind (io_modify finish) (\<lambda>_. io_return (Some CCancelled)))
       else
       case (if task = None then None else wt_notice w) of
         Some (NPrompt p) \<Rightarrow> io_return (Some (CBrowser p))
       | Some (NFailed e) \<Rightarrow>
           io_bind (io_modify (cancel_session False)) (\<lambda>_.
           io_bind (close_browser w) (\<lambda>_.
           io_bind (io_modify finish) (\<lambda>_. io_return (Some (CFailed e)))))
       | None \<Rightarrow>
           io_bind (session_acts U (wt_during w)) (\<lambda>_.
           io_bind (io_lift (wt_event w)) (\<lambda>e.
           receive_event U w
             (if ends_session e \<and> task \<noteq> None then late_failure (wt_late w) e else e)))) (came q w)"
    proof -
      have pre: "ends (\<lambda>m. steady q m \<and> snd (snd x) = si_task m) g (came q w)"
        if "ends (steady q) g (came q w)" for g :: "('a, 'b, 'b client_event option) sign_in_io"
        by (rule ends_weaken [OF that]) simp_all
      have last: "ends (\<lambda>m. steady q m \<and> snd (snd x) = si_task m) (case b of
         Some (NPrompt p) \<Rightarrow> io_return (Some (CBrowser p))
       | Some (NFailed e) \<Rightarrow>
           io_bind (io_modify (cancel_session False)) (\<lambda>_.
           io_bind (close_browser w) (\<lambda>_.
           io_bind (io_modify finish) (\<lambda>_. io_return (Some (CFailed e)))))
       | None \<Rightarrow>
           io_bind (session_acts U (wt_during w)) (\<lambda>_.
           io_bind (io_lift (wt_event w)) (\<lambda>e.
           receive_event U w
             (if ends_session e \<and> task \<noteq> None then late_failure (wt_late w) e else e)))) (came q w)"
        if "b \<noteq> None \<Longrightarrow> task \<noteq> None" for b
      proof (cases b)
        case None
        then show ?thesis using pre [OF d [of "task \<noteq> None"]] by simp
      next
        case (Some y)
        then have "task \<noteq> None" using that by simp
        with Some show ?thesis using n f [THEN pre] x by (cases y) simp_all
      qed
      define b where "b = (if task = None then None else wt_notice w)"
      have "b \<noteq> None \<Longrightarrow> task \<noteq> None" by (simp add: b_def split: if_splits)
      then show ?thesis
        unfolding x prod.case b_def [symmetric]
        using last [of b] c [THEN pre] x
        by (cases terminal; cases cancelled)
           (simp_all add: ends_def [of _ "io_return None"] io_return_def came_plain)
    qed
  qed (simp add: ends_def io_get_def)
qed (auto simp: came_plain)

lemma session_recv_terminal:
  assumes "si_terminal m"
  shows "\<exists>m'. session_recv U w m = (Done None, m') \<and> si_terminal m'"
proof -
  obtain m1 where a: "session_acts U (wt_before w) m = (Done (), m1)"
    by (simp add: session_acts_def io_modify_def)
  have "si_terminal m1" using steady_course(2) [OF unmovedD [OF course_acts a]] assms by simp
  then show ?thesis by (simp add: session_recv_def io_defs a)
qed

lemma session_run_terminal: "si_terminal m \<Longrightarrow> session_run U ws m = []"
proof (induction ws arbitrary: m)
  case (Cons w ws)
  then show ?case using session_recv_terminal [OF Cons.prems, of U w] by auto
qed simp

text \<open>C20: the events of a sign-in, over any number of waits and whatever other threads, the engine and
  the browser do, contain at most one end, as the last of them; a handoff among them is one the
  engine gave; and a sign-in begun without interaction never asks for a reply, a certificate or a
  browser.\<close>

theorem sign_in_ends_once:
  assumes "\<not> si_terminal m" "si_task m = None"
  shows "list_all (\<lambda>e. \<not> ends_sign_in e) (butlast (session_run U ws m))
    \<and> list_all (\<lambda>e. case e of
          CAuthenticated h \<Rightarrow> list_ex (\<lambda>w. wt_event w = Inr (Some (EvAuthenticated h))) ws
        | _ \<Rightarrow> True) (session_run U ws m)
    \<and> (\<not> si_non_interactive m \<or> list_all (\<lambda>e. \<not> asks_for_input e) (session_run U ws m))"
proof -
  have "list_all (\<lambda>e. \<not> ends_sign_in e) (butlast (session_run U ws m))
      \<and> list_all (\<lambda>e. case e of
            CAuthenticated h \<Rightarrow> list_ex (\<lambda>w. wt_event w = Inr (Some (EvAuthenticated h))) ws
          | _ \<Rightarrow> True) (session_run U ws m)
      \<and> (q \<longrightarrow> list_all (\<lambda>e. \<not> asks_for_input e) (session_run U ws m))" if "steady q m" for q
    using that
  proof (induction ws arbitrary: m)
    case (Cons w ws)
    obtain r m1 where s: "session_recv U w m = (r, m1)" by (cases "session_recv U w m")
    have c: "came q w r m1" by (rule endsD [OF session_recv_ends Cons.prems s])
    then have q: "steady q m1" by (simp add: came_def)
    note IH = Cons.IH [OF q]
    have later: "list_all (\<lambda>e. case e of
          CAuthenticated h \<Rightarrow> list_ex (\<lambda>w. wt_event w = Inr (Some (EvAuthenticated h))) (w # ws)
        | _ \<Rightarrow> True) (session_run U ws m1)"
      using IH by (auto simp: list_all_iff split: client_event.splits)
    show ?case
    proof (cases r)
      case (Done x)
      show ?thesis
      proof (cases x)
        case None
        then show ?thesis using IH later s Done by simp
      next
        case (Some e)
        have e: "q \<longrightarrow> \<not> asks_for_input e" "ends_sign_in e \<longrightarrow> session_run U ws m1 = []"
          "case e of CAuthenticated h \<Rightarrow> wt_event w = Inr (Some (EvAuthenticated h)) | _ \<Rightarrow> True"
          using c Done Some session_run_terminal by (auto simp: came_def split: client_event.splits)
        show ?thesis
          using IH later s Done Some e by (auto split: client_event.splits)
      qed
    qed (use s in simp_all)
  qed simp
  from this [of "si_non_interactive m"] assms(2) show ?thesis by (simp add: steady_def)
qed

section \<open>A sample\<close>

definition asked_certificate :: certificate_prompt where
  "asked_certificate =
     \<lparr>cp_prompt_id = 3, cp_attempt_id = 5, cp_host = ''vpn'', cp_port = 443, cp_reason = [],
      cp_details = [], cp_fingerprint = ''pin-sha256:x'', changed_pin = False\<rparr>"

definition sample_sign_in :: "((string \<times> string) list, unit) sign_in" where
  "sample_sign_in =
     \<lparr>si_native = fresh_shared\<lparr>sh_pending := Some (PCertificate 3)\<rparr>, si_desk = fe_desk sample_front,
      si_certificates = [(3, asked_certificate)], si_cancelled = False, si_browser = None,
      si_browser_stopped = False, si_task = None, si_notices = [], si_save_password = Some ''pw'',
      si_terminal = False, si_profile = 7, si_non_interactive = True\<rparr>"

definition sample_handoff :: "unit auth_handoff" where
  "sample_handoff =
     \<lparr>ho_protocol = ''anyconnect'', connect_url = (), dns_name = ''vpn'', peer_address = None,
      peer_fingerprint = [], cookie = ''c'', proxy_credentials = None, expires_at = None,
      tunnel_options = \<lparr>to_proxy = None, to_sni = None, to_user_agent = None, to_reported_os = None,
        to_mtu = None, to_disable_dtls = False, to_disable_ipv6 = False, to_reconnect_timeout_secs = 0\<rparr>\<rparr>"

definition sample_wait :: "unit auth_event option \<Rightarrow> unit wait" where
  "sample_wait e =
     \<lparr>wt_before = [], wt_during = [], wt_notice = None, wt_event = Inr e, wt_late = [],
      wt_close = Inr (), wt_start = Inr 9\<rparr>"

lemma sample_sign_in_run:
  "session_run sample_user (map sample_wait [None, Some (EvAuthenticated sample_handoff), Some EvCancelled])
     sample_sign_in = [CAuthenticated sample_handoff]"
  by code_simp

lemma sample_pin_fails:
  "(case session_certificate_reply ''x'' sample_user sample_folder 3 PinCertificate sample_sign_in of
      (r, m) \<Rightarrow> (case r of Fault _ \<Rightarrow> True | _ \<Rightarrow> False) \<and> si_desk m \<noteq> si_desk sample_sign_in)"
  by code_simp

theorem saved_pin_was_accepted_witness:
  "si_cancelled (snd (session_certificate_reply ''x'' sample_user sample_folder 3 PinCertificate sample_sign_in))"
proof -
  obtain r m where run:
    "session_certificate_reply ''x'' sample_user sample_folder 3 PinCertificate sample_sign_in = (r, m)"
    by (cases "session_certificate_reply ''x'' sample_user sample_folder 3 PinCertificate sample_sign_in")
  with sample_pin_fails obtain e where "r = Fault e" "si_desk m \<noteq> si_desk sample_sign_in"
    by (cases r) simp_all
  with saved_pin_was_accepted [OF run] run show ?thesis by simp
qed

theorem sign_in_ends_once_witness:
  "list_ex (\<lambda>w. wt_event w = Inr (Some (EvAuthenticated sample_handoff)))
     (map sample_wait [None, Some (EvAuthenticated sample_handoff), Some EvCancelled])"
proof -
  have "\<not> si_terminal sample_sign_in" "si_task sample_sign_in = None"
    by (simp_all add: sample_sign_in_def)
  from sign_in_ends_once [OF this, of sample_user
      "map sample_wait [None, Some (EvAuthenticated sample_handoff), Some EvCancelled]"]
  show ?thesis unfolding sample_sign_in_run by simp
qed

end
